(* ===== verification/Prelude.thy ===== *)
theory Prelude
  imports Main "HOL-Library.Multiset"
begin

text \<open>
  Shared vocabulary of the development.

  JavaScript's \<^verbatim>\<open>Map\<close> and a keyed SQLite table are both modelled as insertion-ordered
  association lists: \<open>jget\<close> looks a key up, \<open>jset\<close> replaces the entry in place or appends
  it (the order \<^verbatim>\<open>Map.prototype.set\<close> keeps), \<open>jdel\<close> removes it. The locale
  \<open>keyed_store\<close> states the laws clients rely on and \<open>js_map\<close> is its interpretation.
  \<^verbatim>\<open>Set\<close> is a duplicate-free list (\<open>sadd\<close>, \<open>sdel\<close>).

  A failing operation returns \<open>Inl\<close> of its error; \<open>'a res\<close> abbreviates the sum.
\<close>

section \<open>Collections of rules\<close>

named_theorems store_simps \<open>look-up after an update of an association map\<close>
named_theorems inv_intros \<open>preservation of invariants by operations\<close>

section \<open>Insertion-ordered maps\<close>

type_synonym ('k, 'v) jsmap = "('k \<times> 'v) list"

fun jget :: "('k, 'v) jsmap \<Rightarrow> 'k \<Rightarrow> 'v option" where
  "jget [] k = None"
| "jget ((a, b) # m) k = (if a = k then Some b else jget m k)"

fun jset :: "'k \<Rightarrow> 'v \<Rightarrow> ('k, 'v) jsmap \<Rightarrow> ('k, 'v) jsmap" where
  "jset k v [] = [(k, v)]"
| "jset k v ((a, b) # m) = (if a = k then (a, v) # m else (a, b) # jset k v m)"

fun jdel :: "'k \<Rightarrow> ('k, 'v) jsmap \<Rightarrow> ('k, 'v) jsmap" where
  "jdel k [] = []"
| "jdel k ((a, b) # m) = (if a = k then jdel k m else (a, b) # jdel k m)"

definition jhas :: "('k, 'v) jsmap \<Rightarrow> 'k \<Rightarrow> bool" where
  "jhas m k = (jget m k \<noteq> None)"

definition jkeys :: "('k, 'v) jsmap \<Rightarrow> 'k list" where
  "jkeys m = map fst m"

definition jvals :: "('k, 'v) jsmap \<Rightarrow> 'v list" where
  "jvals m = map snd m"

text \<open>An update of the entry under a key, when there is one (an SQL \<^verbatim>\<open>UPDATE ... WHERE key = ?\<close>).\<close>

definition jupd :: "'k \<Rightarrow> ('v \<Rightarrow> 'v) \<Rightarrow> ('k, 'v) jsmap \<Rightarrow> ('k, 'v) jsmap" where
  "jupd k f m = map (\<lambda>(a, b). if a = k then (a, f b) else (a, b)) m"

definition jwf :: "('k, 'v) jsmap \<Rightarrow> bool" where
  "jwf m = distinct (map fst m)"

text \<open>The sum of a measure over the entries.\<close>

definition jsum :: "('v \<Rightarrow> 'a::comm_monoid_add) \<Rightarrow> ('k, 'v) jsmap \<Rightarrow> 'a" where
  "jsum g m = sum_list (map (\<lambda>e. g (snd e)) m)"

text \<open>A property of all entries.\<close>

definition jall :: "('k \<Rightarrow> 'v \<Rightarrow> bool) \<Rightarrow> ('k, 'v) jsmap \<Rightarrow> bool" where
  "jall P m = list_all (\<lambda>e. P (fst e) (snd e)) m"

section \<open>Sets as duplicate-free lists\<close>

definition sadd :: "'a \<Rightarrow> 'a list \<Rightarrow> 'a list" where
  "sadd x xs = (if x \<in> set xs then xs else xs @ [x])"

definition sdel :: "'a \<Rightarrow> 'a list \<Rightarrow> 'a list" where
  "sdel x xs = filter (\<lambda>y. y \<noteq> x) xs"

section \<open>Results\<close>

text \<open>A truthy optional string: neither undefined nor the empty string.\<close>

definition truthy :: "string option \<Rightarrow> bool" where
  "truthy s = (case s of None \<Rightarrow> False | Some t \<Rightarrow> t \<noteq> [])"

text \<open>The last \<open>n\<close> elements, \<^verbatim>\<open>xs.slice(-n)\<close> for positive \<open>n\<close>.\<close>

definition lastn :: "nat \<Rightarrow> 'a list \<Rightarrow> 'a list" where
  "lastn n xs = drop (length xs - n) xs"

section \<open>Lemmas\<close>

lemma jget_jset [simp, store_simps]: "jget (jset k v m) k' = (if k = k' then Some v else jget m k')"
  by (induction m) auto

lemma jget_jdel [simp, store_simps]: "jget (jdel k m) k' = (if k = k' then None else jget m k')"
  by (induction m) auto

lemma jget_jupd [simp, store_simps]:
  "jget (jupd k f m) k' = (if k = k' then map_option f (jget m k') else jget m k')"
  by (induction m) (auto simp: jupd_def)

lemma jget_append [simp]:
  "jget (m @ n) k = (case jget m k of None \<Rightarrow> jget n k | Some v \<Rightarrow> Some v)"
  by (induction m) auto

lemma jget_map_of: "jget m k = map_of m k"
  by (induction m) auto

lemma jget_None_iff: "jget m k = None \<longleftrightarrow> k \<notin> fst ` set m"
  by (simp add: jget_map_of map_of_eq_None_iff)

lemma jhas_iff: "jhas m k \<longleftrightarrow> k \<in> fst ` set m"
  by (simp add: jhas_def jget_None_iff)

lemma jget_SomeD: "jget m k = Some v \<Longrightarrow> (k, v) \<in> set m"
  by (simp add: jget_map_of map_of_SomeD)

lemma jget_mem: "jwf m \<Longrightarrow> (k, v) \<in> set m \<Longrightarrow> jget m k = Some v"
  by (simp add: jget_map_of jwf_def)

lemma fst_jset: "map fst (jset k v m) = (if k \<in> fst ` set m then map fst m else map fst m @ [k])"
  by (induction m) force+

lemma fst_jdel: "map fst (jdel k m) = filter (\<lambda>a. a \<noteq> k) (map fst m)"
  by (induction m) auto

lemma fst_jupd [simp]: "map fst (jupd k f m) = map fst m"
  by (induction m) (auto simp: jupd_def)

lemma jwf_Nil [simp, inv_intros]: "jwf []"
  by (simp add: jwf_def)

lemma jwf_jset [simp, inv_intros]: "jwf m \<Longrightarrow> jwf (jset k v m)"
  by (auto simp: jwf_def fst_jset simp del: map_map)

lemma jwf_jdel [simp, inv_intros]: "jwf m \<Longrightarrow> jwf (jdel k m)"
  by (simp add: jwf_def fst_jdel)

lemma jwf_jupd [simp, inv_intros]: "jwf m \<Longrightarrow> jwf (jupd k f m)"
  by (simp add: jwf_def)

lemma jwf_snoc: "jwf m \<Longrightarrow> \<not> jhas m k \<Longrightarrow> jwf (m @ [(k, v)])"
  by (auto simp: jwf_def jhas_iff)

lemma jset_fresh: "\<not> jhas m k \<Longrightarrow> jset k v m = m @ [(k, v)]"
  by (induction m) (auto simp: jhas_iff)

lemma jdel_fresh: "\<not> jhas m k \<Longrightarrow> jdel k m = m"
  by (induction m) (auto simp: jhas_iff)

lemma jdel_filter: "jdel k m = filter (\<lambda>e. fst e \<noteq> k) m"
  by (induction m) auto

lemma fold_jdel: "fold jdel ks m = filter (\<lambda>e. fst e \<notin> set ks) m"
  by (induction ks arbitrary: m) (auto simp: jdel_filter conj_commute intro: filter_cong)

lemma jupd_fresh: "k \<notin> fst ` set m \<Longrightarrow> jupd k f m = m"
  unfolding jupd_def by (rule map_idI) force

lemma jupd_ids: "(\<And>v. jget m k = Some v \<Longrightarrow> f v = v) \<Longrightarrow> jwf m \<Longrightarrow> jupd k f m = m"
  unfolding jupd_def by (rule map_idI) (auto dest!: jget_mem)

lemma jset_present: "jhas m k \<Longrightarrow> jwf m \<Longrightarrow> jset k v m = jupd k (\<lambda>_. v) m"
proof (induction m)
  case (Cons e m)
  obtain a b where e: "e = (a, b)" by (cases e)
  have "a = k \<Longrightarrow> jupd k (\<lambda>_. v) m = m" using Cons.prems by (intro jupd_fresh) (simp add: e jwf_def)
  with Cons show ?case by (auto simp: e jwf_def jhas_def jupd_def)
qed (simp add: jhas_def)

lemma jupd_set: "(k', v') \<in> set (jupd k f m) \<longleftrightarrow>
    k' \<noteq> k \<and> (k', v') \<in> set m \<or> k' = k \<and> (\<exists>v. (k, v) \<in> set m \<and> v' = f v)"
proof (induction m)
  case (Cons e m)
  then show ?case by (cases e; cases "fst e = k") (auto simp: jupd_def)
qed (simp add: jupd_def)

lemma find_SomeD: "find P xs = Some x \<Longrightarrow> x \<in> set xs \<and> P x"
  by (auto simp: find_Some_iff)

lemma set_jset: "jwf m \<Longrightarrow> set (jset k v m) = insert (k, v) {e \<in> set m. fst e \<noteq> k}"
  by (induction m) (force simp: jwf_def)+

lemma set_jdel: "set (jdel k m) = {e \<in> set m. fst e \<noteq> k}"
  by (auto simp: jdel_filter)

lemma jall_iff: "jall P m \<longleftrightarrow> (\<forall>k v. (k, v) \<in> set m \<longrightarrow> P k v)"
  by (auto simp: jall_def list_all_iff)

lemma jallD: "jall P m \<Longrightarrow> (k, v) \<in> set m \<Longrightarrow> P k v"
  by (simp add: jall_iff)

lemma jall_jget: "jall P m \<Longrightarrow> jget m k = Some v \<Longrightarrow> P k v"
  by (auto dest: jallD jget_SomeD)

lemma jall_Nil [simp]: "jall P []"
  by (simp add: jall_def)

lemma jall_snoc [simp]: "jall P (m @ [(k, v)]) \<longleftrightarrow> jall P m \<and> P k v"
  by (simp add: jall_def)

lemma jall_jset [inv_intros]: "jall P m \<Longrightarrow> P k v \<Longrightarrow> jall P (jset k v m)"
  by (induction m) (auto simp: jall_def)

lemma jall_jdel [inv_intros]: "jall P m \<Longrightarrow> jall P (jdel k m)"
  by (induction m) (auto simp: jall_def)

lemma jall_jupd [inv_intros]:
  "jall P m \<Longrightarrow> (\<And>v. (k, v) \<in> set m \<Longrightarrow> P k v \<Longrightarrow> P k (f v)) \<Longrightarrow> jall P (jupd k f m)"
  unfolding jall_iff jupd_set by blast

lemma jall_filter [inv_intros]: "jall P m \<Longrightarrow> jall P (filter Q m)"
  by (auto simp: jall_iff)

lemma jall_mono: "jall P m \<Longrightarrow> (\<And>k v. (k, v) \<in> set m \<Longrightarrow> P k v \<Longrightarrow> Q k v) \<Longrightarrow> jall Q m"
  by (auto simp: jall_iff)

lemma jsum_Nil [simp]: "jsum g [] = 0"
  by (simp add: jsum_def)

lemma jsum_Cons [simp]: "jsum g (e # m) = g (snd e) + jsum g m"
  by (simp add: jsum_def)

lemma jsum_append [simp]: "jsum g (m @ n) = jsum g m + jsum g n"
  by (simp add: jsum_def)

lemma jsum_jupd:
  fixes g :: "'v \<Rightarrow> 'a::ab_group_add"
  assumes "jwf m"
  shows "jsum g (jupd k f m) =
    (case jget m k of None \<Rightarrow> jsum g m | Some v \<Rightarrow> jsum g m + (g (f v) - g v))"
  using assms
proof (induction m)
  case (Cons e m)
  then have "k = fst e \<Longrightarrow> jupd k f m = m" by (auto simp: jwf_def intro: jupd_fresh)
  with Cons show ?case
    by (cases e) (auto simp: jwf_def jupd_def algebra_simps split: option.splits)
qed (simp add: jupd_def)

lemma jsum_jdel:
  fixes g :: "'v \<Rightarrow> 'a::ab_group_add"
  assumes "jwf m"
  shows "jsum g (jdel k m) = (case jget m k of None \<Rightarrow> jsum g m | Some v \<Rightarrow> jsum g m - g v)"
  using assms
proof (induction m)
  case (Cons e m)
  then have "k = fst e \<Longrightarrow> jdel k m = m" by (intro jdel_fresh) (auto simp: jwf_def jhas_iff)
  with Cons show ?case by (cases e) (auto simp: jwf_def algebra_simps split: option.splits)
qed simp

lemma jsum_jset:
  fixes g :: "'v \<Rightarrow> 'a::ab_group_add"
  assumes "jwf m"
  shows "jsum g (jset k v m) = jsum g m + g v - (case jget m k of None \<Rightarrow> 0 | Some w \<Rightarrow> g w)"
  using assms
proof (induction m)
  case (Cons e m)
  then show ?case by (cases e) (simp add: jwf_def split: option.splits)
qed simp

lemma jsum_cong: "(\<And>k v. (k, v) \<in> set m \<Longrightarrow> g v = h v) \<Longrightarrow> jsum g m = jsum h m"
  unfolding jsum_def by (intro arg_cong [where f = sum_list] map_cong) auto

lemma jsum_nonneg:
  fixes g :: "'v \<Rightarrow> 'a::ordered_comm_monoid_add"
  shows "(\<And>k v. (k, v) \<in> set m \<Longrightarrow> 0 \<le> g v) \<Longrightarrow> 0 \<le> jsum g m"
  unfolding jsum_def by (intro sum_list_nonneg) auto

lemma jsum_member_le:
  fixes g :: "'v \<Rightarrow> 'a::ordered_ab_group_add"
  assumes "\<And>k v. (k, v) \<in> set m \<Longrightarrow> 0 \<le> g v" and "(k, v) \<in> set m"
  shows "g v \<le> jsum g m"
  using assms
proof (induction m)
  case (Cons e m)
  have "0 \<le> g (snd e)" using Cons.prems(1) [of "fst e" "snd e"] by simp
  moreover have "0 \<le> jsum g m" using Cons.prems(1) by (intro jsum_nonneg) auto
  moreover have "(k, v) \<in> set m \<Longrightarrow> g v \<le> jsum g m" using Cons by auto
  ultimately show ?case using Cons.prems(2) by (auto simp: add_increasing add_increasing2)
qed simp

lemma set_sadd [simp]: "set (sadd x xs) = insert x (set xs)"
  by (auto simp: sadd_def)

lemma set_sdel [simp]: "set (sdel x xs) = set xs - {x}"
  by (auto simp: sdel_def)

lemma distinct_sadd [simp]: "distinct xs \<Longrightarrow> distinct (sadd x xs)"
  by (auto simp: sadd_def)

lemma distinct_sdel [simp]: "distinct xs \<Longrightarrow> distinct (sdel x xs)"
  by (simp add: sdel_def)

lemma length_lastn [simp]: "length (lastn n xs) = min n (length xs)"
  by (simp add: lastn_def)

lemma set_lastn: "set (lastn n xs) \<subseteq> set xs"
  by (simp add: lastn_def set_drop_subset)

section \<open>The interface of a keyed store\<close>

text \<open>
  What a client of a \<^verbatim>\<open>Map\<close> relies on: a look-up after a write returns the written value, other keys
  are untouched, a deleted key is absent and every operation keeps keys unique.
\<close>

locale keyed_store =
  fixes look :: "'s \<Rightarrow> 'k \<Rightarrow> 'v option"
    and put :: "'k \<Rightarrow> 'v \<Rightarrow> 's \<Rightarrow> 's"
    and del :: "'k \<Rightarrow> 's \<Rightarrow> 's"
    and ok :: "'s \<Rightarrow> bool"
  assumes look_put: "look (put k v s) k' = (if k = k' then Some v else look s k')"
    and look_del: "look (del k s) k' = (if k = k' then None else look s k')"
    and ok_put: "ok s \<Longrightarrow> ok (put k v s)"
    and ok_del: "ok s \<Longrightarrow> ok (del k s)"
begin

lemma put_twice: "look (put k w (put k v s)) = look (put k w s)"
  by (rule ext) (simp add: look_put)

lemma put_commutes: "k \<noteq> l \<Longrightarrow> look (put k v (put l w s)) = look (put l w (put k v s))"
  by (rule ext) (auto simp: look_put)

lemma del_put: "look (del k (put k v s)) = look (del k s)"
  by (rule ext) (simp add: look_put look_del)

lemma put_all_look:
  "look (fold (\<lambda>(k, v). put k v) kvs s) k = (case map_of (rev kvs) k of None \<Rightarrow> look s k | Some v \<Rightarrow> Some v)"
proof (induction kvs arbitrary: s)
  case Nil
  then show ?case by simp
next
  case (Cons p kvs)
  then show ?case by (cases p) (auto simp: look_put map_add_def split: option.splits)
qed

end

interpretation js_map: keyed_store jget jset jdel jwf
  by unfold_locales simp_all

end
