(* ===== verification/Number.thy ===== *)
theory Number
  imports Complex_Main "HOL-Library.Log_Nat" Prelude
begin

text \<open>
  JavaScript numbers. A finite number is a rational; every arithmetic operation computes the exact
  result and rounds it to the nearest IEEE 754 double, ties to even (\<open>fl\<close>, with gradual
  underflow; NaN, the infinities and the sign of zero are not represented, so overflow above
  \<open>2 ^ 1024\<close> is outside the model). \<open>Math_round\<close> and \<open>Math_floor\<close> are exact on doubles.

  The locale \<open>nearest_rounding\<close> states what the clients need of a rounding function; \<open>fl\<close>
  is its interpretation. Inside the locale it is shown once that rounding to eight decimals
  recovers integer arithmetic on units of \<open>10 ^ -8\<close>.
\<close>

section \<open>Rounding to double\<close>

type_synonym number = rat

definition ilog2 :: "rat \<Rightarrow> int" where
  "ilog2 x = (case quotient_of x of (p, q) \<Rightarrow>
     let k = bitlen p - bitlen q in if 2 powi k \<le> x then k else k - 1)"

definition round_half_even :: "rat \<Rightarrow> int" where
  "round_half_even x = (let f = \<lfloor>x\<rfloor>; d = x - of_int f in
     if d < 1 / 2 then f else if 1 / 2 < d then f + 1 else if even f then f else f + 1)"

definition ulp_exp :: "rat \<Rightarrow> int" where
  "ulp_exp x = max (- 1074) (ilog2 \<bar>x\<bar> - 52)"

definition fl :: "rat \<Rightarrow> rat" where
  "fl x = (if x = 0 then 0
           else of_int (round_half_even (x / 2 powi ulp_exp x)) * 2 powi ulp_exp x)"

definition is_double :: "rat \<Rightarrow> bool" where
  "is_double x = (\<exists>m e. x = of_int m * 2 powi e \<and> \<bar>m\<bar> \<le> 2 ^ 53 \<and> - 1074 \<le> e)"

section \<open>Arithmetic and the Math functions\<close>

definition fadd :: "number \<Rightarrow> number \<Rightarrow> number" where "fadd x y = fl (x + y)"
definition fsub :: "number \<Rightarrow> number \<Rightarrow> number" where "fsub x y = fl (x - y)"
definition fmul :: "number \<Rightarrow> number \<Rightarrow> number" where "fmul x y = fl (x * y)"
definition fdiv :: "number \<Rightarrow> number \<Rightarrow> number" where "fdiv x y = fl (x / y)"

text \<open>\<^verbatim>\<open>Math.round\<close> rounds halves towards plus infinity.\<close>

definition Math_round :: "number \<Rightarrow> number" where
  "Math_round x = of_int \<lfloor>x + 1 / 2\<rfloor>"

definition Math_floor :: "number \<Rightarrow> number" where
  "Math_floor x = of_int \<lfloor>x\<rfloor>"

definition Math_ceil :: "number \<Rightarrow> number" where
  "Math_ceil x = of_int \<lceil>x\<rceil>"

section \<open>Lemmas on powers of two and logarithms\<close>

lemma pow2_pos [simp]: "0 < (2::rat) powi e"
  by simp

lemma pow2_mono: "d \<le> e \<Longrightarrow> (2::rat) powi d \<le> 2 powi e"
  by (simp add: power_int_increasing)

lemma pow2_strict: "d < e \<Longrightarrow> (2::rat) powi d < 2 powi e"
  by (simp add: power_int_strict_increasing)

lemma pow2_add: "(2::rat) powi (d + e) = 2 powi d * 2 powi e"
  by (simp add: power_int_add)

lemma pow2_Suc: "(2::rat) powi (e + 1) = 2 * 2 powi e"
  by (simp add: power_int_add)

lemma pow2_nat: "0 \<le> e \<Longrightarrow> (2::rat) powi e = 2 ^ nat e"
  by (simp add: power_int_nonneg_exp)

lemma pow2_int: "0 \<le> e \<Longrightarrow> (2::rat) powi e = of_int (2 ^ nat e)"
  by (simp add: pow2_nat)

lemma bitlen_rat_bounds:
  assumes "0 < (p::int)"
  shows "2 powi (bitlen p - 1) \<le> (of_int p :: rat)" and "(of_int p :: rat) < 2 powi bitlen p"
proof -
  have b: "1 \<le> bitlen p" using assms bitlen_eq_zero_iff [of p] bitlen_nonneg [of p] by linarith
  have *: "2 ^ nat (bitlen p - 1) \<le> p" "p < 2 ^ nat (bitlen p)"
    using bitlen_bounds [OF assms] by auto
  have "(2::rat) powi (bitlen p - 1) = of_int (2 ^ nat (bitlen p - 1))"
    using b by (intro pow2_int) simp
  also have "\<dots> \<le> of_int p" using *(1) by (simp only: of_int_le_iff)
  finally show "2 powi (bitlen p - 1) \<le> (of_int p :: rat)" .
  have "(of_int p :: rat) < of_int (2 ^ nat (bitlen p))" using *(2) by (simp only: of_int_less_iff)
  also have "\<dots> = 2 powi bitlen p" using b by (subst pow2_int) auto
  finally show "(of_int p :: rat) < 2 powi bitlen p" .
qed

lemma ilog2_bounds:
  assumes "0 < x"
  shows "2 powi ilog2 x \<le> x" and "x < 2 powi (ilog2 x + 1)"
proof -
  obtain p q where pq: "quotient_of x = (p, q)" by (cases "quotient_of x")
  have q: "0 < q" using quotient_of_denom_pos [OF pq] .
  have x: "x = of_int p / of_int q" using quotient_of_div [OF pq] .
  have p: "0 < p" using assms x q by (simp add: zero_less_divide_iff)
  let ?k = "bitlen p - bitlen q"
  have lo: "2 powi (?k - 1) < x"
  proof -
    have "(2::rat) powi (?k - 1) * of_int q < 2 powi (?k - 1) * 2 powi bitlen q"
      using bitlen_rat_bounds(2) [OF q] by simp
    also have "\<dots> = 2 powi (bitlen p - 1)" by (simp flip: pow2_add)
    also have "\<dots> \<le> of_int p" using bitlen_rat_bounds(1) [OF p] .
    finally show ?thesis using q by (simp add: x pos_less_divide_eq)
  qed
  have hi: "x < 2 powi (?k + 1)"
  proof -
    have "(of_int p :: rat) < 2 powi bitlen p" using bitlen_rat_bounds(2) [OF p] .
    also have "\<dots> = 2 powi (?k + 1) * 2 powi (bitlen q - 1)" by (simp flip: pow2_add)
    also have "\<dots> \<le> 2 powi (?k + 1) * of_int q"
      using bitlen_rat_bounds(1) [OF q] by simp
    finally show ?thesis using q by (simp add: x pos_divide_less_eq)
  qed
  have i: "ilog2 x = (if 2 powi ?k \<le> x then ?k else ?k - 1)"
    by (simp add: ilog2_def pq Let_def)
  show "2 powi ilog2 x \<le> x" using lo i by auto
  show "x < 2 powi (ilog2 x + 1)" using hi i by (auto simp: not_le)
qed

lemma ilog2_unique:
  assumes "2 powi e \<le> x" "x < 2 powi (e + 1)"
  shows "ilog2 x = e"
proof -
  have x: "0 < x" using assms(1) pow2_pos [of e] by linarith
  note b = ilog2_bounds [OF x]
  have "\<not> e + 1 \<le> ilog2 x" using pow2_mono [of "e + 1" "ilog2 x"] b assms by auto
  moreover have "\<not> ilog2 x + 1 \<le> e" using pow2_mono [of "ilog2 x + 1" e] b assms by auto
  ultimately show ?thesis by linarith
qed

lemma ilog2_mono: "0 < x \<Longrightarrow> x \<le> y \<Longrightarrow> ilog2 x \<le> ilog2 y"
proof (rule ccontr)
  assume "0 < x" "x \<le> y" "\<not> ilog2 x \<le> ilog2 y"
  then have "(2::rat) powi (ilog2 y + 1) \<le> 2 powi ilog2 x" by (intro pow2_mono) simp
  also have "\<dots> \<le> x" using ilog2_bounds \<open>0 < x\<close> by blast
  also have "\<dots> \<le> y" by fact
  also have "\<dots> < 2 powi (ilog2 y + 1)" using ilog2_bounds \<open>0 < x\<close> \<open>x \<le> y\<close> by simp
  finally show False by simp
qed

section \<open>Lemmas on rounding\<close>

lemma round_half_even_error: "\<bar>of_int (round_half_even x) - x\<bar> \<le> 1 / 2"
proof -
  have "of_int \<lfloor>x\<rfloor> \<le> x" "x < of_int \<lfloor>x\<rfloor> + 1" by linarith+
  then show ?thesis by (auto simp: round_half_even_def Let_def abs_le_iff)
qed

lemma round_half_even_of_int [simp]: "round_half_even (of_int n) = n"
  by (simp add: round_half_even_def)

lemma round_half_even_mono:
  assumes "x \<le> y"
  shows "round_half_even x \<le> round_half_even y"
proof -
  have f: "\<lfloor>x\<rfloor> \<le> \<lfloor>y\<rfloor>" using assms by (rule floor_mono)
  show ?thesis
  proof (cases "\<lfloor>x\<rfloor> = \<lfloor>y\<rfloor>")
    case True
    then show ?thesis using assms by (auto simp: round_half_even_def Let_def)
  next
    case False
    then have "\<lfloor>x\<rfloor> + 1 \<le> \<lfloor>y\<rfloor>" using f by linarith
    moreover have "round_half_even x \<le> \<lfloor>x\<rfloor> + 1" "\<lfloor>y\<rfloor> \<le> round_half_even y"
      by (auto simp: round_half_even_def Let_def)
    ultimately show ?thesis by linarith
  qed
qed

lemma round_half_even_minus: "round_half_even (- x) = - round_half_even x"
proof (cases "x = of_int \<lfloor>x\<rfloor>")
  case True
  then have "round_half_even (- x) = round_half_even (of_int (- \<lfloor>x\<rfloor>))" by simp
  also have "\<dots> = - \<lfloor>x\<rfloor>" by (rule round_half_even_of_int)
  also have "\<lfloor>x\<rfloor> = round_half_even (of_int \<lfloor>x\<rfloor>)" by simp
  finally show ?thesis using True by simp
next
  case False
  have b: "of_int \<lfloor>x\<rfloor> < x" "x < of_int \<lfloor>x\<rfloor> + 1" using False by linarith+
  have "\<lfloor>- x\<rfloor> = - \<lfloor>x\<rfloor> - 1" by (rule floor_unique) (use b in auto)
  then show ?thesis using b by (auto simp: round_half_even_def Let_def)
qed

lemma fl_0 [simp]: "fl 0 = 0"
  by (simp add: fl_def)

lemma fl_minus: "fl (- x) = - fl x"
  by (simp add: fl_def ulp_exp_def round_half_even_minus)

text \<open>Half of the smallest subnormal, the absolute part of the rounding error.\<close>

definition tiny :: rat where
  "tiny = 1 / 2 ^ 1075"

lemma tiny_bounds: "0 < tiny" "tiny * 10 ^ 30 \<le> 1" "tiny \<le> 1 / 10 ^ 30"
proof -
  show "0 < tiny" by (simp add: tiny_def)
  have "(10::rat) ^ 30 \<le> (2 ^ 4) ^ 30" by (rule power_mono) auto
  also have "\<dots> \<le> 2 ^ 1075" unfolding power_mult [symmetric] by (rule power_increasing) auto
  finally show *: "tiny * 10 ^ 30 \<le> 1" unfolding tiny_def
    by (simp only: times_divide_eq_left mult_1_left divide_le_eq_1) simp
  show "tiny \<le> 1 / 10 ^ 30" using * by (simp add: field_simps)
qed

lemma fl_half_ulp: "x \<noteq> 0 \<Longrightarrow> \<bar>fl x - x\<bar> \<le> 2 powi ulp_exp x / 2"
proof -
  assume "x \<noteq> 0"
  let ?u = "2 powi ulp_exp x :: rat"
  have "fl x - x = (of_int (round_half_even (x / ?u)) - x / ?u) * ?u"
    using \<open>x \<noteq> 0\<close> by (simp add: fl_def left_diff_distrib)
  then have "\<bar>fl x - x\<bar> = \<bar>of_int (round_half_even (x / ?u)) - x / ?u\<bar> * ?u" by (simp add: abs_mult)
  also have "\<dots> \<le> 1 / 2 * ?u" by (intro mult_right_mono round_half_even_error) simp
  finally show ?thesis by simp
qed

lemma fl_error: "\<bar>fl x - x\<bar> \<le> \<bar>x\<bar> / 2 ^ 53 + tiny"
proof (cases "x = 0")
  case False
  let ?u = "2 powi ulp_exp x :: rat"
  have "\<bar>fl x - x\<bar> \<le> 1 / 2 * ?u" using fl_half_ulp [OF False] by simp
  also have "\<dots> \<le> \<bar>x\<bar> / 2 ^ 53 + tiny"
  proof (cases "ilog2 \<bar>x\<bar> - 52 \<le> - 1074")
    case True
    then have "?u = 1 / 2 ^ 1074" by (simp add: ulp_exp_def power_int_minus_divide)
    then have "1 / 2 * ?u = tiny" by (simp add: tiny_def)
    then show ?thesis by simp
  next
    case n: False
    then have "?u = 2 powi ilog2 \<bar>x\<bar> / 2 ^ 52" by (simp add: ulp_exp_def power_int_diff)
    also have "\<dots> \<le> \<bar>x\<bar> / 2 ^ 52" using ilog2_bounds [of "\<bar>x\<bar>"] False by (intro divide_right_mono) auto
    finally show ?thesis using tiny_bounds(1) by simp
  qed
  finally show ?thesis .
qed (use tiny_bounds(1) in simp)

lemma fl_as_int: "0 < x \<Longrightarrow> x = of_int m * 2 powi ulp_exp x \<Longrightarrow> fl x = x"
proof -
  assume "0 < x" and x: "x = of_int m * 2 powi ulp_exp x"
  have "x / 2 powi ulp_exp x = of_int m" by (subst x) simp
  then show "fl x = x" using x \<open>0 < x\<close> by (simp add: fl_def)
qed

lemma fl_double_pos:
  assumes "0 < x" "x = of_int m * 2 powi e" "\<bar>m\<bar> \<le> 2 ^ 53" "- 1074 \<le> e"
  shows "fl x = x"
proof (cases "ulp_exp x \<le> e")
  case True
  then have "x = of_int (m * 2 ^ nat (e - ulp_exp x)) * 2 powi ulp_exp x"
    using assms(2) by (simp add: pow2_nat [symmetric] power_int_diff)
  then show ?thesis using fl_as_int assms(1) by blast
next
  case False
  then have u: "ulp_exp x = ilog2 x - 52" "e + 53 \<le> ilog2 x"
    using assms(1,4) by (auto simp: ulp_exp_def split: if_splits)
  have "2 powi e * 2 ^ 53 = (2::rat) powi (e + 53)" by (simp add: power_int_add)
  also have "\<dots> \<le> 2 powi ilog2 x" using u by (intro pow2_mono) simp
  also have "\<dots> \<le> x" using ilog2_bounds assms(1) by blast
  finally have "(of_int (2 ^ 53) :: rat) \<le> of_int m" using assms(2) by simp
  then have m: "m = 2 ^ 53" using assms(3) by (simp only: of_int_le_iff)
  then have x: "x = 2 powi (e + 53)" using assms(2) by (simp add: power_int_add)
  have "ilog2 x = e + 53" by (rule ilog2_unique) (simp_all add: x power_int_strict_increasing)
  then have "x = of_int (2 ^ 52) * 2 powi ulp_exp x" using u x by (simp add: power_int_add)
  then show ?thesis using fl_as_int assms(1) by blast
qed

lemma fl_double: "is_double x \<Longrightarrow> fl x = x"
proof -
  assume "is_double x"
  then obtain m e where x: "x = of_int m * 2 powi e" "\<bar>m\<bar> \<le> 2 ^ 53" "- 1074 \<le> e"
    by (auto simp: is_double_def)
  consider "x = 0" | "0 < x" | "0 < - x" by linarith
  then show ?thesis
  proof cases
    case 3
    have "fl (- x) = - x" by (rule fl_double_pos [of _ "- m" e]) (use 3 x in auto)
    then show ?thesis by (simp add: fl_minus)
  qed (use x fl_double_pos in auto)
qed

lemma fl_mono_pos:
  assumes "0 < x" "x \<le> y"
  shows "fl x \<le> fl y"
proof -
  let ?u = "2 powi ulp_exp x :: rat"
  have y: "0 < y" using assms by simp
  have i: "ilog2 x \<le> ilog2 y" using ilog2_mono assms by blast
  show ?thesis
  proof (cases "ulp_exp x = ulp_exp y")
    case True
    then show ?thesis using assms y
      by (auto simp: fl_def intro!: mult_right_mono round_half_even_mono divide_right_mono)
  next
    case False
    then have u: "ulp_exp y = ilog2 y - 52" "ulp_exp x \<le> ilog2 y - 53" "ilog2 x < ilog2 y"
      using assms i by (auto simp: ulp_exp_def max_def split: if_splits)
    let ?z = "2 powi ilog2 y :: rat"
    have z: "?z / ?u = of_int (2 ^ nat (ilog2 y - ulp_exp x))"
      using u by (simp add: pow2_nat [symmetric] power_int_diff)
    have "x \<le> ?z" using ilog2_bounds(2) [OF assms(1)] pow2_mono [of "ilog2 x + 1" "ilog2 y"] u by simp
    then have "round_half_even (x / ?u) \<le> round_half_even (?z / ?u)"
      by (intro round_half_even_mono divide_right_mono) auto
    then have "round_half_even (x / ?u) \<le> 2 ^ nat (ilog2 y - ulp_exp x)"
      unfolding z round_half_even_of_int .
    then have "of_int (round_half_even (x / ?u)) \<le> ?z / ?u" unfolding z by (simp only: of_int_le_iff)
    then have "fl x \<le> ?z" using assms by (simp add: fl_def pos_le_divide_eq)
    also have "?z \<le> fl y"
    proof -
      have "(2::int) ^ 52 = round_half_even (of_int (2 ^ 52))" by (simp only: round_half_even_of_int)
      also have "\<dots> \<le> round_half_even (y / 2 powi ulp_exp y)"
        using ilog2_bounds(1) [OF y] u
        by (intro round_half_even_mono) (simp add: pos_le_divide_eq power_int_diff)
      finally have "(of_int (2 ^ 52) :: rat) \<le> of_int (round_half_even (y / 2 powi ulp_exp y))"
        by (simp only: of_int_le_iff)
      then have "of_int (2 ^ 52) * 2 powi ulp_exp y \<le> fl y"
        using y unfolding fl_def by (simp add: mult_right_mono)
      then show ?thesis using u by (simp add: power_int_diff)
    qed
    finally show ?thesis .
  qed
qed

lemma fl_nonneg: "0 \<le> x \<Longrightarrow> 0 \<le> fl x"
  using round_half_even_mono [of 0 "x / 2 powi ulp_exp x"]
  by (auto simp: fl_def round_half_even_def)

lemma fl_mono: "x \<le> y \<Longrightarrow> fl x \<le> fl y"
proof -
  assume xy: "x \<le> y"
  consider "0 < x" | "x \<le> 0" "0 \<le> y" | "y < 0" by linarith
  then show ?thesis
  proof cases
    case 1
    then show ?thesis using fl_mono_pos xy by blast
  next
    case 2
    then have "0 \<le> fl (- x)" "0 \<le> fl y" by (auto intro: fl_nonneg)
    then show ?thesis by (simp add: fl_minus)
  next
    case 3
    then have "fl (- y) \<le> fl (- x)" using xy by (intro fl_mono_pos) auto
    then show ?thesis by (simp add: fl_minus)
  qed
qed

lemma is_double_fl: "is_double (fl x)"
proof (cases "x = 0")
  case True
  then show ?thesis by (auto simp: is_double_def intro!: exI [of _ 0])
next
  case False
  let ?u = "2 powi ulp_exp x :: rat"
  have "\<bar>x\<bar> < 2 powi (ilog2 \<bar>x\<bar> + 1)" using ilog2_bounds False by simp
  also have "\<dots> \<le> 2 powi (53 + ulp_exp x)" by (intro pow2_mono) (auto simp: ulp_exp_def)
  also have "\<dots> = 2 ^ 53 * ?u" by (simp add: power_int_add)
  finally have b: "x / ?u \<le> of_int (2 ^ 53)" "of_int (- (2 ^ 53)) \<le> x / ?u"
    by (auto simp: pos_divide_le_eq pos_le_divide_eq abs_less_iff)
  have "round_half_even (x / ?u) \<le> 2 ^ 53" "- (2 ^ 53) \<le> round_half_even (x / ?u)"
    using round_half_even_mono [OF b(1)] round_half_even_mono [OF b(2)]
    unfolding round_half_even_of_int by auto
  then have "\<bar>round_half_even (x / ?u)\<bar> \<le> 2 ^ 53" by (simp add: abs_le_iff)
  moreover have "- 1074 \<le> ulp_exp x" by (simp add: ulp_exp_def)
  ultimately show ?thesis unfolding is_double_def fl_def using False by auto
qed

section \<open>The interface of a rounding function\<close>

text \<open>
  What the components use of double rounding: it is monotone, leaves doubles alone, yields doubles
  and has half a unit in the last place of error (relative in the normal range, absolute below it).
\<close>

locale nearest_rounding =
  fixes rnd :: "rat \<Rightarrow> rat"
  assumes rnd_mono: "x \<le> y \<Longrightarrow> rnd x \<le> rnd y"
    and rnd_fix: "is_double x \<Longrightarrow> rnd x = x"
    and rnd_double: "is_double (rnd x)"
    and rnd_error: "\<bar>rnd x - x\<bar> \<le> \<bar>x\<bar> / 2 ^ 53 + tiny"
begin

lemma rnd_idem: "rnd (rnd x) = rnd x"
  by (rule rnd_fix [OF rnd_double])

lemma rnd_le: "x \<le> d \<Longrightarrow> is_double d \<Longrightarrow> rnd x \<le> d"
  using rnd_mono [of x d] rnd_fix by simp

lemma rnd_ge: "d \<le> x \<Longrightarrow> is_double d \<Longrightarrow> d \<le> rnd x"
  using rnd_mono [of d x] rnd_fix by simp

text \<open>
  Scaling by \<open>10 ^ 8\<close>, rounding to an integer and scaling back lands on the double nearest to
  \<open>k / 10 ^ 8\<close> as soon as the scaled value is close enough to the integer \<open>k\<close>.
\<close>

lemma scaled_round:
  assumes "\<bar>v * 10 ^ 8 - of_int k\<bar> + (\<bar>v * 10 ^ 8\<bar> / 2 ^ 53 + tiny) < 1 / 2"
  shows "rnd (of_int \<lfloor>rnd (v * 10 ^ 8) + 1 / 2\<rfloor> / 10 ^ 8) = rnd (of_int k / 10 ^ 8)"
proof -
  have "\<bar>rnd (v * 10 ^ 8) - of_int k\<bar> < 1 / 2"
    using rnd_error [of "v * 10 ^ 8"] assms by linarith
  then have "\<lfloor>rnd (v * 10 ^ 8) + 1 / 2\<rfloor> = k"
    by (intro floor_unique) (simp_all only: abs_less_iff, linarith+)
  then show ?thesis by simp
qed

lemma unit_error:
  "\<bar>rnd (of_int k / 10 ^ 8) * 10 ^ 8 - of_int k\<bar> \<le> \<bar>of_int k\<bar> / 2 ^ 53 + 1 / 10 ^ 20"
proof -
  have "rnd (of_int k / 10 ^ 8) * 10 ^ 8 - of_int k = (rnd (of_int k / 10 ^ 8) - of_int k / 10 ^ 8) * 10 ^ 8"
    by (simp add: left_diff_distrib)
  then have "\<bar>rnd (of_int k / 10 ^ 8) * 10 ^ 8 - of_int k\<bar>
      = \<bar>rnd (of_int k / 10 ^ 8) - of_int k / 10 ^ 8\<bar> * 10 ^ 8"
    by (simp only: abs_mult) simp
  also have "\<dots> \<le> (\<bar>of_int k / 10 ^ 8\<bar> / 2 ^ 53 + tiny) * 10 ^ 8"
    by (intro mult_right_mono rnd_error) simp
  also have "\<dots> = \<bar>of_int k\<bar> / 2 ^ 53 + tiny * 10 ^ 8" by (simp add: distrib_right)
  also have "\<dots> \<le> \<bar>of_int k\<bar> / 2 ^ 53 + 1 / 10 ^ 20" using tiny_bounds by simp
  finally show ?thesis .
qed

end

interpretation dbl: nearest_rounding fl
  by unfold_locales (rule fl_mono fl_double is_double_fl fl_error; assumption?)+

end
