(* ===== verification/Types.thy ===== *)
theory Types
  imports Number
begin

text \<open>
  The shared types and constants (\<^verbatim>\<open>packages/shared/src/types.ts\<close>) that the ledger, payment,
  governance and witness components use, and \<^verbatim>\<open>roundLux\<close>. A string enum or union of string
  literals is a datatype with the source's cases, an interface a record whose fields carry a short
  prefix, an optional field an \<open>option\<close>. Millisecond timestamps are integers.

  The lemmas relate Lux arithmetic on doubles to integer arithmetic on units of \<open>10 ^ -8\<close> Lux:
  \<open>lux k\<close> is the double nearest to \<open>k\<close> units, and adding or subtracting such values followed
  by \<open>roundLux\<close> is integer addition and subtraction as long as amounts stay below \<open>2 ^ 50\<close> units.
\<close>

section \<open>Ledger types\<close>

type_synonym peer_id = string
type_synonym time = int

record Account =
  ac_peerId :: peer_id
  ac_publicKey :: string
  ac_balance :: number
  ac_createdAt :: time
  ac_updatedAt :: time

text \<open>\<^verbatim>\<open>TransactionType\<close> has two values; a record that arrives from the network is only cast to the
  type, so its field may hold any other string, which \<open>UNKNOWN_TYPE\<close> stands for.\<close>

datatype TransactionType = TRANSFER | EMISSION | UNKNOWN_TYPE string

record Transaction =
  tx_id :: string
  tx_from :: peer_id
  tx_to :: peer_id
  tx_amount :: number
  tx_fee :: number
  tx_relay :: "peer_id option"
  tx_type :: TransactionType
  tx_timestamp :: time
  tx_signature :: string

datatype WorkType =
    QUERY_ANSWERED | CODE_VERIFIED | CONTENT_RELAYED | API_CONTRIBUTED | PEER_RELAYED
  | PROPOSAL_ACCEPTED | VOTE_CAST | TASK_COMPLETED | UPTIME_EPOCH | GUEST_WELCOME
  | COMPUTE_CONTRIBUTED

record Emission =
  em_id :: string
  em_peerId :: peer_id
  em_amount :: number
  em_workType :: WorkType
  em_workProof :: string
  em_timestamp :: time

datatype ApiProvider = CLAUDE | OPENAI | GOOGLE | OTHER

record ApiContribution =
  api_id :: nat
  api_peerId :: peer_id
  api_provider :: ApiProvider
  api_monthlyCap :: number
  api_usedUsd :: number
  api_tasksCompleted :: int
  api_luxEarned :: number
  api_registeredAt :: time
  api_lastUsedAt :: "time option"
  api_active :: bool

section \<open>Token economics\<close>

definition LUX_HARD_CAP :: number where "LUX_HARD_CAP = 10000000000"
definition LUX_PER_USD :: number where "LUX_PER_USD = 100"
definition RELAY_FEE_RATE :: number where "RELAY_FEE_RATE = fl (1 / 1000)"
definition LUX_PRECISION :: nat where "LUX_PRECISION = 8"

definition roundLux :: "number \<Rightarrow> number" where
  "roundLux v = fdiv (Math_round (fmul v (10 ^ 8))) (10 ^ 8)"

definition NETWORK_ACCOUNT :: peer_id where "NETWORK_ACCOUNT = ''NETWORK''"

fun EMISSION_REWARDS :: "WorkType \<Rightarrow> number" where
  "EMISSION_REWARDS QUERY_ANSWERED = 1"
| "EMISSION_REWARDS CODE_VERIFIED = 5"
| "EMISSION_REWARDS CONTENT_RELAYED = fl (1 / 100)"
| "EMISSION_REWARDS API_CONTRIBUTED = 2"
| "EMISSION_REWARDS PEER_RELAYED = fl (1 / 1000)"
| "EMISSION_REWARDS PROPOSAL_ACCEPTED = 5"
| "EMISSION_REWARDS VOTE_CAST = fl (1 / 10)"
| "EMISSION_REWARDS TASK_COMPLETED = 5"
| "EMISSION_REWARDS UPTIME_EPOCH = fl (5 / 100)"
| "EMISSION_REWARDS GUEST_WELCOME = 25"
| "EMISSION_REWARDS COMPUTE_CONTRIBUTED = 10"

definition DAILY_EMISSION_CAP :: number where "DAILY_EMISSION_CAP = 500"

definition EARLY_MULTIPLIERS_FIRST_100 :: number where "EARLY_MULTIPLIERS_FIRST_100 = 5"
definition EARLY_MULTIPLIERS_FIRST_1000 :: number where "EARLY_MULTIPLIERS_FIRST_1000 = 3"
definition EARLY_MULTIPLIERS_FIRST_10000 :: number where "EARLY_MULTIPLIERS_FIRST_10000 = 2"
definition EARLY_MULTIPLIERS_AFTER :: number where "EARLY_MULTIPLIERS_AFTER = 1"

section \<open>Activity and agent scores\<close>

record ActivityRecord =
  act_id :: string
  act_agentId :: string
  act_nodeId :: string
  act_agentRole :: string
  act_agentTier :: int
  act_modelId :: string
  act_action :: string
  act_timestamp :: time
  act_summary :: string
  act_details :: "string option"
  act_proposalId :: "string option"
  act_taskId :: "string option"
  act_transactionId :: "string option"
  act_signature :: string

record AgentScore =
  sc_peerId :: peer_id
  sc_totalCommits :: nat
  sc_successfulBuilds :: nat
  sc_failedBuilds :: nat
  sc_revertsTriggered :: nat
  sc_proposalsCreated :: nat
  sc_proposalsAccepted :: nat
  sc_score :: number
  sc_updatedAt :: time

section \<open>Payments\<close>

datatype CostTier = tier_free | tier_basic | tier_standard | tier_premium

record CostEstimate =
  ce_luxAmount :: number
  ce_compute :: number
  ce_storage :: number
  ce_network :: number
  ce_tier :: CostTier

datatype HoldStatus = held | released | refunded

record PaymentHold =
  ph_holdId :: string
  ph_peerId :: peer_id
  ph_taskId :: string
  ph_amount :: number
  ph_status :: HoldStatus
  ph_createdAt :: time
  ph_updatedAt :: time

datatype PaymentType = pt_payment | pt_refund | pt_earning

record PaymentRecord =
  pr_holdId :: string
  pr_peerId :: peer_id
  pr_taskId :: string
  pr_amount :: number
  pr_type :: PaymentType
  pr_timestamp :: time

section \<open>Units of Lux\<close>

text \<open>The double that stands for \<open>k\<close> units of \<open>10 ^ -8\<close> Lux.\<close>

definition lux :: "int \<Rightarrow> number" where
  "lux k = fl (of_int k / 10 ^ 8)"

text \<open>The largest number of units for which double arithmetic is shown to be exact.\<close>

definition UNIT_LIMIT :: int where
  "UNIT_LIMIT = 2 ^ 50"

lemma roundLux_alt: "roundLux v = fl (of_int \<lfloor>fl (v * 10 ^ 8) + 1 / 2\<rfloor> / 10 ^ 8)"
  by (simp add: roundLux_def fdiv_def fmul_def Math_round_def)

lemma roundLux_mono: "x \<le> y \<Longrightarrow> roundLux x \<le> roundLux y"
  unfolding roundLux_alt
  by (intro fl_mono divide_right_mono) (auto intro!: floor_mono add_right_mono fl_mono)

lemma lux_mono: "j \<le> k \<Longrightarrow> lux j \<le> lux k"
  unfolding lux_def by (intro fl_mono divide_right_mono) auto

lemma lux_0 [simp]: "lux 0 = 0"
  by (simp add: lux_def)

lemma roundLux_0 [simp]: "roundLux 0 = 0"
proof -
  have "\<lfloor>1 / 2 :: rat\<rfloor> = 0" by (simp add: floor_eq_iff)
  then show ?thesis by (simp add: roundLux_alt)
qed

lemma roundLux_nonneg: "0 \<le> x \<Longrightarrow> 0 \<le> roundLux x"
  using roundLux_mono [of 0 x] by simp

lemma lux_nonneg: "0 \<le> k \<Longrightarrow> 0 \<le> lux k"
  using lux_mono [of 0 k] by simp

text \<open>A value within less than half a unit of \<open>k\<close> units rounds to \<open>k\<close> units.\<close>

lemma roundLux_near:
  assumes a: "\<bar>v * 10 ^ 8 - of_int k\<bar> \<le> e" and b: "e + \<bar>of_int k\<bar> / 2 ^ 53 < 49 / 100"
  shows "roundLux v = lux k"
proof -
  have "0 \<le> \<bar>of_int k\<bar> / (2 ^ 53 :: rat)" by simp
  then have e: "0 \<le> e" "e \<le> 1" using a b by linarith+
  have "\<bar>v * 10 ^ 8\<bar> \<le> \<bar>of_int k\<bar> + e" using a by linarith
  then have "\<bar>v * 10 ^ 8\<bar> / 2 ^ 53 \<le> (\<bar>of_int k\<bar> + e) / 2 ^ 53" by (rule divide_right_mono) simp
  also have "\<dots> \<le> \<bar>of_int k\<bar> / 2 ^ 53 + 1 / 1000" using e by (simp add: add_divide_distrib)
  finally have "\<bar>v * 10 ^ 8 - of_int k\<bar> + (\<bar>v * 10 ^ 8\<bar> / 2 ^ 53 + tiny) < 1 / 2"
    using a b tiny_bounds(3) by simp
  then show ?thesis unfolding roundLux_alt lux_def by (rule dbl.scaled_round)
qed

lemma lux_near: "\<bar>lux k * 10 ^ 8 - of_int k\<bar> \<le> \<bar>of_int k\<bar> / 2 ^ 53 + 1 / 10 ^ 20"
  unfolding lux_def by (rule dbl.unit_error)

text \<open>One rounding step moves a value of \<open>z\<close> units by a relative \<open>2 ^ -53\<close>.\<close>

lemma fl_near:
  assumes a: "\<bar>x * 10 ^ 8 - z\<bar> \<le> e" and e: "e \<le> 1"
  shows "\<bar>fl x * 10 ^ 8 - z\<bar> \<le> e + \<bar>z\<bar> / 2 ^ 53 + 1 / 10 ^ 9"
proof -
  have "\<bar>x * 10 ^ 8\<bar> \<le> \<bar>z\<bar> + 1" using a e by linarith
  then have "\<bar>x\<bar> * 10 ^ 8 / 2 ^ 53 \<le> (\<bar>z\<bar> + 1) / 2 ^ 53"
    by (intro divide_right_mono) (auto simp: abs_mult)
  then have b: "\<bar>x\<bar> / 2 ^ 53 * 10 ^ 8 \<le> \<bar>z\<bar> / 2 ^ 53 + 1 / 10 ^ 10"
    by (simp add: add_divide_distrib)
  have "\<bar>fl x - x\<bar> * 10 ^ 8 \<le> (\<bar>x\<bar> / 2 ^ 53 + tiny) * 10 ^ 8"
    by (intro mult_right_mono fl_error) simp
  also have "\<dots> = \<bar>x\<bar> / 2 ^ 53 * 10 ^ 8 + tiny * 10 ^ 8" by (simp add: distrib_right)
  also have "\<dots> \<le> \<bar>z\<bar> / 2 ^ 53 + 1 / 10 ^ 9" using b tiny_bounds by simp
  finally have c: "\<bar>fl x - x\<bar> * 10 ^ 8 \<le> \<bar>z\<bar> / 2 ^ 53 + 1 / 10 ^ 9" .
  have "\<bar>fl x * 10 ^ 8 - z\<bar> \<le> \<bar>(fl x - x) * 10 ^ 8\<bar> + \<bar>x * 10 ^ 8 - z\<bar>"
    by (simp add: left_diff_distrib)
  moreover have "\<bar>(fl x - x) * 10 ^ 8\<bar> = \<bar>fl x - x\<bar> * 10 ^ 8" by (simp only: abs_mult) simp
  ultimately show ?thesis using a c by linarith
qed

lemma lux_plus_near:
  assumes d: "\<bar>d * 10 ^ 8 - of_int k\<bar> \<le> e"
    and b: "\<bar>of_int j\<bar> / 2 ^ 53 + e + 2 * (\<bar>of_int (j + k)\<bar> / 2 ^ 53) \<le> (48 / 100 :: rat)"
  shows "roundLux (fadd (lux j) d) = lux (j + k)"
proof (rule roundLux_near)
  let ?z = "of_int (j + k) :: rat" and ?e = "\<bar>of_int j\<bar> / 2 ^ 53 + 1 / 10 ^ 20 + e :: rat"
  have z: "0 \<le> \<bar>?z\<bar> / 2 ^ 53" by simp
  have "(lux j + d) * 10 ^ 8 - ?z = (lux j * 10 ^ 8 - of_int j) + (d * 10 ^ 8 - of_int k)"
    by (simp add: distrib_right)
  then have *: "\<bar>(lux j + d) * 10 ^ 8 - ?z\<bar> \<le> ?e" using lux_near [of j] d by linarith
  have "1 / 10 ^ 20 \<le> (1 / 100 :: rat)" by simp
  then have e1: "?e \<le> 1" using b z by linarith
  show "\<bar>fadd (lux j) d * 10 ^ 8 - ?z\<bar> \<le> ?e + \<bar>?z\<bar> / 2 ^ 53 + 1 / 10 ^ 9"
    unfolding fadd_def by (rule fl_near [OF * e1])
  show "?e + \<bar>?z\<bar> / 2 ^ 53 + 1 / 10 ^ 9 + \<bar>?z\<bar> / 2 ^ 53 < 49 / 100"
    using b by simp
qed

lemma unit_limit_div: "0 \<le> k \<Longrightarrow> k \<le> UNIT_LIMIT \<Longrightarrow> \<bar>of_int k\<bar> / 2 ^ 53 \<le> (1 / 8 :: rat)"
proof -
  assume k: "0 \<le> k" "k \<le> UNIT_LIMIT"
  then have "of_int k \<le> (of_int (2 ^ 50) :: rat)" unfolding UNIT_LIMIT_def by (simp only: of_int_le_iff)
  then show ?thesis using k(1) by simp
qed

text \<open>Crediting and debiting an amount that is within a hundredth of a unit of a whole number of units,
  or that is itself such a value up to two roundings.\<close>

lemma lux_add_near:
  assumes "0 \<le> j" "0 \<le> k" "j + k \<le> UNIT_LIMIT" "\<bar>d * 10 ^ 8 - of_int k\<bar> \<le> of_int k / 2 ^ 53 + 1 / 100"
  shows "roundLux (fadd (lux j) d) = lux (j + k)"
proof (rule lux_plus_near [OF assms(4)])
  have "\<bar>of_int (j + k)\<bar> / 2 ^ 53 = (\<bar>of_int j\<bar> / 2 ^ 53 + of_int k / 2 ^ 53 :: rat)"
    using assms(1,2) by (simp add: add_divide_distrib)
  then show "\<bar>of_int j\<bar> / 2 ^ 53 + (of_int k / 2 ^ 53 + 1 / 100) + 2 * (\<bar>of_int (j + k)\<bar> / 2 ^ 53) \<le> (48 / 100 :: rat)"
    using unit_limit_div [of "j + k"] assms(1-3) by linarith
qed

lemma lux_sub_near:
  assumes "0 \<le> k" "k \<le> j" "j \<le> UNIT_LIMIT" "\<bar>d * 10 ^ 8 - of_int k\<bar> \<le> 2 * (of_int k / 2 ^ 53) + 1 / 100"
  shows "roundLux (fsub (lux j) d) = lux (j - k)"
proof -
  have "fsub (lux j) d = fadd (lux j) (- d)" by (simp add: fsub_def fadd_def)
  moreover have "roundLux (fadd (lux j) (- d)) = lux (j + - k)"
  proof (rule lux_plus_near)
    show "\<bar>- d * 10 ^ 8 - of_int (- k)\<bar> \<le> 2 * (of_int k / 2 ^ 53) + 1 / 100"
      using assms(4) by (simp add: abs_minus_commute)
    have "\<bar>of_int (j + - k)\<bar> / 2 ^ 53 = (\<bar>of_int j\<bar> / 2 ^ 53 - of_int k / 2 ^ 53 :: rat)"
      using assms(1,2) by (simp add: diff_divide_distrib)
    then show "\<bar>of_int j\<bar> / 2 ^ 53 + (2 * (of_int k / 2 ^ 53) + 1 / 100) + 2 * (\<bar>of_int (j + - k)\<bar> / 2 ^ 53) \<le> (48 / 100 :: rat)"
      using unit_limit_div [of j] assms(1-3) by linarith
  qed
  ultimately show ?thesis by simp
qed

lemma lux_fadd_near:
  assumes "0 \<le> j" "0 \<le> k" "j + k \<le> UNIT_LIMIT"
  shows "\<bar>fadd (lux j) (lux k) * 10 ^ 8 - of_int (j + k)\<bar> \<le> 2 * (of_int (j + k) / 2 ^ 53) + 1 / 100"
proof -
  let ?e = "of_int (j + k) / 2 ^ 53 + 1 / 10 ^ 9 :: rat"
  have *: "\<bar>(lux j + lux k) * 10 ^ 8 - of_int (j + k)\<bar> \<le> ?e"
    using lux_near [of j] lux_near [of k] assms(1,2) by (simp add: distrib_right add_divide_distrib)
  have "1 / 10 ^ 9 \<le> (1 / 100 :: rat)" by simp
  moreover have "\<bar>of_int (j + k)\<bar> / 2 ^ 53 \<le> (1 / 8 :: rat)" using unit_limit_div [of "j + k"] assms by simp
  moreover have z: "\<bar>of_int (j + k)\<bar> = (of_int (j + k) :: rat)" using assms by simp
  ultimately have e: "?e \<le> 1" by linarith
  have "1 / 10 ^ 9 + 1 / 10 ^ 9 \<le> (1 / 100 :: rat)" by simp
  then show ?thesis unfolding fadd_def using fl_near [OF * e] unfolding z by linarith
qed

lemma lux_add: "0 \<le> j \<Longrightarrow> 0 \<le> k \<Longrightarrow> j + k \<le> UNIT_LIMIT \<Longrightarrow> roundLux (fadd (lux j) (lux k)) = lux (j + k)"
  using lux_near [of k] by (intro lux_add_near) auto

lemma lux_sub: "0 \<le> k \<Longrightarrow> k \<le> j \<Longrightarrow> j \<le> UNIT_LIMIT \<Longrightarrow> roundLux (fsub (lux j) (lux k)) = lux (j - k)"
  using lux_near [of k] by (intro lux_sub_near) auto

text \<open>An amount that stands for \<open>k\<close> units up to the error of one more rounding.\<close>

definition near_units :: "int \<Rightarrow> number \<Rightarrow> bool" where
  "near_units k a = (\<bar>a * 10 ^ 8 - of_int k\<bar> \<le> of_int k / 2 ^ 53 + 1 / 100)"

lemma near_lux: "0 \<le> k \<Longrightarrow> near_units k (lux k)"
  using lux_near [of k] unfolding near_units_def by simp

lemma lux_add': "0 \<le> j \<Longrightarrow> 0 \<le> k \<Longrightarrow> j + k \<le> UNIT_LIMIT \<Longrightarrow> near_units k a \<Longrightarrow> roundLux (fadd (lux j) a) = lux (j + k)"
  unfolding near_units_def by (rule lux_add_near)

lemma near_units_pos: "near_units k a \<Longrightarrow> 0 < k \<Longrightarrow> 0 < a"
proof -
  assume n: "near_units k a" and "0 < k"
  then have "1 \<le> (of_int k :: rat)" by simp
  moreover from this have "of_int k / 2 ^ 53 \<le> (of_int k / 2 :: rat)" by (intro divide_left_mono) auto
  ultimately have "0 < a * 10 ^ 8" using n unfolding near_units_def by linarith
  then show "0 < a" by (simp add: zero_less_mult_iff)
qed

lemma near_units_le: "near_units k a \<Longrightarrow> 0 \<le> k \<Longrightarrow> k \<le> UNIT_LIMIT \<Longrightarrow> a \<le> 20000000"
proof -
  assume n: "near_units k a" and k: "0 \<le> k" "k \<le> UNIT_LIMIT"
  have "of_int k \<le> (of_int (2 ^ 50) :: rat)" using k(2) unfolding UNIT_LIMIT_def by (simp only: of_int_le_iff)
  moreover have "of_int k / 2 ^ 53 \<le> (1 / 8 :: rat)" using unit_limit_div [OF k] k(1) by simp
  ultimately have "a * 10 ^ 8 \<le> of_int (2 ^ 50) + 1" using n unfolding near_units_def by linarith
  then show "a \<le> 20000000" by simp
qed

lemma roundLux_lux: "0 \<le> k \<Longrightarrow> k \<le> UNIT_LIMIT \<Longrightarrow> roundLux (lux k) = lux k"
  using roundLux_near [OF lux_near] unit_limit_div [of k] by simp

lemma lux_inj: "lux j = lux k \<Longrightarrow> 0 \<le> j \<Longrightarrow> j \<le> UNIT_LIMIT \<Longrightarrow> 0 \<le> k \<Longrightarrow> k \<le> UNIT_LIMIT \<Longrightarrow> j = k"
proof -
  assume *: "lux j = lux k" "0 \<le> j" "j \<le> UNIT_LIMIT" "0 \<le> k" "k \<le> UNIT_LIMIT"
  have "\<bar>of_int j - of_int k\<bar> \<le> (1 / 8 + 1 / 8 + 2 / 10 ^ 20 :: rat)"
    using lux_near [of j] lux_near [of k] unit_limit_div [of j] unit_limit_div [of k] * by simp
  then have "\<bar>of_int (j - k)\<bar> < (1 :: rat)" by simp
  then show "j = k" by linarith
qed

lemma lux_strict_mono: "0 \<le> j \<Longrightarrow> j < k \<Longrightarrow> k \<le> UNIT_LIMIT \<Longrightarrow> lux j < lux k"
  using lux_mono [of j k] lux_inj [of j k] by fastforce

end
