(* ===== verification/Database.thy ===== *)
theory Database
  imports Types
begin

text \<open>
  The tables of \<^verbatim>\<open>ledger.db\<close> (\<^verbatim>\<open>packages/ledger/src/database.ts\<close>) that the ledger classes read
  and write. A table is an association list from its primary key to the rest of the row, so
  \<^verbatim>\<open>INSERT OR IGNORE\<close> appends an absent key, \<^verbatim>\<open>UPDATE ... WHERE key = ?\<close> is \<open>jupd\<close> and a plain
  \<^verbatim>\<open>INSERT\<close> of a present key is a constraint violation. The values of \<^verbatim>\<open>network_stats\<close> are decimal
  texts written by \<^verbatim>\<open>String\<close> and read by \<^verbatim>\<open>parseFloat\<close>, which is exact on doubles, so the number
  itself is stored. The governance tables belong to the governance component.
\<close>

record account_row =
  ar_public_key :: string
  ar_balance :: number
  ar_created_at :: time
  ar_updated_at :: time
  ar_username :: "string option"
  ar_display_name :: "string option"
  ar_password_hash :: "string option"
  ar_is_claimed :: bool
  ar_banned :: bool

record stat_row =
  st_value :: number
  st_updated_at :: time

record activity_row =
  av_record :: ActivityRecord
  av_received_at :: time

record score_row =
  sr_total_commits :: nat
  sr_successful_builds :: nat
  sr_failed_builds :: nat
  sr_reverts_triggered :: nat
  sr_proposals_created :: nat
  sr_proposals_accepted :: nat
  sr_updated_at :: time

record database =
  db_accounts :: "(peer_id, account_row) jsmap"
  db_transactions :: "(string, Transaction) jsmap"
  db_emissions :: "(string, Emission) jsmap"
  db_contributions :: "(nat, ApiContribution) jsmap"
  db_contribution_seq :: nat
  db_stats :: "(string, stat_row) jsmap"
  db_activity :: "(string, activity_row) jsmap"
  db_scores :: "(peer_id, score_row) jsmap"

text \<open>The errors the ledger classes throw; \<open>ConstraintViolation\<close> is SQLite's.\<close>

datatype ledger_error =
    AmountNotPositive
  | SelfTransfer
  | SenderNotFound peer_id
  | RecipientNotFound peer_id
  | InsufficientBalance number number
  | EmissionNotPositive
  | HardCapReached
  | ConstraintViolation string
  | AccountNotFound peer_id
  | ClaimNonexistent
  | ContributionNotFound nat
  | ContributionInactive
  | MonthlyCapExceeded number number
  | UnsupportedSnapshotVersion int

text \<open>The code outside the repository that the ledger calls: SQLite's rendering of a \<^verbatim>\<open>REAL\<close> as
  \<^verbatim>\<open>TEXT\<close> (read back as a number) and libp2p's extraction of the public key inlined in a peer id.\<close>

record ledger_env =
  env_sql_text :: "number \<Rightarrow> number"
  env_extract_key :: "peer_id \<Rightarrow> string option"

definition empty_database :: database where
  "empty_database = \<lparr> db_accounts = [], db_transactions = [], db_emissions = [], db_contributions = [],
     db_contribution_seq = 0, db_stats = [], db_activity = [], db_scores = [] \<rparr>"

definition insert_or_ignore :: "'k \<Rightarrow> 'v \<Rightarrow> ('k, 'v) jsmap \<Rightarrow> ('k, 'v) jsmap" where
  "insert_or_ignore k v m = (if jhas m k then m else m @ [(k, v)])"

definition initStats :: "time \<Rightarrow> string \<Rightarrow> database \<Rightarrow> database" where
  "initStats now key d = d\<lparr>db_stats := insert_or_ignore key \<lparr>st_value = 0, st_updated_at = now\<rparr> (db_stats d)\<rparr>"

definition openDatabase :: "time \<Rightarrow> database \<Rightarrow> database" where
  "openDatabase now d =
     initStats now ''total_relay_fees'' (initStats now ''total_transactions''
       (initStats now ''total_accounts'' (initStats now ''total_supply'' d)))"

definition getStatNumber :: "database \<Rightarrow> string \<Rightarrow> number" where
  "getStatNumber d key = (case jget (db_stats d) key of None \<Rightarrow> 0 | Some r \<Rightarrow> st_value r)"

section \<open>Lemmas\<close>

lemma jget_insert_or_ignore [simp, store_simps]:
  "jget (insert_or_ignore k v m) k' =
     (case jget m k' of Some w \<Rightarrow> Some w | None \<Rightarrow> if k = k' then Some v else None)"
  by (auto simp: insert_or_ignore_def jhas_def split: option.splits)

lemma jwf_insert_or_ignore [simp, inv_intros]: "jwf m \<Longrightarrow> jwf (insert_or_ignore k v m)"
  by (simp add: insert_or_ignore_def jwf_snoc)

lemma insert_or_ignore_present: "jhas m k \<Longrightarrow> insert_or_ignore k v m = m"
  by (simp add: insert_or_ignore_def)

text \<open>Re-opening a database changes nothing: the statistics rows are only created once.\<close>

lemma openDatabase_idem: "openDatabase now' (openDatabase now d) = openDatabase now d"
  by (simp add: openDatabase_def initStats_def insert_or_ignore_present jhas_def split: option.splits)

lemma openDatabase_stat: "getStatNumber (openDatabase now d) key = getStatNumber d key"
  by (auto simp: getStatNumber_def openDatabase_def initStats_def split: option.splits)

lemma openDatabase_tables [simp]:
  "db_accounts (openDatabase now d) = db_accounts d"
  "db_transactions (openDatabase now d) = db_transactions d"
  "db_emissions (openDatabase now d) = db_emissions d"
  by (simp_all add: openDatabase_def initStats_def)

end
