(* ===== verification/Accounts.thy ===== *)
theory Accounts
  imports Database
begin

text \<open>
  \<^verbatim>\<open>AccountStore\<close> (\<^verbatim>\<open>packages/ledger/src/accounts.ts\<close>): the accounts table. Every operation takes
  the time its \<^verbatim>\<open>Date.now()\<close> calls return. A claim can violate the unique, case-insensitive
  index on user names, so \<open>claimAccount\<close> and \<open>applyRemoteClaim\<close> return the database next to their
  result: they run outside a transaction, and what they wrote before an exception stays.

  Invariants: balances are never negative (\<open>balances_nonneg\<close>); user names are unique up to case
  (\<open>unique_usernames\<close>); and on balances that are whole numbers of units (\<open>grid_accounts\<close>) the
  balance operations refine addition and subtraction of integers (\<open>abs_units\<close>).
\<close>

section \<open>Operations\<close>

definition new_account :: "string \<Rightarrow> number \<Rightarrow> time \<Rightarrow> account_row" where
  "new_account key bal now = \<lparr> ar_public_key = key, ar_balance = bal, ar_created_at = now,
     ar_updated_at = now, ar_username = None, ar_display_name = None, ar_password_hash = None,
     ar_is_claimed = False, ar_banned = False \<rparr>"

definition row_to_account :: "peer_id \<Rightarrow> account_row \<Rightarrow> Account" where
  "row_to_account p r = \<lparr> ac_peerId = p, ac_publicKey = ar_public_key r, ac_balance = ar_balance r,
     ac_createdAt = ar_created_at r, ac_updatedAt = ar_updated_at r \<rparr>"

definition accounts_get :: "database \<Rightarrow> peer_id \<Rightarrow> Account option" where
  "accounts_get d p = map_option (row_to_account p) (jget (db_accounts d) p)"

definition accounts_create :: "time \<Rightarrow> peer_id \<Rightarrow> string \<Rightarrow> database \<Rightarrow> database \<times> Account option" where
  "accounts_create now p key d =
     (let d1 = d\<lparr>db_accounts := insert_or_ignore p (new_account key 0 now) (db_accounts d)\<rparr>;
          d2 = d1\<lparr>db_stats := jupd ''total_accounts''
                 (\<lambda>_. \<lparr>st_value = of_nat (length (db_accounts d1)), st_updated_at = now\<rparr>) (db_stats d1)\<rparr>
      in (d2, accounts_get d2 p))"

definition getBalance :: "database \<Rightarrow> peer_id \<Rightarrow> number" where
  "getBalance d p = (case jget (db_accounts d) p of None \<Rightarrow> 0 | Some r \<Rightarrow> ar_balance r)"

definition accounts_exists :: "database \<Rightarrow> peer_id \<Rightarrow> bool" where
  "accounts_exists d p = jhas (db_accounts d) p"

text \<open>\<^verbatim>\<open>UPDATE accounts SET balance = ?, updated_at = ? WHERE peer_id = ?\<close>\<close>

definition set_balance :: "time \<Rightarrow> peer_id \<Rightarrow> number \<Rightarrow> database \<Rightarrow> database" where
  "set_balance now p v d =
     d\<lparr>db_accounts := jupd p (\<lambda>r. r\<lparr>ar_balance := v, ar_updated_at := now\<rparr>) (db_accounts d)\<rparr>"

definition addBalance :: "time \<Rightarrow> peer_id \<Rightarrow> number \<Rightarrow> database \<Rightarrow> database" where
  "addBalance now p amount d = set_balance now p (roundLux (fadd (getBalance d p) amount)) d"

definition subtractBalance :: "time \<Rightarrow> peer_id \<Rightarrow> number \<Rightarrow> database \<Rightarrow> database \<times> bool" where
  "subtractBalance now p amount d =
     (if getBalance d p < amount then (d, False)
      else (set_balance now p (roundLux (fsub (getBalance d p) amount)) d, True))"

definition record_deficit :: "ledger_env \<Rightarrow> time \<Rightarrow> peer_id \<Rightarrow> number \<Rightarrow> database \<Rightarrow> database" where
  "record_deficit E now p deficit d =
     (let key = ''deficit:'' @ p in
      d\<lparr>db_stats := (case jget (db_stats d) key of
          None \<Rightarrow> db_stats d @ [(key, \<lparr>st_value = deficit, st_updated_at = now\<rparr>)]
        | Some r \<Rightarrow> jupd key
            (\<lambda>_. \<lparr>st_value = env_sql_text E (fadd (st_value r) deficit), st_updated_at = now\<rparr>) (db_stats d))\<rparr>)"

definition forceSubtractBalance :: "ledger_env \<Rightarrow> time \<Rightarrow> peer_id \<Rightarrow> number \<Rightarrow> database \<Rightarrow> database" where
  "forceSubtractBalance E now p amount d =
     (let newBalance = roundLux (fsub (getBalance d p) amount) in
      if newBalance < 0 then set_balance now p 0 (record_deficit E now p \<bar>newBalance\<bar> d)
      else set_balance now p newBalance d)"

definition getAccountCount :: "database \<Rightarrow> nat" where
  "getAccountCount d = length (db_accounts d)"

text \<open>\<^verbatim>\<open>ORDER BY balance DESC\<close>; rows of equal balance keep the table's order.\<close>

definition getTopAccounts :: "database \<Rightarrow> nat \<Rightarrow> Account list" where
  "getTopAccounts d limit =
     take limit (map (\<lambda>(p, r). row_to_account p r) (sort_key (\<lambda>e. - ar_balance (snd e)) (db_accounts d)))"

text \<open>\<^verbatim>\<open>COLLATE NOCASE\<close> folds the ASCII letters only.\<close>

definition ascii_lower :: "char \<Rightarrow> char" where
  "ascii_lower c = (if 65 \<le> (of_char c :: nat) \<and> (of_char c :: nat) \<le> 90 then char_of (of_char c + 32 :: nat) else c)"

definition nocase :: "string \<Rightarrow> string" where
  "nocase s = map ascii_lower s"

definition name_matches :: "string \<Rightarrow> account_row \<Rightarrow> bool" where
  "name_matches u r = (case ar_username r of None \<Rightarrow> False | Some v \<Rightarrow> nocase v = nocase u)"

text \<open>The unique index on user names: whether another row already has the name.\<close>

definition name_taken :: "database \<Rightarrow> peer_id \<Rightarrow> string \<Rightarrow> bool" where
  "name_taken d p u = (\<exists>e \<in> set (db_accounts d). fst e \<noteq> p \<and> name_matches u (snd e))"

definition violates_username_index :: "database \<Rightarrow> peer_id \<Rightarrow> string option \<Rightarrow> bool" where
  "violates_username_index d p username =
     (case username of None \<Rightarrow> False | Some u \<Rightarrow> accounts_exists d p \<and> name_taken d p u)"

definition set_claim :: "time \<Rightarrow> peer_id \<Rightarrow> string option \<Rightarrow> string option \<Rightarrow> string \<Rightarrow> database \<Rightarrow> database" where
  "set_claim now p username displayName passwordHash d =
     d\<lparr>db_accounts := jupd p (\<lambda>r. r\<lparr>ar_username := username, ar_display_name := displayName,
         ar_password_hash := Some passwordHash, ar_is_claimed := True, ar_updated_at := now\<rparr>) (db_accounts d)\<rparr>"

definition claimAccount ::
  "time \<Rightarrow> peer_id \<Rightarrow> string option \<Rightarrow> string option \<Rightarrow> string \<Rightarrow> database \<Rightarrow> database \<times> (ledger_error + unit)" where
  "claimAccount now p username displayName passwordHash d =
     (if violates_username_index d p username then (d, Inl (ConstraintViolation ''accounts.username''))
      else if \<not> accounts_exists d p then (d, Inl ClaimNonexistent)
      else (set_claim now p username displayName passwordHash d, Inr ()))"

definition clear_claim :: "time \<Rightarrow> peer_id \<Rightarrow> database \<Rightarrow> database" where
  "clear_claim now p d =
     d\<lparr>db_accounts := jupd p (\<lambda>r. r\<lparr>ar_username := None, ar_is_claimed := False, ar_updated_at := now\<rparr>) (db_accounts d)\<rparr>"

record claim_result =
  cr_applied :: bool
  cr_supplyDelta :: number

text \<open>The last part of \<open>applyRemoteClaim\<close>: create the account when it is new, then write the claim.\<close>

definition write_remote_claim ::
  "ledger_env \<Rightarrow> time \<Rightarrow> peer_id \<Rightarrow> string option \<Rightarrow> string option \<Rightarrow> string \<Rightarrow> time \<Rightarrow> database
     \<Rightarrow> database \<times> (ledger_error + claim_result)" where
  "write_remote_claim E now p username displayName passwordHash claimedAt d =
     (let d1 = (if accounts_exists d p then d
                else fst (accounts_create now p
                       (case env_extract_key E p of None \<Rightarrow> ''unknown'' | Some k \<Rightarrow> k) d))
      in if violates_username_index d1 p username
         then (d1, Inl (ConstraintViolation ''accounts.username''))
         else (set_claim claimedAt p username displayName passwordHash d1,
               Inr \<lparr>cr_applied = True, cr_supplyDelta = 0\<rparr>))"

definition applyRemoteClaim ::
  "ledger_env \<Rightarrow> time \<Rightarrow> peer_id \<Rightarrow> string option \<Rightarrow> string option \<Rightarrow> string \<Rightarrow> time \<Rightarrow> number option \<Rightarrow> bool
     \<Rightarrow> database \<Rightarrow> database \<times> (ledger_error + claim_result)" where
  "applyRemoteClaim E now p username displayName passwordHash claimedAt balance adjustBalance d =
     (case (if truthy username
            then find (\<lambda>e. fst e \<noteq> p \<and> name_matches (the username) (snd e)) (db_accounts d) else None) of
        Some (q, r) \<Rightarrow>
          if ar_updated_at r \<le> claimedAt then (d, Inr \<lparr>cr_applied = False, cr_supplyDelta = 0\<rparr>)
          else write_remote_claim E now p username displayName passwordHash claimedAt (clear_claim now q d)
      | None \<Rightarrow> write_remote_claim E now p username displayName passwordHash claimedAt d)"

record auth_fields =
  au_username :: "string option"
  au_displayName :: "string option"
  au_passwordHash :: "string option"
  au_isClaimed :: bool

text \<open>\<^verbatim>\<open>x || null\<close> on an optional string.\<close>

definition or_null :: "string option \<Rightarrow> string option" where
  "or_null s = (if truthy s then s else None)"

definition getByUsername :: "database \<Rightarrow> string \<Rightarrow> (Account \<times> auth_fields) option" where
  "getByUsername d u =
     map_option (\<lambda>(p, r). (row_to_account p r,
         \<lparr>au_username = ar_username r, au_displayName = or_null (ar_display_name r),
          au_passwordHash = or_null (ar_password_hash r), au_isClaimed = ar_is_claimed r\<rparr>))
       (find (\<lambda>e. name_matches u (snd e)) (db_accounts d))"

definition getAuthFields :: "database \<Rightarrow> peer_id \<Rightarrow> auth_fields option" where
  "getAuthFields d p =
     map_option (\<lambda>r. \<lparr>au_username = or_null (ar_username r), au_displayName = or_null (ar_display_name r),
         au_passwordHash = or_null (ar_password_hash r), au_isClaimed = ar_is_claimed r\<rparr>)
       (jget (db_accounts d) p)"

definition isUsernameAvailable :: "database \<Rightarrow> string \<Rightarrow> bool" where
  "isUsernameAvailable d u = (\<not> (\<exists>e \<in> set (db_accounts d). name_matches u (snd e)))"

definition set_banned :: "bool \<Rightarrow> time \<Rightarrow> peer_id \<Rightarrow> database \<Rightarrow> database \<times> bool" where
  "set_banned b now p d =
     (d\<lparr>db_accounts := jupd p (\<lambda>r. r\<lparr>ar_banned := b, ar_updated_at := now\<rparr>) (db_accounts d)\<rparr>,
      accounts_exists d p)"

definition banAccount :: "time \<Rightarrow> peer_id \<Rightarrow> database \<Rightarrow> database \<times> bool" where
  "banAccount = set_banned True"

definition unbanAccount :: "time \<Rightarrow> peer_id \<Rightarrow> database \<Rightarrow> database \<times> bool" where
  "unbanAccount = set_banned False"

definition isBanned :: "database \<Rightarrow> peer_id \<Rightarrow> bool" where
  "isBanned d p = (case jget (db_accounts d) p of None \<Rightarrow> False | Some r \<Rightarrow> ar_banned r)"

record claimed_account =
  cl_peerId :: peer_id
  cl_username :: "string option"
  cl_displayName :: "string option"
  cl_passwordHash :: string
  cl_claimedAt :: time
  cl_balance :: number

text \<open>A claimed row always has a password hash; \<open>''''\<close> stands for the \<^verbatim>\<open>null\<close> of a row that has none.\<close>

definition getClaimedAccounts :: "database \<Rightarrow> claimed_account list" where
  "getClaimedAccounts d =
     map (\<lambda>(p, r). \<lparr>cl_peerId = p, cl_username = or_null (ar_username r),
            cl_displayName = or_null (ar_display_name r),
            cl_passwordHash = (case ar_password_hash r of None \<Rightarrow> '''' | Some h \<Rightarrow> h),
            cl_claimedAt = ar_updated_at r, cl_balance = ar_balance r\<rparr>)
       (filter (\<lambda>e. ar_is_claimed (snd e)) (db_accounts d))"

section \<open>Invariants and the abstraction to integer units\<close>

definition balances_nonneg :: "database \<Rightarrow> bool" where
  "balances_nonneg d = (\<forall>e \<in> set (db_accounts d). 0 \<le> ar_balance (snd e))"

definition unique_usernames :: "database \<Rightarrow> bool" where
  "unique_usernames d = (jwf (db_accounts d) \<and>
     (\<forall>e \<in> set (db_accounts d).
        case ar_username (snd e) of None \<Rightarrow> True | Some u \<Rightarrow> \<not> name_taken d (fst e) u))"

definition units :: "number \<Rightarrow> int" where
  "units v = \<lfloor>v * 10 ^ 8 + 1 / 2\<rfloor>"

definition grid :: "number \<Rightarrow> bool" where
  "grid v = (0 \<le> units v \<and> v = lux (units v))"

definition total_units :: "database \<Rightarrow> int" where
  "total_units d = jsum (\<lambda>r. units (ar_balance r)) (db_accounts d)"

definition grid_accounts :: "database \<Rightarrow> bool" where
  "grid_accounts d = (jwf (db_accounts d) \<and> (\<forall>e \<in> set (db_accounts d). grid (ar_balance (snd e))) \<and>
     total_units d \<le> UNIT_LIMIT)"

definition abs_units :: "database \<Rightarrow> peer_id \<Rightarrow> int option" where
  "abs_units d p = map_option (\<lambda>r. units (ar_balance r)) (jget (db_accounts d) p)"

text \<open>The abstract ledger: integer balances per peer.\<close>

definition credit :: "peer_id \<Rightarrow> int \<Rightarrow> (peer_id \<Rightarrow> int option) \<Rightarrow> peer_id \<Rightarrow> int option" where
  "credit p k m = (case m p of None \<Rightarrow> m | Some u \<Rightarrow> m(p \<mapsto> u + k))"

lemma units_near: "\<bar>v * 10 ^ 8 - of_int k\<bar> < 1 / 2 \<Longrightarrow> units v = k"
  unfolding units_def by (rule floor_unique) linarith+

lemma units_lux: "0 \<le> k \<Longrightarrow> k \<le> UNIT_LIMIT \<Longrightarrow> units (lux k) = k"
proof (rule units_near)
  assume "0 \<le> k" "k \<le> UNIT_LIMIT"
  then have "\<bar>of_int k\<bar> / 2 ^ 53 \<le> (1 / 8 :: rat)" by (rule unit_limit_div)
  moreover have "1 / 10 ^ 20 \<le> (1 / 8 :: rat)" by simp
  ultimately show "\<bar>lux k * 10 ^ 8 - of_int k\<bar> < 1 / 2" using lux_near [of k] by linarith
qed

lemma grid_lux: "0 \<le> k \<Longrightarrow> k \<le> UNIT_LIMIT \<Longrightarrow> grid (lux k)"
  by (simp add: grid_def units_lux)

lemma grid_0 [simp]: "grid 0" "units 0 = 0"
  using grid_lux [of 0] units_lux [of 0] by (simp_all add: UNIT_LIMIT_def)

lemma grid_nonneg: "grid v \<Longrightarrow> 0 \<le> v"
  unfolding grid_def by (metis lux_nonneg)

section \<open>Frame lemmas\<close>

lemma set_balance_frame [simp]:
  "db_transactions (set_balance now p v d) = db_transactions d"
  "db_emissions (set_balance now p v d) = db_emissions d"
  "db_contributions (set_balance now p v d) = db_contributions d"
  "db_contribution_seq (set_balance now p v d) = db_contribution_seq d"
  "db_stats (set_balance now p v d) = db_stats d"
  "db_activity (set_balance now p v d) = db_activity d"
  "db_scores (set_balance now p v d) = db_scores d"
  "map fst (db_accounts (set_balance now p v d)) = map fst (db_accounts d)"
  by (simp_all add: set_balance_def)

lemma jget_set_balance [simp]:
  "jget (db_accounts (set_balance now p v d)) q =
     (if p = q then map_option (\<lambda>r. r\<lparr>ar_balance := v, ar_updated_at := now\<rparr>) (jget (db_accounts d) q)
      else jget (db_accounts d) q)"
  by (simp add: set_balance_def)

lemma jwf_set_balance [simp]: "jwf (db_accounts (set_balance now p v d)) = jwf (db_accounts d)"
  by (simp add: jwf_def)

lemma exists_set_balance [simp]: "accounts_exists (set_balance now p v d) q = accounts_exists d q"
  by (simp add: accounts_exists_def jhas_def)

lemma getBalance_set_balance [simp]:
  "getBalance (set_balance now p v d) q = (if p = q \<and> accounts_exists d p then v else getBalance d q)"
  by (auto simp: getBalance_def accounts_exists_def jhas_def split: option.splits)

lemma addBalance_frame [simp]:
  "db_transactions (addBalance now p a d) = db_transactions d"
  "db_emissions (addBalance now p a d) = db_emissions d"
  "db_stats (addBalance now p a d) = db_stats d"
  "db_contributions (addBalance now p a d) = db_contributions d"
  "db_contribution_seq (addBalance now p a d) = db_contribution_seq d"
  "accounts_exists (addBalance now p a d) q = accounts_exists d q"
  "map fst (db_accounts (addBalance now p a d)) = map fst (db_accounts d)"
  by (simp_all add: addBalance_def)

lemma subtractBalance_frame [simp]:
  "db_transactions (fst (subtractBalance now p a d)) = db_transactions d"
  "db_emissions (fst (subtractBalance now p a d)) = db_emissions d"
  "db_stats (fst (subtractBalance now p a d)) = db_stats d"
  "db_contributions (fst (subtractBalance now p a d)) = db_contributions d"
  "db_contribution_seq (fst (subtractBalance now p a d)) = db_contribution_seq d"
  "accounts_exists (fst (subtractBalance now p a d)) q = accounts_exists d q"
  "map fst (db_accounts (fst (subtractBalance now p a d))) = map fst (db_accounts d)"
  by (simp_all add: subtractBalance_def)

lemma record_deficit_frame [simp]:
  "db_accounts (record_deficit E now p x d) = db_accounts d"
  "db_transactions (record_deficit E now p x d) = db_transactions d"
  "db_emissions (record_deficit E now p x d) = db_emissions d"
  by (simp_all add: record_deficit_def Let_def)

lemma record_deficit_stats:
  "take 8 key \<noteq> ''deficit:'' \<Longrightarrow> jget (db_stats (record_deficit E now p x d)) key = jget (db_stats d) key"
  by (auto simp: record_deficit_def Let_def split: option.splits)

lemma forceSubtractBalance_frame [simp]:
  "db_transactions (forceSubtractBalance E now p a d) = db_transactions d"
  "db_emissions (forceSubtractBalance E now p a d) = db_emissions d"
  "accounts_exists (forceSubtractBalance E now p a d) q = accounts_exists d q"
  "map fst (db_accounts (forceSubtractBalance E now p a d)) = map fst (db_accounts d)"
  by (simp_all add: forceSubtractBalance_def Let_def accounts_exists_def jhas_def)

lemma forceSubtractBalance_stats:
  "take 8 key \<noteq> ''deficit:'' \<Longrightarrow> jget (db_stats (forceSubtractBalance E now p a d)) key = jget (db_stats d) key"
  by (simp add: forceSubtractBalance_def Let_def record_deficit_stats)

section \<open>Balances never become negative\<close>

lemma getBalance_nonneg: "balances_nonneg d \<Longrightarrow> 0 \<le> getBalance d p"
  by (auto simp: balances_nonneg_def getBalance_def dest!: jget_SomeD split: option.splits)

lemma set_balance_nonneg [inv_intros]: "balances_nonneg d \<Longrightarrow> 0 \<le> v \<Longrightarrow> balances_nonneg (set_balance now p v d)"
  by (auto simp: balances_nonneg_def set_balance_def jupd_def split: if_splits)

lemma addBalance_nonneg [inv_intros]:
  "balances_nonneg d \<Longrightarrow> 0 \<le> a \<Longrightarrow> balances_nonneg (addBalance now p a d)"
  unfolding addBalance_def fadd_def
  by (intro set_balance_nonneg roundLux_nonneg fl_nonneg add_nonneg_nonneg getBalance_nonneg)

lemma subtractBalance_nonneg [inv_intros]:
  "balances_nonneg d \<Longrightarrow> balances_nonneg (fst (subtractBalance now p a d))"
  by (auto simp: subtractBalance_def fsub_def intro!: set_balance_nonneg roundLux_nonneg fl_nonneg)

lemma forceSubtractBalance_nonneg [inv_intros]:
  "balances_nonneg d \<Longrightarrow> balances_nonneg (forceSubtractBalance E now p a d)"
  unfolding forceSubtractBalance_def Let_def
  by (auto intro!: set_balance_nonneg) (simp_all add: balances_nonneg_def)

lemma accounts_create_nonneg [inv_intros]:
  "balances_nonneg d \<Longrightarrow> balances_nonneg (fst (accounts_create now p key d))"
  by (auto simp: accounts_create_def balances_nonneg_def Let_def insert_or_ignore_def new_account_def)

section \<open>The balance operations on integer units\<close>

lemma abs_units_set_balance:
  "abs_units (set_balance now p v d) =
     (case abs_units d p of None \<Rightarrow> abs_units d | Some u \<Rightarrow> (abs_units d)(p \<mapsto> units v))"
  by (auto simp: abs_units_def fun_eq_iff split: option.splits)

lemma total_units_set_balance:
  "jwf (db_accounts d) \<Longrightarrow> total_units (set_balance now p v d) =
     (case abs_units d p of None \<Rightarrow> total_units d | Some u \<Rightarrow> total_units d + (units v - u))"
  by (auto simp: total_units_def set_balance_def jsum_jupd abs_units_def split: option.splits)

lemma set_balance_grid:
  assumes "grid_accounts d" "grid v"
    and "\<And>u. abs_units d p = Some u \<Longrightarrow> total_units d + (units v - u) \<le> UNIT_LIMIT"
  shows "grid_accounts (set_balance now p v d)"
  using assms
  unfolding grid_accounts_def
  by (auto simp: total_units_set_balance split: option.splits)
     (auto simp: set_balance_def jupd_set)

lemma grid_accountsD:
  assumes "grid_accounts d"
  shows "jwf (db_accounts d)" and "total_units d \<le> UNIT_LIMIT"
    and "abs_units d p = Some u \<Longrightarrow> 0 \<le> u \<and> u \<le> total_units d \<and> getBalance d p = lux u"
proof -
  show "jwf (db_accounts d)" "total_units d \<le> UNIT_LIMIT" using assms by (simp_all add: grid_accounts_def)
  assume "abs_units d p = Some u"
  then obtain r where r: "jget (db_accounts d) p = Some r" "u = units (ar_balance r)"
    by (auto simp: abs_units_def)
  then have m: "(p, r) \<in> set (db_accounts d)" by (auto dest: jget_SomeD)
  have g: "grid (ar_balance s)" if "(q, s) \<in> set (db_accounts d)" for q s
    using assms that by (auto simp: grid_accounts_def)
  have "units (ar_balance r) \<le> total_units d"
    unfolding total_units_def by (rule jsum_member_le [OF _ m]) (use g in \<open>auto simp: grid_def\<close>)
  with r g [OF m] show "0 \<le> u \<and> u \<le> total_units d \<and> getBalance d p = lux u"
    by (auto simp: getBalance_def grid_def)
qed

lemma total_units_nonneg: "grid_accounts d \<Longrightarrow> 0 \<le> total_units d"
  unfolding total_units_def grid_accounts_def by (intro jsum_nonneg) (auto simp: grid_def)

text \<open>Crediting \<open>k\<close> units: \<open>addBalance\<close> refines \<open>credit\<close>.\<close>

lemma addBalance_units:
  assumes g: "grid_accounts d" and k: "0 \<le> k" and lim: "total_units d + k \<le> UNIT_LIMIT"
    and a: "near_units k a"
  shows "abs_units (addBalance now p a d) = credit p k (abs_units d)"
    and "grid_accounts (addBalance now p a d)"
    and "total_units (addBalance now p a d) = total_units d + (if accounts_exists d p then k else 0)"
proof -
  have ex: "accounts_exists d p \<longleftrightarrow> abs_units d p \<noteq> None"
    by (simp add: accounts_exists_def jhas_def abs_units_def)
  have u: "0 \<le> u \<and> u + k \<le> UNIT_LIMIT \<and> roundLux (fadd (getBalance d p) a) = lux (u + k)"
    if "abs_units d p = Some u" for u
    using grid_accountsD(3) [OF g that] k lim by (auto intro!: lux_add' [OF _ _ _ a])
  note jw = grid_accountsD(1) [OF g]
  show "abs_units (addBalance now p a d) = credit p k (abs_units d)"
    using u k by (auto simp: addBalance_def abs_units_set_balance credit_def units_lux split: option.splits)
  show "total_units (addBalance now p a d) = total_units d + (if accounts_exists d p then k else 0)"
    using u k by (auto simp: addBalance_def ex total_units_set_balance [OF jw] units_lux split: option.splits)
  show "grid_accounts (addBalance now p a d)"
  proof (cases "abs_units d p")
    case None
    then have "addBalance now p a d = d"
      by (simp add: addBalance_def set_balance_def abs_units_def jget_None_iff jupd_fresh)
    with g show ?thesis by simp
  next
    case (Some v)
    then show ?thesis using u [OF Some] k lim
      by (auto simp: addBalance_def units_lux intro!: set_balance_grid [OF g] grid_lux)
  qed
qed

text \<open>Debiting an amount within the error of one addition of \<open>k\<close> units.\<close>

lemma subtractBalance_units:
  assumes g: "grid_accounts d" and k: "0 \<le> k" "k \<le> UNIT_LIMIT"
    and a: "\<bar>a * 10 ^ 8 - of_int k\<bar> \<le> 2 * (of_int k / 2 ^ 53) + 1 / 100"
    and u: "abs_units d p = Some u" and ok: "a \<le> getBalance d p"
  shows "k \<le> u"
    and "abs_units (fst (subtractBalance now p a d)) = (abs_units d)(p \<mapsto> u - k)"
    and "grid_accounts (fst (subtractBalance now p a d))"
    and "total_units (fst (subtractBalance now p a d)) = total_units d - k"
proof -
  have b: "0 \<le> u" "u \<le> UNIT_LIMIT" "getBalance d p = lux u"
    using grid_accountsD(3) [OF g u] grid_accountsD(2) [OF g] by auto
  have "of_int k \<le> \<bar>of_int k :: rat\<bar>" "\<bar>of_int u :: rat\<bar> = of_int u" "1 / 10 ^ 20 \<le> (1 / 100 :: rat)"
    using b(1) by auto
  moreover have "a * 10 ^ 8 \<le> lux u * 10 ^ 8" using ok b(3) by simp
  moreover have "\<bar>of_int k\<bar> / 2 ^ 53 = (of_int k / 2 ^ 53 :: rat)" using k(1) by simp
  ultimately have "of_int k - (1 / 4 + 1 / 100) \<le> (of_int u + 1 / 8 + 1 / 100 :: rat)"
    using a lux_near [of u] unit_limit_div [OF k] unit_limit_div [OF b(1,2)] by linarith
  then show ku: "k \<le> u" by linarith
  have r: "roundLux (fsub (getBalance d p) a) = lux (u - k)"
    unfolding b(3) by (rule lux_sub_near [OF k(1) ku b(2) a])
  have s: "fst (subtractBalance now p a d) = set_balance now p (lux (u - k)) d"
    using ok by (simp add: subtractBalance_def r)
  have un: "units (lux (u - k)) = u - k" using k(1) ku b(2) by (intro units_lux) auto
  show "abs_units (fst (subtractBalance now p a d)) = (abs_units d)(p \<mapsto> u - k)"
    by (simp add: s abs_units_set_balance u un)
  show "total_units (fst (subtractBalance now p a d)) = total_units d - k"
    using grid_accountsD(1) [OF g] by (simp add: s total_units_set_balance u un)
  show "grid_accounts (fst (subtractBalance now p a d))"
    unfolding s using k(1) ku b(2) grid_accountsD(2) [OF g]
    by (intro set_balance_grid [OF g] grid_lux) (auto simp: u un)
qed

section \<open>User names and claims\<close>

lemma set_claim_frame [simp]:
  "db_transactions (set_claim now p u dn ph d) = db_transactions d"
  "db_stats (set_claim now p u dn ph d) = db_stats d"
  "getBalance (set_claim now p u dn ph d) q = getBalance d q"
  "accounts_exists (set_claim now p u dn ph d) q = accounts_exists d q"
  by (auto simp: set_claim_def getBalance_def accounts_exists_def jhas_def split: option.splits)

lemma clear_claim_frame [simp]:
  "db_transactions (clear_claim now p d) = db_transactions d"
  "db_stats (clear_claim now p d) = db_stats d"
  "getBalance (clear_claim now p d) q = getBalance d q"
  "accounts_exists (clear_claim now p d) q = accounts_exists d q"
  by (auto simp: clear_claim_def getBalance_def accounts_exists_def jhas_def split: option.splits)

lemma accounts_create_frame [simp]:
  "db_transactions (fst (accounts_create now p key d)) = db_transactions d"
  "db_emissions (fst (accounts_create now p key d)) = db_emissions d"
  "getBalance (fst (accounts_create now p key d)) q = getBalance d q"
  "accounts_exists (fst (accounts_create now p key d)) q = (p = q \<or> accounts_exists d q)"
  by (auto simp: accounts_create_def Let_def getBalance_def accounts_exists_def jhas_def new_account_def
      split: option.splits)

lemma accounts_create_stat:
  "key \<noteq> ''total_accounts'' \<Longrightarrow> getStatNumber (fst (accounts_create now p k d)) key = getStatNumber d key"
  by (simp add: accounts_create_def Let_def getStatNumber_def)

lemma write_remote_claim_frame:
  assumes "write_remote_claim E now p u dn ph t d = (d', r)"
  shows "getBalance d' q = getBalance d q" and "db_transactions d' = db_transactions d"
    and "key \<noteq> ''total_accounts'' \<Longrightarrow> getStatNumber d' key = getStatNumber d key"
  using assms accounts_create_stat [of key now p _ d]
  by (auto simp: write_remote_claim_def Let_def getStatNumber_def split: if_splits)

text \<open>A remote claim never moves money, whatever balance it announces.\<close>

lemma applyRemoteClaim_cases:
  assumes "applyRemoteClaim E now p u dn ph t bal adj d = (d', r)"
  obtains q s where "d' = d" "r = Inr \<lparr>cr_applied = False, cr_supplyDelta = 0\<rparr>"
    "(q, s) \<in> set (db_accounts d)" "q \<noteq> p" "truthy u" "name_matches (the u) s" "ar_updated_at s \<le> t"
  | "write_remote_claim E now p u dn ph t d = (d', r)"
    "\<not> truthy u \<or> \<not> name_taken d p (the u)"
  | q s where "write_remote_claim E now p u dn ph t (clear_claim now q d) = (d', r)"
    "(q, s) \<in> set (db_accounts d)" "q \<noteq> p" "truthy u" "name_matches (the u) s" "t < ar_updated_at s"
proof (cases "if truthy u then find (\<lambda>e. fst e \<noteq> p \<and> name_matches (the u) (snd e)) (db_accounts d) else None")
  case None
  then have "\<not> truthy u \<or> \<not> name_taken d p (the u)"
    by (auto simp: find_None_iff name_taken_def split: if_splits)
  with None assms that(2) show thesis by (simp add: applyRemoteClaim_def)
next
  case (Some e)
  then obtain q s where e: "e = (q, s)" "truthy u" and
    f: "find (\<lambda>e. fst e \<noteq> p \<and> name_matches (the u) (snd e)) (db_accounts d) = Some (q, s)"
    by (cases e) (auto split: if_splits)
  then have "(q, s) \<in> set (db_accounts d)" "q \<noteq> p" "name_matches (the u) s"
    using find_SomeD [OF f] by auto
  with e f assms that(1,3) show thesis
    by (cases "ar_updated_at s \<le> t") (auto simp: applyRemoteClaim_def)
qed

lemma applyRemoteClaim_frame:
  assumes "applyRemoteClaim E now p u dn ph t bal adj d = (d', r)"
  shows "getBalance d' q = getBalance d q \<and> db_transactions d' = db_transactions d \<and>
    getStatNumber d' ''total_supply'' = getStatNumber d ''total_supply''"
  using assms
proof (cases rule: applyRemoteClaim_cases)
  case (3 q' s)
  then show ?thesis
    using write_remote_claim_frame [OF 3(1)] by (simp add: getStatNumber_def)
qed (use write_remote_claim_frame in \<open>simp_all\<close>)

lemma unique_usernames_iff:
  "unique_usernames d \<longleftrightarrow> jwf (db_accounts d) \<and>
     (\<forall>p r q s u. (p, r) \<in> set (db_accounts d) \<longrightarrow> (q, s) \<in> set (db_accounts d) \<longrightarrow>
        ar_username r = Some u \<longrightarrow> name_matches u s \<longrightarrow> q = p)"
  by (fastforce simp: unique_usernames_def name_taken_def split: option.splits)

lemma set_claim_unique [inv_intros]:
  assumes "unique_usernames d" "\<And>n. u = Some n \<Longrightarrow> \<not> name_taken d p n"
  shows "unique_usernames (set_claim now p u dn ph d)"
  unfolding unique_usernames_iff
proof (intro conjI allI impI)
  show "jwf (db_accounts (set_claim now p u dn ph d))"
    using assms(1) by (simp add: unique_usernames_def set_claim_def)
  fix a r q s n
  assume m: "(a, r) \<in> set (db_accounts (set_claim now p u dn ph d))"
    "(q, s) \<in> set (db_accounts (set_claim now p u dn ph d))" "ar_username r = Some n" "name_matches n s"
  show "q = a"
  proof (rule ccontr)
    assume "q \<noteq> a"
    have "\<not> (a = p \<and> q \<noteq> p)" using m assms(2)
      by (fastforce simp: set_claim_def jupd_set name_taken_def)
    moreover have "\<not> (q = p \<and> a \<noteq> p)"
    proof
      assume qa: "q = p \<and> a \<noteq> p"
      then obtain n' where n': "u = Some n'" "nocase n' = nocase n"
        using m by (auto simp: set_claim_def jupd_set name_matches_def split: option.splits)
      have "(a, r) \<in> set (db_accounts d)" using m(1) qa by (auto simp: set_claim_def jupd_set)
      with qa m(3) n' have "name_taken d p n'" by (force simp: name_taken_def name_matches_def)
      with assms(2) n'(1) show False by blast
    qed
    ultimately have "a \<noteq> p \<and> q \<noteq> p" using \<open>q \<noteq> a\<close> by blast
    with m \<open>q \<noteq> a\<close> assms(1) show False
      by (auto simp: set_claim_def jupd_set unique_usernames_iff)
  qed
qed

lemma clear_claim_unique [inv_intros]:
  "unique_usernames d \<Longrightarrow> unique_usernames (clear_claim now p d)"
  unfolding unique_usernames_iff
  by (auto simp: clear_claim_def jupd_set name_matches_def split: option.splits if_splits)

lemma accounts_create_unique [inv_intros]:
  "unique_usernames d \<Longrightarrow> unique_usernames (fst (accounts_create now p key d))"
  unfolding unique_usernames_iff
  by (auto simp: accounts_create_def Let_def)
     (auto simp: insert_or_ignore_def new_account_def name_matches_def split: option.splits if_splits)

lemma claimAccount_unique:
  "unique_usernames d \<Longrightarrow> unique_usernames (fst (claimAccount now p u dn ph d))"
  by (auto simp: claimAccount_def violates_username_index_def intro!: set_claim_unique split: option.splits)

lemma write_remote_claim_unique:
  "unique_usernames d \<Longrightarrow> write_remote_claim E now p u dn ph t d = (d', r) \<Longrightarrow> unique_usernames d'"
  by (auto simp: write_remote_claim_def Let_def violates_username_index_def
      intro!: set_claim_unique accounts_create_unique split: option.splits if_splits)

lemma applyRemoteClaim_unique:
  "unique_usernames d \<Longrightarrow> applyRemoteClaim E now p u dn ph t bal adj d = (d', r) \<Longrightarrow> unique_usernames d'"
  by (erule applyRemoteClaim_cases) (auto intro: write_remote_claim_unique clear_claim_unique)

text \<open>After the newer holder of a name is cleared, the write of the claim cannot violate the index: the
  conflict rule of \<open>applyRemoteClaim\<close> is complete.\<close>

lemma clear_claim_frees_name:
  assumes "unique_usernames d" "(q, s) \<in> set (db_accounts d)" "name_matches u s"
  shows "\<not> name_taken (clear_claim now q d) p u"
proof
  assume "name_taken (clear_claim now q d) p u"
  then obtain a v where v: "(a, v) \<in> set (db_accounts d)" "a \<noteq> q" "name_matches u v"
    by (auto simp: name_taken_def clear_claim_def jupd_set name_matches_def split: option.splits if_splits)
  obtain n where n: "ar_username s = Some n" "nocase n = nocase u"
    using assms(3) by (auto simp: name_matches_def split: option.splits)
  with v(3) have "name_matches n v" by (simp add: name_matches_def split: option.splits)
  with assms(1,2) v(1,2) n(1) show False by (auto simp: unique_usernames_iff)
qed

lemma name_taken_create [simp]: "name_taken (fst (accounts_create now p key d)) q u = name_taken d q u"
  by (auto simp: name_taken_def accounts_create_def Let_def insert_or_ignore_def new_account_def name_matches_def)

lemma write_remote_claim_ok:
  assumes "\<And>n. u = Some n \<Longrightarrow> \<not> name_taken d p n"
  shows "snd (write_remote_claim E now p u dn ph t d) = Inr \<lparr>cr_applied = True, cr_supplyDelta = 0\<rparr> \<and>
    map_option ar_username (jget (db_accounts (fst (write_remote_claim E now p u dn ph t d))) p) = Some u"
proof -
  define d1 where "d1 = (if accounts_exists d p then d else fst (accounts_create now p
    (case env_extract_key E p of None \<Rightarrow> ''unknown'' | Some k \<Rightarrow> k) d))"
  have "\<not> violates_username_index d1 p u"
    using assms by (auto simp: d1_def violates_username_index_def split: option.splits)
  moreover have "write_remote_claim E now p u dn ph t d =
    (if violates_username_index d1 p u then (d1, Inl (ConstraintViolation ''accounts.username''))
     else (set_claim t p u dn ph d1, Inr \<lparr>cr_applied = True, cr_supplyDelta = 0\<rparr>))"
    by (simp add: write_remote_claim_def d1_def Let_def)
  moreover have "accounts_exists d1 p" by (simp add: d1_def)
  ultimately show ?thesis by (auto simp: set_claim_def accounts_exists_def jhas_def)
qed

text \<open>A claim wins a name when every other account that holds it was updated after the claim.\<close>

definition claim_wins :: "database \<Rightarrow> peer_id \<Rightarrow> string \<Rightarrow> time \<Rightarrow> bool" where
  "claim_wins d p n t =
     (\<forall>e \<in> set (db_accounts d). fst e \<noteq> p \<longrightarrow> name_matches n (snd e) \<longrightarrow> t < ar_updated_at (snd e))"

lemma name_owner_unique:
  assumes "unique_usernames d" "(q, s) \<in> set (db_accounts d)" "(q', s') \<in> set (db_accounts d)"
    "name_matches n s" "name_matches n s'"
  shows "q = q' \<and> s = s'"
proof -
  obtain u where u: "ar_username s = Some u" "nocase u = nocase n"
    using assms(4) by (auto simp: name_matches_def split: option.splits)
  then have "name_matches u s'" using assms(5) by (simp add: name_matches_def split: option.splits)
  then have "q = q'" using assms(1-3) u(1) unfolding unique_usernames_iff by metis
  moreover have "jwf (db_accounts d)" using assms(1) by (simp add: unique_usernames_def)
  ultimately show ?thesis
    using jget_mem [of "db_accounts d" q s] jget_mem [of "db_accounts d" q s'] assms(2,3) by simp
qed

lemma applyRemoteClaim_resolves:
  assumes uq: "unique_usernames d" and n: "n \<noteq> []"
    and r: "applyRemoteClaim E now p (Some n) dn ph t bal adj d = (d', r)"
  shows "r = Inr \<lparr>cr_applied = claim_wins d p n t, cr_supplyDelta = 0\<rparr> \<and>
    (claim_wins d p n t \<longrightarrow> map_option ar_username (jget (db_accounts d') p) = Some (Some n))"
proof -
  have wr: "r' = Inr \<lparr>cr_applied = True, cr_supplyDelta = 0\<rparr> \<and>
      map_option ar_username (jget (db_accounts d'') p) = Some (Some n)"
    if "write_remote_claim E now p (Some n) dn ph t e = (d'', r')" "\<not> name_taken e p n" for e d'' r'
    using write_remote_claim_ok [of "Some n" e p E now dn ph t] that by simp
  show ?thesis using r
  proof (cases rule: applyRemoteClaim_cases)
    case (1 q s)
    then have "\<not> claim_wins d p n t"
      unfolding claim_wins_def by (intro bexI [of _ "(q, s)"] notI) (auto dest: bspec [of _ _ "(q, s)"])
    with 1 show ?thesis by simp
  next
    case 2
    then have "\<not> name_taken d p n" using n by (simp add: truthy_def)
    moreover from this have "claim_wins d p n t" by (auto simp: claim_wins_def name_taken_def)
    ultimately show ?thesis using wr [OF 2(1)] by simp
  next
    case (3 q s)
    have "claim_wins d p n t" unfolding claim_wins_def
    proof (intro ballI impI)
      fix e assume "e \<in> set (db_accounts d)" "name_matches n (snd e)"
      with name_owner_unique [OF uq 3(2), of "fst e" "snd e" n] 3 show "t < ar_updated_at (snd e)" by simp
    qed
    with wr [OF 3(1)] clear_claim_frees_name [OF uq 3(2)] 3 show ?thesis by simp
  qed
qed

section \<open>Properties\<close>

text \<open>No operation on accounts gives two accounts user names that are equal up to case. If names are
  unique before, they are unique after registering a node, after a local claim (also one that fails) and
  after a remote claim, whatever peer, name and time it carries.\<close>

lemma usernames_stay_unique:
  assumes "unique_usernames d"
  shows "unique_usernames (fst (accounts_create now p key d)) \<and>
    unique_usernames (fst (claimAccount now p username displayName passwordHash d)) \<and>
    unique_usernames (fst (applyRemoteClaim E now p username displayName passwordHash claimedAt balance adjust d))"
  using assms by (auto intro: accounts_create_unique claimAccount_unique
      applyRemoteClaim_unique [OF _ prod.collapse [symmetric]])

text \<open>A remote claim of a non-empty user name never fails: it is applied exactly when every other
  account holding the name (up to case) was last updated after the claim, in which case the claimant
  has the name afterwards. In every case no balance, no transaction and not the total supply changes,
  whatever balance the claim announces.\<close>

lemma remote_claim_resolved:
  assumes "unique_usernames d" and "n \<noteq> []"
    and "applyRemoteClaim E now p (Some n) displayName passwordHash claimedAt balance adjust d = (d', r)"
  shows "r = Inr \<lparr>cr_applied = claim_wins d p n claimedAt, cr_supplyDelta = 0\<rparr>
    \<and> (claim_wins d p n claimedAt \<longrightarrow> map_option ar_username (jget (db_accounts d') p) = Some (Some n))
    \<and> getBalance d' q = getBalance d q \<and> db_transactions d' = db_transactions d
    \<and> getStatNumber d' ''total_supply'' = getStatNumber d ''total_supply''"
  using applyRemoteClaim_resolves [OF assms] applyRemoteClaim_frame [OF assms(3)] by simp

text \<open>A small database for the witnesses: two accounts, one with a claimed name.\<close>

definition demo_env :: ledger_env where
  "demo_env = \<lparr>env_sql_text = (\<lambda>x. x), env_extract_key = (\<lambda>p. Some (''key-'' @ p))\<rparr>"

definition demo_db :: database where
  "demo_db = fst (claimAccount 20 ''alice'' (Some ''Ann'') None ''hash''
     (fst (accounts_create 11 ''bob'' ''kb'' (fst (accounts_create 10 ''alice'' ''ka'' (openDatabase 0 empty_database))))))"

lemma demo_db_unique: "unique_usernames demo_db"
  by code_simp

lemma usernames_stay_unique_witness:
  "unique_usernames (fst (claimAccount 30 ''bob'' (Some ''ANN'') None ''h'' demo_db)) \<and>
   snd (claimAccount 30 ''bob'' (Some ''ANN'') None ''h'' demo_db) = Inl (ConstraintViolation ''accounts.username'')"
  using usernames_stay_unique [OF demo_db_unique, of 30 "''bob''" _ "Some ''ANN''" None "''h''"] by (simp, code_simp)

lemma remote_claim_resolved_witness:
  "snd (applyRemoteClaim demo_env 40 ''bob'' (Some ''ANN'') None ''h'' 15 (Some 1000) True demo_db) =
     Inr \<lparr>cr_applied = True, cr_supplyDelta = 0\<rparr> \<and>
   getBalance (fst (applyRemoteClaim demo_env 40 ''bob'' (Some ''ANN'') None ''h'' 15 (Some 1000) True demo_db)) ''bob'' = 0"
proof -
  have "claim_wins demo_db ''bob'' ''ANN'' 15" "getBalance demo_db ''bob'' = 0" by code_simp+
  then show ?thesis
    using remote_claim_resolved [OF demo_db_unique _ prod.collapse [symmetric],
        of "''ANN''" demo_env 40 "''bob''" None "''h''" 15 "Some 1000" True "''bob''"] by simp
qed

text \<open>The conflict rule compares a claim with the last update of the account that holds the name, and
  every balance change is an update. An account that claimed a name at time 20 and received a payment
  at time 100 therefore loses the name to a rival claim made at time 50, although the rule is meant
  to favour the older claim; without the payment the same rival claim is rejected.\<close>

lemma balance_update_forfeits_username:
  "snd (applyRemoteClaim demo_env 200 ''bob'' (Some ''ann'') None ''h'' 50 None False demo_db) =
     Inr \<lparr>cr_applied = False, cr_supplyDelta = 0\<rparr> \<and>
   snd (applyRemoteClaim demo_env 200 ''bob'' (Some ''ann'') None ''h'' 50 None False
          (addBalance 100 ''alice'' 1 demo_db)) =
     Inr \<lparr>cr_applied = True, cr_supplyDelta = 0\<rparr> \<and>
   map_option au_username (getAuthFields (fst (applyRemoteClaim demo_env 200 ''bob'' (Some ''ann'') None ''h'' 50 None False
          (addBalance 100 ''alice'' 1 demo_db))) ''alice'') = Some None"
  by code_simp

end
