(* ===== verification/Transactions.thy ===== *)
theory Transactions
  imports Accounts
begin

text \<open>
  \<^verbatim>\<open>TransactionStore\<close> (\<^verbatim>\<open>packages/ledger/src/transactions.ts\<close>): transfers, emissions and the
  application of remote transactions. The SHA-256 transaction id (of the fields, the time and random
  bytes) is an argument. An operation whose body runs in \<^verbatim>\<open>db.transaction\<close> and throws leaves the
  database as it was, so it returns either the error or the new database.

  Shown: money is conserved and no balance overdrawn on whole units; the supply statistic never
  passes the hard cap, in double arithmetic; a remote transaction is applied at most once; a fee
  computed here is accepted everywhere; where the code creates or loses money.
\<close>

section \<open>Operations\<close>

definition updateStat :: "time \<Rightarrow> string \<Rightarrow> number \<Rightarrow> bool \<Rightarrow> database \<Rightarrow> database" where
  "updateStat now key addValue accumulate d =
     (let v = (if accumulate then roundLux (fadd (getStatNumber d key) addValue) else roundLux addValue)
      in d\<lparr>db_stats := jupd key (\<lambda>_. \<lparr>st_value = v, st_updated_at = now\<rparr>) (db_stats d)\<rparr>)"

definition recordTransaction :: "Transaction \<Rightarrow> database \<Rightarrow> ledger_error + database" where
  "recordTransaction tx d =
     (if jhas (db_transactions d) (tx_id tx) then Inl (ConstraintViolation ''transactions.id'')
      else Inr (d\<lparr>db_transactions := db_transactions d @ [(tx_id tx, tx\<lparr>tx_relay := or_null (tx_relay tx)\<rparr>)]\<rparr>))"

definition getTransaction :: "database \<Rightarrow> string \<Rightarrow> Transaction option" where
  "getTransaction d i = jget (db_transactions d) i"

definition MIN_RELAY_FEE :: number where "MIN_RELAY_FEE = fl (1 / 10 ^ 6)"

definition relay_fee :: "number \<Rightarrow> peer_id option \<Rightarrow> number" where
  "relay_fee amount relay =
     (if truthy relay
      then max MIN_RELAY_FEE (fdiv (Math_floor (fmul (fmul amount RELAY_FEE_RATE) (10 ^ 8))) (10 ^ 8))
      else 0)"

text \<open>The payment of a positive fee to the relay, and its statistic.\<close>

definition pay_relay :: "time \<Rightarrow> peer_id \<Rightarrow> number \<Rightarrow> database \<Rightarrow> database" where
  "pay_relay now relay fee d = updateStat now ''total_relay_fees'' fee True (addBalance now relay fee d)"

definition transfer ::
  "time \<Rightarrow> string \<Rightarrow> peer_id \<Rightarrow> peer_id \<Rightarrow> number \<Rightarrow> peer_id option \<Rightarrow> database
     \<Rightarrow> ledger_error + database \<times> Transaction" where
  "transfer now hash from to amount relay d =
     (if amount \<le> 0 then Inl AmountNotPositive
      else if from = to then Inl SelfTransfer
      else if \<not> accounts_exists d from then Inl (SenderNotFound from)
      else if \<not> accounts_exists d to then Inl (RecipientNotFound to)
      else let fee = relay_fee amount relay;
               totalDebit = fadd amount fee;
               senderBalance = getBalance d from
           in if senderBalance < totalDebit then Inl (InsufficientBalance senderBalance totalDebit)
              else let tx = \<lparr>tx_id = hash, tx_from = from, tx_to = to, tx_amount = amount, tx_fee = fee,
                             tx_relay = or_null relay, tx_type = TRANSFER, tx_timestamp = now, tx_signature = []\<rparr>;
                       d1 = fst (subtractBalance now from totalDebit d);
                       d2 = addBalance now to amount d1;
                       d3 = (if 0 < fee \<and> truthy relay then pay_relay now (the relay) fee d2 else d2)
                   in (case recordTransaction tx d3 of Inl e \<Rightarrow> Inl e | Inr d4 \<Rightarrow> Inr (d4, tx)))"

definition getTotalSupply :: "database \<Rightarrow> number" where
  "getTotalSupply d = getStatNumber d ''total_supply''"

definition getTotalBurned :: "database \<Rightarrow> number" where
  "getTotalBurned d = getStatNumber d ''total_burned''"

definition getTotalRelayFees :: "database \<Rightarrow> number" where
  "getTotalRelayFees d = getStatNumber d ''total_relay_fees''"

definition recordEmission :: "Emission \<Rightarrow> database \<Rightarrow> ledger_error + database" where
  "recordEmission em d =
     (if jhas (db_emissions d) (em_id em) then Inl (ConstraintViolation ''emissions.id'')
      else Inr (d\<lparr>db_emissions := db_emissions d @ [(em_id em, em)]\<rparr>))"

text \<open>The amount the hard cap allows, \<open>None\<close> when nothing is left.\<close>

definition capped_amount :: "database \<Rightarrow> number \<Rightarrow> number option" where
  "capped_amount d amount =
     (let totalSupply = getTotalSupply d in
      if LUX_HARD_CAP < fadd totalSupply amount
      then let remaining = fsub LUX_HARD_CAP totalSupply in if remaining \<le> 0 then None else Some remaining
      else Some amount)"

definition emit ::
  "time \<Rightarrow> string \<Rightarrow> peer_id \<Rightarrow> number \<Rightarrow> WorkType \<Rightarrow> string \<Rightarrow> database
     \<Rightarrow> ledger_error + database \<times> Transaction" where
  "emit now hash to amount workType workProof d =
     (if amount \<le> 0 then Inl EmissionNotPositive
      else if \<not> accounts_exists d to then Inl (RecipientNotFound to)
      else case capped_amount d amount of
        None \<Rightarrow> Inl HardCapReached
      | Some amount \<Rightarrow>
          let tx = \<lparr>tx_id = hash, tx_from = NETWORK_ACCOUNT, tx_to = to, tx_amount = amount, tx_fee = 0,
                    tx_relay = None, tx_type = EMISSION, tx_timestamp = now, tx_signature = ''network-emission''\<rparr>
          in (case recordTransaction tx (addBalance now to amount d) of
                Inl e \<Rightarrow> Inl e
              | Inr d2 \<Rightarrow>
                 (case recordEmission \<lparr>em_id = hash, em_peerId = to, em_amount = amount, em_workType = workType,
                         em_workProof = workProof, em_timestamp = now\<rparr>
                       (updateStat now ''total_supply'' amount True d2) of
                    Inl e \<Rightarrow> Inl e | Inr d3 \<Rightarrow> Inr (d3, tx))))"

definition maxFee :: "number \<Rightarrow> number" where
  "maxFee amount = max MIN_RELAY_FEE (fmul (fmul amount RELAY_FEE_RATE) (3 / 2))"

text \<open>The body of the transaction that applies a remote record: \<open>moveRemote\<close> debits the sender and credits
  the recipient and the relay, \<open>doApply\<close> then records the transaction and tracks the supply.\<close>

definition moveRemote :: "ledger_env \<Rightarrow> time \<Rightarrow> Transaction \<Rightarrow> database \<Rightarrow> database" where
  "moveRemote E now tx d =
     (let d1 = (if tx_type tx = TRANSFER \<and> tx_from tx \<noteq> NETWORK_ACCOUNT
                then forceSubtractBalance E now (tx_from tx) (fadd (tx_amount tx) (tx_fee tx)) d else d);
          d2 = addBalance now (tx_to tx) (tx_amount tx) d1
      in if 0 < tx_fee tx \<and> truthy (tx_relay tx) \<and> accounts_exists d2 (the (tx_relay tx))
         then pay_relay now (the (tx_relay tx)) (tx_fee tx) d2 else d2)"

definition doApply :: "ledger_env \<Rightarrow> time \<Rightarrow> Transaction \<Rightarrow> database \<Rightarrow> ledger_error + database" where
  "doApply E now tx d =
     (case recordTransaction tx (moveRemote E now tx d) of
        Inl e \<Rightarrow> Inl e
      | Inr d4 \<Rightarrow> Inr (if tx_type tx = EMISSION
                       then updateStat now ''total_supply'' (tx_amount tx) True d4 else d4))"

definition applyRemoteTransaction :: "ledger_env \<Rightarrow> time \<Rightarrow> Transaction \<Rightarrow> database \<Rightarrow> ledger_error + database" where
  "applyRemoteTransaction E now tx d =
     (if getTransaction d (tx_id tx) \<noteq> None then Inr d
      else case (if tx_type tx = EMISSION then capped_amount d (tx_amount tx) else Some (tx_amount tx)) of
        None \<Rightarrow> Inr d
      | Some amount \<Rightarrow>
          let tx' = tx\<lparr>tx_amount := amount\<rparr> in
          if tx_type tx' = TRANSFER \<and> 0 < tx_fee tx' \<and> maxFee (tx_amount tx') < tx_fee tx' then Inr d
          else doApply E now tx' d)"

text \<open>Queries. Rows of equal timestamps keep the table's order.\<close>

definition getTransactionsForPeer :: "database \<Rightarrow> peer_id \<Rightarrow> nat \<Rightarrow> Transaction list" where
  "getTransactionsForPeer d p limit =
     take limit (sort_key (\<lambda>tx. - tx_timestamp tx)
       (filter (\<lambda>tx. tx_from tx = p \<or> tx_to tx = p) (jvals (db_transactions d))))"

definition getTransactionsSince :: "database \<Rightarrow> time \<Rightarrow> nat \<Rightarrow> Transaction list" where
  "getTransactionsSince d timestamp limit =
     take limit (sort_key tx_timestamp (filter (\<lambda>tx. timestamp < tx_timestamp tx) (jvals (db_transactions d))))"

definition getTransactionCount :: "database \<Rightarrow> nat" where
  "getTransactionCount d = length (db_transactions d)"

definition updateSignature :: "string \<Rightarrow> string \<Rightarrow> database \<Rightarrow> database" where
  "updateSignature txId signature d =
     d\<lparr>db_transactions := jupd txId (\<lambda>tx. tx\<lparr>tx_signature := signature\<rparr>) (db_transactions d)\<rparr>"

section \<open>Frame lemmas\<close>

lemma updateStat_frame [simp]:
  "db_accounts (updateStat now key a acc d) = db_accounts d"
  "db_transactions (updateStat now key a acc d) = db_transactions d"
  "db_emissions (updateStat now key a acc d) = db_emissions d"
  "db_contributions (updateStat now key a acc d) = db_contributions d"
  "db_contribution_seq (updateStat now key a acc d) = db_contribution_seq d"
  by (simp_all add: updateStat_def Let_def)

lemma accounts_cong:
  assumes "db_accounts d = db_accounts d'"
  shows "getBalance d = getBalance d'" "accounts_exists d = accounts_exists d'"
    "abs_units d = abs_units d'" "total_units d = total_units d'" "grid_accounts d = grid_accounts d'"
    "balances_nonneg d = balances_nonneg d'"
  using assms by (simp_all add: fun_eq_iff getBalance_def accounts_exists_def abs_units_def
      total_units_def grid_accounts_def balances_nonneg_def)

lemma updateStat_accounts [simp]:
  "getBalance (updateStat now key a acc d) = getBalance d"
  "accounts_exists (updateStat now key a acc d) = accounts_exists d"
  "abs_units (updateStat now key a acc d) = abs_units d"
  "total_units (updateStat now key a acc d) = total_units d"
  "grid_accounts (updateStat now key a acc d) = grid_accounts d"
  "balances_nonneg (updateStat now key a acc d) = balances_nonneg d"
  by (rule accounts_cong, simp)+

lemma getStatNumber_updateStat:
  "getStatNumber (updateStat now key a acc d) key' =
     (if key = key' \<and> jhas (db_stats d) key
      then roundLux (if acc then fadd (getStatNumber d key) a else a) else getStatNumber d key')"
  by (auto simp: updateStat_def getStatNumber_def Let_def jhas_def split: option.splits)

lemma jhas_updateStat [simp]: "jhas (db_stats (updateStat now key a acc d)) k = jhas (db_stats d) k"
  by (auto simp: updateStat_def jhas_def Let_def split: option.splits)

lemma recordTransaction_frame:
  assumes "recordTransaction tx d = Inr d'"
  shows "db_accounts d' = db_accounts d" "db_stats d' = db_stats d" "db_emissions d' = db_emissions d"
    "db_contributions d' = db_contributions d" "db_contribution_seq d' = db_contribution_seq d"
    "db_transactions d' = db_transactions d @ [(tx_id tx, tx\<lparr>tx_relay := or_null (tx_relay tx)\<rparr>)]"
    "\<not> jhas (db_transactions d) (tx_id tx)"
  using assms by (auto simp: recordTransaction_def split: if_splits)

lemma recordEmission_frame:
  assumes "recordEmission em d = Inr d'"
  shows "db_accounts d' = db_accounts d" "db_stats d' = db_stats d" "db_transactions d' = db_transactions d"
    "db_contributions d' = db_contributions d" "db_contribution_seq d' = db_contribution_seq d"
    "db_emissions d' = db_emissions d @ [(em_id em, em)]"
  using assms by (auto simp: recordEmission_def split: if_splits)

lemma pay_relay_frame [simp]:
  "db_transactions (pay_relay now p f d) = db_transactions d"
  "db_emissions (pay_relay now p f d) = db_emissions d"
  "db_accounts (pay_relay now p f d) = db_accounts (addBalance now p f d)"
  by (simp_all add: pay_relay_def)

lemma getTotalSupply_simps [simp]:
  "getTotalSupply (addBalance now p a d) = getTotalSupply d"
  "getTotalSupply (fst (subtractBalance now p a d)) = getTotalSupply d"
  "getTotalSupply (forceSubtractBalance E now p a d) = getTotalSupply d"
  "getTotalSupply (pay_relay now p f d) = getTotalSupply d"
  by (simp_all add: getTotalSupply_def pay_relay_def getStatNumber_updateStat)
     (simp_all add: getStatNumber_def forceSubtractBalance_stats)

lemma getTotalSupply_cong: "db_stats d = db_stats d' \<Longrightarrow> getTotalSupply d = getTotalSupply d'"
  by (simp add: getTotalSupply_def getStatNumber_def)

text \<open>What a successful transfer did, step by step.\<close>

lemma transfer_InrD:
  assumes "transfer now h from to a relay d = Inr (d', tx)"
  defines "fee \<equiv> relay_fee a relay"
  defines "d1 \<equiv> fst (subtractBalance now from (fadd a fee) d)"
  defines "d2 \<equiv> addBalance now to a d1"
  defines "d3 \<equiv> (if 0 < fee \<and> truthy relay then pay_relay now (the relay) fee d2 else d2)"
  shows "0 < a" "from \<noteq> to" "accounts_exists d from" "accounts_exists d to" "fadd a fee \<le> getBalance d from"
    "tx = \<lparr>tx_id = h, tx_from = from, tx_to = to, tx_amount = a, tx_fee = fee,
           tx_relay = or_null relay, tx_type = TRANSFER, tx_timestamp = now, tx_signature = []\<rparr>"
    "recordTransaction tx d3 = Inr d'"
  using assms by (auto simp: transfer_def Let_def split: if_splits sum.splits)

lemma emit_InrD:
  assumes "emit now h to a wt wp d = Inr (d', tx)"
  obtains a' d2 where "0 < a" "accounts_exists d to" "capped_amount d a = Some a'"
    "tx = \<lparr>tx_id = h, tx_from = NETWORK_ACCOUNT, tx_to = to, tx_amount = a', tx_fee = 0,
           tx_relay = None, tx_type = EMISSION, tx_timestamp = now, tx_signature = ''network-emission''\<rparr>"
    "recordTransaction tx (addBalance now to a' d) = Inr d2"
    "recordEmission \<lparr>em_id = h, em_peerId = to, em_amount = a', em_workType = wt,
       em_workProof = wp, em_timestamp = now\<rparr> (updateStat now ''total_supply'' a' True d2) = Inr d'"
  using assms by (auto simp: emit_def Let_def split: if_splits sum.splits option.splits)

section \<open>The hard cap\<close>

definition supply_within_cap :: "database \<Rightarrow> bool" where
  "supply_within_cap d = (0 \<le> getTotalSupply d \<and> getTotalSupply d \<le> LUX_HARD_CAP)"

text \<open>Rounding \<open>CAP - s\<close> and then \<open>s + (CAP - s)\<close> never ends above the cap: the first error is at most half
  a unit in the last place of the cap, and a tie goes to the cap, whose significand is even.\<close>

lemma fl_error_cap: "0 \<le> x \<Longrightarrow> x \<le> LUX_HARD_CAP \<Longrightarrow> \<bar>fl x - x\<bar> \<le> 1 / 2 ^ 20"
proof (cases "x = 0")
  case False
  assume x: "0 \<le> x" "x \<le> LUX_HARD_CAP"
  have "ilog2 LUX_HARD_CAP = 33" by code_simp
  then have "ilog2 \<bar>x\<bar> \<le> 33" using ilog2_mono [of x LUX_HARD_CAP] x False by simp
  then have "ulp_exp x \<le> - 19" by (simp add: ulp_exp_def)
  then have "(2::rat) powi ulp_exp x \<le> 2 powi (- 19)" by (rule pow2_mono)
  also have "\<dots> = 1 / 2 ^ 19" by code_simp
  finally show ?thesis using fl_half_ulp [OF False] by simp
qed simp

lemma cap_fill: "0 \<le> s \<Longrightarrow> s \<le> LUX_HARD_CAP \<Longrightarrow> fadd s (fsub LUX_HARD_CAP s) \<le> LUX_HARD_CAP"
proof -
  assume "0 \<le> s" "s \<le> LUX_HARD_CAP"
  then have "\<bar>fl (LUX_HARD_CAP - s) - (LUX_HARD_CAP - s)\<bar> \<le> 1 / 2 ^ 20" by (intro fl_error_cap) auto
  then have "s + fl (LUX_HARD_CAP - s) \<le> LUX_HARD_CAP + 1 / 2 ^ 20" by linarith
  then have "fadd s (fsub LUX_HARD_CAP s) \<le> fl (LUX_HARD_CAP + 1 / 2 ^ 20)"
    unfolding fadd_def fsub_def by (rule fl_mono)
  also have "\<dots> = LUX_HARD_CAP" by code_simp
  finally show ?thesis .
qed

lemma roundLux_cap: "x \<le> LUX_HARD_CAP \<Longrightarrow> roundLux x \<le> LUX_HARD_CAP"
proof -
  assume "x \<le> LUX_HARD_CAP"
  then have "roundLux x \<le> roundLux LUX_HARD_CAP" by (rule roundLux_mono)
  also have "\<dots> = LUX_HARD_CAP" by code_simp
  finally show ?thesis .
qed

lemma capped_amount_bounds:
  assumes "supply_within_cap d" "capped_amount d a = Some a'" "0 < a"
  shows "0 < a'" "fadd (getTotalSupply d) a' \<le> LUX_HARD_CAP"
  using assms cap_fill by (auto simp: capped_amount_def supply_within_cap_def Let_def split: if_splits)

lemma supply_add:
  assumes "supply_within_cap d" "capped_amount d a = Some a'" "0 < a" "getTotalSupply d2 = getTotalSupply d"
  shows "supply_within_cap (updateStat now ''total_supply'' a' True d2)"
  using assms capped_amount_bounds [OF assms(1-3)]
  by (auto simp: supply_within_cap_def getTotalSupply_def getStatNumber_updateStat fadd_def
      intro!: roundLux_cap roundLux_nonneg fl_nonneg)

lemma emit_supply:
  assumes "supply_within_cap d" "emit now h to a wt wp d = Inr (d', tx)"
  shows "supply_within_cap d'"
  using assms(2)
proof (cases rule: emit_InrD)
  case (1 a' d2)
  have "getTotalSupply d2 = getTotalSupply d"
    using getTotalSupply_cong [OF recordTransaction_frame(2) [OF 1(5)]] by simp
  from supply_add [OF assms(1) 1(3,1) this] recordEmission_frame(2) [OF 1(6)] show ?thesis
    by (simp add: supply_within_cap_def getTotalSupply_def getStatNumber_def)
qed

lemma transfer_supply:
  assumes "transfer now h from to a relay d = Inr (d', tx)"
  shows "getTotalSupply d' = getTotalSupply d"
proof -
  note r = recordTransaction_frame(2) [OF transfer_InrD(7) [OF assms]]
  show ?thesis unfolding getTotalSupply_cong [OF r] by (simp only: getTotalSupply_simps split: if_split) simp
qed

section \<open>Remote transactions\<close>

text \<open>A remote transaction is either skipped or applied as a whole.\<close>

lemma applyRemote_cases:
  assumes "applyRemoteTransaction E now tx d = r"
  obtains "r = Inr d" | a where "\<not> jhas (db_transactions d) (tx_id tx)"
    "if tx_type tx = EMISSION then capped_amount d (tx_amount tx) = Some a else a = tx_amount tx"
    "tx_type tx = TRANSFER \<Longrightarrow> 0 < tx_fee tx \<Longrightarrow> tx_fee tx \<le> maxFee (tx_amount tx)"
    "r = doApply E now (tx\<lparr>tx_amount := a\<rparr>) d"
  using assms unfolding applyRemoteTransaction_def getTransaction_def Let_def
  by (auto simp: jhas_def not_less split: if_splits option.splits)

lemma moveRemote_frame [simp]:
  "db_transactions (moveRemote E now tx d) = db_transactions d"
  "db_emissions (moveRemote E now tx d) = db_emissions d"
  "getTotalSupply (moveRemote E now tx d) = getTotalSupply d"
  by (simp_all add: moveRemote_def Let_def)

lemma moveRemote_nonneg [inv_intros]:
  "balances_nonneg d \<Longrightarrow> 0 \<le> tx_amount tx \<Longrightarrow> balances_nonneg (moveRemote E now tx d)"
  by (auto simp: moveRemote_def Let_def pay_relay_def intro!: inv_intros)

definition recorded :: "Transaction \<Rightarrow> database \<Rightarrow> database" where
  "recorded tx d = d\<lparr>db_transactions := db_transactions d @ [(tx_id tx, tx\<lparr>tx_relay := or_null (tx_relay tx)\<rparr>)]\<rparr>"

lemma recorded_frame [simp]:
  "balances_nonneg (recorded tx d) = balances_nonneg d" "getTotalSupply (recorded tx d) = getTotalSupply d"
  "jhas (db_transactions (recorded tx d)) (tx_id tx)"
  by (simp_all add: recorded_def balances_nonneg_def getTotalSupply_def getStatNumber_def jhas_iff)

lemma doApply_Inr:
  assumes "\<not> jhas (db_transactions d) (tx_id tx)"
  shows "doApply E now tx d = Inr (if tx_type tx = EMISSION
    then updateStat now ''total_supply'' (tx_amount tx) True (recorded tx (moveRemote E now tx d))
    else recorded tx (moveRemote E now tx d))"
  using assms by (simp add: doApply_def recordTransaction_def recorded_def)

lemma applyRemote_total: "\<exists>d'. applyRemoteTransaction E now tx d = Inr d'"
  by (rule applyRemote_cases [OF refl, of E now tx d]) (auto simp: doApply_Inr)

lemma applyRemote_nonneg:
  assumes "balances_nonneg d" "0 < tx_amount tx" "supply_within_cap d" "applyRemoteTransaction E now tx d = Inr d'"
  shows "balances_nonneg d' \<and> supply_within_cap d'"
  using assms(4)
proof (cases rule: applyRemote_cases)
  case (2 a)
  have a: "0 < a" using 2(2) capped_amount_bounds(1) [OF assms(3)] assms(2) by (auto split: if_splits)
  let ?tx = "tx\<lparr>tx_amount := a\<rparr>"
  have n: "balances_nonneg (moveRemote E now ?tx d)" using assms(1) a by (intro inv_intros) auto
  have "d' = (if tx_type tx = EMISSION
      then updateStat now ''total_supply'' a True (recorded ?tx (moveRemote E now ?tx d))
      else recorded ?tx (moveRemote E now ?tx d))"
    using 2(4) doApply_Inr [of d ?tx E now] 2(1) by simp
  then show ?thesis
    using n assms(3) supply_add [OF assms(3) _ assms(2), of a "recorded ?tx (moveRemote E now ?tx d)" now] 2(2)
    by (simp add: supply_within_cap_def split: if_splits)
qed (use assms in simp)

text \<open>Once a transaction id is recorded, nothing that carries it changes the ledger.\<close>

lemma applyRemote_known: "jhas (db_transactions d) (tx_id tx) \<Longrightarrow> applyRemoteTransaction E now tx d = Inr d"
  by (simp add: applyRemoteTransaction_def getTransaction_def jhas_def)

lemma applyRemote_records:
  assumes "applyRemoteTransaction E now tx d = Inr d'"
  shows "d' = d \<or> jhas (db_transactions d') (tx_id tx)"
  using assms
proof (cases rule: applyRemote_cases)
  case (2 a)
  then show ?thesis using recorded_frame(3) [of "tx\<lparr>tx_amount := a\<rparr>"]
    by (auto simp: doApply_Inr split: if_splits)
qed simp

section \<open>Relay fees\<close>

definition fee_units :: "int \<Rightarrow> peer_id option \<Rightarrow> int" where
  "fee_units k relay = (if truthy relay
     then max 100 \<lfloor>fmul (fmul (lux k) RELAY_FEE_RATE) (10 ^ 8)\<rfloor> else 0)"

lemma MIN_RELAY_FEE_lux: "MIN_RELAY_FEE = lux 100"
  by (simp add: MIN_RELAY_FEE_def lux_def)

lemma lux_max: "lux (max j k) = max (lux j) (lux k)"
  using lux_mono [of j k] lux_mono [of k j] by (auto simp: max_def)

lemma relay_fee_lux: "relay_fee (lux k) relay = lux (fee_units k relay)"
proof -
  have "fdiv (Math_floor x) (10 ^ 8) = lux \<lfloor>x\<rfloor>" for x by (simp add: Math_floor_def lux_def fdiv_def)
  then show ?thesis by (cases "truthy relay") (simp_all only: relay_fee_def fee_units_def lux_max MIN_RELAY_FEE_lux if_True if_False lux_0)
qed

lemma fee_units_nonneg: "0 \<le> fee_units k relay"
  by (simp add: fee_units_def le_max_iff_disj)

lemma fee_units_none: "\<not> truthy relay \<Longrightarrow> fee_units k relay = 0"
  by (simp add: fee_units_def)

lemma fee_pos: "truthy relay \<Longrightarrow> 0 < relay_fee a relay"
proof -
  have "0 < MIN_RELAY_FEE" unfolding MIN_RELAY_FEE_def by code_simp
  then show "truthy relay \<Longrightarrow> 0 < relay_fee a relay" by (simp add: relay_fee_def less_max_iff_disj)
qed

lemma fee_nonneg: "0 \<le> relay_fee a relay"
  using fee_pos [of relay a] by (cases "truthy relay") (simp_all add: relay_fee_def less_imp_le)

section \<open>Transfers on units\<close>

lemma transfer_units:
  assumes g: "grid_accounts d" and k: "0 \<le> k" and lim: "k + fee_units k relay \<le> UNIT_LIMIT"
    and t: "transfer now h from to (lux k) relay d = Inr (d', tx)"
  shows "\<exists>u. abs_units d from = Some u \<and> k + fee_units k relay \<le> u \<and>
      abs_units d' = (let m = credit to k ((abs_units d)(from \<mapsto> u - (k + fee_units k relay)))
                      in if truthy relay then credit (the relay) (fee_units k relay) m else m)"
    and "grid_accounts d'"
    and "total_units d' = total_units d -
      (if truthy relay \<and> \<not> accounts_exists d (the relay) then fee_units k relay else 0)"
proof -
  note T = transfer_InrD [OF t]
  define f where "f = fee_units k relay"
  have f: "0 \<le> f" "relay_fee (lux k) relay = lux f" by (simp_all add: f_def fee_units_nonneg relay_fee_lux)
  define d1 where "d1 = fst (subtractBalance now from (fadd (lux k) (lux f)) d)"
  define d2 where "d2 = addBalance now to (lux k) d1"
  define d3 where "d3 = (if truthy relay then pay_relay now (the relay) (lux f) d2 else d2)"
  obtain u where u: "abs_units d from = Some u"
    using T(3) by (auto simp: accounts_exists_def jhas_def abs_units_def)
  have near: "\<bar>fadd (lux k) (lux f) * 10 ^ 8 - of_int (k + f)\<bar> \<le> 2 * (of_int (k + f) / 2 ^ 53) + 1 / 100"
    using k f lim by (intro lux_fadd_near) (auto simp: f_def)
  have kf: "0 \<le> k + f" "k + f \<le> UNIT_LIMIT" using k f lim by (auto simp: f_def)
  note s = subtractBalance_units(1) [OF g kf near u T(5) [unfolded f(2)]]
    subtractBalance_units(2-4) [OF g kf near u T(5) [unfolded f(2)], of now, folded d1_def]
  have l1: "total_units d1 + k \<le> UNIT_LIMIT" using s(4) f(1) grid_accountsD(2) [OF g] by simp
  note a = addBalance_units [OF s(3) k l1 near_lux [OF k], of now to, folded d2_def]
  have ex: "accounts_exists d1 q = accounts_exists d q" "accounts_exists d2 q = accounts_exists d q" for q
    by (simp_all add: d1_def d2_def)
  have l2: "total_units d2 + f \<le> UNIT_LIMIT"
    using a(3) s(4) T(4) grid_accountsD(2) [OF g] by (simp add: ex)
  note b = addBalance_units [OF a(2) f(1) l2 near_lux [OF f(1)], of now "the relay"]
  have acc: "db_accounts d' = db_accounts d3"
    using recordTransaction_frame(1) [OF T(7)] fee_pos [of relay "lux k"]
    by (simp add: d3_def d2_def d1_def f(2) split: if_splits)
  have pr: "abs_units (pay_relay now p x e) = abs_units (addBalance now p x e)"
    "total_units (pay_relay now p x e) = total_units (addBalance now p x e)"
    "grid_accounts (pay_relay now p x e) = grid_accounts (addBalance now p x e)" for p x e
    by (rule accounts_cong, simp)+
  show "\<exists>u. abs_units d from = Some u \<and> k + fee_units k relay \<le> u \<and>
      abs_units d' = (let m = credit to k ((abs_units d)(from \<mapsto> u - (k + fee_units k relay)))
                      in if truthy relay then credit (the relay) (fee_units k relay) m else m)"
    using u s(1,2) a(1) b(1) accounts_cong(3) [OF acc] by (simp add: d3_def pr f_def Let_def)
  show "grid_accounts d'" using a(2) b(2) accounts_cong(5) [OF acc] by (simp add: d3_def pr)
  show "total_units d' = total_units d -
      (if truthy relay \<and> \<not> accounts_exists d (the relay) then fee_units k relay else 0)"
    using s(4) a(3) b(3) accounts_cong(4) [OF acc] T(4) by (simp add: d3_def pr ex f_def fee_units_none)
qed

text \<open>The fee is a thousandth of the amount, up to one unit and with the minimum of 100 units.\<close>

lemma fee_rate_near:
  assumes k: "0 \<le> k" "k \<le> UNIT_LIMIT"
  shows "\<bar>fmul (fmul (lux k) RELAY_FEE_RATE) (10 ^ 8) - of_int k / 1000\<bar> < 1 / 1000"
proof -
  let ?k = "of_int k :: rat" and ?r = "RELAY_FEE_RATE"
  have k8: "0 \<le> ?k" "?k / 2 ^ 53 \<le> 1 / 8" using unit_limit_div [OF k] k(1) by auto
  have r: "0 \<le> ?r" "?r \<le> 2 / 1000" by code_simp+
  have r3: "\<bar>?r - 1 / 1000\<bar> \<le> 1 / 10 ^ 19" by code_simp
  have k50: "?k \<le> 2 ^ 50" using k(2) unfolding UNIT_LIMIT_def by (metis of_int_le_iff of_int_numeral of_int_power)
  have "\<bar>lux k * 10 ^ 8 - ?k\<bar> * ?r \<le> (13 / 100) * (2 / 1000)"
    using lux_near [of k] k8 r(1,2) by (intro mult_mono) auto
  then have a: "\<bar>(lux k * 10 ^ 8 - ?k) * ?r\<bar> \<le> 26 / 100000" using r(1) by (simp add: abs_mult)
  have "?k * \<bar>?r - 1 / 1000\<bar> \<le> 2 ^ 50 * (1 / 10 ^ 19)" using r3 k50 by (intro mult_mono) auto
  also have "\<dots> \<le> 13 / 100000" by simp
  finally have b: "\<bar>?k * (?r - 1 / 1000)\<bar> \<le> 13 / 100000" using k8(1) by (simp add: abs_mult)
  have "lux k * ?r * 10 ^ 8 - ?k / 1000 = (lux k * 10 ^ 8 - ?k) * ?r + ?k * (?r - 1 / 1000)"
    by (simp add: algebra_simps)
  then have c: "\<bar>lux k * ?r * 10 ^ 8 - ?k / 1000\<bar> \<le> 39 / 100000" using a b by linarith
  have z: "\<bar>?k / 1000\<bar> / 2 ^ 53 \<le> 13 / 100000" using k8 by simp
  have d: "\<bar>fmul (lux k) ?r * 10 ^ 8 - ?k / 1000\<bar> \<le> 53 / 100000"
    using fl_near [OF c] z unfolding fmul_def by simp
  let ?Y = "fmul (lux k) ?r * 10 ^ 8"
  have "\<bar>?Y\<bar> \<le> ?k / 1000 + 1" using d k8(1) by linarith
  then have "\<bar>?Y\<bar> / 2 ^ 53 \<le> (?k / 1000 + 1) / 2 ^ 53" by (rule divide_right_mono) simp
  also have "\<dots> = ?k / 2 ^ 53 / 1000 + 1 / 2 ^ 53" by (simp add: add_divide_distrib)
  also have "\<dots> \<le> 1 / 8 / 1000 + 1 / 2 ^ 53" using k8(2) by (intro add_right_mono divide_right_mono) auto
  finally have "\<bar>?Y\<bar> / 2 ^ 53 \<le> 1 / 8 / 1000 + 1 / 2 ^ 53" .
  moreover have "1 / 8 / 1000 + 1 / 2 ^ 53 + 1 / 10 ^ 30 \<le> (14 / 100000 :: rat)" by code_simp
  ultimately have e: "\<bar>fl ?Y - ?Y\<bar> \<le> 14 / 100000" using fl_error [of ?Y] tiny_bounds(3) by linarith
  show ?thesis using d e unfolding fmul_def [of _ "10 ^ 8"] by linarith
qed

lemma fee_units_rate:
  assumes "0 \<le> k" "k \<le> UNIT_LIMIT" "truthy relay"
  shows "max 100 (k div 1000 - 1) \<le> fee_units k relay" "fee_units k relay \<le> max 100 (k div 1000)"
proof -
  let ?x = "fmul (fmul (lux k) RELAY_FEE_RATE) (10 ^ 8)"
  have dm: "k = 1000 * (k div 1000) + k mod 1000" "0 \<le> k mod 1000" "k mod 1000 \<le> 999" by auto
  then have q: "of_int k = (1000 * of_int (k div 1000) + of_int (k mod 1000) :: rat)"
    "0 \<le> (of_int (k mod 1000) :: rat)" "of_int (k mod 1000) \<le> (999 :: rat)"
    by (metis of_int_add of_int_mult of_int_numeral) (use dm in \<open>simp_all\<close>)
  have kd: "(of_int (k div 1000 - 1) :: rat) = of_int (k div 1000) - 1" by simp
  have "?x < of_int (k div 1000) + 1" "of_int (k div 1000 - 1) \<le> ?x"
    using fee_rate_near [OF assms(1,2)] q kd by linarith+
  then have "\<lfloor>?x\<rfloor> \<le> k div 1000" "k div 1000 - 1 \<le> \<lfloor>?x\<rfloor>"
    by (simp_all add: floor_le_iff le_floor_iff)
  then show "max 100 (k div 1000 - 1) \<le> fee_units k relay" "fee_units k relay \<le> max 100 (k div 1000)"
    using assms(3) by (auto simp: fee_units_def)
qed

text \<open>A fee computed by \<open>transfer\<close> passes the check of \<open>applyRemoteTransaction\<close>, for every amount.\<close>

lemma fdiv_floor_le:
  assumes "0 \<le> x" "101 \<le> \<lfloor>fmul x (10 ^ 8)\<rfloor>"
  shows "of_int \<lfloor>fmul x (10 ^ 8)\<rfloor> / 10 ^ 8 \<le> x * (3 / 2)"
proof -
  define X where "X = x * 10 ^ 8"
  have X: "0 \<le> X" using assms(1) by (simp add: X_def)
  have n: "of_int \<lfloor>fmul x (10 ^ 8)\<rfloor> \<le> fl X" by (simp add: fmul_def X_def)
  have "of_int 101 \<le> (of_int \<lfloor>fmul x (10 ^ 8)\<rfloor> :: rat)" using assms(2) by (simp only: of_int_le_iff)
  moreover have "X / 2 ^ 53 \<le> X / 4" using X by (intro divide_left_mono) auto
  moreover have "\<bar>X\<bar> = X" "1 / 10 ^ 30 \<le> (1 :: rat)" "(of_int 101 :: rat) = 101" using X by simp_all
  ultimately have "of_int \<lfloor>fmul x (10 ^ 8)\<rfloor> \<le> X * (3 / 2)"
    using n fl_error [of X] tiny_bounds(3) by linarith
  then show ?thesis by (simp add: X_def field_simps)
qed

lemma local_fee_accepted:
  assumes "0 < a"
  shows "relay_fee a relay \<le> maxFee a"
proof -
  define x where "x = fmul a RELAY_FEE_RATE"
  define n where "n = \<lfloor>fmul x (10 ^ 8)\<rfloor>"
  have "0 \<le> RELAY_FEE_RATE" unfolding RELAY_FEE_RATE_def by code_simp
  then have x: "0 \<le> x" using assms by (simp add: x_def fmul_def fl_nonneg)
  have "fl (of_int n / 10 ^ 8) \<le> max MIN_RELAY_FEE (fl (x * (3 / 2)))"
  proof (cases "n \<le> 100")
    case True
    then have "fl (of_int n / 10 ^ 8) \<le> MIN_RELAY_FEE"
      using lux_mono [of n 100] by (simp only: MIN_RELAY_FEE_lux lux_def)
    then show ?thesis by simp
  next
    case False
    then have "fl (of_int n / 10 ^ 8) \<le> fl (x * (3 / 2))"
      using fdiv_floor_le [OF x] unfolding n_def by (intro fl_mono) simp
    then show ?thesis by simp
  qed
  moreover have "0 \<le> MIN_RELAY_FEE" unfolding MIN_RELAY_FEE_def by code_simp
  ultimately show ?thesis
    by (auto simp: relay_fee_def maxFee_def x_def n_def fdiv_def Math_floor_def fmul_def)
qed

section \<open>Supply and balances\<close>

text \<open>The statistic \<^verbatim>\<open>total_supply\<close> is the sum of all balances.\<close>

definition supply_matches :: "database \<Rightarrow> bool" where
  "supply_matches d = (grid_accounts d \<and> jhas (db_stats d) ''total_supply'' \<and> getTotalSupply d = lux (total_units d))"

lemma capped_amount_units:
  assumes "supply_matches d" "0 \<le> k" "total_units d + k \<le> UNIT_LIMIT" and a: "near_units k a"
  shows "capped_amount d a = Some a"
proof -
  have t: "0 \<le> total_units d" using assms(1) total_units_nonneg by (simp add: supply_matches_def)
  have "lux (total_units d) + a \<le> 40000000"
    using near_units_le [OF near_lux [OF t] t] near_units_le [OF a] assms t by simp
  then have "fadd (getTotalSupply d) a \<le> fl 40000000"
    using assms(1) unfolding fadd_def supply_matches_def by (intro fl_mono) simp
  also have "\<dots> \<le> LUX_HARD_CAP" by code_simp
  finally show ?thesis by (simp add: capped_amount_def Let_def)
qed

lemma supply_matches_add:
  assumes "supply_matches d" "0 \<le> k" "total_units d + k \<le> UNIT_LIMIT" "grid_accounts d2"
    "total_units d2 = total_units d + k" "db_stats d2 = db_stats d"
    and a: "near_units k a"
  shows "supply_matches (updateStat now ''total_supply'' a True d2)"
proof -
  have "0 \<le> total_units d" using assms(1) total_units_nonneg by (simp add: supply_matches_def)
  then have "roundLux (fadd (lux (total_units d)) a) = lux (total_units d + k)"
    using assms(2,3) a by (intro lux_add')
  moreover have "getStatNumber d2 ''total_supply'' = lux (total_units d)" "jhas (db_stats d2) ''total_supply''"
    using assms(1,6) by (simp_all add: supply_matches_def getTotalSupply_def getStatNumber_def)
  ultimately show ?thesis
    using assms by (simp add: supply_matches_def getTotalSupply_def getStatNumber_updateStat)
qed

lemma emit_units:
  assumes m: "supply_matches d" and k: "0 < k" "total_units d + k \<le> UNIT_LIMIT"
    and ok: "accounts_exists d to" "\<not> jhas (db_transactions d) h" "\<not> jhas (db_emissions d) h"
    and a: "near_units k a"
  shows "\<exists>d' tx. emit now h to a wt wp d = Inr (d', tx) \<and> supply_matches d' \<and>
    abs_units d' = credit to k (abs_units d) \<and> total_units d' = total_units d + k"
proof -
  let ?tx = "\<lparr>tx_id = h, tx_from = NETWORK_ACCOUNT, tx_to = to, tx_amount = a, tx_fee = 0,
    tx_relay = None, tx_type = EMISSION, tx_timestamp = now, tx_signature = ''network-emission''\<rparr>"
  let ?d2 = "recorded ?tx (addBalance now to a d)"
  let ?d3 = "updateStat now ''total_supply'' a True ?d2"
  define em where "em = \<lparr>em_id = h, em_peerId = to, em_amount = a, em_workType = wt,
    em_workProof = wp, em_timestamp = now\<rparr>"
  let ?d4 = "?d3\<lparr>db_emissions := db_emissions ?d3 @ [(h, em)]\<rparr>"
  have g: "grid_accounts d" using m by (simp add: supply_matches_def)
  note b = addBalance_units [OF g less_imp_le [OF k(1)] k(2) a, of now to]
  have acc: "db_accounts ?d2 = db_accounts (addBalance now to a d)" by (simp add: recorded_def)
  note c = accounts_cong [OF acc]
  have pos: "0 < a" using near_units_pos [OF a k(1)] .
  have s3: "supply_matches ?d3"
    by (rule supply_matches_add [OF m]) (use k a b c ok(1) in \<open>simp_all add: recorded_def\<close>)
  have "emit now h to a wt wp d = Inr (?d4, ?tx)"
    using pos ok capped_amount_units [OF m less_imp_le [OF k(1)] k(2) a]
    by (simp add: emit_def Let_def recordTransaction_def recordEmission_def recorded_def or_null_def truthy_def em_def)
  moreover have "supply_matches ?d4"
    using s3 by (simp add: supply_matches_def grid_accounts_def total_units_def getTotalSupply_def getStatNumber_def)
  moreover have "abs_units ?d4 = credit to k (abs_units d)" "total_units ?d4 = total_units d + k"
    using b c ok(1) accounts_cong [of ?d4 ?d2] by simp_all
  ultimately show ?thesis by blast
qed

lemma transfer_succeeds:
  assumes g: "grid_accounts d" and k: "0 < k" and u: "abs_units d from = Some u" "k + fee_units k relay + 1 \<le> u"
    and ok: "from \<noteq> to" "accounts_exists d to" "\<not> jhas (db_transactions d) h"
  shows "\<exists>d' tx. transfer now h from to (lux k) relay d = Inr (d', tx)"
proof -
  define f where "f = fee_units k relay"
  have f: "0 \<le> f" by (simp add: f_def fee_units_nonneg)
  have b: "u \<le> UNIT_LIMIT" "getBalance d from = lux u"
    using grid_accountsD(2) [OF g] grid_accountsD(3) [OF g u(1)] by auto
  have kf: "k + f \<le> UNIT_LIMIT" "0 \<le> k + f" "0 \<le> u" using u(2) b(1) f k by (auto simp: f_def)
  have near: "\<bar>fadd (lux k) (lux f) * 10 ^ 8 - of_int (k + f)\<bar> \<le> 2 * (of_int (k + f) / 2 ^ 53) + 1 / 100"
    using k f kf(1) by (intro lux_fadd_near) auto
  have "of_int (k + f) + 1 \<le> (of_int u :: rat)" using u(2) unfolding f_def by linarith
  moreover have "of_int (k + f) / 2 ^ 53 \<le> (1 / 8 :: rat)" "\<bar>of_int u\<bar> / 2 ^ 53 \<le> (1 / 8 :: rat)"
    using unit_limit_div [OF kf(2,1)] unit_limit_div [OF kf(3) b(1)] kf(2) by simp_all
  moreover have "1 / 10 ^ 20 \<le> (1 / 100 :: rat)" by simp
  ultimately have "fadd (lux k) (lux f) * 10 ^ 8 \<le> lux u * 10 ^ 8" using near lux_near [of u] by linarith
  then have "fadd (lux k) (lux f) \<le> getBalance d from" by (simp add: b(2))
  moreover have "0 < lux k" using lux_strict_mono [of 0 k] k f kf(1) by simp
  moreover have "accounts_exists d from" using u(1) by (auto simp: accounts_exists_def jhas_def abs_units_def)
  ultimately show ?thesis
    using ok by (auto simp: transfer_def Let_def relay_fee_lux f_def [symmetric] recordTransaction_def)
qed

section \<open>Replicas\<close>

text \<open>Two nodes agree on the money: the same accounts with the same balances.\<close>

definition same_money :: "database \<Rightarrow> database \<Rightarrow> bool" where
  "same_money d e = (\<forall>p. getBalance d p = getBalance e p \<and> accounts_exists d p = accounts_exists e p)"

lemma same_money_set_balance: "same_money d e \<Longrightarrow> same_money (set_balance t p v d) (set_balance t' p v e)"
  by (auto simp: same_money_def)

lemma same_money_addBalance: "same_money d e \<Longrightarrow> same_money (addBalance t p a d) (addBalance t' p a e)"
  by (auto simp: addBalance_def same_money_def)

lemma same_money_cong: "db_accounts d = db_accounts d' \<Longrightarrow> db_accounts e = db_accounts e' \<Longrightarrow>
    same_money d e = same_money d' e'"
  by (simp add: same_money_def getBalance_def accounts_exists_def)

lemma same_money_debit:
  assumes "same_money d e" "a \<le> getBalance d p"
  shows "same_money (fst (subtractBalance t p a d)) (forceSubtractBalance E t' p a e)"
proof -
  have "0 \<le> roundLux (fsub (getBalance e p) a)"
    using assms by (auto simp: same_money_def fsub_def intro!: roundLux_nonneg fl_nonneg)
  then show ?thesis using assms by (auto simp: subtractBalance_def forceSubtractBalance_def same_money_def)
qed

text \<open>Applying a transfer made elsewhere changes the balances exactly as making it did.\<close>

lemma moveRemote_replicates:
  assumes t: "transfer now h from to a relay d = Inr (d', tx)" and s: "same_money d e" and n: "from \<noteq> NETWORK_ACCOUNT"
  shows "same_money d' (moveRemote E now' tx e)"
proof -
  note T = transfer_InrD [OF t]
  let ?f = "relay_fee a relay"
  let ?d2 = "addBalance now to a (fst (subtractBalance now from (fadd a ?f) d))"
  let ?e2 = "addBalance now' to a (forceSubtractBalance E now' from (fadd a ?f) e)"
  have 2: "same_money ?d2 ?e2" by (intro same_money_addBalance same_money_debit [OF s T(5)])
  have nop: "addBalance t p x d0 = d0" if "\<not> accounts_exists d0 p" for t p x d0
    using that by (simp add: addBalance_def set_balance_def accounts_exists_def jhas_iff jupd_fresh)
  have mv: "db_accounts (moveRemote E now' tx e) = db_accounts (if truthy relay then addBalance now' (the relay) ?f ?e2 else ?e2)"
    using n fee_pos [of relay a] nop
    by (auto simp: moveRemote_def T(6) Let_def or_null_def truthy_def [of None] split: if_splits)
  have d': "db_accounts d' = db_accounts (if truthy relay then addBalance now (the relay) ?f ?d2 else ?d2)"
    using recordTransaction_frame(1) [OF T(7)] fee_pos [of relay a] by (simp split: if_splits)
  have "same_money (if truthy relay then addBalance now (the relay) ?f ?d2 else ?d2)
    (if truthy relay then addBalance now' (the relay) ?f ?e2 else ?e2)"
    using 2 same_money_addBalance by simp
  then show ?thesis using same_money_cong [OF d' mv] by simp
qed

lemma applyRemote_replicates:
  assumes t: "transfer now h from to a relay d = Inr (d', tx)" and s: "same_money d e" and n: "from \<noteq> NETWORK_ACCOUNT"
    and new: "\<not> jhas (db_transactions e) h"
  shows "\<exists>e'. applyRemoteTransaction E now' tx e = Inr e' \<and> same_money d' e' \<and> getTransaction e' h = Some tx"
proof -
  note T = transfer_InrD [OF t]
  have id: "tx_id tx = h" "tx_type tx = TRANSFER" "tx_amount tx = a" "tx_fee tx = relay_fee a relay"
    "tx_relay tx = or_null relay" using T(6) by simp_all
  have "doApply E now' (tx\<lparr>tx_amount := a\<rparr>) e = doApply E now' tx e" using T(6) by simp
  then have "applyRemoteTransaction E now' tx e = doApply E now' tx e"
    using new local_fee_accepted [OF T(1), of relay]
    by (simp add: applyRemoteTransaction_def getTransaction_def id jhas_def Let_def)
  also have "\<dots> = Inr (recorded tx (moveRemote E now' tx e))" using new by (simp add: doApply_Inr id)
  finally have r: "applyRemoteTransaction E now' tx e = Inr (recorded tx (moveRemote E now' tx e))" .
  have "same_money d' (recorded tx (moveRemote E now' tx e))"
    using moveRemote_replicates [OF t s n, of E now']
    by (simp add: same_money_def getBalance_def accounts_exists_def recorded_def)
  moreover have "getTransaction (recorded tx (moveRemote E now' tx e)) h = Some tx"
    using new by (simp add: getTransaction_def recorded_def id jhas_def or_null_def)
  ultimately show ?thesis using r by blast
qed

section \<open>Properties\<close>

text \<open>C1: Conservation of money. On balances that are whole units, a transfer of \<open>k\<close> units that succeeds
  debits the sender \<open>k\<close> plus the fee, credits the recipient \<open>k\<close> and the relay the fee, as integers, and never
  overdraws the sender; balances stay whole units and the sum of all balances is unchanged, except that a
  fee for a relay without an account is debited and credited to nobody.\<close>

theorem transfer_conserves_money:
  assumes "grid_accounts d" and "0 \<le> k" and "k + fee_units k relay \<le> UNIT_LIMIT"
    and "transfer now h from to (lux k) relay d = Inr (d', tx)"
  shows "grid_accounts d'
    \<and> total_units d' = total_units d - (if truthy relay \<and> \<not> accounts_exists d (the relay) then fee_units k relay else 0)
    \<and> (\<exists>u. abs_units d from = Some u \<and> k + fee_units k relay \<le> u \<and>
        abs_units d' = (let m = credit to k ((abs_units d)(from \<mapsto> u - (k + fee_units k relay)))
                        in if truthy relay then credit (the relay) (fee_units k relay) m else m))"
  using transfer_units [OF assms] by blast

definition bank_db :: database where
  "bank_db = fst (accounts_create 12 ''carol'' ''kc''
     (set_balance 11 ''alice'' 50 (updateStat 11 ''total_supply'' 50 True demo_db)))"

lemma bank_db_grid: "grid_accounts bank_db"
  by code_simp

lemma bank_transfer:
  "\<exists>d' tx. transfer 100 ''h1'' ''alice'' ''bob'' (lux 1000000000) (Some ''carol'') bank_db = Inr (d', tx)"
  by (rule transfer_succeeds [OF bank_db_grid, where u = 5000000000]) code_simp+

theorem transfer_conserves_money_witness:
  "\<exists>d' tx. transfer 100 ''h1'' ''alice'' ''bob'' (lux 1000000000) (Some ''carol'') bank_db = Inr (d', tx) \<and>
     grid_accounts d' \<and> total_units d' = 5000000000"
proof -
  obtain d' tx where t: "transfer 100 ''h1'' ''alice'' ''bob'' (lux 1000000000) (Some ''carol'') bank_db = Inr (d', tx)"
    using bank_transfer by blast
  have "1000000000 + fee_units 1000000000 (Some ''carol'') \<le> UNIT_LIMIT" "total_units bank_db = 5000000000"
    "accounts_exists bank_db ''carol''" by code_simp+
  with transfer_conserves_money [OF bank_db_grid _ _ t] t show ?thesis by auto
qed

text \<open>A transfer succeeds whenever the arguments are valid and the sender has one unit more than
  amount and fee, the largest rounding error of the floating-point comparison.\<close>

lemma transfer_available:
  assumes "grid_accounts d" and "0 < k" and "abs_units d from = Some u" and "k + fee_units k relay + 1 \<le> u"
    and "from \<noteq> to" and "accounts_exists d to" and "\<not> jhas (db_transactions d) h"
  shows "\<exists>d' tx. transfer now h from to (lux k) relay d = Inr (d', tx)"
  using transfer_succeeds assms by blast

lemma transfer_available_witness:
  "\<exists>d' tx. transfer 100 ''h1'' ''alice'' ''bob'' (lux 4999999999) None bank_db = Inr (d', tx)"
  by (rule transfer_available [OF bank_db_grid, where u = 5000000000]) code_simp+

text \<open>C2: The hard cap. The recorded total supply stays between zero and ten billion Lux, in IEEE double
  arithmetic, through every emission (also one that is cut to what is left) and every remote
  transaction with a positive amount, and a transfer does not change it.\<close>

theorem supply_never_exceeds_cap:
  assumes "supply_within_cap d"
  shows "(emit now h to a wt wp d = Inr (d1, tx) \<longrightarrow> supply_within_cap d1) \<and>
    (balances_nonneg d \<and> 0 < tx_amount rtx \<and> applyRemoteTransaction E now rtx d = Inr d2 \<longrightarrow> supply_within_cap d2) \<and>
    (transfer now h from to a relay d = Inr (d3, tx) \<longrightarrow> supply_within_cap d3)"
proof (intro conjI impI)
  assume "transfer now h from to a relay d = Inr (d3, tx)"
  then show "supply_within_cap d3" using transfer_supply assms by (simp add: supply_within_cap_def)
qed (use assms emit_supply applyRemote_nonneg in blast)+

text \<open>A ledger a third of a unit below the cap.\<close>

definition full_db :: database where
  "full_db = updateStat 11 ''total_supply'' 9999999999 False demo_db"

theorem supply_never_exceeds_cap_witness:
  "\<exists>d1 tx. emit 100 ''h'' ''bob'' 25 GUEST_WELCOME ''p'' full_db = Inr (d1, tx) \<and> supply_within_cap d1 \<and> tx_amount tx = 1"
proof -
  have "supply_within_cap full_db" "map_sum id (tx_amount \<circ> snd) (emit 100 ''h'' ''bob'' 25 GUEST_WELCOME ''p'' full_db) = Inr 1"
    by code_simp+
  with supply_never_exceeds_cap [of full_db 100 "''h''" "''bob''" 25 GUEST_WELCOME "''p''"] show ?thesis
    by (cases "emit 100 ''h'' ''bob'' 25 GUEST_WELCOME ''p'' full_db") auto
qed

lemma transfer_nonneg:
  assumes "balances_nonneg d" "transfer now h from to a relay d = Inr (d', tx)"
  shows "balances_nonneg d'"
proof -
  note T = transfer_InrD [OF assms(2)]
  show ?thesis
    using assms(1) T(1) fee_nonneg [of a relay] recordTransaction_frame(1) [OF T(7), THEN accounts_cong(6)]
    by (auto simp: pay_relay_def split: if_splits intro!: inv_intros)
qed

lemma emit_nonneg:
  assumes "balances_nonneg d" "supply_within_cap d" "emit now h to a wt wp d = Inr (d', tx)"
  shows "balances_nonneg d'"
  using assms(3)
proof (cases rule: emit_InrD)
  case (1 a' e)
  have "db_accounts d' = db_accounts (addBalance now to a' d)"
    using recordEmission_frame(1) [OF 1(6)] recordTransaction_frame(1) [OF 1(5)] by simp
  then show ?thesis
    using accounts_cong(6) capped_amount_bounds(1) [OF assms(2) 1(3,1)] assms(1)
    by (metis addBalance_nonneg less_imp_le)
qed

text \<open>No balance ever becomes negative: not by a transfer, not by an emission and not by applying a
  remote transaction with a positive amount, even one that overdraws its sender.\<close>

lemma balances_never_negative:
  assumes "balances_nonneg d" and "supply_within_cap d"
  shows "(transfer now h from to a relay d = Inr (d1, tx) \<longrightarrow> balances_nonneg d1) \<and>
    (emit now h to a wt wp d = Inr (d2, tx) \<longrightarrow> balances_nonneg d2) \<and>
    (0 < tx_amount rtx \<and> applyRemoteTransaction E now rtx d = Inr d3 \<longrightarrow> balances_nonneg d3)"
proof (intro conjI impI)
  show "balances_nonneg d1" if "transfer now h from to a relay d = Inr (d1, tx)"
    using assms(1) that by (rule transfer_nonneg)
  show "balances_nonneg d2" if "emit now h to a wt wp d = Inr (d2, tx)"
    using assms that by (rule emit_nonneg)
  show "balances_nonneg d3" if "0 < tx_amount rtx \<and> applyRemoteTransaction E now rtx d = Inr d3"
    using applyRemote_nonneg [of d rtx E now d3] assms that by simp
qed

definition overdraw_tx :: Transaction where
  "overdraw_tx = \<lparr>tx_id = ''r1'', tx_from = ''bob'', tx_to = ''alice'', tx_amount = 7, tx_fee = 0, tx_relay = None,
     tx_type = TRANSFER, tx_timestamp = 5, tx_signature = ''sig''\<rparr>"

lemma balances_never_negative_witness:
  "\<exists>d3. applyRemoteTransaction demo_env 100 overdraw_tx bank_db = Inr d3 \<and> balances_nonneg d3 \<and>
     getBalance d3 ''bob'' = 0 \<and> getStatNumber d3 ''deficit:bob'' = 7"
proof -
  have *: "balances_nonneg bank_db" "supply_within_cap bank_db" "0 < tx_amount overdraw_tx" by code_simp+
  obtain d3 where d3: "applyRemoteTransaction demo_env 100 overdraw_tx bank_db = Inr d3"
    using applyRemote_total by blast
  have "map_sum id (\<lambda>d. (getBalance d ''bob'', getStatNumber d ''deficit:bob''))
      (applyRemoteTransaction demo_env 100 overdraw_tx bank_db) = Inr (0, 7)" by code_simp
  with d3 balances_never_negative [OF *(1,2)] *(3) show ?thesis by auto
qed

text \<open>Applying a remote transaction is idempotent: whatever the ledger and the record, it returns without
  an exception, and applying the same record again, at any later time, changes nothing.\<close>

lemma remote_apply_idempotent:
  "\<exists>d'. applyRemoteTransaction E now tx d = Inr d' \<and>
     (d' \<noteq> d \<longrightarrow> (\<forall>t E' tx'. tx_id tx' = tx_id tx \<longrightarrow> applyRemoteTransaction E' t tx' d' = Inr d'))"
  using applyRemote_total [of E now tx d] applyRemote_records [of E now tx d] applyRemote_known by metis

lemma remote_apply_idempotent_witness:
  "\<exists>d'. applyRemoteTransaction demo_env 100 overdraw_tx bank_db = Inr d' \<and> d' \<noteq> bank_db \<and>
     applyRemoteTransaction demo_env 200 overdraw_tx d' = Inr d'"
proof -
  obtain d' where d': "applyRemoteTransaction demo_env 100 overdraw_tx bank_db = Inr d'"
    "d' \<noteq> bank_db \<longrightarrow> (\<forall>t E' tx'. tx_id tx' = tx_id overdraw_tx \<longrightarrow> applyRemoteTransaction E' t tx' d' = Inr d')"
    using remote_apply_idempotent by blast
  have "map_sum id (\<lambda>d. getBalance d ''alice'') (applyRemoteTransaction demo_env 100 overdraw_tx bank_db) = Inr 57"
    "getBalance bank_db ''alice'' = 50" by code_simp+
  then have "d' \<noteq> bank_db" using d'(1) by auto
  with d' show ?thesis by blast
qed

text \<open>C3: Replicas converge. If two nodes agree on all accounts and balances and one of them makes a transfer,
  the other accepts the transaction (its fee check included) and, after applying it, records it and
  agrees on all balances again.\<close>

theorem replicas_converge:
  assumes "transfer now h from to a relay d = Inr (d', tx)" and "same_money d e"
    and "from \<noteq> NETWORK_ACCOUNT" and "\<not> jhas (db_transactions e) h"
  shows "\<exists>e'. applyRemoteTransaction E now' tx e = Inr e' \<and> same_money d' e' \<and> getTransaction e' h = Some tx"
  using applyRemote_replicates assms by blast

theorem replicas_converge_witness:
  "\<exists>d' tx e'. transfer 100 ''h1'' ''alice'' ''bob'' (lux 1000000000) (Some ''carol'') bank_db = Inr (d', tx) \<and>
     applyRemoteTransaction demo_env 150 tx bank_db = Inr e' \<and> same_money d' e'"
proof -
  obtain d' tx where t: "transfer 100 ''h1'' ''alice'' ''bob'' (lux 1000000000) (Some ''carol'') bank_db = Inr (d', tx)"
    using bank_transfer by blast
  have "same_money bank_db bank_db" "''alice'' \<noteq> NETWORK_ACCOUNT" "\<not> jhas (db_transactions bank_db) ''h1''"
    by (simp add: same_money_def, code_simp+)
  from replicas_converge [OF t this, of demo_env 150] t show ?thesis by blast
qed

text \<open>Emission. Rewarding an amount that stands for \<open>k\<close> units (the double of \<open>k\<close> units, or one that is a
  rounding error away) to a known account under a fresh id succeeds, adds exactly \<open>k\<close> units to its balance and to the total supply, and keeps the supply equal to the sum of all balances, as long as
  the supply stays below \<open>2 ^ 50\<close> units.\<close>

lemma emission_keeps_supply_equal_to_balances:
  assumes "supply_matches d" and "0 < k" and "total_units d + k \<le> UNIT_LIMIT" and "accounts_exists d to"
    and "\<not> jhas (db_transactions d) h" and "\<not> jhas (db_emissions d) h" and "near_units k a"
  shows "\<exists>d' tx. emit now h to a wt wp d = Inr (d', tx) \<and> supply_matches d' \<and>
    abs_units d' = credit to k (abs_units d) \<and> total_units d' = total_units d + k"
  using emit_units assms by blast

lemma emission_keeps_supply_equal_to_balances_witness:
  "\<exists>d' tx. emit 100 ''h'' ''bob'' (lux 2500000000) GUEST_WELCOME ''proof'' bank_db = Inr (d', tx) \<and> supply_matches d' \<and>
    abs_units d' = credit ''bob'' 2500000000 (abs_units bank_db) \<and> total_units d' = total_units bank_db + 2500000000"
  by (rule emission_keeps_supply_equal_to_balances) code_simp+

text \<open>The relay fee is 0.1 percent of the amount, rounded down to whole units or one unit less, and at
  least 100 units (0.000001 Lux); and for every positive amount at all it passes the check of the fee that
  remote nodes make.\<close>

lemma relay_fee_correct:
  assumes "truthy relay"
  shows "(0 \<le> k \<and> k \<le> UNIT_LIMIT \<longrightarrow> relay_fee (lux k) relay = lux (fee_units k relay) \<and>
      max 100 (k div 1000 - 1) \<le> fee_units k relay \<and> fee_units k relay \<le> max 100 (k div 1000)) \<and>
    (0 < a \<longrightarrow> relay_fee a relay \<le> maxFee a)"
  using assms relay_fee_lux fee_units_rate local_fee_accepted by blast

lemma relay_fee_correct_witness:
  "relay_fee (lux 1000000000) (Some ''carol'') = lux (fee_units 1000000000 (Some ''carol'')) \<and>
   999999 \<le> fee_units 1000000000 (Some ''carol'') \<and> fee_units 1000000000 (Some ''carol'') \<le> 1000000"
proof -
  have "truthy (Some ''carol'')" "(1000000000 :: int) \<le> UNIT_LIMIT" by code_simp+
  then show ?thesis using relay_fee_correct [of "Some ''carol''" 1000000000] by simp
qed

text \<open>A remote record whose type is neither a transfer nor an emission, and a remote emission that
  carries a fee, credit accounts without any debit and without being counted in the total supply:
  both leave the sum of balances above the recorded supply.\<close>

lemma remote_records_mint_outside_supply:
  "map_sum id (\<lambda>d. (total_units d, getTotalSupply d))
     (applyRemoteTransaction demo_env 100 (overdraw_tx\<lparr>tx_type := UNKNOWN_TYPE ''gift'', tx_amount := 1000\<rparr>) bank_db) =
     Inr (105000000000, 50) \<and>
   map_sum id (\<lambda>d. (total_units d, getTotalSupply d))
     (applyRemoteTransaction demo_env 100 (overdraw_tx\<lparr>tx_type := EMISSION, tx_amount := 1, tx_fee := 1000,
        tx_relay := Some ''carol''\<rparr>) bank_db) =
     Inr (105100000000, 51) \<and> total_units bank_db = 5000000000"
  by code_simp

text \<open>The affordability test compares with the rounded sum of amount and fee, so a sender who has
  exactly amount plus fee, in whole units, can be refused.\<close>

lemma exact_balance_can_be_refused:
  "abs_units (set_balance 1 ''alice'' (lux 101101) bank_db) ''alice'' = Some 101101 \<and>
   101000 + fee_units 101000 (Some ''carol'') = 101101 \<and>
   lux 101101 < fadd (lux 101000) (lux 101) \<and>
   transfer 100 ''h'' ''alice'' ''bob'' (lux 101000) (Some ''carol'') (set_balance 1 ''alice'' (lux 101101) bank_db) =
     Inl (InsufficientBalance (lux 101101) (fadd (lux 101000) (lux 101)))"
proof (intro conjI)
  show "abs_units (set_balance 1 ''alice'' (lux 101101) bank_db) ''alice'' = Some 101101" by code_simp
  show "101000 + fee_units 101000 (Some ''carol'') = 101101" by code_simp
  show "lux 101101 < fadd (lux 101000) (lux 101)" by code_simp
  show "transfer 100 ''h'' ''alice'' ''bob'' (lux 101000) (Some ''carol'') (set_balance 1 ''alice'' (lux 101101) bank_db) =
     Inl (InsufficientBalance (lux 101101) (fadd (lux 101000) (lux 101)))" by code_simp
qed

end
