(* ===== verification/Contributions.thy ===== *)
theory Contributions
  imports Transactions
begin

text \<open>
  \<^verbatim>\<open>ContributionStore\<close> (\<^verbatim>\<open>packages/ledger/src/contributions.ts\<close>): metered API-key contributions
  and rewards for work. The table's \<^verbatim>\<open>AUTOINCREMENT\<close> sequence is \<open>db_contribution_seq\<close>. SQLite
  adds \<^verbatim>\<open>used_usd\<close> and \<^verbatim>\<open>lux_earned\<close> in double arithmetic.
\<close>

section \<open>Operations\<close>

definition contributions_get :: "database \<Rightarrow> nat \<Rightarrow> ApiContribution option" where
  "contributions_get d i = jget (db_contributions d) i"

definition contributions_register ::
  "time \<Rightarrow> peer_id \<Rightarrow> ApiProvider \<Rightarrow> number \<Rightarrow> database \<Rightarrow> ledger_error + database \<times> ApiContribution option" where
  "contributions_register now p provider monthlyCap d =
     (if \<not> accounts_exists d p then Inl (AccountNotFound p)
      else let i = Suc (db_contribution_seq d);
               row = \<lparr>api_id = i, api_peerId = p, api_provider = provider, api_monthlyCap = monthlyCap,
                      api_usedUsd = 0, api_tasksCompleted = 0, api_luxEarned = 0, api_registeredAt = now,
                      api_lastUsedAt = None, api_active = True\<rparr>;
               d' = d\<lparr>db_contributions := db_contributions d @ [(i, row)], db_contribution_seq := i\<rparr>
           in Inr (d', contributions_get d' i))"

definition getByPeer :: "database \<Rightarrow> peer_id \<Rightarrow> ApiContribution list" where
  "getByPeer d p = filter (\<lambda>c. api_peerId c = p \<and> api_active c) (jvals (db_contributions d))"

definition getMultiplier :: "database \<Rightarrow> number" where
  "getMultiplier d =
     (let accountCount = getAccountCount d in
      if accountCount \<le> 100 then EARLY_MULTIPLIERS_FIRST_100
      else if accountCount \<le> 1000 then EARLY_MULTIPLIERS_FIRST_1000
      else if accountCount \<le> 10000 then EARLY_MULTIPLIERS_FIRST_10000
      else EARLY_MULTIPLIERS_AFTER)"

definition work_reward :: "database \<Rightarrow> WorkType \<Rightarrow> number" where
  "work_reward d workType = fmul (EMISSION_REWARDS workType) (getMultiplier d)"

definition recordUsage ::
  "time \<Rightarrow> string \<Rightarrow> nat \<Rightarrow> number \<Rightarrow> string \<Rightarrow> database \<Rightarrow> ledger_error + database \<times> number" where
  "recordUsage now hash i costUsd workProof d =
     (case contributions_get d i of
        None \<Rightarrow> Inl (ContributionNotFound i)
      | Some c \<Rightarrow>
          if \<not> api_active c then Inl ContributionInactive
          else if api_monthlyCap c < fadd (api_usedUsd c) costUsd
          then Inl (MonthlyCapExceeded (api_usedUsd c) (api_monthlyCap c))
          else let reward = work_reward d API_CONTRIBUTED;
                   d1 = d\<lparr>db_contributions := jupd i (\<lambda>r. r\<lparr>api_usedUsd := fadd (api_usedUsd r) costUsd,
                            api_tasksCompleted := api_tasksCompleted r + 1,
                            api_luxEarned := fadd (api_luxEarned r) reward,
                            api_lastUsedAt := Some now\<rparr>) (db_contributions d)\<rparr>
               in (case emit now hash (api_peerId c) reward API_CONTRIBUTED workProof d1 of
                     Inl e \<Rightarrow> Inl e | Inr (d2, _) \<Rightarrow> Inr (d2, reward)))"

definition rewardWork ::
  "time \<Rightarrow> string \<Rightarrow> peer_id \<Rightarrow> WorkType \<Rightarrow> string \<Rightarrow> database \<Rightarrow> ledger_error + database \<times> Transaction" where
  "rewardWork now hash p workType workProof d =
     (if \<not> accounts_exists d p then Inl (AccountNotFound p)
      else emit now hash p (work_reward d workType) workType workProof d)"

definition deactivate :: "nat \<Rightarrow> database \<Rightarrow> database" where
  "deactivate i d = d\<lparr>db_contributions := jupd i (\<lambda>r. r\<lparr>api_active := False\<rparr>) (db_contributions d)\<rparr>"

definition getActiveContributorCount :: "database \<Rightarrow> nat" where
  "getActiveContributorCount d = length (remdups (map api_peerId (filter api_active (jvals (db_contributions d)))))"

definition getTotalApiSpend :: "database \<Rightarrow> number" where
  "getTotalApiSpend d = foldl fadd 0 (map api_usedUsd (jvals (db_contributions d)))"

section \<open>Invariant\<close>

text \<open>Ids are unique and below the sequence, and no contribution has been charged beyond its cap.\<close>

definition contributions_ok :: "database \<Rightarrow> bool" where
  "contributions_ok d = (jwf (db_contributions d) \<and>
     jall (\<lambda>i c. i \<le> db_contribution_seq d \<and> api_id c = i \<and> api_usedUsd c \<le> api_monthlyCap c) (db_contributions d))"

lemma register_ok:
  assumes "contributions_ok d" "0 \<le> cap" "contributions_register now p prov cap d = Inr (d', r)"
  shows "contributions_ok d'" "\<exists>c. r = Some c \<and> contributions_get d' (api_id c) = Some c \<and>
    \<not> jhas (db_contributions d) (api_id c)"
proof -
  let ?i = "Suc (db_contribution_seq d)"
  have fresh: "\<not> jhas (db_contributions d) ?i"
    using assms(1) by (auto simp: contributions_ok_def jhas_iff dest!: jallD)
  then show "contributions_ok d'"
    using assms by (auto simp: contributions_ok_def contributions_register_def Let_def jwf_snoc
        split: if_splits elim!: jall_mono)
  show "\<exists>c. r = Some c \<and> contributions_get d' (api_id c) = Some c \<and> \<not> jhas (db_contributions d) (api_id c)"
    using assms(3) fresh by (auto simp: contributions_register_def contributions_get_def Let_def jhas_def split: if_splits)
qed

lemma emit_contributions:
  assumes "emit now h to a wt wp d = Inr (d', tx)"
  shows "db_contributions d' = db_contributions d" "db_contribution_seq d' = db_contribution_seq d"
  using assms recordTransaction_frame(4,5) recordEmission_frame(4,5) by (auto elim!: emit_InrD)

lemma contributions_ok_cong: "db_contributions d = db_contributions d' \<Longrightarrow>
    db_contribution_seq d = db_contribution_seq d' \<Longrightarrow> contributions_ok d = contributions_ok d'"
  by (simp add: contributions_ok_def)

lemma recordUsage_ok:
  assumes ok: "contributions_ok d" and r: "recordUsage now h i cost wp d = Inr (d', reward)"
  shows "contributions_ok d'"
proof -
  obtain c where c: "jget (db_contributions d) i = Some c" "fadd (api_usedUsd c) cost \<le> api_monthlyCap c"
    and e: "\<exists>tx. emit now h (api_peerId c) reward API_CONTRIBUTED wp
      (d\<lparr>db_contributions := jupd i (\<lambda>r. r\<lparr>api_usedUsd := fadd (api_usedUsd r) cost,
         api_tasksCompleted := api_tasksCompleted r + 1, api_luxEarned := fadd (api_luxEarned r) reward,
         api_lastUsedAt := Some now\<rparr>) (db_contributions d)\<rparr>) = Inr (d', tx)"
    using r by (auto simp: recordUsage_def contributions_get_def Let_def not_less split: option.splits if_splits sum.splits)
  have "r' = c" if "(i, r') \<in> set (db_contributions d)" for r'
    using jget_mem [of "db_contributions d" i r'] ok that c(1) by (simp add: contributions_ok_def)
  with ok c(2) e show ?thesis
    using emit_contributions by (auto simp: contributions_ok_def intro!: inv_intros)
qed

lemma deactivate_ok: "contributions_ok d \<Longrightarrow> contributions_ok (deactivate i d)"
  by (auto simp: contributions_ok_def deactivate_def intro!: inv_intros)

section \<open>Properties\<close>

lemma getMultiplier_cases: "getMultiplier d \<in> {1, 2, 3, 5}"
  by (simp add: getMultiplier_def Let_def EARLY_MULTIPLIERS_FIRST_100_def EARLY_MULTIPLIERS_FIRST_1000_def
      EARLY_MULTIPLIERS_FIRST_10000_def EARLY_MULTIPLIERS_AFTER_def)

text \<open>The reward table in units.\<close>

fun reward_units :: "WorkType \<Rightarrow> int" where
  "reward_units QUERY_ANSWERED = 100000000"
| "reward_units CODE_VERIFIED = 500000000"
| "reward_units CONTENT_RELAYED = 1000000"
| "reward_units API_CONTRIBUTED = 200000000"
| "reward_units PEER_RELAYED = 100000"
| "reward_units PROPOSAL_ACCEPTED = 500000000"
| "reward_units VOTE_CAST = 10000000"
| "reward_units TASK_COMPLETED = 500000000"
| "reward_units UPTIME_EPOCH = 5000000"
| "reward_units GUEST_WELCOME = 2500000000"
| "reward_units COMPUTE_CONTRIBUTED = 1000000000"

definition multiplier_units :: "database \<Rightarrow> int" where
  "multiplier_units d = \<lfloor>getMultiplier d\<rfloor>"

lemma reward_near:
  "m \<in> {1, 2, 3, 5} \<Longrightarrow> near_units (reward_units wt * m) (fmul (EMISSION_REWARDS wt) (of_int m))"
  by (cases wt; simp only: insert_iff empty_iff; elim disjE; simp only:; code_simp)

lemma getMultiplier_units: "getMultiplier d = of_int (multiplier_units d)" "multiplier_units d \<in> {1, 2, 3, 5}"
  using getMultiplier_cases [of d] by (auto simp: multiplier_units_def)

lemma work_reward_near: "near_units (reward_units wt * multiplier_units d) (work_reward d wt)"
  unfolding work_reward_def getMultiplier_units(1) by (rule reward_near [OF getMultiplier_units(2)])

lemma reward_units_pos: "0 < reward_units wt"
  by (cases wt) simp_all

text \<open>Rewarding work pays exactly the tabulated reward. Although a product such as 0.1 * 3 is not the double
  of 0.3, the recipient's balance and the supply grow by exactly the reward's units times the early
  multiplier, the supply stays the sum of the balances, and the reward never fails for a known account
  and a fresh id while the supply is below \<open>2 ^ 50\<close> units.\<close>

lemma work_rewards_are_exact:
  assumes "supply_matches d" and "total_units d + reward_units wt * multiplier_units d \<le> UNIT_LIMIT"
    and "accounts_exists d p" and "\<not> jhas (db_transactions d) h" and "\<not> jhas (db_emissions d) h"
  shows "\<exists>d' tx. rewardWork now h p wt wp d = Inr (d', tx) \<and> supply_matches d' \<and>
    abs_units d' = credit p (reward_units wt * multiplier_units d) (abs_units d) \<and>
    total_units d' = total_units d + reward_units wt * multiplier_units d"
proof -
  have "0 < reward_units wt * multiplier_units d"
    using reward_units_pos [of wt] getMultiplier_units(2) [of d] by (auto simp: zero_less_mult_iff)
  from emit_units [OF assms(1) this assms(2-5) work_reward_near, of now wt wp] assms(3)
  show ?thesis by (simp add: rewardWork_def)
qed

lemma work_rewards_are_exact_witness:
  "\<exists>d' tx. rewardWork 100 ''h'' ''bob'' VOTE_CAST ''proof'' bank_db = Inr (d', tx) \<and> supply_matches d' \<and>
    abs_units d' = credit ''bob'' 50000000 (abs_units bank_db) \<and> total_units d' = 5050000000"
proof -
  have "multiplier_units bank_db = 5" "total_units bank_db = 5000000000" "supply_matches bank_db"
    "accounts_exists bank_db ''bob''" "\<not> jhas (db_transactions bank_db) ''h''" "\<not> jhas (db_emissions bank_db) ''h''"
    "(5050000000::int) \<le> UNIT_LIMIT"
    by code_simp+
  with work_rewards_are_exact [of bank_db VOTE_CAST "''bob''" "''h''" 100 "''proof''"] show ?thesis by simp
qed

text \<open>Metering. A contribution is never charged beyond its monthly cap: registering, recording usage
  (which fails rather than pass the cap) and deactivating keep all contributions within their caps
  and their ids unique.\<close>

lemma contributions_stay_within_cap:
  assumes "contributions_ok d"
  shows "(0 \<le> cap \<and> contributions_register now p prov cap d = Inr (d1, r) \<longrightarrow> contributions_ok d1) \<and>
    (recordUsage now h i cost wp d = Inr (d2, reward) \<longrightarrow> contributions_ok d2) \<and>
    contributions_ok (deactivate i d)"
  using assms register_ok(1) recordUsage_ok deactivate_ok by blast

definition key_db :: database where
  "key_db = bank_db\<lparr>db_contributions := [(1, \<lparr>api_id = 1, api_peerId = ''bob'', api_provider = CLAUDE, api_monthlyCap = 10,
     api_usedUsd = 9, api_tasksCompleted = 3, api_luxEarned = 30, api_registeredAt = 5, api_lastUsedAt = None,
     api_active = True\<rparr>)], db_contribution_seq := 1\<rparr>"

lemma contributions_stay_within_cap_witness:
  "\<exists>d'. recordUsage 100 ''h'' 1 1 ''p'' key_db = Inr (d', 10) \<and> contributions_ok d' \<and>
     recordUsage 100 ''h2'' 1 1 ''p'' d' = Inl (MonthlyCapExceeded 10 10)"
proof -
  have "contributions_ok key_db" "map_sum id snd (recordUsage 100 ''h'' 1 1 ''p'' key_db) = Inr 10"
    "map_sum id (\<lambda>r. recordUsage 100 ''h2'' 1 1 ''p'' (fst r)) (recordUsage 100 ''h'' 1 1 ''p'' key_db) =
       Inr (Inl (MonthlyCapExceeded 10 10))" by code_simp+
  with contributions_stay_within_cap [of key_db 0 100 "''bob''" CLAUDE] show ?thesis
    by (cases "recordUsage 100 ''h'' 1 1 ''p'' key_db") auto
qed

end
