(* ===== verification/Ledger.thy ===== *)
theory Ledger
  imports Contributions "HOL-Library.List_Lexorder" "HOL-Library.Char_ord"
begin

text \<open>
  \<^verbatim>\<open>PandoLedger\<close> (\<^verbatim>\<open>packages/ledger/src/index.ts\<close>): the facade over the stores, the activity log, agent
  scores and snapshots. The snapshot directory is an association list from file name to the parsed
  content, \<open>None\<close> for a file that is not valid JSON; \<^verbatim>\<open>JSON.parse\<close> inverts \<^verbatim>\<open>JSON.stringify\<close> on
  snapshots, so writing a file stores the record itself. Strings compare by character codes.

  Shown: loading a snapshot into a fresh ledger restores all accounts, balances and the supply;
  pruning keeps the newest five; activity is stored once per id; scores are percentages.
\<close>

section \<open>Facade\<close>

definition registerNode :: "time \<Rightarrow> peer_id \<Rightarrow> string \<Rightarrow> database \<Rightarrow> database \<times> Account option" where
  "registerNode = accounts_create"

record network_stats =
  ns_totalSupply :: number
  ns_hardCap :: number
  ns_totalBurned :: number
  ns_totalRelayFees :: number
  ns_circulatingSupply :: number
  ns_totalAccounts :: nat
  ns_totalTransactions :: nat
  ns_activeContributors :: nat
  ns_totalApiSpend :: number

definition getNetworkStats :: "database \<Rightarrow> network_stats" where
  "getNetworkStats d = \<lparr>ns_totalSupply = getTotalSupply d, ns_hardCap = LUX_HARD_CAP,
     ns_totalBurned = getTotalBurned d, ns_totalRelayFees = getTotalRelayFees d,
     ns_circulatingSupply = getTotalSupply d, ns_totalAccounts = getAccountCount d,
     ns_totalTransactions = getTransactionCount d, ns_activeContributors = getActiveContributorCount d,
     ns_totalApiSpend = getTotalApiSpend d\<rparr>"

definition getPeerSummary :: "database \<Rightarrow> peer_id \<Rightarrow> (Account \<times> Transaction list \<times> ApiContribution list) option" where
  "getPeerSummary d p =
     map_option (\<lambda>a. (a, getTransactionsForPeer d p 20, getByPeer d p)) (accounts_get d p)"

section \<open>Activity\<close>

definition recordActivity :: "time \<Rightarrow> ActivityRecord \<Rightarrow> database \<Rightarrow> database" where
  "recordActivity now r d =
     (let row = \<lparr>av_record = r\<lparr>act_details := or_null (act_details r), act_proposalId := or_null (act_proposalId r),
                   act_taskId := or_null (act_taskId r), act_transactionId := or_null (act_transactionId r)\<rparr>,
                 av_received_at = now\<rparr>
      in d\<lparr>db_activity := insert_or_ignore (act_id r) row (db_activity d)\<rparr>)"

record activity_query =
  aq_limit :: "nat option"
  aq_since :: "time option"
  aq_agentId :: "string option"
  aq_action :: "string option"

definition activity_matches :: "activity_query \<Rightarrow> ActivityRecord \<Rightarrow> bool" where
  "activity_matches q r =
     ((case aq_since q of None \<Rightarrow> True | Some t \<Rightarrow> t = 0 \<or> t < act_timestamp r) \<and>
      (truthy (aq_agentId q) \<longrightarrow> aq_agentId q = Some (act_agentId r)) \<and>
      (truthy (aq_action q) \<longrightarrow> aq_action q = Some (act_action r)))"

definition activity_limit :: "activity_query \<Rightarrow> nat" where
  "activity_limit q = (case aq_limit q of None \<Rightarrow> 50 | Some n \<Rightarrow> if n = 0 then 50 else n)"

definition getActivity :: "database \<Rightarrow> activity_query \<Rightarrow> ActivityRecord list" where
  "getActivity d q =
     take (activity_limit q) (sort_key (\<lambda>r. - act_timestamp r)
       (filter (activity_matches q) (map av_record (jvals (db_activity d)))))"

text \<open>Occurrences per value, one entry for each value (a JavaScript object; its order is not used).\<close>

definition counts :: "string list \<Rightarrow> (string, nat) jsmap" where
  "counts xs = map (\<lambda>x. (x, count_list xs x)) (remdups xs)"

definition getActivityStats ::
  "database \<Rightarrow> time \<Rightarrow> time \<Rightarrow> nat \<times> (string, nat) jsmap \<times> (string, nat) jsmap" where
  "getActivityStats d now windowMs =
     (let rs = filter (\<lambda>r. now - windowMs < act_timestamp r) (map av_record (jvals (db_activity d)))
      in (length rs, counts (map act_action rs), counts (map act_agentId rs)))"

section \<open>Agent scores\<close>

datatype score_event = ev_commit | ev_build_pass | ev_build_fail | ev_revert | ev_proposal_created | ev_proposal_accepted

fun bump_score :: "score_event \<Rightarrow> score_row \<Rightarrow> score_row" where
  "bump_score ev_commit r = r\<lparr>sr_total_commits := sr_total_commits r + 1\<rparr>"
| "bump_score ev_build_pass r = r\<lparr>sr_successful_builds := sr_successful_builds r + 1\<rparr>"
| "bump_score ev_build_fail r = r\<lparr>sr_failed_builds := sr_failed_builds r + 1\<rparr>"
| "bump_score ev_revert r = r\<lparr>sr_reverts_triggered := sr_reverts_triggered r + 1\<rparr>"
| "bump_score ev_proposal_created r = r\<lparr>sr_proposals_created := sr_proposals_created r + 1\<rparr>"
| "bump_score ev_proposal_accepted r = r\<lparr>sr_proposals_accepted := sr_proposals_accepted r + 1\<rparr>"

definition recordScoreEvent :: "time \<Rightarrow> peer_id \<Rightarrow> score_event \<Rightarrow> database \<Rightarrow> database" where
  "recordScoreEvent now p ev d =
     (let zero = \<lparr>sr_total_commits = 0, sr_successful_builds = 0, sr_failed_builds = 0, sr_reverts_triggered = 0,
                  sr_proposals_created = 0, sr_proposals_accepted = 0, sr_updated_at = now\<rparr>
      in d\<lparr>db_scores := jupd p (\<lambda>r. (bump_score ev r)\<lparr>sr_updated_at := now\<rparr>)
             (insert_or_ignore p zero (db_scores d))\<rparr>)"

definition build_score :: "nat \<Rightarrow> nat \<Rightarrow> number" where
  "build_score successfulBuilds totalCommits =
     (if 0 < totalCommits
      then fdiv (Math_round (fmul (fmul (fdiv (of_nat successfulBuilds) (of_nat totalCommits)) 100) 100)) 100 else 0)"

definition rowToAgentScore :: "peer_id \<Rightarrow> score_row \<Rightarrow> AgentScore" where
  "rowToAgentScore p r = \<lparr>sc_peerId = p, sc_totalCommits = sr_total_commits r,
     sc_successfulBuilds = sr_successful_builds r, sc_failedBuilds = sr_failed_builds r,
     sc_revertsTriggered = sr_reverts_triggered r, sc_proposalsCreated = sr_proposals_created r,
     sc_proposalsAccepted = sr_proposals_accepted r,
     sc_score = build_score (sr_successful_builds r) (sr_total_commits r), sc_updatedAt = sr_updated_at r\<rparr>"

definition getAgentScore :: "database \<Rightarrow> peer_id \<Rightarrow> AgentScore option" where
  "getAgentScore d p = map_option (rowToAgentScore p) (jget (db_scores d) p)"

definition getAllAgentScores :: "database \<Rightarrow> AgentScore list" where
  "getAllAgentScores d =
     map (\<lambda>(p, r). rowToAgentScore p r) (sort_key (\<lambda>e. - int (sr_successful_builds (snd e))) (db_scores d))"

section \<open>Snapshots\<close>

record snapshot_account =
  sa_peerId :: peer_id
  sa_publicKey :: string
  sa_balance :: number

record LedgerSnapshot =
  ls_version :: int
  ls_timestamp :: time
  ls_transactionCount :: nat
  ls_totalSupply :: number
  ls_accounts :: "snapshot_account list"

record SnapshotInfo =
  si_filename :: string
  si_timestamp :: time
  si_transactionCount :: nat
  si_totalSupply :: number
  si_accountCount :: nat

type_synonym snapshot_dir = "(string, LedgerSnapshot option) jsmap"

fun show_nat :: "nat \<Rightarrow> string" where
  "show_nat n = (if n < 10 then [char_of (48 + n)] else show_nat (n div 10) @ [char_of (48 + n mod 10)])"

definition show_time :: "time \<Rightarrow> string" where
  "show_time t = (if t < 0 then CHR ''-'' # show_nat (nat (- t)) else show_nat (nat t))"

definition starts_with :: "string \<Rightarrow> string \<Rightarrow> bool" where
  "starts_with s p = (take (length p) s = p)"

definition ends_with :: "string \<Rightarrow> string \<Rightarrow> bool" where
  "ends_with s p = (length p \<le> length s \<and> drop (length s - length p) s = p)"

definition is_snapshot_name :: "string \<Rightarrow> bool" where
  "is_snapshot_name f = (starts_with f ''snapshot-'' \<and> ends_with f ''.json'')"

definition snapshot_files :: "snapshot_dir \<Rightarrow> string list" where
  "snapshot_files dir = rev (sort (filter is_snapshot_name (jkeys dir)))"

definition pruneSnapshots :: "nat \<Rightarrow> snapshot_dir \<Rightarrow> snapshot_dir" where
  "pruneSnapshots keep dir = fold jdel (drop keep (snapshot_files dir)) dir"

definition take_snapshot :: "time \<Rightarrow> database \<Rightarrow> LedgerSnapshot" where
  "take_snapshot now d =
     (let stats = getNetworkStats d in
      \<lparr>ls_version = 1, ls_timestamp = now, ls_transactionCount = ns_totalTransactions stats,
       ls_totalSupply = ns_totalSupply stats,
       ls_accounts = map (\<lambda>(p, r). \<lparr>sa_peerId = p, sa_publicKey = ar_public_key r, sa_balance = ar_balance r\<rparr>)
                       (sort_key fst (db_accounts d))\<rparr>)"

definition snapshot_info :: "string \<Rightarrow> LedgerSnapshot \<Rightarrow> SnapshotInfo" where
  "snapshot_info f s = \<lparr>si_filename = f, si_timestamp = ls_timestamp s, si_transactionCount = ls_transactionCount s,
     si_totalSupply = ls_totalSupply s, si_accountCount = length (ls_accounts s)\<rparr>"

text \<open>\<open>None\<close> for a directory that does not exist yet.\<close>

definition createSnapshot :: "time \<Rightarrow> database \<Rightarrow> snapshot_dir option \<Rightarrow> snapshot_dir \<times> SnapshotInfo" where
  "createSnapshot now d dir =
     (let files = (case dir of None \<Rightarrow> [] | Some m \<Rightarrow> m);
          snapshot = take_snapshot now d;
          filename = ''snapshot-'' @ show_time now @ ''.json''
      in (pruneSnapshots 5 (jset filename (Some snapshot) files), snapshot_info filename snapshot))"

definition restore_account :: "time \<Rightarrow> snapshot_account \<Rightarrow> database \<Rightarrow> database" where
  "restore_account now a d =
     (if accounts_exists d (sa_peerId a) then set_balance now (sa_peerId a) (sa_balance a) d
      else d\<lparr>db_accounts := db_accounts d @ [(sa_peerId a, new_account (sa_publicKey a) (sa_balance a) now)]\<rparr>)"

definition set_stat :: "time \<Rightarrow> string \<Rightarrow> number \<Rightarrow> database \<Rightarrow> database" where
  "set_stat now key v d = d\<lparr>db_stats := jupd key (\<lambda>_. \<lparr>st_value = v, st_updated_at = now\<rparr>) (db_stats d)\<rparr>"

definition loadSnapshot :: "time \<Rightarrow> LedgerSnapshot \<Rightarrow> database \<Rightarrow> ledger_error + database" where
  "loadSnapshot now s d =
     (if ls_version s \<noteq> 1 then Inl (UnsupportedSnapshotVersion (ls_version s))
      else Inr (set_stat now ''total_accounts'' (of_nat (length (ls_accounts s)))
             (set_stat now ''total_supply'' (ls_totalSupply s)
               (fold (restore_account now) (ls_accounts s) d))))"

definition getSnapshotInfo :: "snapshot_dir option \<Rightarrow> SnapshotInfo option" where
  "getSnapshotInfo dir =
     (case dir of
        None \<Rightarrow> None
      | Some m \<Rightarrow>
         (case snapshot_files m of
            [] \<Rightarrow> None
          | latest # _ \<Rightarrow>
             (case jget m latest of Some (Some s) \<Rightarrow> Some (snapshot_info latest s) | _ \<Rightarrow> None)))"

definition getLatestSnapshotPath :: "snapshot_dir option \<Rightarrow> string option" where
  "getLatestSnapshotPath dir =
     (case dir of
        None \<Rightarrow> None
      | Some m \<Rightarrow> (case snapshot_files m of [] \<Rightarrow> None | latest # _ \<Rightarrow> Some latest))"

section \<open>Snapshots restore the ledger\<close>

lemma restore_exists:
  "accounts_exists (fold (restore_account now) as d) p \<longleftrightarrow> accounts_exists d p \<or> p \<in> sa_peerId ` set as"
proof (induction as arbitrary: d)
  case (Cons a as)
  have "accounts_exists (restore_account now a d) p \<longleftrightarrow> accounts_exists d p \<or> p = sa_peerId a"
    by (auto simp: restore_account_def) (auto simp: accounts_exists_def jhas_def split: option.splits)
  with Cons show ?case by auto
qed simp

lemma restore_balance:
  assumes "distinct (map sa_peerId as)"
  shows "getBalance (fold (restore_account now) as d) p =
    (case find (\<lambda>a. sa_peerId a = p) as of None \<Rightarrow> getBalance d p | Some a \<Rightarrow> sa_balance a)"
  using assms
proof (induction as arbitrary: d)
  case (Cons a as)
  have step: "getBalance (restore_account now a d) q = (if sa_peerId a = q then sa_balance a else getBalance d q)" for q
    by (auto simp: restore_account_def getBalance_def accounts_exists_def jhas_def new_account_def split: option.splits)
  have "sa_peerId a = p \<Longrightarrow> find (\<lambda>b. sa_peerId b = p) as = None"
    using Cons.prems by (auto simp: find_None_iff image_iff)
  then show ?case using Cons step by (auto split: option.splits)
qed simp

lemma restore_stats: "db_stats (fold (restore_account now) as d) = db_stats d"
  by (induction as arbitrary: d) (auto simp: restore_account_def)

lemma set_stat_frame [simp]:
  "db_accounts (set_stat now k v d) = db_accounts d"
  "getStatNumber (set_stat now k v d) k' = (if k = k' \<and> jhas (db_stats d) k then v else getStatNumber d k')"
  "jhas (db_stats (set_stat now k v d)) k' = jhas (db_stats d) k'"
  by (auto simp: set_stat_def getStatNumber_def jhas_def split: option.splits)

lemma find_take_snapshot:
  assumes "jwf (db_accounts d)"
  shows "find (\<lambda>a. sa_peerId a = p) (ls_accounts (take_snapshot now d)) =
    map_option (\<lambda>r. \<lparr>sa_peerId = p, sa_publicKey = ar_public_key r, sa_balance = ar_balance r\<rparr>) (jget (db_accounts d) p)"
proof -
  let ?f = "\<lambda>(p, r). \<lparr>sa_peerId = p, sa_publicKey = ar_public_key r, sa_balance = ar_balance r\<rparr>"
  have f: "find (\<lambda>a. sa_peerId a = p) (map ?f m) = map_option (\<lambda>r. ?f (p, r)) (jget m p)" for m
    by (induction m) auto
  have "jwf (sort_key fst (db_accounts d))"
    using assms by (simp add: jwf_def distinct_map)
  then have "jget (sort_key fst (db_accounts d)) p = jget (db_accounts d) p"
    using jget_None_iff [of "sort_key fst (db_accounts d)" p] jget_None_iff [of "db_accounts d" p]
      jget_SomeD [of "db_accounts d" p] jget_mem [of "sort_key fst (db_accounts d)" p]
    by (cases "jget (db_accounts d) p") auto
  then show ?thesis by (simp add: take_snapshot_def Let_def f)
qed

lemma snapshot_round_trip:
  assumes "jwf (db_accounts d)" "loadSnapshot t (take_snapshot now d) (openDatabase t0 empty_database) = Inr e"
  shows "same_money d e" "getTotalSupply e = getTotalSupply d"
proof -
  let ?as = "ls_accounts (take_snapshot now d)" and ?o = "openDatabase t0 empty_database"
  have e: "e = set_stat t ''total_accounts'' (of_nat (length ?as))
      (set_stat t ''total_supply'' (getTotalSupply d) (fold (restore_account t) ?as ?o))"
    using assms(2) by (simp add: loadSnapshot_def take_snapshot_def getNetworkStats_def Let_def)
  have o: "jhas (db_stats ?o) ''total_supply''" "getBalance ?o p = 0" "\<not> accounts_exists ?o p" for p
    by (auto simp: openDatabase_def initStats_def empty_database_def jhas_def insert_or_ignore_def
        getBalance_def accounts_exists_def)
  have ids: "map sa_peerId ?as = map fst (sort_key fst (db_accounts d))"
    by (simp add: take_snapshot_def Let_def case_prod_beta')
  then have dist: "distinct (map sa_peerId ?as)"
    using assms(1) by (simp add: jwf_def distinct_map)
  have acc: "db_accounts e = db_accounts (fold (restore_account t) ?as ?o)" by (simp add: e)
  have ex: "sa_peerId ` set ?as = fst ` set (db_accounts d)"
    using arg_cong [OF ids, of set] by simp
  show "same_money d e"
    unfolding same_money_def accounts_cong(1,2) [OF acc] restore_exists restore_balance [OF dist]
      find_take_snapshot [OF assms(1)] ex
    by (auto simp: o getBalance_def [of d] accounts_exists_def [of d] jhas_iff split: option.splits)
  show "getTotalSupply e = getTotalSupply d"
    by (simp add: e getTotalSupply_def restore_stats o)
qed

text \<open>A snapshot of a ledger, loaded into a fresh ledger, restores every account with its balance and the
  total supply; a snapshot of another version is refused and changes nothing.\<close>

lemma snapshot_restores_ledger:
  assumes "jwf (db_accounts d)"
  shows "\<exists>e. loadSnapshot t (take_snapshot now d) (openDatabase t0 empty_database) = Inr e \<and>
      same_money d e \<and> getTotalSupply e = getTotalSupply d \<and>
      loadSnapshot t ((take_snapshot now d)\<lparr>ls_version := 2\<rparr>) e = Inl (UnsupportedSnapshotVersion 2)"
proof -
  obtain e where e: "loadSnapshot t (take_snapshot now d) (openDatabase t0 empty_database) = Inr e"
    by (simp add: loadSnapshot_def take_snapshot_def Let_def)
  moreover have "loadSnapshot t ((take_snapshot now d)\<lparr>ls_version := 2\<rparr>) e = Inl (UnsupportedSnapshotVersion 2)"
    by (simp add: loadSnapshot_def)
  ultimately show ?thesis using snapshot_round_trip [OF assms e] by blast
qed

lemma snapshot_restores_ledger_witness:
  "\<exists>e. loadSnapshot 300 (take_snapshot 200 bank_db) (openDatabase 250 empty_database) = Inr e \<and> same_money bank_db e"
proof -
  have "jwf (db_accounts bank_db)" by code_simp
  from snapshot_restores_ledger [OF this, of 300 200 250] show ?thesis by blast
qed

section \<open>Pruning\<close>

lemma snapshot_files_prune:
  assumes "jwf dir"
  shows "snapshot_files (pruneSnapshots n dir) = take n (snapshot_files dir)"
proof -
  let ?fs = "snapshot_files dir"
  have d: "distinct ?fs" using assms by (simp add: snapshot_files_def jwf_def jkeys_def)
  have s: "sorted (rev ?fs)" by (simp add: snapshot_files_def)
  have "filter P (map fst (filter (\<lambda>e. fst e \<notin> S) m)) = filter (\<lambda>f. f \<notin> S) (filter P (map fst m))"
    for P and S :: "string set" and m :: snapshot_dir
    by (induction m) auto
  then have "filter is_snapshot_name (jkeys (pruneSnapshots n dir)) =
      filter (\<lambda>f. f \<notin> set (drop n ?fs)) (filter is_snapshot_name (jkeys dir))"
    by (simp only: pruneSnapshots_def fold_jdel jkeys_def)
  moreover have "mset (filter is_snapshot_name (jkeys dir)) = mset ?fs" by (simp add: snapshot_files_def)
  ultimately have "mset (filter is_snapshot_name (jkeys (pruneSnapshots n dir))) = filter_mset (\<lambda>f. f \<notin> set (drop n ?fs)) (mset ?fs)"
    by (simp only: mset_filter)
  also have "\<dots> = mset (take n ?fs)"
  proof -
    have "filter (\<lambda>f. f \<notin> set ys) (xs @ ys) = xs" if "set xs \<inter> set ys = {}" for xs ys :: "string list"
      using that by (auto intro!: filter_True)
    from this [OF set_take_disj_set_drop_if_distinct [OF d order_refl, of n]] show ?thesis by (metis append_take_drop_id mset_filter)
  qed
  finally have m: "mset (filter is_snapshot_name (jkeys (pruneSnapshots n dir))) = mset (rev (take n ?fs))" by simp
  have "sorted (rev (take n ?fs))" using s by (simp add: rev_take sorted_wrt_drop)
  then have "sort (filter is_snapshot_name (jkeys (pruneSnapshots n dir))) = rev (take n ?fs)"
    using m by (intro properties_for_sort) simp_all
  then show ?thesis by (subst snapshot_files_def) simp
qed

lemma snapshot_name: "is_snapshot_name (''snapshot-'' @ x @ ''.json'')"
  by (simp add: is_snapshot_name_def starts_with_def ends_with_def)

text \<open>Creating a snapshot keeps the five newest snapshot files (the greatest names) of those there were and
  the new one, newest first, and touches no file that is not a snapshot.\<close>

lemma snapshots_pruned_to_newest:
  assumes "jwf dir" and "createSnapshot now d (Some dir) = (dir', info)"
  shows "snapshot_files dir' = take 5 (snapshot_files (jset (si_filename info) (Some (take_snapshot now d)) dir))
    \<and> length (snapshot_files dir') \<le> 5
    \<and> (\<not> is_snapshot_name f \<longrightarrow> jget dir' f = jget dir f)
    \<and> (f \<in> set (snapshot_files dir') \<and> f \<noteq> si_filename info \<longrightarrow> jget dir' f = jget dir f)"
proof -
  let ?m = "jset (si_filename info) (Some (take_snapshot now d)) dir"
  have d': "dir' = pruneSnapshots 5 ?m" "is_snapshot_name (si_filename info)"
    using assms(2) snapshot_name by (auto simp: createSnapshot_def Let_def snapshot_info_def)
  have g: "jget (filter (\<lambda>e. fst e \<notin> S) m) k = (if k \<in> S then None else jget m k)" for S k and m :: snapshot_dir
    by (induction m) auto
  have fs: "snapshot_files dir' = take 5 (snapshot_files ?m)"
    using snapshot_files_prune [of ?m 5] assms(1) by (simp add: d')
  have dist: "distinct (snapshot_files ?m)"
    using jwf_jset [OF assms(1)] by (simp add: snapshot_files_def jwf_def jkeys_def)
  have k: "f \<notin> set (drop 5 (snapshot_files ?m))" if "\<not> is_snapshot_name f \<or> f \<in> set (take 5 (snapshot_files ?m))"
    using that set_take_disj_set_drop_if_distinct [OF dist order_refl, of 5] set_drop_subset [of 5 "snapshot_files ?m"]
    by (auto simp: snapshot_files_def)
  have "\<not> is_snapshot_name f \<or> f \<in> set (snapshot_files dir') \<Longrightarrow> f \<noteq> si_filename info \<Longrightarrow> jget dir' f = jget dir f"
    using k fs by (auto simp: d'(1) pruneSnapshots_def fold_jdel g)
  then show ?thesis using fs d'(2) by auto
qed

definition demo_dir :: snapshot_dir where
  "demo_dir = map (\<lambda>n. (''snapshot-'' @ [n] @ ''.json'', None)) ''54321'' @ [(''notes.txt'', None)]"

lemma snapshots_pruned_to_newest_witness:
  "length (snapshot_files (fst (createSnapshot 9 bank_db (Some demo_dir)))) = 5 \<and>
   hd (snapshot_files (fst (createSnapshot 9 bank_db (Some demo_dir)))) = ''snapshot-9.json''"
proof -
  have "jwf demo_dir" by code_simp
  from snapshots_pruned_to_newest [OF this prod.collapse [symmetric], of 9 bank_db "[]"]
  have "length (snapshot_files (fst (createSnapshot 9 bank_db (Some demo_dir)))) \<le> 5" by blast
  moreover have "5 \<le> length (snapshot_files (fst (createSnapshot 9 bank_db (Some demo_dir))))"
    "hd (snapshot_files (fst (createSnapshot 9 bank_db (Some demo_dir)))) = ''snapshot-9.json''" by code_simp+
  ultimately show ?thesis by simp
qed

section \<open>Activity and scores\<close>

text \<open>Activity is stored once per id: a second record with the same id changes nothing.\<close>

lemma recordActivity_once: "act_id r = act_id r' \<Longrightarrow> recordActivity t' r' (recordActivity t r d) = recordActivity t r d"
  by (simp add: recordActivity_def Let_def insert_or_ignore_def jhas_def split: option.splits)

lemma getActivity_sound: "r \<in> set (getActivity d q) \<Longrightarrow>
    activity_matches q r \<and> (\<exists>i v. (i, v) \<in> set (db_activity d) \<and> r = av_record v)"
  by (force simp: getActivity_def jvals_def dest!: in_set_takeD)

lemma getActivity_length: "length (getActivity d q) \<le> activity_limit q"
  by (simp add: getActivity_def)

lemma counts_sum: "sum_list (map snd (counts xs)) = length xs"
proof -
  have "sum_list (map snd (counts xs)) = (\<Sum>x\<in>set xs. count_list xs x)"
    by (simp add: counts_def o_def sum_list_distinct_conv_sum_set)
  then show ?thesis by (simp add: sum_count_set)
qed

text \<open>An agent's score is a percentage: with at most as many successful builds as commits it lies
  between 0 and 100, it is 100 when all builds succeeded, and more successful builds never lower it.\<close>

lemma agent_score_bounds:
  assumes "sr_successful_builds r \<le> sr_total_commits r" and "0 < sr_total_commits r"
  shows "0 \<le> sc_score (rowToAgentScore p r) \<and> sc_score (rowToAgentScore p r) \<le> 100 \<and>
    (sr_successful_builds r = sr_total_commits r \<longrightarrow> sc_score (rowToAgentScore p r) = 100) \<and>
    sc_score (rowToAgentScore p r) \<le> sc_score (rowToAgentScore p (bump_score ev_build_pass r))"
proof -
  have mono: "build_score a n \<le> build_score b n" if "a \<le> b" for a b n
    unfolding build_score_def fdiv_def fmul_def Math_round_def
    by (auto intro!: fl_mono divide_right_mono floor_mono add_right_mono mult_right_mono simp: that)
  have "build_score (sr_total_commits r) (sr_total_commits r) = build_score 1 1"
    using assms(2) by (simp add: build_score_def fdiv_def)
  also have "\<dots> = 100" by code_simp
  finally have h: "build_score (sr_total_commits r) (sr_total_commits r) = 100" .
  have "\<lfloor>1 / 2 :: rat\<rfloor> = 0" by (simp add: floor_eq_iff)
  then have "build_score 0 n = 0" for n
    by (simp add: build_score_def fdiv_def fmul_def Math_round_def)
  then show ?thesis
    using mono [of 0 "sr_successful_builds r" "sr_total_commits r"] mono [OF assms(1), of "sr_total_commits r"] h
      mono [of "sr_successful_builds r" "Suc (sr_successful_builds r)" "sr_total_commits r"]
    by (simp add: rowToAgentScore_def)
qed

lemma agent_score_bounds_witness:
  "sc_score (rowToAgentScore ''bob'' \<lparr>sr_total_commits = 3, sr_successful_builds = 2, sr_failed_builds = 1,
     sr_reverts_triggered = 0, sr_proposals_created = 0, sr_proposals_accepted = 0, sr_updated_at = 1\<rparr>) \<le> 100"
  by (rule agent_score_bounds [THEN conjunct2, THEN conjunct1]) simp_all

end
