(* ===== verification/ProjectRegistry.thy ===== *)
theory ProjectRegistry
  imports Ledger
begin

text \<open>
  \<^verbatim>\<open>ProjectRegistry\<close> (\<^verbatim>\<open>packages/node/src/platform/project-registry.ts\<close>): project metadata kept in
  a table of the ledger database and in an in-memory cache, and exchanged with other nodes. A record
  is replaced only by one with a later \<^verbatim>\<open>updatedAt\<close>. The SHA-256 hash of an API key is a parameter;
  published messages are collected in \<open>rg_published\<close>.
\<close>

section \<open>Data\<close>

record ProjectRegistryRecord =
  pj_projectId :: string
  pj_name :: string
  pj_ownerPeerId :: peer_id
  pj_ownerUsername :: "string option"
  pj_apiKeyHash :: string
  pj_visibility :: string
  pj_resourceIds :: "string list"
  pj_deploymentUrl :: "string option"
  pj_deploymentType :: "string option"
  pj_description :: "string option"
  pj_status :: string
  pj_registeredAt :: time
  pj_updatedAt :: time
  pj_tier :: "nat option"
  pj_liveUrl :: "string option"
  pj_githubRepo :: "string option"
  pj_instanceId :: "string option"
  pj_deploymentPort :: "int option"
  pj_lastDeployedAt :: "time option"

text \<open>A row of \<^verbatim>\<open>project_registry\<close> below its primary key. \<^verbatim>\<open>resource_ids\<close> holds the JSON text of the
  list, which parses back to the list.\<close>

record project_row =
  pw_name :: string
  pw_owner_peer_id :: peer_id
  pw_owner_username :: "string option"
  pw_api_key_hash :: string
  pw_visibility :: string
  pw_resource_ids :: "string list"
  pw_deployment_url :: "string option"
  pw_deployment_type :: "string option"
  pw_description :: "string option"
  pw_status :: string
  pw_registered_at :: time
  pw_updated_at :: time

datatype project_message_type = PROJECT_REGISTER | PROJECT_UPDATE | PROJECT_ARCHIVE | OTHER_PROJECT_MESSAGE string

text \<open>The payload of a message is untyped: a missing field is \<open>None\<close>.\<close>

record project_payload =
  pp_projectId :: "string option"
  pp_name :: "string option"
  pp_ownerPeerId :: "peer_id option"
  pp_ownerUsername :: "string option"
  pp_apiKeyHash :: "string option"
  pp_visibility :: "string option"
  pp_resourceIds :: "string list option"
  pp_deploymentUrl :: "string option"
  pp_deploymentType :: "string option"
  pp_description :: "string option"
  pp_status :: "string option"
  pp_registeredAt :: "time option"
  pp_updatedAt :: "time option"

record project_message =
  pm_type :: project_message_type
  pm_from :: peer_id
  pm_timestamp :: time
  pm_payload :: project_payload

record project_registry =
  rg_localPeerId :: peer_id
  rg_rows :: "(string, project_row) jsmap"
  rg_projects :: "(string, ProjectRegistryRecord) jsmap"
  rg_processedIds :: "(project_message_type \<times> string \<times> time) list"
  rg_published :: "(project_message_type \<times> ProjectRegistryRecord) list"

section \<open>Storage\<close>

definition record_row :: "ProjectRegistryRecord \<Rightarrow> project_row" where
  "record_row r = \<lparr>pw_name = pj_name r, pw_owner_peer_id = pj_ownerPeerId r, pw_owner_username = or_null (pj_ownerUsername r),
     pw_api_key_hash = pj_apiKeyHash r, pw_visibility = pj_visibility r, pw_resource_ids = pj_resourceIds r,
     pw_deployment_url = or_null (pj_deploymentUrl r), pw_deployment_type = or_null (pj_deploymentType r),
     pw_description = or_null (pj_description r), pw_status = pj_status r, pw_registered_at = pj_registeredAt r,
     pw_updated_at = pj_updatedAt r\<rparr>"

text \<open>\<^verbatim>\<open>INSERT OR REPLACE\<close> deletes the old row and appends the new one.\<close>

definition persistRecord :: "ProjectRegistryRecord \<Rightarrow> project_registry \<Rightarrow> project_registry" where
  "persistRecord r g = g\<lparr>rg_rows := jdel (pj_projectId r) (rg_rows g) @ [(pj_projectId r, record_row r)]\<rparr>"

definition rowToRecord :: "string \<Rightarrow> project_row \<Rightarrow> ProjectRegistryRecord" where
  "rowToRecord i w = \<lparr>pj_projectId = i, pj_name = pw_name w, pj_ownerPeerId = pw_owner_peer_id w,
     pj_ownerUsername = or_null (pw_owner_username w), pj_apiKeyHash = pw_api_key_hash w,
     pj_visibility = pw_visibility w, pj_resourceIds = pw_resource_ids w, pj_deploymentUrl = or_null (pw_deployment_url w),
     pj_deploymentType = or_null (pw_deployment_type w), pj_description = or_null (pw_description w),
     pj_status = pw_status w, pj_registeredAt = pw_registered_at w, pj_updatedAt = pw_updated_at w,
     pj_tier = None, pj_liveUrl = None, pj_githubRepo = None, pj_instanceId = None, pj_deploymentPort = None,
     pj_lastDeployedAt = None\<rparr>"

text \<open>\<^verbatim>\<open>start\<close>: the cache is filled from the table.\<close>

definition project_start :: "peer_id \<Rightarrow> (string, project_row) jsmap \<Rightarrow> project_registry" where
  "project_start self rows = \<lparr>rg_localPeerId = self, rg_rows = rows,
     rg_projects = fold (\<lambda>(i, w). jset i (rowToRecord i w)) rows [], rg_processedIds = [], rg_published = []\<rparr>"

definition project_stop :: "project_registry \<Rightarrow> project_registry" where
  "project_stop g = g\<lparr>rg_processedIds := []\<rparr>"

section \<open>Operations\<close>

definition project_broadcast :: "project_message_type \<Rightarrow> ProjectRegistryRecord \<Rightarrow> project_registry \<Rightarrow> project_registry" where
  "project_broadcast ty r g = g\<lparr>rg_published := rg_published g @ [(ty, r)]\<rparr>"

definition registerProject ::
  "(string \<Rightarrow> string) \<Rightarrow> time \<Rightarrow> string \<Rightarrow> string \<Rightarrow> peer_id \<Rightarrow> string \<Rightarrow> string \<Rightarrow> string list \<Rightarrow> string option
     \<Rightarrow> string option \<Rightarrow> string option \<Rightarrow> string option \<Rightarrow> project_registry \<Rightarrow> project_registry \<times> ProjectRegistryRecord" where
  "registerProject hashApiKey now projectId name ownerPeerId apiKey visibility resourceIds ownerUsername
       deploymentUrl deploymentType description g =
     (let r = \<lparr>pj_projectId = projectId, pj_name = name, pj_ownerPeerId = ownerPeerId, pj_ownerUsername = ownerUsername,
                pj_apiKeyHash = hashApiKey apiKey, pj_visibility = visibility, pj_resourceIds = resourceIds,
                pj_deploymentUrl = deploymentUrl, pj_deploymentType = deploymentType, pj_description = description,
                pj_status = ''active'', pj_registeredAt = now, pj_updatedAt = now, pj_tier = None, pj_liveUrl = None,
                pj_githubRepo = None, pj_instanceId = None, pj_deploymentPort = None, pj_lastDeployedAt = None\<rparr>;
          g1 = persistRecord r g;
          g2 = g1\<lparr>rg_projects := jset projectId r (rg_projects g1)\<rparr>
      in (project_broadcast PROJECT_REGISTER r g2, r))"

text \<open>\<^verbatim>\<open>Partial<Pick<...>>\<close>: the fields an update names.\<close>

record project_updates =
  pu_name :: "string option"
  pu_visibility :: "string option"
  pu_resourceIds :: "string list option"
  pu_status :: "string option"
  pu_deploymentUrl :: "string option"
  pu_deploymentType :: "string option"
  pu_description :: "string option"

definition given :: "'a \<Rightarrow> 'a option \<Rightarrow> 'a" where
  "given x u = (case u of None \<Rightarrow> x | Some y \<Rightarrow> y)"

definition given_opt :: "'a option \<Rightarrow> 'a option \<Rightarrow> 'a option" where
  "given_opt x u = (case u of None \<Rightarrow> x | Some y \<Rightarrow> Some y)"

definition spread_updates :: "time \<Rightarrow> project_updates \<Rightarrow> ProjectRegistryRecord \<Rightarrow> ProjectRegistryRecord" where
  "spread_updates now u r = r\<lparr>pj_name := given (pj_name r) (pu_name u), pj_visibility := given (pj_visibility r) (pu_visibility u),
     pj_resourceIds := given (pj_resourceIds r) (pu_resourceIds u), pj_status := given (pj_status r) (pu_status u),
     pj_deploymentUrl := given_opt (pj_deploymentUrl r) (pu_deploymentUrl u),
     pj_deploymentType := given_opt (pj_deploymentType r) (pu_deploymentType u),
     pj_description := given_opt (pj_description r) (pu_description u), pj_updatedAt := now\<rparr>"

definition updateProject :: "time \<Rightarrow> string \<Rightarrow> project_updates \<Rightarrow> project_registry \<Rightarrow> project_registry \<times> bool" where
  "updateProject now projectId u g =
     (case jget (rg_projects g) projectId of
        None \<Rightarrow> (g, False)
      | Some existing \<Rightarrow>
          let r = spread_updates now u existing;
              g1 = g\<lparr>rg_rows := jupd projectId (\<lambda>w. w\<lparr>pw_name := pj_name r, pw_visibility := pj_visibility r,
                     pw_resource_ids := pj_resourceIds r, pw_deployment_url := or_null (pj_deploymentUrl r),
                     pw_deployment_type := or_null (pj_deploymentType r), pw_description := or_null (pj_description r),
                     pw_status := pj_status r, pw_updated_at := pj_updatedAt r\<rparr>) (rg_rows g),
                     rg_projects := jset projectId r (rg_projects g)\<rparr>
          in (project_broadcast PROJECT_UPDATE r g1, True))"

definition archiveProject :: "time \<Rightarrow> string \<Rightarrow> project_registry \<Rightarrow> project_registry \<times> bool" where
  "archiveProject now projectId g =
     (case jget (rg_projects g) projectId of
        None \<Rightarrow> (g, False)
      | Some existing \<Rightarrow>
          let r = existing\<lparr>pj_status := ''archived'', pj_updatedAt := now\<rparr>;
              g1 = g\<lparr>rg_rows := jupd projectId (\<lambda>w. w\<lparr>pw_status := ''archived'', pw_updated_at := now\<rparr>) (rg_rows g),
                     rg_projects := jset projectId r (rg_projects g)\<rparr>
          in (project_broadcast PROJECT_ARCHIVE r g1, True))"

definition validateApiKey :: "(string \<Rightarrow> string) \<Rightarrow> string \<Rightarrow> project_registry \<Rightarrow> ProjectRegistryRecord option" where
  "validateApiKey hashApiKey apiKey g =
     find (\<lambda>r. pj_apiKeyHash r = hashApiKey apiKey \<and> pj_status r = ''active'') (jvals (rg_projects g))"

definition getProject :: "project_registry \<Rightarrow> string \<Rightarrow> ProjectRegistryRecord option" where
  "getProject g projectId = jget (rg_projects g) projectId"

definition getAllProjects :: "project_registry \<Rightarrow> ProjectRegistryRecord list" where
  "getAllProjects g = jvals (rg_projects g)"

definition listProjects :: "peer_id option \<Rightarrow> project_registry \<Rightarrow> ProjectRegistryRecord list" where
  "listProjects owner g =
     filter (\<lambda>r. (truthy owner \<longrightarrow> Some (pj_ownerPeerId r) = owner) \<and> pj_status r \<noteq> ''archived'') (jvals (rg_projects g))"

definition getListedProjects :: "project_registry \<Rightarrow> ProjectRegistryRecord list" where
  "getListedProjects g = filter (\<lambda>r. pj_status r = ''active'' \<and> pj_visibility r \<in> {''listed'', ''featured''}) (jvals (rg_projects g))"

definition applyRemoteRecord :: "ProjectRegistryRecord \<Rightarrow> project_registry \<Rightarrow> project_registry \<times> bool" where
  "applyRemoteRecord r g =
     (if pj_projectId r = '''' \<or> pj_apiKeyHash r = '''' then (g, False)
      else case jget (rg_projects g) (pj_projectId r) of
        Some existing \<Rightarrow>
          if pj_updatedAt r \<le> pj_updatedAt existing then (g, False)
          else let g1 = persistRecord r g in (g1\<lparr>rg_projects := jset (pj_projectId r) r (rg_projects g1)\<rparr>, True)
      | None \<Rightarrow> let g1 = persistRecord r g in (g1\<lparr>rg_projects := jset (pj_projectId r) r (rg_projects g1)\<rparr>, True))"

text \<open>\<^verbatim>\<open>x || d\<close> on an optional string and on an optional time.\<close>

definition or_else :: "string option \<Rightarrow> string \<Rightarrow> string" where
  "or_else s d = (if truthy s then the s else d)"

definition or_time :: "time option \<Rightarrow> time \<Rightarrow> time" where
  "or_time t d = (case t of None \<Rightarrow> d | Some x \<Rightarrow> if x = 0 then d else x)"

definition payload_record :: "project_message \<Rightarrow> ProjectRegistryRecord" where
  "payload_record msg =
     (let p = pm_payload msg in
      \<lparr>pj_projectId = or_else (pp_projectId p) '''', pj_name = or_else (pp_name p) '''',
       pj_ownerPeerId = or_else (pp_ownerPeerId p) (pm_from msg), pj_ownerUsername = pp_ownerUsername p,
       pj_apiKeyHash = or_else (pp_apiKeyHash p) '''', pj_visibility = or_else (pp_visibility p) ''owner_only'',
       pj_resourceIds = given [] (pp_resourceIds p), pj_deploymentUrl = pp_deploymentUrl p,
       pj_deploymentType = pp_deploymentType p, pj_description = pp_description p,
       pj_status = or_else (pp_status p) ''active'', pj_registeredAt = or_time (pp_registeredAt p) (pm_timestamp msg),
       pj_updatedAt = or_time (pp_updatedAt p) (pm_timestamp msg), pj_tier = None, pj_liveUrl = None,
       pj_githubRepo = None, pj_instanceId = None, pj_deploymentPort = None, pj_lastDeployedAt = None\<rparr>)"

definition project_handleMessage :: "project_message \<Rightarrow> project_registry \<Rightarrow> project_registry" where
  "project_handleMessage msg g =
     (if \<not> truthy (pp_projectId (pm_payload msg)) then g
      else let key = (pm_type msg, the (pp_projectId (pm_payload msg)), pm_timestamp msg) in
        if key \<in> set (rg_processedIds g) then g
        else let ids = sadd key (rg_processedIds g);
                 g1 = g\<lparr>rg_processedIds := (if 10000 < length ids then lastn 5000 ids else ids)\<rparr>;
                 r = payload_record msg
             in if pm_from msg = rg_localPeerId g1 then g1
                else case pm_type msg of
                    PROJECT_REGISTER \<Rightarrow> fst (applyRemoteRecord r g1)
                  | PROJECT_UPDATE \<Rightarrow> fst (applyRemoteRecord r g1)
                  | PROJECT_ARCHIVE \<Rightarrow> fst (applyRemoteRecord (r\<lparr>pj_status := ''archived''\<rparr>) g1)
                  | OTHER_PROJECT_MESSAGE _ \<Rightarrow> g1)"

section \<open>Last writer wins\<close>

definition well_formed :: "ProjectRegistryRecord \<Rightarrow> bool" where
  "well_formed r = (pj_projectId r \<noteq> '''' \<and> pj_apiKeyHash r \<noteq> '''')"

definition newer_than :: "ProjectRegistryRecord \<Rightarrow> ProjectRegistryRecord option \<Rightarrow> bool" where
  "newer_than r e = (case e of None \<Rightarrow> True | Some x \<Rightarrow> pj_updatedAt x < pj_updatedAt r)"

definition apply_all :: "ProjectRegistryRecord list \<Rightarrow> project_registry \<Rightarrow> project_registry" where
  "apply_all rs g = fold (\<lambda>r g. fst (applyRemoteRecord r g)) rs g"

lemma apply_all_simps [simp]:
  "apply_all [] g = g" "apply_all (r # rs) g = apply_all rs (fst (applyRemoteRecord r g))"
  by (simp_all add: apply_all_def)

lemma getProject_applyRemote:
  "getProject (fst (applyRemoteRecord r g)) k =
     (if well_formed r \<and> pj_projectId r = k \<and> newer_than r (getProject g k) then Some r else getProject g k)"
  by (auto simp: applyRemoteRecord_def getProject_def well_formed_def newer_than_def persistRecord_def Let_def
      split: option.splits)

text \<open>The records that compete for a project: the one stored and the well-formed ones received.\<close>

definition candidates :: "string \<Rightarrow> ProjectRegistryRecord list \<Rightarrow> project_registry \<Rightarrow> ProjectRegistryRecord set" where
  "candidates k rs g = {r. getProject g k = Some r} \<union> {r \<in> set rs. well_formed r \<and> pj_projectId r = k}"

definition latest_of :: "ProjectRegistryRecord set \<Rightarrow> ProjectRegistryRecord option \<Rightarrow> bool" where
  "latest_of C x = (case x of None \<Rightarrow> C = {} | Some r \<Rightarrow> r \<in> C \<and> (\<forall>r' \<in> C. pj_updatedAt r' \<le> pj_updatedAt r))"

lemma latest_of_insert:
  assumes "latest_of (C \<union> {r. x = Some r}) y" "newer_than r x \<longrightarrow> x' = Some r" "\<not> newer_than r x \<longrightarrow> x' = x"
    and "latest_of (C \<union> {r. x' = Some r}) z"
  shows "latest_of (insert r (C \<union> {r. x = Some r})) z"
  using assms by (cases x; cases "newer_than r x"; cases z) (fastforce simp: latest_of_def newer_than_def)+

lemma apply_all_latest: "latest_of (candidates k rs g) (getProject (apply_all rs g) k)"
proof (induction rs arbitrary: g)
  case Nil
  then show ?case by (simp add: candidates_def latest_of_def split: option.splits)
next
  case (Cons r rs)
  let ?C = "{r \<in> set rs. well_formed r \<and> pj_projectId r = k}" and ?x = "getProject g k"
    and ?x' = "getProject (fst (applyRemoteRecord r g)) k"
  have step: "latest_of (?C \<union> {r. ?x' = Some r}) (getProject (apply_all (r # rs) g) k)"
    using Cons [of "fst (applyRemoteRecord r g)"] by (simp add: candidates_def Un_commute)
  show ?case
  proof (cases "well_formed r \<and> pj_projectId r = k")
    case True
    then have "candidates k (r # rs) g = insert r (?C \<union> {r. ?x = Some r})" by (auto simp: candidates_def)
    moreover have "latest_of (?C \<union> {r. ?x = Some r}) (getProject (apply_all rs g) k)"
      using Cons [of g] by (simp add: candidates_def Un_commute)
    ultimately show ?thesis using latest_of_insert [OF _ _ _ step] True by (simp add: getProject_applyRemote)
  next
    case False
    then have "?x' = ?x" "candidates k (r # rs) g = ?C \<union> {r. ?x = Some r}"
      by (auto simp: candidates_def getProject_applyRemote)
    with step show ?thesis by simp
  qed
qed

lemma latest_of_unique:
  assumes "latest_of C x" "latest_of C y" "inj_on pj_updatedAt C"
  shows "x = y"
proof (cases x)
  case None
  with assms(1,2) show ?thesis by (cases y) (auto simp: latest_of_def)
next
  case (Some r)
  with assms(1,2) obtain r' where y: "y = Some r'" by (cases y) (auto simp: latest_of_def)
  have "r \<in> C" "r' \<in> C" "pj_updatedAt r = pj_updatedAt r'"
    using assms(1,2) Some y by (auto simp: latest_of_def intro: antisym)
  with assms(3) Some y show ?thesis by (auto dest: inj_onD)
qed

text \<open>C8: Replicas converge. Two registries that agree and receive the same project records, in any order and
  any number of times (gossip and catch-up interleave), end up with the same record for every project, provided that
  no two of the competing versions of a project carry the same update time.\<close>

theorem projects_converge:
  assumes "\<And>k. getProject g k = getProject h k" and "set rs = set ss"
    and "\<And>k. inj_on pj_updatedAt (candidates k rs g)"
  shows "getProject (apply_all rs g) k = getProject (apply_all ss h) k"
proof (rule latest_of_unique)
  show "latest_of (candidates k rs g) (getProject (apply_all rs g) k)" by (rule apply_all_latest)
  have "candidates k rs g = candidates k ss h" using assms(1,2) by (simp add: candidates_def)
  then show "latest_of (candidates k rs g) (getProject (apply_all ss h) k)" using apply_all_latest [of k ss h] by simp
qed (rule assms(3))

definition blog_v :: "time \<Rightarrow> string \<Rightarrow> ProjectRegistryRecord" where
  "blog_v t status = \<lparr>pj_projectId = ''blog'', pj_name = ''Blog'', pj_ownerPeerId = ''alice'', pj_ownerUsername = None,
     pj_apiKeyHash = ''h1'', pj_visibility = ''listed'', pj_resourceIds = [], pj_deploymentUrl = None,
     pj_deploymentType = None, pj_description = Some ''my blog'', pj_status = status, pj_registeredAt = 1, pj_updatedAt = t,
     pj_tier = Some 1, pj_liveUrl = None, pj_githubRepo = None, pj_instanceId = None, pj_deploymentPort = None,
     pj_lastDeployedAt = None\<rparr>"

theorem projects_converge_witness:
  "getProject (apply_all [blog_v 5 ''active'', blog_v 9 ''archived''] (project_start ''n1'' [])) ''blog'' = Some (blog_v 9 ''archived'') \<and>
   getProject (apply_all [blog_v 9 ''archived'', blog_v 5 ''active'', blog_v 9 ''archived''] (project_start ''n2'' [])) ''blog'' =
     Some (blog_v 9 ''archived'')"
proof -
  let ?rs = "[blog_v 5 ''active'', blog_v 9 ''archived'']"
    and ?ss = "[blog_v 9 ''archived'', blog_v 5 ''active'', blog_v 9 ''archived'']"
  have "getProject (apply_all ?rs (project_start ''n1'' [])) ''blog'' = Some (blog_v 9 ''archived'')" by code_simp
  moreover have "getProject (apply_all ?rs (project_start ''n1'' [])) ''blog'' = getProject (apply_all ?ss (project_start ''n2'' [])) ''blog''"
    by (rule projects_converge) (auto simp: getProject_def project_start_def candidates_def inj_on_def blog_v_def)
  ultimately show ?thesis by simp
qed

section \<open>The table mirrors the cache\<close>

text \<open>What survives a restart: empty optional texts become absent and the fields without a column are dropped.\<close>

definition persisted :: "ProjectRegistryRecord \<Rightarrow> ProjectRegistryRecord" where
  "persisted r = r\<lparr>pj_ownerUsername := or_null (pj_ownerUsername r), pj_deploymentUrl := or_null (pj_deploymentUrl r),
     pj_deploymentType := or_null (pj_deploymentType r), pj_description := or_null (pj_description r),
     pj_tier := None, pj_liveUrl := None, pj_githubRepo := None, pj_instanceId := None, pj_deploymentPort := None,
     pj_lastDeployedAt := None\<rparr>"

definition mirrors :: "project_registry \<Rightarrow> bool" where
  "mirrors g = (jwf (rg_rows g) \<and>
     (\<forall>i. jget (rg_rows g) i = map_option record_row (jget (rg_projects g) i)) \<and>
     (\<forall>i r. jget (rg_projects g) i = Some r \<longrightarrow> pj_projectId r = i))"

lemma rowToRecord_row: "rowToRecord (pj_projectId r) (record_row r) = persisted r"
  by (simp add: rowToRecord_def record_row_def persisted_def or_null_def)

lemma mirrors_put:
  assumes "mirrors g" "pj_projectId r = i"
  shows "mirrors ((persistRecord r g)\<lparr>rg_projects := jset i r (rg_projects g)\<rparr>)"
proof -
  have "\<not> jhas (jdel (pj_projectId r) (rg_rows g)) (pj_projectId r)" by (simp add: jhas_def)
  with assms show ?thesis
    by (auto simp: mirrors_def persistRecord_def jwf_snoc split: option.splits)
qed

lemma mirrors_cong: "rg_rows g = rg_rows h \<Longrightarrow> rg_projects g = rg_projects h \<Longrightarrow> mirrors g = mirrors h"
  by (simp add: mirrors_def)

lemma persist_projects [simp]: "rg_projects (persistRecord r g) = rg_projects g"
  by (simp add: persistRecord_def)

lemma mirrors_applyRemote: "mirrors g \<Longrightarrow> mirrors (fst (applyRemoteRecord r g))"
  using mirrors_put [OF _ refl, of g r] by (simp add: applyRemoteRecord_def Let_def split: option.splits)

lemma mirrors_broadcast [simp]: "mirrors (project_broadcast ty r g) = mirrors g"
  by (simp add: mirrors_def project_broadcast_def)

lemma mirrors_register:
  assumes "mirrors g"
  shows "mirrors (fst (registerProject H now i n p key v rs u du dt ds g))"
  unfolding registerProject_def Let_def fst_conv mirrors_broadcast persist_projects
  by (rule mirrors_put [OF assms]) simp

lemma mirrors_upd:
  assumes "mirrors g" "jget (rg_projects g) i = Some r" "pj_projectId r' = i" "f (record_row r) = record_row r'"
  shows "mirrors (g\<lparr>rg_rows := jupd i f (rg_rows g), rg_projects := jset i r' (rg_projects g)\<rparr>)"
  using assms by (auto simp: mirrors_def)

lemma mirrors_update:
  assumes "mirrors g"
  shows "mirrors (fst (updateProject now i u g))"
proof (cases "jget (rg_projects g) i")
  case (Some r)
  with assms have "pj_projectId (spread_updates now u r) = i" by (simp add: mirrors_def spread_updates_def)
  from mirrors_upd [OF assms Some this] show ?thesis
    using Some by (simp add: updateProject_def Let_def record_row_def spread_updates_def)
qed (use assms in \<open>simp add: updateProject_def\<close>)

lemma mirrors_archive:
  assumes "mirrors g"
  shows "mirrors (fst (archiveProject now i g))"
proof (cases "jget (rg_projects g) i")
  case (Some r)
  with assms have "pj_projectId (r\<lparr>pj_status := ''archived'', pj_updatedAt := now\<rparr>) = i" by (simp add: mirrors_def)
  from mirrors_upd [OF assms Some this] show ?thesis
    using Some by (simp add: archiveProject_def Let_def record_row_def)
qed (use assms in \<open>simp add: archiveProject_def\<close>)

lemma mirrors_handle: "mirrors g \<Longrightarrow> mirrors (project_handleMessage msg g)"
  by (auto simp: project_handleMessage_def Let_def mirrors_def [of "rg_processedIds_update f g" for f]
      mirrors_def [of g] split: project_message_type.splits intro!: mirrors_applyRemote)

lemma start_lookup:
  assumes "jwf rows"
  shows "getProject (project_start self rows) i = map_option (rowToRecord i) (jget rows i)"
proof -
  have "jget (fold (\<lambda>(i, w). jset i (rowToRecord i w)) rows m) i =
      (case jget rows i of None \<Rightarrow> jget m i | Some w \<Rightarrow> Some (rowToRecord i w))" for m
    using assms
  proof (induction rows arbitrary: m)
    case (Cons e rows)
    obtain a w where e: "e = (a, w)" by (cases e)
    have "a = i \<Longrightarrow> jget rows i = None" using Cons.prems e by (simp add: jwf_def jget_None_iff)
    with Cons e show ?case by (auto simp: jwf_def split: option.splits)
  qed simp
  from this [of "[]"] show ?thesis by (simp add: getProject_def project_start_def split: option.splits)
qed
text \<open>The table mirrors the cache. Registering, updating, archiving and receiving records keep the row of every
  project equal to its cached record, so a restarted registry finds every project again, with the same owner,
  key hash, visibility, status and times; only the fields that have no column (tier, live URL, repository,
  instance, port and deploy time) are lost.\<close>

lemma projects_survive_restart:
  assumes "mirrors g"
  shows "getProject (project_start self (rg_rows g)) i = map_option persisted (getProject g i) \<and>
    mirrors (fst (registerProject H now p n owner key v rs u du dt ds g)) \<and>
    mirrors (fst (updateProject now p us g)) \<and> mirrors (fst (archiveProject now p g)) \<and>
    mirrors (fst (applyRemoteRecord r g)) \<and> mirrors (project_handleMessage msg g)"
proof -
  have "getProject (project_start self (rg_rows g)) i = map_option persisted (getProject g i)"
    using assms rowToRecord_row start_lookup [of "rg_rows g" self i]
    by (cases "jget (rg_projects g) i") (auto simp: mirrors_def getProject_def)
  then show ?thesis
    using mirrors_register [OF assms] mirrors_update [OF assms] mirrors_archive [OF assms]
      mirrors_applyRemote [OF assms] mirrors_handle [OF assms] by simp
qed

lemma projects_survive_restart_witness:
  "getProject (project_start ''n1'' (rg_rows (fst (applyRemoteRecord (blog_v 5 ''active'') (project_start ''n1'' []))))) ''blog'' =
     Some ((blog_v 5 ''active'')\<lparr>pj_tier := None\<rparr>)"
proof -
  let ?g = "fst (applyRemoteRecord (blog_v 5 ''active'') (project_start ''n1'' []))"
  have "mirrors (project_start ''n1'' [])" by (simp add: mirrors_def project_start_def)
  then have "mirrors ?g" by (rule mirrors_applyRemote)
  moreover have "map_option persisted (getProject ?g ''blog'') = Some ((blog_v 5 ''active'')\<lparr>pj_tier := None\<rparr>)" by code_simp
  ultimately show ?thesis using projects_survive_restart [of ?g "''n1''" "''blog''"] by simp
qed

end
