(* ===== verification/LedgerSync.thy ===== *)
theory LedgerSync
  imports ProjectRegistry
begin

text \<open>
  \<^verbatim>\<open>LedgerSync\<close> (\<^verbatim>\<open>packages/node/src/kernel/sync.ts\<close>): transactions, account claims, activity and project
  records travel between nodes over gossip topics. Payloads are untrusted: \<open>wire_tx\<close> is a received transaction
  before validation, where an empty string is an absent field and \<open>None\<close> an amount that is absent, infinite or
  not a number.

  Signature verification is asynchronous. A handler that awaits it leaves a job in \<open>ls_jobs\<close> (the verdict is
  computed from the state at the time of the call) and \<open>resume_job\<close> runs what follows the await, in any order
  relative to other messages; \<open>sync_step\<close> is the resulting step relation. Published messages and calls of
  the transaction callback are collected in \<open>ls_published\<close> and \<open>ls_notified\<close>.
\<close>

section \<open>Messages and state\<close>

record wire_tx =
  wt_id :: string
  wt_from :: peer_id
  wt_to :: peer_id
  wt_amount :: "number option"
  wt_fee :: "number option"
  wt_relay :: "peer_id option"
  wt_type :: TransactionType
  wt_timestamp :: time
  wt_signature :: string

record account_claim =
  ck_peerId :: peer_id
  ck_username :: "string option"
  ck_displayName :: "string option"
  ck_passwordHash :: string
  ck_claimedAt :: time
  ck_balance :: "number option"

datatype sync_message =
    msg_transfer Transaction
  | msg_claim account_claim
  | msg_sync_request time nat
  | msg_sync_response "Transaction list" "account_claim list" "ProjectRegistryRecord list"
  | msg_activity ActivityRecord
  | msg_activity_request time
  | msg_activity_response "ActivityRecord list"

text \<open>A received catch-up response, and the part of it still to be processed after an await.\<close>

record sync_response =
  sy_transactions :: "wire_tx list option"
  sy_claimedAccounts :: "account_claim list option"
  sy_projects :: "ProjectRegistryRecord list option"

record catch_up =
  cu_rest :: "wire_tx list"
  cu_applied :: nat
  cu_claims :: "account_claim list option"
  cu_projects :: "ProjectRegistryRecord list option"

datatype sync_job = LiveTx Transaction "bool option" | CatchUpTx Transaction "bool option" catch_up

record ledger_sync =
  ls_ledger :: database
  ls_localPeerId :: peer_id
  ls_processedTxs :: "string list"
  ls_appliedTxs :: "string list"
  ls_processedActivities :: "string list"
  ls_processedClaims :: "(peer_id \<times> time) list"
  ls_lastSyncTimestamp :: time
  ls_lastActivitySyncTimestamp :: time
  ls_registry :: "project_registry option"
  ls_jobs :: "sync_job list"
  ls_published :: "sync_message list"
  ls_notified :: "Transaction list"

text \<open>Code outside the repository: libp2p's key extraction (in the ledger environment), JavaScript's rendering of a
  number, the base64 decoder (which may throw) and Ed25519 verification of data, signature and raw key.\<close>

record sync_env =
  se_ledger :: ledger_env
  se_number_text :: "number \<Rightarrow> string"
  se_decode_base64 :: "string \<Rightarrow> string option"
  se_ed25519 :: "string \<Rightarrow> string \<Rightarrow> string \<Rightarrow> bool"

definition LedgerSync_init :: "time \<Rightarrow> database \<Rightarrow> peer_id \<Rightarrow> ledger_sync" where
  "LedgerSync_init now d self = \<lparr>ls_ledger = d, ls_localPeerId = self, ls_processedTxs = [], ls_appliedTxs = [],
     ls_processedActivities = [], ls_processedClaims = [],
     ls_lastSyncTimestamp = (if getTransactionCount d \<le> 1 then 0 else now - 60000),
     ls_lastActivitySyncTimestamp = now - 60000, ls_registry = None, ls_jobs = [], ls_published = [], ls_notified = []\<rparr>"

definition setProjectRegistry :: "project_registry \<Rightarrow> ledger_sync \<Rightarrow> ledger_sync" where
  "setProjectRegistry pr s = s\<lparr>ls_registry := Some pr\<rparr>"

definition publish :: "sync_message \<Rightarrow> ledger_sync \<Rightarrow> ledger_sync" where
  "publish m s = s\<lparr>ls_published := ls_published s @ [m]\<rparr>"

section \<open>Sending\<close>

definition broadcastTransaction :: "Transaction \<Rightarrow> ledger_sync \<Rightarrow> ledger_sync" where
  "broadcastTransaction tx s = publish (msg_transfer tx) (s\<lparr>ls_processedTxs := sadd (tx_id tx) (ls_processedTxs s)\<rparr>)"

definition broadcastClaim :: "account_claim \<Rightarrow> ledger_sync \<Rightarrow> ledger_sync" where
  "broadcastClaim c s = publish (msg_claim (c\<lparr>ck_balance := None\<rparr>))
     (s\<lparr>ls_processedClaims := sadd (ck_peerId c, ck_claimedAt c) (ls_processedClaims s)\<rparr>)"

definition broadcastActivity :: "ActivityRecord \<Rightarrow> ledger_sync \<Rightarrow> ledger_sync" where
  "broadcastActivity r s = publish (msg_activity r) (s\<lparr>ls_processedActivities := sadd (act_id r) (ls_processedActivities s)\<rparr>)"

definition requestSync :: "ledger_sync \<Rightarrow> ledger_sync" where
  "requestSync s = publish (msg_sync_request 0 (getTransactionCount (ls_ledger s))) s"

definition requestSyncFromPeers :: "nat \<Rightarrow> ledger_sync \<Rightarrow> ledger_sync" where
  "requestSyncFromPeers peerCount s = (if peerCount = 0 then s else requestSync s)"

definition requestActivitySync :: "ledger_sync \<Rightarrow> ledger_sync" where
  "requestActivitySync s = publish (msg_activity_request (ls_lastActivitySyncTimestamp s)) s"

text \<open>An absent \<^verbatim>\<open>since\<close> counts as 0.\<close>

definition sync_handleSyncRequest :: "time option \<Rightarrow> nat option \<Rightarrow> ledger_sync \<Rightarrow> ledger_sync" where
  "sync_handleSyncRequest since requesterTxCount s =
     (let d = ls_ledger s;
          behind = (case requesterTxCount of None \<Rightarrow> False | Some n \<Rightarrow> n < getTransactionCount d);
          effectiveSince = (if behind then 0 else case since of None \<Rightarrow> 0 | Some t \<Rightarrow> t);
          limit = (if behind then 10000 else 500);
          transactions = getTransactionsSince d effectiveSince limit;
          claimedAccounts = map (\<lambda>c. \<lparr>ck_peerId = cl_peerId c, ck_username = cl_username c, ck_displayName = cl_displayName c,
                                  ck_passwordHash = cl_passwordHash c, ck_claimedAt = cl_claimedAt c, ck_balance = None\<rparr>)
                                (getClaimedAccounts d);
          projects = (case ls_registry s of None \<Rightarrow> [] | Some pr \<Rightarrow> getAllProjects pr)
      in if transactions = [] \<and> claimedAccounts = [] \<and> projects = [] then s
         else publish (msg_sync_response transactions claimedAccounts projects) s)"

definition handleActivitySyncRequest :: "time option \<Rightarrow> ledger_sync \<Rightarrow> ledger_sync" where
  "handleActivitySyncRequest since s =
     (let records = getActivity (ls_ledger s) \<lparr>aq_limit = Some 100, aq_since = Some (case since of None \<Rightarrow> 0 | Some t \<Rightarrow> t),
                      aq_agentId = None, aq_action = None\<rparr>
      in if records = [] then s else publish (msg_activity_response records) s)"

section \<open>Signatures\<close>

fun type_text :: "TransactionType \<Rightarrow> string" where
  "type_text TRANSFER = ''transfer''"
| "type_text EMISSION = ''emission''"
| "type_text (UNKNOWN_TYPE t) = t"

definition canonicalTransactionBytes :: "sync_env \<Rightarrow> Transaction \<Rightarrow> string" where
  "canonicalTransactionBytes E tx =
     tx_id tx @ '':'' @ tx_from tx @ '':'' @ tx_to tx @ '':'' @ se_number_text E (tx_amount tx) @ '':'' @
     se_number_text E (tx_fee tx) @ '':'' @ (if truthy (tx_relay tx) then the (tx_relay tx) else '''') @ '':'' @
     type_text (tx_type tx) @ '':'' @ se_number_text E (of_int (tx_timestamp tx))"

definition verifyTransactionSignature :: "sync_env \<Rightarrow> Transaction \<Rightarrow> string \<Rightarrow> string \<Rightarrow> bool" where
  "verifyTransactionSignature E tx signature publicKeyRaw =
     se_ed25519 E (canonicalTransactionBytes E tx) signature publicKeyRaw"

definition PLACEHOLDER_KEYS :: "string list" where
  "PLACEHOLDER_KEYS = [''unknown'', ''remote-peer'', ''remote-transfer'']"

definition stored_key :: "database \<Rightarrow> peer_id \<Rightarrow> string option" where
  "stored_key d p = (case jget (db_accounts d) p of
      None \<Rightarrow> None
    | Some r \<Rightarrow> if ar_public_key r \<noteq> '''' \<and> ar_public_key r \<notin> set PLACEHOLDER_KEYS then Some (ar_public_key r) else None)"

definition sender_key :: "sync_env \<Rightarrow> database \<Rightarrow> peer_id \<Rightarrow> string option" where
  "sender_key E d p = (case stored_key d p of Some k \<Rightarrow> Some k | None \<Rightarrow> env_extract_key (se_ledger E) p)"

definition verifyTxSignature :: "sync_env \<Rightarrow> Transaction \<Rightarrow> database \<Rightarrow> bool option" where
  "verifyTxSignature E tx d =
     (if tx_type tx = EMISSION then None
      else if tx_signature tx = '''' \<or> tx_signature tx = ''network-emission'' then None
      else case sender_key E d (tx_from tx) of
        None \<Rightarrow> Some False
      | Some k \<Rightarrow> if k = '''' then Some False
                  else case se_decode_base64 E k of
                      None \<Rightarrow> Some False
                    | Some raw \<Rightarrow> Some (verifyTransactionSignature E tx (tx_signature tx) raw))"

section \<open>Receiving transactions\<close>

text \<open>The basic-field check with the fee sanitized.\<close>

definition validate_tx :: "wire_tx \<Rightarrow> Transaction option" where
  "validate_tx w =
     (case wt_amount w of
        None \<Rightarrow> None
      | Some a \<Rightarrow> if wt_from w = '''' \<or> wt_to w = '''' \<or> a \<le> 0 then None
                  else Some \<lparr>tx_id = wt_id w, tx_from = wt_from w, tx_to = wt_to w, tx_amount = a,
                     tx_fee = (case wt_fee w of None \<Rightarrow> 0 | Some f \<Rightarrow> if f < 0 then 0 else f), tx_relay = wt_relay w,
                     tx_type = wt_type w, tx_timestamp = wt_timestamp w, tx_signature = wt_signature w\<rparr>)"

definition handleIncomingTransaction :: "sync_env \<Rightarrow> wire_tx \<Rightarrow> ledger_sync \<Rightarrow> ledger_sync" where
  "handleIncomingTransaction E w s =
     (if wt_id w = '''' \<or> wt_id w \<in> set (ls_processedTxs s) then s
      else let s1 = s\<lparr>ls_processedTxs := sadd (wt_id w) (ls_processedTxs s)\<rparr>
           in case validate_tx w of
             None \<Rightarrow> s1
           | Some tx \<Rightarrow> s1\<lparr>ls_jobs := ls_jobs s1 @ [LiveTx tx (verifyTxSignature E tx (ls_ledger s1))]\<rparr>)"

definition ensure_account :: "sync_env \<Rightarrow> time \<Rightarrow> peer_id \<Rightarrow> database \<Rightarrow> database" where
  "ensure_account E now p d =
     (if accounts_exists d p then d
      else fst (registerNode now p (or_else (env_extract_key (se_ledger E) p) ''unknown'') d))"

definition sig_refused :: "Transaction \<Rightarrow> bool option \<Rightarrow> bool" where
  "sig_refused tx sigResult = (sigResult = Some False \<or> (sigResult = None \<and> tx_type tx = TRANSFER))"

definition is_remote_transfer :: "Transaction \<Rightarrow> bool" where
  "is_remote_transfer tx = (tx_type tx = TRANSFER \<and> tx_from tx \<noteq> ''NETWORK'')"

definition totalDebit :: "Transaction \<Rightarrow> number" where
  "totalDebit tx = fadd (tx_amount tx) (tx_fee tx)"

text \<open>The continuation of \<^verbatim>\<open>handleIncomingTransaction\<close> after the signature check.\<close>

definition apply_live :: "sync_env \<Rightarrow> time \<Rightarrow> Transaction \<Rightarrow> bool option \<Rightarrow> ledger_sync \<Rightarrow> ledger_sync" where
  "apply_live E now tx sigResult s =
     (if sig_refused tx sigResult \<or> tx_id tx \<in> set (ls_appliedTxs s) then s
      else let d = ensure_account E now (tx_to tx) (ensure_account E now (tx_from tx) (ls_ledger s));
               s1 = s\<lparr>ls_appliedTxs := sadd (tx_id tx) (ls_appliedTxs s), ls_ledger := d\<rparr>
           in if is_remote_transfer tx \<and> 0 < getBalance d (tx_from tx) \<and> getBalance d (tx_from tx) < totalDebit tx then s1
              else case applyRemoteTransaction (se_ledger E) now tx d of
                  Inl _ \<Rightarrow> s1
                | Inr d' \<Rightarrow> s1\<lparr>ls_ledger := d', ls_lastSyncTimestamp := max (ls_lastSyncTimestamp s) (tx_timestamp tx),
                               ls_notified := ls_notified s @ [tx]\<rparr>)"

text \<open>The part of an iteration of \<^verbatim>\<open>handleSyncResponse\<close> that follows the signature check; the result tells
  whether the transaction was applied.\<close>

definition apply_catch_up :: "sync_env \<Rightarrow> time \<Rightarrow> Transaction \<Rightarrow> bool option \<Rightarrow> ledger_sync \<Rightarrow> ledger_sync \<times> bool" where
  "apply_catch_up E now tx sigResult s =
     (if sig_refused tx sigResult then (s, False)
      else let d = ensure_account E now (tx_to tx) (ensure_account E now (tx_from tx) (ls_ledger s));
               s1 = s\<lparr>ls_ledger := d\<rparr>
           in if is_remote_transfer tx \<and> getBalance d (tx_from tx) < totalDebit tx then (s1, False)
              else case applyRemoteTransaction (se_ledger E) now tx d of
                  Inl _ \<Rightarrow> (s1, False)
                | Inr d' \<Rightarrow> (s1\<lparr>ls_ledger := d', ls_notified := ls_notified s @ [tx]\<rparr>, True))"

text \<open>Claims and projects of a catch-up response. A claim that throws ends the handler, which the flag reports.\<close>

fun catch_up_claims :: "sync_env \<Rightarrow> time \<Rightarrow> account_claim list \<Rightarrow> ledger_sync \<Rightarrow> ledger_sync \<times> bool" where
  "catch_up_claims E now [] s = (s, True)"
| "catch_up_claims E now (c # cs) s =
     (if ck_peerId c = '''' \<or> ck_passwordHash c = '''' \<or> (ck_peerId c, ck_claimedAt c) \<in> set (ls_processedClaims s)
      then catch_up_claims E now cs s
      else let r = applyRemoteClaim (se_ledger E) now (ck_peerId c) (ck_username c) (ck_displayName c) (ck_passwordHash c)
                     (ck_claimedAt c) (ck_balance c) True (ls_ledger s);
               s1 = s\<lparr>ls_processedClaims := sadd (ck_peerId c, ck_claimedAt c) (ls_processedClaims s), ls_ledger := fst r\<rparr>
           in case snd r of Inl _ \<Rightarrow> (s1, False) | Inr _ \<Rightarrow> catch_up_claims E now cs s1)"

definition catch_up_projects :: "ProjectRegistryRecord list \<Rightarrow> project_registry \<Rightarrow> project_registry" where
  "catch_up_projects rs pr =
     fold (\<lambda>r pr. if pj_projectId r = '''' \<or> pj_apiKeyHash r = '''' then pr else fst (applyRemoteRecord r pr)) rs pr"

definition finish_catch_up :: "sync_env \<Rightarrow> time \<Rightarrow> catch_up \<Rightarrow> ledger_sync \<Rightarrow> ledger_sync" where
  "finish_catch_up E now c s =
     (let s1 = (if 0 < cu_applied c then s\<lparr>ls_lastSyncTimestamp := now\<rparr> else s);
          r = (case cu_claims c of None \<Rightarrow> (s1, True) | Some cs \<Rightarrow> catch_up_claims E now cs s1)
      in if \<not> snd r then fst r
         else case (cu_projects c, ls_registry (fst r)) of
             (Some ps, Some pr) \<Rightarrow> (fst r)\<lparr>ls_registry := Some (catch_up_projects ps pr)\<rparr>
           | _ \<Rightarrow> fst r)"

text \<open>The loop up to the next transaction whose signature has to be awaited.\<close>

fun catch_up_loop :: "sync_env \<Rightarrow> time \<Rightarrow> catch_up \<Rightarrow> wire_tx list \<Rightarrow> ledger_sync \<Rightarrow> ledger_sync" where
  "catch_up_loop E now c [] s = finish_catch_up E now c s"
| "catch_up_loop E now c (w # ws) s =
     (if wt_id w = '''' \<or> wt_id w \<in> set (ls_processedTxs s) then catch_up_loop E now c ws s
      else let s1 = s\<lparr>ls_processedTxs := sadd (wt_id w) (ls_processedTxs s)\<rparr>
           in case validate_tx w of
             None \<Rightarrow> catch_up_loop E now c ws s1
           | Some tx \<Rightarrow> s1\<lparr>ls_jobs := ls_jobs s1 @ [CatchUpTx tx (verifyTxSignature E tx (ls_ledger s1)) (c\<lparr>cu_rest := ws\<rparr>)]\<rparr>)"

text \<open>When the transactions are missing but claims are present, iterating over \<^verbatim>\<open>undefined\<close> throws and the response
  is dropped.\<close>

definition sync_handleSyncResponse :: "sync_env \<Rightarrow> time \<Rightarrow> sync_response \<Rightarrow> ledger_sync \<Rightarrow> ledger_sync" where
  "sync_handleSyncResponse E now m s =
     (case sy_transactions m of
        None \<Rightarrow> s
      | Some txs \<Rightarrow> catch_up_loop E now
          \<lparr>cu_rest = [], cu_applied = 0, cu_claims = sy_claimedAccounts m, cu_projects = sy_projects m\<rparr> txs s)"

fun run_job :: "sync_env \<Rightarrow> time \<Rightarrow> sync_job \<Rightarrow> ledger_sync \<Rightarrow> ledger_sync" where
  "run_job E now (LiveTx tx sigResult) s = apply_live E now tx sigResult s"
| "run_job E now (CatchUpTx tx sigResult c) s =
     (let r = apply_catch_up E now tx sigResult s
      in catch_up_loop E now (c\<lparr>cu_applied := cu_applied c + (if snd r then 1 else 0)\<rparr>) (cu_rest c) (fst r))"

definition resume_job :: "sync_env \<Rightarrow> time \<Rightarrow> nat \<Rightarrow> ledger_sync \<Rightarrow> ledger_sync" where
  "resume_job E now i s =
     (if i < length (ls_jobs s)
      then run_job E now (ls_jobs s ! i) (s\<lparr>ls_jobs := take i (ls_jobs s) @ drop (Suc i) (ls_jobs s)\<rparr>) else s)"

section \<open>Claims and activity\<close>

definition handleIncomingClaim :: "sync_env \<Rightarrow> time \<Rightarrow> account_claim \<Rightarrow> ledger_sync \<Rightarrow> ledger_sync" where
  "handleIncomingClaim E now c s =
     (if ck_peerId c = '''' \<or> ck_passwordHash c = '''' \<or> (ck_peerId c, ck_claimedAt c) \<in> set (ls_processedClaims s) then s
      else s\<lparr>ls_processedClaims := sadd (ck_peerId c, ck_claimedAt c) (ls_processedClaims s),
             ls_ledger := fst (applyRemoteClaim (se_ledger E) now (ck_peerId c) (ck_username c) (ck_displayName c)
               (ck_passwordHash c) (ck_claimedAt c) (ck_balance c) False (ls_ledger s))\<rparr>)"

definition activity_complete :: "ActivityRecord \<Rightarrow> bool" where
  "activity_complete r = (act_agentId r \<noteq> '''' \<and> act_action r \<noteq> '''' \<and> act_summary r \<noteq> '''' \<and> act_signature r \<noteq> '''')"

definition handleIncomingActivity :: "time \<Rightarrow> ActivityRecord \<Rightarrow> ledger_sync \<Rightarrow> ledger_sync" where
  "handleIncomingActivity now r s =
     (if act_id r = '''' \<or> act_id r \<in> set (ls_processedActivities s) then s
      else let s1 = s\<lparr>ls_processedActivities := sadd (act_id r) (ls_processedActivities s)\<rparr>
           in if \<not> activity_complete r then s1 else s1\<lparr>ls_ledger := recordActivity now r (ls_ledger s1)\<rparr>)"

definition stores_activity :: "ActivityRecord \<Rightarrow> ledger_sync \<Rightarrow> bool" where
  "stores_activity r s = (act_id r \<noteq> '''' \<and> act_id r \<notin> set (ls_processedActivities s) \<and> activity_complete r)"

definition handleActivitySyncResponse :: "time \<Rightarrow> ActivityRecord list \<Rightarrow> ledger_sync \<Rightarrow> ledger_sync" where
  "handleActivitySyncResponse now records s =
     (let (s', applied) = fold (\<lambda>r (s, n). (handleIncomingActivity now r s, if stores_activity r s then n + 1 else n)) records (s, 0::nat)
      in if 0 < applied then s'\<lparr>ls_lastActivitySyncTimestamp := now\<rparr> else s')"

definition trim_set :: "nat \<Rightarrow> nat \<Rightarrow> 'a list \<Rightarrow> 'a list" where
  "trim_set bound keep xs = (if bound < length xs then lastn keep xs else xs)"

definition sync_cleanup :: "ledger_sync \<Rightarrow> ledger_sync" where
  "sync_cleanup s = s\<lparr>ls_processedTxs := trim_set 10000 5000 (ls_processedTxs s),
     ls_appliedTxs := trim_set 10000 5000 (ls_appliedTxs s),
     ls_processedActivities := trim_set 5000 2500 (ls_processedActivities s),
     ls_processedClaims := trim_set 5000 2500 (ls_processedClaims s)\<rparr>"

definition updateTotalSupply :: "time \<Rightarrow> number \<Rightarrow> ledger_sync \<Rightarrow> ledger_sync" where
  "updateTotalSupply now amount s =
     (if amount \<le> 0 then s
      else let d = ls_ledger s;
               updated = fdiv (Math_round (fmul (fadd (getStatNumber d ''total_supply'') amount) (10 ^ 8))) (10 ^ 8)
           in s\<lparr>ls_ledger := d\<lparr>db_stats := jupd ''total_supply'' (\<lambda>_. \<lparr>st_value = updated, st_updated_at = now\<rparr>) (db_stats d)\<rparr>\<rparr>)"

text \<open>The dispatchers of the two topics.\<close>

datatype sync_incoming =
    in_sync_request "time option" "nat option"
  | in_sync_response sync_response
  | in_account_claim account_claim
  | in_other_sync

fun handleSyncMessage :: "sync_env \<Rightarrow> time \<Rightarrow> sync_incoming \<Rightarrow> ledger_sync \<Rightarrow> ledger_sync" where
  "handleSyncMessage E now (in_sync_request since n) s = sync_handleSyncRequest since n s"
| "handleSyncMessage E now (in_sync_response m) s = sync_handleSyncResponse E now m s"
| "handleSyncMessage E now (in_account_claim c) s = handleIncomingClaim E now c s"
| "handleSyncMessage E now in_other_sync s = s"

datatype activity_incoming =
    in_activity_broadcast ActivityRecord
  | in_activity_sync_request "time option"
  | in_activity_sync_response "ActivityRecord list"
  | in_other_activity

fun handleActivityMessage :: "time \<Rightarrow> activity_incoming \<Rightarrow> ledger_sync \<Rightarrow> ledger_sync" where
  "handleActivityMessage now (in_activity_broadcast r) s = handleIncomingActivity now r s"
| "handleActivityMessage now (in_activity_sync_request since) s = handleActivitySyncRequest since s"
| "handleActivityMessage now (in_activity_sync_response rs) s = handleActivitySyncResponse now rs s"
| "handleActivityMessage now in_other_activity s = s"

section \<open>Steps\<close>

text \<open>What the rest of the node does to the shared ledger: it registers its accounts under the key in their
  peer id, transfers, rewards work and records activity.\<close>

inductive ledger_step :: "ledger_env \<Rightarrow> database \<Rightarrow> database \<Rightarrow> bool" for E where
  register: "env_extract_key E p = Some k \<Longrightarrow> ledger_step E d (fst (registerNode now p k d))"
| transfer: "transfer now h p q a relay d = Inr (d', tx) \<Longrightarrow> ledger_step E d d'"
| reward: "rewardWork now h p wt wp d = Inr (d', tx) \<Longrightarrow> ledger_step E d d'"
| activity: "ledger_step E d (recordActivity now r d)"

inductive sync_step :: "sync_env \<Rightarrow> ledger_sync \<Rightarrow> ledger_sync \<Rightarrow> bool" for E where
  receive: "sync_step E s (handleIncomingTransaction E w s)"
| resume: "sync_step E s (resume_job E now i s)"
| sync_message: "sync_step E s (handleSyncMessage E now m s)"
| activity_message: "sync_step E s (handleActivityMessage now a s)"
| send_tx: "sync_step E s (broadcastTransaction tx s)"
| send_claim: "sync_step E s (broadcastClaim c s)"
| send_activity: "sync_step E s (broadcastActivity r s)"
| ask: "sync_step E s (requestSyncFromPeers n s)"
| ask_peer: "sync_step E s (requestSync s)"
| ask_activity: "sync_step E s (requestActivitySync s)"
| tidy: "sync_step E s (sync_cleanup s)"
| local: "ledger_step (se_ledger E) (ls_ledger s) d \<Longrightarrow> sync_step E s (s\<lparr>ls_ledger := d\<rparr>)"
| projects: "sync_step E s (s\<lparr>ls_registry := r\<rparr>)"

inductive sync_reach :: "sync_env \<Rightarrow> ledger_sync \<Rightarrow> ledger_sync \<Rightarrow> bool" for E where
  start: "sync_reach E s s"
| further: "sync_reach E s s' \<Longrightarrow> sync_step E s' s'' \<Longrightarrow> sync_reach E s s''"

section \<open>Invariants of the ledger under synchronization\<close>

text \<open>The jobs and the callback log only depend on a few operations.\<close>

definition job_tx :: "sync_job \<Rightarrow> Transaction" where
  "job_tx j = (case j of LiveTx tx _ \<Rightarrow> tx | CatchUpTx tx _ _ \<Rightarrow> tx)"

definition job_sig :: "sync_job \<Rightarrow> bool option" where
  "job_sig j = (case j of LiveTx _ sg \<Rightarrow> sg | CatchUpTx _ sg _ \<Rightarrow> sg)"

lemma job_simps [simp]:
  "job_tx (LiveTx tx sg) = tx" "job_sig (LiveTx tx sg) = sg"
  "job_tx (CatchUpTx tx sg c) = tx" "job_sig (CatchUpTx tx sg c) = sg"
  by (simp_all add: job_tx_def job_sig_def)

lemma validate_tx_SomeD: "validate_tx w = Some tx \<Longrightarrow> 0 < tx_amount tx \<and> 0 \<le> tx_fee tx \<and> tx_id tx = wt_id w"
  by (auto simp: validate_tx_def split: option.splits if_splits)

lemma publish_frame [simp]:
  "ls_ledger (publish m s) = ls_ledger s" "ls_jobs (publish m s) = ls_jobs s" "ls_notified (publish m s) = ls_notified s"
  by (simp_all add: publish_def)

lemma send_frame [simp]:
  "ls_ledger (broadcastTransaction tx s) = ls_ledger s" "ls_jobs (broadcastTransaction tx s) = ls_jobs s"
  "ls_notified (broadcastTransaction tx s) = ls_notified s"
  "ls_ledger (broadcastClaim c s) = ls_ledger s" "ls_jobs (broadcastClaim c s) = ls_jobs s"
  "ls_notified (broadcastClaim c s) = ls_notified s"
  "ls_ledger (broadcastActivity r s) = ls_ledger s" "ls_jobs (broadcastActivity r s) = ls_jobs s"
  "ls_notified (broadcastActivity r s) = ls_notified s"
  "ls_ledger (requestSync s) = ls_ledger s" "ls_jobs (requestSync s) = ls_jobs s"
  "ls_notified (requestSync s) = ls_notified s"
  "ls_ledger (requestSyncFromPeers n s) = ls_ledger s" "ls_jobs (requestSyncFromPeers n s) = ls_jobs s"
  "ls_notified (requestSyncFromPeers n s) = ls_notified s"
  "ls_ledger (requestActivitySync s) = ls_ledger s" "ls_jobs (requestActivitySync s) = ls_jobs s"
  "ls_notified (requestActivitySync s) = ls_notified s"
  "ls_ledger (sync_handleSyncRequest t m s) = ls_ledger s" "ls_jobs (sync_handleSyncRequest t m s) = ls_jobs s"
  "ls_notified (sync_handleSyncRequest t m s) = ls_notified s"
  "ls_ledger (handleActivitySyncRequest t s) = ls_ledger s" "ls_jobs (handleActivitySyncRequest t s) = ls_jobs s"
  "ls_notified (handleActivitySyncRequest t s) = ls_notified s"
  "ls_ledger (sync_cleanup s) = ls_ledger s" "ls_jobs (sync_cleanup s) = ls_jobs s" "ls_notified (sync_cleanup s) = ls_notified s"
  by (simp_all add: broadcastTransaction_def broadcastClaim_def broadcastActivity_def requestSync_def
      requestSyncFromPeers_def requestActivitySync_def sync_handleSyncRequest_def handleActivitySyncRequest_def
      sync_cleanup_def Let_def)

lemma claims_frame [simp]:
  "ls_jobs (fst (catch_up_claims E now cs s)) = ls_jobs s" "ls_notified (fst (catch_up_claims E now cs s)) = ls_notified s"
  by (induction cs arbitrary: s) (simp_all add: Let_def split: sum.splits)

lemma finish_frame [simp]:
  "ls_jobs (finish_catch_up E now c s) = ls_jobs s" "ls_notified (finish_catch_up E now c s) = ls_notified s"
  by (simp_all add: finish_catch_up_def Let_def split: option.splits prod.splits)

lemma incoming_activity_frame [simp]:
  "ls_jobs (handleIncomingActivity now r s) = ls_jobs s" "ls_notified (handleIncomingActivity now r s) = ls_notified s"
  by (simp_all add: handleIncomingActivity_def Let_def)

text \<open>A response loops over single records.\<close>

lemma activity_response_ledger:
  "ls_ledger (handleActivitySyncResponse now rs s) = ls_ledger (fold (handleIncomingActivity now) rs s)"
  "ls_jobs (handleActivitySyncResponse now rs s) = ls_jobs s"
  "ls_notified (handleActivitySyncResponse now rs s) = ls_notified s"
proof -
  have "fst (fold (\<lambda>r (s, n). (handleIncomingActivity now r s, if stores_activity r s then n + 1 else n)) rs (s, n)) =
      fold (handleIncomingActivity now) rs s" for n :: nat
    by (induction rs arbitrary: s n) simp_all
  moreover have "ls_jobs (fold (handleIncomingActivity now) rs s) = ls_jobs s"
    "ls_notified (fold (handleIncomingActivity now) rs s) = ls_notified s"
    by (induction rs arbitrary: s) simp_all
  ultimately show "ls_ledger (handleActivitySyncResponse now rs s) = ls_ledger (fold (handleIncomingActivity now) rs s)"
    "ls_jobs (handleActivitySyncResponse now rs s) = ls_jobs s"
    "ls_notified (handleActivitySyncResponse now rs s) = ls_notified s"
    by (simp_all add: handleActivitySyncResponse_def split_beta)
qed

text \<open>A job enters the queue with the verdict on its signature at that moment and a positive amount.\<close>

definition queued_now :: "sync_env \<Rightarrow> database \<Rightarrow> sync_job \<Rightarrow> bool" where
  "queued_now E d j = (0 < tx_amount (job_tx j) \<and> job_sig j = verifyTxSignature E (job_tx j) d)"

lemma receive_frame:
  "ls_ledger (handleIncomingTransaction E w s) = ls_ledger s"
  "ls_notified (handleIncomingTransaction E w s) = ls_notified s"
  "j \<in> set (ls_jobs (handleIncomingTransaction E w s)) \<Longrightarrow> j \<in> set (ls_jobs s) \<or> queued_now E (ls_ledger s) j"
  using validate_tx_SomeD [of w]
  by (auto simp: handleIncomingTransaction_def Let_def queued_now_def split: option.splits if_splits)

lemma loop_notified [simp]: "ls_notified (catch_up_loop E now c ws s) = ls_notified s"
  by (induction ws arbitrary: s) (simp_all add: Let_def split: option.splits)

lemma loop_jobs:
  "j \<in> set (ls_jobs (catch_up_loop E now c ws s)) \<Longrightarrow> j \<in> set (ls_jobs s) \<or> queued_now E (ls_ledger s) j"
proof (induction ws arbitrary: s)
  case (Cons w ws)
  let ?s = "s\<lparr>ls_processedTxs := sadd (wt_id w) (ls_processedTxs s)\<rparr>"
  show ?case
    using Cons.prems Cons.IH [of s] Cons.IH [of ?s] validate_tx_SomeD [of w]
    by (cases "validate_tx w") (auto simp: Let_def queued_now_def split: if_splits)
qed simp

lemma apply_live_frame [simp]: "ls_jobs (apply_live E now tx sg s) = ls_jobs s"
  by (simp add: apply_live_def Let_def split: sum.splits)

lemma apply_catch_up_frame [simp]: "ls_jobs (fst (apply_catch_up E now tx sg s)) = ls_jobs s"
  by (simp add: apply_catch_up_def Let_def split: sum.splits)

lemma run_job_jobs:
  "j \<in> set (ls_jobs (run_job E now k s)) \<Longrightarrow> j \<in> set (ls_jobs s) \<or> 0 < tx_amount (job_tx j)"
  by (cases k) (auto simp: Let_def queued_now_def dest!: loop_jobs)

lemma sync_message_jobs:
  "j \<in> set (ls_jobs (handleSyncMessage E now m s)) \<Longrightarrow> j \<in> set (ls_jobs s) \<or> queued_now E (ls_ledger s) j"
  by (cases m) (auto simp: sync_handleSyncResponse_def handleIncomingClaim_def split: option.splits if_splits dest!: loop_jobs)

lemma activity_message_frame [simp]:
  "ls_jobs (handleActivityMessage now a s) = ls_jobs s" "ls_notified (handleActivityMessage now a s) = ls_notified s"
  by (cases a; simp add: activity_response_ledger)+

lemma sync_message_notified [simp]: "ls_notified (handleSyncMessage E now m s) = ls_notified s"
  by (cases m) (simp_all add: sync_handleSyncResponse_def handleIncomingClaim_def split: option.splits)

text \<open>
  The contract of a property of the ledger that every operation used here keeps. Whatever the network
  sends and in whatever order the awaited continuations run, the property then holds.
\<close>

locale ledger_invariant =
  fixes E :: sync_env and ok :: "database \<Rightarrow> bool"
  assumes ok_ensure: "ok d \<Longrightarrow> ok (ensure_account E now p d)"
    and ok_apply: "ok d \<Longrightarrow> 0 < tx_amount tx \<Longrightarrow> applyRemoteTransaction (se_ledger E) now tx d = Inr d' \<Longrightarrow> ok d'"
    and ok_claim: "ok d \<Longrightarrow> ok (fst (applyRemoteClaim (se_ledger E) now p u dn ph t bal adj d))"
    and ok_activity: "ok d \<Longrightarrow> ok (recordActivity now r d)"
    and ok_local: "ok d \<Longrightarrow> ledger_step (se_ledger E) d d' \<Longrightarrow> ok d'"
begin

lemma ok_live: "ok (ls_ledger s) \<Longrightarrow> 0 < tx_amount tx \<Longrightarrow> ok (ls_ledger (apply_live E now tx sg s))"
  by (auto simp: apply_live_def Let_def ok_ensure split: sum.splits intro: ok_apply [OF ok_ensure [OF ok_ensure]])

lemma ok_catch_up: "ok (ls_ledger s) \<Longrightarrow> 0 < tx_amount tx \<Longrightarrow> ok (ls_ledger (fst (apply_catch_up E now tx sg s)))"
  by (auto simp: apply_catch_up_def Let_def ok_ensure split: sum.splits intro: ok_apply [OF ok_ensure [OF ok_ensure]])

lemma ok_claims: "ok (ls_ledger s) \<Longrightarrow> ok (ls_ledger (fst (catch_up_claims E now cs s)))"
  by (induction cs arbitrary: s) (auto simp: Let_def ok_claim split: sum.splits)

lemma ok_finish: "ok (ls_ledger s) \<Longrightarrow> ok (ls_ledger (finish_catch_up E now c s))"
  using ok_claims by (auto simp: finish_catch_up_def Let_def split: option.splits)

lemma ok_loop: "ok (ls_ledger s) \<Longrightarrow> ok (ls_ledger (catch_up_loop E now c ws s))"
  by (induction ws arbitrary: s) (auto simp: Let_def ok_finish split: option.splits)

lemma ok_run: "ok (ls_ledger s) \<Longrightarrow> 0 < tx_amount (job_tx j) \<Longrightarrow> ok (ls_ledger (run_job E now j s))"
  by (cases j) (auto simp: Let_def ok_live intro!: ok_loop ok_catch_up)

lemma ok_one: "ok (ls_ledger s) \<Longrightarrow> ok (ls_ledger (handleIncomingActivity now r s))"
  by (simp add: handleIncomingActivity_def Let_def ok_activity)

lemma ok_activities: "ok (ls_ledger s) \<Longrightarrow> ok (ls_ledger (fold (handleIncomingActivity now) rs s))"
  by (induction rs arbitrary: s) (simp_all add: ok_one)

lemma ok_sync_message: "ok (ls_ledger s) \<Longrightarrow> ok (ls_ledger (handleSyncMessage E now m s))"
  by (cases m) (auto simp: sync_handleSyncResponse_def handleIncomingClaim_def ok_loop ok_claim split: option.splits)

lemma ok_activity_message: "ok (ls_ledger s) \<Longrightarrow> ok (ls_ledger (handleActivityMessage now a s))"
  by (cases a) (simp_all add: activity_response_ledger ok_activities ok_one)

lemma ok_step:
  assumes "sync_step E s s'" "ok (ls_ledger s)" "\<forall>j \<in> set (ls_jobs s). 0 < tx_amount (job_tx j)"
  shows "ok (ls_ledger s') \<and> (\<forall>j \<in> set (ls_jobs s'). 0 < tx_amount (job_tx j))"
  using assms
proof (induction rule: sync_step.induct)
  case (receive s w)
  then show ?case using receive_frame [where E = E and w = w and s = s] by (auto simp: queued_now_def)
next
  case (resume s now i)
  let ?s = "s\<lparr>ls_jobs := take i (ls_jobs s) @ drop (Suc i) (ls_jobs s)\<rparr>"
  have "set (ls_jobs ?s) \<subseteq> set (ls_jobs s)" using set_take_subset set_drop_subset by fastforce
  then have "j \<in> set (ls_jobs (run_job E now (ls_jobs s ! i) ?s)) \<Longrightarrow> 0 < tx_amount (job_tx j)" for j
    using resume.prems(2) run_job_jobs [where j = j and E = E and now = now and k = "ls_jobs s ! i" and s = ?s] by auto
  with resume show ?case using ok_run [of ?s] by (auto simp: resume_job_def)
next
  case (sync_message s now m)
  then show ?case using ok_sync_message [of s now m] sync_message_jobs [where E = E and now = now and m = m and s = s] by (auto simp: queued_now_def)
next
  case (activity_message s now a)
  then show ?case using ok_activity_message [of s now a] by simp
next
  case (local s d)
  then show ?case using ok_local by simp
qed simp_all

lemma ok_reach:
  assumes "sync_reach E s s'" "ok (ls_ledger s)" "ls_jobs s = []"
  shows "ok (ls_ledger s') \<and> (\<forall>j \<in> set (ls_jobs s'). 0 < tx_amount (job_tx j))"
  using assms by (induction rule: sync_reach.induct) (auto dest: ok_step)

end

section \<open>Keys\<close>

text \<open>Every account is stored with the key inside its peer id, or with a placeholder.\<close>

definition account_keys :: "database \<Rightarrow> (peer_id \<times> string) list" where
  "account_keys d = map (\<lambda>e. (fst e, ar_public_key (snd e))) (db_accounts d)"

definition keys_ok :: "ledger_env \<Rightarrow> database \<Rightarrow> bool" where
  "keys_ok E d = (\<forall>(p, k) \<in> set (account_keys d). k = '''' \<or> k \<in> set PLACEHOLDER_KEYS \<or> env_extract_key E p = Some k)"

lemma account_keys_cong: "db_accounts d = db_accounts d' \<Longrightarrow> account_keys d = account_keys d'"
  by (simp add: account_keys_def)

lemma account_keys_jupd:
  "(\<And>r. ar_public_key (f r) = ar_public_key r) \<Longrightarrow> account_keys (d\<lparr>db_accounts := jupd p f (db_accounts d)\<rparr>) = account_keys d"
  by (simp add: account_keys_def jupd_def split_beta)

lemma account_keys_balance [simp]:
  "account_keys (set_balance now p v d) = account_keys d"
  "account_keys (addBalance now p a d) = account_keys d"
  "account_keys (fst (subtractBalance now p a d)) = account_keys d"
  "account_keys (set_claim now p u dn ph d) = account_keys d"
  "account_keys (clear_claim now p d) = account_keys d"
  by (simp_all add: addBalance_def subtractBalance_def set_balance_def set_claim_def clear_claim_def account_keys_jupd)

lemma account_keys_frame [simp]:
  "account_keys (updateStat now key a acc d) = account_keys d"
  "account_keys (recorded tx d) = account_keys d"
  "account_keys (recordActivity now r d) = account_keys d"
  "account_keys (record_deficit F now p v d) = account_keys d"
  by (simp_all add: account_keys_def recorded_def recordActivity_def record_deficit_def Let_def)

lemma account_keys_moveRemote [simp]: "account_keys (moveRemote F now tx d) = account_keys d"
  by (simp add: moveRemote_def pay_relay_def forceSubtractBalance_def Let_def)

lemma account_keys_apply: "applyRemoteTransaction F now tx d = Inr d' \<Longrightarrow> account_keys d' = account_keys d"
  by (erule applyRemote_cases) (auto simp: doApply_Inr split: if_splits)

lemma keys_ok_cong: "account_keys d = account_keys d' \<Longrightarrow> keys_ok F d = keys_ok F d'"
  by (simp add: keys_ok_def)

lemma keys_ok_create:
  "keys_ok F d \<Longrightarrow> k \<in> set PLACEHOLDER_KEYS \<or> env_extract_key F p = Some k \<Longrightarrow> keys_ok F (fst (accounts_create now p k d))"
  by (auto simp: keys_ok_def account_keys_def accounts_create_def Let_def insert_or_ignore_def new_account_def)

lemma keys_ok_ensure: "keys_ok (se_ledger E) d \<Longrightarrow> keys_ok (se_ledger E) (ensure_account E now p d)"
  by (auto simp: ensure_account_def registerNode_def or_else_def truthy_def PLACEHOLDER_KEYS_def
      intro!: keys_ok_create split: option.splits)

lemma keys_ok_write_claim: "keys_ok F d \<Longrightarrow> keys_ok F (fst (write_remote_claim F now p u dn ph t d))"
  by (auto simp: write_remote_claim_def Let_def keys_ok_cong [OF account_keys_balance(4)] PLACEHOLDER_KEYS_def
      intro!: keys_ok_create split: option.splits)

lemma keys_ok_claim:
  assumes "keys_ok F d"
  shows "keys_ok F (fst (applyRemoteClaim F now p u dn ph t bal adj d))"
proof -
  have "keys_ok F (clear_claim now q d)" for q using assms keys_ok_cong [OF account_keys_balance(5)] by blast
  with assms show ?thesis by (auto simp: applyRemoteClaim_def keys_ok_write_claim split: option.splits)
qed

lemma account_keys_transfer: "transfer now h p q a relay d = Inr (d', tx) \<Longrightarrow> account_keys d' = account_keys d"
  using account_keys_cong [OF recordTransaction_frame(1)]
  by (auto simp: transfer_def Let_def pay_relay_def split: if_splits prod.splits sum.splits)

lemma account_keys_emit: "emit now h p a wt wp d = Inr (d', tx) \<Longrightarrow> account_keys d' = account_keys d"
  by (erule emit_InrD) (auto simp: account_keys_cong [OF recordTransaction_frame(1)] account_keys_cong [OF recordEmission_frame(1)])

lemma account_keys_local:
  assumes "ledger_step F d d'" "keys_ok F d"
  shows "keys_ok F d'"
  using assms
proof (induction rule: ledger_step.induct)
  case (register p k d now)
  then show ?case by (simp add: registerNode_def keys_ok_create)
next
  case (transfer now h p q a relay d d' tx)
  then show ?case using keys_ok_cong [OF account_keys_transfer] by blast
next
  case (reward now h p wt wp d d' tx)
  then show ?case using keys_ok_cong [OF account_keys_emit] by (auto simp: rewardWork_def split: if_splits)
next
  case (activity d now r)
  then show ?case using keys_ok_cong [OF account_keys_frame(3)] by blast
qed

interpretation keys: ledger_invariant E "keys_ok (se_ledger E)" for E
  by unfold_locales (auto intro: keys_ok_ensure keys_ok_claim account_keys_local
      simp: keys_ok_cong [OF account_keys_apply] keys_ok_cong [OF account_keys_frame(3)])

section \<open>Recorded transactions\<close>

lemma recorded_ensure [simp]: "db_transactions (ensure_account E now p d) = db_transactions d"
  by (simp add: ensure_account_def registerNode_def)

lemma recorded_apply:
  "applyRemoteTransaction F now tx d = Inr d' \<Longrightarrow> jhas (db_transactions d) i \<Longrightarrow> jhas (db_transactions d') i"
  by (erule applyRemote_cases) (auto simp: doApply_Inr recorded_def jhas_iff split: if_splits)

lemma recorded_transfer: "transfer now h p q a relay d = Inr (d', tx) \<Longrightarrow> jhas (db_transactions d) i \<Longrightarrow> jhas (db_transactions d') i"
  by (drule transfer_InrD(7), drule recordTransaction_frame(6)) (auto simp: jhas_iff)

lemma recorded_emit: "emit now h p a wt wp d = Inr (d', tx) \<Longrightarrow> jhas (db_transactions d) i \<Longrightarrow> jhas (db_transactions d') i"
  by (erule emit_InrD, drule recordTransaction_frame(6), drule recordEmission_frame(3)) (auto simp: jhas_iff)

lemma recorded_local: "ledger_step F d d' \<Longrightarrow> jhas (db_transactions d) i \<Longrightarrow> jhas (db_transactions d') i"
  by (induction rule: ledger_step.induct)
    (auto simp: registerNode_def rewardWork_def recordActivity_def Let_def split: if_splits
      intro: recorded_transfer recorded_emit)

lemma recorded_claim: "db_transactions (fst (applyRemoteClaim F now p u dn ph t bal adj d)) = db_transactions d"
  using applyRemoteClaim_frame [of F now p u dn ph t bal adj d] by (metis prod.collapse)

interpretation record_log: ledger_invariant E "\<lambda>d. jhas (db_transactions d) i" for E i
  by unfold_locales (auto intro: recorded_apply recorded_local simp: recorded_claim recordActivity_def Let_def)

section \<open>Money\<close>

definition money_ok :: "database \<Rightarrow> bool" where
  "money_ok d = (balances_nonneg d \<and> supply_within_cap d)"

lemma money_ok_create: "money_ok d \<Longrightarrow> money_ok (fst (accounts_create now p k d))"
  by (simp add: money_ok_def accounts_create_nonneg supply_within_cap_def getTotalSupply_def accounts_create_stat)

lemma nonneg_jupd:
  "(\<And>r. ar_balance (f r) = ar_balance r) \<Longrightarrow> balances_nonneg (d\<lparr>db_accounts := jupd p f (db_accounts d)\<rparr>) = balances_nonneg d"
  by (simp add: balances_nonneg_def jupd_def split_beta if_distrib) (auto simp: ball_Un)

lemma money_ok_set_claim: "money_ok (set_claim now p u dn ph d) = money_ok d" "money_ok (clear_claim now p d) = money_ok d"
  by (simp_all add: money_ok_def set_claim_def clear_claim_def nonneg_jupd supply_within_cap_def getTotalSupply_def getStatNumber_def)

lemma money_ok_write_claim: "money_ok d \<Longrightarrow> money_ok (fst (write_remote_claim F now p u dn ph t d))"
  by (simp add: write_remote_claim_def Let_def money_ok_set_claim money_ok_create)

lemma money_ok_claim: "money_ok d \<Longrightarrow> money_ok (fst (applyRemoteClaim F now p u dn ph t bal adj d))"
  by (auto simp: applyRemoteClaim_def money_ok_set_claim money_ok_write_claim split: option.splits)

lemma money_ok_activity: "money_ok (recordActivity now r d) = money_ok d"
  by (simp add: money_ok_def recordActivity_def Let_def balances_nonneg_def supply_within_cap_def getTotalSupply_def getStatNumber_def)

lemma money_ok_local:
  assumes "ledger_step F d d'" "money_ok d"
  shows "money_ok d'"
  using assms
proof (induction rule: ledger_step.induct)
  case (transfer now h p q a relay d d' tx)
  then show ?case using transfer_nonneg transfer_supply [OF transfer.hyps] by (auto simp: money_ok_def supply_within_cap_def)
next
  case (reward now h p wt wp d d' tx)
  then show ?case using emit_nonneg emit_supply by (auto simp: money_ok_def rewardWork_def split: if_splits)
qed (simp_all add: registerNode_def money_ok_create money_ok_activity)

lemma money_ok_apply:
  "money_ok d \<Longrightarrow> 0 < tx_amount tx \<Longrightarrow> applyRemoteTransaction F now tx d = Inr d' \<Longrightarrow> money_ok d'"
  using applyRemote_nonneg [of d tx F now d'] by (simp add: money_ok_def)

interpretation money: ledger_invariant E money_ok for E
  by unfold_locales (auto intro: money_ok_claim money_ok_local money_ok_apply
      simp: money_ok_activity ensure_account_def registerNode_def money_ok_create)

section \<open>Signed transfers\<close>

text \<open>The signature of a transaction verifies under the key inside the sender's peer id.\<close>

definition signed_by_sender :: "sync_env \<Rightarrow> Transaction \<Rightarrow> bool" where
  "signed_by_sender E tx = (\<exists>k raw. env_extract_key (se_ledger E) (tx_from tx) = Some k \<and> se_decode_base64 E k = Some raw \<and>
     se_ed25519 E (canonicalTransactionBytes E tx) (tx_signature tx) raw)"

lemma sender_key_extracted:
  "keys_ok (se_ledger E) d \<Longrightarrow> sender_key E d p = Some k \<Longrightarrow> env_extract_key (se_ledger E) p = Some k"
  by (fastforce simp: sender_key_def stored_key_def keys_ok_def account_keys_def
      split: option.splits if_splits dest!: jget_SomeD)

lemma verdict_sound: "keys_ok (se_ledger E) d \<Longrightarrow> verifyTxSignature E tx d = Some True \<Longrightarrow> signed_by_sender E tx"
  by (auto simp: verifyTxSignature_def verifyTransactionSignature_def signed_by_sender_def
      split: if_splits option.splits dest!: sender_key_extracted)

definition vetted :: "sync_env \<Rightarrow> ledger_sync \<Rightarrow> bool" where
  "vetted E s = (keys_ok (se_ledger E) (ls_ledger s) \<and>
     (\<forall>j \<in> set (ls_jobs s). 0 < tx_amount (job_tx j) \<and> (job_sig j = Some True \<longrightarrow> signed_by_sender E (job_tx j))) \<and>
     (\<forall>tx \<in> set (ls_notified s). tx_type tx = TRANSFER \<longrightarrow> signed_by_sender E tx))"

lemma queued_vetted:
  "keys_ok (se_ledger E) d \<Longrightarrow> queued_now E d j \<Longrightarrow> job_sig j = Some True \<longrightarrow> signed_by_sender E (job_tx j)"
  using verdict_sound by (auto simp: queued_now_def)

lemma live_notified: "tx' \<in> set (ls_notified (apply_live E now tx sg s)) \<Longrightarrow>
    tx' \<in> set (ls_notified s) \<or> tx' = tx \<and> (tx_type tx = TRANSFER \<longrightarrow> sg = Some True)"
  by (auto simp: apply_live_def Let_def sig_refused_def split: if_splits sum.splits)

lemma catch_up_notified: "tx' \<in> set (ls_notified (fst (apply_catch_up E now tx sg s))) \<Longrightarrow>
    tx' \<in> set (ls_notified s) \<or> tx' = tx \<and> (tx_type tx = TRANSFER \<longrightarrow> sg = Some True)"
  by (auto simp: apply_catch_up_def Let_def sig_refused_def split: if_splits sum.splits)

lemma run_notified: "tx' \<in> set (ls_notified (run_job E now j s)) \<Longrightarrow>
    tx' \<in> set (ls_notified s) \<or> tx' = job_tx j \<and> (tx_type (job_tx j) = TRANSFER \<longrightarrow> job_sig j = Some True)"
  by (cases j) (auto simp: Let_def dest!: live_notified catch_up_notified)

lemma run_job_queue:
  assumes "keys_ok (se_ledger E) (ls_ledger s)" "0 < tx_amount (job_tx k)"
  shows "j \<in> set (ls_jobs (run_job E now k s)) \<Longrightarrow> j \<in> set (ls_jobs s) \<or>
    0 < tx_amount (job_tx j) \<and> (job_sig j = Some True \<longrightarrow> signed_by_sender E (job_tx j))"
proof (cases k)
  case (CatchUpTx tx sg c)
  have "keys_ok (se_ledger E) (ls_ledger (fst (apply_catch_up E now tx sg s)))"
    using assms CatchUpTx by (intro keys.ok_catch_up) simp_all
  then show "j \<in> set (ls_jobs (run_job E now k s)) \<Longrightarrow> ?thesis"
    using CatchUpTx queued_vetted by (fastforce simp: Let_def queued_now_def dest!: loop_jobs)
qed simp

lemma vetted_run:
  assumes "vetted E s" "j \<in> set js" "\<forall>j \<in> set js. 0 < tx_amount (job_tx j) \<and> (job_sig j = Some True \<longrightarrow> signed_by_sender E (job_tx j))"
  shows "vetted E (run_job E now j s)"
proof -
  have k: "keys_ok (se_ledger E) (ls_ledger s)" and a: "0 < tx_amount (job_tx j)" using assms by (auto simp: vetted_def)
  have "keys_ok (se_ledger E) (ls_ledger (run_job E now j s))" using k a by (rule keys.ok_run)
  then show ?thesis using assms run_notified [of _ E now j s] run_job_queue [OF k a]
    unfolding vetted_def by blast
qed

lemma vetted_step:
  assumes "sync_step E s s'" "vetted E s"
  shows "vetted E s'"
proof -
  have k: "keys_ok (se_ledger E) (ls_ledger s')"
    using keys.ok_step [OF assms(1)] assms(2) by (auto simp: vetted_def)
  show ?thesis using assms k
  proof (cases rule: sync_step.cases)
    case (receive w)
    then show ?thesis using assms(2) k receive_frame [where E = E and w = w and s = s] queued_vetted
      by (fastforce simp: vetted_def queued_now_def)
  next
    case (resume now i)
    let ?s = "s\<lparr>ls_jobs := take i (ls_jobs s) @ drop (Suc i) (ls_jobs s)\<rparr>"
    have "vetted E ?s" using assms(2) set_take_subset set_drop_subset by (fastforce simp: vetted_def)
    then show ?thesis using resume assms(2) vetted_run [where js = "ls_jobs s"]
      by (simp add: resume_job_def vetted_def [of E s])
  next
    case (sync_message now m)
    then show ?thesis using assms(2) k sync_message_jobs [where E = E and now = now and m = m and s = s] queued_vetted
      by (fastforce simp: vetted_def queued_now_def)
  qed (auto simp: vetted_def)
qed

lemma vetted_reach: "sync_reach E s s' \<Longrightarrow> vetted E s \<Longrightarrow> vetted E s'"
  by (induction rule: sync_reach.induct) (auto intro: vetted_step)


definition demo_sync_env :: sync_env where
  "demo_sync_env = \<lparr>se_ledger = demo_env, se_number_text = (\<lambda>x. if x = 7 then ''7'' else ''0''), se_decode_base64 = Some,
     se_ed25519 = (\<lambda>data sig key. sig = key @ ''/'' @ data)\<rparr>"

text \<open>A transfer of 7 Lux, with a genuine or a forged signature, and an unsigned emission.\<close>

definition gift :: "string \<Rightarrow> wire_tx" where
  "gift sig = \<lparr>wt_id = ''g1'', wt_from = ''dave'', wt_to = ''bob'', wt_amount = Some 7, wt_fee = None, wt_relay = None,
     wt_type = TRANSFER, wt_timestamp = 0, wt_signature = sig\<rparr>"

definition good_sig :: string where
  "good_sig = ''key-dave/g1:dave:bob:7:0::transfer:0''"

definition keyed_db :: database where
  "keyed_db = fst (accounts_create 11 ''bob'' ''key-bob'' (openDatabase 0 empty_database))"

definition after_gift :: "string \<Rightarrow> ledger_sync" where
  "after_gift sig = resume_job demo_sync_env 50 0 (handleIncomingTransaction demo_sync_env (gift sig) (LedgerSync_init 20 keyed_db ''me''))"


section \<open>Replays and forgeries\<close>

lemma ensure_money [simp]:
  "getBalance (ensure_account E now p d) q = getBalance d q"
  "getTotalSupply (ensure_account E now p d) = getTotalSupply d"
  by (simp_all add: ensure_account_def registerNode_def getTotalSupply_def accounts_create_stat)

text \<open>What a continuation does to balances and supply when the transaction is already recorded.\<close>

definition same_funds :: "database \<Rightarrow> database \<Rightarrow> bool" where
  "same_funds d d' = ((\<forall>p. getBalance d' p = getBalance d p) \<and> getTotalSupply d' = getTotalSupply d \<and>
     db_transactions d' = db_transactions d)"

lemma live_replay:
  "jhas (db_transactions (ls_ledger s)) (tx_id tx) \<Longrightarrow> same_funds (ls_ledger s) (ls_ledger (apply_live E now tx sg s))"
  by (auto simp: apply_live_def Let_def same_funds_def applyRemote_known split: sum.splits)

lemma catch_up_replay:
  "jhas (db_transactions (ls_ledger s)) (tx_id tx) \<Longrightarrow> same_funds (ls_ledger s) (ls_ledger (fst (apply_catch_up E now tx sg s)))"
  by (auto simp: apply_catch_up_def Let_def same_funds_def applyRemote_known split: sum.splits)

text \<open>A transaction moves money at most once. Once an id is in the transaction table it stays there through
  every sequence of messages, clean-ups and local operations, and from then on applying any transaction with that id, live or
  during catch-up, changes no balance, no supply and no record, even though the in-memory sets of processed ids are
  trimmed and forget it.\<close>

lemma replay_is_harmless:
  assumes "sync_reach E s s'" and "jhas (db_transactions (ls_ledger s)) (tx_id tx)" and "ls_jobs s = []"
  shows "jhas (db_transactions (ls_ledger s')) (tx_id tx) \<and>
    same_funds (ls_ledger s') (ls_ledger (apply_live E now tx sg s')) \<and>
    same_funds (ls_ledger s') (ls_ledger (fst (apply_catch_up E now tx sg s')))"
  using record_log.ok_reach [OF assms] live_replay catch_up_replay by simp

definition replayed :: Transaction where
  "replayed = \<lparr>tx_id = ''g1'', tx_from = ''dave'', tx_to = ''bob'', tx_amount = 7, tx_fee = 0, tx_relay = None,
     tx_type = TRANSFER, tx_timestamp = 0, tx_signature = good_sig\<rparr>"

lemma replay_is_harmless_witness:
  "getBalance (ls_ledger (sync_cleanup (after_gift good_sig))) ''bob'' = 7 \<and>
   getBalance (ls_ledger (apply_live demo_sync_env 90 replayed (Some True) (sync_cleanup (after_gift good_sig)))) ''bob'' = 7"
proof -
  have "sync_reach demo_sync_env (after_gift good_sig) (sync_cleanup (after_gift good_sig))"
    by (rule sync_reach.further [OF sync_reach.start sync_step.tidy])
  moreover have "jhas (db_transactions (ls_ledger (after_gift good_sig))) (tx_id replayed)" "ls_jobs (after_gift good_sig) = []"
    "getBalance (ls_ledger (sync_cleanup (after_gift good_sig))) ''bob'' = 7" by code_simp+
  ultimately show ?thesis
    using replay_is_harmless [of demo_sync_env "after_gift good_sig" "sync_cleanup (after_gift good_sig)" replayed 90 "Some True"]
    by (auto simp: same_funds_def)
qed



definition forged_emission :: wire_tx where
  "forged_emission = \<lparr>wt_id = ''f1'', wt_from = ''NETWORK'', wt_to = ''bob'', wt_amount = Some 1000000, wt_fee = None,
     wt_relay = None, wt_type = EMISSION, wt_timestamp = 5, wt_signature = ''''\<rparr>"

text \<open>Emissions are taken on trust. Signature verification is skipped for a record of type emission and nothing
  ties it to a witnessed proposal, so a peer that broadcasts one unsigned record credits a million Lux to an account of
  its choice and raises the recorded supply by as much.\<close>

lemma unsigned_emission_is_minted:
  "(let s = resume_job demo_sync_env 50 0 (handleIncomingTransaction demo_sync_env forged_emission (LedgerSync_init 20 keyed_db ''me''))
    in getBalance (ls_ledger s) ''bob'' = 1000000 \<and> getTotalSupply (ls_ledger s) = 1000000 \<and> length (ls_notified s) = 1)"
  by code_simp

end
