(* ===== verification/EmissionWitness.thy ===== *)
theory EmissionWitness
  imports LedgerSync
begin

text \<open>
  \<^verbatim>\<open>EmissionWitness\<close> (\<^verbatim>\<open>packages/node/src/kernel/emission-witness.ts\<close>): Lux for work is minted only after
  other nodes have attested the proposal. Proposal objects are shared between the pending map, the history
  and running handlers, so they live in a store \<open>ew_objects\<close> and are referred to by their index.

  \<^verbatim>\<open>propose\<close> awaits the broadcast and \<^verbatim>\<open>attestProposal\<close> awaits the signature; what follows the await is a job in
  \<open>ew_jobs\<close> that \<open>resume_witness\<close> runs at any later time. An incoming attestation is verified before any state is read, so
  its handler is one step. The callback that mints, Ed25519 and the view of the network are parameters; random
  ids and transaction hashes are arguments. The date string of the daily counters is represented by the number of
  the day, \<open>None\<close> before the first use.
\<close>

section \<open>Data\<close>

record WitnessAttestation =
  wa_witnessPeerId :: peer_id
  wa_proposalId :: string
  wa_approved :: bool
  wa_signature :: string
  wa_timestamp :: time

datatype emission_status = es_pending | es_approved | es_rejected | es_expired

record EmissionProposal =
  ep_id :: string
  ep_peerId :: peer_id
  ep_workType :: WorkType
  ep_workProof :: string
  ep_amount :: number
  ep_timestamp :: time
  ep_expiresAt :: time
  ep_status :: emission_status
  ep_witnesses :: "WitnessAttestation list"
  ep_finalizedAt :: "time option"
  ep_transactionId :: "string option"

record EmissionStats =
  sx_totalProposals :: int
  sx_totalApproved :: int
  sx_totalRejected :: int
  sx_totalExpired :: int
  sx_pendingCount :: nat
  sx_totalLuxEmitted :: number
  sx_proposalsThisHour :: nat
  sx_rateLimitPerHour :: nat
  sx_quorumRequired :: nat
  sx_bootstrapFallback :: bool

datatype EmissionGossipMessage = gossip_proposal EmissionProposal | gossip_attestation WitnessAttestation | gossip_other

definition PROPOSAL_TIMEOUT_MS :: time where "PROPOSAL_TIMEOUT_MS = 5 * 60 * 1000"
definition RATE_LIMIT_PER_HOUR :: nat where "RATE_LIMIT_PER_HOUR = 10"
definition RATE_LIMIT_WINDOW_MS :: time where "RATE_LIMIT_WINDOW_MS = 60 * 60 * 1000"
definition QUORUM_REQUIRED :: nat where "QUORUM_REQUIRED = 2"
definition BOOTSTRAP_NODE_THRESHOLD :: nat where "BOOTSTRAP_NODE_THRESHOLD = 3"
definition EW_MAX_HISTORY :: nat where "EW_MAX_HISTORY = 500"
definition BOOTSTRAP_DAILY_CAP :: number where "BOOTSTRAP_DAILY_CAP = 50"
definition DAY_MS :: time where "DAY_MS = 24 * 60 * 60 * 1000"

text \<open>What follows an await: the bootstrap check of \<^verbatim>\<open>propose\<close>, and the recording of an own attestation with
  its signature.\<close>

datatype witness_job = FinishPropose nat | FinishAttest nat string bool string

record 's emission_witness =
  ew_localPeerId :: peer_id
  ew_ledger :: 's
  ew_objects :: "EmissionProposal list"
  ew_pending :: "(string, nat) jsmap"
  ew_history :: "nat list"
  ew_rateLimits :: "(peer_id, time list) jsmap"
  ew_ratesFile :: "(peer_id, nat \<times> time) jsmap option"
  ew_processedAttestations :: "string list"
  ew_locallyProposed :: "string list"
  ew_totalApproved :: int
  ew_totalRejected :: int
  ew_totalExpired :: int
  ew_totalLuxEmitted :: number
  ew_dailyEmittedLux :: number
  ew_dailyEmittedDate :: "int option"
  ew_dailyBootstrapLux :: number
  ew_dailyBootstrapDate :: "int option"
  ew_jobs :: "witness_job list"
  ew_published :: "EmissionGossipMessage list"
  ew_proposed :: "nat list"
  ew_emitCalls :: "nat list"

text \<open>\<open>ew_proposed\<close> lists the objects \<^verbatim>\<open>propose\<close> created and \<open>ew_emitCalls\<close> those the minting callback was called for.\<close>

datatype emit_result = Minted Transaction | NotMinted | EmitThrew

type_synonym 's emit_callback = "time \<Rightarrow> string \<Rightarrow> peer_id \<Rightarrow> WorkType \<Rightarrow> string \<Rightarrow> 's \<Rightarrow> 's \<times> emit_result"

record attestation_message =
  am_from :: peer_id
  am_timestamp :: time
  am_proposalId :: string
  am_approved :: bool
  am_witnessPeerId :: peer_id

record 's witness_env =
  we_emit :: "'s emit_callback option"
  we_publicKey :: "peer_id \<Rightarrow> string option"
  we_verify :: "attestation_message \<Rightarrow> string \<Rightarrow> string \<Rightarrow> bool"
  we_sign :: "attestation_message \<Rightarrow> string"

record network_view =
  nv_peerCount :: nat
  nv_peers :: "peer_id list"

definition net_peerCount :: "network_view option \<Rightarrow> nat" where
  "net_peerCount net = (case net of None \<Rightarrow> 0 | Some v \<Rightarrow> nv_peerCount v)"

definition net_peers :: "network_view option \<Rightarrow> peer_id list" where
  "net_peers net = (case net of None \<Rightarrow> [] | Some v \<Rightarrow> nv_peers v)"

section \<open>Daily caps\<close>

definition getTodayStr :: "time \<Rightarrow> int option" where
  "getTodayStr now = Some (now div DAY_MS)"

definition resetDailyCountersIfNeeded :: "time \<Rightarrow> 's emission_witness \<Rightarrow> 's emission_witness" where
  "resetDailyCountersIfNeeded now w =
     (let today = getTodayStr now;
          w1 = (if ew_dailyEmittedDate w \<noteq> today then w\<lparr>ew_dailyEmittedLux := 0, ew_dailyEmittedDate := today\<rparr> else w)
      in if ew_dailyBootstrapDate w1 \<noteq> today then w1\<lparr>ew_dailyBootstrapLux := 0, ew_dailyBootstrapDate := today\<rparr> else w1)"

definition wouldExceedDailyCap :: "time \<Rightarrow> number \<Rightarrow> 's emission_witness \<Rightarrow> 's emission_witness \<times> bool" where
  "wouldExceedDailyCap now amount w =
     (let w1 = resetDailyCountersIfNeeded now w in (w1, DAILY_EMISSION_CAP < fadd (ew_dailyEmittedLux w1) amount))"

definition wouldExceedBootstrapCap :: "time \<Rightarrow> number \<Rightarrow> 's emission_witness \<Rightarrow> 's emission_witness \<times> bool" where
  "wouldExceedBootstrapCap now amount w =
     (let w1 = resetDailyCountersIfNeeded now w in (w1, BOOTSTRAP_DAILY_CAP < fadd (ew_dailyBootstrapLux w1) amount))"

definition recordDailyEmission :: "time \<Rightarrow> number \<Rightarrow> bool \<Rightarrow> 's emission_witness \<Rightarrow> 's emission_witness" where
  "recordDailyEmission now amount isBootstrap w =
     (let w1 = resetDailyCountersIfNeeded now w;
          w2 = w1\<lparr>ew_dailyEmittedLux := fadd (ew_dailyEmittedLux w1) amount\<rparr>
      in if isBootstrap then w2\<lparr>ew_dailyBootstrapLux := fadd (ew_dailyBootstrapLux w2) amount\<rparr> else w2)"

section \<open>Work proofs\<close>

definition js_space :: "char \<Rightarrow> bool" where
  "js_space c = (let n = of_char c :: nat in (9 \<le> n \<and> n \<le> 13) \<or> n = 32 \<or> n = 160)"

definition js_trim :: "string \<Rightarrow> string" where
  "js_trim s = rev (dropWhile js_space (rev (dropWhile js_space s)))"

definition is_digit :: "char \<Rightarrow> bool" where
  "is_digit c = (let n = of_char c :: nat in 48 \<le> n \<and> n \<le> 57)"

definition is_hex :: "char \<Rightarrow> bool" where
  "is_hex c = (let n = of_char c :: nat in is_digit c \<or> (97 \<le> n \<and> n \<le> 102) \<or> (65 \<le> n \<and> n \<le> 70))"

text \<open>\<^verbatim>\<open>/[0-9a-f]{8,}/i\<close> and \<^verbatim>\<open>/^uptime epoch \d+/\<close>\<close>

fun WORK_PROOF_ID_PATTERN :: "string \<Rightarrow> bool" where
  "WORK_PROOF_ID_PATTERN [] = False"
| "WORK_PROOF_ID_PATTERN (c # cs) = (8 \<le> length (takeWhile is_hex (c # cs)) \<or> WORK_PROOF_ID_PATTERN cs)"

definition SYSTEM_PROOF_PATTERN :: "string \<Rightarrow> bool" where
  "SYSTEM_PROOF_PATTERN s = (take 13 s = ''uptime epoch '' \<and> (case drop 13 s of [] \<Rightarrow> False | c # _ \<Rightarrow> is_digit c))"

datatype proof_error = proof_empty | proof_too_short | proof_without_id

definition validateWorkProof :: "string \<Rightarrow> proof_error option" where
  "validateWorkProof s =
     (if js_trim s = [] then Some proof_empty
      else if length (js_trim s) < 8 then Some proof_too_short
      else if \<not> WORK_PROOF_ID_PATTERN s \<and> \<not> SYSTEM_PROOF_PATTERN s then Some proof_without_id
      else None)"

section \<open>Rate limits\<close>

definition recent :: "time \<Rightarrow> time list \<Rightarrow> time list" where
  "recent now ts = filter (\<lambda>t. now - t < RATE_LIMIT_WINDOW_MS) ts"

definition timestamps_of :: "'s emission_witness \<Rightarrow> peer_id \<Rightarrow> time list" where
  "timestamps_of w p = (case jget (ew_rateLimits w) p of None \<Rightarrow> [] | Some ts \<Rightarrow> ts)"

definition checkRateLimit :: "time \<Rightarrow> peer_id \<Rightarrow> 's emission_witness \<Rightarrow> bool" where
  "checkRateLimit now p w = (length (recent now (timestamps_of w p)) < RATE_LIMIT_PER_HOUR)"

definition saveRateLimits :: "time \<Rightarrow> 's emission_witness \<Rightarrow> 's emission_witness" where
  "saveRateLimits now w =
     w\<lparr>ew_ratesFile := Some (map (\<lambda>(p, ts). (p, length (recent now ts), Min (set (recent now ts))))
         (filter (\<lambda>(p, ts). recent now ts \<noteq> []) (ew_rateLimits w)))\<rparr>"

definition recordProposal :: "time \<Rightarrow> peer_id \<Rightarrow> 's emission_witness \<Rightarrow> 's emission_witness" where
  "recordProposal now p w =
     saveRateLimits now (w\<lparr>ew_rateLimits := jset p (recent now (timestamps_of w p) @ [now]) (ew_rateLimits w)\<rparr>)"

definition loadRateLimits :: "time \<Rightarrow> (peer_id, nat \<times> time) jsmap option \<Rightarrow> (peer_id, time list) jsmap" where
  "loadRateLimits now f =
     (case f of
        None \<Rightarrow> []
      | Some entries \<Rightarrow> fold (\<lambda>(p, n, t0) m. if now - t0 < RATE_LIMIT_WINDOW_MS
            then jset p (map (\<lambda>i. t0 + int i) [0..<n]) m else m) entries [])"

definition EmissionWitness_init :: "time \<Rightarrow> peer_id \<Rightarrow> 's \<Rightarrow> (peer_id, nat \<times> time) jsmap option \<Rightarrow> 's emission_witness" where
  "EmissionWitness_init now self s f =
     \<lparr>ew_localPeerId = self, ew_ledger = s, ew_objects = [], ew_pending = [], ew_history = [],
      ew_rateLimits = loadRateLimits now f, ew_ratesFile = f, ew_processedAttestations = [], ew_locallyProposed = [],
      ew_totalApproved = 0, ew_totalRejected = 0, ew_totalExpired = 0, ew_totalLuxEmitted = 0, ew_dailyEmittedLux = 0,
      ew_dailyEmittedDate = None, ew_dailyBootstrapLux = 0, ew_dailyBootstrapDate = None, ew_jobs = [],
      ew_published = [], ew_proposed = [], ew_emitCalls = []\<rparr>"

section \<open>Finalization\<close>

definition obj :: "'s emission_witness \<Rightarrow> nat \<Rightarrow> EmissionProposal" where
  "obj w i = ew_objects w ! i"

definition upd_obj :: "nat \<Rightarrow> (EmissionProposal \<Rightarrow> EmissionProposal) \<Rightarrow> 's emission_witness \<Rightarrow> 's emission_witness" where
  "upd_obj i f w = w\<lparr>ew_objects := (ew_objects w)[i := f (ew_objects w ! i)]\<rparr>"

text \<open>Moving a proposal from pending to history.\<close>

definition to_history :: "nat \<Rightarrow> 's emission_witness \<Rightarrow> 's emission_witness" where
  "to_history i w =
     (let h = ew_history w @ [i] in
      w\<lparr>ew_pending := jdel (ep_id (obj w i)) (ew_pending w), ew_locallyProposed := sdel (ep_id (obj w i)) (ew_locallyProposed w),
        ew_history := (if EW_MAX_HISTORY < length h then tl h else h)\<rparr>)"

definition apply_emit_result :: "time \<Rightarrow> nat \<Rightarrow> bool \<Rightarrow> emit_result \<Rightarrow> 's emission_witness \<Rightarrow> 's emission_witness" where
  "apply_emit_result now i isBootstrap r w =
     (case r of
        Minted tx \<Rightarrow> recordDailyEmission now (tx_amount tx) isBootstrap
          ((upd_obj i (\<lambda>p. p\<lparr>ep_amount := tx_amount tx, ep_transactionId := Some (tx_id tx)\<rparr>) w)
             \<lparr>ew_totalLuxEmitted := fadd (ew_totalLuxEmitted w) (tx_amount tx)\<rparr>)
      | NotMinted \<Rightarrow> w
      | EmitThrew \<Rightarrow> (upd_obj i (\<lambda>p. p\<lparr>ep_status := es_rejected\<rparr>) w)
          \<lparr>ew_totalApproved := ew_totalApproved w - 1, ew_totalRejected := ew_totalRejected w + 1\<rparr>)"

definition call_emit :: "'s witness_env \<Rightarrow> time \<Rightarrow> string \<Rightarrow> nat \<Rightarrow> bool \<Rightarrow> 's emission_witness \<Rightarrow> 's emission_witness" where
  "call_emit V now hash i isBootstrap w =
     (case we_emit V of
        None \<Rightarrow> w
      | Some cb \<Rightarrow>
          if ep_id (obj w i) \<notin> set (ew_locallyProposed w) then w
          else let p = obj w i; r = cb now hash (ep_peerId p) (ep_workType p) (ep_workProof p) (ew_ledger w)
               in apply_emit_result now i isBootstrap (snd r)
                    (w\<lparr>ew_ledger := fst r, ew_emitCalls := ew_emitCalls w @ [i]\<rparr>))"

definition finalizeProposal :: "'s witness_env \<Rightarrow> time \<Rightarrow> string \<Rightarrow> nat \<Rightarrow> bool \<Rightarrow> 's emission_witness \<Rightarrow> 's emission_witness" where
  "finalizeProposal V now hash i isBootstrap w =
     (if ep_status (obj w i) \<noteq> es_pending then w
      else let (w0, exceeds) = wouldExceedDailyCap now 25 w in
        if exceeds
        then to_history i ((upd_obj i (\<lambda>p. p\<lparr>ep_status := es_rejected\<rparr>) w0)\<lparr>ew_totalRejected := ew_totalRejected w0 + 1\<rparr>)
        else to_history i (call_emit V now hash i isBootstrap
               ((upd_obj i (\<lambda>p. p\<lparr>ep_status := es_approved, ep_finalizedAt := Some now\<rparr>) w0)
                  \<lparr>ew_totalApproved := ew_totalApproved w0 + 1\<rparr>)))"

definition approvals :: "EmissionProposal \<Rightarrow> nat" where
  "approvals p = length (filter wa_approved (ep_witnesses p))"

text \<open>Adding an attestation to a proposal and finalizing it when the quorum is reached.\<close>

definition add_attestation :: "'s witness_env \<Rightarrow> time \<Rightarrow> string \<Rightarrow> nat \<Rightarrow> WitnessAttestation \<Rightarrow> 's emission_witness \<Rightarrow> 's emission_witness" where
  "add_attestation V now hash i a w =
     (let w1 = upd_obj i (\<lambda>p. p\<lparr>ep_witnesses := ep_witnesses p @ [a]\<rparr>) w in
      if QUORUM_REQUIRED \<le> approvals (obj w1 i) \<and> ep_status (obj w1 i) = es_pending
      then finalizeProposal V now hash i False w1 else w1)"

section \<open>Proposing\<close>

definition publish_gossip :: "network_view option \<Rightarrow> EmissionGossipMessage \<Rightarrow> 's emission_witness \<Rightarrow> 's emission_witness" where
  "publish_gossip net m w = (if net = None then w else w\<lparr>ew_published := ew_published w @ [m]\<rparr>)"

definition propose_allowed :: "time \<Rightarrow> network_view option \<Rightarrow> peer_id \<Rightarrow> string \<Rightarrow> 's emission_witness \<Rightarrow> bool" where
  "propose_allowed now net p workProof w =
     (validateWorkProof workProof = None \<and> checkRateLimit now p w \<and>
      \<not> (p \<noteq> ew_localPeerId w \<and> 0 < net_peerCount net \<and> p \<notin> set (net_peers net)))"

definition new_proposal :: "time \<Rightarrow> string \<Rightarrow> peer_id \<Rightarrow> WorkType \<Rightarrow> string \<Rightarrow> EmissionProposal" where
  "new_proposal now ident p workType workProof =
     \<lparr>ep_id = ident, ep_peerId = p, ep_workType = workType, ep_workProof = workProof, ep_amount = 0, ep_timestamp = now,
      ep_expiresAt = now + PROPOSAL_TIMEOUT_MS, ep_status = es_pending, ep_witnesses = [], ep_finalizedAt = None,
      ep_transactionId = None\<rparr>"

definition propose ::
  "time \<Rightarrow> network_view option \<Rightarrow> string \<Rightarrow> peer_id \<Rightarrow> WorkType \<Rightarrow> string \<Rightarrow> 's emission_witness \<Rightarrow> 's emission_witness" where
  "propose now net ident p workType workProof w =
     (if \<not> propose_allowed now net p workProof w then w
      else let prop = new_proposal now ident p workType workProof; i = length (ew_objects w);
               w1 = recordProposal now p w;
               w2 = w1\<lparr>ew_objects := ew_objects w1 @ [prop], ew_pending := jset ident i (ew_pending w1),
                      ew_locallyProposed := sadd ident (ew_locallyProposed w1), ew_proposed := ew_proposed w1 @ [i],
                      ew_jobs := ew_jobs w1 @ [FinishPropose i]\<rparr>
           in publish_gossip net (gossip_proposal prop) w2)"

definition finish_propose :: "'s witness_env \<Rightarrow> time \<Rightarrow> network_view option \<Rightarrow> string \<Rightarrow> nat \<Rightarrow> 's emission_witness \<Rightarrow> 's emission_witness" where
  "finish_propose V now net hash i w =
     (if net_peerCount net < BOOTSTRAP_NODE_THRESHOLD
      then let (w1, exceeds) = wouldExceedBootstrapCap now 25 w
           in if exceeds then w1 else finalizeProposal V now hash i True w1
      else w)"

section \<open>Attesting\<close>

definition attest_key :: "peer_id \<Rightarrow> string \<Rightarrow> string" where
  "attest_key p ident = p @ '':'' @ ident"

definition attestProposal :: "'s witness_env \<Rightarrow> time \<Rightarrow> string \<Rightarrow> bool \<Rightarrow> 's emission_witness \<Rightarrow> 's emission_witness" where
  "attestProposal V now ident approved w =
     (case jget (ew_pending w) ident of
        None \<Rightarrow> w
      | Some i \<Rightarrow>
          if ep_status (obj w i) \<noteq> es_pending \<or> ep_peerId (obj w i) = ew_localPeerId w \<or>
             attest_key (ew_localPeerId w) ident \<in> set (ew_processedAttestations w) then w
          else let sig = we_sign V \<lparr>am_from = ew_localPeerId w, am_timestamp = now, am_proposalId = ident,
                           am_approved = approved, am_witnessPeerId = ew_localPeerId w\<rparr>
               in w\<lparr>ew_jobs := ew_jobs w @ [FinishAttest i ident approved sig]\<rparr>)"

definition finish_attest ::
  "'s witness_env \<Rightarrow> time \<Rightarrow> network_view option \<Rightarrow> string \<Rightarrow> nat \<Rightarrow> string \<Rightarrow> bool \<Rightarrow> string \<Rightarrow> 's emission_witness \<Rightarrow> 's emission_witness" where
  "finish_attest V now net hash i ident approved sig w =
     (let a = \<lparr>wa_witnessPeerId = ew_localPeerId w, wa_proposalId = ident, wa_approved = approved, wa_signature = sig, wa_timestamp = now\<rparr>;
          w1 = w\<lparr>ew_processedAttestations := sadd (attest_key (ew_localPeerId w) ident) (ew_processedAttestations w)\<rparr>
      in publish_gossip net (gossip_attestation a) (add_attestation V now hash i a w1))"

definition handleRemoteProposal :: "'s witness_env \<Rightarrow> time \<Rightarrow> EmissionProposal \<Rightarrow> peer_id \<Rightarrow> 's emission_witness \<Rightarrow> 's emission_witness" where
  "handleRemoteProposal V now prop from w =
     (if ep_peerId prop = ew_localPeerId w \<or> ep_peerId prop \<noteq> from \<or> validateWorkProof (ep_workProof prop) \<noteq> None \<or>
         ep_expiresAt prop < now \<or> \<not> checkRateLimit now from w then w
      else let w1 = recordProposal now from w;
               w2 = (if jhas (ew_pending w1) (ep_id prop) then w1
                     else w1\<lparr>ew_objects := ew_objects w1 @ [prop\<lparr>ep_witnesses := [], ep_status := es_pending\<rparr>],
                            ew_pending := jset (ep_id prop) (length (ew_objects w1)) (ew_pending w1)\<rparr>)
           in attestProposal V now (ep_id prop) True w2)"

text \<open>The message the sender of an attestation signed, as the receiver reconstructs it.\<close>

definition canonical_attestation :: "WitnessAttestation \<Rightarrow> attestation_message" where
  "canonical_attestation a = \<lparr>am_from = wa_witnessPeerId a, am_timestamp = wa_timestamp a, am_proposalId = wa_proposalId a,
     am_approved = wa_approved a, am_witnessPeerId = wa_witnessPeerId a\<rparr>"

definition attestation_verified :: "'s witness_env \<Rightarrow> WitnessAttestation \<Rightarrow> bool" where
  "attestation_verified V a = (wa_signature a \<noteq> '''' \<and>
     (case we_publicKey V (wa_witnessPeerId a) of None \<Rightarrow> False
      | Some k \<Rightarrow> we_verify V (canonical_attestation a) (wa_signature a) k))"

definition handleRemoteAttestation ::
  "'s witness_env \<Rightarrow> time \<Rightarrow> string \<Rightarrow> WitnessAttestation \<Rightarrow> peer_id \<Rightarrow> 's emission_witness \<Rightarrow> 's emission_witness" where
  "handleRemoteAttestation V now hash a from w =
     (if wa_witnessPeerId a \<noteq> from \<or> \<not> attestation_verified V a then w
      else case jget (ew_pending w) (wa_proposalId a) of
        None \<Rightarrow> w
      | Some i \<Rightarrow>
          let key = attest_key (wa_witnessPeerId a) (wa_proposalId a) in
          if ep_status (obj w i) \<noteq> es_pending \<or> key \<in> set (ew_processedAttestations w) then w
          else let w1 = w\<lparr>ew_processedAttestations := sadd key (ew_processedAttestations w)\<rparr>
               in if wa_witnessPeerId a = ep_peerId (obj w1 i) then w1 else add_attestation V now hash i a w1)"

fun emission_handleMessage ::
  "'s witness_env \<Rightarrow> time \<Rightarrow> string \<Rightarrow> EmissionGossipMessage \<Rightarrow> peer_id \<Rightarrow> 's emission_witness \<Rightarrow> 's emission_witness" where
  "emission_handleMessage V now hash (gossip_proposal prop) from w = handleRemoteProposal V now prop from w"
| "emission_handleMessage V now hash (gossip_attestation a) from w = handleRemoteAttestation V now hash a from w"
| "emission_handleMessage V now hash gossip_other from w = w"

fun run_witness_job ::
  "'s witness_env \<Rightarrow> time \<Rightarrow> network_view option \<Rightarrow> string \<Rightarrow> witness_job \<Rightarrow> 's emission_witness \<Rightarrow> 's emission_witness" where
  "run_witness_job V now net hash (FinishPropose i) w = finish_propose V now net hash i w"
| "run_witness_job V now net hash (FinishAttest i ident approved sig) w = finish_attest V now net hash i ident approved sig w"

definition resume_witness :: "'s witness_env \<Rightarrow> time \<Rightarrow> network_view option \<Rightarrow> string \<Rightarrow> nat \<Rightarrow> 's emission_witness \<Rightarrow> 's emission_witness" where
  "resume_witness V now net hash j w =
     (if j < length (ew_jobs w)
      then run_witness_job V now net hash (ew_jobs w ! j) (w\<lparr>ew_jobs := take j (ew_jobs w) @ drop (Suc j) (ew_jobs w)\<rparr>) else w)"

section \<open>Cleanup and queries\<close>

definition expire_pending :: "time \<Rightarrow> nat \<Rightarrow> 's emission_witness \<Rightarrow> 's emission_witness" where
  "expire_pending now i w =
     (if ep_expiresAt (obj w i) < now
      then to_history i ((upd_obj i (\<lambda>p. p\<lparr>ep_status := es_expired\<rparr>) w)\<lparr>ew_totalExpired := ew_totalExpired w + 1\<rparr>) else w)"

definition emission_cleanup :: "time \<Rightarrow> 's emission_witness \<Rightarrow> 's emission_witness" where
  "emission_cleanup now w =
     (let w1 = fold (\<lambda>(_, i). expire_pending now i) (ew_pending w) w;
          w2 = w1\<lparr>ew_rateLimits := map (\<lambda>(p, ts). (p, recent now ts)) (filter (\<lambda>(p, ts). recent now ts \<noteq> []) (ew_rateLimits w1))\<rparr>
      in if 10000 < length (ew_processedAttestations w2) then w2\<lparr>ew_processedAttestations := []\<rparr> else w2)"

definition getPending :: "'s emission_witness \<Rightarrow> EmissionProposal list" where
  "getPending w = map (obj w) (jvals (ew_pending w))"

definition getHistory :: "nat \<Rightarrow> 's emission_witness \<Rightarrow> EmissionProposal list" where
  "getHistory limit w = rev (map (obj w) (if limit = 0 then ew_history w else lastn limit (ew_history w)))"

definition emission_getStats :: "time \<Rightarrow> network_view option \<Rightarrow> 's emission_witness \<Rightarrow> EmissionStats" where
  "emission_getStats now net w =
     \<lparr>sx_totalProposals = ew_totalApproved w + ew_totalRejected w + ew_totalExpired w + int (length (ew_pending w)),
      sx_totalApproved = ew_totalApproved w, sx_totalRejected = ew_totalRejected w, sx_totalExpired = ew_totalExpired w,
      sx_pendingCount = length (ew_pending w), sx_totalLuxEmitted = ew_totalLuxEmitted w,
      sx_proposalsThisHour = length (recent now (timestamps_of w (ew_localPeerId w))),
      sx_rateLimitPerHour = RATE_LIMIT_PER_HOUR, sx_quorumRequired = QUORUM_REQUIRED,
      sx_bootstrapFallback = (net_peerCount net < BOOTSTRAP_NODE_THRESHOLD)\<rparr>"

section \<open>The minting callback of the node\<close>

text \<open>\<^verbatim>\<open>init-kernel.ts\<close> mints by \<^verbatim>\<open>rewardWork\<close> and broadcasts the transaction; an error is logged and gives no
  transaction.\<close>

definition mint_callback :: "ledger_sync emit_callback" where
  "mint_callback now hash p wt workProof s =
     (case rewardWork now hash p wt workProof (ls_ledger s) of
        Inl _ \<Rightarrow> (s, NotMinted)
      | Inr (d, tx) \<Rightarrow> (broadcastTransaction tx (s\<lparr>ls_ledger := d\<rparr>), Minted tx))"

section \<open>Runs\<close>

text \<open>
  A step happens at a time \<open>now\<close>. The ids that \<^verbatim>\<open>propose\<close> draws are new (128 random bits), the subscriber drops the node's
  own messages, the network views satisfy \<open>N\<close>, and the rest of the node changes the ledger by \<open>L\<close>.
\<close>

inductive witness_step ::
  "'s witness_env \<Rightarrow> (network_view option \<Rightarrow> bool) \<Rightarrow> ('s \<Rightarrow> 's \<Rightarrow> bool) \<Rightarrow> time \<Rightarrow> 's emission_witness \<Rightarrow> 's emission_witness \<Rightarrow> bool"
  for V N L now where
  propose: "N net \<Longrightarrow> \<forall>p \<in> set (ew_objects w). ep_id p \<noteq> ident \<Longrightarrow> witness_step V N L now w (propose now net ident p wt wp w)"
| message: "from \<noteq> ew_localPeerId w \<Longrightarrow> witness_step V N L now w (emission_handleMessage V now hash m from w)"
| resume: "N net \<Longrightarrow> witness_step V N L now w (resume_witness V now net hash j w)"
| tidy: "witness_step V N L now w (emission_cleanup now w)"
| ledger: "L (ew_ledger w) s \<Longrightarrow> witness_step V N L now w (w\<lparr>ew_ledger := s\<rparr>)"

inductive witness_run ::
  "'s witness_env \<Rightarrow> (network_view option \<Rightarrow> bool) \<Rightarrow> ('s \<Rightarrow> 's \<Rightarrow> bool) \<Rightarrow> time \<Rightarrow> 's emission_witness \<Rightarrow> time \<Rightarrow> 's emission_witness \<Rightarrow> bool"
  for V N L t0 w0 where
  start: "witness_run V N L t0 w0 t0 w0"
| further: "witness_run V N L t0 w0 t w \<Longrightarrow> t \<le> now \<Longrightarrow> witness_step V N L now w w' \<Longrightarrow> witness_run V N L t0 w0 now w'"

section \<open>Frame lemmas\<close>

text \<open>What finalization and attestation leave alone.\<close>

lemma reset_frame [simp]:
  "ew_objects (resetDailyCountersIfNeeded now w) = ew_objects w" "ew_pending (resetDailyCountersIfNeeded now w) = ew_pending w"
  "ew_jobs (resetDailyCountersIfNeeded now w) = ew_jobs w" "ew_proposed (resetDailyCountersIfNeeded now w) = ew_proposed w"
  "ew_emitCalls (resetDailyCountersIfNeeded now w) = ew_emitCalls w"
  "ew_locallyProposed (resetDailyCountersIfNeeded now w) = ew_locallyProposed w"
  "ew_localPeerId (resetDailyCountersIfNeeded now w) = ew_localPeerId w"
  "ew_rateLimits (resetDailyCountersIfNeeded now w) = ew_rateLimits w" "ew_ledger (resetDailyCountersIfNeeded now w) = ew_ledger w"
  "ew_history (resetDailyCountersIfNeeded now w) = ew_history w"
  by (simp_all add: resetDailyCountersIfNeeded_def Let_def)

lemma exceed_frame [simp]:
  "fst (wouldExceedDailyCap now a w) = resetDailyCountersIfNeeded now w"
  "fst (wouldExceedBootstrapCap now a w) = resetDailyCountersIfNeeded now w"
  by (simp_all add: wouldExceedDailyCap_def wouldExceedBootstrapCap_def Let_def)

lemma daily_frame [simp]:
  "ew_objects (recordDailyEmission now a b w) = ew_objects w" "ew_pending (recordDailyEmission now a b w) = ew_pending w"
  "ew_jobs (recordDailyEmission now a b w) = ew_jobs w" "ew_proposed (recordDailyEmission now a b w) = ew_proposed w"
  "ew_emitCalls (recordDailyEmission now a b w) = ew_emitCalls w"
  "ew_locallyProposed (recordDailyEmission now a b w) = ew_locallyProposed w"
  "ew_localPeerId (recordDailyEmission now a b w) = ew_localPeerId w"
  "ew_rateLimits (recordDailyEmission now a b w) = ew_rateLimits w" "ew_ledger (recordDailyEmission now a b w) = ew_ledger w"
  "ew_history (recordDailyEmission now a b w) = ew_history w"
  by (simp_all add: recordDailyEmission_def Let_def)

lemma obj_cong: "ew_objects w = ew_objects w' \<Longrightarrow> obj w i = obj w' i"
  by (simp add: obj_def)

text \<open>The effect of finalizing a pending proposal on the store and the logs.\<close>

lemma call_emit_effect:
  assumes "i < length (ew_objects w)" "ep_status (ew_objects w ! i) = es_approved"
  shows "\<exists>p'. ew_objects (call_emit V now h i b w) = (ew_objects w)[i := p'] \<and> ep_id p' = ep_id (obj w i) \<and>
      ep_peerId p' = ep_peerId (obj w i) \<and> ep_witnesses p' = ep_witnesses (obj w i) \<and> ep_status p' \<noteq> es_pending"
    and "ew_emitCalls (call_emit V now h i b w) = ew_emitCalls w \<or>
      ep_id (obj w i) \<in> set (ew_locallyProposed w) \<and> ew_emitCalls (call_emit V now h i b w) = ew_emitCalls w @ [i]"
    and "ew_pending (call_emit V now h i b w) = ew_pending w" "ew_jobs (call_emit V now h i b w) = ew_jobs w"
    and "ew_proposed (call_emit V now h i b w) = ew_proposed w" "ew_locallyProposed (call_emit V now h i b w) = ew_locallyProposed w"
    and "ew_localPeerId (call_emit V now h i b w) = ew_localPeerId w" "ew_rateLimits (call_emit V now h i b w) = ew_rateLimits w"
    and "ew_history (call_emit V now h i b w) = ew_history w"
proof -
  have "w = w\<lparr>ew_objects := (ew_objects w)[i := ew_objects w ! i]\<rparr>" by simp
  then show "\<exists>p'. ew_objects (call_emit V now h i b w) = (ew_objects w)[i := p'] \<and> ep_id p' = ep_id (obj w i) \<and>
      ep_peerId p' = ep_peerId (obj w i) \<and> ep_witnesses p' = ep_witnesses (obj w i) \<and> ep_status p' \<noteq> es_pending"
    using assms(2) unfolding call_emit_def apply_emit_result_def upd_obj_def obj_def Let_def
    by (auto split: option.splits emit_result.splits
        intro: exI [of _ "ew_objects w ! i"] exI [of _ "(ew_objects w ! i)\<lparr>ep_status := es_rejected\<rparr>"])
qed (auto simp: call_emit_def apply_emit_result_def upd_obj_def Let_def split: option.splits emit_result.splits)

text \<open>A pending proposal was settled: its object keeps identity and witnesses and leaves the pending map.\<close>

definition settled :: "nat \<Rightarrow> 's emission_witness \<Rightarrow> 's emission_witness \<Rightarrow> bool" where
  "settled i w w' =
     ((\<exists>p'. ew_objects w' = (ew_objects w)[i := p'] \<and> ep_id p' = ep_id (obj w i) \<and> ep_peerId p' = ep_peerId (obj w i) \<and>
         ep_witnesses p' = ep_witnesses (obj w i) \<and> ep_status p' \<noteq> es_pending) \<and>
      ew_pending w' = jdel (ep_id (obj w i)) (ew_pending w) \<and>
      ew_locallyProposed w' = sdel (ep_id (obj w i)) (ew_locallyProposed w) \<and>
      ew_jobs w' = ew_jobs w \<and> ew_proposed w' = ew_proposed w \<and> ew_localPeerId w' = ew_localPeerId w \<and>
      ew_rateLimits w' = ew_rateLimits w \<and>
      (ew_emitCalls w' = ew_emitCalls w \<or>
       ep_id (obj w i) \<in> set (ew_locallyProposed w) \<and> ew_emitCalls w' = ew_emitCalls w @ [i]))"

lemma to_history_frame [simp]:
  "ew_objects (to_history i w) = ew_objects w" "ew_pending (to_history i w) = jdel (ep_id (obj w i)) (ew_pending w)"
  "ew_locallyProposed (to_history i w) = sdel (ep_id (obj w i)) (ew_locallyProposed w)"
  "ew_jobs (to_history i w) = ew_jobs w" "ew_proposed (to_history i w) = ew_proposed w"
  "ew_localPeerId (to_history i w) = ew_localPeerId w" "ew_rateLimits (to_history i w) = ew_rateLimits w"
  "ew_emitCalls (to_history i w) = ew_emitCalls w" "ew_ledger (to_history i w) = ew_ledger w"
  "ew_dailyEmittedLux (to_history i w) = ew_dailyEmittedLux w"
  by (simp_all add: to_history_def Let_def)

lemma upd_obj_frame [simp]:
  "ew_objects (upd_obj i f w) = (ew_objects w)[i := f (obj w i)]" "ew_pending (upd_obj i f w) = ew_pending w"
  "ew_locallyProposed (upd_obj i f w) = ew_locallyProposed w" "ew_jobs (upd_obj i f w) = ew_jobs w"
  "ew_proposed (upd_obj i f w) = ew_proposed w" "ew_localPeerId (upd_obj i f w) = ew_localPeerId w"
  "ew_rateLimits (upd_obj i f w) = ew_rateLimits w" "ew_emitCalls (upd_obj i f w) = ew_emitCalls w"
  "ew_ledger (upd_obj i f w) = ew_ledger w" "ew_history (upd_obj i f w) = ew_history w"
  "ew_dailyEmittedLux (upd_obj i f w) = ew_dailyEmittedLux w" "ew_dailyEmittedDate (upd_obj i f w) = ew_dailyEmittedDate w"
  by (simp_all add: upd_obj_def obj_def)

lemma obj_upd [simp]: "i < length (ew_objects w) \<Longrightarrow> obj (upd_obj i f w) i = f (obj w i)"
  by (simp add: obj_def)

lemma obj_simps [simp]:
  "obj (resetDailyCountersIfNeeded now w) i = obj w i" "obj (w\<lparr>ew_totalApproved := a\<rparr>) i = obj w i"
  "obj (w\<lparr>ew_totalRejected := a\<rparr>) i = obj w i" "obj (w\<lparr>ew_totalExpired := a\<rparr>) i = obj w i"
  "obj (w\<lparr>ew_processedAttestations := ks\<rparr>) i = obj w i" "obj (w\<lparr>ew_jobs := js\<rparr>) i = obj w i"
  by (simp_all add: obj_def)

lemma settle_call:
  assumes "i < length (ew_objects w)"
  shows "settled i w (to_history i (call_emit V now h i b
    ((upd_obj i (\<lambda>p. p\<lparr>ep_status := es_approved, ep_finalizedAt := t\<rparr>) w)\<lparr>ew_totalApproved := n\<rparr>)))"
proof -
  let ?w = "(upd_obj i (\<lambda>p. p\<lparr>ep_status := es_approved, ep_finalizedAt := t\<rparr>) w)\<lparr>ew_totalApproved := n\<rparr>"
  have w: "i < length (ew_objects ?w)" "ep_status (ew_objects ?w ! i) = es_approved" using assms by simp_all
  note eff = call_emit_effect [OF w, of V now h b]
  obtain p' where p': "ew_objects (call_emit V now h i b ?w) = (ew_objects ?w)[i := p']" "ep_id p' = ep_id (obj ?w i)"
    "ep_peerId p' = ep_peerId (obj ?w i)" "ep_witnesses p' = ep_witnesses (obj ?w i)" "ep_status p' \<noteq> es_pending"
    using eff(1) by blast
  have "obj (call_emit V now h i b ?w) i = p'" using p'(1) assms by (simp add: obj_def)
  then show ?thesis using p' eff(2-) assms unfolding settled_def by (auto intro: exI [of _ p'])
qed

lemma settled_reset: "settled i (resetDailyCountersIfNeeded now w) w' = settled i w w'"
  by (simp add: settled_def)

lemma finalize_settles:
  assumes "i < length (ew_objects w)" "ep_status (obj w i) = es_pending"
  shows "settled i w (finalizeProposal V now h i b w)"
proof -
  let ?w = "resetDailyCountersIfNeeded now w"
  have "settled i ?w (to_history i ((upd_obj i (\<lambda>p. p\<lparr>ep_status := es_rejected\<rparr>) ?w)\<lparr>ew_totalRejected := n\<rparr>))" for n
    using assms(1) unfolding settled_def by auto
  then show ?thesis using assms settle_call [of i ?w V now h b]
    by (simp add: finalizeProposal_def split_beta settled_reset)
qed

lemma finalize_done: "ep_status (obj w i) \<noteq> es_pending \<Longrightarrow> finalizeProposal V now h i b w = w"
  by (simp add: finalizeProposal_def)

lemma expire_settles:
  assumes "i < length (ew_objects w)"
  shows "expire_pending now i w = w \<or> settled i w (expire_pending now i w)"
  using assms by (auto simp: expire_pending_def settled_def)

section \<open>Invariants\<close>

text \<open>
  The pending map and the store agree: exactly the objects with status pending are in the map, under their id. An id this node
  proposed and has not settled leads to an object it proposed, jobs refer to objects of others, and the callback was called
  at most once for an object, only for own proposals that have been settled.
\<close>

definition job_ok :: "'s emission_witness \<Rightarrow> witness_job \<Rightarrow> bool" where
  "job_ok w j = (case j of
      FinishPropose i \<Rightarrow> i < length (ew_objects w)
    | FinishAttest i ident _ _ \<Rightarrow> i < length (ew_objects w) \<and> ep_id (obj w i) = ident \<and> ep_peerId (obj w i) \<noteq> ew_localPeerId w)"

definition store_ok :: "'s emission_witness \<Rightarrow> bool" where
  "store_ok w =
     (jwf (ew_pending w) \<and> (\<forall>k i. jget (ew_pending w) k = Some i \<longrightarrow>
         i < length (ew_objects w) \<and> ep_id (obj w i) = k \<and> ep_status (obj w i) = es_pending) \<and>
      (\<forall>i < length (ew_objects w). ep_status (obj w i) = es_pending \<longrightarrow> jget (ew_pending w) (ep_id (obj w i)) = Some i) \<and>
      (\<forall>k \<in> set (ew_locallyProposed w). \<exists>i \<in> set (ew_proposed w). jget (ew_pending w) k = Some i) \<and>
      (\<forall>j \<in> set (ew_jobs w). job_ok w j) \<and> (\<forall>i \<in> set (ew_proposed w). i < length (ew_objects w)) \<and>
      distinct (ew_emitCalls w) \<and>
      (\<forall>i \<in> set (ew_emitCalls w). i \<in> set (ew_proposed w) \<and> ep_status (obj w i) \<noteq> es_pending))"

lemma store_okI:
  assumes "\<And>k i. jget (ew_pending w) k = Some i \<Longrightarrow> i < length (ew_objects w) \<and> ep_id (obj w i) = k \<and> ep_status (obj w i) = es_pending"
    and "\<And>i. i < length (ew_objects w) \<Longrightarrow> ep_status (obj w i) = es_pending \<Longrightarrow> jget (ew_pending w) (ep_id (obj w i)) = Some i"
    and "\<And>k. k \<in> set (ew_locallyProposed w) \<Longrightarrow> \<exists>i \<in> set (ew_proposed w). jget (ew_pending w) k = Some i"
    and "\<And>j. j \<in> set (ew_jobs w) \<Longrightarrow> job_ok w j" and "\<And>i. i \<in> set (ew_proposed w) \<Longrightarrow> i < length (ew_objects w)"
    and "distinct (ew_emitCalls w)" "jwf (ew_pending w)"
    and "\<And>i. i \<in> set (ew_emitCalls w) \<Longrightarrow> i \<in> set (ew_proposed w) \<and> ep_status (obj w i) \<noteq> es_pending"
  shows "store_ok w"
  using assms unfolding store_ok_def by blast

lemma store_okD:
  assumes "store_ok w"
  shows "jget (ew_pending w) k = Some i \<Longrightarrow> i < length (ew_objects w) \<and> ep_id (obj w i) = k \<and> ep_status (obj w i) = es_pending"
    and "i < length (ew_objects w) \<Longrightarrow> ep_status (obj w i) = es_pending \<Longrightarrow> jget (ew_pending w) (ep_id (obj w i)) = Some i"
    and "k \<in> set (ew_locallyProposed w) \<Longrightarrow> \<exists>i \<in> set (ew_proposed w). jget (ew_pending w) k = Some i"
    and "j \<in> set (ew_jobs w) \<Longrightarrow> job_ok w j" and "i \<in> set (ew_proposed w) \<Longrightarrow> i < length (ew_objects w)"
    and "distinct (ew_emitCalls w)" and "i \<in> set (ew_emitCalls w) \<Longrightarrow> i \<in> set (ew_proposed w) \<and> ep_status (obj w i) \<noteq> es_pending"
    and "jwf (ew_pending w)"
  using assms unfolding store_ok_def by blast+

lemma settled_store_ok:
  assumes ok: "store_ok w" and i: "i < length (ew_objects w)" "ep_status (obj w i) = es_pending" and s: "settled i w w'"
  shows "store_ok w'"
proof -
  obtain p' where p': "ew_objects w' = (ew_objects w)[i := p']" "ep_id p' = ep_id (obj w i)"
    "ep_peerId p' = ep_peerId (obj w i)" "ep_status p' \<noteq> es_pending"
    and f: "ew_pending w' = jdel (ep_id (obj w i)) (ew_pending w)"
      "ew_locallyProposed w' = sdel (ep_id (obj w i)) (ew_locallyProposed w)" "ew_jobs w' = ew_jobs w"
      "ew_proposed w' = ew_proposed w" "ew_localPeerId w' = ew_localPeerId w"
      "ew_emitCalls w' = ew_emitCalls w \<or> ep_id (obj w i) \<in> set (ew_locallyProposed w) \<and> ew_emitCalls w' = ew_emitCalls w @ [i]"
    using s unfolding settled_def by blast
  have o: "obj w' k = (if k = i then p' else obj w k)" for k
    using p'(1) i(1) by (simp add: obj_def nth_list_update)
  have l: "length (ew_objects w') = length (ew_objects w)" using p'(1) by simp
  have pend: "jget (ew_pending w) (ep_id (obj w i)) = Some i" using store_okD(2) [OF ok i] .
  have calls: "distinct (ew_emitCalls w') \<and> (\<forall>k \<in> set (ew_emitCalls w'). k \<in> set (ew_proposed w) \<and> ep_status (obj w' k) \<noteq> es_pending)"
    using f(6) store_okD(6,7) [OF ok] store_okD(3) [OF ok, of "ep_id (obj w i)"] pend i(2) p'(4) by (auto simp: o)
  have jobs: "job_ok w' j" if "j \<in> set (ew_jobs w)" for j
    using store_okD(4) [OF ok that] p' f(5) l by (auto simp: job_ok_def o split: witness_job.splits)
  show ?thesis
  proof (rule store_okI)
    show "k < length (ew_objects w') \<and> ep_id (obj w' k) = n \<and> ep_status (obj w' k) = es_pending"
      if "jget (ew_pending w') n = Some k" for n k
    proof -
      have "n \<noteq> ep_id (obj w i)" "jget (ew_pending w) n = Some k" using that f(1) by (auto split: if_splits)
      then show ?thesis using store_okD(1) [OF ok, of n k] by (auto simp: o l)
    qed
    show "jget (ew_pending w') (ep_id (obj w' k)) = Some k" if "k < length (ew_objects w')" "ep_status (obj w' k) = es_pending" for k
    proof -
      have k: "k \<noteq> i" "k < length (ew_objects w)" "ep_status (obj w k) = es_pending" using that p'(4) by (auto simp: o l split: if_splits)
      then have "jget (ew_pending w) (ep_id (obj w k)) = Some k" using store_okD(2) [OF ok] by blast
      then show ?thesis using k(1) pend f(1) by (auto simp: o)
    qed
    show "\<exists>k \<in> set (ew_proposed w'). jget (ew_pending w') n = Some k" if "n \<in> set (ew_locallyProposed w')" for n
      using that store_okD(3) [OF ok, of n] by (auto simp: f)
    show "job_ok w' j" if "j \<in> set (ew_jobs w')" for j using that jobs f(3) by simp
  qed (use calls f(1,4) l store_okD(5,8) [OF ok] in auto)
qed

text \<open>Attestations come from others than the recipient, name the proposal, and were verified or are the node's own.\<close>

definition good_witness :: "'s witness_env \<Rightarrow> peer_id \<Rightarrow> EmissionProposal \<Rightarrow> WitnessAttestation \<Rightarrow> bool" where
  "good_witness V self p a = (wa_witnessPeerId a \<noteq> ep_peerId p \<and> wa_proposalId a = ep_id p \<and>
     (wa_witnessPeerId a = self \<or> attestation_verified V a))"

definition object_ok :: "'s witness_env \<Rightarrow> bool \<Rightarrow> peer_id \<Rightarrow> EmissionProposal \<Rightarrow> bool" where
  "object_ok V strict self p = ((\<forall>a \<in> set (ep_witnesses p). good_witness V self p a) \<and>
     (strict \<and> ep_status p = es_approved \<longrightarrow> QUORUM_REQUIRED \<le> approvals p))"

definition emission_inv :: "'s witness_env \<Rightarrow> bool \<Rightarrow> 's emission_witness \<Rightarrow> bool" where
  "emission_inv V strict w = (store_ok w \<and> (\<forall>p \<in> set (ew_objects w). object_ok V strict (ew_localPeerId w) p))"

lemma emission_inv_frame:
  assumes "emission_inv V st w" "ew_objects w' = ew_objects w" "ew_pending w' = ew_pending w" "ew_localPeerId w' = ew_localPeerId w"
    "ew_locallyProposed w' = ew_locallyProposed w" "ew_proposed w' = ew_proposed w" "ew_emitCalls w' = ew_emitCalls w"
    "\<And>j. j \<in> set (ew_jobs w') \<Longrightarrow> job_ok w j"
  shows "emission_inv V st w'"
proof -
  have o: "obj w' = obj w" using assms(2) by (simp add: obj_def fun_eq_iff)
  then have "job_ok w' = job_ok w" using assms(2,4) by (simp add: job_ok_def fun_eq_iff split: witness_job.split)
  with assms o show ?thesis unfolding emission_inv_def store_ok_def by simp
qed

lemma settled_inv:
  assumes inv: "emission_inv V st w" and i: "i < length (ew_objects w)" "ep_status (obj w i) = es_pending"
    and s: "settled i w w'" and q: "st \<Longrightarrow> QUORUM_REQUIRED \<le> approvals (obj w i)"
  shows "emission_inv V st w'"
proof -
  have "store_ok w'" using settled_store_ok [OF _ i s] inv by (simp add: emission_inv_def)
  moreover obtain p' where p': "ew_objects w' = (ew_objects w)[i := p']" "ep_id p' = ep_id (obj w i)"
    "ep_peerId p' = ep_peerId (obj w i)" "ep_witnesses p' = ep_witnesses (obj w i)" "ew_localPeerId w' = ew_localPeerId w"
    using s unfolding settled_def by blast
  moreover have "object_ok V st (ew_localPeerId w) (obj w i)" using inv i(1) by (simp add: emission_inv_def obj_def)
  with p' q have "object_ok V st (ew_localPeerId w) p'" by (auto simp: object_ok_def good_witness_def approvals_def)
  ultimately show ?thesis using inv set_update_subset_insert [of "ew_objects w" i p'] by (auto simp: emission_inv_def)
qed

text \<open>Settling without an approval, as expiry does, needs no quorum.\<close>

lemma expired_inv:
  assumes inv: "emission_inv V st w" and i: "i < length (ew_objects w)" "ep_status (obj w i) = es_pending"
  shows "emission_inv V st (expire_pending now i w)"
proof (cases "expire_pending now i w = w")
  case False
  have s: "settled i w (expire_pending now i w)" using expire_settles [OF i(1)] False by blast
  have "store_ok (expire_pending now i w)" using settled_store_ok [OF _ i s] inv by (simp add: emission_inv_def)
  moreover have "object_ok V st (ew_localPeerId w) (obj w i)" using inv i(1) by (simp add: emission_inv_def obj_def)
  then have "object_ok V st (ew_localPeerId w) ((obj w i)\<lparr>ep_status := es_expired\<rparr>)"
    by (auto simp: object_ok_def good_witness_def)
  ultimately show ?thesis
    using inv set_update_subset_insert [of "ew_objects w" i "(obj w i)\<lparr>ep_status := es_expired\<rparr>"]
    by (auto simp: emission_inv_def expire_pending_def)
qed (use inv in simp)

lemma push_witness_inv:
  assumes inv: "emission_inv V st w" and i: "i < length (ew_objects w)" and g: "good_witness V (ew_localPeerId w) (obj w i) a"
  shows "emission_inv V st (upd_obj i (\<lambda>p. p\<lparr>ep_witnesses := ep_witnesses p @ [a]\<rparr>) w)"
proof -
  let ?p = "(obj w i)\<lparr>ep_witnesses := ep_witnesses (obj w i) @ [a]\<rparr>"
  let ?w = "upd_obj i (\<lambda>p. p\<lparr>ep_witnesses := ep_witnesses p @ [a]\<rparr>) w"
  have o: "obj ?w k = (if k = i then ?p else obj w k)" for k using i by (simp add: obj_def nth_list_update)
  have same: "ep_id (obj ?w k) = ep_id (obj w k)" "ep_peerId (obj ?w k) = ep_peerId (obj w k)"
    "ep_status (obj ?w k) = ep_status (obj w k)" for k by (simp_all add: o)
  then have "job_ok ?w j = job_ok w j" for j by (simp add: job_ok_def split: witness_job.split)
  then have "store_ok ?w = store_ok w" by (simp add: store_ok_def same)
  moreover have "object_ok V st (ew_localPeerId w) (obj w i)" using inv i by (simp add: emission_inv_def obj_def)
  then have "object_ok V st (ew_localPeerId w) ?p" using g by (auto simp: object_ok_def good_witness_def approvals_def)
  ultimately show ?thesis
    using inv set_update_subset_insert [of "ew_objects w" i ?p] by (auto simp: emission_inv_def)
qed

lemma add_attestation_inv:
  assumes inv: "emission_inv V st w" and i: "i < length (ew_objects w)" and g: "good_witness V (ew_localPeerId w) (obj w i) a"
  shows "emission_inv V st (add_attestation V now h i a w)"
  using settled_inv [OF push_witness_inv [OF assms] _ _ finalize_settles] push_witness_inv [OF assms] i
  by (simp add: add_attestation_def Let_def)

lemma append_object_inv:
  assumes inv: "emission_inv V st w" and p: "ep_status p = es_pending" "ep_witnesses p = []" and f: "\<not> jhas (ew_pending w) (ep_id p)"
    and w': "ew_objects w' = ew_objects w @ [p]" "ew_pending w' = jset (ep_id p) (length (ew_objects w)) (ew_pending w)"
      "ew_emitCalls w' = ew_emitCalls w" "ew_localPeerId w' = ew_localPeerId w"
      "ew_locallyProposed w' = ew_locallyProposed w \<and> ew_proposed w' = ew_proposed w \<or>
       ew_locallyProposed w' = sadd (ep_id p) (ew_locallyProposed w) \<and> ew_proposed w' = ew_proposed w @ [length (ew_objects w)]"
      "set (ew_jobs w') \<subseteq> insert (FinishPropose (length (ew_objects w))) (set (ew_jobs w))"
  shows "emission_inv V st w'"
proof -
  have ok: "store_ok w" using inv by (simp add: emission_inv_def)
  have o: "obj w' k = (if k = length (ew_objects w) then p else obj w k)" if "k < length (ew_objects w')" for k
    using that w'(1) by (auto simp: obj_def nth_append)
  have old: "obj w' k = obj w k" if "k < length (ew_objects w)" for k using that w'(1) by (simp add: obj_def nth_append)
  have "store_ok w'"
  proof (rule store_okI)
    show "i < length (ew_objects w') \<and> ep_id (obj w' i) = k \<and> ep_status (obj w' i) = es_pending" if "jget (ew_pending w') k = Some i" for k i
      using that store_okD(1) [OF ok, of k i] w'(1,2) p o old by (auto split: if_splits)
    show "jget (ew_pending w') (ep_id (obj w' i)) = Some i" if "i < length (ew_objects w')" "ep_status (obj w' i) = es_pending" for i
    proof (cases "i = length (ew_objects w)")
      case False
      then have i: "i < length (ew_objects w)" "obj w' i = obj w i" using that(1) w'(1) old by auto
      then have "jget (ew_pending w) (ep_id (obj w i)) = Some i" using store_okD(2) [OF ok] that(2) by simp
      then show ?thesis using f i w'(2) by (auto simp: jhas_def)
    qed (use w'(2) o that(1) in auto)
    show "\<exists>i \<in> set (ew_proposed w'). jget (ew_pending w') k = Some i" if "k \<in> set (ew_locallyProposed w')" for k
      using that store_okD(3) [OF ok, of k] w'(2,5) f by (auto simp: jhas_def)
    show "job_ok w' j" if "j \<in> set (ew_jobs w')" for j
      using that w'(6,4,1) store_okD(4) [OF ok, of j] old by (auto simp: job_ok_def split: witness_job.splits)
    show "i < length (ew_objects w')" if "i \<in> set (ew_proposed w')" for i
      using that store_okD(5) [OF ok, of i] w'(1,5) by auto
    show "i \<in> set (ew_proposed w') \<and> ep_status (obj w' i) \<noteq> es_pending" if "i \<in> set (ew_emitCalls w')" for i
      using that store_okD(5,7) [OF ok, of i] w'(3,5) old by auto
  qed (use store_okD(6,8) [OF ok] w'(2,3) in auto)
  moreover have "object_ok V st (ew_localPeerId w) p" using p by (simp add: object_ok_def)
  ultimately show ?thesis using inv w'(1,4) by (auto simp: emission_inv_def)
qed

lemma recordProposal_frame [simp]:
  "ew_objects (recordProposal now p w) = ew_objects w" "ew_pending (recordProposal now p w) = ew_pending w"
  "ew_locallyProposed (recordProposal now p w) = ew_locallyProposed w" "ew_jobs (recordProposal now p w) = ew_jobs w"
  "ew_proposed (recordProposal now p w) = ew_proposed w" "ew_localPeerId (recordProposal now p w) = ew_localPeerId w"
  "ew_emitCalls (recordProposal now p w) = ew_emitCalls w" "ew_ledger (recordProposal now p w) = ew_ledger w"
  "ew_dailyEmittedLux (recordProposal now p w) = ew_dailyEmittedLux w"
  by (simp_all add: recordProposal_def saveRateLimits_def)

lemma publish_gossip_frame [simp]:
  "ew_objects (publish_gossip net m w) = ew_objects w" "ew_pending (publish_gossip net m w) = ew_pending w"
  "ew_locallyProposed (publish_gossip net m w) = ew_locallyProposed w" "ew_jobs (publish_gossip net m w) = ew_jobs w"
  "ew_proposed (publish_gossip net m w) = ew_proposed w" "ew_localPeerId (publish_gossip net m w) = ew_localPeerId w"
  "ew_emitCalls (publish_gossip net m w) = ew_emitCalls w" "ew_ledger (publish_gossip net m w) = ew_ledger w"
  "ew_rateLimits (publish_gossip net m w) = ew_rateLimits w" "ew_dailyEmittedLux (publish_gossip net m w) = ew_dailyEmittedLux w"
  by (simp_all add: publish_gossip_def)

lemma emission_inv_jobs: "emission_inv V st w \<Longrightarrow> j \<in> set (ew_jobs w) \<Longrightarrow> job_ok w j"
  by (simp add: emission_inv_def store_ok_def)

lemma propose_inv:
  assumes inv: "emission_inv V st w" and f: "\<forall>p \<in> set (ew_objects w). ep_id p \<noteq> ident"
  shows "emission_inv V st (propose now net ident p wt wp w)"
proof (cases "propose_allowed now net p wp w")
  case True
  have "\<not> jhas (ew_pending w) ident"
  proof
    assume "jhas (ew_pending w) ident"
    then obtain i where "jget (ew_pending w) ident = Some i" by (auto simp: jhas_def)
    then have "i < length (ew_objects w)" "ep_id (obj w i) = ident" using inv by (auto simp: emission_inv_def store_ok_def)
    with f show False by (auto simp: obj_def)
  qed
  then show ?thesis
    using True append_object_inv [OF inv, of "new_proposal now ident p wt wp" "propose now net ident p wt wp w"]
    by (auto simp: propose_def Let_def new_proposal_def)
qed (use inv in \<open>simp add: propose_def\<close>)

lemma attest_inv:
  assumes inv: "emission_inv V st w"
  shows "emission_inv V st (attestProposal V now ident b w)"
proof -
  have "job_ok w (FinishAttest i ident b sg)" if "jget (ew_pending w) ident = Some i" "ep_peerId (obj w i) \<noteq> ew_localPeerId w" for i sg
    using that inv by (simp add: job_ok_def emission_inv_def store_ok_def)
  then show ?thesis
    using inv emission_inv_jobs [OF inv]
    by (auto simp: attestProposal_def Let_def intro!: emission_inv_frame [OF inv] split: option.split)
qed

lemma remote_proposal_inv:
  assumes inv: "emission_inv V st w"
  shows "emission_inv V st (handleRemoteProposal V now prop from w)"
proof -
  let ?w = "recordProposal now from w"
  let ?p = "prop\<lparr>ep_witnesses := [], ep_status := es_pending\<rparr>"
  have w: "emission_inv V st ?w" by (rule emission_inv_frame [OF inv]) (use emission_inv_jobs [OF inv] in auto)
  have "emission_inv V st (?w\<lparr>ew_objects := ew_objects ?w @ [?p], ew_pending := jset (ep_id prop) (length (ew_objects ?w)) (ew_pending ?w)\<rparr>)"
    if "\<not> jhas (ew_pending ?w) (ep_id prop)"
    by (rule append_object_inv [OF w, of ?p]) (use that in auto)
  with w inv show ?thesis by (auto simp: handleRemoteProposal_def Let_def intro!: attest_inv)
qed

lemma remote_attestation_inv:
  assumes inv: "emission_inv V st w"
  shows "emission_inv V st (handleRemoteAttestation V now h a from w)"
proof (cases "wa_witnessPeerId a \<noteq> from \<or> \<not> attestation_verified V a")
  case False
  show ?thesis
  proof (cases "jget (ew_pending w) (wa_proposalId a)")
    case (Some i)
    then have i: "i < length (ew_objects w)" "ep_id (obj w i) = wa_proposalId a"
      using inv by (auto simp: emission_inv_def store_ok_def)
    let ?w = "w\<lparr>ew_processedAttestations := sadd (attest_key (wa_witnessPeerId a) (wa_proposalId a)) (ew_processedAttestations w)\<rparr>"
    have w: "emission_inv V st ?w" by (rule emission_inv_frame [OF inv]) (use emission_inv_jobs [OF inv] in auto)
    have "emission_inv V st (add_attestation V now h i a ?w)" if "wa_witnessPeerId a \<noteq> ep_peerId (obj w i)"
      by (rule add_attestation_inv [OF w]) (use i False that in \<open>auto simp: good_witness_def\<close>)
    with w inv Some False show ?thesis by (auto simp: handleRemoteAttestation_def Let_def)
  qed (use inv in \<open>simp add: handleRemoteAttestation_def\<close>)
qed (use inv in \<open>simp add: handleRemoteAttestation_def\<close>)

lemma finish_propose_inv:
  assumes inv: "emission_inv V st w" and i: "i < length (ew_objects w)"
    and big: "st \<Longrightarrow> BOOTSTRAP_NODE_THRESHOLD \<le> net_peerCount net"
  shows "emission_inv V st (finish_propose V now net h i w)"
proof (cases "net_peerCount net < BOOTSTRAP_NODE_THRESHOLD")
  case True
  let ?w = "resetDailyCountersIfNeeded now w"
  have w: "emission_inv V st ?w" by (rule emission_inv_frame [OF inv]) (use emission_inv_jobs [OF inv] in auto)
  have "emission_inv V st (finalizeProposal V now h i True ?w)"
  proof (cases "ep_status (obj ?w i) = es_pending")
    case True
    show ?thesis
      by (rule settled_inv [OF w _ True finalize_settles [OF _ True]])
         (use i big \<open>net_peerCount net < BOOTSTRAP_NODE_THRESHOLD\<close> in auto)
  qed (use w finalize_done in metis)
  with w show ?thesis using True by (simp add: finish_propose_def split_beta)
qed (use inv in \<open>simp add: finish_propose_def\<close>)

lemma finish_attest_inv:
  assumes inv: "emission_inv V st w" and j: "job_ok w (FinishAttest i ident b sg)"
  shows "emission_inv V st (finish_attest V now net h i ident b sg w)"
proof -
  let ?w = "w\<lparr>ew_processedAttestations := sadd (attest_key (ew_localPeerId w) ident) (ew_processedAttestations w)\<rparr>"
  let ?a = "\<lparr>wa_witnessPeerId = ew_localPeerId w, wa_proposalId = ident, wa_approved = b, wa_signature = sg, wa_timestamp = now\<rparr>"
  have w: "emission_inv V st ?w" by (rule emission_inv_frame [OF inv]) (use emission_inv_jobs [OF inv] in auto)
  have a: "emission_inv V st (add_attestation V now h i ?a ?w)"
    by (rule add_attestation_inv [OF w]) (use j in \<open>auto simp: good_witness_def job_ok_def\<close>)
  show ?thesis unfolding finish_attest_def Let_def
    by (rule emission_inv_frame [OF a]) (use emission_inv_jobs [OF a] in auto)
qed

lemma resume_inv:
  assumes inv: "emission_inv V st w" and big: "st \<Longrightarrow> BOOTSTRAP_NODE_THRESHOLD \<le> net_peerCount net"
  shows "emission_inv V st (resume_witness V now net h j w)"
proof (cases "j < length (ew_jobs w)")
  case True
  let ?w = "w\<lparr>ew_jobs := take j (ew_jobs w) @ drop (Suc j) (ew_jobs w)\<rparr>"
  have ok: "job_ok w (ew_jobs w ! j)" using inv True by (intro emission_inv_jobs [OF inv]) simp
  have w: "emission_inv V st ?w"
    by (rule emission_inv_frame [OF inv]) (use emission_inv_jobs [OF inv] in \<open>auto dest: in_set_takeD in_set_dropD\<close>)
  have "job_ok ?w (ew_jobs w ! j)" using ok by (simp add: job_ok_def split: witness_job.splits)
  with True show ?thesis
    using finish_propose_inv [OF w _ big] finish_attest_inv [OF w]
    by (cases "ew_jobs w ! j") (simp_all add: resume_witness_def job_ok_def)
qed (use inv in \<open>simp add: resume_witness_def\<close>)

lemma expire_all_inv:
  assumes "emission_inv V st w" "\<forall>(k, i) \<in> set es. jget (ew_pending w) k = Some i" "distinct (map fst es)"
  shows "emission_inv V st (fold (\<lambda>(_, i). expire_pending now i) es w)"
  using assms
proof (induction es arbitrary: w)
  case (Cons e es)
  obtain k i where e: "e = (k, i)" by (cases e)
  have i: "i < length (ew_objects w)" "ep_id (obj w i) = k" "ep_status (obj w i) = es_pending"
    using Cons.prems(1,2) e by (auto simp: emission_inv_def store_ok_def)
  have "ew_pending (expire_pending now i w) = ew_pending w \<or> ew_pending (expire_pending now i w) = jdel k (ew_pending w)"
    using expire_settles [OF i(1), of now] i(2) by (auto simp: settled_def)
  then have "\<forall>(k', i') \<in> set es. jget (ew_pending (expire_pending now i w)) k' = Some i'"
    using Cons.prems(2,3) e by (fastforce simp: image_iff)
  with Cons expired_inv [OF Cons.prems(1) i(1,3)] e show ?case by simp
qed simp

lemma cleanup_inv:
  assumes inv: "emission_inv V st w"
  shows "emission_inv V st (emission_cleanup now w)"
proof -
  let ?w = "fold (\<lambda>(_, i). expire_pending now i) (ew_pending w) w"
  have "jwf (ew_pending w)" using inv by (simp add: emission_inv_def store_ok_def)
  then have w: "emission_inv V st ?w"
    using jget_mem by (intro expire_all_inv [OF inv]) (auto simp: jwf_def)
  show ?thesis unfolding emission_cleanup_def Let_def
    by (rule emission_inv_frame [OF w]) (use emission_inv_jobs [OF w] in \<open>auto split: if_splits\<close>)
qed

lemma step_inv:
  assumes "witness_step V N L now w w'" "emission_inv V st w"
    and "\<And>net. st \<Longrightarrow> N net \<Longrightarrow> BOOTSTRAP_NODE_THRESHOLD \<le> net_peerCount net"
  shows "emission_inv V st w'"
  using assms
proof (cases rule: witness_step.cases)
  case (message "from" hash m)
  then show ?thesis using assms(2) by (cases m) (simp_all add: remote_proposal_inv remote_attestation_inv)
next
  case (ledger s)
  then show ?thesis using assms(2) emission_inv_frame [OF assms(2), of "w\<lparr>ew_ledger := s\<rparr>"] emission_inv_jobs [OF assms(2)] by simp
qed (simp_all add: propose_inv resume_inv cleanup_inv)

lemma run_inv:
  assumes "witness_run V N L t w t' w'" "emission_inv V st w"
    and "\<And>net. st \<Longrightarrow> N net \<Longrightarrow> BOOTSTRAP_NODE_THRESHOLD \<le> net_peerCount net"
  shows "emission_inv V st w'"
  using assms by (induction rule: witness_run.induct) (auto intro: step_inv)

lemma init_inv: "emission_inv V st (EmissionWitness_init now self s f)"
  by (simp add: emission_inv_def store_ok_def EmissionWitness_init_def)

section \<open>Rate limits\<close>

definition rates_ok :: "time \<Rightarrow> 's emission_witness \<Rightarrow> bool" where
  "rates_ok now w = jall (\<lambda>_ ts. length (recent now ts) \<le> RATE_LIMIT_PER_HOUR) (ew_rateLimits w)"

lemma recent_mono: "t \<le> now \<Longrightarrow> length (recent now ts) \<le> length (recent t ts)"
  by (induction ts) (auto simp: recent_def)

lemma recent_recent [simp]: "recent now (recent now ts) = recent now ts"
  by (simp add: recent_def)

lemma rates_later: "rates_ok t w \<Longrightarrow> t \<le> now \<Longrightarrow> rates_ok now w"
  unfolding rates_ok_def by (erule jall_mono) (blast intro: order_trans recent_mono)

lemma rates_cong: "ew_rateLimits w' = ew_rateLimits w \<Longrightarrow> rates_ok now w' = rates_ok now w"
  by (simp add: rates_ok_def)

lemma rates_record:
  assumes "rates_ok now w" "checkRateLimit now p w"
  shows "rates_ok now (recordProposal now p w)"
proof -
  have "recent now (recent now (timestamps_of w p) @ [now]) = recent now (timestamps_of w p) @ [now]"
    by (simp add: recent_def RATE_LIMIT_WINDOW_MS_def)
  with assms show ?thesis
    by (auto simp: rates_ok_def recordProposal_def saveRateLimits_def checkRateLimit_def intro!: jall_jset)
qed

lemma rates_frame [simp]:
  "ew_rateLimits (finalizeProposal V now h i b w) = ew_rateLimits w"
  "ew_rateLimits (attestProposal V now ident c w) = ew_rateLimits w"
  "ew_rateLimits (expire_pending now i w) = ew_rateLimits w"
  by (auto simp: finalizeProposal_def split_beta call_emit_def apply_emit_result_def attestProposal_def expire_pending_def Let_def
      split: option.split emit_result.split)

lemma rates_add [simp]: "ew_rateLimits (add_attestation V now h i a w) = ew_rateLimits w"
  by (simp add: add_attestation_def Let_def)

lemma rates_resume [simp]: "ew_rateLimits (resume_witness V now net h j w) = ew_rateLimits w"
  by (cases "ew_jobs w ! j") (simp_all add: resume_witness_def finish_propose_def finish_attest_def split_beta Let_def)

lemma rates_expire_all [simp]: "ew_rateLimits (fold (\<lambda>(_, i). expire_pending now i) es w) = ew_rateLimits w"
  by (induction es arbitrary: w) (simp_all add: split_beta)

lemma rates_step:
  assumes "witness_step V N L now w w'" "rates_ok now w"
  shows "rates_ok now w'"
  using assms
proof (cases rule: witness_step.cases)
  case (propose net ident p wt wp)
  show ?thesis
  proof (cases "propose_allowed now net p wp w")
    case True
    then have "rates_ok now (recordProposal now p w)" by (intro rates_record [OF assms(2)]) (simp add: propose_allowed_def)
    then show ?thesis using True propose(1) by (simp add: propose_def Let_def rates_ok_def)
  qed (use propose assms in \<open>simp add: propose_def\<close>)
next
  case (message "from" hash m)
  have "rates_ok now (handleRemoteProposal V now q from w)" for q
    using rates_record [OF assms(2)] assms(2) by (simp add: handleRemoteProposal_def Let_def rates_ok_def)
  moreover have "rates_ok now (handleRemoteAttestation V now hash a from w)" for a
    using assms(2) by (simp add: handleRemoteAttestation_def Let_def rates_ok_def split: option.split)
  ultimately show ?thesis using message assms(2) by (cases m) simp_all
next
  case tidy
  then show ?thesis using assms(2) by (auto simp: emission_cleanup_def Let_def rates_ok_def jall_iff)
qed (simp_all add: rates_ok_def)

lemma rates_run: "witness_run V N L t w t' w' \<Longrightarrow> rates_ok t w \<Longrightarrow> rates_ok t' w'"
  by (induction rule: witness_run.induct) (auto intro: rates_step rates_later)

lemma rates_load:
  assumes "\<forall>(p, n, t0) \<in> set es. n \<le> RATE_LIMIT_PER_HOUR"
  shows "jall (\<lambda>_ ts. length (recent now ts) \<le> RATE_LIMIT_PER_HOUR) (loadRateLimits now (Some es))"
proof -
  have "jall (\<lambda>_ ts. length (recent now ts) \<le> RATE_LIMIT_PER_HOUR) (fold (\<lambda>(p, n, t0) m. if now - t0 < RATE_LIMIT_WINDOW_MS
      then jset p (map (\<lambda>i. t0 + int i) [0..<n]) m else m) es m)"
    if "jall (\<lambda>_ ts. length (recent now ts) \<le> RATE_LIMIT_PER_HOUR) m" for m
    using assms that
  proof (induction es arbitrary: m)
    case (Cons e es)
    obtain p n t0 where e: "e = (p, n, t0)" by (cases e)
    have "length (recent now (map (\<lambda>i. t0 + int i) [0..<n])) \<le> n"
      unfolding recent_def by (rule order_trans [OF length_filter_le]) simp
    with Cons e show ?case by (auto intro!: Cons.IH jall_jset)
  qed simp
  then show ?thesis by (simp add: loadRateLimits_def)
qed

section \<open>The daily cap\<close>

lemma ulp_exp_256:
  assumes "256 \<le> x" "x < 512"
  shows "ulp_exp x = - 44"
proof -
  have "ilog2 x = 8" by (rule ilog2_unique) (use assms in simp_all)
  then show ?thesis using assms by (simp add: ulp_exp_def)
qed

text \<open>When the estimate of 25 still fits, at most 475 Lux were emitted: no rounding hides an excess.\<close>

lemma cap_room:
  assumes "is_double x" "fadd x 25 \<le> 500"
  shows "x \<le> 475"
proof (rule ccontr)
  assume "\<not> x \<le> 475"
  then consider "487 \<le> x" | "475 < x" "x < 487" by linarith
  then show False
  proof cases
    case 1
    have "fl 512 \<le> fl (x + 25)" using 1 by (intro fl_mono) simp
    moreover have "fl 512 = 512" by code_simp
    ultimately show False using assms(2) by (simp add: fadd_def)
  next
    case 2
    define m where "m = round_half_even (x / 2 powi - 44)"
    have "x = fl x" using fl_double [OF assms(1)] by simp
    also have "\<dots> = of_int m * 2 powi - 44" using ulp_exp_256 [of x] 2 by (simp add: fl_def m_def)
    finally have x: "x = of_int m * 2 powi - 44" .
    have "x + 25 = of_int (m + 25 * 2 ^ 44) * 2 powi - 44" by (subst x) (simp add: power_int_minus field_simps)
    then have "x + 25 = of_int (m + 25 * 2 ^ 44) * 2 powi ulp_exp (x + 25)" using ulp_exp_256 [of "x + 25"] 2 by simp
    then have "fl (x + 25) = x + 25" using fl_as_int 2 by (metis add_pos_pos less_trans zero_less_numeral)
    with assms(2) 2 show False by (simp add: fadd_def)
  qed
qed

text \<open>
  What the witness relies on of the minting callback: a condition on the ledger that callback and
  node keep, under which a minted amount is at most 125 Lux (the largest reward, 25, times the largest multiplier, 5).
\<close>

locale minting =
  fixes V :: "'s witness_env" and ok :: "'s \<Rightarrow> bool" and L :: "'s \<Rightarrow> 's \<Rightarrow> bool"
  assumes emit_keeps: "we_emit V = Some cb \<Longrightarrow> ok s \<Longrightarrow> ok (fst (cb now h p wt wp s))"
    and emit_amount: "we_emit V = Some cb \<Longrightarrow> ok s \<Longrightarrow> snd (cb now h p wt wp s) = Minted tx \<Longrightarrow> 0 \<le> tx_amount tx \<and> tx_amount tx \<le> 125"
    and node_keeps: "ok s \<Longrightarrow> L s s' \<Longrightarrow> ok s'"
begin

definition daily_inv :: "'s emission_witness \<Rightarrow> bool" where
  "daily_inv w = (ok (ew_ledger w) \<and> is_double (ew_dailyEmittedLux w) \<and> 0 \<le> ew_dailyEmittedLux w \<and> ew_dailyEmittedLux w \<le> 600)"

lemma daily_cong: "ew_ledger w' = ew_ledger w \<Longrightarrow> ew_dailyEmittedLux w' = ew_dailyEmittedLux w \<Longrightarrow> daily_inv w' = daily_inv w"
  by (simp add: daily_inv_def)

lemma is_double_0: "is_double 0"
  using is_double_fl [of 0] by simp

lemma daily_reset: "daily_inv w \<Longrightarrow> daily_inv (resetDailyCountersIfNeeded now w)"
  using is_double_0 by (auto simp: daily_inv_def resetDailyCountersIfNeeded_def Let_def)

lemma daily_record:
  assumes "ok (ew_ledger w)" "is_double (ew_dailyEmittedLux w)" "0 \<le> ew_dailyEmittedLux w" "ew_dailyEmittedLux w \<le> 475"
    and "0 \<le> a" "a \<le> 125"
  shows "daily_inv (recordDailyEmission now a b w)"
proof -
  have "fl (x + a) \<le> 600" if "x \<le> 475" for x
  proof -
    have "fl (x + a) \<le> fl 600" using that assms(6) by (intro fl_mono) simp
    also have "\<dots> = 600" by code_simp
    finally show ?thesis .
  qed
  with assms show ?thesis
    by (auto simp: daily_inv_def recordDailyEmission_def resetDailyCountersIfNeeded_def Let_def fadd_def is_double_fl intro!: fl_nonneg)
qed

lemma daily_call:
  assumes w: "daily_inv w" and room: "ew_dailyEmittedLux w \<le> 475"
  shows "daily_inv (call_emit V now h i b w)"
proof (cases "we_emit V")
  case (Some cb)
  let ?r = "cb now h (ep_peerId (obj w i)) (ep_workType (obj w i)) (ep_workProof (obj w i)) (ew_ledger w)"
  let ?w = "w\<lparr>ew_ledger := fst ?r, ew_emitCalls := ew_emitCalls w @ [i]\<rparr>"
  have ok: "ok (fst ?r)" using emit_keeps [OF Some] w by (simp add: daily_inv_def)
  have "daily_inv (apply_emit_result now i b (snd ?r) ?w)"
  proof (cases "snd ?r")
    case (Minted tx)
    have "0 \<le> tx_amount tx \<and> tx_amount tx \<le> 125" using emit_amount [OF Some _ Minted] w by (simp add: daily_inv_def)
    then show ?thesis using w ok room
      unfolding Minted apply_emit_result_def emit_result.case by (intro daily_record) (simp_all add: daily_inv_def)
  qed (use w ok in \<open>simp_all add: apply_emit_result_def daily_inv_def\<close>)
  with w Some show ?thesis by (simp add: call_emit_def Let_def)
qed (use w in \<open>simp add: call_emit_def\<close>)

lemma daily_finalize:
  assumes "daily_inv w"
  shows "daily_inv (finalizeProposal V now h i b w)"
proof -
  let ?w = "resetDailyCountersIfNeeded now w"
  have w: "daily_inv ?w" using daily_reset [OF assms] .
  let ?u = "(upd_obj i (\<lambda>p. p\<lparr>ep_status := es_approved, ep_finalizedAt := Some now\<rparr>) ?w)\<lparr>ew_totalApproved := ew_totalApproved ?w + 1\<rparr>"
  have u: "daily_inv ?u" "ew_dailyEmittedLux ?u = ew_dailyEmittedLux ?w" using w daily_cong [of ?u ?w] by simp_all
  have "daily_inv (call_emit V now h i b ?u)" if "fadd (ew_dailyEmittedLux ?w) 25 \<le> 500"
  proof -
    have "ew_dailyEmittedLux ?u \<le> 475" using cap_room [OF _ that] w u(2) by (simp add: daily_inv_def)
    then show ?thesis using u(1) by (rule daily_call [rotated])
  qed
  then show ?thesis using w assms
    by (simp add: finalizeProposal_def wouldExceedDailyCap_def Let_def split_beta DAILY_EMISSION_CAP_def daily_inv_def)
qed

end

lemma ledger_daily_frame [simp]:
  "ew_ledger (attestProposal V now ident c w) = ew_ledger w" "ew_dailyEmittedLux (attestProposal V now ident c w) = ew_dailyEmittedLux w"
  "ew_ledger (expire_pending now i w) = ew_ledger w" "ew_dailyEmittedLux (expire_pending now i w) = ew_dailyEmittedLux w"
  by (simp_all add: attestProposal_def expire_pending_def Let_def split: option.split)

lemma expire_all_daily [simp]:
  "ew_ledger (fold (\<lambda>(_, i). expire_pending now i) es w) = ew_ledger w"
  "ew_dailyEmittedLux (fold (\<lambda>(_, i). expire_pending now i) es w) = ew_dailyEmittedLux w"
  by (induction es arbitrary: w) (simp_all add: split_beta)

context minting
begin

lemma daily_upd [simp]: "daily_inv (upd_obj i f w) = daily_inv w"
  by (rule daily_cong) simp_all

lemma daily_add: "daily_inv w \<Longrightarrow> daily_inv (add_attestation V now h i a w)"
  by (simp add: add_attestation_def Let_def daily_finalize)

lemma daily_resume: "daily_inv w \<Longrightarrow> daily_inv (resume_witness V now net h j w)"
proof (cases "ew_jobs w ! j")
  case (FinishPropose i)
  assume w: "daily_inv w"
  let ?w = "w\<lparr>ew_jobs := take j (ew_jobs w) @ drop (Suc j) (ew_jobs w)\<rparr>"
  have "daily_inv (resetDailyCountersIfNeeded now ?w)" using w by (intro daily_reset) (simp add: daily_inv_def)
  then show ?thesis using FinishPropose w daily_finalize
    by (auto simp: resume_witness_def finish_propose_def split_beta daily_cong [of ?w w])
next
  case (FinishAttest i ident b sg)
  assume w: "daily_inv w"
  have "daily_inv (publish_gossip net m (add_attestation V now h i a u))" if "daily_inv u" for m a u
    using daily_add [OF that] by (simp add: daily_inv_def)
  then show ?thesis using FinishAttest w by (simp add: resume_witness_def finish_attest_def Let_def daily_inv_def)
qed

lemma daily_step:
  assumes "witness_step V N L now w w'" "daily_inv w"
  shows "daily_inv w'"
  using assms
proof (cases rule: witness_step.cases)
  case (message "from" hash m)
  have "daily_inv (handleRemoteProposal V now q from w)" for q
    using assms(2) by (simp add: handleRemoteProposal_def Let_def daily_inv_def)
  moreover have "daily_inv (handleRemoteAttestation V now hash a from w)" for a
    using assms(2) daily_add by (auto simp: handleRemoteAttestation_def Let_def daily_cong [of "ew_processedAttestations_update f w" w for f]
        split: option.split)
  ultimately show ?thesis using message assms(2) by (cases m) simp_all
next
  case (resume net hash j)
  then show ?thesis using daily_resume assms(2) by simp
next
  case (ledger s)
  then show ?thesis using node_keeps assms(2) by (auto simp: daily_inv_def)
qed (auto simp: daily_inv_def propose_def emission_cleanup_def Let_def)

lemma daily_run: "witness_run V N L t w t' w' \<Longrightarrow> daily_inv w \<Longrightarrow> daily_inv w'"
  by (induction rule: witness_run.induct) (auto intro: daily_step)

end

text \<open>The node's callback over the synchronized ledger provides it.\<close>

definition node_env :: "(peer_id \<Rightarrow> string option) \<Rightarrow> (attestation_message \<Rightarrow> string \<Rightarrow> string \<Rightarrow> bool) \<Rightarrow>
    (attestation_message \<Rightarrow> string) \<Rightarrow> ledger_sync witness_env" where
  "node_env pk verify sign = \<lparr>we_emit = Some mint_callback, we_publicKey = pk, we_verify = verify, we_sign = sign\<rparr>"

definition sync_sound :: "ledger_sync \<Rightarrow> bool" where
  "sync_sound s = (money_ok (ls_ledger s) \<and> (\<forall>j \<in> set (ls_jobs s). 0 < tx_amount (job_tx j)))"

lemma work_reward_le: "work_reward d wt \<le> 125"
proof -
  have "fmul (EMISSION_REWARDS wt) (of_int m) \<le> 125" if "m \<in> {1, 2, 3, 5}" for m
    using that by (cases wt; simp only: insert_iff empty_iff; elim disjE; simp only:; code_simp)
  then show ?thesis using getMultiplier_units [of d] by (simp add: work_reward_def)
qed

lemma capped_amount_le:
  assumes "capped_amount d a = Some a'" "fl a = a"
  shows "a' \<le> a"
proof (cases "LUX_HARD_CAP < fadd (getTotalSupply d) a")
  case True
  have "LUX_HARD_CAP < getTotalSupply d + a"
  proof (rule ccontr)
    assume "\<not> LUX_HARD_CAP < getTotalSupply d + a"
    then have "fadd (getTotalSupply d) a \<le> fl LUX_HARD_CAP" unfolding fadd_def by (intro fl_mono) simp
    moreover have "fl LUX_HARD_CAP = LUX_HARD_CAP" by code_simp
    ultimately show False using True by simp
  qed
  then have "fsub LUX_HARD_CAP (getTotalSupply d) \<le> fl a" unfolding fsub_def by (intro fl_mono) simp
  with assms True show ?thesis by (auto simp: capped_amount_def Let_def split: if_splits)
qed (use assms in \<open>auto simp: capped_amount_def Let_def\<close>)

lemma minted_amount:
  assumes "rewardWork now h p wt wp d = Inr (d', tx)" "supply_within_cap d"
  shows "0 \<le> tx_amount tx \<and> tx_amount tx \<le> 125"
proof -
  have "emit now h p (work_reward d wt) wt wp d = Inr (d', tx)" using assms(1) by (simp add: rewardWork_def split: if_splits)
  then show ?thesis
  proof (cases rule: emit_InrD)
    case (1 a' d2)
    have "fl (work_reward d wt) = work_reward d wt" by (simp add: work_reward_def fmul_def fl_double [OF is_double_fl])
    from capped_amount_le [OF 1(3) this] work_reward_le [of d wt] capped_amount_bounds(1) [OF assms(2) 1(3,1)] 1(4)
    show ?thesis by simp
  qed
qed

interpretation node_mint: minting "node_env pk verify sign" sync_sound "sync_step E" for pk verify sign E
proof unfold_locales
  show "sync_sound (fst (cb now h p wt wp s))" if "we_emit (node_env pk verify sign) = Some cb" "sync_sound s" for cb now h p wt wp s
  proof -
    have cb: "cb = mint_callback" using that(1) by (simp add: node_env_def)
    have "money_ok d'" if "rewardWork now h p wt wp (ls_ledger s) = Inr (d', tx)" for d' tx
      using money_ok_local [OF ledger_step.reward [OF that]] \<open>sync_sound s\<close> by (simp add: sync_sound_def)
    then show ?thesis using that(2) unfolding cb mint_callback_def by (auto simp: sync_sound_def split: sum.split)
  qed
  show "0 \<le> tx_amount tx \<and> tx_amount tx \<le> 125"
    if "we_emit (node_env pk verify sign) = Some cb" "sync_sound s" "snd (cb now h p wt wp s) = Minted tx" for cb s now h p wt wp tx
    using that minted_amount [of now h p wt wp "ls_ledger s"]
    by (auto simp: node_env_def mint_callback_def sync_sound_def money_ok_def split: sum.splits)
  show "sync_sound s'" if "sync_sound s" "sync_step E s s'" for s s'
    using money.ok_step [OF that(2)] that(1) by (simp add: sync_sound_def)
qed

section \<open>Properties\<close>

text \<open>C9: Approval needs independent witnesses. On a network of three or more peers, in every state of every run (any messages,
  any interleaving of the awaited continuations, any clock) a proposal is approved only after at least two approving
  attestations; every attestation on a proposal names it, comes from someone other than its recipient, and was either
  verified against the witness's key or made by this node.\<close>

theorem approval_needs_quorum:
  assumes "witness_run V N L t (EmissionWitness_init t0 self s f) t' w"
    and "\<And>net. N net \<Longrightarrow> 3 \<le> net_peerCount net" and "p \<in> set (ew_objects w)"
  shows "(ep_status p = es_approved \<longrightarrow> 2 \<le> length (filter wa_approved (ep_witnesses p))) \<and>
    (\<forall>a \<in> set (ep_witnesses p). wa_proposalId a = ep_id p \<and> wa_witnessPeerId a \<noteq> ep_peerId p \<and>
       (wa_witnessPeerId a = ew_localPeerId w \<or> attestation_verified V a))"
proof -
  have "emission_inv V True w" using run_inv [OF assms(1) init_inv] assms(2) by (simp add: BOOTSTRAP_NODE_THRESHOLD_def)
  with assms(3) have "object_ok V True (ew_localPeerId w) p" by (simp add: emission_inv_def)
  then show ?thesis by (auto simp: object_ok_def good_witness_def approvals_def QUORUM_REQUIRED_def)
qed

text \<open>A callback that counts its calls, signatures that name key and approval, and a network of three peers.\<close>

definition demo_wenv :: "nat witness_env" where
  "demo_wenv = \<lparr>we_emit = Some (\<lambda>now h p wt wp n. (n + 1, Minted \<lparr>tx_id = h, tx_from = NETWORK_ACCOUNT, tx_to = p, tx_amount = 25,
       tx_fee = 0, tx_relay = None, tx_type = EMISSION, tx_timestamp = now, tx_signature = ''network-emission''\<rparr>)),
     we_publicKey = (\<lambda>p. Some (''key-'' @ p)), we_verify = (\<lambda>m sg k. sg = k),
     we_sign = (\<lambda>m. ''key-'' @ am_from m)\<rparr>"

definition three_peers :: "network_view option" where
  "three_peers = Some \<lparr>nv_peerCount = 3, nv_peers = [''ann'', ''ben'', ''cat'']\<rparr>"

definition attest_by :: "peer_id \<Rightarrow> string \<Rightarrow> WitnessAttestation" where
  "attest_by p sg = \<lparr>wa_witnessPeerId = p, wa_proposalId = ''id1'', wa_approved = True, wa_signature = sg, wa_timestamp = 10\<rparr>"

definition w_proposed :: "nat emission_witness" where
  "w_proposed = propose 5 three_peers ''id1'' ''me'' TASK_COMPLETED ''task deadbeef01'' (EmissionWitness_init 0 ''me'' 0 None)"

definition w_one :: "nat emission_witness" where
  "w_one = emission_handleMessage demo_wenv 10 ''h1'' (gossip_attestation (attest_by ''ann'' ''key-ann'')) ''ann'' w_proposed"

definition w_two :: "nat emission_witness" where
  "w_two = emission_handleMessage demo_wenv 12 ''h2'' (gossip_attestation (attest_by ''ben'' ''key-ben'')) ''ben'' w_one"

lemma w_two_run: "witness_run demo_wenv (\<lambda>net. net = three_peers) (\<lambda>_ _. False) 0 (EmissionWitness_init 0 ''me'' 0 None) 12 w_two"
proof -
  have "witness_run demo_wenv (\<lambda>net. net = three_peers) (\<lambda>_ _. False) 0 (EmissionWitness_init 0 ''me'' 0 None) 5 w_proposed"
    unfolding w_proposed_def
    by (rule witness_run.further [OF witness_run.start _ witness_step.propose]) (simp_all add: EmissionWitness_init_def)
  then have "witness_run demo_wenv (\<lambda>net. net = three_peers) (\<lambda>_ _. False) 0 (EmissionWitness_init 0 ''me'' 0 None) 10 w_one"
    unfolding w_one_def by (rule witness_run.further [OF _ _ witness_step.message]) (simp, code_simp)
  then show ?thesis
    unfolding w_two_def by (rule witness_run.further [OF _ _ witness_step.message]) (simp, code_simp)
qed

theorem approval_needs_quorum_witness:
  "map ep_status (ew_objects w_one) = [es_pending] \<and>
   (\<exists>p. ew_objects w_two = [p] \<and> ep_status p = es_approved \<and> 2 \<le> length (filter wa_approved (ep_witnesses p)))"
proof -
  have st: "map ep_status (ew_objects w_one) = [es_pending]" "map ep_status (ew_objects w_two) = [es_approved]" by code_simp+
  from st(2) obtain p where p: "ew_objects w_two = [p]" "ep_status p = es_approved" by auto
  have "3 \<le> net_peerCount three_peers" by code_simp
  with p show ?thesis using st(1) approval_needs_quorum [OF w_two_run, of p] by auto
qed

text \<open>C10: Minting happens at most once per proposal and only for proposals this node made itself: in every run the
  callback was called for pairwise distinct proposal objects, each created by this node's \<^verbatim>\<open>propose\<close> and no longer
  pending; a proposal learned from the network is never minted here.\<close>

theorem minted_once_and_only_by_proposer:
  assumes "witness_run V N L t (EmissionWitness_init t0 self s f) t' w"
  shows "distinct (ew_emitCalls w) \<and> set (ew_emitCalls w) \<subseteq> set (ew_proposed w) \<and>
    (\<forall>i \<in> set (ew_emitCalls w). i < length (ew_objects w) \<and> ep_status (ew_objects w ! i) \<noteq> es_pending)"
proof -
  have "store_ok w" using run_inv [OF assms init_inv, of False] by (simp add: emission_inv_def)
  from store_okD [OF this] show ?thesis by (auto simp: obj_def)
qed

theorem minted_once_and_only_by_proposer_witness:
  "ew_emitCalls w_two = [0] \<and> ew_ledger w_two = 1 \<and> distinct (ew_emitCalls w_two) \<and> set (ew_emitCalls w_two) \<subseteq> set (ew_proposed w_two)"
  using minted_once_and_only_by_proposer [OF w_two_run] by code_simp

text \<open>The hourly limit holds across restarts: at every moment of every run at most ten proposals of a peer were
  recorded within the last hour, whatever the network sends, provided the restored file claims no more; and once ten are
  recorded, a further proposal for that peer changes nothing.\<close>

lemma rate_limit_holds:
  assumes "witness_run V N L t (EmissionWitness_init t self s (Some es)) t' w" and "\<forall>(p, n, t0) \<in> set es. n \<le> 10"
  shows "length (recent t' (timestamps_of w p)) \<le> 10 \<and>
    (length (recent t' (timestamps_of w p)) = 10 \<longrightarrow> propose t' net ident p wt wp w = w)"
proof -
  have "rates_ok t (EmissionWitness_init t self s (Some es))"
    using rates_load [of es t] assms(2) by (simp add: rates_ok_def EmissionWitness_init_def RATE_LIMIT_PER_HOUR_def)
  from rates_run [OF assms(1) this] have "length (recent t' (timestamps_of w p)) \<le> 10"
    by (auto simp: rates_ok_def timestamps_of_def RATE_LIMIT_PER_HOUR_def recent_def split: option.split dest: jall_jget)
  then show ?thesis by (simp add: propose_def propose_allowed_def checkRateLimit_def RATE_LIMIT_PER_HOUR_def)
qed

lemma rate_limit_holds_witness:
  "let w = EmissionWitness_init 1000 ''me'' (0::nat) (Some [(''ann'', 10, 5)]) in
   length (recent 1000 (timestamps_of w ''ann'')) = 10 \<and> propose 1000 None ''x'' ''ann'' VOTE_CAST ''vote deadbeef01'' w = w"
proof -
  let ?w = "EmissionWitness_init 1000 ''me'' (0::nat) (Some [(''ann'', 10, 5)])"
  have "witness_run demo_wenv (\<lambda>_. True) (\<lambda>_ _. False) 1000 ?w 1000 ?w" by (rule witness_run.start)
  moreover have "length (recent 1000 (timestamps_of ?w ''ann'')) = 10" by code_simp
  ultimately show ?thesis using rate_limit_holds [of demo_wenv "\<lambda>_. True" "\<lambda>_ _. False" 1000 "''me''" 0] by simp
qed


definition solo_sync :: ledger_sync where
  "solo_sync = LedgerSync_init 0 (fst (accounts_create 1 ''me'' ''key-me'' (openDatabase 0 empty_database))) ''me''"

definition solo_env :: "ledger_sync witness_env" where
  "solo_env = node_env (\<lambda>p. None) (\<lambda>_ _ _. False) (\<lambda>_. '''')"

definition solo_run :: "ledger_sync emission_witness" where
  "solo_run = resume_witness solo_env 6 None ''h1'' 0
     (propose 5 None ''id1'' ''me'' GUEST_WELCOME ''guest deadbeef01'' (EmissionWitness_init 0 ''me'' solo_sync None))"


text \<open>A node can count itself twice. The check for an earlier own attestation precedes the await of the signature and the
  key is stored after it, so when a peer sends the same proposal twice before the first signature is ready, the node
  attests twice and takes its own two attestations for a quorum, with no other witness.\<close>

definition ann_proposal :: EmissionProposal where
  "ann_proposal = new_proposal 1 ''id9'' ''ann'' CODE_VERIFIED ''review cafebabe77''"

lemma own_attestation_counted_twice:
  "(let w0 = EmissionWitness_init 0 ''me'' (0::nat) None;
        w1 = emission_handleMessage demo_wenv 2 ''h'' (gossip_proposal ann_proposal) ''ann'' w0;
        w2 = emission_handleMessage demo_wenv 3 ''h'' (gossip_proposal ann_proposal) ''ann'' w1;
        w3 = resume_witness demo_wenv 4 three_peers ''h'' 0 w2;
        w4 = resume_witness demo_wenv 5 three_peers ''h'' 0 w3
    in map ep_status (ew_objects w4) = [es_approved] \<and>
       map (map wa_witnessPeerId \<circ> ep_witnesses) (ew_objects w4) = [[''me'', ''me'']])"
  by code_simp

text \<open>A node that proposes on behalf of another recipient broadcasts under its own id, and every receiver drops a
  proposal whose recipient differs from the sender, so such a proposal collects no witness.\<close>

lemma linked_recipient_is_dropped: "ep_peerId q \<noteq> from \<Longrightarrow> emission_handleMessage V now h (gossip_proposal q) from w = w"
  by (simp add: handleRemoteProposal_def)

end
