(* ===== verification/PaymentGate.thy ===== *)
theory PaymentGate
  imports Ledger
begin

text \<open>
  \<^verbatim>\<open>PaymentGate\<close> (\<^verbatim>\<open>packages/node/src/core/payment-gate.ts\<close>): payments held in escrow while a task
  runs. As in the source, the gate knows the ledger only through the interface \<^verbatim>\<open>LedgerLike\<close>,
  here a record of functions on an abstract ledger state; the locale \<open>lux_ledger\<close> states what
  the gate relies on, its lemmas show that money is conserved between ledger and escrow, and
  \<open>account_ledger\<close> interprets it with the operations of \<^verbatim>\<open>AccountStore\<close>.

  The holds file and the history file are part of the state; writing them is assumed to succeed.
  Random hold ids are arguments.
\<close>

section \<open>State\<close>

record 's LedgerLike =
  ll_getBalance :: "'s \<Rightarrow> peer_id \<Rightarrow> number"
  ll_subtractBalance :: "time \<Rightarrow> peer_id \<Rightarrow> number \<Rightarrow> 's \<Rightarrow> 's \<times> bool"
  ll_addBalance :: "time \<Rightarrow> peer_id \<Rightarrow> number \<Rightarrow> 's \<Rightarrow> 's"
  ll_exists :: "'s \<Rightarrow> peer_id \<Rightarrow> bool"

record 's payment_gate =
  pg_ledger :: 's
  pg_holds :: "(string, PaymentHold) jsmap"
  pg_history :: "PaymentRecord list"
  pg_holdsFile :: "PaymentHold list option"
  pg_historyFile :: "PaymentRecord list option"

definition COMPLEXITY_COSTS :: "(string, number) jsmap" where
  "COMPLEXITY_COSTS = [(''trivial'', 0), (''simple'', fl (1 / 10)), (''moderate'', 1), (''complex'', 5), (''project'', 20)]"

definition FREE_CATEGORIES :: "string list" where
  "FREE_CATEGORIES = [''search'', ''ledger'', ''network'', ''system'']"

definition HOLD_EXPIRY_MS :: time where
  "HOLD_EXPIRY_MS = 24 * 60 * 60 * 1000"

section \<open>Operations\<close>

definition recordPaymentEvent ::
  "time \<Rightarrow> string \<Rightarrow> peer_id \<Rightarrow> string \<Rightarrow> number \<Rightarrow> PaymentType \<Rightarrow> 's payment_gate \<Rightarrow> 's payment_gate" where
  "recordPaymentEvent now holdId p taskId amount ty g =
     g\<lparr>pg_history := pg_history g @ [\<lparr>pr_holdId = holdId, pr_peerId = p, pr_taskId = taskId, pr_amount = amount,
         pr_type = ty, pr_timestamp = now\<rparr>]\<rparr>"

definition saveState :: "'s payment_gate \<Rightarrow> 's payment_gate" where
  "saveState g = g\<lparr>pg_holdsFile := Some (jvals (pg_holds g)), pg_historyFile := Some (lastn 500 (pg_history g))\<rparr>"

definition loadState :: "'s payment_gate \<Rightarrow> 's payment_gate" where
  "loadState g =
     (let g1 = (case pg_holdsFile g of None \<Rightarrow> g
                | Some hs \<Rightarrow> g\<lparr>pg_holds := fold (\<lambda>h. jset (ph_holdId h) h) hs (pg_holds g)\<rparr>)
      in (case pg_historyFile g1 of None \<Rightarrow> g1 | Some rs \<Rightarrow> g1\<lparr>pg_history := rs\<rparr>))"

text \<open>Paying out a hold: credit the account (when the amount is positive), close the hold, log it.\<close>

definition close_hold ::
  "'s LedgerLike \<Rightarrow> time \<Rightarrow> string \<Rightarrow> PaymentHold \<Rightarrow> peer_id \<Rightarrow> HoldStatus \<Rightarrow> PaymentType \<Rightarrow> 's payment_gate \<Rightarrow> 's payment_gate" where
  "close_hold L now i h p st ty g =
     (let g1 = (if 0 < ph_amount h then g\<lparr>pg_ledger := ll_addBalance L now p (ph_amount h) (pg_ledger g)\<rparr> else g);
          g2 = g1\<lparr>pg_holds := jset i (h\<lparr>ph_status := st, ph_updatedAt := now\<rparr>) (pg_holds g1)\<rparr>
      in recordPaymentEvent now i p (ph_taskId h) (ph_amount h) ty g2)"

definition is_stale :: "time \<Rightarrow> PaymentHold \<Rightarrow> bool" where
  "is_stale now h = (ph_status h = held \<and> HOLD_EXPIRY_MS < now - ph_createdAt h)"

definition expire_one :: "'s LedgerLike \<Rightarrow> time \<Rightarrow> string \<times> PaymentHold \<Rightarrow> 's payment_gate \<Rightarrow> 's payment_gate" where
  "expire_one L now e g =
     (if is_stale now (snd e) then close_hold L now (fst e) (snd e) (ph_peerId (snd e)) refunded pt_refund g else g)"

definition expireStaleHolds :: "'s LedgerLike \<Rightarrow> time \<Rightarrow> 's payment_gate \<Rightarrow> 's payment_gate" where
  "expireStaleHolds L now g = saveState (fold (expire_one L now) (pg_holds g) g)"

definition PaymentGate_init :: "'s LedgerLike \<Rightarrow> time \<Rightarrow> 's \<Rightarrow> PaymentHold list option \<Rightarrow> PaymentRecord list option \<Rightarrow> 's payment_gate" where
  "PaymentGate_init L now s holdsFile historyFile =
     expireStaleHolds L now (loadState
       \<lparr>pg_ledger = s, pg_holds = [], pg_history = [], pg_holdsFile = holdsFile, pg_historyFile = historyFile\<rparr>)"

definition isFreeTier :: "string \<Rightarrow> string \<Rightarrow> bool" where
  "isFreeTier category complexity = (category \<in> set FREE_CATEGORIES \<or> complexity = ''trivial'')"

definition cost_share :: "number \<Rightarrow> number \<Rightarrow> number" where
  "cost_share baseCost rate = fdiv (Math_round (fmul (fmul baseCost rate) (10 ^ 8))) (10 ^ 8)"

definition estimateCost :: "string \<Rightarrow> string \<Rightarrow> CostEstimate" where
  "estimateCost complexity category =
     (if isFreeTier category complexity
      then \<lparr>ce_luxAmount = 0, ce_compute = 0, ce_storage = 0, ce_network = 0, ce_tier = tier_free\<rparr>
      else let baseCost = (case jget COMPLEXITY_COSTS complexity of Some c \<Rightarrow> c
                           | None \<Rightarrow> (case jget COMPLEXITY_COSTS ''moderate'' of Some c \<Rightarrow> c | None \<Rightarrow> 0))
           in \<lparr>ce_luxAmount = baseCost, ce_compute = cost_share baseCost (fl (7 / 10)),
               ce_storage = cost_share baseCost (fl (1 / 10)), ce_network = cost_share baseCost (fl (2 / 10)),
               ce_tier = (if baseCost \<le> 0 then tier_free else if baseCost \<le> 1 / 2 then tier_basic
                          else if baseCost \<le> 5 then tier_standard else tier_premium)\<rparr>)"

definition canAfford :: "'s LedgerLike \<Rightarrow> 's payment_gate \<Rightarrow> peer_id \<Rightarrow> number \<Rightarrow> bool" where
  "canAfford L g p amount = (amount \<le> 0 \<or> amount \<le> ll_getBalance L (pg_ledger g) p)"

definition new_hold :: "time \<Rightarrow> string \<Rightarrow> peer_id \<Rightarrow> string \<Rightarrow> number \<Rightarrow> PaymentHold" where
  "new_hold now i p taskId amount = \<lparr>ph_holdId = i, ph_peerId = p, ph_taskId = taskId, ph_amount = amount,
     ph_status = held, ph_createdAt = now, ph_updatedAt = now\<rparr>"

definition holdPayment ::
  "'s LedgerLike \<Rightarrow> time \<Rightarrow> string \<Rightarrow> peer_id \<Rightarrow> string \<Rightarrow> number \<Rightarrow> 's payment_gate \<Rightarrow> 's payment_gate \<times> PaymentHold option" where
  "holdPayment L now i p taskId amount g0 =
     (let g = expireStaleHolds L now g0 in
      if amount \<le> 0
      then let h = new_hold now i p taskId 0 in (saveState (g\<lparr>pg_holds := jset i h (pg_holds g)\<rparr>), Some h)
      else if \<not> canAfford L g p amount then (g, None)
      else let (s, deducted) = ll_subtractBalance L now p amount (pg_ledger g); g1 = g\<lparr>pg_ledger := s\<rparr> in
           if \<not> deducted then (g1, None)
           else let h = new_hold now i p taskId amount;
                    g2 = g1\<lparr>pg_holds := jset i h (pg_holds g1)\<rparr>
                in (saveState (recordPaymentEvent now i p taskId amount pt_payment g2), Some h))"

definition releasePayment :: "'s LedgerLike \<Rightarrow> time \<Rightarrow> string \<Rightarrow> peer_id \<Rightarrow> 's payment_gate \<Rightarrow> 's payment_gate \<times> bool" where
  "releasePayment L now i recipient g =
     (case jget (pg_holds g) i of
        None \<Rightarrow> (g, False)
      | Some h \<Rightarrow> if ph_status h \<noteq> held then (g, False)
                  else (saveState (close_hold L now i h recipient released pt_earning g), True))"

definition refundPayment :: "'s LedgerLike \<Rightarrow> time \<Rightarrow> string \<Rightarrow> 's payment_gate \<Rightarrow> 's payment_gate \<times> bool" where
  "refundPayment L now i g =
     (case jget (pg_holds g) i of
        None \<Rightarrow> (g, False)
      | Some h \<Rightarrow> if ph_status h \<noteq> held then (g, False)
                  else (saveState (close_hold L now i h (ph_peerId h) refunded pt_refund g), True))"

definition getPaymentHistory ::
  "'s LedgerLike \<Rightarrow> time \<Rightarrow> peer_id option \<Rightarrow> 's payment_gate \<Rightarrow> 's payment_gate \<times> PaymentRecord list" where
  "getPaymentHistory L now p g0 =
     (let g = expireStaleHolds L now g0 in
      (g, if truthy p then filter (\<lambda>r. Some (pr_peerId r) = p) (pg_history g) else pg_history g))"

definition getActiveHolds :: "'s payment_gate \<Rightarrow> PaymentHold list" where
  "getActiveHolds g = filter (\<lambda>h. ph_status h = held) (jvals (pg_holds g))"

definition getHold :: "'s payment_gate \<Rightarrow> string \<Rightarrow> PaymentHold option" where
  "getHold g i = jget (pg_holds g) i"

definition getHoldForTask :: "'s payment_gate \<Rightarrow> string \<Rightarrow> PaymentHold option" where
  "getHoldForTask g taskId = find (\<lambda>h. ph_taskId h = taskId \<and> ph_status h = held) (jvals (pg_holds g))"

record gate_stats =
  gs_totalHolds :: nat
  gs_activeHolds :: nat
  gs_totalLuxHeld :: number
  gs_totalLuxReleased :: number
  gs_totalLuxRefunded :: number

definition lux_with_status :: "HoldStatus \<Rightarrow> 's payment_gate \<Rightarrow> number" where
  "lux_with_status st g = foldl fadd 0 (map ph_amount (filter (\<lambda>h. ph_status h = st) (jvals (pg_holds g))))"

definition gate_getStats :: "'s payment_gate \<Rightarrow> gate_stats" where
  "gate_getStats g = \<lparr>gs_totalHolds = length (pg_holds g), gs_activeHolds = length (getActiveHolds g),
     gs_totalLuxHeld = lux_with_status held g, gs_totalLuxReleased = lux_with_status released g,
     gs_totalLuxRefunded = lux_with_status refunded g\<rparr>"

definition gate_cleanup :: "time \<Rightarrow> 's payment_gate \<Rightarrow> 's payment_gate" where
  "gate_cleanup now g =
     (let cutoff = now - 7 * 24 * 60 * 60 * 1000;
          g1 = g\<lparr>pg_holds := filter (\<lambda>e. \<not> (ph_status (snd e) \<noteq> held \<and> ph_updatedAt (snd e) < cutoff)) (pg_holds g)\<rparr>;
          g2 = g1\<lparr>pg_history := (if 1000 < length (pg_history g1) then lastn 1000 (pg_history g1) else pg_history g1)\<rparr>
      in saveState g2)"

section \<open>Escrow\<close>

definition hold_units :: "PaymentHold \<Rightarrow> int" where
  "hold_units h = (if ph_status h = held then units (ph_amount h) else 0)"

definition escrow :: "'s payment_gate \<Rightarrow> int" where
  "escrow g = jsum hold_units (pg_holds g)"

text \<open>Holds are keyed by their id, hold whole units, and a payer of a positive amount has an account.\<close>

definition holds_ok :: "('s \<Rightarrow> peer_id \<Rightarrow> bool) \<Rightarrow> 's payment_gate \<Rightarrow> bool" where
  "holds_ok has g = (jwf (pg_holds g) \<and>
     jall (\<lambda>i h. ph_holdId h = i \<and> grid (ph_amount h) \<and> (0 < ph_amount h \<longrightarrow> has (pg_ledger g) (ph_peerId h))) (pg_holds g))"

lemma saveState_frame [simp]:
  "pg_ledger (saveState g) = pg_ledger g" "pg_holds (saveState g) = pg_holds g" "pg_history (saveState g) = pg_history g"
  "escrow (saveState g) = escrow g" "holds_ok has (saveState g) = holds_ok has g"
  by (simp_all add: saveState_def escrow_def holds_ok_def)

lemma recordPaymentEvent_frame [simp]:
  "pg_ledger (recordPaymentEvent now i p t a ty g) = pg_ledger g"
  "pg_holds (recordPaymentEvent now i p t a ty g) = pg_holds g"
  "escrow (recordPaymentEvent now i p t a ty g) = escrow g"
  "holds_ok has (recordPaymentEvent now i p t a ty g) = holds_ok has g"
  by (simp_all add: recordPaymentEvent_def escrow_def holds_ok_def)

text \<open>What the gate can see of a ledger: the money in it, in units, next to the money in escrow.\<close>

definition gate_ok :: "'s LedgerLike \<Rightarrow> ('s \<Rightarrow> bool) \<Rightarrow> ('s \<Rightarrow> int) \<Rightarrow> 's payment_gate \<Rightarrow> bool" where
  "gate_ok L ok tot g = (ok (pg_ledger g) \<and> holds_ok (ll_exists L) g \<and> tot (pg_ledger g) + escrow g \<le> UNIT_LIMIT)"

definition wealth :: "('s \<Rightarrow> int) \<Rightarrow> 's payment_gate \<Rightarrow> int" where
  "wealth tot g = tot (pg_ledger g) + escrow g"

lemma escrow_bounds:
  assumes "holds_ok has g"
  shows "0 \<le> escrow g" and "jget (pg_holds g) i = Some h \<Longrightarrow> ph_status h = held \<Longrightarrow> units (ph_amount h) \<le> escrow g"
proof -
  have n: "0 \<le> hold_units v" if "(k, v) \<in> set (pg_holds g)" for k v
    using assms that by (auto simp: holds_ok_def hold_units_def grid_def dest: jallD)
  then show "0 \<le> escrow g" unfolding escrow_def by (rule jsum_nonneg)
  assume "jget (pg_holds g) i = Some h" "ph_status h = held"
  then show "units (ph_amount h) \<le> escrow g"
    using jsum_member_le [of "pg_holds g" hold_units i h] n by (auto simp: escrow_def hold_units_def dest: jget_SomeD)
qed

text \<open>A grid amount is zero exactly when it has no units.\<close>

lemma grid_pos: "grid a \<Longrightarrow> 0 < a \<longleftrightarrow> 0 < units a"
proof -
  assume g: "grid a"
  have "a = 0 \<longleftrightarrow> units a = 0" using g grid_0(2) lux_0 unfolding grid_def by metis
  then show ?thesis using grid_nonneg [OF g] g unfolding grid_def by linarith
qed

section \<open>The ledger interface\<close>

locale lux_ledger =
  fixes L :: "'s LedgerLike" and ok :: "'s \<Rightarrow> bool" and tot :: "'s \<Rightarrow> int"
  assumes add_units: "ok s \<Longrightarrow> 0 \<le> k \<Longrightarrow> tot s + k \<le> UNIT_LIMIT \<Longrightarrow>
      ok (ll_addBalance L t p (lux k) s) \<and>
      tot (ll_addBalance L t p (lux k) s) = tot s + (if ll_exists L s p then k else 0)"
    and add_exists: "ll_exists L (ll_addBalance L t p a s) q = ll_exists L s q"
    and sub_units: "ok s \<Longrightarrow> 0 < k \<Longrightarrow> k \<le> UNIT_LIMIT \<Longrightarrow> ll_subtractBalance L t p (lux k) s = (s', True) \<Longrightarrow>
      ok s' \<and> tot s' = tot s - k \<and> ll_exists L s p"
    and sub_refused: "ll_subtractBalance L t p a s = (s', False) \<Longrightarrow> s' = s"
    and sub_exists: "ll_subtractBalance L t p a s = (s', b) \<Longrightarrow> ll_exists L s' q = ll_exists L s q"
    and tot_nonneg: "ok s \<Longrightarrow> 0 \<le> tot s"
begin

lemma close_hold_ledger:
  fixes now p st ty
  assumes "gate_ok L ok tot g" "jget (pg_holds g) i = Some h" "ph_status h = held"
  defines "s' \<equiv> pg_ledger (close_hold L now i h p st ty g)"
  shows "ok s'" "ll_exists L s' q = ll_exists L (pg_ledger g) q"
    "tot s' = tot (pg_ledger g) + (if ll_exists L (pg_ledger g) p then units (ph_amount h) else 0)"
proof -
  have g: "grid (ph_amount h)" using assms(1,2) by (auto simp: gate_ok_def holds_ok_def dest: jall_jget)
  then have a: "ph_amount h = lux (units (ph_amount h))" "0 \<le> units (ph_amount h)" by (auto simp: grid_def)
  have "tot (pg_ledger g) + units (ph_amount h) \<le> UNIT_LIMIT"
    using assms(1) escrow_bounds(2) [of "ll_exists L" g i h] assms(2,3) by (auto simp: gate_ok_def)
  note add = add_units [OF _ a(2) this, of now p, folded a(1)]
  have ok: "ok (pg_ledger g)" using assms(1) by (simp add: gate_ok_def)
  have s': "s' = (if 0 < ph_amount h then ll_addBalance L now p (ph_amount h) (pg_ledger g) else pg_ledger g)"
    by (simp add: s'_def close_hold_def Let_def)
  show "ok s'" "ll_exists L s' q = ll_exists L (pg_ledger g) q" using add ok by (simp_all add: s' add_exists)
  show "tot s' = tot (pg_ledger g) + (if ll_exists L (pg_ledger g) p then units (ph_amount h) else 0)"
    using add ok grid_pos [OF g] a(2) by (auto simp: s')
qed

text \<open>Paying out a hold keeps the sum of ledger and escrow when the account exists, and loses the amount
  when it does not.\<close>

lemma close_hold_wealth:
  assumes g: "gate_ok L ok tot g" and h: "jget (pg_holds g) i = Some h" "ph_status h = held" and st: "st \<noteq> held"
  shows "gate_ok L ok tot (close_hold L now i h p st ty g)"
    and "wealth tot (close_hold L now i h p st ty g) =
      wealth tot g - (if ll_exists L (pg_ledger g) p then 0 else units (ph_amount h))"
proof -
  let ?g = "close_hold L now i h p st ty g"
  note led = close_hold_ledger [OF g h, of now p st ty]
  have holds: "pg_holds ?g = jset i (h\<lparr>ph_status := st, ph_updatedAt := now\<rparr>) (pg_holds g)"
    by (simp add: close_hold_def Let_def)
  have jw: "jwf (pg_holds g)" using g by (simp add: gate_ok_def holds_ok_def)
  have e: "escrow ?g = escrow g - units (ph_amount h)"
    using st h by (simp add: escrow_def holds jsum_jset [OF jw] hold_units_def)
  have "jall (\<lambda>i h. ph_holdId h = i \<and> grid (ph_amount h) \<and> (0 < ph_amount h \<longrightarrow> ll_exists L (pg_ledger ?g) (ph_peerId h)))
      (pg_holds ?g)"
    unfolding holds led(2) using g jall_jget [of _ "pg_holds g" i h] h
    by (intro jall_jset) (auto simp: gate_ok_def holds_ok_def)
  then have ho: "holds_ok (ll_exists L) ?g" using jw by (simp add: holds_ok_def holds)
  show "wealth tot ?g = wealth tot g - (if ll_exists L (pg_ledger g) p then 0 else units (ph_amount h))"
    by (simp add: wealth_def e led(3))
  then show "gate_ok L ok tot ?g"
    using g led(1) ho escrow_bounds(2) [of "ll_exists L" g i h] h escrow_bounds(1) [of "ll_exists L" ?g]
    by (auto simp: gate_ok_def wealth_def grid_def holds_ok_def dest: jall_jget split: if_splits)
qed

lemma payer_exists:
  assumes "gate_ok L ok tot g" "jget (pg_holds g) i = Some h"
  shows "ll_exists L (pg_ledger g) (ph_peerId h) \<or> units (ph_amount h) = 0"
proof -
  have "grid (ph_amount h)" "0 < ph_amount h \<longrightarrow> ll_exists L (pg_ledger g) (ph_peerId h)"
    using assms by (auto simp: gate_ok_def holds_ok_def dest: jall_jget)
  then show ?thesis using grid_pos [of "ph_amount h"] by (auto simp: grid_def)
qed

lemma expire_fold:
  assumes "distinct (map fst es)" "\<And>i h. (i, h) \<in> set es \<Longrightarrow> jget (pg_holds g) i = Some h" "gate_ok L ok tot g"
  shows "gate_ok L ok tot (fold (expire_one L now) es g) \<and> wealth tot (fold (expire_one L now) es g) = wealth tot g"
  using assms
proof (induction es arbitrary: g)
  case (Cons e es)
  obtain i h where e: "e = (i, h)" by (cases e)
  have h: "jget (pg_holds g) i = Some h" using Cons.prems(2) e by simp
  let ?g = "expire_one L now e g"
  have 1: "gate_ok L ok tot ?g \<and> wealth tot ?g = wealth tot g"
  proof (cases "is_stale now h")
    case True
    then have "ph_status h = held" by (simp add: is_stale_def)
    with close_hold_wealth [OF Cons.prems(3) h this, of refunded now "ph_peerId h" pt_refund] payer_exists [OF Cons.prems(3) h] True
    show ?thesis by (auto simp: expire_one_def e split: if_splits)
  qed (use Cons.prems in \<open>simp add: expire_one_def e\<close>)
  have "jget (pg_holds ?g) j = Some k" if "(j, k) \<in> set es" for j k
    using that Cons.prems(1,2) by (force simp: expire_one_def close_hold_def Let_def e)
  then show ?case using Cons.IH [of ?g] Cons.prems(1) 1 by simp
qed simp

lemma expire_wealth:
  assumes "gate_ok L ok tot g"
  shows "gate_ok L ok tot (expireStaleHolds L now g)" "wealth tot (expireStaleHolds L now g) = wealth tot g"
proof -
  have "jwf (pg_holds g)" using assms by (simp add: gate_ok_def holds_ok_def)
  then have "gate_ok L ok tot (fold (expire_one L now) (pg_holds g) g) \<and>
      wealth tot (fold (expire_one L now) (pg_holds g) g) = wealth tot g"
    using assms by (intro expire_fold) (auto simp: jwf_def jget_map_of)
  then show "gate_ok L ok tot (expireStaleHolds L now g)" "wealth tot (expireStaleHolds L now g) = wealth tot g"
    by (simp_all add: expireStaleHolds_def gate_ok_def wealth_def)
qed

lemma release_wealth:
  assumes "gate_ok L ok tot g" "releasePayment L now i p g = (g', b)"
  shows "gate_ok L ok tot g'"
    "b \<Longrightarrow> \<exists>h. jget (pg_holds g) i = Some h \<and>
        wealth tot g' = wealth tot g - (if ll_exists L (pg_ledger g) p then 0 else units (ph_amount h))"
    "\<not> b \<Longrightarrow> g' = g"
  using assms(2) close_hold_wealth [OF assms(1), of i _ released now p pt_earning] assms(1)
  by (auto simp: releasePayment_def gate_ok_def wealth_def split: option.splits if_splits)

lemma refund_wealth:
  assumes "gate_ok L ok tot g" "refundPayment L now i g = (g', b)"
  shows "gate_ok L ok tot g'" "wealth tot g' = wealth tot g"
  using assms(2) close_hold_wealth [OF assms(1), of i _ refunded now _ pt_refund] payer_exists [OF assms(1), of i] assms(1)
  by (auto simp: refundPayment_def gate_ok_def wealth_def split: option.splits if_splits)

lemma put_hold:
  fixes now t
  assumes g: "ok s" "holds_ok (ll_exists L) g" "\<And>q. ll_exists L s q = ll_exists L (pg_ledger g) q"
    and i: "\<not> jhas (pg_holds g) i"
    and k: "0 \<le> k" "k \<le> UNIT_LIMIT" "0 < k \<Longrightarrow> ll_exists L s p" "tot s + k + escrow g \<le> UNIT_LIMIT"
  defines "g' \<equiv> g\<lparr>pg_ledger := s, pg_holds := jset i (new_hold now i p t (lux k)) (pg_holds g)\<rparr>"
  shows "gate_ok L ok tot g'" "wealth tot g' = tot s + k + escrow g"
proof -
  have jw: "jwf (pg_holds g)" using g(2) by (simp add: holds_ok_def)
  have u: "grid (lux k)" "units (lux k) = k" using k by (simp_all add: grid_lux units_lux)
  have e: "escrow g' = escrow g + k"
    using i by (simp add: g'_def escrow_def jsum_jset [OF jw] jhas_def hold_units_def new_hold_def u)
  have "holds_ok (ll_exists L) g'"
    using g(2) u k(3) grid_pos [OF u(1)] jw
    by (auto simp: g'_def holds_ok_def g(3) new_hold_def intro!: jall_jset)
  then show "gate_ok L ok tot g'" "wealth tot g' = tot s + k + escrow g"
    using e g(1) k(4) by (auto simp: gate_ok_def wealth_def g'_def)
qed

lemma hold_wealth:
  assumes g: "gate_ok L ok tot g" and k: "0 \<le> k" "k \<le> UNIT_LIMIT"
    and i: "\<not> jhas (pg_holds (expireStaleHolds L now g)) i"
    and r: "holdPayment L now i p t (lux k) g = (g', r)"
  shows "gate_ok L ok tot g'" "wealth tot g' = wealth tot g"
proof -
  let ?g = "expireStaleHolds L now g"
  note x = expire_wealth [OF g, of now]
  have pos: "lux k \<le> 0 \<longleftrightarrow> k = 0"
    using grid_pos [OF grid_lux [OF k]] units_lux [OF k] k(1) by auto
  have *: "gate_ok L ok tot g' \<and> wealth tot g' = wealth tot ?g"
  proof (cases "k = 0")
    case True
    have "gate_ok L ok tot (?g\<lparr>pg_ledger := pg_ledger ?g, pg_holds := jset i (new_hold now i p t (lux 0)) (pg_holds ?g)\<rparr>)"
      "wealth tot (?g\<lparr>pg_ledger := pg_ledger ?g, pg_holds := jset i (new_hold now i p t (lux 0)) (pg_holds ?g)\<rparr>) =
        tot (pg_ledger ?g) + 0 + escrow ?g"
      by (rule put_hold; use x i in \<open>auto simp: gate_ok_def UNIT_LIMIT_def\<close>)+
    with r True pos show ?thesis by (auto simp: holdPayment_def Let_def gate_ok_def wealth_def)
  next
    case False
    show ?thesis
    proof (cases "canAfford L ?g p (lux k)")
      case True
      obtain s b where s: "ll_subtractBalance L now p (lux k) (pg_ledger ?g) = (s, b)" by force
      show ?thesis
      proof (cases b)
        case b: True
        have d: "ok s" "tot s = tot (pg_ledger ?g) - k" "ll_exists L (pg_ledger ?g) p"
          using sub_units [of "pg_ledger ?g" k now p s] s b False k x(1) by (auto simp: gate_ok_def)
        note ex = sub_exists [OF s]
        have "gate_ok L ok tot (?g\<lparr>pg_ledger := s, pg_holds := jset i (new_hold now i p t (lux k)) (pg_holds ?g)\<rparr>)"
          "wealth tot (?g\<lparr>pg_ledger := s, pg_holds := jset i (new_hold now i p t (lux k)) (pg_holds ?g)\<rparr>) = tot s + k + escrow ?g"
          by (rule put_hold; use x i d ex k in \<open>auto simp: gate_ok_def\<close>)+
        with r s b True False pos d(2) show ?thesis
          by (auto simp: holdPayment_def Let_def gate_ok_def wealth_def)
      next
        case b: False
        then have "s = pg_ledger ?g" using sub_refused s by simp
        with r s b True False pos x(1) show ?thesis by (auto simp: holdPayment_def Let_def)
      qed
    qed (use r False pos x(1) in \<open>auto simp: holdPayment_def Let_def\<close>)
  qed
  then show "gate_ok L ok tot g'" "wealth tot g' = wealth tot g" using x by auto
qed

end

section \<open>The accounts of the ledger as the gate's ledger\<close>

definition account_ledger :: "database LedgerLike" where
  "account_ledger = \<lparr>ll_getBalance = getBalance, ll_subtractBalance = subtractBalance, ll_addBalance = addBalance,
     ll_exists = accounts_exists\<rparr>"

interpretation acc_ledger: lux_ledger account_ledger grid_accounts total_units
proof unfold_locales
  fix s k t p s'
  assume s: "grid_accounts s" "0 < k" "k \<le> UNIT_LIMIT" "ll_subtractBalance account_ledger t p (lux k) s = (s', True)"
  have s': "s' = fst (subtractBalance t p (lux k) s)" and le: "lux k \<le> getBalance s p"
    using s(4) by (auto simp: account_ledger_def subtractBalance_def split: if_splits)
  have "0 < lux k" using grid_pos [OF grid_lux] units_lux s(2,3) by simp
  then have "accounts_exists s p" using le
    by (auto simp: getBalance_def accounts_exists_def jhas_def split: option.splits)
  moreover from this obtain u where u: "abs_units s p = Some u"
    by (auto simp: accounts_exists_def jhas_def abs_units_def)
  moreover have "\<bar>lux k * 10 ^ 8 - of_int k\<bar> \<le> 2 * (of_int k / 2 ^ 53) + 1 / 100"
    using near_lux [of k] s(2) unfolding near_units_def by (simp add: field_simps)
  ultimately show "grid_accounts s' \<and> total_units s' = total_units s - k \<and> ll_exists account_ledger s p"
    using subtractBalance_units(3,4) [OF s(1) less_imp_le [OF s(2)] s(3) _ u le, of t]
    by (simp add: s' account_ledger_def)
next
  fix s and k :: int and t p
  assume s: "grid_accounts s" "0 \<le> k" "total_units s + k \<le> UNIT_LIMIT"
  show "grid_accounts (ll_addBalance account_ledger t p (lux k) s) \<and>
      total_units (ll_addBalance account_ledger t p (lux k) s) = total_units s + (if ll_exists account_ledger s p then k else 0)"
    using addBalance_units(2,3) [OF s near_lux [OF s(2)]] by (simp add: account_ledger_def)
qed (auto simp: account_ledger_def subtractBalance_def total_units_nonneg split: if_splits)

section \<open>Properties\<close>

text \<open>C4: Escrow conserves money. With whole-unit amounts, the units in all accounts plus the units held in
  escrow are the same before and after holding a payment (whether it is granted or refused), refunding it
  and expiring stale holds, and releasing it to an account that exists; a release to a peer without an
  account destroys exactly the held amount. Hold ids are assumed fresh.\<close>

theorem escrow_conserves_money:
  assumes "gate_ok account_ledger grid_accounts total_units g"
  shows "(0 \<le> k \<and> k \<le> UNIT_LIMIT \<and> \<not> jhas (pg_holds (expireStaleHolds account_ledger now g)) i \<and>
       holdPayment account_ledger now i p t (lux k) g = (g1, r) \<longrightarrow>
       gate_ok account_ledger grid_accounts total_units g1 \<and> wealth total_units g1 = wealth total_units g)
    \<and> (refundPayment account_ledger now i g = (g2, b2) \<longrightarrow>
       gate_ok account_ledger grid_accounts total_units g2 \<and> wealth total_units g2 = wealth total_units g)
    \<and> (releasePayment account_ledger now i p g = (g3, True) \<longrightarrow>
       gate_ok account_ledger grid_accounts total_units g3 \<and>
       (\<exists>h. getHold g i = Some h \<and> wealth total_units g3 = wealth total_units g -
          (if accounts_exists (pg_ledger g) p then 0 else units (ph_amount h))))
    \<and> gate_ok account_ledger grid_accounts total_units (expireStaleHolds account_ledger now g)
    \<and> wealth total_units (expireStaleHolds account_ledger now g) = wealth total_units g"
proof -
  have ex: "ll_exists account_ledger = accounts_exists" by (simp add: account_ledger_def)
  show ?thesis
    using acc_ledger.hold_wealth [OF assms] acc_ledger.refund_wealth [OF assms]
      acc_ledger.release_wealth(1,2) [OF assms, unfolded ex] acc_ledger.expire_wealth [OF assms]
    by (simp add: getHold_def) blast
qed

definition demo_gate :: "database payment_gate" where
  "demo_gate = fst (holdPayment account_ledger 1000 ''pay-1'' ''alice'' ''task-1'' 5
     (PaymentGate_init account_ledger 1000 bank_db None None))"

theorem escrow_conserves_money_witness:
  "\<exists>g3. releasePayment account_ledger 2000 ''pay-1'' ''bob'' demo_gate = (g3, True) \<and>
     wealth total_units g3 = wealth total_units demo_gate \<and> getBalance (pg_ledger g3) ''bob'' = 5"
proof -
  have ok: "gate_ok account_ledger grid_accounts total_units demo_gate"
    "accounts_exists (pg_ledger demo_gate) ''bob''" by code_simp+
  have "snd (releasePayment account_ledger 2000 ''pay-1'' ''bob'' demo_gate)"
    "getBalance (pg_ledger (fst (releasePayment account_ledger 2000 ''pay-1'' ''bob'' demo_gate))) ''bob'' = 5" by code_simp+
  with escrow_conserves_money [OF ok(1), of 0 2000 "''pay-1''" "''bob''"] ok(2) show ?thesis
    by (cases "releasePayment account_ledger 2000 ''pay-1'' ''bob'' demo_gate") auto
qed



lemma expire_fold_holds:
  assumes "distinct (map fst es)" "\<And>j h. (j, h) \<in> set es \<Longrightarrow> jget (pg_holds g) j = Some h"
  shows "jget (pg_holds (fold (expire_one L now) es g)) i =
    (case jget es i of Some h \<Rightarrow> if is_stale now h then Some (h\<lparr>ph_status := refunded, ph_updatedAt := now\<rparr>) else Some h
     | None \<Rightarrow> jget (pg_holds g) i)"
  using assms
proof (induction es arbitrary: g)
  case (Cons e es)
  obtain j h where e: "e = (j, h)" by (cases e)
  let ?g = "expire_one L now (j, h) g"
  have 1: "jget (pg_holds ?g) k = (if k = j then (if is_stale now h then Some (h\<lparr>ph_status := refunded, ph_updatedAt := now\<rparr>) else Some h)
      else jget (pg_holds g) k)" for k
    using Cons.prems(2) by (auto simp: expire_one_def close_hold_def Let_def e)
  have j: "j \<notin> fst ` set es" using Cons.prems(1) by (simp add: e)
  have "jget (pg_holds ?g) k = Some v" if "(k, v) \<in> set es" for k v
    using that Cons.prems(2) j by (force simp: 1)
  then have "jget (pg_holds (fold (expire_one L now) es ?g)) i =
    (case jget es i of Some h \<Rightarrow> if is_stale now h then Some (h\<lparr>ph_status := refunded, ph_updatedAt := now\<rparr>) else Some h
     | None \<Rightarrow> jget (pg_holds ?g) i)"
    using Cons.IH [of ?g] Cons.prems(1) by simp
  moreover have "jget es j = None" using j by (simp add: jget_None_iff)
  ultimately show ?case using 1 [of i] by (cases "jget es i") (auto simp: e)
qed simp

lemma expire_getHold:
  assumes "jwf (pg_holds g)"
  shows "getHold (expireStaleHolds L now g) i =
      map_option (\<lambda>h. if is_stale now h then h\<lparr>ph_status := refunded, ph_updatedAt := now\<rparr> else h) (getHold g i)"
  using expire_fold_holds [of "pg_holds g" g L now i] assms
  by (simp add: expireStaleHolds_def getHold_def jwf_def jget_map_of split: option.splits)

text \<open>Expiry is exact. Sweeping at a given time refunds precisely the open holds older than 24 hours and leaves
  every other hold as it is.\<close>

lemma expiry_is_exact:
  assumes "jwf (pg_holds g)"
  shows "getHold (expireStaleHolds L now g) i =
      map_option (\<lambda>h. if ph_status h = held \<and> HOLD_EXPIRY_MS < now - ph_createdAt h
                      then h\<lparr>ph_status := refunded, ph_updatedAt := now\<rparr> else h) (getHold g i)"
  using expire_getHold [OF assms] by (simp add: is_stale_def)

lemma expiry_is_exact_witness:
  "map_option ph_status (getHold (expireStaleHolds account_ledger 86401000 demo_gate) ''pay-1'') = Some held \<and>
   map_option ph_status (getHold (expireStaleHolds account_ledger 86401001 demo_gate) ''pay-1'') = Some refunded"
proof -
  have "jwf (pg_holds demo_gate)" "getHold demo_gate ''pay-1'' = Some (new_hold 1000 ''pay-1'' ''alice'' ''task-1'' 5)"
    by code_simp+
  with expiry_is_exact [of demo_gate account_ledger _ "''pay-1''"] show ?thesis
    by (simp add: new_hold_def HOLD_EXPIRY_MS_def)
qed

lemma fold_jset_ids:
  "jwf m \<Longrightarrow> jall (\<lambda>i h. ph_holdId h = i) (n @ m) \<Longrightarrow> jwf (n @ m) \<Longrightarrow>
    fold (\<lambda>h. jset (ph_holdId h) h) (jvals m) n = n @ m"
proof (induction m arbitrary: n)
  case (Cons e m)
  obtain i h where e: "e = (i, h)" by (cases e)
  have "jset (ph_holdId h) h n = n @ [(i, h)]"
    using Cons.prems by (subst jset_fresh) (auto simp: e jwf_def jhas_iff jall_iff)
  with Cons.IH [of "n @ [(i, h)]"] Cons.prems show ?case by (simp add: e jvals_def jwf_def)
qed (simp add: jvals_def)

text \<open>Holds survive a restart. A gate that starts from the files another gate saved has the same holds, with
  those that went stale while it was down refunded.\<close>

lemma holds_survive_restart:
  assumes "holds_ok has g"
  shows "getHold (PaymentGate_init L now s (pg_holdsFile (saveState g)) (pg_historyFile (saveState g))) i =
    map_option (\<lambda>h. if is_stale now h then h\<lparr>ph_status := refunded, ph_updatedAt := now\<rparr> else h) (getHold g i)"
proof -
  have j: "jwf (pg_holds g)" "jall (\<lambda>i h. ph_holdId h = i) (pg_holds g)"
    using assms by (auto simp: holds_ok_def elim: jall_mono)
  have "fold (\<lambda>h. jset (ph_holdId h) h) (jvals (pg_holds g)) [] = pg_holds g"
    using fold_jset_ids [of "pg_holds g" "[]"] j by simp
  then have l: "pg_holds (loadState \<lparr>pg_ledger = s, pg_holds = [], pg_history = [], pg_holdsFile = pg_holdsFile (saveState g),
      pg_historyFile = pg_historyFile (saveState g)\<rparr>) = pg_holds g"
    by (simp add: loadState_def saveState_def Let_def)
  show ?thesis
    unfolding PaymentGate_init_def by (subst expire_getHold) (simp_all add: l j getHold_def)
qed

lemma holds_survive_restart_witness:
  "map_option ph_status (getHold (PaymentGate_init account_ledger 5000 bank_db (pg_holdsFile (saveState demo_gate))
     (pg_historyFile (saveState demo_gate))) ''pay-1'') = Some held"
proof -
  have "holds_ok accounts_exists demo_gate" "map_option (is_stale 5000) (getHold demo_gate ''pay-1'') = Some False"
    "map_option ph_status (getHold demo_gate ''pay-1'') = Some held" by code_simp+
  with holds_survive_restart [of accounts_exists demo_gate account_ledger 5000 bank_db "''pay-1''"] show ?thesis by auto
qed

definition shares_ok :: "number \<Rightarrow> bool" where
  "shares_ok c = (0 < c \<and> units (cost_share c (fl (7 / 10))) + units (cost_share c (fl (1 / 10))) +
      units (cost_share c (fl (2 / 10))) = units c)"

text \<open>The cost breakdown is exact: for every complexity and category, known or not, the shares for
  computing, storage and network add up to the estimated amount in units, and the estimate is free exactly
  for the free categories and trivial tasks.\<close>

lemma cost_breakdown_adds_up:
  "units (ce_compute (estimateCost complexity category)) + units (ce_storage (estimateCost complexity category)) +
     units (ce_network (estimateCost complexity category)) = units (ce_luxAmount (estimateCost complexity category)) \<and>
   (ce_tier (estimateCost complexity category) = tier_free \<longleftrightarrow> isFreeTier category complexity)"
proof -
  have "shares_ok (fl (1 / 10))" "shares_ok 1" "shares_ok 5" "shares_ok 20" by code_simp+
  then have *: "\<forall>c \<in> set [fl (1 / 10), 1, 5, 20]. shares_ok c" by simp
  define b where "b = (case jget COMPLEXITY_COSTS complexity of Some c \<Rightarrow> c
                           | None \<Rightarrow> (case jget COMPLEXITY_COSTS ''moderate'' of Some c \<Rightarrow> c | None \<Rightarrow> 0))"
  show ?thesis
  proof (cases "isFreeTier category complexity")
    case False
    then have "complexity \<noteq> ''trivial''" by (simp add: isFreeTier_def)
    then have "b \<in> set [fl (1 / 10), 1, 5, 20]" by (simp add: b_def COMPLEXITY_COSTS_def)
    with * have b: "units (cost_share b (fl (7 / 10))) + units (cost_share b (fl (1 / 10))) +
      units (cost_share b (fl (2 / 10))) = units b" "0 < b" unfolding shares_ok_def by blast+
    have "estimateCost complexity category = \<lparr>ce_luxAmount = b, ce_compute = cost_share b (fl (7 / 10)),
        ce_storage = cost_share b (fl (1 / 10)), ce_network = cost_share b (fl (2 / 10)),
        ce_tier = (if b \<le> 0 then tier_free else if b \<le> 1 / 2 then tier_basic
                   else if b \<le> 5 then tier_standard else tier_premium)\<rparr>"
      using False by (simp only: estimateCost_def b_def Let_def if_False)
    with b False show ?thesis by (simp only: CostEstimate.select_convs) simp
  qed (simp add: estimateCost_def)
qed

end
