(* ===== verification/Reputation.thy ===== *)
theory Reputation
  imports Types
begin

text \<open>
  \<^verbatim>\<open>ReputationManager\<close> (\<^verbatim>\<open>packages/node/src/kernel/reputation.ts\<close>): the local performance record,
  the records peers report, scoring with decay, pruning and the decision to broadcast. The two
  files and the published updates are part of the state. Counters are numbers because a peer's
  record is only clamped, not checked to be whole.
\<close>

section \<open>State\<close>

datatype ReputationEventType = ev_task_completed | ev_task_failed | ev_task_timed_out | ev_profile_shared | ev_peer_endorsement

record ReputationEvent =
  re_timestamp :: time
  re_type :: ReputationEventType
  re_detail :: string
  re_scoreDelta :: number

record ReputationRecord =
  rp_nodeId :: peer_id
  rp_tasksCompleted :: number
  rp_tasksFailed :: number
  rp_tasksTimedOut :: number
  rp_avgCompletionMs :: number
  rp_buildPassRate :: number
  rp_testPassRate :: number
  rp_profilesContributed :: number
  rp_reputationScore :: number
  rp_lastUpdated :: time
  rp_history :: "ReputationEvent list"

record event_metadata =
  md_durationMs :: "number option"
  md_buildPassed :: "bool option"
  md_testsPassed :: "bool option"

definition MAX_HISTORY :: nat where "MAX_HISTORY = 100"
definition BROADCAST_THRESHOLD :: number where "BROADCAST_THRESHOLD = fl (5 / 100)"
definition MAX_PEER_RECORDS :: nat where "MAX_PEER_RECORDS = 1000"
definition STALE_RECORD_MS :: time where "STALE_RECORD_MS = 7 * 86400000"

record reputation_manager =
  rm_localRecord :: ReputationRecord
  rm_peerRecords :: "(peer_id, ReputationRecord) jsmap"
  rm_lastBroadcastScore :: number
  rm_localFile :: "ReputationRecord option"
  rm_peersFile :: "ReputationRecord list option"
  rm_published :: "ReputationRecord list"

section \<open>Operations\<close>

definition computeScore :: "time \<Rightarrow> ReputationRecord \<Rightarrow> number" where
  "computeScore now r =
     (let base = fadd (fsub (fsub (fadd (fadd (fmul (rp_tasksCompleted r) 2) (fmul (rp_buildPassRate r) 10))
                   (fmul (rp_testPassRate r) 10)) (fmul (rp_tasksFailed r) 3)) (fmul (rp_tasksTimedOut r) 5))
                   (fmul (rp_profilesContributed r) 1);
          lastActive = (if rp_lastUpdated r = 0 then now else rp_lastUpdated r);
          daysSinceLastActive = fdiv (of_int (now - lastActive)) (24 * 60 * 60 * 1000);
          decayFactor = max (fl (1 / 10)) (fsub 1 (fdiv daysSinceLastActive 180))
      in fmul base decayFactor)"

definition rolling_rate :: "number \<Rightarrow> number \<Rightarrow> bool \<Rightarrow> number" where
  "rolling_rate tasks rate passed = fdiv (fadd (fmul rate (fsub tasks 1)) (if passed then 1 else 0)) tasks"

definition complete_task :: "event_metadata \<Rightarrow> ReputationRecord \<Rightarrow> ReputationRecord" where
  "complete_task md r0 =
     (let tasks = fadd (rp_tasksCompleted r0) 1;
          r1 = r0\<lparr>rp_tasksCompleted := tasks\<rparr>;
          r2 = (case md_durationMs md of None \<Rightarrow> r1
                | Some ms \<Rightarrow> if ms = 0 then r1
                    else r1\<lparr>rp_avgCompletionMs :=
                      Math_round (fdiv (fadd (fmul (rp_avgCompletionMs r1) (fsub tasks 1)) ms) tasks)\<rparr>);
          r3 = (case md_buildPassed md of None \<Rightarrow> r2
                | Some b \<Rightarrow> r2\<lparr>rp_buildPassRate := rolling_rate tasks (rp_buildPassRate r2) b\<rparr>)
      in (case md_testsPassed md of None \<Rightarrow> r3
          | Some b \<Rightarrow> r3\<lparr>rp_testPassRate := rolling_rate tasks (rp_testPassRate r3) b\<rparr>))"

fun count_event :: "ReputationEventType \<Rightarrow> event_metadata \<Rightarrow> ReputationRecord \<Rightarrow> ReputationRecord" where
  "count_event ev_task_completed md r = complete_task md r"
| "count_event ev_task_failed md r = r\<lparr>rp_tasksFailed := fadd (rp_tasksFailed r) 1\<rparr>"
| "count_event ev_task_timed_out md r = r\<lparr>rp_tasksTimedOut := fadd (rp_tasksTimedOut r) 1\<rparr>"
| "count_event ev_profile_shared md r = r\<lparr>rp_profilesContributed := fadd (rp_profilesContributed r) 1\<rparr>"
| "count_event ev_peer_endorsement md r = r"

definition broadcastUpdate :: "reputation_manager \<Rightarrow> reputation_manager" where
  "broadcastUpdate m = m\<lparr>rm_published := rm_published m @ [(rm_localRecord m)\<lparr>rp_history := []\<rparr>],
     rm_lastBroadcastScore := rp_reputationScore (rm_localRecord m)\<rparr>"

definition should_broadcast :: "number \<Rightarrow> number \<Rightarrow> bool" where
  "should_broadcast prev current =
     (if prev = 0 then current \<noteq> 0
      else BROADCAST_THRESHOLD < fdiv \<bar>fsub current prev\<bar> \<bar>prev\<bar>)"

definition maybeBroadcast :: "reputation_manager \<Rightarrow> reputation_manager" where
  "maybeBroadcast m =
     (if should_broadcast (rm_lastBroadcastScore m) (rp_reputationScore (rm_localRecord m)) then broadcastUpdate m else m)"

definition saveLocal :: "reputation_manager \<Rightarrow> reputation_manager" where
  "saveLocal m = m\<lparr>rm_localFile := Some (rm_localRecord m)\<rparr>"

definition savePeers :: "reputation_manager \<Rightarrow> reputation_manager" where
  "savePeers m = m\<lparr>rm_peersFile := Some (jvals (rm_peerRecords m))\<rparr>"

definition recordEvent ::
  "time \<Rightarrow> ReputationEventType \<Rightarrow> string \<Rightarrow> event_metadata \<Rightarrow> reputation_manager \<Rightarrow> reputation_manager" where
  "recordEvent now ty detail md m =
     (let r0 = rm_localRecord m;
          r1 = count_event ty md r0;
          score = computeScore now r1;
          ev = \<lparr>re_timestamp = now, re_type = ty, re_detail = detail, re_scoreDelta = fsub score (rp_reputationScore r0)\<rparr>;
          hist = rp_history r1 @ [ev];
          r2 = r1\<lparr>rp_reputationScore := score, rp_lastUpdated := now,
                   rp_history := (if MAX_HISTORY < length hist then lastn MAX_HISTORY hist else hist)\<rparr>
      in maybeBroadcast (saveLocal (m\<lparr>rm_localRecord := r2\<rparr>)))"

definition getReputation :: "reputation_manager \<Rightarrow> peer_id \<Rightarrow> ReputationRecord option" where
  "getReputation m p = (if p = rp_nodeId (rm_localRecord m) then Some (rm_localRecord m) else jget (rm_peerRecords m) p)"

definition getAllReputations :: "reputation_manager \<Rightarrow> ReputationRecord list" where
  "getAllReputations m = rm_localRecord m # jvals (rm_peerRecords m)"

definition getRankedNodes :: "reputation_manager \<Rightarrow> ReputationRecord list" where
  "getRankedNodes m = sort_key (\<lambda>r. - rp_reputationScore r) (getAllReputations m)"

definition getLocalReputation :: "reputation_manager \<Rightarrow> ReputationRecord" where
  "getLocalReputation m = rm_localRecord m"

text \<open>The removal of the oldest records beyond the cap.\<close>

definition enforce_peer_cap :: "(peer_id, ReputationRecord) jsmap \<Rightarrow> (peer_id, ReputationRecord) jsmap" where
  "enforce_peer_cap ps =
     (if MAX_PEER_RECORDS < length ps
      then fold jdel (map fst (take (length ps - MAX_PEER_RECORDS) (sort_key (\<lambda>e. rp_lastUpdated (snd e)) ps))) ps
      else ps)"

definition pruneStaleRecords :: "time \<Rightarrow> reputation_manager \<Rightarrow> reputation_manager \<times> nat" where
  "pruneStaleRecords now m =
     (let cutoff = now - STALE_RECORD_MS;
          fresh = filter (\<lambda>e. \<not> rp_lastUpdated (snd e) < cutoff) (rm_peerRecords m);
          kept = enforce_peer_cap fresh;
          pruned = length (rm_peerRecords m) - length kept;
          m' = m\<lparr>rm_peerRecords := kept\<rparr>
      in (if 0 < pruned then savePeers m' else m', pruned))"

definition verified_record :: "time \<Rightarrow> ReputationRecord \<Rightarrow> ReputationRecord" where
  "verified_record now r =
     (let v = \<lparr>rp_nodeId = rp_nodeId r, rp_tasksCompleted = max 0 (rp_tasksCompleted r),
               rp_tasksFailed = max 0 (rp_tasksFailed r), rp_tasksTimedOut = max 0 (rp_tasksTimedOut r),
               rp_avgCompletionMs = max 0 (rp_avgCompletionMs r),
               rp_buildPassRate = min 1 (max 0 (rp_buildPassRate r)),
               rp_testPassRate = min 1 (max 0 (rp_testPassRate r)),
               rp_profilesContributed = max 0 (rp_profilesContributed r),
               rp_reputationScore = 0, rp_lastUpdated = now, rp_history = []\<rparr>
      in v\<lparr>rp_reputationScore := computeScore now v\<rparr>)"

definition rep_handleRemoteUpdate :: "time \<Rightarrow> ReputationRecord \<Rightarrow> peer_id \<Rightarrow> reputation_manager \<Rightarrow> reputation_manager" where
  "rep_handleRemoteUpdate now r fromPeerId m =
     (if rp_nodeId r = [] then m
      else if rp_nodeId r \<noteq> fromPeerId then m
      else savePeers (m\<lparr>rm_peerRecords := jset (rp_nodeId r) (verified_record now r) (rm_peerRecords m)\<rparr>))"

definition empty_record :: "time \<Rightarrow> peer_id \<Rightarrow> ReputationRecord" where
  "empty_record now p = \<lparr>rp_nodeId = p, rp_tasksCompleted = 0, rp_tasksFailed = 0, rp_tasksTimedOut = 0,
     rp_avgCompletionMs = 0, rp_buildPassRate = 0, rp_testPassRate = 0, rp_profilesContributed = 0,
     rp_reputationScore = 0, rp_lastUpdated = now, rp_history = []\<rparr>"

definition loadLocal :: "time \<Rightarrow> peer_id \<Rightarrow> ReputationRecord option \<Rightarrow> ReputationRecord" where
  "loadLocal now p file = (case file of Some r \<Rightarrow> r\<lparr>rp_nodeId := p\<rparr> | None \<Rightarrow> empty_record now p)"

definition loadPeers :: "ReputationRecord list option \<Rightarrow> (peer_id, ReputationRecord) jsmap" where
  "loadPeers file =
     (case file of None \<Rightarrow> []
      | Some rs \<Rightarrow> fold (\<lambda>r m. if rp_nodeId r = [] then m else jset (rp_nodeId r) r m) rs [])"

definition ReputationManager_init ::
  "time \<Rightarrow> peer_id \<Rightarrow> ReputationRecord option \<Rightarrow> ReputationRecord list option \<Rightarrow> reputation_manager" where
  "ReputationManager_init now p localFile peersFile =
     (let r = loadLocal now p localFile in
      \<lparr>rm_localRecord = r, rm_peerRecords = loadPeers peersFile, rm_lastBroadcastScore = rp_reputationScore r,
       rm_localFile = localFile, rm_peersFile = peersFile, rm_published = []\<rparr>)"

section \<open>The local record\<close>

text \<open>A whole number a double counts exactly.\<close>

definition whole :: "number \<Rightarrow> bool" where
  "whole x = (0 \<le> x \<and> x \<le> 2 ^ 53 \<and> x = of_int \<lfloor>x\<rfloor>)"

lemma fl_whole: "whole x \<Longrightarrow> fl x = x"
proof -
  assume x: "whole x"
  then have "is_double x"
    unfolding is_double_def whole_def
    by (intro exI [of _ "\<lfloor>x\<rfloor>"] exI [of _ "0::int"]) (auto simp: floor_le_iff)
  then show "fl x = x" by (rule fl_double)
qed

lemma whole_of_int: "0 \<le> n \<Longrightarrow> n \<le> 2 ^ 53 \<Longrightarrow> whole (of_int n)"
proof -
  assume "0 \<le> n" "n \<le> 2 ^ 53"
  moreover from this have "of_int n \<le> (of_int (2 ^ 53) :: rat)" by (simp only: of_int_le_iff)
  ultimately show ?thesis by (simp add: whole_def)
qed

lemma wholeE:
  assumes "whole x"
  obtains n where "x = of_int n" "0 \<le> n" "n \<le> 2 ^ 53"
proof -
  have "\<lfloor>x\<rfloor> \<le> \<lfloor>of_int (2 ^ 53) :: rat\<rfloor>" using assms by (intro floor_mono) (simp add: whole_def)
  then show thesis using assms that [of "\<lfloor>x\<rfloor>"] by (simp add: whole_def)
qed

lemma whole_inc: "whole x \<Longrightarrow> whole (fadd x 1) \<and> 1 \<le> fadd x 1"
proof -
  assume "whole x"
  then obtain n where n: "x = of_int n" "0 \<le> n" "n \<le> 2 ^ 53" by (rule wholeE)
  show ?thesis
  proof (cases "n = 2 ^ 53")
    case True
    have "fadd (2 ^ 53) 1 = 2 ^ 53" by code_simp
    with n True show ?thesis using whole_of_int [of "2 ^ 53"] by simp
  next
    case False
    then have w: "whole (of_int (n + 1))" using n by (intro whole_of_int) auto
    then have "fadd x 1 = of_int (n + 1)" using fl_whole [OF w] n(1) by (simp add: fadd_def)
    with w n(2) show ?thesis by simp
  qed
qed

lemma whole_dec: "whole x \<Longrightarrow> 1 \<le> x \<Longrightarrow> whole (x - 1) \<and> fsub x 1 = x - 1"
proof -
  assume w: "whole x" and x: "1 \<le> x"
  obtain n where n: "x = of_int n" "0 \<le> n" "n \<le> 2 ^ 53" using w by (rule wholeE)
  then have "1 \<le> n" using x by simp
  then have "whole (of_int (n - 1))" using n by (intro whole_of_int) auto
  then show ?thesis using fl_whole [of "x - 1"] n(1) by (simp add: fsub_def)
qed

text \<open>The rolling average of pass rates stays a rate.\<close>

lemma rolling_rate_bounds:
  assumes n: "whole n" "1 \<le> n" and r: "0 \<le> r" "r \<le> 1"
  shows "0 \<le> rolling_rate n r b \<and> rolling_rate n r b \<le> 1"
proof -
  let ?p = "fmul r (fsub n 1)" and ?b = "if b then 1 else 0 :: rat"
  have d: "whole (n - 1)" "fsub n 1 = n - 1" using whole_dec [OF n] by auto
  have p0: "0 \<le> ?p" using r n(2) by (simp add: d fmul_def fl_nonneg)
  have "r * (n - 1) \<le> n - 1" using r n(2) mult_right_mono [of r 1 "n - 1"] by simp
  then have "?p \<le> n - 1" using fl_mono [of "r * (n - 1)" "n - 1"] fl_whole [OF d(1)] by (simp add: d(2) fmul_def)
  then have "fadd ?p ?b \<le> n" using fl_mono [of "?p + ?b" n] fl_whole [OF n(1)] by (simp add: fadd_def)
  then have "fadd ?p ?b / n \<le> 1" using n(2) by simp
  moreover have "fl 1 = 1" by code_simp
  ultimately have "fdiv (fadd ?p ?b) n \<le> 1" using fl_mono [of "fadd ?p ?b / n" 1] by (simp add: fdiv_def)
  moreover have "0 \<le> fadd ?p ?b" using p0 by (simp add: fadd_def fl_nonneg)
  ultimately show ?thesis using n(2) by (simp add: rolling_rate_def fdiv_def fl_nonneg)
qed

definition local_ok :: "reputation_manager \<Rightarrow> bool" where
  "local_ok m = (let r = rm_localRecord m in
     whole (rp_tasksCompleted r) \<and> 0 \<le> rp_buildPassRate r \<and> rp_buildPassRate r \<le> 1 \<and>
     0 \<le> rp_testPassRate r \<and> rp_testPassRate r \<le> 1 \<and> length (rp_history r) \<le> MAX_HISTORY)"

lemma count_event_ok:
  assumes "whole (rp_tasksCompleted r)" "0 \<le> rp_buildPassRate r" "rp_buildPassRate r \<le> 1"
    "0 \<le> rp_testPassRate r" "rp_testPassRate r \<le> 1"
  shows "whole (rp_tasksCompleted (count_event ty md r))"
    "0 \<le> rp_buildPassRate (count_event ty md r)" "rp_buildPassRate (count_event ty md r) \<le> 1"
    "0 \<le> rp_testPassRate (count_event ty md r)" "rp_testPassRate (count_event ty md r) \<le> 1"
  using assms whole_inc [OF assms(1)] rolling_rate_bounds [of "fadd (rp_tasksCompleted r) 1"]
  by (cases ty; auto simp: complete_task_def Let_def split: option.splits)+

lemma maybeBroadcast_local [simp]: "rm_localRecord (maybeBroadcast m) = rm_localRecord m"
  by (simp add: maybeBroadcast_def broadcastUpdate_def)

lemma recordEvent_local:
  "rm_localRecord (recordEvent now ty detail md m) =
     (let r1 = count_event ty md (rm_localRecord m); score = computeScore now r1;
          hist = rp_history r1 @ [\<lparr>re_timestamp = now, re_type = ty, re_detail = detail,
            re_scoreDelta = fsub score (rp_reputationScore (rm_localRecord m))\<rparr>]
      in r1\<lparr>rp_reputationScore := score, rp_lastUpdated := now,
            rp_history := (if MAX_HISTORY < length hist then lastn MAX_HISTORY hist else hist)\<rparr>)"
  by (simp add: recordEvent_def saveLocal_def Let_def)

text \<open>The local record stays well-formed under every event with every metadata: the number of completed tasks
  is a whole number, the build and test pass rates stay between 0 and 1 although they are averaged in
  floating point, the history keeps at most the last 100 events, and the newest event is the last.\<close>

lemma local_reputation_invariant:
  assumes "local_ok m"
  shows "local_ok (recordEvent now ty detail md m) \<and>
    re_type (last (rp_history (getLocalReputation (recordEvent now ty detail md m)))) = ty \<and>
    rm_peerRecords (recordEvent now ty detail md m) = rm_peerRecords m"
proof -
  have "rm_peerRecords (recordEvent now ty detail md m) = rm_peerRecords m"
    by (simp add: recordEvent_def saveLocal_def maybeBroadcast_def broadcastUpdate_def Let_def)
  moreover have "last (lastn MAX_HISTORY (h @ [e])) = e" for h and e :: ReputationEvent
    by (simp add: lastn_def MAX_HISTORY_def last_drop)
  ultimately show ?thesis
    using count_event_ok [of "rm_localRecord m" ty md] assms
    by (auto simp: local_ok_def recordEvent_local getLocalReputation_def Let_def)
qed

definition demo_rep :: reputation_manager where
  "demo_rep = ReputationManager_init 1000 ''me'' None None"

lemma local_reputation_invariant_witness:
  "local_ok (recordEvent 2000 ev_task_completed ''t''
     \<lparr>md_durationMs = Some 500, md_buildPassed = Some True, md_testsPassed = Some False\<rparr> demo_rep)"
proof -
  have "local_ok demo_rep" by code_simp
  then show ?thesis using local_reputation_invariant by blast
qed

section \<open>Records of peers\<close>

text \<open>Remote updates are authenticated by their sender and recomputed. An update changes at most what is known of
  its sender, only if it names the sender, and never the local record; what is stored has counters that
  are not negative, rates between 0 and 1, no history, and the score that this node computes, whatever
  score the update claims.\<close>

lemma remote_reputation_is_verified:
  assumes "rep_handleRemoteUpdate now r fromPeerId m = m'"
  shows "rm_localRecord m' = rm_localRecord m \<and>
    (p \<noteq> fromPeerId \<longrightarrow> getReputation m' p = getReputation m p) \<and>
    (getReputation m' p \<noteq> getReputation m p \<longrightarrow> rp_nodeId r = fromPeerId \<and>
      (\<exists>v. getReputation m' p = Some v \<and> rp_nodeId v = p \<and> 0 \<le> rp_tasksCompleted v \<and> 0 \<le> rp_tasksFailed v \<and>
        0 \<le> rp_tasksTimedOut v \<and> 0 \<le> rp_profilesContributed v \<and>
        0 \<le> rp_buildPassRate v \<and> rp_buildPassRate v \<le> 1 \<and> 0 \<le> rp_testPassRate v \<and> rp_testPassRate v \<le> 1 \<and>
        rp_history v = [] \<and> rp_reputationScore v = computeScore now (v\<lparr>rp_reputationScore := 0\<rparr>)))"
proof (cases "rp_nodeId r = [] \<or> rp_nodeId r \<noteq> fromPeerId")
  case True
  then have "m' = m" using assms by (auto simp: rep_handleRemoteUpdate_def)
  then show ?thesis by simp
next
  case False
  let ?v = "verified_record now r"
  have m': "rm_localRecord m' = rm_localRecord m" "rm_peerRecords m' = jset fromPeerId ?v (rm_peerRecords m)"
    using assms False by (auto simp: rep_handleRemoteUpdate_def savePeers_def)
  have v: "rp_nodeId ?v = fromPeerId" "0 \<le> rp_tasksCompleted ?v" "0 \<le> rp_tasksFailed ?v" "0 \<le> rp_tasksTimedOut ?v"
    "0 \<le> rp_profilesContributed ?v" "0 \<le> rp_buildPassRate ?v" "rp_buildPassRate ?v \<le> 1" "0 \<le> rp_testPassRate ?v"
    "rp_testPassRate ?v \<le> 1" "rp_history ?v = []" "rp_reputationScore ?v = computeScore now (?v\<lparr>rp_reputationScore := 0\<rparr>)"
    using False by (simp_all add: verified_record_def Let_def)
  have g: "getReputation m' q = (if q = rp_nodeId (rm_localRecord m) then getReputation m q
      else if q = fromPeerId then Some ?v else getReputation m q)" for q
    by (simp add: getReputation_def m')
  show ?thesis
  proof (intro conjI impI)
    assume "getReputation m' p \<noteq> getReputation m p"
    then have "getReputation m' p = Some ?v" "p = fromPeerId" by (auto simp: g split: if_splits)
    with v show "\<exists>v. getReputation m' p = Some v \<and> rp_nodeId v = p \<and> 0 \<le> rp_tasksCompleted v \<and> 0 \<le> rp_tasksFailed v \<and>
        0 \<le> rp_tasksTimedOut v \<and> 0 \<le> rp_profilesContributed v \<and>
        0 \<le> rp_buildPassRate v \<and> rp_buildPassRate v \<le> 1 \<and> 0 \<le> rp_testPassRate v \<and> rp_testPassRate v \<le> 1 \<and>
        rp_history v = [] \<and> rp_reputationScore v = computeScore now (v\<lparr>rp_reputationScore := 0\<rparr>)" by blast
  qed (use False m'(1) g in simp_all)
qed

definition boast :: ReputationRecord where
  "boast = (empty_record 0 ''eve'')\<lparr>rp_tasksCompleted := 40, rp_buildPassRate := 7, rp_reputationScore := 1000000\<rparr>"

lemma remote_reputation_is_verified_witness:
  "\<exists>v. getReputation (rep_handleRemoteUpdate 2000 boast ''eve'' demo_rep) ''eve'' = Some v \<and>
     rp_buildPassRate v \<le> 1 \<and> rp_reputationScore v = 90"
proof -
  have ne: "getReputation (rep_handleRemoteUpdate 2000 boast ''eve'' demo_rep) ''eve'' \<noteq> getReputation demo_rep ''eve''"
    "map_option rp_reputationScore (getReputation (rep_handleRemoteUpdate 2000 boast ''eve'' demo_rep) ''eve'') = Some 90"
    by code_simp+
  then show ?thesis
    using remote_reputation_is_verified [OF refl, of 2000 boast "''eve''" demo_rep "''eve''"] by auto
qed

section \<open>Pruning\<close>

lemma length_fold_jdel:
  assumes "jwf ps" "distinct ks" "set ks \<subseteq> fst ` set ps"
  shows "length (fold jdel ks ps) = length ps - length ks"
proof -
  have "map fst (fold jdel ks ps) = filter (\<lambda>k. k \<notin> set ks) (map fst ps)"
    by (simp add: fold_jdel filter_map o_def)
  then have "length (fold jdel ks ps) = length (filter (\<lambda>k. k \<notin> set ks) (map fst ps))" by (metis length_map)
  also have "\<dots> = card (set (map fst ps) - set ks)"
    using assms(1) distinct_card [of "filter (\<lambda>k. k \<notin> set ks) (map fst ps)"]
    by (simp add: jwf_def set_diff_eq Collect_conj_eq)
  also have "\<dots> = length ps - length ks"
    using assms distinct_card [OF assms(2)] distinct_card [of "map fst ps"]
    by (simp add: card_Diff_subset jwf_def)
  finally show ?thesis .
qed

lemma enforce_peer_cap_length: "jwf ps \<Longrightarrow> length (enforce_peer_cap ps) = min MAX_PEER_RECORDS (length ps)"
proof (cases "MAX_PEER_RECORDS < length ps")
  case True
  assume w: "jwf ps"
  let ?s = "sort_key (\<lambda>e. rp_lastUpdated (snd e)) ps"
  have "distinct (map fst ?s)"
    using w by (metis distinct_map jwf_def distinct_sort set_sort inj_on_def)
  then have d: "distinct (map fst (take (length ps - MAX_PEER_RECORDS) ?s))"
    by (metis distinct_take take_map)
  have s: "set (map fst (take (length ps - MAX_PEER_RECORDS) ?s)) \<subseteq> fst ` set ps"
    using set_take_subset [of _ ?s] by fastforce
  from length_fold_jdel [OF w d s] True show ?thesis by (simp add: enforce_peer_cap_def)
qed (simp add: enforce_peer_cap_def)

lemma enforce_peer_cap_subset: "set (enforce_peer_cap ps) \<subseteq> set ps"
  by (auto simp: enforce_peer_cap_def fold_jdel)

lemma enforce_peer_cap_oldest:
  assumes "jwf ps" "e \<in> set (enforce_peer_cap ps)" "x \<in> set ps" "x \<notin> set (enforce_peer_cap ps)"
  shows "rp_lastUpdated (snd x) \<le> rp_lastUpdated (snd e)"
proof -
  let ?s = "sort_key (\<lambda>e. rp_lastUpdated (snd e)) ps" and ?n = "length ps - MAX_PEER_RECORDS"
  have k: "enforce_peer_cap ps = filter (\<lambda>e. fst e \<notin> set (map fst (take ?n ?s))) ps"
    using assms(3,4) by (auto simp: enforce_peer_cap_def fold_jdel split: if_splits)
  have inj: "inj_on fst (set ps)" using assms(1) by (simp add: jwf_def distinct_map)
  have x: "x \<in> set (take ?n ?s)"
    using assms(3,4) inj set_take_subset [of ?n ?s] by (auto simp: k inj_on_def image_iff)
  have "e \<in> set ps" "e \<notin> set (take ?n ?s)" using assms(2) by (auto simp: k)
  then have "e \<in> set (drop ?n ?s)" by (metis append_take_drop_id Un_iff set_append set_sort)
  moreover have "sorted (map (\<lambda>e. rp_lastUpdated (snd e)) (take ?n ?s @ drop ?n ?s))" by simp
  ultimately show ?thesis using x by (simp only: map_append sorted_append set_map) blast
qed

text \<open>Pruning keeps at most 1000 records, all of them updated within the last seven days, drops no fresh record
  unless there are more than 1000, and then drops only records that are not newer than any it keeps.\<close>

lemma pruning_keeps_newest:
  assumes "jwf (rm_peerRecords m)" and "pruneStaleRecords now m = (m', pruned)"
  shows "length (rm_peerRecords m') \<le> MAX_PEER_RECORDS
    \<and> (\<forall>e \<in> set (rm_peerRecords m'). e \<in> set (rm_peerRecords m) \<and> now - STALE_RECORD_MS \<le> rp_lastUpdated (snd e))
    \<and> (\<forall>x \<in> set (rm_peerRecords m). x \<notin> set (rm_peerRecords m') \<and> now - STALE_RECORD_MS \<le> rp_lastUpdated (snd x) \<longrightarrow>
         length (rm_peerRecords m') = MAX_PEER_RECORDS \<and>
         (\<forall>e \<in> set (rm_peerRecords m'). rp_lastUpdated (snd x) \<le> rp_lastUpdated (snd e)))
    \<and> pruned = length (rm_peerRecords m) - length (rm_peerRecords m')"
proof -
  let ?f = "filter (\<lambda>e. \<not> rp_lastUpdated (snd e) < now - STALE_RECORD_MS) (rm_peerRecords m)"
  have w: "jwf ?f" using assms(1) by (simp add: jwf_def distinct_map inj_on_def)
  have m': "rm_peerRecords m' = enforce_peer_cap ?f" "pruned = length (rm_peerRecords m) - length (rm_peerRecords m')"
    using assms(2) by (auto simp: pruneStaleRecords_def Let_def savePeers_def split: if_splits)
  have full: "length (enforce_peer_cap ?f) = MAX_PEER_RECORDS" if "x \<in> set ?f" "x \<notin> set (enforce_peer_cap ?f)" for x
  proof -
    have "MAX_PEER_RECORDS < length ?f" using that by (auto simp: enforce_peer_cap_def split: if_splits)
    then show ?thesis using enforce_peer_cap_length [OF w] by simp
  qed
  have fresh: "x \<in> set ?f \<longleftrightarrow> x \<in> set (rm_peerRecords m) \<and> now - STALE_RECORD_MS \<le> rp_lastUpdated (snd x)" for x
    by auto
  show ?thesis
    unfolding m'(1) m'(2)
  proof (intro conjI ballI impI)
    fix x e assume x: "x \<in> set (rm_peerRecords m)"
      "x \<notin> set (enforce_peer_cap ?f) \<and> now - STALE_RECORD_MS \<le> rp_lastUpdated (snd x)"
    then show "length (enforce_peer_cap ?f) = MAX_PEER_RECORDS" using full [of x] fresh [of x] by blast
    assume "e \<in> set (enforce_peer_cap ?f)"
    then show "rp_lastUpdated (snd x) \<le> rp_lastUpdated (snd e)"
      using enforce_peer_cap_oldest [OF w, of e x] x fresh [of x] by blast
  next
    fix e assume "e \<in> set (enforce_peer_cap ?f)"
    then have "e \<in> set ?f" using enforce_peer_cap_subset by blast
    then show "e \<in> set (rm_peerRecords m)" "now - STALE_RECORD_MS \<le> rp_lastUpdated (snd e)" using fresh by blast+
  qed (use enforce_peer_cap_length [OF w] in simp_all)
qed

lemma pruning_keeps_newest_witness:
  "\<forall>e \<in> set (rm_peerRecords (fst (pruneStaleRecords 700000000 (rep_handleRemoteUpdate 2000 boast ''eve'' demo_rep)))).
     700000000 - STALE_RECORD_MS \<le> rp_lastUpdated (snd e)"
proof -
  have "jwf (rm_peerRecords (rep_handleRemoteUpdate 2000 boast ''eve'' demo_rep))" by code_simp
  from pruning_keeps_newest [OF this prod.collapse [symmetric], of 700000000] show ?thesis by blast
qed

end
