(* ===== verification/GovTypes.thy ===== *)
theory GovTypes
  imports Types
begin

text \<open>
  The governance types of \<^verbatim>\<open>packages/shared/src/types.ts\<close>. A status, choice or category that arrives
  from the network is an unchecked string; the last constructor of each datatype stands for any
  value outside the declared ones.
\<close>

datatype ProposalStatus =
    st_active | st_in_review | st_passed | st_rejected | st_expired | st_revision_requested | st_other string

datatype VoteChoice = approve | reject | abstain | other_choice string

datatype ProposalCategory =
    code_change | config_change | economic_change | governance_change | social | emergency | upgrade | other_category string

record UpgradePayload =
  up_commitHash :: string
  up_description :: string
  up_filesTouched :: "string list option"

record GovernanceProposal =
  gp_id :: string
  gp_title :: string
  gp_description :: string
  gp_proposedBy :: peer_id
  gp_createdAt :: time
  gp_votingEndsAt :: time
  gp_status :: ProposalStatus
  gp_stakeAmount :: "number option"
  gp_stakeHoldId :: "string option"
  gp_category :: "ProposalCategory option"
  gp_reviewerCount :: "nat option"
  gp_humanOnly :: bool
  gp_upgradePayload :: "UpgradePayload option"
  gp_proposerSignature :: "string option"

record GovernanceComment =
  gc_id :: string
  gc_proposalId :: string
  gc_from :: peer_id
  gc_content :: string
  gc_createdAt :: time

record ModelAttestation =
  ma_modelId :: string
  ma_modelProvider :: string
  ma_attestationHash :: string
  ma_salt :: string
  ma_nodeSignature :: string

record GovernanceVote =
  gv_proposalId :: string
  gv_voter :: peer_id
  gv_choice :: VoteChoice
  gv_reasoning :: string
  gv_createdAt :: time
  gv_modelAttestation :: "ModelAttestation option"

datatype DecisionOutcome = oc_passed | oc_rejected | oc_expired | oc_other string

record GovernanceDecision =
  gd_proposalId :: string
  gd_outcome :: DecisionOutcome
  gd_votesFor :: number
  gd_votesAgainst :: number
  gd_votesAbstain :: number
  gd_decidedAt :: time

record QuorumResult =
  qr_reached :: bool
  qr_totalWeight :: number
  qr_approveWeight :: number
  qr_rejectWeight :: number
  qr_quorumThreshold :: number

datatype WeightedOutcome = wo_passed | wo_rejected | wo_pending

record WeightedVoteResult =
  wr_outcome :: WeightedOutcome
  wr_approveWeight :: number
  wr_rejectWeight :: number
  wr_abstainWeight :: number
  wr_totalWeight :: number
  wr_quorumReached :: bool
  wr_quorumThreshold :: number
  wr_voterWeights :: "(peer_id \<times> number \<times> VoteChoice) list"

end
