(* ===== verification/ReputationGovernance.thy ===== *)
theory ReputationGovernance
  imports Reputation GovTypes
begin

text \<open>
  \<^verbatim>\<open>ReputationWeightedGovernance\<close> (\<^verbatim>\<open>packages/node/src/platform/reputation-governance.ts\<close>): vote
  weights from reputation, the weighted quorum and the weighted outcome, computed in doubles in the
  order of the source. The uptime callback is a number of milliseconds.
\<close>

section \<open>Operations\<close>

definition MIN_REPUTATION_TO_PROPOSE :: number where "MIN_REPUTATION_TO_PROPOSE = fl (3 / 10)"
definition MIN_REPUTATION_TO_VOTE :: number where "MIN_REPUTATION_TO_VOTE = fl (1 / 10)"
definition MIN_UPTIME_TO_PROPOSE_MS :: number where "MIN_UPTIME_TO_PROPOSE_MS = 24 * 60 * 60000"
definition MAX_VOTE_WEIGHT :: number where "MAX_VOTE_WEIGHT = 10"
definition MIN_VOTE_WEIGHT :: number where "MIN_VOTE_WEIGHT = fl (1 / 10)"
definition DEFAULT_QUORUM_WEIGHT :: number where "DEFAULT_QUORUM_WEIGHT = 3"

text \<open>The product of the three factors, scaled; \<open>combine_factors s u t\<close> for normalised score, uptime and tasks.\<close>

definition combine_factors :: "number \<Rightarrow> number \<Rightarrow> number \<Rightarrow> number" where
  "combine_factors normalizedScore uptimeFactor resourceFactor =
     (let w1 = fmul 1 (fadd (fl (3 / 10)) (fmul normalizedScore (fl (7 / 10))));
          w2 = fmul w1 (fadd (1 / 2) (fmul uptimeFactor (1 / 2)));
          w3 = fmul w2 (fadd (1 / 2) (fmul resourceFactor (1 / 2)))
      in fmul w3 MAX_VOTE_WEIGHT)"

definition calculateVoteWeight :: "reputation_manager \<Rightarrow> number \<Rightarrow> peer_id \<Rightarrow> number" where
  "calculateVoteWeight m uptimeMs p =
     (case getReputation m p of
        None \<Rightarrow> MIN_VOTE_WEIGHT
      | Some r \<Rightarrow>
          let normalizedScore = max 0 (min 1 (fdiv (rp_reputationScore r) 100));
              uptimeFactor = min 1 (fdiv uptimeMs (48 * 60 * 60000));
              resourceFactor = min 1 (fdiv (rp_tasksCompleted r) 10)
          in max MIN_VOTE_WEIGHT (min MAX_VOTE_WEIGHT (combine_factors normalizedScore uptimeFactor resourceFactor)))"

definition canPropose :: "reputation_manager \<Rightarrow> number \<Rightarrow> peer_id \<Rightarrow> bool" where
  "canPropose m uptimeMs p =
     (case getReputation m p of
        None \<Rightarrow> False
      | Some r \<Rightarrow> MIN_REPUTATION_TO_PROPOSE \<le> fdiv (rp_reputationScore r) 100 \<and> MIN_UPTIME_TO_PROPOSE_MS \<le> uptimeMs)"

definition canVote :: "reputation_manager \<Rightarrow> peer_id \<Rightarrow> bool" where
  "canVote m p =
     (case getReputation m p of
        None \<Rightarrow> False
      | Some r \<Rightarrow> MIN_REPUTATION_TO_VOTE \<le> fdiv (rp_reputationScore r) 100)"

text \<open>The running sums for approve, reject and abstain.\<close>

fun tally_vote :: "(peer_id \<Rightarrow> number) \<Rightarrow> GovernanceVote \<Rightarrow> number \<times> number \<times> number \<Rightarrow> number \<times> number \<times> number" where
  "tally_vote wt v (a, r, s) =
     (case gv_choice v of
        approve \<Rightarrow> (fadd a (wt (gv_voter v)), r, s)
      | reject \<Rightarrow> (a, fadd r (wt (gv_voter v)), s)
      | abstain \<Rightarrow> (a, r, fadd s (wt (gv_voter v)))
      | other_choice _ \<Rightarrow> (a, r, s))"

definition tally :: "(peer_id \<Rightarrow> number) \<Rightarrow> GovernanceVote list \<Rightarrow> number \<times> number \<times> number" where
  "tally wt votes = fold (tally_vote wt) votes (0, 0, 0)"

definition quorum_threshold :: "nat \<Rightarrow> number" where
  "quorum_threshold peerCount =
     (if peerCount \<le> 1 then fl (1 / 10)
      else if peerCount \<le> 5 then 2
      else if peerCount \<le> 20 then 3
      else min 10 (fmul (of_nat peerCount) (fl (3 / 10))))"

definition round2 :: "number \<Rightarrow> number" where
  "round2 x = fdiv (Math_round (fmul x 100)) 100"

definition checkWeightedQuorum :: "reputation_manager \<Rightarrow> number \<Rightarrow> GovernanceVote list \<Rightarrow> nat \<Rightarrow> QuorumResult" where
  "checkWeightedQuorum m uptimeMs votes peerCount =
     (let t = tally (calculateVoteWeight m uptimeMs) votes; a = fst t; r = fst (snd t); s = snd (snd t);
          totalWeight = fadd (fadd a r) s; threshold = quorum_threshold peerCount in
          \<lparr>qr_reached = (threshold \<le> totalWeight), qr_totalWeight = round2 totalWeight,
         qr_approveWeight = round2 a, qr_rejectWeight = round2 r, qr_quorumThreshold = round2 threshold\<rparr>)"

definition applyWeighting :: "reputation_manager \<Rightarrow> number \<Rightarrow> GovernanceVote list \<Rightarrow> nat \<Rightarrow> WeightedVoteResult" where
  "applyWeighting m uptimeMs votes peerCount =
     (let t = tally (calculateVoteWeight m uptimeMs) votes; a = fst t; r = fst (snd t); s = snd (snd t);
            quorum = checkWeightedQuorum m uptimeMs votes peerCount;
            decidingWeight = fadd a r
        in \<lparr>wr_outcome = (if qr_reached quorum \<and> 0 < decidingWeight
                          then if r < a then wo_passed else wo_rejected else wo_pending),
            wr_approveWeight = round2 a, wr_rejectWeight = round2 r, wr_abstainWeight = round2 s,
            wr_totalWeight = round2 (fadd (fadd a r) s),
            wr_quorumReached = qr_reached quorum, wr_quorumThreshold = qr_quorumThreshold quorum,
            wr_voterWeights = map (\<lambda>v. (gv_voter v, calculateVoteWeight m uptimeMs (gv_voter v), gv_choice v)) votes\<rparr>)"

section \<open>Vote weights\<close>

lemma calculateVoteWeight_bounds: "MIN_VOTE_WEIGHT \<le> calculateVoteWeight m u p \<and> calculateVoteWeight m u p \<le> MAX_VOTE_WEIGHT"
proof -
  have "MIN_VOTE_WEIGHT \<le> MAX_VOTE_WEIGHT" by code_simp
  then show ?thesis by (auto simp: calculateVoteWeight_def Let_def split: option.splits)
qed

lemma rounded_mult_mono: "x \<le> y \<Longrightarrow> 0 \<le> c \<Longrightarrow> fmul x c \<le> fmul y c"
  unfolding fmul_def by (intro fl_mono mult_right_mono)

text \<open>An affine factor \<open>c + x * k\<close> is not negative and grows with \<open>x\<close>.\<close>

lemma factor_mono:
  assumes "0 \<le> c" "0 \<le> k" "0 \<le> x" "x \<le> y"
  shows "0 \<le> fadd c (fmul x k)" "fadd c (fmul x k) \<le> fadd c (fmul y k)"
  using assms by (auto simp: fadd_def fmul_def intro!: fl_nonneg fl_mono add_nonneg_nonneg mult_right_mono)

lemma combine_factors_mono:
  assumes "0 \<le> s" "s \<le> s'" "0 \<le> u" "0 \<le> t" "t \<le> t'"
  shows "combine_factors s u t \<le> combine_factors s' u t'"
proof -
  have c: "0 \<le> fl (3 / 10)" "0 \<le> fl (7 / 10)" by (simp_all add: fl_nonneg)
  let ?f1 = "\<lambda>s. fadd (fl (3 / 10)) (fmul s (fl (7 / 10)))" and ?h = "\<lambda>x. fadd (1 / 2) (fmul x (1 / 2))"
  have f1: "0 \<le> ?f1 s" "?f1 s \<le> ?f1 s'" using factor_mono [OF c assms(1,2)] by auto
  have fu: "0 \<le> ?h u" using factor_mono(1) [of "1 / 2" "1 / 2" u u] assms(3) by simp
  have ft: "0 \<le> ?h t" "?h t \<le> ?h t'" using factor_mono [of "1 / 2" "1 / 2" t t'] assms(4,5) by auto
  have w1: "0 \<le> fmul 1 (?f1 s)" "fmul 1 (?f1 s) \<le> fmul 1 (?f1 s')"
    using f1 by (auto simp: fmul_def intro: fl_nonneg fl_mono)
  have w2: "0 \<le> fmul (fmul 1 (?f1 s)) (?h u)" "fmul (fmul 1 (?f1 s)) (?h u) \<le> fmul (fmul 1 (?f1 s')) (?h u)"
    using w1 fu rounded_mult_mono [OF w1(2) fu] by (auto simp: fmul_def intro: fl_nonneg)
  have "fmul (fmul (fmul 1 (?f1 s)) (?h u)) (?h t) \<le> fmul (fmul (fmul 1 (?f1 s')) (?h u)) (?h t')"
    unfolding fmul_def [of _ "?h t"] fmul_def [of _ "?h t'"] using w2 ft by (intro fl_mono mult_mono) auto
  then show ?thesis
    unfolding combine_factors_def Let_def by (rule rounded_mult_mono) (simp add: MAX_VOTE_WEIGHT_def)
qed

text \<open>Vote weights are bounded and fair: every peer, known or not, has a weight between 0.1 and 10, and of two
  known peers the one with at least the score and at least the completed tasks of the other has at least
  its weight, in double arithmetic.\<close>

lemma vote_weight_bounded_and_monotone:
  assumes "getReputation m p = Some r" and "getReputation m q = Some s" and "0 \<le> rp_tasksCompleted r" and "0 \<le> uptimeMs"
    and "rp_reputationScore r \<le> rp_reputationScore s" and "rp_tasksCompleted r \<le> rp_tasksCompleted s"
  shows "calculateVoteWeight m uptimeMs p \<le> calculateVoteWeight m uptimeMs q \<and>
    MIN_VOTE_WEIGHT \<le> calculateVoteWeight m uptimeMs p' \<and> calculateVoteWeight m uptimeMs p' \<le> MAX_VOTE_WEIGHT"
proof -
  have d: "fdiv x c \<le> fdiv y c" if "x \<le> y" "0 < c" for x y c
    using that by (auto simp: fdiv_def intro!: fl_mono divide_right_mono)
  have 1: "max 0 (min 1 (fdiv (rp_reputationScore r) 100)) \<le> max 0 (min 1 (fdiv (rp_reputationScore s) 100))"
    using d [OF assms(5), of 100] by (simp add: min_def max_def)
  have 2: "min 1 (fdiv (rp_tasksCompleted r) 10) \<le> min 1 (fdiv (rp_tasksCompleted s) 10)"
    "0 \<le> min 1 (fdiv (rp_tasksCompleted r) 10)"
    using d [OF assms(6), of 10] assms(3) by (auto simp: fdiv_def fl_nonneg)
  have 3: "0 \<le> min 1 (fdiv uptimeMs (48 * 60 * 60000))" using assms(4) by (simp add: fdiv_def fl_nonneg)
  have c: "combine_factors (max 0 (min 1 (fdiv (rp_reputationScore r) 100))) (min 1 (fdiv uptimeMs (48 * 60 * 60000)))
        (min 1 (fdiv (rp_tasksCompleted r) 10)) \<le>
      combine_factors (max 0 (min 1 (fdiv (rp_reputationScore s) 100))) (min 1 (fdiv uptimeMs (48 * 60 * 60000)))
        (min 1 (fdiv (rp_tasksCompleted s) 10))"
    using combine_factors_mono [OF _ 1 3 2(2,1)] by simp
  have mm: "max a (min b x) \<le> max a (min b y)" if "x \<le> y" for a b x y :: rat
    using that by (auto simp: max_def min_def)
  have "calculateVoteWeight m uptimeMs p \<le> calculateVoteWeight m uptimeMs q"
    using mm [OF c, of MIN_VOTE_WEIGHT MAX_VOTE_WEIGHT]
    by (simp only: calculateVoteWeight_def assms(1,2) option.case Let_def)
  with calculateVoteWeight_bounds [of m uptimeMs p'] show ?thesis by blast
qed

definition two_peers :: reputation_manager where
  "two_peers = rep_handleRemoteUpdate 2000 (boast\<lparr>rp_nodeId := ''dan'', rp_tasksCompleted := 3, rp_buildPassRate := 1\<rparr>) ''dan''
     (rep_handleRemoteUpdate 2000 boast ''eve'' demo_rep)"

lemma vote_weight_bounded_and_monotone_witness:
  "calculateVoteWeight two_peers 172800000 ''dan'' \<le> calculateVoteWeight two_peers 172800000 ''eve''"
proof -
  obtain r s where rs: "getReputation two_peers ''dan'' = Some r" "getReputation two_peers ''eve'' = Some s"
    "rp_tasksCompleted r = 3" "rp_reputationScore r = 16" "rp_tasksCompleted s = 40" "rp_reputationScore s = 90"
  proof -
    have "map_option (\<lambda>r. (rp_tasksCompleted r, rp_reputationScore r)) (getReputation two_peers ''dan'') = Some (3, 16)"
      "map_option (\<lambda>r. (rp_tasksCompleted r, rp_reputationScore r)) (getReputation two_peers ''eve'') = Some (40, 90)"
      by code_simp+
    then show thesis using that by auto
  qed
  from vote_weight_bounded_and_monotone [OF rs(1,2), of 172800000] rs(3-) show ?thesis by simp
qed

section \<open>Weighted sums\<close>

lemma fold_tally_bounds:
  assumes w: "\<And>p. 0 \<le> wt p \<and> wt p \<le> 10" and n: "10 * (na + nr + ns + length votes) \<le> 2 ^ 53"
    and s: "0 \<le> a" "a \<le> of_nat (10 * na)" "0 \<le> r" "r \<le> of_nat (10 * nr)" "0 \<le> s" "s \<le> of_nat (10 * ns)"
    and t: "fold (tally_vote wt) votes (a, r, s) = (a', r', s')"
  shows "\<exists>na' nr' ns'. na' + nr' + ns' \<le> na + nr + ns + length votes \<and> 0 \<le> a' \<and> a' \<le> of_nat (10 * na') \<and>
    0 \<le> r' \<and> r' \<le> of_nat (10 * nr') \<and> 0 \<le> s' \<and> s' \<le> of_nat (10 * ns')"
  using n s t
proof (induction votes arbitrary: a r s na nr ns)
  case Nil
  show ?case
  proof (intro exI)
    show "na + nr + ns \<le> na + nr + ns + length ([] :: GovernanceVote list) \<and> 0 \<le> a' \<and> a' \<le> of_nat (10 * na) \<and>
      0 \<le> r' \<and> r' \<le> of_nat (10 * nr) \<and> 0 \<le> s' \<and> s' \<le> of_nat (10 * ns)" using Nil by simp
  qed
next
  case (Cons v vs)
  have step: "0 \<le> fadd x (wt p) \<and> fadd x (wt p) \<le> of_nat (10 * Suc k)"
    if "0 \<le> x" "x \<le> of_nat (10 * k)" "10 * Suc k \<le> 2 ^ 53" for x k p
  proof -
    have "whole (of_nat (10 * Suc k))"
      using that(3) whole_of_int [of "int (10 * Suc k)"] by (simp del: of_nat_Suc mult_Suc_right)
    then have "fl (of_nat (10 * Suc k)) = of_nat (10 * Suc k)" by (rule fl_whole)
    moreover have "x + wt p \<le> of_nat (10 * Suc k)" using that(2) w [of p] by simp
    ultimately show ?thesis
      using that(1) w [of p] fl_mono [of "x + wt p" "of_nat (10 * Suc k)"] by (auto simp: fadd_def fl_nonneg)
  qed
  show ?case
  proof (cases "gv_choice v")
    case approve
    have n: "10 * (Suc na + nr + ns + length vs) \<le> 2 ^ 53" using Cons.prems(1) by simp
    from Cons.IH [OF n, of "fadd a (wt (gv_voter v))" r s] step [of a na] Cons.prems approve show ?thesis by simp
  next
    case reject
    have n: "10 * (na + Suc nr + ns + length vs) \<le> 2 ^ 53" using Cons.prems(1) by simp
    from Cons.IH [OF n, of a "fadd r (wt (gv_voter v))" s] step [of r nr] Cons.prems reject show ?thesis by simp
  next
    case abstain
    have n: "10 * (na + nr + Suc ns + length vs) \<le> 2 ^ 53" using Cons.prems(1) by simp
    from Cons.IH [OF n, of a r "fadd s (wt (gv_voter v))"] step [of s ns] Cons.prems abstain show ?thesis by simp
  next
    case (other_choice x)
    have n: "10 * (na + nr + ns + length vs) \<le> 2 ^ 53" using Cons.prems(1) by simp
    obtain na' nr' ns' where "na' + nr' + ns' \<le> na + nr + ns + length vs" "0 \<le> a'" "a' \<le> of_nat (10 * na')"
      "0 \<le> r'" "r' \<le> of_nat (10 * nr')" "0 \<le> s'" "s' \<le> of_nat (10 * ns')"
      using Cons.IH [OF n, of a r s] Cons.prems other_choice by auto
    moreover from this(1) have "na' + nr' + ns' \<le> na + nr + ns + length (v # vs)" by simp
    ultimately show ?thesis by blast
  qed
qed

lemma total_weight_bound:
  assumes "10 * length votes \<le> 2 ^ 53" "tally (calculateVoteWeight m u) votes = (a, r, s)"
  shows "fadd (fadd a r) s \<le> of_nat (10 * length votes)" "0 \<le> a" "0 \<le> r"
proof -
  have w: "0 \<le> calculateVoteWeight m u p \<and> calculateVoteWeight m u p \<le> 10" for p
  proof -
    have "0 \<le> MIN_VOTE_WEIGHT" by code_simp
    then show ?thesis using calculateVoteWeight_bounds [of m u p] by (simp add: MAX_VOTE_WEIGHT_def)
  qed
  obtain na nr ns where b: "na + nr + ns \<le> length votes" "0 \<le> a" "a \<le> of_nat (10 * na)" "0 \<le> r" "r \<le> of_nat (10 * nr)"
    "0 \<le> s" "s \<le> of_nat (10 * ns)"
    using fold_tally_bounds [of "calculateVoteWeight m u" 0 0 0 votes 0 0 0 a r s] w assms by (auto simp: tally_def)
  have wh: "fl (of_nat (10 * k)) = of_nat (10 * k)" if "k \<le> length votes" for k
  proof -
    have "int (10 * k) \<le> 2 ^ 53" using assms(1) that by simp
    then have "whole (of_int (int (10 * k)))" by (intro whole_of_int) simp_all
    then show ?thesis using fl_whole by (simp only: of_int_of_nat_eq)
  qed
  have "fadd a r \<le> of_nat (10 * (na + nr))"
    using fl_mono [of "a + r" "of_nat (10 * (na + nr))"] wh [of "na + nr"] b by (simp add: fadd_def)
  then have "fadd (fadd a r) s \<le> of_nat (10 * (na + nr + ns))"
    using fl_mono [of "fadd a r + s" "of_nat (10 * (na + nr + ns))"] wh [of "na + nr + ns"] b by (simp add: fadd_def [of _ s])
  also have "\<dots> \<le> of_nat (10 * length votes)" using b(1) by (simp only: of_nat_le_iff) simp
  finally show "fadd (fadd a r) s \<le> of_nat (10 * length votes)" .
  show "0 \<le> a" "0 \<le> r" using b by auto
qed

text \<open>A weighted decision is only reached with weight behind it. If the weighted vote is not pending, the summed
  weight reaches the threshold for the size of the network, so at least a tenth as many votes as the
  threshold were cast (no peer weighs more than 10); it is passed exactly if the approving weight exceeds
  the rejecting weight.\<close>

lemma weighted_outcome_has_quorum:
  assumes "10 * length votes \<le> 2 ^ 53"
    and "tally (calculateVoteWeight m uptimeMs) votes = (a, r, s)"
    and "wr_outcome (applyWeighting m uptimeMs votes peerCount) \<noteq> wo_pending"
  shows "quorum_threshold peerCount \<le> fadd (fadd a r) s
    \<and> quorum_threshold peerCount \<le> of_nat (10 * length votes)
    \<and> (wr_outcome (applyWeighting m uptimeMs votes peerCount) = wo_passed \<longleftrightarrow> r < a)
    \<and> wr_quorumReached (applyWeighting m uptimeMs votes peerCount)"
proof -
  have q: "quorum_threshold peerCount \<le> fadd (fadd a r) s"
    using assms(2,3) by (auto simp: applyWeighting_def checkWeightedQuorum_def Let_def split: if_splits)
  with total_weight_bound(1) [OF assms(1,2)] have "quorum_threshold peerCount \<le> of_nat (10 * length votes)"
    by linarith
  with q assms(2,3) show ?thesis
    by (auto simp: applyWeighting_def checkWeightedQuorum_def Let_def split: if_splits)
qed

definition demo_vote :: "peer_id \<Rightarrow> VoteChoice \<Rightarrow> GovernanceVote" where
  "demo_vote p c = \<lparr>gv_proposalId = ''p1'', gv_voter = p, gv_choice = c, gv_reasoning = [], gv_createdAt = 1,
     gv_modelAttestation = None\<rparr>"

lemma weighted_outcome_has_quorum_witness:
  "wr_outcome (applyWeighting demo_rep 0 [demo_vote ''x'' approve] 1) = wo_passed \<and>
   quorum_threshold 1 \<le> of_nat (10 * length [demo_vote ''x'' approve])"
proof -
  have o: "wr_outcome (applyWeighting demo_rep 0 [demo_vote ''x'' approve] 1) = wo_passed" by code_simp
  obtain a r s where t: "tally (calculateVoteWeight demo_rep 0) [demo_vote ''x'' approve] = (a, r, s)" by (metis prod_cases3)
  from weighted_outcome_has_quorum [OF _ t, of 1] o show ?thesis by simp
qed

text \<open>The weights rest on what peers report of themselves. A peer that reports fifty completed tasks, none of
  which anybody saw, votes with the maximal weight of 10 after one message, against 0.75 of a peer that
  reports honestly that it is new and 0.1 of a peer that reports nothing.\<close>

lemma self_reported_stats_give_maximal_weight:
  "calculateVoteWeight (rep_handleRemoteUpdate 2000 (boast\<lparr>rp_tasksCompleted := 50\<rparr>) ''eve'' demo_rep) 172800000 ''eve'' = 10 \<and>
   calculateVoteWeight (rep_handleRemoteUpdate 2000 (empty_record 0 ''eve'') ''eve'' demo_rep) 0 ''eve'' = fl (3 / 4) \<and>
   calculateVoteWeight demo_rep 172800000 ''eve'' = fl (1 / 10)"
  by code_simp

end
