(* ===== verification/Governance.thy ===== *)
theory Governance
  imports PaymentGate ReputationGovernance
begin

text \<open>
  \<^verbatim>\<open>GovernanceSync\<close> (\<^verbatim>\<open>packages/node/src/kernel/governance.ts\<close>): proposals, comments, votes and decisions, kept in
  memory, mirrored in four tables and exchanged by gossip.

  The node around it is a parameter: payment gate, reward callback, vote weighting, keys and signatures are functions
  on an abstract state \<open>'s\<close> (\<open>gov_env\<close>), as the source knows them through the interfaces \<^verbatim>\<open>PaymentGateLike\<close> and
  \<^verbatim>\<open>ReputationGovernanceLike\<close>. The clock and the number of peers are arguments of each step. What follows an
  \<^verbatim>\<open>await\<close> is a job in \<open>gn_jobs\<close> that \<open>resume_gov\<close> runs at any later time, or \<open>drop_job\<close> discards when the awaited call failed. Proposals are updated under their id; a proposal
  that is deleted while its own creation awaits and is received again is identified with the deleted one.
  \<^verbatim>\<open>JSON.parse\<close> is taken to invert \<^verbatim>\<open>JSON.stringify\<close> on the stored columns; an absent column value is the empty string
  or zero, as in the tables. Callbacks, audit entries and published messages are logged.
\<close>

section \<open>Constants and data\<close>

definition PROPOSAL_STAKE_LUX :: number where "PROPOSAL_STAKE_LUX = 10"
definition EMERGENCY_STAKE_LUX :: number where "EMERGENCY_STAKE_LUX = 50"
definition FREE_TIER_THRESHOLD :: number where "FREE_TIER_THRESHOLD = 100"
definition SYNC_PROPOSAL_MAX_AGE_MS :: time where "SYNC_PROPOSAL_MAX_AGE_MS = 7 * 24 * 60 * 60 * 1000"
definition DEFAULT_UPGRADE_AUTO_APPROVE_THRESHOLD :: nat where "DEFAULT_UPGRADE_AUTO_APPROVE_THRESHOLD = 8"
definition GOVERNANCE_CHANGE_VOTING_MS :: time where "GOVERNANCE_CHANGE_VOTING_MS = 24 * 60 * 60 * 1000"
definition GOVERNANCE_CHANGE_APPROVAL_THRESHOLD :: number where "GOVERNANCE_CHANGE_APPROVAL_THRESHOLD = fl (8 / 10)"
definition GOVERNANCE_CHANGE_MIN_VOTES :: nat where "GOVERNANCE_CHANGE_MIN_VOTES = 5"
definition EMERGENCY_VOTING_MS :: time where "EMERGENCY_VOTING_MS = 30 * 60 * 1000"
definition MAX_PROPOSALS :: nat where "MAX_PROPOSALS = 500"
definition ARCHIVE_AGE_MS :: time where "ARCHIVE_AGE_MS = 30 * 86400000"

text \<open>\<^verbatim>\<open>text.replace(/</g, '&lt;').replace(/>/g, '&gt;')\<close>\<close>

definition escape_char :: "char \<Rightarrow> string \<Rightarrow> string \<Rightarrow> string" where
  "escape_char c e s = concat (map (\<lambda>x. if x = c then e else [x]) s)"

definition sanitizeText :: "string \<Rightarrow> string" where
  "sanitizeText s = escape_char (CHR ''>'') ''&gt;'' (escape_char (CHR ''<'') ''&lt;'' s)"

text \<open>The canonical payload a proposer signs.\<close>

record signable_proposal =
  sp_category :: ProposalCategory
  sp_createdAt :: time
  sp_description :: string
  sp_id :: string
  sp_proposedBy :: peer_id
  sp_title :: string
  sp_upgradePayload :: "UpgradePayload option"

definition no_category :: ProposalCategory where "no_category = other_category []"

definition category_column :: "ProposalCategory option \<Rightarrow> ProposalCategory" where
  "category_column c = (case c of None \<Rightarrow> no_category | Some x \<Rightarrow> x)"

definition buildProposalSignablePayload :: "GovernanceProposal \<Rightarrow> signable_proposal" where
  "buildProposalSignablePayload p = \<lparr>sp_category = category_column (gp_category p), sp_createdAt = gp_createdAt p,
     sp_description = gp_description p, sp_id = gp_id p, sp_proposedBy = gp_proposedBy p, sp_title = gp_title p,
     sp_upgradePayload = gp_upgradePayload p\<rparr>"

record AgentHello =
  ah_peerId :: peer_id
  ah_agentTier :: string
  ah_capabilities :: "string list"

record AgentCapabilities =
  ac_peerId :: peer_id
  ac_languages :: "string list"
  ac_tools :: "string list"
  ac_specialization :: "string list"

record sync_payload =
  sy_proposals :: "GovernanceProposal list"
  sy_comments :: "GovernanceComment list"
  sy_votes :: "GovernanceVote list"
  sy_decisions :: "GovernanceDecision list"

datatype gov_payload =
    GOVERNANCE_PROPOSAL GovernanceProposal
  | GOVERNANCE_COMMENT GovernanceComment
  | GOVERNANCE_VOTE GovernanceVote
  | GOVERNANCE_DECISION GovernanceDecision
  | AGENT_HELLO AgentHello
  | AGENT_CAPABILITIES AgentCapabilities
  | AGENT_MESSAGE string "peer_id option"
  | GOVERNANCE_SYNC_REQUEST time
  | GOVERNANCE_SYNC_RESPONSE sync_payload
  | OTHER_MESSAGE

record gov_message =
  gm_from :: peer_id
  gm_timestamp :: time
  gm_payload :: gov_payload
  gm_signature :: "string option"

text \<open>The tables \<^verbatim>\<open>governance_proposals\<close> and \<^verbatim>\<open>governance_votes\<close>.\<close>

record proposal_row =
  pw_title :: string
  pw_description :: string
  pw_proposed_by :: peer_id
  pw_created_at :: time
  pw_voting_ends_at :: time
  pw_status :: ProposalStatus
  pw_stake_amount :: number
  pw_stake_hold_id :: string
  pw_category :: ProposalCategory
  pw_reviewer_count :: nat
  pw_human_only :: bool
  pw_upgrade_payload :: "UpgradePayload option"
  pw_proposer_signature :: string

record vote_row =
  vw_choice :: VoteChoice
  vw_reasoning :: string
  vw_created_at :: time
  vw_model_attestation :: "ModelAttestation option"

record gov_tables =
  gt_proposals :: "(string, proposal_row) jsmap"
  gt_comments :: "(string, GovernanceComment) jsmap"
  gt_votes :: "(string \<times> peer_id, vote_row) jsmap"
  gt_decisions :: "(string, GovernanceDecision) jsmap"

datatype gov_event =
    on_proposal GovernanceProposal
  | on_comment GovernanceComment
  | on_vote GovernanceVote string
  | on_decision GovernanceDecision string
  | on_upgrade_approved GovernanceProposal
  | on_agent_hello AgentHello
  | on_agent_message peer_id string
  | on_activity ActivityRecord

record governance_check =
  ck_proposalId :: string
  ck_name :: string
  ck_result :: string

datatype gov_job =
    job_proposal GovernanceProposal
  | job_comment gov_message GovernanceComment
  | job_vote gov_message GovernanceVote
  | job_create GovernanceProposal string
  | job_created GovernanceProposal string
  | job_validate GovernanceProposal
  | job_approve GovernanceProposal
  | job_cast GovernanceVote string
  | job_sync peer_id time "string list" GovernanceProposal "GovernanceProposal list" sync_payload

record 's governance =
  gn_proposals :: "(string, GovernanceProposal) jsmap"
  gn_comments :: "(string, GovernanceComment list) jsmap"
  gn_votes :: "(string, (peer_id, GovernanceVote) jsmap) jsmap"
  gn_decisions :: "(string, GovernanceDecision) jsmap"
  gn_processedIds :: "string list"
  gn_rewardedVotes :: "string list"
  gn_knownAgents :: "(peer_id, AgentHello) jsmap"
  gn_peerCapabilities :: "(peer_id, AgentCapabilities) jsmap"
  gn_upgradeAutoApproveThreshold :: nat
  gn_db :: gov_tables
  gn_world :: 's
  gn_jobs :: "gov_job list"
  gn_events :: "gov_event list"
  gn_audit :: "governance_check list"
  gn_published :: "gov_message list"

section \<open>The node around the governance layer\<close>

record 's stake_gate =
  sg_canAfford :: "'s \<Rightarrow> peer_id \<Rightarrow> number \<Rightarrow> bool"
  sg_holdPayment :: "time \<Rightarrow> string \<Rightarrow> peer_id \<Rightarrow> string \<Rightarrow> number \<Rightarrow> 's \<Rightarrow> 's \<times> PaymentHold option"
  sg_refundPayment :: "time \<Rightarrow> string \<Rightarrow> 's \<Rightarrow> 's \<times> bool"
  sg_releasePayment :: "time \<Rightarrow> string \<Rightarrow> peer_id \<Rightarrow> 's \<Rightarrow> 's \<times> bool"

record 's gov_env =
  ge_localPeerId :: peer_id
  ge_paymentGate :: "'s stake_gate option"
  ge_rewardWork :: "(time \<Rightarrow> peer_id \<Rightarrow> WorkType \<Rightarrow> string \<Rightarrow> 's \<Rightarrow> 's) option"
  ge_applyWeighting :: "('s \<Rightarrow> time \<Rightarrow> GovernanceVote list \<Rightarrow> nat \<Rightarrow> WeightedVoteResult) option"
  ge_sha256 :: "string \<Rightarrow> string"
  ge_number_text :: "number \<Rightarrow> string"
  ge_publicKey :: "peer_id \<Rightarrow> string option"
  ge_verifySignature :: "gov_message \<Rightarrow> string \<Rightarrow> string \<Rightarrow> bool"
  ge_json :: "signable_proposal \<Rightarrow> string"
  ge_ed25519 :: "string \<Rightarrow> string \<Rightarrow> string \<Rightarrow> bool"
  ge_signProposal :: "(string \<Rightarrow> string option) option"

text \<open>\<^verbatim>\<open>ge_rewardWork\<close> swallows the errors its caller catches; \<^verbatim>\<open>ge_publicKey\<close> is undefined for an id without an
  inline key and for an id that does not parse.\<close>

definition verifyProposalSignature :: "'s gov_env \<Rightarrow> GovernanceProposal \<Rightarrow> string \<Rightarrow> bool" where
  "verifyProposalSignature E p sig =
     (case ge_publicKey E (gp_proposedBy p) of
        None \<Rightarrow> False
      | Some key \<Rightarrow> length key = 32 \<and> ge_ed25519 E (ge_json E (buildProposalSignablePayload p)) sig key)"

text \<open>The check of \<^verbatim>\<open>handleComment\<close> and \<^verbatim>\<open>handleVote\<close> on a message that claims to come from \<open>p\<close>.\<close>

definition message_verified :: "'s gov_env \<Rightarrow> gov_message \<Rightarrow> peer_id \<Rightarrow> bool" where
  "message_verified E m p =
     (truthy (gm_signature m) \<and>
      (case ge_publicKey E p of None \<Rightarrow> False | Some key \<Rightarrow> ge_verifySignature E m (the (gm_signature m)) key))"

section \<open>Keys, logs and look-ups\<close>

definition proposal_key :: "string \<Rightarrow> string" where "proposal_key i = ''proposal:'' @ i"
definition comment_key :: "string \<Rightarrow> string" where "comment_key i = ''comment:'' @ i"
definition decision_key :: "string \<Rightarrow> string" where "decision_key i = ''decision:'' @ i"
definition vote_key :: "string \<Rightarrow> peer_id \<Rightarrow> string" where "vote_key i p = ''vote:'' @ i @ '':'' @ p"

definition processed :: "string \<Rightarrow> 's governance \<Rightarrow> bool" where
  "processed k g = (k \<in> set (gn_processedIds g))"

definition mark :: "string \<Rightarrow> 's governance \<Rightarrow> 's governance" where
  "mark k g = g\<lparr>gn_processedIds := sadd k (gn_processedIds g)\<rparr>"

definition emit_event :: "gov_event \<Rightarrow> 's governance \<Rightarrow> 's governance" where
  "emit_event e g = g\<lparr>gn_events := gn_events g @ [e]\<rparr>"

definition logGovernanceCheck :: "string \<Rightarrow> string \<Rightarrow> string \<Rightarrow> 's governance \<Rightarrow> 's governance" where
  "logGovernanceCheck i name result g =
     g\<lparr>gn_audit := gn_audit g @ [\<lparr>ck_proposalId = i, ck_name = name, ck_result = result\<rparr>]\<rparr>"

definition add_job :: "gov_job \<Rightarrow> 's governance \<Rightarrow> 's governance" where
  "add_job j g = g\<lparr>gn_jobs := gn_jobs g @ [j]\<rparr>"

definition gov_publish :: "'s gov_env \<Rightarrow> time \<Rightarrow> gov_payload \<Rightarrow> 's governance \<Rightarrow> 's governance" where
  "gov_publish E now pl g = g\<lparr>gn_published := gn_published g @
     [\<lparr>gm_from = ge_localPeerId E, gm_timestamp = now, gm_payload = pl, gm_signature = None\<rparr>]\<rparr>"

definition getComments :: "'s governance \<Rightarrow> string \<Rightarrow> GovernanceComment list" where
  "getComments g i = (case jget (gn_comments g) i of None \<Rightarrow> [] | Some cs \<Rightarrow> cs)"

definition votes_of :: "'s governance \<Rightarrow> string \<Rightarrow> (peer_id, GovernanceVote) jsmap" where
  "votes_of g i = (case jget (gn_votes g) i of None \<Rightarrow> [] | Some vs \<Rightarrow> vs)"

definition getVotes :: "'s governance \<Rightarrow> string \<Rightarrow> GovernanceVote list" where
  "getVotes g i = jvals (votes_of g i)"

definition getDecision :: "'s governance \<Rightarrow> string \<Rightarrow> GovernanceDecision option" where
  "getDecision g i = jget (gn_decisions g) i"

definition title_of :: "'s governance \<Rightarrow> string \<Rightarrow> string" where
  "title_of g i = (case jget (gn_proposals g) i of None \<Rightarrow> [] | Some p \<Rightarrow> gp_title p)"

definition broadcastGovernanceActivity :: "'s gov_env \<Rightarrow> time \<Rightarrow> string \<Rightarrow> string \<Rightarrow> string \<Rightarrow> 's governance \<Rightarrow> 's governance" where
  "broadcastGovernanceActivity E now action summary i g =
     (let safeSummary = sanitizeText summary; self = ge_localPeerId E in
      emit_event (on_activity
        \<lparr>act_id = ge_sha256 E (self @ '':'' @ ge_number_text E (of_int now) @ '':'' @ action @ '':'' @ safeSummary),
         act_agentId = self, act_nodeId = self, act_agentRole = ''node'', act_agentTier = 1, act_modelId = ''pando-node'',
         act_action = action, act_timestamp = now, act_summary = safeSummary, act_details = None,
         act_proposalId = Some i, act_taskId = None, act_transactionId = None, act_signature = ''pending''\<rparr>) g)"

section \<open>Rows\<close>

definition row_of_proposal :: "GovernanceProposal \<Rightarrow> proposal_row" where
  "row_of_proposal p =
     \<lparr>pw_title = gp_title p, pw_description = gp_description p, pw_proposed_by = gp_proposedBy p,
      pw_created_at = gp_createdAt p, pw_voting_ends_at = gp_votingEndsAt p, pw_status = gp_status p,
      pw_stake_amount = (case gp_stakeAmount p of None \<Rightarrow> 0 | Some x \<Rightarrow> x),
      pw_stake_hold_id = (case gp_stakeHoldId p of None \<Rightarrow> [] | Some x \<Rightarrow> x),
      pw_category = category_column (gp_category p),
      pw_reviewer_count = (case gp_reviewerCount p of None \<Rightarrow> 0 | Some n \<Rightarrow> n),
      pw_human_only = gp_humanOnly p, pw_upgrade_payload = gp_upgradePayload p,
      pw_proposer_signature = (case gp_proposerSignature p of None \<Rightarrow> [] | Some x \<Rightarrow> x)\<rparr>"

definition proposal_of_row :: "string \<Rightarrow> proposal_row \<Rightarrow> GovernanceProposal" where
  "proposal_of_row i r =
     \<lparr>gp_id = i, gp_title = pw_title r, gp_description = pw_description r, gp_proposedBy = pw_proposed_by r,
      gp_createdAt = pw_created_at r, gp_votingEndsAt = pw_voting_ends_at r, gp_status = pw_status r,
      gp_stakeAmount = (if pw_stake_amount r = 0 then None else Some (pw_stake_amount r)),
      gp_stakeHoldId = (if pw_stake_hold_id r = [] then None else Some (pw_stake_hold_id r)),
      gp_category = (if pw_category r = no_category then None else Some (pw_category r)),
      gp_reviewerCount = (if pw_reviewer_count r = 0 then None else Some (pw_reviewer_count r)),
      gp_humanOnly = pw_human_only r, gp_upgradePayload = pw_upgrade_payload r,
      gp_proposerSignature = (if pw_proposer_signature r = [] then None else Some (pw_proposer_signature r))\<rparr>"

definition row_of_vote :: "GovernanceVote \<Rightarrow> vote_row" where
  "row_of_vote v = \<lparr>vw_choice = gv_choice v, vw_reasoning = gv_reasoning v, vw_created_at = gv_createdAt v,
     vw_model_attestation = gv_modelAttestation v\<rparr>"

definition vote_of_row :: "string \<Rightarrow> peer_id \<Rightarrow> vote_row \<Rightarrow> GovernanceVote" where
  "vote_of_row i p r = \<lparr>gv_proposalId = i, gv_voter = p, gv_choice = vw_choice r, gv_reasoning = vw_reasoning r,
     gv_createdAt = vw_created_at r, gv_modelAttestation = vw_model_attestation r\<rparr>"

text \<open>\<^verbatim>\<open>INSERT OR REPLACE\<close>: a row that exists is deleted and the new one is the last.\<close>

definition insert_or_replace :: "'k \<Rightarrow> 'v \<Rightarrow> ('k, 'v) jsmap \<Rightarrow> ('k, 'v) jsmap" where
  "insert_or_replace k v m = jdel k m @ [(k, v)]"

definition stmtInsertProposal :: "GovernanceProposal \<Rightarrow> 's governance \<Rightarrow> 's governance" where
  "stmtInsertProposal p g = g\<lparr>gn_db := (gn_db g)\<lparr>gt_proposals :=
     insert_or_ignore (gp_id p) (row_of_proposal p) (gt_proposals (gn_db g))\<rparr>\<rparr>"

definition stmtUpdateProposalStatus :: "ProposalStatus \<Rightarrow> string \<Rightarrow> 's governance \<Rightarrow> 's governance" where
  "stmtUpdateProposalStatus st i g = g\<lparr>gn_db := (gn_db g)\<lparr>gt_proposals :=
     jupd i (\<lambda>r. r\<lparr>pw_status := st\<rparr>) (gt_proposals (gn_db g))\<rparr>\<rparr>"

definition stmtInsertComment :: "GovernanceComment \<Rightarrow> 's governance \<Rightarrow> 's governance" where
  "stmtInsertComment c g = g\<lparr>gn_db := (gn_db g)\<lparr>gt_comments := insert_or_ignore (gc_id c) c (gt_comments (gn_db g))\<rparr>\<rparr>"

definition stmtUpsertVote :: "GovernanceVote \<Rightarrow> 's governance \<Rightarrow> 's governance" where
  "stmtUpsertVote v g = g\<lparr>gn_db := (gn_db g)\<lparr>gt_votes :=
     insert_or_replace (gv_proposalId v, gv_voter v) (row_of_vote v) (gt_votes (gn_db g))\<rparr>\<rparr>"

definition stmtInsertDecision :: "GovernanceDecision \<Rightarrow> 's governance \<Rightarrow> 's governance" where
  "stmtInsertDecision d g = g\<lparr>gn_db := (gn_db g)\<lparr>gt_decisions := insert_or_replace (gd_proposalId d) d (gt_decisions (gn_db g))\<rparr>\<rparr>"

text \<open>\<^verbatim>\<open>proposal.status = ...\<close> with the update of the row.\<close>

definition set_status :: "string \<Rightarrow> ProposalStatus \<Rightarrow> 's governance \<Rightarrow> 's governance" where
  "set_status i st g =
     stmtUpdateProposalStatus st i (g\<lparr>gn_proposals := jupd i (\<lambda>p. p\<lparr>gp_status := st\<rparr>) (gn_proposals g)\<rparr>)"

section \<open>Stakes and rewards\<close>

definition NETWORK_BURN :: peer_id where "NETWORK_BURN = ''NETWORK''"

definition refund_stake :: "'s stake_gate \<Rightarrow> time \<Rightarrow> string \<Rightarrow> 's governance \<Rightarrow> 's governance" where
  "refund_stake S now h g = g\<lparr>gn_world := fst (sg_refundPayment S now h (gn_world g))\<rparr>"

definition burn_stake :: "'s stake_gate \<Rightarrow> time \<Rightarrow> string \<Rightarrow> 's governance \<Rightarrow> 's governance" where
  "burn_stake S now h g = g\<lparr>gn_world := fst (sg_releasePayment S now h NETWORK_BURN (gn_world g))\<rparr>"

text \<open>The outcome \<^verbatim>\<open>revision_requested\<close>, like every other string, leaves the stake held.\<close>

definition resolveProposalStake :: "'s gov_env \<Rightarrow> time \<Rightarrow> string \<Rightarrow> DecisionOutcome \<Rightarrow> 's governance \<Rightarrow> 's governance" where
  "resolveProposalStake E now i outcome g =
     (case jget (gn_proposals g) i of None \<Rightarrow> g | Some p \<Rightarrow>
      (case ge_paymentGate E of None \<Rightarrow> g | Some S \<Rightarrow>
       if \<not> truthy (gp_stakeHoldId p) then g
       else (case gp_stakeAmount p of None \<Rightarrow> g | Some amount \<Rightarrow>
         if amount \<le> 0 then g
         else let h = the (gp_stakeHoldId p) in
           (case outcome of
              oc_passed \<Rightarrow> refund_stake S now h g
            | oc_rejected \<Rightarrow> burn_stake S now h g
            | oc_expired \<Rightarrow> if votes_of g i = [] then refund_stake S now h g else burn_stake S now h g
            | oc_other _ \<Rightarrow> g))))"

definition emitVoteReward :: "'s gov_env \<Rightarrow> time \<Rightarrow> peer_id \<Rightarrow> string \<Rightarrow> 's governance \<Rightarrow> 's governance" where
  "emitVoteReward E now voter i g =
     (case ge_rewardWork E of None \<Rightarrow> g
      | Some reward \<Rightarrow>
          if vote_key i voter \<in> set (gn_rewardedVotes g) then g
          else g\<lparr>gn_rewardedVotes := sadd (vote_key i voter) (gn_rewardedVotes g),
                 gn_world := reward now voter VOTE_CAST (''voted on proposal '' @ take 16 i) (gn_world g)\<rparr>)"

definition emitProposalReward :: "'s gov_env \<Rightarrow> time \<Rightarrow> peer_id \<Rightarrow> string \<Rightarrow> 's governance \<Rightarrow> 's governance" where
  "emitProposalReward E now proposer title g =
     (case ge_rewardWork E of None \<Rightarrow> g
      | Some reward \<Rightarrow> g\<lparr>gn_world := reward now proposer PROPOSAL_ACCEPTED
            (''proposal accepted: '' @ [CHR 0x22] @ title @ [CHR 0x22]) (gn_world g)\<rparr>)"

section \<open>Quorum and decision\<close>

text \<open>\<^verbatim>\<open>peers\<close> is \<^verbatim>\<open>network.getPeerCount()\<close>, which does not count the node itself.\<close>

definition getQuorum :: "nat \<Rightarrow> nat" where
  "getQuorum peers =
     (let peerCount = peers + 1 in
      if peerCount = 1 then 1
      else if peerCount \<le> 10 then max 2 (nat \<lceil>fmul (of_nat peerCount) (1 / 2)\<rceil>)
      else if peerCount \<le> 100 then 5
      else if peerCount \<le> 1000 then 10
      else nat \<lceil>fmul (of_nat peerCount) (fl (5 / 100))\<rceil>)"

definition required_votes :: "nat \<Rightarrow> GovernanceProposal \<Rightarrow> nat \<Rightarrow> nat" where
  "required_votes peers p totalVotes =
     (let quorum = (if gp_category p = Some governance_change then min GOVERNANCE_CHANGE_MIN_VOTES (peers + 1)
                    else if gp_humanOnly p then 2 else getQuorum peers);
          totalNodes = peers + 1
      in if totalNodes < 10 then 1
         else if totalNodes \<le> totalVotes \<and> totalVotes < quorum then totalNodes else quorum)"

definition getWeightedVoteResult :: "'s gov_env \<Rightarrow> time \<Rightarrow> nat \<Rightarrow> string \<Rightarrow> 's governance \<Rightarrow> WeightedVoteResult option" where
  "getWeightedVoteResult E now peers i g =
     (case ge_applyWeighting E of None \<Rightarrow> None
      | Some weighting \<Rightarrow> if getVotes g i = [] then None else Some (weighting (gn_world g) now (getVotes g i) (peers + 1)))"

text \<open>\<^verbatim>\<open>votesFor\<close>, \<^verbatim>\<open>votesAgainst\<close>, \<^verbatim>\<open>votesAbstain\<close> of the simple count: any choice but the first two counts as abstention.\<close>

definition count_votes :: "GovernanceVote list \<Rightarrow> nat \<times> nat \<times> nat" where
  "count_votes vs =
     (length (filter (\<lambda>v. gv_choice v = approve) vs), length (filter (\<lambda>v. gv_choice v = reject) vs),
      length (filter (\<lambda>v. gv_choice v \<noteq> approve \<and> gv_choice v \<noteq> reject) vs))"

text \<open>The outcome for given approval and rejection, or none if nobody decided.\<close>

definition decide :: "GovernanceProposal \<Rightarrow> number \<Rightarrow> number \<Rightarrow> DecisionOutcome option" where
  "decide p yes no =
     (if fadd yes no = 0 then None
      else if gp_category p = Some governance_change
      then Some (if GOVERNANCE_CHANGE_APPROVAL_THRESHOLD \<le> fdiv yes (fadd yes no) then oc_passed else oc_rejected)
      else Some (if no < yes then oc_passed else oc_rejected))"

definition tally_outcome ::
  "'s gov_env \<Rightarrow> time \<Rightarrow> nat \<Rightarrow> GovernanceProposal \<Rightarrow> string \<Rightarrow> 's governance \<Rightarrow> GovernanceDecision option" where
  "tally_outcome E now peers p i g =
     (let mk = (\<lambda>out a b c. \<lparr>gd_proposalId = i, gd_outcome = out, gd_votesFor = a, gd_votesAgainst = b, gd_votesAbstain = c,
                   gd_decidedAt = now\<rparr>)
      in case getWeightedVoteResult E now peers i g of
        Some w \<Rightarrow> map_option (\<lambda>out. mk out (Math_round (wr_approveWeight w)) (Math_round (wr_rejectWeight w))
                     (Math_round (wr_abstainWeight w))) (decide p (wr_approveWeight w) (wr_rejectWeight w))
      | None \<Rightarrow> (case count_votes (getVotes g i) of (a, b, c) \<Rightarrow>
            map_option (\<lambda>out. mk out (of_nat a) (of_nat b) (of_nat c)) (decide p (of_nat a) (of_nat b))))"

definition status_of_outcome :: "DecisionOutcome \<Rightarrow> ProposalStatus" where
  "status_of_outcome out = (if out = oc_passed then st_passed else st_rejected)"

definition outcome_text :: "DecisionOutcome \<Rightarrow> string" where
  "outcome_text out = (case out of oc_passed \<Rightarrow> ''passed'' | oc_rejected \<Rightarrow> ''rejected'' | oc_expired \<Rightarrow> ''expired'' | oc_other s \<Rightarrow> s)"

definition quoted :: "string \<Rightarrow> string" where
  "quoted s = [CHR 0x22] @ s @ [CHR 0x22]"

text \<open>Recording a decision, its rewards, the stake and the notifications.\<close>

definition apply_decision :: "'s gov_env \<Rightarrow> time \<Rightarrow> GovernanceProposal \<Rightarrow> GovernanceDecision \<Rightarrow> 's governance \<Rightarrow> 's governance" where
  "apply_decision E now p d g =
     (let i = gd_proposalId d; out = gd_outcome d;
          g1 = mark (decision_key i) (g\<lparr>gn_decisions := jset i d (gn_decisions g)\<rparr>);
          g2 = set_status i (status_of_outcome out) (stmtInsertDecision d g1);
          g3 = gov_publish E now (GOVERNANCE_DECISION d) g2;
          g4 = (if out = oc_passed then emitProposalReward E now (gp_proposedBy p) (gp_title p) g3 else g3);
          g5 = emit_event (on_decision d (gp_title p)) (resolveProposalStake E now i out g4);
          g6 = (if out = oc_passed \<and> gp_category p = Some upgrade \<and> gp_upgradePayload p \<noteq> None
                then emit_event (on_upgrade_approved (p\<lparr>gp_status := st_passed\<rparr>)) g5 else g5)
      in broadcastGovernanceActivity E now ''proposal_decided''
           (''Proposal '' @ quoted (gp_title p) @ '' '' @ outcome_text out @ '' ('' @ ge_number_text E (gd_votesFor d) @ '' for, '' @
            ge_number_text E (gd_votesAgainst d) @ '' against)'') i g6)"

definition checkQuorum :: "'s gov_env \<Rightarrow> time \<Rightarrow> nat \<Rightarrow> string \<Rightarrow> 's governance \<Rightarrow> 's governance" where
  "checkQuorum E now peers i g =
     (case jget (gn_proposals g) i of None \<Rightarrow> g | Some p \<Rightarrow>
      if gp_status p \<noteq> st_active then g
      else (case jget (gn_votes g) i of None \<Rightarrow> g | Some vs \<Rightarrow>
        if length vs < required_votes peers p (length vs) then g
        else (case tally_outcome E now peers p i g of None \<Rightarrow> g
              | Some d \<Rightarrow> apply_decision E now p d g)))"

definition expireIfNeeded :: "'s gov_env \<Rightarrow> time \<Rightarrow> nat \<Rightarrow> string \<Rightarrow> 's governance \<Rightarrow> 's governance" where
  "expireIfNeeded E now peers i g =
     (case jget (gn_proposals g) i of None \<Rightarrow> g | Some p \<Rightarrow>
      if gp_status p \<noteq> st_active \<or> now \<le> gp_votingEndsAt p then g
      else if getQuorum peers \<le> length (votes_of g i) then checkQuorum E now peers i g
      else resolveProposalStake E now i oc_expired (set_status i st_expired g))"

section \<open>Incoming messages\<close>

definition store_proposal :: "GovernanceProposal \<Rightarrow> 's governance \<Rightarrow> 's governance" where
  "store_proposal p g = stmtInsertProposal p
     (g\<lparr>gn_proposals := jset (gp_id p) p (gn_proposals g), gn_comments := jset (gp_id p) (getComments g (gp_id p)) (gn_comments g),
        gn_votes := jset (gp_id p) (votes_of g (gp_id p)) (gn_votes g)\<rparr>)"

definition accept_proposal :: "GovernanceProposal \<Rightarrow> 's governance \<Rightarrow> 's governance" where
  "accept_proposal p g =
     (let q = p\<lparr>gp_title := sanitizeText (gp_title p), gp_description := sanitizeText (gp_description p)\<rparr>
      in emit_event (on_proposal q) (store_proposal q g))"

definition check_signature_text :: string where "check_signature_text = ''signature_verification''"

text \<open>What \<^verbatim>\<open>handleProposal\<close> does once the proposal is marked as processed.\<close>

definition finish_proposal :: "'s gov_env \<Rightarrow> GovernanceProposal \<Rightarrow> 's governance \<Rightarrow> 's governance" where
  "finish_proposal E p g =
     (if truthy (gp_proposerSignature p)
      then if verifyProposalSignature E p (the (gp_proposerSignature p))
           then accept_proposal p (logGovernanceCheck (gp_id p) check_signature_text ''pass'' g)
           else logGovernanceCheck (gp_id p) check_signature_text ''fail'' g
      else if gp_category p = Some upgrade then logGovernanceCheck (gp_id p) check_signature_text ''fail'' g
      else accept_proposal p g)"

definition complete_proposal :: "GovernanceProposal \<Rightarrow> bool" where
  "complete_proposal p = (gp_id p \<noteq> [] \<and> gp_title p \<noteq> [] \<and> gp_proposedBy p \<noteq> [])"

definition handleProposal :: "'s gov_env \<Rightarrow> GovernanceProposal \<Rightarrow> 's governance \<Rightarrow> 's governance" where
  "handleProposal E p g =
     (if \<not> complete_proposal p \<or> processed (proposal_key (gp_id p)) g then g
      else let g1 = mark (proposal_key (gp_id p)) g in
        if truthy (gp_proposerSignature p) then add_job (job_proposal p) g1 else finish_proposal E p g1)"

definition store_comment :: "GovernanceComment \<Rightarrow> 's governance \<Rightarrow> 's governance" where
  "store_comment c g = stmtInsertComment c
     (g\<lparr>gn_comments := jset (gc_proposalId c) (getComments g (gc_proposalId c) @ [c]) (gn_comments g)\<rparr>)"

definition accept_comment :: "GovernanceComment \<Rightarrow> 's governance \<Rightarrow> 's governance" where
  "accept_comment c g = (let d = c\<lparr>gc_content := sanitizeText (gc_content c)\<rparr> in emit_event (on_comment d) (store_comment d g))"

definition handleComment :: "'s gov_env \<Rightarrow> gov_message \<Rightarrow> GovernanceComment \<Rightarrow> 's governance \<Rightarrow> 's governance" where
  "handleComment E m c g =
     (if gc_id c = [] \<or> gc_proposalId c = [] \<or> processed (comment_key (gc_id c)) g then g
      else let g1 = mark (comment_key (gc_id c)) g in
        if gm_from m \<noteq> gc_from c then g1
        else if gc_from c = ge_localPeerId E then accept_comment c g1
        else if \<not> truthy (gm_signature m) then g1
        else add_job (job_comment m c) g1)"

definition finish_comment :: "'s gov_env \<Rightarrow> gov_message \<Rightarrow> GovernanceComment \<Rightarrow> 's governance \<Rightarrow> 's governance" where
  "finish_comment E m c g = (if message_verified E m (gc_from c) then accept_comment c g else g)"

definition store_vote :: "GovernanceVote \<Rightarrow> 's governance \<Rightarrow> 's governance" where
  "store_vote v g = stmtUpsertVote v
     (g\<lparr>gn_votes := jset (gv_proposalId v) (jset (gv_voter v) v (votes_of g (gv_proposalId v))) (gn_votes g)\<rparr>)"

definition accept_vote :: "'s gov_env \<Rightarrow> time \<Rightarrow> nat \<Rightarrow> GovernanceVote \<Rightarrow> 's governance \<Rightarrow> 's governance" where
  "accept_vote E now peers v g =
     (if processed (vote_key (gv_proposalId v) (gv_voter v)) g then g
      else let g1 = store_vote v (mark (vote_key (gv_proposalId v) (gv_voter v)) g);
               g2 = emit_event (on_vote v (title_of g1 (gv_proposalId v))) g1;
               g3 = (if gv_voter v \<noteq> ge_localPeerId E then emitVoteReward E now (gv_voter v) (gv_proposalId v) g2 else g2)
           in checkQuorum E now peers (gv_proposalId v) g3)"

definition handleVote :: "'s gov_env \<Rightarrow> time \<Rightarrow> nat \<Rightarrow> gov_message \<Rightarrow> GovernanceVote \<Rightarrow> 's governance \<Rightarrow> 's governance" where
  "handleVote E now peers m v g =
     (if gv_proposalId v = [] \<or> gv_voter v = [] \<or> gm_from m \<noteq> gv_voter v then g
      else if gv_voter v = ge_localPeerId E then accept_vote E now peers v g
      else if \<not> truthy (gm_signature m) then g
      else add_job (job_vote m v) g)"

definition finish_vote :: "'s gov_env \<Rightarrow> time \<Rightarrow> nat \<Rightarrow> gov_message \<Rightarrow> GovernanceVote \<Rightarrow> 's governance \<Rightarrow> 's governance" where
  "finish_vote E now peers m v g = (if message_verified E m (gv_voter v) then accept_vote E now peers v g else g)"

definition handleDecision :: "'s gov_env \<Rightarrow> time \<Rightarrow> GovernanceDecision \<Rightarrow> 's governance \<Rightarrow> 's governance" where
  "handleDecision E now d g =
     (let i = gd_proposalId d in
      if i = [] \<or> processed (decision_key i) g then g
      else let g1 = mark (decision_key i) g; g2 = g1\<lparr>gn_decisions := jset i d (gn_decisions g1)\<rparr>;
               g3 = (case jget (gn_proposals g2) i of None \<Rightarrow> g2
                     | Some p \<Rightarrow> let h = set_status i (status_of_outcome (gd_outcome d)) g2
                                 in if gp_proposedBy p = ge_localPeerId E then resolveProposalStake E now i (gd_outcome d) h else h)
           in emit_event (on_decision d (title_of g3 i)) (stmtInsertDecision d g3))"

definition handleGovernanceMessage :: "'s gov_env \<Rightarrow> time \<Rightarrow> nat \<Rightarrow> gov_message \<Rightarrow> 's governance \<Rightarrow> 's governance" where
  "handleGovernanceMessage E now peers m g =
     (case gm_payload m of
        GOVERNANCE_PROPOSAL p \<Rightarrow> handleProposal E p g
      | GOVERNANCE_COMMENT c \<Rightarrow> handleComment E m c g
      | GOVERNANCE_VOTE v \<Rightarrow> handleVote E now peers m v g
      | GOVERNANCE_DECISION d \<Rightarrow> handleDecision E now d g
      | _ \<Rightarrow> g)"

definition handleAgentMessage :: "'s gov_env \<Rightarrow> gov_message \<Rightarrow> 's governance \<Rightarrow> 's governance" where
  "handleAgentMessage E m g =
     (if gm_from m = ge_localPeerId E then g
      else (case gm_payload m of
          AGENT_HELLO h \<Rightarrow>
            let p = (if ah_peerId h = [] then gm_from m else ah_peerId h)
            in emit_event (on_agent_hello h) (g\<lparr>gn_knownAgents := jset p h (gn_knownAgents g)\<rparr>)
        | AGENT_CAPABILITIES c \<Rightarrow>
            let p = (if ac_peerId c = [] then gm_from m else ac_peerId c)
            in g\<lparr>gn_peerCapabilities := jset p c (gn_peerCapabilities g)\<rparr>
        | AGENT_MESSAGE content target \<Rightarrow>
            if \<not> truthy target \<or> target = Some (ge_localPeerId E) \<or> target = Some ''all''
            then emit_event (on_agent_message (gm_from m) content) g else g
        | _ \<Rightarrow> g))"

section \<open>Queries\<close>

definition expire_all :: "'s gov_env \<Rightarrow> time \<Rightarrow> nat \<Rightarrow> 's governance \<Rightarrow> 's governance" where
  "expire_all E now peers g = fold (expireIfNeeded E now peers) (jkeys (gn_proposals g)) g"

definition getProposals :: "'s gov_env \<Rightarrow> time \<Rightarrow> nat \<Rightarrow> 's governance \<Rightarrow> 's governance \<times> GovernanceProposal list" where
  "getProposals E now peers g =
     (let g1 = expire_all E now peers g in (g1, sort_key (\<lambda>p. - gp_createdAt p) (jvals (gn_proposals g1))))"

definition getActiveProposals :: "'s gov_env \<Rightarrow> time \<Rightarrow> nat \<Rightarrow> 's governance \<Rightarrow> 's governance \<times> GovernanceProposal list" where
  "getActiveProposals E now peers g =
     (case getProposals E now peers g of (g1, ps) \<Rightarrow> (g1, filter (\<lambda>p. gp_status p = st_active) ps))"

definition getProposal :: "'s gov_env \<Rightarrow> time \<Rightarrow> nat \<Rightarrow> string \<Rightarrow> 's governance \<Rightarrow> 's governance \<times> GovernanceProposal option" where
  "getProposal E now peers i g = (let g1 = expireIfNeeded E now peers i g in (g1, jget (gn_proposals g1) i))"

record governance_stats =
  gx_totalProposals :: nat
  gx_stakePool :: number
  gx_humanOnlyCount :: nat
  gx_governanceChangeCount :: nat

definition pooled_stake :: "GovernanceProposal \<Rightarrow> number option" where
  "pooled_stake p = (case gp_stakeAmount p of None \<Rightarrow> None | Some x \<Rightarrow>
     if 0 < x \<and> (gp_status p = st_active \<or> gp_status p = st_in_review \<or> gp_status p = st_revision_requested) then Some x else None)"

definition getGovernanceStats :: "'s governance \<Rightarrow> governance_stats" where
  "getGovernanceStats g =
     (let ps = jvals (gn_proposals g) in
      \<lparr>gx_totalProposals = length ps,
       gx_stakePool = fold (\<lambda>p acc. case pooled_stake p of None \<Rightarrow> acc | Some x \<Rightarrow> fadd acc x) ps 0,
       gx_humanOnlyCount = length (filter gp_humanOnly ps),
       gx_governanceChangeCount = length (filter (\<lambda>p. gp_category p = Some governance_change) ps)\<rparr>)"

record model_breakdown =
  mb_models :: "(string \<times> string \<times> nat) list"
  mb_totalVotesWithAttestation :: nat
  mb_totalVotesWithout :: nat

fun count_model :: "ModelAttestation \<Rightarrow> (string, string \<times> nat) jsmap \<Rightarrow> (string, string \<times> nat) jsmap" where
  "count_model a m = (case jget m (ma_modelId a) of
     Some (prov, n) \<Rightarrow> jset (ma_modelId a) (prov, n + 1) m
   | None \<Rightarrow> jset (ma_modelId a) (ma_modelProvider a, 1) m)"

definition getModelBreakdown :: "string \<Rightarrow> 's governance \<Rightarrow> model_breakdown" where
  "getModelBreakdown i g =
     (let vs = getVotes g i; as = List.map_filter gv_modelAttestation vs in
      \<lparr>mb_models = fold count_model as [], mb_totalVotesWithAttestation = length as,
       mb_totalVotesWithout = length (filter (\<lambda>v. gv_modelAttestation v = None) vs)\<rparr>)"

definition getKnownAgents :: "'s governance \<Rightarrow> AgentHello list" where
  "getKnownAgents g = jvals (gn_knownAgents g)"

definition getPeerCapabilities :: "'s governance \<Rightarrow> AgentCapabilities list" where
  "getPeerCapabilities g = jvals (gn_peerCapabilities g)"

section \<open>Local actions\<close>

datatype gov_error =
    RateLimited string
  | InsufficientStake number
  | StakeHoldFailed number
  | ProposalNotFound
  | ProposalIs ProposalStatus
  | VotingEnded

record proposal_options =
  po_isEmergency :: bool
  po_category :: "ProposalCategory option"
  po_proposerBalance :: "number option"
  po_upgradePayload :: "UpgradePayload option"

definition hasProposalHistory :: "'s governance \<Rightarrow> peer_id \<Rightarrow> bool" where
  "hasProposalHistory g p =
     (list_ex (\<lambda>q. gp_proposedBy q = p) (jvals (gn_proposals g)) \<or>
      list_ex (\<lambda>r. pw_proposed_by r = p) (jvals (gt_proposals (gn_db g))))"

definition getProposerBalance :: "'s gov_env \<Rightarrow> 's governance \<Rightarrow> peer_id \<Rightarrow> number" where
  "getProposerBalance E g p =
     (case ge_paymentGate E of None \<Rightarrow> 0
      | Some S \<Rightarrow> if sg_canAfford S (gn_world g) p FREE_TIER_THRESHOLD then FREE_TIER_THRESHOLD else 0)"

text \<open>The first own active proposal without votes, which blocks another one.\<close>

definition blocking_proposal :: "'s gov_env \<Rightarrow> time \<Rightarrow> 's governance \<Rightarrow> GovernanceProposal option" where
  "blocking_proposal E now g =
     find (\<lambda>p. gp_status p = st_active \<and> gp_proposedBy p = ge_localPeerId E \<and> now \<le> gp_votingEndsAt p \<and> votes_of g (gp_id p) = [])
       (jvals (gn_proposals g))"

definition base_stake :: "nat \<Rightarrow> bool \<Rightarrow> 's governance \<Rightarrow> number" where
  "base_stake peers isEmergency g =
     (if isEmergency then EMERGENCY_STAKE_LUX
      else if peers + 1 \<le> gn_upgradeAutoApproveThreshold g then 1 else PROPOSAL_STAKE_LUX)"

text \<open>The stake and the id of its hold; \<open>ident\<close> and \<open>rnd\<close> are the random parts of the hold id and the task id.\<close>

definition take_stake ::
  "'s gov_env \<Rightarrow> time \<Rightarrow> nat \<Rightarrow> string \<Rightarrow> string \<Rightarrow> proposal_options \<Rightarrow> 's governance
     \<Rightarrow> 's governance \<times> (gov_error + number \<times> string option)" where
  "take_stake E now peers ident rnd opts g =
     (case ge_paymentGate E of None \<Rightarrow> (g, Inr (0, None))
      | Some S \<Rightarrow>
        let self = ge_localPeerId E;
            balance = (case po_proposerBalance opts of None \<Rightarrow> getProposerBalance E g self | Some b \<Rightarrow> b);
            amount = (if \<not> hasProposalHistory g self \<and> balance < FREE_TIER_THRESHOLD then 0
                      else base_stake peers (po_isEmergency opts) g)
        in if amount \<le> 0 then (g, Inr (amount, None))
           else if \<not> sg_canAfford S (gn_world g) self amount then (g, Inl (InsufficientStake amount))
           else (case sg_holdPayment S now ident self (''gov-stake-'' @ ge_number_text E (of_int now) @ ''-'' @ rnd) amount (gn_world g) of
                   (s, None) \<Rightarrow> (g\<lparr>gn_world := s\<rparr>, Inl (StakeHoldFailed amount))
                 | (s, Some h) \<Rightarrow> (g\<lparr>gn_world := s\<rparr>, Inr (amount, Some (ph_holdId h)))))"

definition voting_duration :: "time \<Rightarrow> proposal_options \<Rightarrow> time" where
  "voting_duration dur opts =
     (if po_category opts = Some governance_change then GOVERNANCE_CHANGE_VOTING_MS
      else if po_isEmergency opts then EMERGENCY_VOTING_MS else dur)"

definition draft_proposal ::
  "'s gov_env \<Rightarrow> time \<Rightarrow> string \<Rightarrow> string \<Rightarrow> time \<Rightarrow> proposal_options \<Rightarrow> number \<Rightarrow> string option \<Rightarrow> GovernanceProposal" where
  "draft_proposal E now title desc dur opts amount hold =
     \<lparr>gp_id = ge_sha256 E (ge_localPeerId E @ '':'' @ ge_number_text E (of_int now) @ '':'' @ sanitizeText title),
      gp_title = sanitizeText title, gp_description = sanitizeText desc, gp_proposedBy = ge_localPeerId E,
      gp_createdAt = now, gp_votingEndsAt = now + voting_duration dur opts, gp_status = st_active,
      gp_stakeAmount = (if 0 < amount then Some amount else None), gp_stakeHoldId = hold, gp_category = po_category opts,
      gp_reviewerCount = Some 0, gp_humanOnly = False, gp_upgradePayload = po_upgradePayload opts, gp_proposerSignature = None\<rparr>"

text \<open>Storing and broadcasting the own proposal, after the signature is ready.\<close>

definition store_created :: "'s gov_env \<Rightarrow> time \<Rightarrow> GovernanceProposal \<Rightarrow> string \<Rightarrow> 's governance \<Rightarrow> 's governance" where
  "store_created E now p summary g =
     (let g1 = mark (proposal_key (gp_id p))
            (g\<lparr>gn_proposals := jset (gp_id p) p (gn_proposals g), gn_comments := jset (gp_id p) [] (gn_comments g),
               gn_votes := jset (gp_id p) [] (gn_votes g)\<rparr>)
      in add_job (job_created p summary) (gov_publish E now (GOVERNANCE_PROPOSAL p) (stmtInsertProposal p g1)))"

definition created_summary :: "'s gov_env \<Rightarrow> string \<Rightarrow> number \<Rightarrow> string" where
  "created_summary E title amount = ''Created proposal: '' @ quoted title @
     (if 0 < amount then '' (stake: '' @ ge_number_text E amount @ '' Lux)''
      else if ge_paymentGate E \<noteq> None then '' (free tier)'' else [])"

definition createProposal ::
  "'s gov_env \<Rightarrow> time \<Rightarrow> nat \<Rightarrow> string \<Rightarrow> string \<Rightarrow> string \<Rightarrow> string \<Rightarrow> time \<Rightarrow> proposal_options \<Rightarrow> 's governance
     \<Rightarrow> 's governance \<times> gov_error option" where
  "createProposal E now peers ident rnd title desc dur opts g =
     (case blocking_proposal E now g of Some q \<Rightarrow> (g, Some (RateLimited (gp_title q)))
      | None \<Rightarrow>
        (case take_stake E now peers ident rnd opts g of
           (g1, Inl e) \<Rightarrow> (g1, Some e)
         | (g1, Inr (amount, hold)) \<Rightarrow>
             let p = draft_proposal E now title desc dur opts amount hold; summary = created_summary E title amount
             in (if ge_signProposal E = None then store_created E now p summary g1 else add_job (job_create p summary) g1, None)))"

definition sign_created :: "'s gov_env \<Rightarrow> time \<Rightarrow> GovernanceProposal \<Rightarrow> string \<Rightarrow> 's governance \<Rightarrow> 's governance" where
  "sign_created E now p summary g =
     store_created E now
       (p\<lparr>gp_proposerSignature := (case ge_signProposal E of None \<Rightarrow> None | Some sign \<Rightarrow> sign (ge_json E (buildProposalSignablePayload p)))\<rparr>)
       summary g"

text \<open>After the broadcast; an upgrade is validated first, which awaits the build.\<close>

definition finish_created :: "'s gov_env \<Rightarrow> time \<Rightarrow> GovernanceProposal \<Rightarrow> string \<Rightarrow> 's governance \<Rightarrow> 's governance" where
  "finish_created E now p summary g =
     (let g1 = broadcastGovernanceActivity E now ''proposal_created'' summary (gp_id p) g
      in if gp_category p = Some upgrade \<and> gp_upgradePayload p \<noteq> None then add_job (job_validate p) g1 else g1)"

text \<open>The result of \<^verbatim>\<open>validateUpgradeProposal\<close> and the entries it leaves in the audit log.\<close>

record upgrade_verdict =
  uv_approved :: bool
  uv_kernelDelay :: bool
  uv_checks :: "(string \<times> string) list"

definition approveUpgrade :: "'s gov_env \<Rightarrow> time \<Rightarrow> GovernanceProposal \<Rightarrow> 's governance \<Rightarrow> 's governance" where
  "approveUpgrade E now p g =
     (let i = gp_id p;
          d = \<lparr>gd_proposalId = i, gd_outcome = oc_passed, gd_votesFor = 1, gd_votesAgainst = 0, gd_votesAbstain = 0, gd_decidedAt = now\<rparr>;
          g1 = set_status i st_passed g;
          g2 = stmtInsertDecision d (g1\<lparr>gn_decisions := jset i d (gn_decisions g1)\<rparr>)
      in emit_event (on_upgrade_approved (p\<lparr>gp_status := st_passed\<rparr>)) (gov_publish E now (GOVERNANCE_DECISION d) g2))"

definition finish_validation ::
  "'s gov_env \<Rightarrow> time \<Rightarrow> nat \<Rightarrow> upgrade_verdict \<Rightarrow> GovernanceProposal \<Rightarrow> 's governance \<Rightarrow> 's governance" where
  "finish_validation E now peers v p g0 =
     (let g = fold (\<lambda>(name, result). logGovernanceCheck (gp_id p) name result) (uv_checks v) g0 in
      if \<not> uv_approved v then set_status (gp_id p) st_rejected g
      else if peers + 1 \<le> gn_upgradeAutoApproveThreshold g
      then if uv_kernelDelay v then add_job (job_approve p) g else approveUpgrade E now p g
      else g)"

definition addComment :: "'s gov_env \<Rightarrow> time \<Rightarrow> string \<Rightarrow> string \<Rightarrow> 's governance \<Rightarrow> 's governance \<times> gov_error option" where
  "addComment E now i content g =
     (case jget (gn_proposals g) i of None \<Rightarrow> (g, Some ProposalNotFound)
      | Some p \<Rightarrow>
        let safeContent = sanitizeText content;
            c = \<lparr>gc_id = ge_sha256 E (ge_localPeerId E @ '':'' @ ge_number_text E (of_int now) @ '':'' @ safeContent), gc_proposalId = i,
                 gc_from = ge_localPeerId E, gc_content = safeContent, gc_createdAt = now\<rparr>
        in (gov_publish E now (GOVERNANCE_COMMENT c) (mark (comment_key (gc_id c)) (store_comment c g)), None))"

definition castVote ::
  "'s gov_env \<Rightarrow> time \<Rightarrow> nat \<Rightarrow> string \<Rightarrow> VoteChoice \<Rightarrow> string \<Rightarrow> ModelAttestation option \<Rightarrow> 's governance
     \<Rightarrow> 's governance \<times> gov_error option" where
  "castVote E now peers i choice reasoning att g =
     (let g1 = expireIfNeeded E now peers i g in
      case jget (gn_proposals g1) i of None \<Rightarrow> (g, Some ProposalNotFound)
      | Some p \<Rightarrow>
        if gp_status p \<noteq> st_active then (g1, Some (ProposalIs (gp_status p)))
        else if gp_votingEndsAt p < now then (g1, Some VotingEnded)
        else let v = \<lparr>gv_proposalId = i, gv_voter = ge_localPeerId E, gv_choice = choice, gv_reasoning = reasoning,
                      gv_createdAt = now, gv_modelAttestation = att\<rparr>;
                 g2 = gov_publish E now (GOVERNANCE_VOTE v) (mark (vote_key i (ge_localPeerId E)) (store_vote v g1))
             in (add_job (job_cast v (gp_title p)) g2, None))"

definition choice_text :: "VoteChoice \<Rightarrow> string" where
  "choice_text c = (case c of approve \<Rightarrow> ''approve'' | reject \<Rightarrow> ''reject'' | abstain \<Rightarrow> ''abstain'' | other_choice s \<Rightarrow> s)"

definition finish_cast :: "'s gov_env \<Rightarrow> time \<Rightarrow> nat \<Rightarrow> GovernanceVote \<Rightarrow> string \<Rightarrow> 's governance \<Rightarrow> 's governance" where
  "finish_cast E now peers v title g =
     (let i = gv_proposalId v;
          g1 = broadcastGovernanceActivity E now ''proposal_voted'' (''Voted '' @ choice_text (gv_choice v) @ '' on '' @ quoted title) i g;
          g2 = emitVoteReward E now (ge_localPeerId E) i (emit_event (on_vote v title) g1)
      in checkQuorum E now peers i g2)"

text \<open>The requester is optional, and an absent one may resubmit any proposal. Only the votes in memory are cleared.\<close>

definition resubmitProposal :: "'s gov_env \<Rightarrow> time \<Rightarrow> string \<Rightarrow> peer_id option \<Rightarrow> 's governance \<Rightarrow> 's governance \<times> bool" where
  "resubmitProposal E now i requester g =
     (case jget (gn_proposals g) i of None \<Rightarrow> (g, False)
      | Some p \<Rightarrow>
        if gp_status p \<noteq> st_revision_requested \<or> (truthy requester \<and> Some (gp_proposedBy p) \<noteq> requester) then (g, False)
        else let g1 = set_status i st_active g; g2 = g1\<lparr>gn_votes := jset i [] (gn_votes g1)\<rparr>
             in (broadcastGovernanceActivity E now ''proposal_created''
                   (''Proposal '' @ quoted (gp_title p) @ '' resubmitted after revision'') i g2, True))"

definition setUpgradeAutoApproveThreshold :: "nat \<Rightarrow> 's governance \<Rightarrow> 's governance" where
  "setUpgradeAutoApproveThreshold n g = g\<lparr>gn_upgradeAutoApproveThreshold := n\<rparr>"

definition sendAgentMessage :: "'s gov_env \<Rightarrow> time \<Rightarrow> string \<Rightarrow> peer_id \<Rightarrow> 's governance \<Rightarrow> 's governance" where
  "sendAgentMessage E now content target g = gov_publish E now (AGENT_MESSAGE content (Some target)) g"

definition broadcastHello :: "'s gov_env \<Rightarrow> time \<Rightarrow> AgentHello \<Rightarrow> 's governance \<Rightarrow> 's governance" where
  "broadcastHello E now h g = gov_publish E now (AGENT_HELLO h) g"

definition broadcastCapabilities :: "'s gov_env \<Rightarrow> time \<Rightarrow> AgentCapabilities \<Rightarrow> 's governance \<Rightarrow> 's governance" where
  "broadcastCapabilities E now c g = gov_publish E now (AGENT_CAPABILITIES c) g"

section \<open>Catch-up\<close>

definition gov_requestSync :: "'s gov_env \<Rightarrow> time \<Rightarrow> 's governance \<Rightarrow> 's governance" where
  "gov_requestSync E now g = gov_publish E now (GOVERNANCE_SYNC_REQUEST now) g"

definition handleSyncRequest :: "'s gov_env \<Rightarrow> time \<Rightarrow> nat \<Rightarrow> 's governance \<Rightarrow> 's governance" where
  "handleSyncRequest E now peers g =
     (case getProposals E now peers g of (g1, ps) \<Rightarrow>
        gov_publish E now (GOVERNANCE_SYNC_RESPONSE
          \<lparr>sy_proposals = ps, sy_comments = concat (map (\<lambda>p. getComments g1 (gp_id p)) ps),
           sy_votes = concat (map (\<lambda>p. getVotes g1 (gp_id p)) ps),
           sy_decisions = List.map_filter (\<lambda>p. getDecision g1 (gp_id p)) ps\<rparr>) g1)"

text \<open>The handlers are called with a message in the name of the peer that answered, without a signature.\<close>

definition sync_comment :: "'s gov_env \<Rightarrow> peer_id \<Rightarrow> string list \<Rightarrow> GovernanceComment \<Rightarrow> 's governance \<Rightarrow> 's governance" where
  "sync_comment E sender acc c g =
     (if gc_proposalId c \<notin> set acc \<or> processed (comment_key (gc_id c)) g then g
      else handleComment E \<lparr>gm_from = sender, gm_timestamp = gc_createdAt c, gm_payload = GOVERNANCE_COMMENT c, gm_signature = None\<rparr> c g)"

definition sync_vote :: "'s gov_env \<Rightarrow> time \<Rightarrow> nat \<Rightarrow> peer_id \<Rightarrow> string list \<Rightarrow> GovernanceVote \<Rightarrow> 's governance \<Rightarrow> 's governance" where
  "sync_vote E now peers sender acc v g =
     (let key = vote_key (gv_proposalId v) (gv_voter v) in
      if gv_proposalId v \<notin> set acc \<or> processed key g then g
      else handleVote E now peers \<lparr>gm_from = sender, gm_timestamp = gv_createdAt v, gm_payload = GOVERNANCE_VOTE v, gm_signature = None\<rparr> v
             (g\<lparr>gn_rewardedVotes := sadd key (gn_rewardedVotes g)\<rparr>))"

definition sync_decision :: "'s gov_env \<Rightarrow> time \<Rightarrow> string list \<Rightarrow> GovernanceDecision \<Rightarrow> 's governance \<Rightarrow> 's governance" where
  "sync_decision E now acc d g =
     (if gd_proposalId d \<notin> set acc \<or> processed (decision_key (gd_proposalId d)) g then g else handleDecision E now d g)"

definition sync_rest :: "'s gov_env \<Rightarrow> time \<Rightarrow> nat \<Rightarrow> peer_id \<Rightarrow> string list \<Rightarrow> sync_payload \<Rightarrow> 's governance \<Rightarrow> 's governance" where
  "sync_rest E now peers sender acc pay g =
     (let g1 = fold (sync_comment E sender acc) (sy_comments pay) g;
          g2 = fold (sync_vote E now peers sender acc) (sy_votes pay) g1
      in fold (sync_decision E now acc) (sy_decisions pay) g2)"

definition is_stale_proposal :: "time \<Rightarrow> GovernanceProposal \<Rightarrow> bool" where
  "is_stale_proposal t p = (SYNC_PROPOSAL_MAX_AGE_MS < t - gp_createdAt p \<and> gp_status p \<noteq> st_active)"

text \<open>The loop over the proposals: \<open>t\<close> is the time the response arrived; every new proposal is awaited.\<close>

fun sync_proposals ::
  "'s gov_env \<Rightarrow> time \<Rightarrow> nat \<Rightarrow> peer_id \<Rightarrow> time \<Rightarrow> string list \<Rightarrow> GovernanceProposal list \<Rightarrow> sync_payload \<Rightarrow> 's governance \<Rightarrow> 's governance" where
  "sync_proposals E now peers sender t acc [] pay g = sync_rest E now peers sender acc pay g"
| "sync_proposals E now peers sender t acc (p # ps) pay g =
     (if is_stale_proposal t p then sync_proposals E now peers sender t acc ps pay g
      else if processed (proposal_key (gp_id p)) g then sync_proposals E now peers sender t (sadd (gp_id p) acc) ps pay g
      else let g1 = (if complete_proposal p then mark (proposal_key (gp_id p)) g else g)
           in add_job (job_sync sender t acc p ps pay) g1)"

definition handleSyncResponse :: "'s gov_env \<Rightarrow> time \<Rightarrow> nat \<Rightarrow> peer_id \<Rightarrow> sync_payload \<Rightarrow> 's governance \<Rightarrow> 's governance" where
  "handleSyncResponse E now peers sender pay g = sync_proposals E now peers sender now (jkeys (gn_proposals g)) (sy_proposals pay) pay g"

definition continue_sync ::
  "'s gov_env \<Rightarrow> time \<Rightarrow> nat \<Rightarrow> peer_id \<Rightarrow> time \<Rightarrow> string list \<Rightarrow> GovernanceProposal \<Rightarrow> GovernanceProposal list \<Rightarrow> sync_payload
     \<Rightarrow> 's governance \<Rightarrow> 's governance" where
  "continue_sync E now peers sender t acc p ps pay g =
     (let g1 = (if complete_proposal p then finish_proposal E p g else g)
      in sync_proposals E now peers sender t (sadd (gp_id p) acc) ps pay g1)"

section \<open>Deletion, archive and restart\<close>

text \<open>Removal of a proposal and everything attached to it, from memory and tables; the keys of its votes and comments stay.\<close>

definition removeProposalData :: "string \<Rightarrow> 's governance \<Rightarrow> 's governance" where
  "removeProposalData i g =
     g\<lparr>gn_proposals := jdel i (gn_proposals g), gn_comments := jdel i (gn_comments g), gn_votes := jdel i (gn_votes g),
       gn_decisions := jdel i (gn_decisions g),
       gn_processedIds := sdel (decision_key i) (sdel (proposal_key i) (gn_processedIds g)),
       gn_db := \<lparr>gt_proposals = jdel i (gt_proposals (gn_db g)),
                 gt_comments = filter (\<lambda>e. gc_proposalId (snd e) \<noteq> i) (gt_comments (gn_db g)),
                 gt_votes = filter (\<lambda>e. fst (fst e) \<noteq> i) (gt_votes (gn_db g)),
                 gt_decisions = jdel i (gt_decisions (gn_db g))\<rparr>\<rparr>"

definition deleteProposal :: "string \<Rightarrow> 's governance \<Rightarrow> 's governance \<times> (gov_error + string)" where
  "deleteProposal i g =
     (case jget (gn_proposals g) i of None \<Rightarrow> (g, Inl ProposalNotFound)
      | Some p \<Rightarrow> (removeProposalData i g, Inr (gp_title p)))"

definition gov_cleanup :: "'s governance \<Rightarrow> 's governance" where
  "gov_cleanup g = (if 10000 < length (gn_processedIds g) then g\<lparr>gn_processedIds := lastn 5000 (gn_processedIds g)\<rparr> else g)"

definition is_open :: "GovernanceProposal \<Rightarrow> bool" where
  "is_open p = (gp_status p = st_active \<or> gp_status p = st_in_review)"

definition archivable :: "time \<Rightarrow> 's governance \<Rightarrow> string \<Rightarrow> GovernanceProposal \<Rightarrow> bool" where
  "archivable cutoff g i p =
     (\<not> is_open p \<and> ((gp_status p = st_expired \<and> votes_of g i = []) \<or> gp_createdAt p \<le> cutoff))"

definition archive_one :: "time \<Rightarrow> string \<times> GovernanceProposal \<Rightarrow> 's governance \<times> nat \<Rightarrow> 's governance \<times> nat" where
  "archive_one cutoff e a =
     (if archivable cutoff (fst a) (fst e) (snd e) then (removeProposalData (fst e) (fst a), snd a + 1) else a)"

text \<open>Evicting the oldest closed proposals until the cap is met or none is left.\<close>

fun evict :: "(string \<times> GovernanceProposal) list \<Rightarrow> 's governance \<Rightarrow> 's governance \<times> nat" where
  "evict [] g = (g, 0)"
| "evict (e # es) g =
     (if length (gn_proposals g) \<le> MAX_PROPOSALS then (g, 0)
      else case evict es (removeProposalData (fst e) g) of (g', n) \<Rightarrow> (g', n + 1))"

definition enforceProposalCap :: "'s governance \<Rightarrow> 's governance \<times> nat" where
  "enforceProposalCap g =
     (if length (gn_proposals g) \<le> MAX_PROPOSALS then (g, 0)
      else evict (sort_key (\<lambda>e. gp_createdAt (snd e)) (filter (\<lambda>e. \<not> is_open (snd e)) (gn_proposals g))) g)"

definition archiveExpiredProposals :: "'s gov_env \<Rightarrow> time \<Rightarrow> nat \<Rightarrow> time \<Rightarrow> 's governance \<Rightarrow> 's governance \<times> nat" where
  "archiveExpiredProposals E now peers maxAgeMs g =
     (let g1 = expire_all E now peers g;
          (g2, n) = fold (archive_one (now - maxAgeMs)) (gn_proposals g1) (g1, 0);
          (g3, k) = enforceProposalCap g2
      in (g3, n + k))"

definition load_vote :: "(string \<times> peer_id) \<times> vote_row \<Rightarrow> 's governance \<Rightarrow> 's governance" where
  "load_vote e g =
     (let i = fst (fst e); p = snd (fst e) in
      mark (vote_key i p) (g\<lparr>gn_votes := jset i (jset p (vote_of_row i p (snd e)) (votes_of g i)) (gn_votes g)\<rparr>))"

definition load_comment :: "GovernanceComment \<Rightarrow> 's governance \<Rightarrow> 's governance" where
  "load_comment c g =
     mark (comment_key (gc_id c)) (g\<lparr>gn_comments := jset (gc_proposalId c) (getComments g (gc_proposalId c) @ [c]) (gn_comments g)\<rparr>)"

definition load_proposal :: "string \<times> proposal_row \<Rightarrow> 's governance \<Rightarrow> 's governance" where
  "load_proposal e g =
     mark (proposal_key (fst e)) (g\<lparr>gn_proposals := jset (fst e) (proposal_of_row (fst e) (snd e)) (gn_proposals g)\<rparr>)"

definition load_decision :: "string \<times> GovernanceDecision \<Rightarrow> 's governance \<Rightarrow> 's governance" where
  "load_decision e g = mark (decision_key (fst e)) (g\<lparr>gn_decisions := jset (fst e) (snd e) (gn_decisions g)\<rparr>)"

definition loadFromDatabase :: "'s governance \<Rightarrow> 's governance" where
  "loadFromDatabase g =
     (let t = gn_db g;
          g1 = fold load_proposal (sort_key (\<lambda>e. - pw_created_at (snd e)) (gt_proposals t)) g;
          g2 = fold load_comment (sort_key gc_createdAt (jvals (gt_comments t))) g1;
          g3 = fold load_vote (gt_votes t) g2
      in fold load_decision (gt_decisions t) g3)"

definition GovernanceSync_new :: "gov_tables \<Rightarrow> 's \<Rightarrow> 's governance" where
  "GovernanceSync_new t s =
     \<lparr>gn_proposals = [], gn_comments = [], gn_votes = [], gn_decisions = [], gn_processedIds = [], gn_rewardedVotes = [],
      gn_knownAgents = [], gn_peerCapabilities = [], gn_upgradeAutoApproveThreshold = DEFAULT_UPGRADE_AUTO_APPROVE_THRESHOLD,
      gn_db = t, gn_world = s, gn_jobs = [], gn_events = [], gn_audit = [], gn_published = []\<rparr>"

definition gov_start :: "'s gov_env \<Rightarrow> time \<Rightarrow> nat \<Rightarrow> 's governance \<Rightarrow> 's governance" where
  "gov_start E now peers g = fst (archiveExpiredProposals E now peers ARCHIVE_AGE_MS (loadFromDatabase g))"

definition empty_tables :: gov_tables where
  "empty_tables = \<lparr>gt_proposals = [], gt_comments = [], gt_votes = [], gt_decisions = []\<rparr>"

section \<open>Awaited continuations\<close>

definition run_gov_job :: "'s gov_env \<Rightarrow> time \<Rightarrow> nat \<Rightarrow> upgrade_verdict \<Rightarrow> gov_job \<Rightarrow> 's governance \<Rightarrow> 's governance" where
  "run_gov_job E now peers verdict j g =
     (case j of
        job_proposal p \<Rightarrow> finish_proposal E p g
      | job_comment m c \<Rightarrow> finish_comment E m c g
      | job_vote m v \<Rightarrow> finish_vote E now peers m v g
      | job_create p summary \<Rightarrow> sign_created E now p summary g
      | job_created p summary \<Rightarrow> finish_created E now p summary g
      | job_validate p \<Rightarrow> finish_validation E now peers verdict p g
      | job_approve p \<Rightarrow> approveUpgrade E now p g
      | job_cast v title \<Rightarrow> finish_cast E now peers v title g
      | job_sync sender t acc p ps pay \<Rightarrow> continue_sync E now peers sender t acc p ps pay g)"

definition remove_at :: "nat \<Rightarrow> 'a list \<Rightarrow> 'a list" where
  "remove_at n xs = take n xs @ drop (n + 1) xs"

definition drop_job :: "nat \<Rightarrow> 's governance \<Rightarrow> 's governance" where
  "drop_job n g = g\<lparr>gn_jobs := remove_at n (gn_jobs g)\<rparr>"

definition resume_gov :: "'s gov_env \<Rightarrow> time \<Rightarrow> nat \<Rightarrow> upgrade_verdict \<Rightarrow> nat \<Rightarrow> 's governance \<Rightarrow> 's governance" where
  "resume_gov E now peers verdict n g =
     (if n < length (gn_jobs g) then run_gov_job E now peers verdict (gn_jobs g ! n) (drop_job n g) else g)"

text \<open>Everything that can happen to a running node, at any time and with any number of peers; \<open>world\<close> is any change of the
  surrounding state.\<close>

inductive gov_step :: "'s gov_env \<Rightarrow> 's governance \<Rightarrow> 's governance \<Rightarrow> bool" for E where
  message: "gov_step E g (handleGovernanceMessage E now peers m g)"
| agent: "gov_step E g (handleAgentMessage E m g)"
| resume: "gov_step E g (resume_gov E now peers verdict n g)"
| fail: "gov_step E g (drop_job n g)"
| create: "gov_step E g (fst (createProposal E now peers ident rnd title desc dur opts g))"
| comment: "gov_step E g (fst (addComment E now i content g))"
| cast: "gov_step E g (fst (castVote E now peers i choice reasoning att g))"
| resubmit: "gov_step E g (fst (resubmitProposal E now i requester g))"
| settle: "gov_step E g (resolveProposalStake E now i out g)"
| list: "gov_step E g (fst (getProposals E now peers g))"
| look: "gov_step E g (fst (getProposal E now peers i g))"
| answer: "gov_step E g (handleSyncRequest E now peers g)"
| ask: "gov_step E g (gov_requestSync E now g)"
| catch_up: "gov_step E g (handleSyncResponse E now peers sender pay g)"
| delete: "gov_step E g (fst (deleteProposal i g))"
| tidy: "gov_step E g (gov_cleanup g)"
| archive: "gov_step E g (fst (archiveExpiredProposals E now peers maxAge g))"
| restart: "gov_step E g (gov_start E now peers (GovernanceSync_new (gn_db g) (gn_world g)))"
| outgoing: "gov_step E g (gov_publish E now pl g)"
| configure: "gov_step E g (setUpgradeAutoApproveThreshold k g)"
| world: "gov_step E g (g\<lparr>gn_world := s\<rparr>)"

inductive gov_reach :: "'s gov_env \<Rightarrow> 's governance \<Rightarrow> 's governance \<Rightarrow> bool" for E g0 where
  start: "gov_reach E g0 g0"
| further: "gov_reach E g0 g \<Longrightarrow> gov_step E g g' \<Longrightarrow> gov_reach E g0 g'"

section \<open>The node's own collaborators\<close>

text \<open>The payment gate over the accounts of the ledger, and the reward callback the node installs; \<open>hash\<close> makes transaction ids.\<close>

definition account_gate :: "database payment_gate stake_gate" where
  "account_gate = \<lparr>sg_canAfford = canAfford account_ledger, sg_holdPayment = holdPayment account_ledger,
     sg_refundPayment = refundPayment account_ledger, sg_releasePayment = releasePayment account_ledger\<rparr>"

definition reward_callback ::
  "(string \<Rightarrow> string) \<Rightarrow> time \<Rightarrow> peer_id \<Rightarrow> WorkType \<Rightarrow> string \<Rightarrow> database payment_gate \<Rightarrow> database payment_gate" where
  "reward_callback hash now p workType workProof g =
     (case rewardWork now (hash workProof) p workType workProof (pg_ledger g) of
        Inl _ \<Rightarrow> g | Inr (d, tx) \<Rightarrow> g\<lparr>pg_ledger := d\<rparr>)"

end
