(* ===== verification/GovernanceSafety.thy ===== *)
theory GovernanceSafety
  imports Governance
begin

text \<open>
  Invariants of the governance layer over all runs. The locale \<open>content_policy\<close> says what may enter the stores: its
  parameters are predicates on proposals, comments and votes, its assumptions are the checks at the entrances. Inside it,
  every operation, every awaited continuation and a restart from the tables preserve \<open>content_ok\<close>. Three
  interpretations give the properties: stored text is escaped, votes are authentic, upgrades are authentic.
\<close>

section \<open>What is stored\<close>

definition proposals_ok :: "(GovernanceProposal \<Rightarrow> bool) \<Rightarrow> (string, GovernanceProposal) jsmap \<Rightarrow> bool" where
  "proposals_ok P = jall (\<lambda>i p. gp_id p = i \<and> P p)"

definition comments_ok :: "(GovernanceComment \<Rightarrow> bool) \<Rightarrow> (string, GovernanceComment list) jsmap \<Rightarrow> bool" where
  "comments_ok C = jall (\<lambda>i cs. list_all (\<lambda>c. gc_proposalId c = i \<and> C c) cs)"

definition ballot_ok :: "(GovernanceVote \<Rightarrow> bool) \<Rightarrow> string \<Rightarrow> (peer_id, GovernanceVote) jsmap \<Rightarrow> bool" where
  "ballot_ok V i vs = (jwf vs \<and> jall (\<lambda>u v. gv_proposalId v = i \<and> gv_voter v = u \<and> V v) vs)"

definition votes_ok :: "(GovernanceVote \<Rightarrow> bool) \<Rightarrow> (string, (peer_id, GovernanceVote) jsmap) jsmap \<Rightarrow> bool" where
  "votes_ok V = jall (ballot_ok V)"

definition tables_ok ::
  "(GovernanceProposal \<Rightarrow> bool) \<Rightarrow> (GovernanceComment \<Rightarrow> bool) \<Rightarrow> (GovernanceVote \<Rightarrow> bool) \<Rightarrow> gov_tables \<Rightarrow> bool" where
  "tables_ok P C V t =
     (jall (\<lambda>i r. P (proposal_of_row i r)) (gt_proposals t) \<and> jall (\<lambda>_. C) (gt_comments t) \<and>
      jall (\<lambda>k r. V (vote_of_row (fst k) (snd k) r)) (gt_votes t))"

definition is_upgrade :: "GovernanceProposal \<Rightarrow> bool" where
  "is_upgrade p = (gp_category p = Some upgrade \<and> gp_upgradePayload p \<noteq> None)"

lemma is_upgrade_status [simp]: "is_upgrade (p\<lparr>gp_status := st\<rparr>) = is_upgrade p"
  by (simp add: is_upgrade_def)

fun pending_ok :: "(GovernanceProposal \<Rightarrow> bool) \<Rightarrow> gov_job \<Rightarrow> bool" where
  "pending_ok P (job_comment m c) = (gm_payload m = GOVERNANCE_COMMENT c \<and> gm_from m = gc_from c)"
| "pending_ok P (job_vote m v) = (gm_payload m = GOVERNANCE_VOTE v \<and> gm_from m = gv_voter v)"
| "pending_ok P (job_create p summary) = (\<forall>s. P (p\<lparr>gp_proposerSignature := s\<rparr>))"
| "pending_ok P (job_created p summary) = P p"
| "pending_ok P (job_validate p) = (P p \<and> is_upgrade p)"
| "pending_ok P (job_approve p) = (P p \<and> is_upgrade p)"
| "pending_ok P _ = True"

fun event_ok :: "(GovernanceProposal \<Rightarrow> bool) \<Rightarrow> gov_event \<Rightarrow> bool" where
  "event_ok P (on_upgrade_approved p) = (P p \<and> is_upgrade p)"
| "event_ok P _ = True"

definition content_ok ::
  "(GovernanceProposal \<Rightarrow> bool) \<Rightarrow> (GovernanceComment \<Rightarrow> bool) \<Rightarrow> (GovernanceVote \<Rightarrow> bool) \<Rightarrow> 's governance \<Rightarrow> bool" where
  "content_ok P C V g =
     (proposals_ok P (gn_proposals g) \<and> comments_ok C (gn_comments g) \<and> votes_ok V (gn_votes g) \<and> tables_ok P C V (gn_db g) \<and>
      list_all (pending_ok P) (gn_jobs g) \<and> list_all (event_ok P) (gn_events g))"

text \<open>The signed message behind a comment or vote of another peer.\<close>

definition signed_comment :: "'s gov_env \<Rightarrow> GovernanceComment \<Rightarrow> bool" where
  "signed_comment E c = (\<exists>m. gm_payload m = GOVERNANCE_COMMENT c \<and> gm_from m = gc_from c \<and> message_verified E m (gc_from c))"

definition signed_vote :: "'s gov_env \<Rightarrow> GovernanceVote \<Rightarrow> bool" where
  "signed_vote E v = (\<exists>m. gm_payload m = GOVERNANCE_VOTE v \<and> gm_from m = gv_voter v \<and> message_verified E m (gv_voter v))"

definition sanitized :: "GovernanceProposal \<Rightarrow> GovernanceProposal" where
  "sanitized p = p\<lparr>gp_title := sanitizeText (gp_title p), gp_description := sanitizeText (gp_description p)\<rparr>"

text \<open>The condition under which \<^verbatim>\<open>handleProposal\<close> takes a proposal.\<close>

definition admitted :: "'s gov_env \<Rightarrow> GovernanceProposal \<Rightarrow> bool" where
  "admitted E p =
     (if truthy (gp_proposerSignature p) then verifyProposalSignature E p (the (gp_proposerSignature p))
      else gp_category p \<noteq> Some upgrade)"

lemma proposal_of_row_status: "proposal_of_row i (r\<lparr>pw_status := st\<rparr>) = (proposal_of_row i r)\<lparr>gp_status := st\<rparr>"
  by (simp add: proposal_of_row_def)

lemma vote_row_round_trip [simp]: "vote_of_row (gv_proposalId v) (gv_voter v) (row_of_vote v) = v"
  by (simp add: vote_of_row_def row_of_vote_def)

lemma proposals_ok_simps [simp]:
  "proposals_ok P []" "gp_id p = i \<Longrightarrow> P p \<Longrightarrow> proposals_ok P m \<Longrightarrow> proposals_ok P (jset i p m)"
  "proposals_ok P m \<Longrightarrow> proposals_ok P (jdel i m)"
  by (auto simp: proposals_ok_def intro: jall_jset jall_jdel)

lemma proposals_ok_get: "proposals_ok P m \<Longrightarrow> jget m i = Some p \<Longrightarrow> gp_id p = i \<and> P p"
  unfolding proposals_ok_def by (rule jall_jget)

lemma comments_ok_get: "comments_ok C (gn_comments g) \<Longrightarrow> list_all (\<lambda>c. gc_proposalId c = i \<and> C c) (getComments g i)"
  by (auto simp: comments_ok_def getComments_def split: option.splits dest: jall_jget)

lemma comments_ok_simps [simp]:
  "comments_ok C []" "list_all (\<lambda>c. gc_proposalId c = i \<and> C c) cs \<Longrightarrow> comments_ok C m \<Longrightarrow> comments_ok C (jset i cs m)"
  "comments_ok C m \<Longrightarrow> comments_ok C (jdel i m)"
  by (auto simp: comments_ok_def intro: jall_jset jall_jdel)

lemma ballot_ok_simps [simp]:
  "ballot_ok V i []" "gv_proposalId v = i \<Longrightarrow> gv_voter v = u \<Longrightarrow> V v \<Longrightarrow> ballot_ok V i vs \<Longrightarrow> ballot_ok V i (jset u v vs)"
  by (auto simp: ballot_ok_def intro: jall_jset)

lemma votes_ok_get: "votes_ok V (gn_votes g) \<Longrightarrow> ballot_ok V i (votes_of g i)"
  by (auto simp: votes_ok_def votes_of_def split: option.splits dest: jall_jget)

lemma votes_ok_simps [simp]:
  "votes_ok V []" "ballot_ok V i vs \<Longrightarrow> votes_ok V m \<Longrightarrow> votes_ok V (jset i vs m)" "votes_ok V m \<Longrightarrow> votes_ok V (jdel i m)"
  by (auto simp: votes_ok_def intro: jall_jset jall_jdel)

lemma jall_insert_or_ignore: "jall Q m \<Longrightarrow> Q k v \<Longrightarrow> jall Q (insert_or_ignore k v m)"
  by (simp add: insert_or_ignore_def jall_jset)

lemma jall_insert_or_replace: "jall Q m \<Longrightarrow> Q k v \<Longrightarrow> jall Q (insert_or_replace k v m)"
  by (simp add: insert_or_replace_def jall_jdel)

lemma content_okD:
  assumes "content_ok P C V g"
  shows "proposals_ok P (gn_proposals g)" "comments_ok C (gn_comments g)" "votes_ok V (gn_votes g)" "tables_ok P C V (gn_db g)"
    "list_all (pending_ok P) (gn_jobs g)" "list_all (event_ok P) (gn_events g)"
  using assms by (auto simp: content_ok_def)

lemma content_proposal: "content_ok P C V g \<Longrightarrow> jget (gn_proposals g) i = Some p \<Longrightarrow> gp_id p = i \<and> P p"
  by (blast dest: content_okD(1) proposals_ok_get)

text \<open>Bookkeeping that touches none of the stores.\<close>

lemma content_ok_bookkeeping [simp]:
  "content_ok P C V (mark k g) = content_ok P C V g"
  "content_ok P C V (logGovernanceCheck i nm r g) = content_ok P C V g"
  "content_ok P C V (gov_publish E now pl g) = content_ok P C V g"
  "content_ok P C V (g\<lparr>gn_world := w\<rparr>) = content_ok P C V g"
  "content_ok P C V (g\<lparr>gn_decisions := ds\<rparr>) = content_ok P C V g"
  "content_ok P C V (g\<lparr>gn_rewardedVotes := ks\<rparr>) = content_ok P C V g"
  "content_ok P C V (g\<lparr>gn_rewardedVotes := ks, gn_world := w\<rparr>) = content_ok P C V g"
  "content_ok P C V (g\<lparr>gn_processedIds := ks\<rparr>) = content_ok P C V g"
  "content_ok P C V (g\<lparr>gn_knownAgents := as\<rparr>) = content_ok P C V g"
  "content_ok P C V (g\<lparr>gn_peerCapabilities := cs\<rparr>) = content_ok P C V g"
  "content_ok P C V (g\<lparr>gn_upgradeAutoApproveThreshold := n\<rparr>) = content_ok P C V g"
  "content_ok P C V (stmtInsertDecision d g) = content_ok P C V g"
  "content_ok P C V (broadcastGovernanceActivity E now a s i g) = content_ok P C V g"
  by (simp_all add: content_ok_def mark_def logGovernanceCheck_def gov_publish_def stmtInsertDecision_def tables_ok_def
      broadcastGovernanceActivity_def emit_event_def Let_def)

lemma content_ok_event [simp]: "content_ok P C V (emit_event e g) \<longleftrightarrow> content_ok P C V g \<and> event_ok P e"
  by (auto simp: content_ok_def emit_event_def)

lemma content_ok_add_job [simp]: "content_ok P C V (add_job j g) \<longleftrightarrow> content_ok P C V g \<and> pending_ok P j"
  by (auto simp: content_ok_def add_job_def)

lemma content_ok_stakes [simp]:
  "content_ok P C V (refund_stake S now h g) = content_ok P C V g"
  "content_ok P C V (burn_stake S now h g) = content_ok P C V g"
  "content_ok P C V (emitVoteReward E now u i g) = content_ok P C V g"
  "content_ok P C V (emitProposalReward E now u t g) = content_ok P C V g"
  "content_ok P C V (resolveProposalStake E now i out g) = content_ok P C V g"
  by (auto simp: refund_stake_def burn_stake_def emitVoteReward_def emitProposalReward_def resolveProposalStake_def Let_def
      split: option.splits DecisionOutcome.splits)

section \<open>Preservation\<close>

locale content_policy =
  fixes E :: "'s gov_env"
    and P :: "GovernanceProposal \<Rightarrow> bool" and C :: "GovernanceComment \<Rightarrow> bool" and V :: "GovernanceVote \<Rightarrow> bool"
  assumes status_free: "P p \<Longrightarrow> P (p\<lparr>gp_status := st\<rparr>)"
    and row_free: "P p \<Longrightarrow> P (proposal_of_row (gp_id p) (row_of_proposal p))"
    and admits: "admitted E p \<Longrightarrow> P (sanitized p)"
    and drafts: "P ((draft_proposal E now title desc dur opts amount hold)\<lparr>gp_proposerSignature := s\<rparr>)"
    and comments: "gc_from c = ge_localPeerId E \<or> signed_comment E c \<Longrightarrow> C (c\<lparr>gc_content := sanitizeText (gc_content c)\<rparr>)"
    and votes: "gv_voter v = ge_localPeerId E \<or> signed_vote E v \<Longrightarrow> V v"
begin

abbreviation "ok \<equiv> content_ok P C V"

lemma draft: "P (draft_proposal E now title desc dur opts amount hold)"
  using drafts [where s = None] by (simp add: draft_proposal_def)

lemma row_status: "P (proposal_of_row i r) \<Longrightarrow> P (proposal_of_row i (r\<lparr>pw_status := st\<rparr>))"
  by (simp add: proposal_of_row_status status_free)

lemma ok_set_status: "ok g \<Longrightarrow> ok (set_status i st g)"
  by (auto simp: content_ok_def set_status_def stmtUpdateProposalStatus_def proposals_ok_def tables_ok_def
      intro!: jall_jupd intro: status_free row_status)

lemma ok_insert_row: "ok g \<Longrightarrow> P p \<Longrightarrow> ok (stmtInsertProposal p g)"
  by (auto simp: content_ok_def stmtInsertProposal_def tables_ok_def intro!: jall_insert_or_ignore row_free)

lemma ok_store_proposal: "ok g \<Longrightarrow> P p \<Longrightarrow> ok (store_proposal p g)"
  unfolding store_proposal_def
  by (rule ok_insert_row) (auto simp: content_ok_def comments_ok_get votes_ok_get)

lemma ok_store_comment: "ok g \<Longrightarrow> C c \<Longrightarrow> ok (store_comment c g)"
  by (auto simp: content_ok_def store_comment_def stmtInsertComment_def tables_ok_def comments_ok_get intro!: jall_insert_or_ignore)

lemma ok_store_vote: "ok g \<Longrightarrow> V v \<Longrightarrow> ok (store_vote v g)"
  by (auto simp: content_ok_def store_vote_def stmtUpsertVote_def tables_ok_def votes_ok_get
      intro!: jall_insert_or_replace)

lemma ok_removeProposalData: "ok g \<Longrightarrow> ok (removeProposalData i g)"
  by (auto simp: content_ok_def removeProposalData_def tables_ok_def intro: jall_jdel jall_filter)

lemma ok_drop_job: "ok g \<Longrightarrow> ok (drop_job n g)"
  by (auto simp: content_ok_def drop_job_def remove_at_def list_all_iff dest: in_set_takeD in_set_dropD)

text \<open>Decisions\<close>

lemma ok_apply_decision: "ok g \<Longrightarrow> jget (gn_proposals g) (gd_proposalId d) = Some p \<Longrightarrow> ok (apply_decision E now p d g)"
  using content_proposal [of P C V g "gd_proposalId d" p] by (auto simp: apply_decision_def Let_def is_upgrade_def intro!: ok_set_status intro: status_free)

lemma tally_id: "tally_outcome E now peers p i g = Some d \<Longrightarrow> gd_proposalId d = i"
  by (auto simp: tally_outcome_def Let_def split: option.splits prod.splits)

lemma ok_checkQuorum: "ok g \<Longrightarrow> ok (checkQuorum E now peers i g)"
  by (auto simp: checkQuorum_def tally_id split: option.splits intro!: ok_apply_decision)

lemma ok_expireIfNeeded: "ok g \<Longrightarrow> ok (expireIfNeeded E now peers i g)"
  by (auto simp: expireIfNeeded_def split: option.splits intro: ok_checkQuorum ok_set_status)

lemma ok_expire_all: "ok g \<Longrightarrow> ok (expire_all E now peers g)"
  unfolding expire_all_def by (rule fold_invariant [where Q = "\<lambda>_. True"]) (auto intro: ok_expireIfNeeded)

text \<open>Messages\<close>

lemma ok_finish_proposal: "ok g \<Longrightarrow> ok (finish_proposal E p g)"
  using admits [of p] by (auto simp: finish_proposal_def accept_proposal_def Let_def admitted_def sanitized_def intro!: ok_store_proposal)

lemma ok_accept_comment: "ok g \<Longrightarrow> gc_from c = ge_localPeerId E \<or> signed_comment E c \<Longrightarrow> ok (accept_comment c g)"
  by (auto simp: accept_comment_def Let_def intro!: ok_store_comment comments)

lemma ok_accept_vote: "ok g \<Longrightarrow> gv_voter v = ge_localPeerId E \<or> signed_vote E v \<Longrightarrow> ok (accept_vote E now peers v g)"
  by (auto simp: accept_vote_def Let_def intro!: ok_checkQuorum ok_store_vote votes)

lemma ok_handleProposal: "ok g \<Longrightarrow> ok (handleProposal E p g)"
  by (auto simp: handleProposal_def Let_def intro: ok_finish_proposal)

lemma ok_handleComment: "ok g \<Longrightarrow> gm_payload m = GOVERNANCE_COMMENT c \<Longrightarrow> ok (handleComment E m c g)"
  by (auto simp: handleComment_def Let_def intro!: ok_accept_comment)

lemma ok_handleVote: "ok g \<Longrightarrow> gm_payload m = GOVERNANCE_VOTE v \<Longrightarrow> ok (handleVote E now peers m v g)"
  by (auto simp: handleVote_def intro!: ok_accept_vote)

lemma ok_handleDecision: "ok g \<Longrightarrow> ok (handleDecision E now d g)"
  by (auto simp: handleDecision_def Let_def split: option.splits intro!: ok_set_status)

lemma ok_handleGovernanceMessage: "ok g \<Longrightarrow> ok (handleGovernanceMessage E now peers m g)"
  by (auto simp: handleGovernanceMessage_def split: gov_payload.splits
      intro: ok_handleProposal ok_handleComment ok_handleVote ok_handleDecision)

lemma ok_handleAgentMessage: "ok g \<Longrightarrow> ok (handleAgentMessage E m g)"
  by (auto simp: handleAgentMessage_def Let_def split: gov_payload.splits)

text \<open>Local actions\<close>

lemma ok_take_stake: "ok g \<Longrightarrow> take_stake E now peers ident rnd opts g = (g', r) \<Longrightarrow> ok g'"
  by (auto simp: take_stake_def Let_def split: option.splits if_splits prod.splits)

lemma ok_fresh_entry:
  "ok g \<Longrightarrow> P p \<Longrightarrow> ok (g\<lparr>gn_proposals := jset (gp_id p) p (gn_proposals g), gn_comments := jset (gp_id p) [] (gn_comments g),
     gn_votes := jset (gp_id p) [] (gn_votes g)\<rparr>)"
  by (simp add: content_ok_def)

lemma ok_store_created: "ok g \<Longrightarrow> P p \<Longrightarrow> ok (store_created E now p summary g)"
  using ok_fresh_entry by (auto simp: store_created_def Let_def intro!: ok_insert_row)

lemma ok_createProposal: "ok g \<Longrightarrow> ok (fst (createProposal E now peers ident rnd title desc dur opts g))"
  by (auto simp: createProposal_def Let_def split: option.splits prod.splits sum.splits
      intro!: ok_store_created draft drafts dest: ok_take_stake)

lemma ok_approveUpgrade: "ok g \<Longrightarrow> P p \<Longrightarrow> is_upgrade p \<Longrightarrow> ok (approveUpgrade E now p g)"
  by (auto simp: approveUpgrade_def Let_def intro!: ok_set_status intro: status_free)

lemma ok_log: "ok g \<Longrightarrow> ok (fold (\<lambda>(nm, result). logGovernanceCheck i nm result) cs g)"
  by (induction cs arbitrary: g) auto

lemma ok_finish_validation: "ok g \<Longrightarrow> P p \<Longrightarrow> is_upgrade p \<Longrightarrow> ok (finish_validation E now peers v p g)"
  by (auto simp: finish_validation_def Let_def intro!: ok_log ok_set_status ok_approveUpgrade)

lemma ok_addComment: "ok g \<Longrightarrow> ok (fst (addComment E now i content g))"
  using comments [where c = "\<lparr>gc_id = c, gc_proposalId = i, gc_from = ge_localPeerId E, gc_content = content, gc_createdAt = now\<rparr>" for c]
  by (auto simp: addComment_def Let_def split: option.splits intro!: ok_store_comment)

lemma ok_castVote: "ok g \<Longrightarrow> ok (fst (castVote E now peers i choice reasoning att g))"
  by (auto simp: castVote_def Let_def split: option.splits intro!: ok_store_vote votes ok_expireIfNeeded)

lemma ok_clear_votes: "ok g \<Longrightarrow> ok (g\<lparr>gn_votes := jset i [] (gn_votes g)\<rparr>)"
  by (simp add: content_ok_def)

lemma ok_resubmitProposal: "ok g \<Longrightarrow> ok (fst (resubmitProposal E now i requester g))"
  by (auto simp: resubmitProposal_def Let_def split: option.splits intro!: ok_clear_votes ok_set_status)

text \<open>Catch-up\<close>

lemma ok_sync_items:
  assumes "ok g"
  shows "ok (sync_comment E sender acc c g)" "ok (sync_vote E now peers sender acc v g)" "ok (sync_decision E now acc d g)"
  using assms by (auto simp: sync_comment_def sync_vote_def sync_decision_def Let_def intro!: ok_handleComment ok_handleVote ok_handleDecision)

lemma ok_fold: "ok g \<Longrightarrow> (\<And>x h. ok h \<Longrightarrow> ok (f x h)) \<Longrightarrow> ok (fold f xs g)"
  by (rule fold_invariant [where Q = "\<lambda>_. True"]) auto

lemma ok_sync_rest: "ok g \<Longrightarrow> ok (sync_rest E now peers sender acc pay g)"
  unfolding sync_rest_def Let_def by (intro ok_fold ok_sync_items)

lemma ok_sync_proposals: "ok g \<Longrightarrow> ok (sync_proposals E now peers sender t acc ps pay g)"
  by (induction ps arbitrary: acc) (auto simp: Let_def ok_sync_rest)

lemma ok_job: "ok g \<Longrightarrow> pending_ok P j \<Longrightarrow> ok (run_gov_job E now peers verdict j g)"
  by (auto simp: run_gov_job_def finish_comment_def finish_vote_def sign_created_def finish_created_def finish_cast_def continue_sync_def
      signed_comment_def signed_vote_def is_upgrade_def Let_def split: gov_job.splits
      intro!: ok_finish_proposal ok_accept_comment ok_accept_vote ok_store_created ok_finish_validation ok_approveUpgrade ok_checkQuorum
        ok_sync_proposals)

lemma ok_resume: "ok g \<Longrightarrow> ok (resume_gov E now peers verdict n g)"
  by (auto simp: resume_gov_def intro!: ok_job ok_drop_job dest: content_okD(5) simp: list_all_length)

text \<open>Archive and restart\<close>

lemma ok_archive_one: "ok (fst a) \<Longrightarrow> ok (fst (archive_one cutoff e a))"
  by (simp add: archive_one_def ok_removeProposalData)

lemma ok_evict: "ok g \<Longrightarrow> ok (fst (evict es g))"
  by (induction es arbitrary: g) (auto split: prod.splits intro: ok_removeProposalData, metis fst_conv ok_removeProposalData)

lemma ok_archive: "ok g \<Longrightarrow> ok (fst (archiveExpiredProposals E now peers maxAge g))"
proof -
  assume g: "ok g"
  have "ok (fst a) \<Longrightarrow> ok (fst (fold (archive_one cutoff) es a))" for a :: "'s governance \<times> nat" and cutoff es
    by (rule fold_invariant [where Q = "\<lambda>_. True" and P = "\<lambda>a. ok (fst a)"]) (auto intro: ok_archive_one)
  from this [OF _ ] ok_expire_all [OF g, of now peers] show ?thesis
    by (auto simp: archiveExpiredProposals_def enforceProposalCap_def Let_def split: prod.splits if_splits)
      (metis fst_conv ok_evict)+
qed

lemma ok_load: "ok g \<Longrightarrow> ok (loadFromDatabase g)"
proof -
  assume g: "ok g"
  have t: "tables_ok P C V (gn_db g)" using g by (rule content_okD(4))
  have p: "ok h \<Longrightarrow> jall (\<lambda>i r. P (proposal_of_row i r)) m \<Longrightarrow> ok (fold load_proposal m h)" for m h
    by (induction m arbitrary: h) (auto simp: load_proposal_def jall_def content_ok_def mark_def proposal_of_row_def)
  have c: "ok h \<Longrightarrow> list_all C cs \<Longrightarrow> ok (fold load_comment cs h)" for cs h
    by (induction cs arbitrary: h) (auto simp: load_comment_def content_ok_def mark_def comments_ok_get)
  have v: "ok h \<Longrightarrow> jall (\<lambda>k r. V (vote_of_row (fst k) (snd k) r)) m \<Longrightarrow> ok (fold load_vote m h)" for m h
    by (induction m arbitrary: h) (auto simp: load_vote_def Let_def jall_def content_ok_def mark_def votes_ok_get vote_of_row_def)
  have d: "ok h \<Longrightarrow> ok (fold load_decision m h)" for m h
    by (induction m arbitrary: h) (auto simp: load_decision_def)
  show ?thesis using g t unfolding loadFromDatabase_def Let_def
    by (intro p c v d) (auto simp: tables_ok_def jall_def list_all_iff jvals_def)
qed

lemma ok_new: "tables_ok P C V t \<Longrightarrow> ok (GovernanceSync_new t s)"
  by (simp add: content_ok_def GovernanceSync_new_def)

lemma ok_start: "tables_ok P C V t \<Longrightarrow> ok (gov_start E now peers (GovernanceSync_new t s))"
  by (simp add: gov_start_def ok_archive ok_load ok_new)

lemma ok_gov_step: "gov_step E g g' \<Longrightarrow> ok g \<Longrightarrow> ok g'"
proof (induction rule: gov_step.induct)
  case (restart g now peers)
  then show ?case by (intro ok_start) (rule content_okD(4))
qed (auto simp: getProposals_def getProposal_def handleSyncRequest_def gov_requestSync_def handleSyncResponse_def deleteProposal_def
    gov_cleanup_def setUpgradeAutoApproveThreshold_def Let_def split: option.splits
    intro: ok_handleGovernanceMessage ok_handleAgentMessage ok_resume ok_drop_job ok_createProposal ok_addComment ok_castVote
      ok_resubmitProposal ok_expire_all ok_expireIfNeeded ok_sync_proposals ok_removeProposalData ok_archive)

lemma ok_gov_reach: "gov_reach E g0 g \<Longrightarrow> ok g0 \<Longrightarrow> ok g"
  by (induction rule: gov_reach.induct) (auto intro: ok_gov_step)

end

section \<open>Text\<close>

definition plain :: "string \<Rightarrow> bool" where
  "plain s = (CHR ''<'' \<notin> set s \<and> CHR ''>'' \<notin> set s)"

lemma set_escape_char: "set (escape_char c e s) \<subseteq> (set s - {c}) \<union> set e"
  by (auto simp: escape_char_def split: if_splits)

lemma plain_sanitizeText: "plain (sanitizeText s)"
  using set_escape_char [of "CHR ''>''" "''&gt;''" "escape_char (CHR ''<'') ''&lt;'' s"] set_escape_char [of "CHR ''<''" "''&lt;''" s]
  by (fastforce simp: plain_def sanitizeText_def)

lemma escape_char_id: "c \<notin> set s \<Longrightarrow> escape_char c e s = s"
  by (induction s) (auto simp: escape_char_def)

lemma sanitizeText_plain: "plain s \<Longrightarrow> sanitizeText s = s"
  by (simp add: plain_def sanitizeText_def escape_char_id)

definition plain_proposal :: "GovernanceProposal \<Rightarrow> bool" where
  "plain_proposal p = (plain (gp_title p) \<and> plain (gp_description p))"

definition plain_comment :: "GovernanceComment \<Rightarrow> bool" where
  "plain_comment c = plain (gc_content c)"

lemma plain_policy: "content_policy E plain_proposal plain_comment (\<lambda>_. True)"
  by unfold_locales
    (auto simp: plain_proposal_def plain_comment_def sanitized_def proposal_of_row_def row_of_proposal_def draft_proposal_def plain_sanitizeText)

interpretation text_policy: content_policy E plain_proposal plain_comment "\<lambda>_. True" for E
  by (rule plain_policy)

section \<open>Signatures\<close>

definition own_or_signed_vote :: "'s gov_env \<Rightarrow> GovernanceVote \<Rightarrow> bool" where
  "own_or_signed_vote E v = (gv_voter v = ge_localPeerId E \<or> signed_vote E v)"

interpretation vote_policy: content_policy E "\<lambda>_. True" "\<lambda>_. True" "own_or_signed_vote E" for E
  by unfold_locales (auto simp: own_or_signed_vote_def)

text \<open>A proposal agrees with one its proposer signed, up to the escaping of title and description.\<close>

definition proposer_signed :: "'s gov_env \<Rightarrow> GovernanceProposal \<Rightarrow> bool" where
  "proposer_signed E p = (\<exists>q sig. verifyProposalSignature E q sig \<and> gp_id q = gp_id p \<and> gp_proposedBy q = gp_proposedBy p \<and>
     gp_category q = gp_category p \<and> gp_upgradePayload q = gp_upgradePayload p \<and> gp_createdAt q = gp_createdAt p \<and>
     sanitizeText (gp_title q) = gp_title p \<and> sanitizeText (gp_description q) = gp_description p)"

definition genuine_upgrade :: "'s gov_env \<Rightarrow> GovernanceProposal \<Rightarrow> bool" where
  "genuine_upgrade E p = (gp_category p = Some upgrade \<longrightarrow> gp_proposedBy p = ge_localPeerId E \<or> proposer_signed E p)"

lemma admitted_upgrade: "admitted E p \<Longrightarrow> genuine_upgrade E (sanitized p)"
  by (force simp: admitted_def genuine_upgrade_def proposer_signed_def sanitized_def split: if_splits)

lemma category_column_upgrade: "category_column c = upgrade \<longleftrightarrow> c = Some upgrade"
  by (auto simp: category_column_def no_category_def split: option.splits)

lemma genuine_row: "genuine_upgrade E p \<Longrightarrow> genuine_upgrade E (proposal_of_row (gp_id p) (row_of_proposal p))"
  by (auto simp: genuine_upgrade_def proposer_signed_def proposal_of_row_def row_of_proposal_def category_column_upgrade)

lemma genuine_draft: "genuine_upgrade E ((draft_proposal E now title desc dur opts amount hold)\<lparr>gp_proposerSignature := s\<rparr>)"
  by (simp add: genuine_upgrade_def draft_proposal_def)

interpretation upgrade_policy: content_policy E "genuine_upgrade E" "\<lambda>_. True" "\<lambda>_. True" for E
proof unfold_locales
  fix p st assume "genuine_upgrade E p"
  then show "genuine_upgrade E (p\<lparr>gp_status := st\<rparr>)" by (simp add: genuine_upgrade_def proposer_signed_def)
qed (auto intro: admitted_upgrade genuine_row genuine_draft)

section \<open>Properties of all runs\<close>

lemma ok_initial: "content_ok P C V (GovernanceSync_new empty_tables s)"
  by (simp add: content_ok_def GovernanceSync_new_def tables_ok_def empty_tables_def)

text \<open>A node with gate and rewards, where a signature is the signer's key.\<close>

definition demo_key :: "peer_id \<Rightarrow> string" where
  "demo_key p = take 32 (''key-'' @ p @ replicate 32 (CHR ''.''))"

definition demo_gov :: "database payment_gate gov_env" where
  "demo_gov = \<lparr>ge_localPeerId = ''me'', ge_paymentGate = Some account_gate, ge_rewardWork = Some (reward_callback id),
     ge_applyWeighting = None, ge_sha256 = (\<lambda>s. ''#'' @ s), ge_number_text = (\<lambda>_. ''n''), ge_publicKey = (\<lambda>p. Some (demo_key p)),
     ge_verifySignature = (\<lambda>m sg k. sg = k), ge_json = sp_id, ge_ed25519 = (\<lambda>m sg k. sg = k), ge_signProposal = None\<rparr>"

definition demo_proposal :: "ProposalCategory \<Rightarrow> GovernanceProposal" where
  "demo_proposal c = \<lparr>gp_id = ''p1'', gp_title = ''<b>'', gp_description = [], gp_proposedBy = ''ann'', gp_createdAt = 5,
     gp_votingEndsAt = 100, gp_status = st_active, gp_stakeAmount = None, gp_stakeHoldId = None, gp_category = Some c,
     gp_reviewerCount = None, gp_humanOnly = False,
     gp_upgradePayload = Some \<lparr>up_commitHash = ''abc'', up_description = [], up_filesTouched = None\<rparr>,
     gp_proposerSignature = Some (demo_key ''ann'')\<rparr>"

definition demo_msg :: "gov_payload \<Rightarrow> peer_id \<Rightarrow> gov_message" where
  "demo_msg pl p = \<lparr>gm_from = p, gm_timestamp = 6, gm_payload = pl, gm_signature = Some (demo_key p)\<rparr>"

definition no_verdict :: upgrade_verdict where
  "no_verdict = \<lparr>uv_approved = False, uv_kernelDelay = False, uv_checks = []\<rparr>"

definition deliver :: "gov_message \<Rightarrow> database payment_gate governance \<Rightarrow> database payment_gate governance" where
  "deliver m g = resume_gov demo_gov 10 4 no_verdict 0 (handleGovernanceMessage demo_gov 10 4 m g)"

definition voted_upgrade :: "database payment_gate governance" where
  "voted_upgrade = deliver (demo_msg (GOVERNANCE_VOTE (demo_vote ''ben'' approve)) ''ben'')
     (deliver (demo_msg (GOVERNANCE_PROPOSAL (demo_proposal upgrade)) ''ann'') (GovernanceSync_new empty_tables demo_gate))"

lemma deliver_reach: "gov_reach demo_gov g0 g \<Longrightarrow> gov_reach demo_gov g0 (deliver m g)"
  unfolding deliver_def by (rule gov_reach.further [OF gov_reach.further [OF _ gov_step.message] gov_step.resume])

lemma voted_upgrade_reach: "gov_reach demo_gov (GovernanceSync_new empty_tables demo_gate) voted_upgrade"
  unfolding voted_upgrade_def by (intro deliver_reach gov_reach.start)

text \<open>C12: Votes cannot be forged for other peers. In every state of every run (any messages, catch-ups, restarts, and any order of
  the awaited continuations) a voter has one vote per proposal, stored under its own name, and every vote of a peer
  other than this node comes from a message by that peer whose signature was verified against the peer's key.\<close>

theorem stored_votes_are_authentic:
  assumes "gov_reach E (GovernanceSync_new empty_tables s) g" and "jget (gn_votes g) i = Some vs"
  shows "jwf vs \<and> (\<forall>u v. jget vs u = Some v \<longrightarrow> gv_voter v = u \<and> gv_proposalId v = i \<and>
    (u = ge_localPeerId E \<or> signed_vote E v))"
proof -
  have "votes_ok (own_or_signed_vote E) (gn_votes g)"
    using vote_policy.ok_gov_reach [OF assms(1) ok_initial] by (rule content_okD(3))
  with assms(2) have "ballot_ok (own_or_signed_vote E) i vs" by (auto simp: votes_ok_def dest: jall_jget)
  then show ?thesis by (auto simp: ballot_ok_def own_or_signed_vote_def dest: jall_jget)
qed

theorem stored_votes_are_authentic_witness:
  "\<exists>v. jget (votes_of voted_upgrade ''p1'') ''ben'' = Some v \<and> gv_choice v = approve \<and> signed_vote demo_gov v"
proof -
  let ?v = "demo_vote ''ben'' approve"
  have v: "jget (gn_votes voted_upgrade) ''p1'' = Some [(''ben'', ?v)]" by code_simp
  have "jget [(''ben'', ?v)] ''ben'' = Some ?v" "ge_localPeerId demo_gov = ''me''" "gv_choice ?v = approve"
    by (simp_all add: demo_gov_def demo_vote_def)
  then show ?thesis
    using stored_votes_are_authentic [OF voted_upgrade_reach v, THEN conjunct2, rule_format, of "''ben''" ?v] v
    by (auto simp: votes_of_def)
qed

text \<open>Stored text is escaped. In every state of every run, titles and descriptions of proposals and the text of comments, in
  memory and in the tables, contain neither of the two angle brackets.\<close>

lemma stored_text_is_escaped:
  assumes "gov_reach E (GovernanceSync_new empty_tables s) g"
  shows "(\<forall>i p. jget (gn_proposals g) i = Some p \<longrightarrow> plain (gp_title p) \<and> plain (gp_description p))
    \<and> (\<forall>i c. c \<in> set (getComments g i) \<longrightarrow> plain (gc_content c))
    \<and> (\<forall>i r. jget (gt_proposals (gn_db g)) i = Some r \<longrightarrow> plain (pw_title r) \<and> plain (pw_description r))
    \<and> (\<forall>i c. jget (gt_comments (gn_db g)) i = Some c \<longrightarrow> plain (gc_content c))"
proof -
  note ok = content_okD [OF text_policy.ok_gov_reach [OF assms ok_initial]]
  have r: "plain_proposal (proposal_of_row i r)" if "jget (gt_proposals (gn_db g)) i = Some r" for i r
    using ok(4) that unfolding tables_ok_def by (blast dest: jall_jget)
  have c: "plain_comment c" if "jget (gt_comments (gn_db g)) i = Some c" for i c
    using ok(4) that unfolding tables_ok_def by (blast dest: jall_jget)
  have m: "plain_comment c" if "c \<in> set (getComments g i)" for i c
    using comments_ok_get [OF ok(2), of i] that by (auto simp: list_all_iff)
  show ?thesis
    using proposals_ok_get [OF ok(1)] m r c by (auto simp: plain_proposal_def plain_comment_def proposal_of_row_def)
qed

lemma stored_text_is_escaped_witness:
  "\<exists>p. jget (gn_proposals voted_upgrade) ''p1'' = Some p \<and> gp_title p = ''&lt;b&gt;'' \<and> plain (gp_title p)"
proof -
  have "map_option gp_title (jget (gn_proposals voted_upgrade) ''p1'') = Some ''&lt;b&gt;''" by code_simp
  with stored_text_is_escaped [OF voted_upgrade_reach] show ?thesis by auto
qed



end
