(* ===== verification/GovernanceDecisions.thy ===== *)
theory GovernanceDecisions
  imports GovernanceSafety
begin

text \<open>
  What the governance layer decides: the quorum, the rule that turns votes into an outcome, the fate of the stake
  (locale \<open>stake_escrow\<close>, interpreted on the payment gate over the ledger's accounts), what catch-up brings, and what the archive keeps.
\<close>

section \<open>Quorum\<close>

lemma fl_of_nat: "n \<le> 2 ^ 53 \<Longrightarrow> fl (of_nat n) = of_nat n"
  by (rule fl_double, unfold is_double_def, rule exI [of _ "int n"], rule exI [of _ 0]) simp

text \<open>A twentieth of the network, as computed in floating point.\<close>

lemma twentieth_le: "fl (of_nat n * fl (5 / 100)) \<le> of_nat n"
proof -
  have c: "0 \<le> fl (5 / 100)" "fl (5 / 100) \<le> 1 / 10" by code_simp+
  let ?x = "of_nat n * fl (5 / 100)"
  show ?thesis
  proof (cases "n = 0")
    case False
    then have n: "1 \<le> (of_nat n :: rat)" by simp
    have x: "0 \<le> ?x" "?x \<le> of_nat n / 10" using c mult_left_mono [OF c(2), of "of_nat n"] by auto
    have "fl ?x \<le> ?x + (\<bar>?x\<bar> / 2 ^ 53 + tiny)" using fl_error [of ?x] by linarith
    also have "\<dots> \<le> ?x + (?x / 2 + 1 / 2)" using x(1) tiny_bounds(3) by (intro add_mono) (auto simp: divide_simps)
    finally show ?thesis using x(2) n by linarith
  qed simp
qed

lemma getQuorum_le: "getQuorum peers \<le> peers + 1"
proof -
  have h: "fmul (of_nat (peers + 1)) (1 / 2) \<le> of_nat (peers + 1)" if "peers + 1 \<le> 10"
  proof -
    have "fl (of_nat (peers + 1) * (1 / 2)) \<le> fl (of_nat (peers + 1))" by (intro fl_mono) simp
    then show ?thesis using fl_of_nat [of "peers + 1"] that by (simp add: fmul_def)
  qed
  have t: "nat \<lceil>fmul (of_nat (peers + 1)) (fl (5 / 100))\<rceil> \<le> peers + 1"
    using twentieth_le [of "peers + 1"] by (simp add: fmul_def ceiling_le_iff nat_le_iff del: of_nat_add of_nat_Suc)
  from h have "nat \<lceil>fmul (of_nat (peers + 1)) (1 / 2)\<rceil> \<le> peers + 1" if "peers + 1 \<le> 10"
    using that by (simp add: ceiling_le_iff nat_le_iff del: of_nat_add of_nat_Suc)
  then show ?thesis using t by (auto simp: getQuorum_def Let_def simp del: of_nat_add of_nat_Suc)
qed

text \<open>The branch for \<^verbatim>\<open>Early resolution\<close> is never taken: no quorum exceeds the number of nodes.\<close>

lemma required_votes_alt:
  "required_votes peers p n =
     (if peers + 1 < 10 then 1
      else if gp_category p = Some governance_change then 5 else if gp_humanOnly p then 2 else getQuorum peers)"
  using getQuorum_le [of peers] by (auto simp: required_votes_def Let_def GOVERNANCE_CHANGE_MIN_VOTES_def)

section \<open>From votes to an outcome\<close>

lemma fl_unit_error: "0 \<le> x \<Longrightarrow> x \<le> 1 \<Longrightarrow> \<bar>fl x - x\<bar> \<le> 1 / 2 ^ 53 + tiny"
  using fl_error [of x] divide_right_mono [of x 1 "2 ^ 53"] by simp

text \<open>The floating point comparison with 0.8 decides exactly whether there are four approvals for each rejection.\<close>

lemma four_fifths_exact:
  assumes "0 < a + b" "a + b \<le> 2 ^ 40"
  shows "fl (8 / 10) \<le> fl (of_nat a / of_nat (a + b)) \<longleftrightarrow> 4 * b \<le> a"
proof
  assume "4 * b \<le> a"
  then have "4 * of_nat b \<le> (of_nat a :: rat)" using of_nat_mono [of "4 * b" a] by simp
  moreover have "0 < (of_nat (a + b) :: rat)" using assms(1) by (simp only: of_nat_0_less_iff)
  ultimately have "8 / 10 \<le> (of_nat a :: rat) / of_nat (a + b)" by (simp add: pos_le_divide_eq)
  then show "fl (8 / 10) \<le> fl (of_nat a / of_nat (a + b))" by (rule fl_mono)
next
  assume le: "fl (8 / 10) \<le> fl (of_nat a / of_nat (a + b))"
  show "4 * b \<le> a"
  proof (rule ccontr)
    let ?n = "of_nat (a + b) :: rat" and ?x = "of_nat a / of_nat (a + b) :: rat"
    assume "\<not> 4 * b \<le> a"
    then have "of_nat (5 * a + 1) \<le> (of_nat (4 * (a + b)) :: rat)" by (intro of_nat_mono) simp
    then have "of_nat a \<le> (4 * ?n - 1) / 5" by simp
    moreover have n: "0 < ?n" using assms(1) by (simp only: of_nat_0_less_iff)
    have n': "?n \<le> 2 ^ 40" using of_nat_mono [OF assms(2), where 'a = rat] by simp
    ultimately have "?x \<le> (4 * ?n - 1) / 5 / ?n" by (intro divide_right_mono) auto
    also have "\<dots> = 8 / 10 - 1 / (5 * ?n)" using n by (simp add: diff_divide_distrib del: of_nat_add)
    finally have x: "?x \<le> 8 / 10 - 1 / (5 * ?n)" .
    have "1 / (5 * 2 ^ 40) \<le> 1 / (5 * ?n)" using n n' by (intro divide_left_mono) auto
    with x have x': "?x \<le> 8 / 10 - 1 / (5 * 2 ^ 40)" by linarith
    have "0 \<le> ?x" "?x \<le> 1" using n by simp_all
    from fl_unit_error [OF this] have "fl ?x \<le> ?x + (1 / 2 ^ 53 + tiny)" by linarith
    moreover have "8 / 10 - (1 / 2 ^ 53 + tiny) \<le> fl (8 / 10)" using fl_unit_error [of "8 / 10"] by linarith
    ultimately have "8 / 10 - (1 / 2 ^ 53 + tiny) \<le> 8 / 10 - 1 / (5 * 2 ^ 40) + (1 / 2 ^ 53 + tiny)" using x' le by linarith
    then show False using tiny_bounds(3) by simp
  qed
qed

definition passes :: "GovernanceProposal \<Rightarrow> nat \<Rightarrow> nat \<Rightarrow> bool" where
  "passes p yes no = (if gp_category p = Some governance_change then 4 * no \<le> yes else no < yes)"

lemma decide_counts:
  assumes "a + b \<le> 2 ^ 40"
  shows "decide p (of_nat a) (of_nat b) =
    (if a + b = 0 then None else Some (if passes p a b then oc_passed else oc_rejected))"
proof -
  have s: "fadd (of_nat a) (of_nat b) = of_nat (a + b)" using fl_of_nat [of "a + b"] assms by (simp add: fadd_def)
  have "(of_nat (a + b) = (0::rat)) = (a + b = 0)" by (simp only: of_nat_eq_0_iff)
  then show ?thesis
    using four_fifths_exact [of a b] assms
    by (auto simp: decide_def s fdiv_def GOVERNANCE_CHANGE_APPROVAL_THRESHOLD_def passes_def simp del: of_nat_add)
qed

text \<open>The stores behind the bookkeeping.\<close>

definition stores :: "'s governance \<Rightarrow> (string, GovernanceProposal) jsmap \<times> (string, GovernanceComment list) jsmap \<times>
    (string, (peer_id, GovernanceVote) jsmap) jsmap \<times> (string, GovernanceDecision) jsmap" where
  "stores g = (gn_proposals g, gn_comments g, gn_votes g, gn_decisions g)"

lemma stores_world [simp]: "stores (g\<lparr>gn_world := w\<rparr>) = stores g"
  by (simp add: stores_def)

lemma stores_bookkeeping [simp]:
  "stores (mark k g) = stores g" "stores (emit_event e g) = stores g" "stores (gov_publish E now pl g) = stores g"
  "stores (stmtInsertDecision d g) = stores g" "stores (broadcastGovernanceActivity E now a s i g) = stores g"
  "stores (logGovernanceCheck i nm r g) = stores g" "stores (add_job j g) = stores g"
  "stores (emitVoteReward E now u i g) = stores g" "stores (emitProposalReward E now u t g) = stores g"
  "stores (resolveProposalStake E now i out g) = stores g"
  by (auto simp: stores_def mark_def emit_event_def gov_publish_def stmtInsertDecision_def broadcastGovernanceActivity_def Let_def
      logGovernanceCheck_def add_job_def emitVoteReward_def emitProposalReward_def resolveProposalStake_def refund_stake_def burn_stake_def
      split: option.splits DecisionOutcome.splits)

lemma stores_set_status:
  "stores (set_status i st g) = (jupd i (\<lambda>p. p\<lparr>gp_status := st\<rparr>) (gn_proposals g), gn_comments g, gn_votes g, gn_decisions g)"
  by (simp add: stores_def set_status_def stmtUpdateProposalStatus_def)

lemma stores_eqD:
  assumes "stores g = (ps, cs, vs, ds)"
  shows "gn_proposals g = ps" "gn_comments g = cs" "gn_votes g = vs" "gn_decisions g = ds"
  using assms by (auto simp: stores_def)

lemma stores_eq_fields:
  assumes "stores g = stores h"
  shows "gn_proposals g = gn_proposals h" "gn_comments g = gn_comments h" "gn_votes g = gn_votes h" "gn_decisions g = gn_decisions h"
  using assms by (auto simp: stores_def)

lemma stores_apply_decision:
  "stores (apply_decision E now p d g) =
     (jupd (gd_proposalId d) (\<lambda>p. p\<lparr>gp_status := status_of_outcome (gd_outcome d)\<rparr>) (gn_proposals g), gn_comments g, gn_votes g,
      jset (gd_proposalId d) d (gn_decisions g))"
  by (simp add: apply_decision_def Let_def stores_set_status)
    (simp add: stmtInsertDecision_def mark_def)

lemma count_votes_total: "count_votes vs = (a, b, c) \<Longrightarrow> a + b + c = length vs"
  by (induction vs arbitrary: a b c) (auto simp: count_votes_def)


definition open_vote :: "ProposalCategory \<Rightarrow> VoteChoice list \<Rightarrow> database payment_gate governance" where
  "open_vote c choices =
     (let p = (demo_proposal c)\<lparr>gp_title := ''t''\<rparr> in
      (GovernanceSync_new empty_tables demo_gate)\<lparr>gn_proposals := [(''p1'', p)],
        gn_votes := [(''p1'', map (\<lambda>(k, ch). (replicate (k + 1) (CHR ''v''), demo_vote (replicate (k + 1) (CHR ''v'')) ch)) (List.enumerate 0 choices))]\<rparr>)"


section \<open>Stakes\<close>

text \<open>What the governance layer relies on: a stake is paid out at most once, a refund loses nothing, and a release to the
  \<^verbatim>\<open>NETWORK\<close> account, which does not exist, destroys the stake.\<close>

locale stake_escrow =
  fixes S :: "'s stake_gate" and good :: "'s \<Rightarrow> bool" and live :: "'s \<Rightarrow> string \<Rightarrow> bool"
    and worth :: "'s \<Rightarrow> int" and stake :: "'s \<Rightarrow> string \<Rightarrow> int"
  assumes settled: "\<not> live s h \<Longrightarrow> fst (sg_refundPayment S now h s) = s \<and> fst (sg_releasePayment S now h p s) = s"
    and refunds: "good s \<Longrightarrow> live s h \<Longrightarrow> good (fst (sg_refundPayment S now h s)) \<and> \<not> live (fst (sg_refundPayment S now h s)) h \<and>
      worth (fst (sg_refundPayment S now h s)) = worth s"
    and burns: "good s \<Longrightarrow> live s h \<Longrightarrow> good (fst (sg_releasePayment S now h NETWORK_BURN s)) \<and>
      \<not> live (fst (sg_releasePayment S now h NETWORK_BURN s)) h \<and> worth (fst (sg_releasePayment S now h NETWORK_BURN s)) = worth s - stake s h"
begin

text \<open>The outcomes that burn a stake and those that return it.\<close>

lemma resolve_settles:
  fixes now
  assumes "ge_paymentGate E = Some S" "jget (gn_proposals g) i = Some p" "gp_stakeHoldId p = Some h" "h \<noteq> []"
    and "gp_stakeAmount p = Some a" "0 < a" "good (gn_world g)" "live (gn_world g) h" "\<And>t. out \<noteq> oc_other t"
  defines "g' \<equiv> resolveProposalStake E now i out g"
  shows "good (gn_world g')" "\<not> live (gn_world g') h" "stores g' = stores g"
    "worth (gn_world g') = worth (gn_world g) -
       (if out = oc_rejected \<or> out = oc_expired \<and> votes_of g i \<noteq> [] then stake (gn_world g) h else 0)"
  using assms refunds [of "gn_world g" h now] burns [of "gn_world g" h now]
  by (auto simp: g'_def resolveProposalStake_def truthy_def refund_stake_def burn_stake_def Let_def split: DecisionOutcome.splits)

lemma resolve_settled:
  assumes "ge_paymentGate E = Some S" "jget (gn_proposals g) i = Some p" "gp_stakeHoldId p = Some h" "\<not> live (gn_world g) h"
  shows "resolveProposalStake E now i out g = g"
  using assms settled [of "gn_world g" h]
  by (auto simp: resolveProposalStake_def refund_stake_def burn_stake_def Let_def split: option.splits DecisionOutcome.splits)

lemma resolve_once:
  assumes "ge_paymentGate E = Some S" "jget (gn_proposals g) i = Some p" "gp_stakeHoldId p = Some h" "h \<noteq> []"
    and "gp_stakeAmount p = Some a" "0 < a" "good (gn_world g)" "live (gn_world g) h" "\<And>t. out \<noteq> oc_other t"
  shows "resolveProposalStake E now' i out' (resolveProposalStake E now i out g) = resolveProposalStake E now i out g"
  using resolve_settles(2) [OF assms, of now] assms(1-3)
  by (intro resolve_settled [of E _ i p h]) (simp_all add: stores_eq_fields(1) [OF stores_bookkeeping(10)])

end

definition is_live :: "database payment_gate \<Rightarrow> string \<Rightarrow> bool" where
  "is_live s h = (case getHold s h of None \<Rightarrow> False | Some x \<Rightarrow> ph_status x = held)"

definition stake_units :: "database payment_gate \<Rightarrow> string \<Rightarrow> int" where
  "stake_units s h = (case getHold s h of None \<Rightarrow> 0 | Some x \<Rightarrow> units (ph_amount x))"

definition gate_good :: "database payment_gate \<Rightarrow> bool" where
  "gate_good s = (gate_ok account_ledger grid_accounts total_units s \<and> \<not> accounts_exists (pg_ledger s) NETWORK_BURN)"

lemma close_keeps_accounts: "accounts_exists (pg_ledger (close_hold account_ledger now i h p st ty s)) q = accounts_exists (pg_ledger s) q"
  using acc_ledger.add_exists [of now p "ph_amount h" "pg_ledger s" q]
  by (simp add: close_hold_def Let_def account_ledger_def)

lemma close_settles: "st \<noteq> held \<Longrightarrow> \<not> is_live (saveState (close_hold account_ledger now i h p st ty s)) i"
  by (simp add: is_live_def getHold_def saveState_def close_hold_def Let_def recordPaymentEvent_def)

interpretation node_stakes: stake_escrow account_gate gate_good is_live "wealth total_units" stake_units
proof unfold_locales
  fix s h now p
  assume "\<not> is_live s h"
  then show "fst (sg_refundPayment account_gate now h s) = s \<and> fst (sg_releasePayment account_gate now h p s) = s"
    by (auto simp: account_gate_def is_live_def getHold_def refundPayment_def releasePayment_def split: option.splits)
next
  fix s h now
  assume s: "gate_good s" "is_live s h"
  then obtain x where x: "jget (pg_holds s) h = Some x" "ph_status x = held" by (auto simp: is_live_def getHold_def split: option.splits)
  have refund: "sg_refundPayment account_gate now h s = (saveState (close_hold account_ledger now h x (ph_peerId x) refunded pt_refund s), True)"
    and release: "sg_releasePayment account_gate now h NETWORK_BURN s =
      (saveState (close_hold account_ledger now h x NETWORK_BURN released pt_earning s), True)"
    using x by (auto simp: account_gate_def refundPayment_def releasePayment_def)
  have ok: "gate_ok account_ledger grid_accounts total_units s" "\<not> accounts_exists (pg_ledger s) NETWORK_BURN"
    using s(1) by (simp_all add: gate_good_def)
  note r = acc_ledger.refund_wealth [OF ok(1) refund [unfolded account_gate_def, simplified]]
    and b = acc_ledger.release_wealth(1,2) [OF ok(1) release [unfolded account_gate_def, simplified]]
  have ex: "ll_exists account_ledger = accounts_exists" by (simp add: account_ledger_def)
  have keep: "accounts_exists (pg_ledger (saveState t)) q = accounts_exists (pg_ledger t) q" for t q by (simp add: saveState_def)
  show "gate_good (fst (sg_refundPayment account_gate now h s)) \<and> \<not> is_live (fst (sg_refundPayment account_gate now h s)) h \<and>
      wealth total_units (fst (sg_refundPayment account_gate now h s)) = wealth total_units s"
    using r ok(2) by (simp add: refund gate_good_def close_settles keep close_keeps_accounts)
  show "gate_good (fst (sg_releasePayment account_gate now h NETWORK_BURN s)) \<and>
      \<not> is_live (fst (sg_releasePayment account_gate now h NETWORK_BURN s)) h \<and>
      wealth total_units (fst (sg_releasePayment account_gate now h NETWORK_BURN s)) = wealth total_units s - stake_units s h"
    using b ok(2) x(1) by (simp add: release gate_good_def close_settles keep close_keeps_accounts stake_units_def getHold_def ex)
qed


definition staked :: "database payment_gate governance" where
  "staked = (GovernanceSync_new empty_tables demo_gate)\<lparr>gn_proposals :=
     [(''p1'', (demo_proposal code_change)\<lparr>gp_stakeAmount := Some 5, gp_stakeHoldId := Some ''pay-1''\<rparr>)]\<rparr>"


section \<open>Catch-up\<close>

text \<open>Equal votes and comments.\<close>

definition same_talk :: "'s governance \<Rightarrow> 's governance \<Rightarrow> bool" where
  "same_talk g h = (\<forall>i. votes_of g i = votes_of h i \<and> getComments g i = getComments h i)"

lemma same_talkI: "gn_votes g = gn_votes h \<Longrightarrow> gn_comments g = gn_comments h \<Longrightarrow> same_talk g h"
  by (simp add: same_talk_def votes_of_def getComments_def)

lemma same_talk_trans: "same_talk f g \<Longrightarrow> same_talk g h \<Longrightarrow> same_talk f h"
  by (simp add: same_talk_def)

lemma same_talk_refl [simp]: "same_talk g g"
  by (simp add: same_talk_def)

lemma same_talk_stores: "stores g = stores h \<Longrightarrow> same_talk g h"
  by (auto simp: stores_def intro: same_talkI)

lemma same_talk_fold: "(\<And>x h. same_talk (f x h) h) \<Longrightarrow> same_talk (fold f xs g) g"
  by (rule fold_invariant [where Q = "\<lambda>_. True" and P = "\<lambda>h. same_talk h g"]) (auto intro: same_talk_trans)

lemma sync_items_talk:
  assumes "sender \<noteq> ge_localPeerId E"
  shows "same_talk (sync_comment E sender acc c g) g" "same_talk (sync_vote E now peers sender acc v g) g"
    "same_talk (sync_decision E now acc d g) g"
proof -
  show "same_talk (sync_comment E sender acc c g) g"
    using assms by (auto simp: sync_comment_def handleComment_def truthy_def Let_def intro!: same_talk_stores)
  show "same_talk (sync_vote E now peers sender acc v g) g"
    using assms by (auto simp: sync_vote_def handleVote_def truthy_def Let_def intro!: same_talkI)
  have "gn_votes (handleDecision E now d g) = gn_votes g \<and> gn_comments (handleDecision E now d g) = gn_comments g"
    by (auto simp: handleDecision_def Let_def mark_def emit_event_def stmtInsertDecision_def set_status_def stmtUpdateProposalStatus_def
        stores_eq_fields [OF stores_bookkeeping(10)] split: option.splits)
  then show "same_talk (sync_decision E now acc d g) g" by (auto simp: sync_decision_def intro!: same_talkI)
qed

lemma store_proposal_talk: "same_talk (store_proposal p g) g"
  by (auto simp: same_talk_def store_proposal_def stmtInsertProposal_def votes_of_def getComments_def)

lemma finish_proposal_talk: "same_talk (finish_proposal E p g) g"
proof -
  have "same_talk (accept_proposal p h) h" for h
    unfolding accept_proposal_def Let_def by (rule same_talk_trans [OF same_talk_stores store_proposal_talk]) simp
  note a = this this [THEN same_talk_trans, OF same_talk_stores]
  show ?thesis by (auto simp: finish_proposal_def intro: a same_talk_stores)
qed

lemma sync_rest_talk: "sender \<noteq> ge_localPeerId E \<Longrightarrow> same_talk (sync_rest E now peers sender acc pay g) g"
  unfolding sync_rest_def Let_def
  by (intro same_talk_trans [OF same_talk_fold same_talk_trans [OF same_talk_fold same_talk_fold]] sync_items_talk)

lemma sync_proposals_talk: "sender \<noteq> ge_localPeerId E \<Longrightarrow> same_talk (sync_proposals E now peers sender t acc ps pay g) g"
  by (induction ps arbitrary: acc) (auto simp: Let_def sync_rest_talk intro: same_talk_stores)

text \<open>A comment offered by catch-up is remembered as processed and dropped.\<close>

lemma processed_mark [simp]: "processed k (mark l g) \<longleftrightarrow> k = l \<or> processed k g"
  by (auto simp: processed_def mark_def)

lemma unsigned_comment_is_marked:
  assumes "sender \<noteq> ge_localPeerId E" "gc_proposalId c \<in> set acc" "gc_id c \<noteq> []" "gc_proposalId c \<noteq> []"
  shows "processed (comment_key (gc_id c)) (sync_comment E sender acc c g)"
  using assms by (auto simp: sync_comment_def handleComment_def truthy_def Let_def)

text \<open>Catching up brings no votes and no comments. A response by another peer, and the awaited continuations of it, leave
  every vote and every comment as they were, since the handlers are given messages without a signature; the comment is
  however marked as processed, so that the signed original, whenever it arrives, is ignored.\<close>

lemma catch_up_brings_no_votes:
  assumes "sender \<noteq> ge_localPeerId E"
  shows "votes_of (handleSyncResponse E now peers sender pay g) i = votes_of g i
    \<and> getComments (handleSyncResponse E now peers sender pay g) i = getComments g i
    \<and> votes_of (continue_sync E now peers sender t acc p ps pay g) i = votes_of g i
    \<and> getComments (continue_sync E now peers sender t acc p ps pay g) i = getComments g i
    \<and> (gc_proposalId c \<in> set acc \<and> gc_id c \<noteq> [] \<and> gc_proposalId c \<noteq> [] \<longrightarrow>
       handleComment E m c (sync_comment E sender acc c g) = sync_comment E sender acc c g)"
proof -
  have "same_talk (continue_sync E now peers sender t acc p ps pay g) g"
    unfolding continue_sync_def Let_def
    by (rule same_talk_trans [OF sync_proposals_talk [OF assms]]) (simp add: finish_proposal_talk)
  moreover have "same_talk (handleSyncResponse E now peers sender pay g) g"
    unfolding handleSyncResponse_def by (rule sync_proposals_talk [OF assms])
  ultimately show ?thesis
    using unsigned_comment_is_marked [OF assms, of c acc g] by (auto simp: same_talk_def handleComment_def)
qed

definition ann_comment :: GovernanceComment where
  "ann_comment = \<lparr>gc_id = ''c1'', gc_proposalId = ''p1'', gc_from = ''ann'', gc_content = ''hello'', gc_createdAt = 7\<rparr>"

definition full_answer :: sync_payload where
  "full_answer = \<lparr>sy_proposals = [demo_proposal code_change], sy_comments = [ann_comment], sy_votes = [demo_vote ''ann'' approve], sy_decisions = []\<rparr>"

text \<open>The answer of the author herself brings the proposal and nothing else, and the comment is lost for good.\<close>

lemma catch_up_brings_no_votes_witness:
  "let g = resume_gov demo_gov 10 4 no_verdict 0 (handleSyncResponse demo_gov 10 4 ''ann'' full_answer (GovernanceSync_new empty_tables demo_gate))
   in jhas (gn_proposals g) ''p1'' \<and> votes_of g ''p1'' = [] \<and> getComments g ''p1'' = [] \<and>
      handleComment demo_gov (demo_msg (GOVERNANCE_COMMENT ann_comment) ''ann'') ann_comment
        (sync_comment demo_gov ''ann'' [''p1''] ann_comment (GovernanceSync_new empty_tables demo_gate)) =
      sync_comment demo_gov ''ann'' [''p1''] ann_comment (GovernanceSync_new empty_tables demo_gate)"
proof -
  have n: "''ann'' \<noteq> ge_localPeerId demo_gov" by (simp add: demo_gov_def)
  have "let g = resume_gov demo_gov 10 4 no_verdict 0 (handleSyncResponse demo_gov 10 4 ''ann'' full_answer (GovernanceSync_new empty_tables demo_gate))
   in jhas (gn_proposals g) ''p1'' \<and> votes_of g ''p1'' = [] \<and> getComments g ''p1'' = []" by code_simp
  then show ?thesis
    using catch_up_brings_no_votes [OF n, where c = ann_comment and acc = "[''p1'']" and m = "demo_msg (GOVERNANCE_COMMENT ann_comment) ''ann''"
        and g = "GovernanceSync_new empty_tables demo_gate"]
    by (simp add: Let_def ann_comment_def)
qed

section \<open>The archive\<close>

text \<open>A proposal with everything attached to it is as before.\<close>

definition kept :: "'s governance \<Rightarrow> 's governance \<Rightarrow> string \<Rightarrow> bool" where
  "kept g h i = (jget (gn_proposals h) i = jget (gn_proposals g) i \<and> votes_of h i = votes_of g i \<and>
     getComments h i = getComments g i \<and> getDecision h i = getDecision g i)"

definition shrinks :: "'s governance \<Rightarrow> 's governance \<Rightarrow> bool" where
  "shrinks g h = (jwf (gn_proposals h) \<and> (\<forall>i. jget (gn_proposals h) i = None \<or> kept g h i))"

lemma kept_refl [simp]: "kept g g i"
  by (simp add: kept_def)

lemma kept_trans: "kept f g i \<Longrightarrow> kept g h i \<Longrightarrow> kept f h i"
  by (simp add: kept_def)

lemma shrinks_refl: "jwf (gn_proposals g) \<Longrightarrow> shrinks g g"
  by (simp add: shrinks_def)

lemma shrinks_trans: "shrinks f g \<Longrightarrow> shrinks g h \<Longrightarrow> shrinks f h"
  unfolding shrinks_def kept_def by metis

lemma remove_kept: "i \<noteq> j \<Longrightarrow> kept g (removeProposalData j g) i"
  by (simp add: kept_def removeProposalData_def votes_of_def getComments_def getDecision_def)

lemma remove_gone: "gn_proposals (removeProposalData j g) = jdel j (gn_proposals g)"
  by (simp add: removeProposalData_def)

lemma remove_shrinks: "jwf (gn_proposals g) \<Longrightarrow> shrinks g (removeProposalData j g)"
  using remove_kept [of _ j g] by (auto simp: shrinks_def remove_gone)

lemma length_jdel: "jwf m \<Longrightarrow> jget m k = Some v \<Longrightarrow> Suc (length (jdel k m)) = length m"
  by (induction m) (auto simp: jwf_def jdel_fresh jhas_iff split: if_splits)

lemma archivable_kept: "kept g h i \<Longrightarrow> archivable c h i p = archivable c g i p"
  by (simp add: archivable_def kept_def)

lemma archive_fold:
  assumes "distinct (map fst es)" "\<And>i p. (i, p) \<in> set es \<Longrightarrow> jget (gn_proposals g) i = Some p" "jwf (gn_proposals g)"
  shows "shrinks g (fst (fold (archive_one c) es (g, n)))
    \<and> snd (fold (archive_one c) es (g, n)) + length (gn_proposals (fst (fold (archive_one c) es (g, n)))) = n + length (gn_proposals g)
    \<and> (\<forall>i. (\<forall>p. (i, p) \<in> set es \<longrightarrow> \<not> archivable c g i p) \<longrightarrow> kept g (fst (fold (archive_one c) es (g, n))) i)
    \<and> (\<forall>i p. (i, p) \<in> set es \<and> archivable c g i p \<longrightarrow> jget (gn_proposals (fst (fold (archive_one c) es (g, n)))) i = None)"
  using assms
proof (induction es arbitrary: g n)
  case (Cons e es)
  obtain i p where e: "e = (i, p)" by (cases e)
  have ip: "jget (gn_proposals g) i = Some p" and i: "i \<notin> fst ` set es" using Cons.prems e by auto
  show ?case
  proof (cases "archivable c g i p")
    case False
    with Cons.IH [of g n] Cons.prems show ?thesis by (auto simp: archive_one_def e)
  next
    case True
    let ?h = "removeProposalData i g"
    have k: "kept g ?h j" if "j \<noteq> i" for j using that by (rule remove_kept)
    have ih: "jget (gn_proposals ?h) j = Some q" if "(j, q) \<in> set es" for j q
      using that i Cons.prems(2) by (force simp: remove_gone)
    have jw: "jwf (gn_proposals ?h)" using Cons.prems(3) by (simp add: remove_gone)
    note IH = Cons.IH [of ?h "n + 1", OF _ ih jw]
    have f: "fold (archive_one c) (e # es) (g, n) = fold (archive_one c) es (?h, n + 1)" using True by (simp add: archive_one_def e)
    let ?r = "fst (fold (archive_one c) es (?h, n + 1))"
    have d: "distinct (map fst es)" using Cons.prems(1) by simp
    have "kept ?h ?r i" using IH [OF d] i by force
    then have gone: "jget (gn_proposals ?r) i = None" by (simp add: kept_def remove_gone)
    have a: "archivable c ?h j q = archivable c g j q" if "(j, q) \<in> set es" for j q
      using that i k [of j] archivable_kept [of g ?h j c q] by force
    have "kept g ?r j" if "\<forall>q. (j, q) \<in> set (e # es) \<longrightarrow> \<not> archivable c g j q" for j
    proof -
      have "j \<noteq> i" using that True e by auto
      moreover have "kept ?h ?r j" using IH [OF d] that a by auto
      ultimately show ?thesis using k kept_trans by blast
    qed
    moreover have "jget (gn_proposals ?r) j = None" if "(j, q) \<in> set (e # es)" "archivable c g j q" for j q
    proof (cases "(j, q) \<in> set es")
      case True
      then show ?thesis using that(2) a IH [OF d] by blast
    qed (use that gone e in auto)
    moreover have "shrinks g ?r" using IH [OF d] shrinks_trans [OF remove_shrinks [OF Cons.prems(3)]] by blast
    moreover have "Suc (length (gn_proposals ?h)) = length (gn_proposals g)"
      using length_jdel [OF Cons.prems(3) ip] by (simp add: remove_gone)
    ultimately show ?thesis using IH [OF d] unfolding f by auto
  qed
qed (simp add: shrinks_refl)

lemma evict_spec:
  assumes "distinct (map fst es)" "\<And>i p. (i, p) \<in> set es \<Longrightarrow> jget (gn_proposals g) i = Some p" "jwf (gn_proposals g)"
  shows "shrinks g (fst (evict es g))
    \<and> snd (evict es g) + length (gn_proposals (fst (evict es g))) = length (gn_proposals g)
    \<and> (\<forall>i. i \<notin> fst ` set es \<longrightarrow> kept g (fst (evict es g)) i)
    \<and> (length (gn_proposals (fst (evict es g))) \<le> MAX_PROPOSALS \<or> (\<forall>i \<in> fst ` set es. jget (gn_proposals (fst (evict es g))) i = None))"
  using assms
proof (induction es arbitrary: g)
  case (Cons e es)
  obtain i p where e: "e = (i, p)" by (cases e)
  show ?case
  proof (cases "length (gn_proposals g) \<le> MAX_PROPOSALS")
    case False
    let ?h = "removeProposalData i g"
    have ip: "jget (gn_proposals g) i = Some p" and i: "i \<notin> fst ` set es" using Cons.prems e by auto
    have ih: "jget (gn_proposals ?h) j = Some q" if "(j, q) \<in> set es" for j q
      using that i Cons.prems(2) by (force simp: remove_gone)
    have d: "distinct (map fst es)" using Cons.prems(1) by simp
    have jw: "jwf (gn_proposals ?h)" using Cons.prems(3) by (simp add: remove_gone)
    note IH = Cons.IH [of ?h, OF d ih jw]
    have f: "fst (evict (e # es) g) = fst (evict es ?h)" "snd (evict (e # es) g) = snd (evict es ?h) + 1"
      using False by (simp_all add: e split: prod.splits)
    let ?r = "fst (evict es ?h)"
    have "kept ?h ?r i" using IH i by blast
    then have gone: "jget (gn_proposals ?r) i = None" by (simp add: kept_def remove_gone)
    have "kept g ?r j" if "j \<notin> fst ` set (e # es)" for j
      using that IH kept_trans [OF remove_kept [of j i g], of ?r] by (auto simp: e)
    moreover have "shrinks g ?r" using IH shrinks_trans [OF remove_shrinks [OF Cons.prems(3)]] by blast
    moreover have "Suc (length (gn_proposals ?h)) = length (gn_proposals g)"
      using length_jdel [OF Cons.prems(3) ip] by (simp add: remove_gone)
    ultimately show ?thesis using IH gone unfolding f by (auto simp: e)
  qed (use Cons.prems in \<open>simp add: shrinks_refl\<close>)
qed (simp add: shrinks_refl)

lemma checkQuorum_keys: "map fst (gn_proposals (checkQuorum E now peers i g)) = map fst (gn_proposals g)"
  by (auto simp: checkQuorum_def stores_eqD(1) [OF stores_apply_decision] split: option.splits)

lemma expireIfNeeded_keys: "map fst (gn_proposals (expireIfNeeded E now peers i g)) = map fst (gn_proposals g)"
  by (auto simp: expireIfNeeded_def checkQuorum_keys stores_eq_fields(1) [OF stores_bookkeeping(10)]
      stores_eqD(1) [OF stores_set_status] split: option.splits)

lemma expire_all_keys: "map fst (gn_proposals (expire_all E now peers g)) = map fst (gn_proposals g)"
  unfolding expire_all_def
  by (rule fold_invariant [where Q = "\<lambda>_. True" and P = "\<lambda>h. map fst (gn_proposals h) = map fst (gn_proposals g)"])
    (auto simp: expireIfNeeded_keys)

lemma shrinks_get: "shrinks g h \<Longrightarrow> jget (gn_proposals h) i = Some p \<Longrightarrow> jget (gn_proposals g) i = Some p \<and> kept g h i"
  unfolding shrinks_def kept_def by (metis option.distinct(1))

lemma enforceProposalCap_spec:
  assumes jw: "jwf (gn_proposals g)"
  shows "shrinks g (fst (enforceProposalCap g))
    \<and> snd (enforceProposalCap g) + length (gn_proposals (fst (enforceProposalCap g))) = length (gn_proposals g)
    \<and> (\<forall>i p. jget (gn_proposals g) i = Some p \<and> is_open p \<longrightarrow> kept g (fst (enforceProposalCap g)) i)
    \<and> (length (gn_proposals (fst (enforceProposalCap g))) \<le> MAX_PROPOSALS
       \<or> (\<forall>i p. jget (gn_proposals (fst (enforceProposalCap g))) i = Some p \<longrightarrow> is_open p))"
proof (cases "length (gn_proposals g) \<le> MAX_PROPOSALS")
  case False
  let ?es = "sort_key (\<lambda>e. gp_createdAt (snd e)) (filter (\<lambda>e. \<not> is_open (snd e)) (gn_proposals g))"
  have "distinct (map fst (filter (\<lambda>e. \<not> is_open (snd e)) (gn_proposals g)))" using jw by (simp add: jwf_def distinct_map_filter)
  moreover have "mset (map fst ?es) = mset (map fst (filter (\<lambda>e. \<not> is_open (snd e)) (gn_proposals g)))" by simp
  ultimately have "distinct (map fst ?es)" using mset_eq_imp_distinct_iff by blast
  moreover have "jget (gn_proposals g) i = Some p" if "(i, p) \<in> set ?es" for i p using that jget_mem [OF jw] by simp
  ultimately have ev: "shrinks g (fst (evict ?es g)) \<and> snd (evict ?es g) + length (gn_proposals (fst (evict ?es g))) = length (gn_proposals g) \<and>
      (\<forall>i. i \<notin> fst ` set ?es \<longrightarrow> kept g (fst (evict ?es g)) i) \<and> (length (gn_proposals (fst (evict ?es g))) \<le> MAX_PROPOSALS \<or>
      (\<forall>i \<in> fst ` set ?es. jget (gn_proposals (fst (evict ?es g))) i = None))"
    by (intro evict_spec jw)
  then have sp: "shrinks g (fst (evict ?es g))"
    "snd (evict ?es g) + length (gn_proposals (fst (evict ?es g))) = length (gn_proposals g)"
    "\<And>i. i \<notin> fst ` set ?es \<Longrightarrow> kept g (fst (evict ?es g)) i"
    "length (gn_proposals (fst (evict ?es g))) \<le> MAX_PROPOSALS \<or> (\<forall>i \<in> fst ` set ?es. jget (gn_proposals (fst (evict ?es g))) i = None)"
    by (simp_all only: simp_thms)
  have mem: "i \<in> fst ` set ?es \<longleftrightarrow> \<not> is_open p" if "jget (gn_proposals g) i = Some p" for i p
  proof
    assume "i \<in> fst ` set ?es"
    then obtain q where "(i, q) \<in> set (gn_proposals g)" "\<not> is_open q" by auto
    with that jget_mem [OF jw] show "\<not> is_open p" by fastforce
  next
    assume "\<not> is_open p"
    then have "(i, p) \<in> set ?es" using jget_SomeD [OF that] by simp
    then show "i \<in> fst ` set ?es" by (rule image_eqI [rotated]) simp
  qed
  have cap: "enforceProposalCap g = evict ?es g" using False by (simp add: enforceProposalCap_def)
  have "is_open p" if "jget (gn_proposals (fst (evict ?es g))) i = Some p" "\<forall>i \<in> fst ` set ?es. jget (gn_proposals (fst (evict ?es g))) i = None" for i p
    using that mem shrinks_get [OF sp(1) that(1)] by (metis option.distinct(1))
  then show ?thesis unfolding cap using sp mem by blast
qed (use jw in \<open>simp add: enforceProposalCap_def shrinks_refl\<close>)

text \<open>The archive keeps what is open and bounds the rest. After expiring what is due, every proposal that is active or in
  review stays with its votes, comments and decision; what stays is unchanged; a closed proposal that stays is
  younger than the age limit and, if expired, has votes; at most 500 proposals stay unless all that stay are open; and the
  number returned is the number removed.\<close>

lemma archive_keeps_open_proposals:
  assumes "jwf (gn_proposals g)" "archiveExpiredProposals E now peers maxAge g = (g', n)"
  defines "g1 \<equiv> expire_all E now peers g"
  shows "(jget (gn_proposals g1) i = Some p \<and> is_open p \<longrightarrow> jget (gn_proposals g') i = Some p)
    \<and> (jget (gn_proposals g') i = Some q \<longrightarrow> kept g1 g' i \<and>
        (is_open q \<or> now - maxAge < gp_createdAt q \<and> (gp_status q = st_expired \<longrightarrow> votes_of g' i \<noteq> [])))
    \<and> (length (gn_proposals g') \<le> MAX_PROPOSALS \<or> (\<forall>j r. jget (gn_proposals g') j = Some r \<longrightarrow> is_open r))
    \<and> n + length (gn_proposals g') = length (gn_proposals g)"
proof -
  have jw: "jwf (gn_proposals g1)" using assms(1) by (simp add: g1_def jwf_def expire_all_keys)
  obtain g2 m where f: "fold (archive_one (now - maxAge)) (gn_proposals g1) (g1, 0) = (g2, m)" by force
  have a: "shrinks g1 g2" "m + length (gn_proposals g2) = length (gn_proposals g1)"
    "\<And>j. (\<And>r. (j, r) \<in> set (gn_proposals g1) \<Longrightarrow> \<not> archivable (now - maxAge) g1 j r) \<Longrightarrow> kept g1 g2 j"
    "\<And>j r. (j, r) \<in> set (gn_proposals g1) \<Longrightarrow> archivable (now - maxAge) g1 j r \<Longrightarrow> jget (gn_proposals g2) j = None"
    using archive_fold [of "gn_proposals g1" g1 "now - maxAge" 0] jw jget_mem [OF jw] f by (auto simp: jwf_def)
  obtain k where c: "enforceProposalCap g2 = (g', k)" "n = m + k"
    using assms(2) f by (auto simp: archiveExpiredProposals_def g1_def [symmetric] Let_def split: prod.splits)
  note cap = enforceProposalCap_spec [of g2, unfolded c fst_conv snd_conv]
  have jw2: "jwf (gn_proposals g2)" using a(1) by (simp add: shrinks_def)
  have op: "jget (gn_proposals g') i = Some p" if p: "jget (gn_proposals g1) i = Some p" "is_open p"
  proof -
    have "\<not> archivable (now - maxAge) g1 i r" if "(i, r) \<in> set (gn_proposals g1)" for r
      using jget_mem [OF jw that] p by (simp add: archivable_def)
    from a(3) [OF this] have "jget (gn_proposals g2) i = Some p" using p by (simp add: kept_def)
    then show ?thesis using cap [OF jw2] p(2) unfolding kept_def by (metis)
  qed
  have st: "kept g1 g' i \<and> \<not> archivable (now - maxAge) g1 i q" if q: "jget (gn_proposals g') i = Some q"
  proof -
    have 2: "jget (gn_proposals g2) i = Some q" "kept g2 g' i" using cap [OF jw2] shrinks_get q by blast+
    have 1: "jget (gn_proposals g1) i = Some q" "kept g1 g2 i" using a(1) shrinks_get 2(1) by blast+
    show ?thesis using kept_trans [OF 1(2) 2(2)] a(4) [OF jget_SomeD [OF 1(1)]] 2(1) by auto
  qed
  have "length (gn_proposals g1) = length (gn_proposals g)" using arg_cong [OF expire_all_keys, of length] by (simp add: g1_def)
  then have "n + length (gn_proposals g') = length (gn_proposals g)" using cap [OF jw2] a(2) c(2) by linarith
  then show ?thesis using op st cap [OF jw2] by (auto simp: archivable_def kept_def)
qed

definition three_proposals :: "database payment_gate governance" where
  "three_proposals = (GovernanceSync_new empty_tables demo_gate)\<lparr>gn_proposals :=
     [(''p1'', demo_proposal social), (''p2'', (demo_proposal social)\<lparr>gp_id := ''p2'', gp_votingEndsAt := 4000\<rparr>),
      (''p3'', (demo_proposal social)\<lparr>gp_id := ''p3'', gp_status := st_passed\<rparr>)]\<rparr>"

text \<open>The first proposal has expired without votes and goes, the others stay.\<close>

lemma archive_keeps_open_proposals_witness:
  "map fst (gn_proposals (fst (archiveExpiredProposals demo_gov 1000 4 ARCHIVE_AGE_MS three_proposals))) = [''p2'', ''p3''] \<and>
   snd (archiveExpiredProposals demo_gov 1000 4 ARCHIVE_AGE_MS three_proposals) +
     length (gn_proposals (fst (archiveExpiredProposals demo_gov 1000 4 ARCHIVE_AGE_MS three_proposals))) = 3"
proof -
  have "jwf (gn_proposals three_proposals)" "length (gn_proposals three_proposals) = 3" by code_simp+
  moreover have "map fst (gn_proposals (fst (archiveExpiredProposals demo_gov 1000 4 ARCHIVE_AGE_MS three_proposals))) = [''p2'', ''p3'']"
    by code_simp
  ultimately show ?thesis
    using archive_keeps_open_proposals [of three_proposals demo_gov 1000 4 ARCHIVE_AGE_MS, OF _ surjective_pairing] by simp
qed

section \<open>Weaknesses\<close>

text \<open>A message without a signature that claims to come from the node itself counts as its vote.\<close>

lemma own_vote_can_be_forged:
  "let m = \<lparr>gm_from = ''me'', gm_timestamp = 6, gm_payload = GOVERNANCE_VOTE (demo_vote ''me'' approve), gm_signature = None\<rparr>;
       g = handleGovernanceMessage demo_gov 10 4 m (open_vote social [])
   in map_option gp_status (jget (gn_proposals g) ''p1'') = Some st_passed"
  by code_simp

text \<open>Anybody can name the hold of somebody else's payment as the stake of an unsigned proposal and burn it with one vote.\<close>

lemma foreign_hold_is_burned:
  "let p = (demo_proposal social)\<lparr>gp_proposedBy := ''eve'', gp_proposerSignature := None, gp_stakeAmount := Some 1, gp_stakeHoldId := Some ''pay-1''\<rparr>;
       g = deliver (demo_msg (GOVERNANCE_VOTE (demo_vote ''eve'' reject)) ''eve'')
             (handleGovernanceMessage demo_gov 10 4 (demo_msg (GOVERNANCE_PROPOSAL p) ''eve'') (GovernanceSync_new empty_tables demo_gate))
   in is_live demo_gate ''pay-1'' \<and> \<not> is_live (gn_world g) ''pay-1'' \<and>
      wealth total_units (gn_world g) = wealth total_units demo_gate - stake_units demo_gate ''pay-1''"
  by code_simp

text \<open>A vote on a proposal nobody has made is rewarded.\<close>

lemma vote_on_nothing_is_rewarded:
  "let g = deliver (demo_msg (GOVERNANCE_VOTE ((demo_vote ''bob'' approve)\<lparr>gv_proposalId := ''none''\<rparr>)) ''bob'')
             (GovernanceSync_new empty_tables demo_gate)
   in gn_proposals g = [] \<and> getBalance (pg_ledger demo_gate) ''bob'' < getBalance (pg_ledger (gn_world g)) ''bob''"
  by code_simp

text \<open>A copy of a proposal with a wrong signature blocks the genuine one.\<close>

lemma forged_copy_blocks_proposal:
  "let bad = (demo_proposal social)\<lparr>gp_proposerSignature := Some ''x''\<rparr>;
       g = deliver (demo_msg (GOVERNANCE_PROPOSAL (demo_proposal social)) ''ann'')
             (deliver (demo_msg (GOVERNANCE_PROPOSAL bad) ''eve'') (GovernanceSync_new empty_tables demo_gate))
   in gn_proposals g = []"
  by code_simp

text \<open>Votes cleared by a resubmission are back after a restart.\<close>

lemma cleared_votes_return:
  "let p = (demo_proposal social)\<lparr>gp_status := st_revision_requested, gp_proposerSignature := None, gp_votingEndsAt := 9000\<rparr>;
       g0 = store_vote (demo_vote ''ben'' reject) (handleProposal demo_gov p (GovernanceSync_new empty_tables demo_gate));
       g1 = fst (resubmitProposal demo_gov 20 ''p1'' None g0);
       g2 = gov_start demo_gov 30 4 (GovernanceSync_new (gn_db g1) (gn_world g1))
   in votes_of g1 ''p1'' = [] \<and> length (votes_of g2 ''p1'') = 1"
  by code_simp

text \<open>A proposal on which everybody abstained stays active after its voting period.\<close>

lemma abstained_proposal_never_expires:
  "map_option gp_status (jget (gn_proposals (expireIfNeeded demo_gov 5000 1 ''p1'' (open_vote social [abstain, abstain]))) ''p1'') = Some st_active"
  by code_simp

end
