(* ===== verification/TaskDatabase.thy ===== *)
theory TaskDatabase
  imports Types
begin

text \<open>
  \<^verbatim>\<open>TaskDatabase\<close> (\<^verbatim>\<open>packages/node/src/platform/task-database.ts\<close>) and the task types of \<^verbatim>\<open>task-queue.ts\<close>: tasks in one
  table, their files, dependencies, children, timeline and thread in others. A nullable column is an option; the four
  columns of the role, always written together, are one optional record; JSON columns hold the value itself. Rows that
  SQL returns in no stated order come in the order of insertion. A status or priority that arrives from the network is an unchecked string, for which the last
  constructor stands.
\<close>

section \<open>Types\<close>

datatype TaskPriority = tp_critical | tp_high | tp_medium | tp_low | tp_other string

datatype TaskStatus =
    ts_open | ts_claimed | ts_in_progress | ts_review | ts_done | ts_rejected | ts_archived | ts_expired | ts_other string

record TaskResult =
  rs_commitHash :: "string option"
  rs_buildPassed :: "bool option"
  rs_testsPassed :: "bool option"
  rs_approved :: "bool option"
  rs_approvedBy :: "string option"
  rs_note :: "string option"

datatype meta_value = md_text string | md_int int | md_bool bool | md_texts "string list"

record TaskTimelineEvent =
  te_timestamp :: string
  te_event :: string
  te_detail :: string
  te_metadata :: "(string \<times> meta_value) list option"

record TaskRoleMetadata =
  rm_roleId :: string
  rm_responsibility :: string
  rm_projectId :: string
  rm_verificationNeeded :: bool

record TaskCost =
  tc_inputTokens :: "int option"
  tc_outputTokens :: "int option"
  tc_costUsd :: "number option"
  tc_durationMs :: "int option"
  tc_tier :: "string option"
  tc_model :: "string option"

record ThreadMessage =
  tm_id :: string
  tm_taskId :: string
  tm_from :: peer_id
  tm_role :: string
  tm_content :: string
  tm_createdAt :: time

record Task =
  tk_id :: string
  tk_title :: string
  tk_description :: string
  tk_priority :: TaskPriority
  tk_status :: TaskStatus
  tk_createdBy :: string
  tk_assignedTo :: "string option"
  tk_files :: "string list"
  tk_dependencies :: "string list"
  tk_createdAt :: time
  tk_updatedAt :: time
  tk_result :: "TaskResult option"
  tk_origin :: "peer_id option"
  tk_timeline :: "TaskTimelineEvent list"
  tk_parentTask :: "string option"
  tk_childTasks :: "string list"
  tk_roleMetadata :: "TaskRoleMetadata option"
  tk_claimedByNode :: "peer_id option"
  tk_claimedAt :: "time option"
  tk_originNode :: "peer_id option"
  tk_executedByNode :: "peer_id option"
  tk_cost :: "TaskCost option"
  tk_proposalId :: "string option"
  tk_qaTier :: "string option"
  tk_thread :: "ThreadMessage list"
  tk_requiredCapabilities :: "string list option"
  tk_requiredResources :: "string list option"
  tk_managerId :: "string option"

text \<open>A row of the table \<^verbatim>\<open>tasks\<close>; there is no column for the required resources.\<close>

record task_row =
  tr_title :: string
  tr_description :: string
  tr_status :: TaskStatus
  tr_priority :: TaskPriority
  tr_created_by :: string
  tr_assigned_to :: "string option"
  tr_created_at :: time
  tr_updated_at :: time
  tr_origin :: "peer_id option"
  tr_origin_node :: "peer_id option"
  tr_claimed_by_node :: "peer_id option"
  tr_claimed_at :: "time option"
  tr_executed_by_node :: "peer_id option"
  tr_parent_task :: "string option"
  tr_proposal_id :: "string option"
  tr_qa_tier :: "string option"
  tr_required_capabilities :: "string list option"
  tr_manager_id :: "string option"
  tr_result :: TaskResult
  tr_cost :: TaskCost
  tr_role :: "TaskRoleMetadata option"

record task_db =
  td_tasks :: "(string, task_row) jsmap"
  td_files :: "(string \<times> string) list"
  td_dependencies :: "(string \<times> string) list"
  td_children :: "(string \<times> string) list"
  td_timeline :: "(string \<times> TaskTimelineEvent) list"
  td_thread :: "(string, ThreadMessage) jsmap"

definition empty_task_db :: task_db where
  "empty_task_db = \<lparr>td_tasks = [], td_files = [], td_dependencies = [], td_children = [], td_timeline = [], td_thread = []\<rparr>"

definition no_result :: TaskResult where
  "no_result = \<lparr>rs_commitHash = None, rs_buildPassed = None, rs_testsPassed = None, rs_approved = None, rs_approvedBy = None, rs_note = None\<rparr>"

definition no_cost :: TaskCost where
  "no_cost = \<lparr>tc_inputTokens = None, tc_outputTokens = None, tc_costUsd = None, tc_durationMs = None, tc_tier = None, tc_model = None\<rparr>"

section \<open>Relations\<close>

text \<open>\<^verbatim>\<open>SELECT b FROM t WHERE a = ?\<close>, and \<^verbatim>\<open>DELETE ... WHERE a = ?\<close> followed by \<^verbatim>\<open>INSERT OR IGNORE\<close> of the pairs.\<close>

definition related :: "('a \<times> 'b) list \<Rightarrow> 'a \<Rightarrow> 'b list" where
  "related t a = map snd (filter (\<lambda>e. fst e = a) t)"

definition set_related :: "'a \<Rightarrow> 'b list \<Rightarrow> ('a \<times> 'b) list \<Rightarrow> ('a \<times> 'b) list" where
  "set_related a bs t = fold (\<lambda>b. sadd (a, b)) bs (filter (\<lambda>e. fst e \<noteq> a) t)"

definition drop_related :: "'a \<Rightarrow> ('a \<times> 'b) list \<Rightarrow> ('a \<times> 'b) list" where
  "drop_related a t = filter (\<lambda>e. fst e \<noteq> a) t"

definition setFiles :: "string \<Rightarrow> string list \<Rightarrow> task_db \<Rightarrow> task_db" where
  "setFiles i fs d = d\<lparr>td_files := set_related i fs (td_files d)\<rparr>"

definition getFiles :: "task_db \<Rightarrow> string \<Rightarrow> string list" where
  "getFiles d i = related (td_files d) i"

definition setDependencies :: "string \<Rightarrow> string list \<Rightarrow> task_db \<Rightarrow> task_db" where
  "setDependencies i ds d = d\<lparr>td_dependencies := set_related i ds (td_dependencies d)\<rparr>"

definition getDependencies :: "task_db \<Rightarrow> string \<Rightarrow> string list" where
  "getDependencies d i = related (td_dependencies d) i"

definition setChildren :: "string \<Rightarrow> string list \<Rightarrow> task_db \<Rightarrow> task_db" where
  "setChildren i cs d = d\<lparr>td_children := set_related i cs (td_children d)\<rparr>"

definition getChildren :: "task_db \<Rightarrow> string \<Rightarrow> string list" where
  "getChildren d i = related (td_children d) i"

definition insertTimelineEvent :: "string \<Rightarrow> TaskTimelineEvent \<Rightarrow> task_db \<Rightarrow> task_db" where
  "insertTimelineEvent i e d = d\<lparr>td_timeline := td_timeline d @ [(i, e)]\<rparr>"

definition getTimeline :: "task_db \<Rightarrow> string \<Rightarrow> TaskTimelineEvent list" where
  "getTimeline d i = related (td_timeline d) i"

definition hasTimelineEvent :: "task_db \<Rightarrow> string \<Rightarrow> string \<Rightarrow> string \<Rightarrow> bool" where
  "hasTimelineEvent d i stamp event = list_ex (\<lambda>e. te_timestamp e = stamp \<and> te_event e = event) (getTimeline d i)"

definition insertThreadMessage :: "ThreadMessage \<Rightarrow> task_db \<Rightarrow> task_db" where
  "insertThreadMessage m d = (if jhas (td_thread d) (tm_id m) then d else d\<lparr>td_thread := td_thread d @ [(tm_id m, m)]\<rparr>)"

definition getThread :: "task_db \<Rightarrow> string \<Rightarrow> ThreadMessage list" where
  "getThread d i = sort_key tm_createdAt (filter (\<lambda>m. tm_taskId m = i) (jvals (td_thread d)))"

section \<open>Rows\<close>

definition taskToRow :: "Task \<Rightarrow> task_row" where
  "taskToRow t =
     \<lparr>tr_title = tk_title t, tr_description = tk_description t, tr_status = tk_status t, tr_priority = tk_priority t,
      tr_created_by = tk_createdBy t, tr_assigned_to = tk_assignedTo t, tr_created_at = tk_createdAt t, tr_updated_at = tk_updatedAt t,
      tr_origin = tk_origin t, tr_origin_node = tk_originNode t, tr_claimed_by_node = tk_claimedByNode t, tr_claimed_at = tk_claimedAt t,
      tr_executed_by_node = tk_executedByNode t, tr_parent_task = tk_parentTask t, tr_proposal_id = tk_proposalId t,
      tr_qa_tier = tk_qaTier t, tr_required_capabilities = tk_requiredCapabilities t, tr_manager_id = tk_managerId t,
      tr_result = (case tk_result t of None \<Rightarrow> no_result | Some r \<Rightarrow> r), tr_cost = (case tk_cost t of None \<Rightarrow> no_cost | Some c \<Rightarrow> c),
      tr_role = tk_roleMetadata t\<rparr>"

definition present :: "string option \<Rightarrow> string option" where
  "present s = (if truthy s then s else None)"

definition rowToTask :: "task_db \<Rightarrow> string \<Rightarrow> task_row \<Rightarrow> Task" where
  "rowToTask d i r =
     \<lparr>tk_id = i, tk_title = tr_title r, tk_description = tr_description r, tk_priority = tr_priority r, tk_status = tr_status r,
      tk_createdBy = tr_created_by r, tk_assignedTo = present (tr_assigned_to r), tk_files = getFiles d i,
      tk_dependencies = getDependencies d i, tk_createdAt = tr_created_at r, tk_updatedAt = tr_updated_at r,
      tk_result = (if tr_result r = no_result then None else Some (tr_result r)), tk_origin = present (tr_origin r),
      tk_timeline = [], tk_parentTask = present (tr_parent_task r), tk_childTasks = getChildren d i, tk_roleMetadata = tr_role r,
      tk_claimedByNode = present (tr_claimed_by_node r), tk_claimedAt = (if tr_claimed_at r = Some 0 then None else tr_claimed_at r),
      tk_originNode = present (tr_origin_node r), tk_executedByNode = present (tr_executed_by_node r),
      tk_cost = (if tr_cost r = no_cost then None else Some (tr_cost r)), tk_proposalId = present (tr_proposal_id r),
      tk_qaTier = present (tr_qa_tier r), tk_thread = [], tk_requiredCapabilities = tr_required_capabilities r,
      tk_requiredResources = None, tk_managerId = present (tr_manager_id r)\<rparr>"

definition assembleFullTask :: "task_db \<Rightarrow> string \<Rightarrow> task_row \<Rightarrow> Task" where
  "assembleFullTask d i r = (rowToTask d i r)\<lparr>tk_timeline := getTimeline d i, tk_thread := getThread d i\<rparr>"

section \<open>Insertion, look-up and update\<close>

definition insertTask :: "Task \<Rightarrow> task_db \<Rightarrow> task_db" where
  "insertTask t d = (if jhas (td_tasks d) (tk_id t) then d else d\<lparr>td_tasks := td_tasks d @ [(tk_id t, taskToRow t)]\<rparr>)"

definition td_getTask :: "task_db \<Rightarrow> string \<Rightarrow> Task option" where
  "td_getTask d i = map_option (assembleFullTask d i) (jget (td_tasks d) i)"

definition td_exists :: "task_db \<Rightarrow> string \<Rightarrow> bool" where
  "td_exists d i = jhas (td_tasks d) i"

text \<open>Every update sets \<^verbatim>\<open>updated_at\<close> to the current time, whether the caller passes it or not.\<close>

definition updateTask :: "time \<Rightarrow> string \<Rightarrow> (task_row \<Rightarrow> task_row) \<Rightarrow> task_db \<Rightarrow> task_db" where
  "updateTask now i f d = d\<lparr>td_tasks := jupd i (\<lambda>r. (f r)\<lparr>tr_updated_at := now\<rparr>) (td_tasks d)\<rparr>"

fun priority_rank :: "TaskPriority \<Rightarrow> nat" where
  "priority_rank tp_critical = 0"
| "priority_rank tp_high = 1"
| "priority_rank tp_medium = 2"
| "priority_rank tp_low = 3"
| "priority_rank (tp_other _) = 4"

text \<open>\<^verbatim>\<open>ORDER BY\<close> rank of the priority, then time of creation.\<close>

definition by_priority :: "(string \<times> task_row) list \<Rightarrow> (string \<times> task_row) list" where
  "by_priority es = sort_key (\<lambda>e. priority_rank (tr_priority (snd e))) (sort_key (\<lambda>e. tr_created_at (snd e)) es)"

definition is_active_status :: "TaskStatus \<Rightarrow> bool" where
  "is_active_status s = (s = ts_claimed \<or> s = ts_in_progress)"

definition is_pending_status :: "TaskStatus \<Rightarrow> bool" where
  "is_pending_status s = (s = ts_open \<or> s = ts_claimed \<or> s = ts_in_progress)"

definition td_rows :: "(task_row \<Rightarrow> bool) \<Rightarrow> task_db \<Rightarrow> (string \<times> task_row) list" where
  "td_rows P d = filter (\<lambda>e. P (snd e)) (td_tasks d)"

record task_query =
  qu_status :: "TaskStatus list option"
  qu_priority :: "TaskPriority option"
  qu_assignedTo :: "string option"
  qu_limit :: "nat option"

definition query_matches :: "task_query \<Rightarrow> task_row \<Rightarrow> bool" where
  "query_matches q r =
     ((case qu_status q of Some ss \<Rightarrow> tr_status r \<in> set ss | None \<Rightarrow> tr_status r \<noteq> ts_archived \<and> tr_status r \<noteq> ts_expired) \<and>
      (case qu_priority q of Some p \<Rightarrow> tr_priority r = p | None \<Rightarrow> True) \<and>
      (truthy (qu_assignedTo q) \<longrightarrow> tr_assigned_to r = qu_assignedTo q))"

definition limited :: "nat option \<Rightarrow> 'a list \<Rightarrow> 'a list" where
  "limited n xs = (case n of None \<Rightarrow> xs | Some k \<Rightarrow> if k = 0 then xs else take k xs)"

definition td_getTasks :: "task_query \<Rightarrow> task_db \<Rightarrow> Task list" where
  "td_getTasks q d = map (\<lambda>e. rowToTask d (fst e) (snd e)) (limited (qu_limit q) (by_priority (td_rows (query_matches q) d)))"

definition open_tasks :: "task_db \<Rightarrow> Task list" where
  "open_tasks d = td_getTasks \<lparr>qu_status = Some [ts_open], qu_priority = None, qu_assignedTo = None, qu_limit = None\<rparr> d"

definition getLockedFiles :: "task_db \<Rightarrow> string list" where
  "getLockedFiles d = map snd (filter (\<lambda>e. case jget (td_tasks d) (fst e) of None \<Rightarrow> False | Some r \<Rightarrow> is_active_status (tr_status r)) (td_files d))"

definition getConflictingFiles :: "task_db \<Rightarrow> string list \<Rightarrow> string option" where
  "getConflictingFiles d fs = find (\<lambda>f. f \<in> set (getLockedFiles d)) fs"

definition is_done :: "task_db \<Rightarrow> string \<Rightarrow> bool" where
  "is_done d i = (case jget (td_tasks d) i of None \<Rightarrow> False | Some r \<Rightarrow> tr_status r = ts_done)"

definition getUnmetDependency :: "task_db \<Rightarrow> string \<Rightarrow> string option" where
  "getUnmetDependency d i = find (\<lambda>x. \<not> is_done d x) (getDependencies d i)"

definition areDependenciesMet :: "task_db \<Rightarrow> string \<Rightarrow> bool" where
  "areDependenciesMet d i =
     (let ds = getDependencies d i in ds = [] \<or> length (filter (\<lambda>e. fst e \<in> set ds \<and> tr_status (snd e) = ts_done) (td_tasks d)) = length ds)"

definition elsewhere :: "peer_id option \<Rightarrow> Task \<Rightarrow> bool" where
  "elsewhere self t = (truthy (tk_claimedByNode t) \<and> truthy self \<and> tk_claimedByNode t \<noteq> self)"

definition claimable :: "task_db \<Rightarrow> peer_id option \<Rightarrow> Task \<Rightarrow> bool" where
  "claimable d self t =
     (\<not> list_ex (\<lambda>f. f \<in> set (getLockedFiles d)) (tk_files t) \<and> list_all (is_done d) (tk_dependencies t) \<and> \<not> elsewhere self t)"

definition td_getNextClaimable :: "peer_id option \<Rightarrow> task_db \<Rightarrow> Task option" where
  "td_getNextClaimable self d = find (claimable d self) (open_tasks d)"

definition td_getClaimedTasks :: "string \<Rightarrow> task_db \<Rightarrow> Task list" where
  "td_getClaimedTasks agent d =
     map (\<lambda>e. rowToTask d (fst e) (snd e)) (by_priority (td_rows (\<lambda>r. tr_assigned_to r = Some agent \<and> is_active_status (tr_status r)) d))"

definition td_getActiveTasks :: "task_db \<Rightarrow> Task list" where
  "td_getActiveTasks d = map (\<lambda>e. assembleFullTask d (fst e) (snd e))
     (sort_key (\<lambda>e. tr_created_at (snd e)) (td_rows (\<lambda>r. is_pending_status (tr_status r)) d))"

definition getActiveTasksForDedup :: "task_db \<Rightarrow> Task list" where
  "getActiveTasksForDedup d = map (\<lambda>e. rowToTask d (fst e) (snd e)) (td_rows (\<lambda>r. is_pending_status (tr_status r)) d)"

definition findByProposalId :: "string \<Rightarrow> task_db \<Rightarrow> Task option" where
  "findByProposalId p d = map_option (\<lambda>e. rowToTask d (fst e) (snd e)) (find (\<lambda>e. tr_proposal_id (snd e) = Some p) (td_tasks d))"

definition td_getArchivedTasks :: "nat \<Rightarrow> task_db \<Rightarrow> Task list" where
  "td_getArchivedTasks n d = map (\<lambda>e. rowToTask d (fst e) (snd e))
     (take n (sort_key (\<lambda>e. - tr_updated_at (snd e)) (td_rows (\<lambda>r. tr_status r = ts_archived) d)))"

definition getAllTasks :: "task_db \<Rightarrow> Task list" where
  "getAllTasks d = map (\<lambda>e. rowToTask d (fst e) (snd e))
     (by_priority (td_rows (\<lambda>r. tr_status r \<noteq> ts_archived \<and> tr_status r \<noteq> ts_expired) d))"

definition td_getStats :: "task_db \<Rightarrow> nat \<times> (TaskStatus \<times> nat) list" where
  "td_getStats d = (length (td_tasks d),
     map (\<lambda>s. (s, length (td_rows (\<lambda>r. tr_status r = s) d))) (remdups (map (\<lambda>e. tr_status (snd e)) (td_tasks d))))"

record cost_stats =
  cs_totalCostUsd :: number
  cs_totalInputTokens :: int
  cs_totalOutputTokens :: int
  cs_totalDurationMs :: int
  cs_taskCount :: nat
  cs_byTier :: "(string \<times> nat \<times> number \<times> int) list"

definition given_int :: "int option \<Rightarrow> int" where
  "given_int x = (case x of None \<Rightarrow> 0 | Some n \<Rightarrow> n)"

definition cost_tier :: "TaskCost \<Rightarrow> string" where
  "cost_tier c = (case tc_tier c of None \<Rightarrow> ''unknown'' | Some t \<Rightarrow> t)"

definition sum_ints :: "(TaskCost \<Rightarrow> int option) \<Rightarrow> TaskCost list \<Rightarrow> int" where
  "sum_ints f cs = sum_list (map (\<lambda>c. given_int (f c)) cs)"

text \<open>\<open>sqlsum\<close> is the \<^verbatim>\<open>SUM\<close> of SQLite over the floating-point costs, zero where there is none.\<close>

definition td_getCostStats :: "(number list \<Rightarrow> number) \<Rightarrow> task_db \<Rightarrow> cost_stats" where
  "td_getCostStats sqlsum d =
     (let cs = map (\<lambda>e. tr_cost (snd e)) (td_rows (\<lambda>r. tc_costUsd (tr_cost r) \<noteq> None \<or> tc_inputTokens (tr_cost r) \<noteq> None) d);
          usd = (\<lambda>xs. sqlsum (List.map_filter tc_costUsd xs))
      in \<lparr>cs_totalCostUsd = usd cs, cs_totalInputTokens = sum_ints tc_inputTokens cs, cs_totalOutputTokens = sum_ints tc_outputTokens cs,
          cs_totalDurationMs = sum_ints tc_durationMs cs, cs_taskCount = length cs,
          cs_byTier = map (\<lambda>t. let xs = filter (\<lambda>c. cost_tier c = t) cs
            in (t, length xs, usd xs, sum_ints tc_inputTokens xs + sum_ints tc_outputTokens xs)) (remdups (map cost_tier cs))\<rparr>)"

section \<open>Archive and clean-up\<close>

text \<open>\<^verbatim>\<open>UPDATE tasks SET ... WHERE P\<close> with the number of changed rows.\<close>

definition update_where :: "(task_row \<Rightarrow> bool) \<Rightarrow> (task_row \<Rightarrow> task_row) \<Rightarrow> task_db \<Rightarrow> task_db \<times> nat" where
  "update_where P f d = (d\<lparr>td_tasks := map (\<lambda>e. if P (snd e) then (fst e, f (snd e)) else e) (td_tasks d)\<rparr>, length (td_rows P d))"

definition archiveTasks :: "time \<Rightarrow> time \<Rightarrow> task_db \<Rightarrow> task_db \<times> nat" where
  "archiveTasks now olderThanMs d =
     update_where (\<lambda>r. (tr_status r = ts_done \<or> tr_status r = ts_rejected) \<and> tr_updated_at r < now - olderThanMs)
       (\<lambda>r. r\<lparr>tr_status := ts_archived, tr_updated_at := now\<rparr>) d"

definition HOUR_MS :: time where "HOUR_MS = 60 * 60 * 1000"

definition expire_open :: "time \<Rightarrow> task_db \<Rightarrow> task_db \<times> nat" where
  "expire_open now = update_where (\<lambda>r. tr_status r = ts_open \<and> tr_created_at r < now - 48 * HOUR_MS)
     (\<lambda>r. r\<lparr>tr_status := ts_expired, tr_updated_at := now\<rparr>)"

text \<open>A comparison with NULL is not true.\<close>

definition sql_test :: "(time \<Rightarrow> bool) \<Rightarrow> time option \<Rightarrow> bool" where
  "sql_test P t = (case t of None \<Rightarrow> False | Some x \<Rightarrow> P x)"

definition reset_claimed :: "time \<Rightarrow> task_db \<Rightarrow> task_db \<times> nat" where
  "reset_claimed now = update_where (\<lambda>r. tr_status r = ts_claimed \<and> sql_test (\<lambda>t. t < now - 2 * HOUR_MS) (tr_claimed_at r))
     (\<lambda>r. r\<lparr>tr_status := ts_open, tr_claimed_by_node := None, tr_claimed_at := None, tr_assigned_to := None, tr_updated_at := now\<rparr>)"

definition reset_in_progress :: "time \<Rightarrow> task_db \<Rightarrow> task_db \<times> nat" where
  "reset_in_progress now = update_where (\<lambda>r. tr_status r = ts_in_progress \<and> tr_updated_at r < now - 4 * HOUR_MS)
     (\<lambda>r. r\<lparr>tr_status := ts_open, tr_claimed_by_node := None, tr_claimed_at := None, tr_assigned_to := None,
       tr_executed_by_node := None, tr_updated_at := now\<rparr>)"

definition delete_task :: "string \<Rightarrow> task_db \<Rightarrow> task_db" where
  "delete_task i d = \<lparr>td_tasks = jdel i (td_tasks d), td_files = drop_related i (td_files d),
     td_dependencies = drop_related i (td_dependencies d), td_children = drop_related i (td_children d),
     td_timeline = drop_related i (td_timeline d), td_thread = filter (\<lambda>e. tm_taskId (snd e) \<noteq> i) (td_thread d)\<rparr>"

definition is_terminal :: "TaskStatus \<Rightarrow> bool" where
  "is_terminal s = (s = ts_done \<or> s = ts_rejected \<or> s = ts_expired)"

definition old_terminal :: "time \<Rightarrow> task_db \<Rightarrow> string list" where
  "old_terminal now d = map fst (td_rows (\<lambda>r. is_terminal (tr_status r) \<and> tr_updated_at r < now - 7 * 24 * HOUR_MS) d)"

definition td_cleanupExpiredTasks :: "time \<Rightarrow> task_db \<Rightarrow> task_db \<times> nat \<times> nat" where
  "td_cleanupExpiredTasks now d =
     (let (d1, a) = expire_open now d; (d2, b) = reset_claimed now d1; (d3, c) = reset_in_progress now d2; old = old_terminal now d3
      in (fold delete_task old d3, a + b + c, length old))"

end
