(* ===== verification/JsText.thy ===== *)
theory JsText
  imports Types "HOL-Library.Sublist"
begin

text \<open>
  The string functions of JavaScript that the components use, on 8-bit characters, and POSIX paths as \<^verbatim>\<open>node:path\<close> joins
  them. The executable tests are related to \<open>prefix\<close>, \<open>suffix\<close> and \<open>sublist\<close> of the library.
\<close>

section \<open>Characters and strings\<close>

definition js_lower :: "char \<Rightarrow> char" where
  "js_lower c = (let n = of_char c :: nat in if 65 \<le> n \<and> n \<le> 90 \<or> 192 \<le> n \<and> n \<le> 222 \<and> n \<noteq> 215 then char_of (n + 32) else c)"

definition is_alnum :: "char \<Rightarrow> bool" where
  "is_alnum c = (let n = of_char c :: nat in (97 \<le> n \<and> n \<le> 122) \<or> (48 \<le> n \<and> n \<le> 57))"

text \<open>The pieces between separators, the empty ones included.\<close>

fun split_at :: "(char \<Rightarrow> bool) \<Rightarrow> string \<Rightarrow> string \<Rightarrow> string list" where
  "split_at sep cur [] = [rev cur]"
| "split_at sep cur (c # cs) = (if sep c then rev cur # split_at sep [] cs else split_at sep (c # cur) cs)"

definition str_includes :: "string \<Rightarrow> string \<Rightarrow> bool" where
  "str_includes s t = list_ex (\<lambda>n. take (length t) (drop n s) = t) [0..<length s + 1]"

definition js_white :: "char \<Rightarrow> bool" where
  "js_white c = (let n = of_char c :: nat in (9 \<le> n \<and> n \<le> 13) \<or> n = 32 \<or> n = 160)"

fun str_less :: "string \<Rightarrow> string \<Rightarrow> bool" where
  "str_less _ [] = False"
| "str_less [] (_ # _) = True"
| "str_less (a # as) (b # bs) = ((of_char a :: nat) < of_char b \<or> a = b \<and> str_less as bs)"

definition startsWith :: "string \<Rightarrow> string \<Rightarrow> bool" where
  "startsWith s t = (take (length t) s = t)"

definition endsWith :: "string \<Rightarrow> string \<Rightarrow> bool" where
  "endsWith s t = (length t \<le> length s \<and> drop (length s - length t) s = t)"

definition slashes :: "string \<Rightarrow> string" where
  "slashes s = map (\<lambda>c. if c = CHR 0x5C then CHR ''/'' else c) s"

text \<open>\<^verbatim>\<open>s.replace(/re/g, rep)\<close> for a pattern given by the length of its match at the start of a string, 0 for none.\<close>

function replace_all :: "(string \<Rightarrow> nat) \<Rightarrow> string \<Rightarrow> string \<Rightarrow> string" where
  "replace_all m rep [] = []"
| "replace_all m rep (c # cs) =
     (if m (c # cs) = 0 then c # replace_all m rep cs else rep @ replace_all m rep (drop (m (c # cs)) (c # cs)))"
  by pat_completeness auto
termination by (relation "measure (\<lambda>(m, rep, s). length s)") auto

definition word_char :: "char \<Rightarrow> bool" where
  "word_char c = (is_alnum (js_lower c) \<or> c = CHR ''_'')"

definition is_blank :: "string \<Rightarrow> bool" where
  "is_blank s = list_all js_white s"

definition str_trim :: "string \<Rightarrow> string" where
  "str_trim s = rev (dropWhile js_white (rev (dropWhile js_white s)))"

lemma str_less_total: "a \<noteq> b \<Longrightarrow> str_less a b \<longleftrightarrow> \<not> str_less b a"
proof (induction a b rule: str_less.induct)
  case (1 a)
  then show ?case by (cases a) auto
next
  case (3 a as b bs)
  then show ?case by (cases "a = b") (auto simp: less_le)
qed auto

lemma startsWith_prefix: "startsWith s t \<longleftrightarrow> prefix t s"
  by (metis append_eq_conv_conj append_take_drop_id prefix_def startsWith_def)

lemma endsWith_suffix: "endsWith s t \<longleftrightarrow> suffix t s"
proof
  assume "endsWith s t"
  then show "suffix t s" unfolding endsWith_def by (metis suffix_drop)
next
  assume "suffix t s"
  then obtain u where "s = u @ t" by (auto simp: suffix_def)
  then show "endsWith s t" by (simp add: endsWith_def)
qed

lemma str_includes_sublist: "str_includes s t \<longleftrightarrow> sublist t s"
proof
  assume "str_includes s t"
  then obtain n where "take (length t) (drop n s) = t" by (auto simp: str_includes_def list_ex_iff)
  then show "sublist t s" by (metis sublist_drop sublist_order.order_trans sublist_take)
next
  assume "sublist t s"
  then obtain u v where "s = u @ t @ v" by (auto simp: sublist_def)
  then show "str_includes s t" by (auto simp: str_includes_def list_ex_iff intro!: bexI [of _ "length u"])
qed

section \<open>Paths\<close>

text \<open>\<^verbatim>\<open>path.join\<close> on POSIX: the segments between slashes, without empty ones and dots, with \<^verbatim>\<open>..\<close> taking back the segment before it;
  at the root it is dropped. \<open>path_join\<close> is used with an absolute first part only.\<close>

fun resolve_segments :: "string list \<Rightarrow> string list \<Rightarrow> string list" where
  "resolve_segments acc [] = rev acc"
| "resolve_segments acc (x # xs) =
     (if x = [] \<or> x = ''.'' then resolve_segments acc xs
      else if x = ''..'' then resolve_segments (tl acc) xs
      else resolve_segments (x # acc) xs)"

definition segments :: "string \<Rightarrow> string list" where
  "segments p = split_at (\<lambda>c. c = CHR ''/'') [] p"

definition path_join :: "string \<Rightarrow> string \<Rightarrow> string" where
  "path_join base p =
     (let out = concat (map (\<lambda>x. CHR ''/'' # x) (resolve_segments [] (segments (base @ CHR ''/'' # p))))
      in if endsWith (if p = [] then base else p) ''/'' \<or> out = [] then out @ ''/'' else out)"

text \<open>A path without empty segments and dots.\<close>

definition plain_path :: "string \<Rightarrow> bool" where
  "plain_path p = list_all (\<lambda>x. x \<noteq> [] \<and> x \<noteq> ''.'' \<and> x \<noteq> ''..'') (segments p)"

lemma split_at_append: "sep c \<Longrightarrow> split_at sep cur (xs @ c # ys) = split_at sep cur xs @ split_at sep [] ys"
  by (induction xs arbitrary: cur) auto

lemma concat_split: "concat (map (\<lambda>x. CHR ''/'' # x) (split_at (\<lambda>c. c = CHR ''/'') cur xs)) = CHR ''/'' # rev cur @ xs"
  by (induction xs arbitrary: cur) auto

lemma resolve_plain: "list_all (\<lambda>x. x \<noteq> [] \<and> x \<noteq> ''.'' \<and> x \<noteq> ''..'') xs \<Longrightarrow> resolve_segments acc xs = rev acc @ xs"
  by (induction xs arbitrary: acc) auto

lemma plain_path_end: "plain_path p \<Longrightarrow> \<not> endsWith p ''/''"
proof
  assume p: "plain_path p" and "endsWith p ''/''"
  then obtain u where "p = u @ [CHR ''/'']" by (auto simp: endsWith_suffix suffix_def)
  then have "segments p = segments u @ [[]]" using split_at_append [of "\<lambda>c. c = CHR ''/''" "CHR ''/''" "[]" u "[]"] by (simp add: segments_def)
  with p show False by (simp add: plain_path_def)
qed

lemma plain_path_nonempty: "plain_path p \<Longrightarrow> p \<noteq> []"
  by (auto simp: plain_path_def segments_def)

lemma path_join_plain:
  assumes "plain_path b" "plain_path p"
  shows "path_join (CHR ''/'' # b) p = CHR ''/'' # b @ CHR ''/'' # p"
proof -
  have "segments ((CHR ''/'' # b) @ CHR ''/'' # p) = [] # segments b @ segments p"
    using split_at_append [of "\<lambda>c. c = CHR ''/''" "CHR ''/''" "[]" b p] by (simp add: segments_def)
  moreover have "resolve_segments [] ([] # segments b @ segments p) = segments b @ segments p"
    using assms by (simp add: plain_path_def resolve_plain)
  ultimately show ?thesis using plain_path_end [OF assms(2)] plain_path_nonempty [OF assms(2)]
    by (simp add: path_join_def Let_def concat_split [of "[]", folded segments_def, simplified])
qed

end
