(* ===== verification/TaskQueue.thy ===== *)
theory TaskQueue
  imports TaskDatabase JsText
begin

text \<open>
  \<^verbatim>\<open>TaskQueue\<close> (\<^verbatim>\<open>packages/node/src/platform/task-queue.ts\<close>) and the handler of remote task events in
  \<^verbatim>\<open>init-kernel.ts\<close>: creation with duplicate detection, claiming under file locks and dependencies, the life cycle of a
  task, and the resolution of claims that two nodes made at once. All methods are synchronous, so each is one step.
  Task ids and ISO time stamps are arguments or parameters; text is in 8-bit characters. The textual summary for
  agents is left out.
\<close>

section \<open>State and events\<close>

datatype task_event =
    event_created Task
  | event_claimed string string TaskPriority TaskStatus "string option" "peer_id option" "time option"
  | event_timeline string string TaskTimelineEvent peer_id
  | event_completed string string TaskPriority TaskStatus "string option" "TaskResult option" "peer_id option" "peer_id option"
      "string option" "int option"
  | event_thread string string TaskTimelineEvent

record task_queue =
  tq_db :: task_db
  tq_localPeerId :: peer_id
  tq_network :: bool
  tq_published :: "task_event list"

datatype task_error = TaskNotFound | StatusIsNotOpen TaskStatus | FileConflict string | DependencyNotMet string
  | NotClaimedByAgent | CannotRelease TaskStatus | UnsafeId string

definition on_db :: "(task_db \<Rightarrow> task_db) \<Rightarrow> task_queue \<Rightarrow> task_queue" where
  "on_db f q = q\<lparr>tq_db := f (tq_db q)\<rparr>"

definition publishTaskEvent :: "task_event \<Rightarrow> task_queue \<Rightarrow> task_queue" where
  "publishTaskEvent e q = (if tq_network q then q\<lparr>tq_published := tq_published q @ [e]\<rparr> else q)"

fun VALID_TRANSITIONS :: "TaskStatus \<Rightarrow> TaskStatus list" where
  "VALID_TRANSITIONS ts_open = [ts_claimed, ts_rejected, ts_done, ts_expired]"
| "VALID_TRANSITIONS ts_claimed = [ts_in_progress, ts_open, ts_done, ts_rejected]"
| "VALID_TRANSITIONS ts_in_progress = [ts_review, ts_open, ts_done, ts_rejected]"
| "VALID_TRANSITIONS ts_review = [ts_done, ts_rejected]"
| "VALID_TRANSITIONS ts_done = [ts_rejected, ts_archived]"
| "VALID_TRANSITIONS ts_rejected = [ts_archived]"
| "VALID_TRANSITIONS ts_archived = []"
| "VALID_TRANSITIONS ts_expired = [ts_archived]"
| "VALID_TRANSITIONS (ts_other _) = []"

definition isValidTransition :: "TaskStatus \<Rightarrow> TaskStatus \<Rightarrow> bool" where
  "isValidTransition a b = (b \<in> set (VALID_TRANSITIONS a))"

definition truncate_output :: "string option \<Rightarrow> string option" where
  "truncate_output x = (case present x of None \<Rightarrow> None
     | Some s \<Rightarrow> Some (if 3072 < length s then take 3072 s @ [CHR 0x0A, CHR 0x0A] @ ''[Output truncated. Query executing node for full result.]'' else s))"

definition emit_claimed :: "Task \<Rightarrow> task_queue \<Rightarrow> task_queue" where
  "emit_claimed t = publishTaskEvent (event_claimed (tk_id t) (tk_title t) (tk_priority t) (tk_status t) (tk_assignedTo t)
     (tk_claimedByNode t) (tk_claimedAt t))"

definition emit_completed :: "Task \<Rightarrow> string option \<Rightarrow> int option \<Rightarrow> task_queue \<Rightarrow> task_queue" where
  "emit_completed t output duration = publishTaskEvent (event_completed (tk_id t) (tk_title t) (tk_priority t) (tk_status t)
     (tk_assignedTo t) (tk_result t) (tk_executedByNode t) (tk_originNode t) (truncate_output output) duration)"

definition getTask :: "task_queue \<Rightarrow> string \<Rightarrow> Task option" where
  "getTask q i = td_getTask (tq_db q) i"

section \<open>Remote tasks\<close>

definition when_any :: "'a list \<Rightarrow> ('b \<Rightarrow> 'b) \<Rightarrow> 'b \<Rightarrow> 'b" where
  "when_any xs f = (if xs = [] then id else f)"

definition insert_full :: "Task \<Rightarrow> task_db \<Rightarrow> task_db" where
  "insert_full t d =
     (let d1 = insertTask t d;
          d2 = when_any (tk_files t) (setFiles (tk_id t) (tk_files t)) d1;
          d3 = when_any (tk_dependencies t) (setDependencies (tk_id t) (tk_dependencies t)) d2;
          d4 = when_any (tk_childTasks t) (setChildren (tk_id t) (tk_childTasks t)) d3;
          d5 = fold (insertTimelineEvent (tk_id t)) (tk_timeline t) d4
      in fold insertThreadMessage (tk_thread t) d5)"

text \<open>The tasks of the legacy file \<^verbatim>\<open>tasks.json\<close>, if there is one, imported into an empty database.\<close>

definition migrateFromJson :: "Task list option \<Rightarrow> task_db \<Rightarrow> task_db" where
  "migrateFromJson file d = (case file of None \<Rightarrow> d | Some ts \<Rightarrow> if 0 < fst (td_getStats d) then d else fold insert_full ts d)"

definition insertRemoteTask :: "Task \<Rightarrow> task_queue \<Rightarrow> task_queue \<times> bool" where
  "insertRemoteTask t q = (if td_exists (tq_db q) (tk_id t) then (q, False) else (on_db (insert_full t) q, True))"

definition merge_field :: "'a option \<Rightarrow> 'a option \<Rightarrow> 'a option" where
  "merge_field old new = (case new of None \<Rightarrow> old | Some x \<Rightarrow> Some x)"

text \<open>\<^verbatim>\<open>{ ...task.result, ...result }\<close> written column by column; the columns start with the stored result.\<close>

definition merge_result :: "TaskResult \<Rightarrow> TaskResult \<Rightarrow> TaskResult" where
  "merge_result old new =
     \<lparr>rs_commitHash = merge_field (rs_commitHash old) (rs_commitHash new), rs_buildPassed = merge_field (rs_buildPassed old) (rs_buildPassed new),
      rs_testsPassed = merge_field (rs_testsPassed old) (rs_testsPassed new), rs_approved = merge_field (rs_approved old) (rs_approved new),
      rs_approvedBy = merge_field (rs_approvedBy old) (rs_approvedBy new), rs_note = merge_field (rs_note old) (rs_note new)\<rparr>"

definition or_keep :: "string option \<Rightarrow> string option \<Rightarrow> string option" where
  "or_keep new old = (if truthy new then new else old)"

text \<open>\<open>assigned\<close> is undefined (\<open>None\<close>), or a value, which may be null.\<close>

definition remote_fields ::
  "TaskStatus \<Rightarrow> string option option \<Rightarrow> TaskResult option \<Rightarrow> peer_id option \<Rightarrow> peer_id option \<Rightarrow> task_row \<Rightarrow> task_row" where
  "remote_fields status assigned result claimedBy executedBy r =
     r\<lparr>tr_status := status, tr_assigned_to := (case assigned of None \<Rightarrow> tr_assigned_to r | Some a \<Rightarrow> a),
       tr_claimed_by_node := or_keep claimedBy (tr_claimed_by_node r), tr_executed_by_node := or_keep executedBy (tr_executed_by_node r),
       tr_result := (case result of None \<Rightarrow> tr_result r | Some s \<Rightarrow> merge_result (tr_result r) s)\<rparr>"

definition updateRemoteStatus ::
  "time \<Rightarrow> string \<Rightarrow> TaskStatus \<Rightarrow> string option option \<Rightarrow> TaskResult option \<Rightarrow> peer_id option \<Rightarrow> peer_id option \<Rightarrow> task_queue
     \<Rightarrow> task_queue \<times> bool" where
  "updateRemoteStatus now i status assigned result claimedBy executedBy q =
     (case getTask q i of None \<Rightarrow> (q, False)
      | Some t \<Rightarrow>
        if tk_status t = status then (q, True)
        else if \<not> isValidTransition (tk_status t) status then (q, False)
        else (on_db (updateTask now i (remote_fields status assigned result claimedBy executedBy)) q, True))"

definition storeRemoteOutput :: "time \<Rightarrow> string \<Rightarrow> string \<Rightarrow> peer_id option \<Rightarrow> task_queue \<Rightarrow> task_queue \<times> bool" where
  "storeRemoteOutput now i output executedBy q =
     (case getTask q i of None \<Rightarrow> (q, False)
      | Some t \<Rightarrow> (on_db (updateTask now i (\<lambda>r. r\<lparr>tr_result := (tr_result r)\<lparr>rs_note := Some output\<rparr>,
            tr_executed_by_node := or_keep executedBy (tr_executed_by_node r)\<rparr>)) q, True))"

definition getActiveTasks :: "task_queue \<Rightarrow> Task list" where
  "getActiveTasks q = td_getActiveTasks (tq_db q)"

text \<open>The answer to a request for the active tasks, when there is a network to send it on.\<close>

definition task_handleSyncRequest :: "task_queue \<Rightarrow> Task list option" where
  "task_handleSyncRequest q = (if tq_network q then Some (getActiveTasks q) else None)"

definition task_handleSyncResponse :: "Task list \<Rightarrow> task_queue \<Rightarrow> task_queue" where
  "task_handleSyncResponse ts q = fold (\<lambda>t g. fst (insertRemoteTask t g)) ts q"

section \<open>Creation\<close>

definition title_tokens :: "string \<Rightarrow> string list" where
  "title_tokens s = remdups (filter (\<lambda>w. 2 < length w) (split_at (\<lambda>c. \<not> is_alnum c) [] (map js_lower s)))"

definition DEDUP_THRESHOLD :: number where "DEDUP_THRESHOLD = fl (6 / 10)"

definition title_similarity :: "string list \<Rightarrow> string list \<Rightarrow> number" where
  "title_similarity xs ys =
     (let both = length (filter (\<lambda>t. t \<in> set ys) xs); all = length xs + length ys - both
      in if all = 0 then 0 else fdiv (of_nat both) (of_nat all))"

definition find_similar :: "string \<Rightarrow> task_db \<Rightarrow> Task option" where
  "find_similar title d =
     (let new = title_tokens title in
      if new = [] then None
      else find (\<lambda>t. title_tokens (tk_title t) \<noteq> [] \<and> DEDUP_THRESHOLD \<le> title_similarity new (title_tokens (tk_title t)))
             (getActiveTasksForDedup d))"

record create_opts =
  co_title :: string
  co_description :: string
  co_priority :: "TaskPriority option"
  co_createdBy :: string
  co_files :: "string list"
  co_dependencies :: "string list"
  co_originNode :: "peer_id option"
  co_proposalId :: "string option"
  co_requiredCapabilities :: "string list"
  co_managerId :: "string option"
  co_parentTask :: "string option"

definition existing_task :: "create_opts \<Rightarrow> task_db \<Rightarrow> Task option" where
  "existing_task opts d =
     (case (if truthy (co_proposalId opts) then findByProposalId (the (co_proposalId opts)) d else None) of
        Some t \<Rightarrow> Some t
      | None \<Rightarrow> if truthy (co_parentTask opts) then None else find_similar (co_title opts) d)"

definition safe_id :: "string \<Rightarrow> bool" where
  "safe_id s = (s \<noteq> [] \<and> list_all (\<lambda>c. is_alnum (js_lower c) \<or> c = CHR ''_'' \<or> c = CHR ''-'') s)"

definition priority_text :: "TaskPriority \<Rightarrow> string" where
  "priority_text p = (case p of tp_critical \<Rightarrow> ''critical'' | tp_high \<Rightarrow> ''high'' | tp_medium \<Rightarrow> ''medium'' | tp_low \<Rightarrow> ''low'' | tp_other s \<Rightarrow> s)"

definition new_task :: "(time \<Rightarrow> string) \<Rightarrow> time \<Rightarrow> string \<Rightarrow> create_opts \<Rightarrow> peer_id \<Rightarrow> Task" where
  "new_task isostr now ident opts self =
     (let prio = (case co_priority opts of None \<Rightarrow> tp_medium | Some p \<Rightarrow> p) in
      \<lparr>tk_id = ident, tk_title = co_title opts, tk_description = co_description opts, tk_priority = prio, tk_status = ts_open,
       tk_createdBy = co_createdBy opts, tk_assignedTo = None, tk_files = co_files opts, tk_dependencies = co_dependencies opts,
       tk_createdAt = now, tk_updatedAt = now, tk_result = None, tk_origin = None,
       tk_timeline = [\<lparr>te_timestamp = isostr now, te_event = ''created'', te_detail = ''Task submitted with priority '' @ priority_text prio,
         te_metadata = None\<rparr>],
       tk_parentTask = None, tk_childTasks = [], tk_roleMetadata = None, tk_claimedByNode = None, tk_claimedAt = None,
       tk_originNode = present (or_keep (co_originNode opts) (Some self)), tk_executedByNode = None, tk_cost = None,
       tk_proposalId = present (co_proposalId opts), tk_qaTier = None, tk_thread = [],
       tk_requiredCapabilities = (if co_requiredCapabilities opts = [] then None else Some (co_requiredCapabilities opts)),
       tk_requiredResources = None, tk_managerId = present (co_managerId opts)\<rparr>)"

definition createTask ::
  "(time \<Rightarrow> string) \<Rightarrow> time \<Rightarrow> string \<Rightarrow> create_opts \<Rightarrow> task_queue \<Rightarrow> task_queue \<times> (task_error + Task)" where
  "createTask isostr now ident opts q =
     (case existing_task opts (tq_db q) of Some t \<Rightarrow> (q, Inr t)
      | None \<Rightarrow>
        if \<not> safe_id ident then (q, Inl (UnsafeId ident))
        else let t = new_task isostr now ident opts (tq_localPeerId q)
             in (publishTaskEvent (event_created t) (on_db (insert_full t) q), Inr t))"

section \<open>Claims and the life cycle\<close>

definition getNextClaimable :: "task_queue \<Rightarrow> Task option" where
  "getNextClaimable q = td_getNextClaimable (Some (tq_localPeerId q)) (tq_db q)"

definition claimTask :: "time \<Rightarrow> string \<Rightarrow> string \<Rightarrow> task_queue \<Rightarrow> task_queue \<times> task_error option" where
  "claimTask now i agent q =
     (case getTask q i of None \<Rightarrow> (q, Some TaskNotFound)
      | Some t \<Rightarrow>
        if tk_status t \<noteq> ts_open then (q, Some (StatusIsNotOpen (tk_status t)))
        else (case present (getConflictingFiles (tq_db q) (tk_files t)) of Some f \<Rightarrow> (q, Some (FileConflict f))
        | None \<Rightarrow> (case present (getUnmetDependency (tq_db q) i) of Some x \<Rightarrow> (q, Some (DependencyNotMet x))
        | None \<Rightarrow>
          let q1 = on_db (updateTask now i (\<lambda>r. r\<lparr>tr_status := ts_claimed, tr_assigned_to := Some agent,
                     tr_claimed_by_node := present (Some (tq_localPeerId q)), tr_claimed_at := Some now\<rparr>)) q
          in (case getTask q1 i of None \<Rightarrow> q1 | Some u \<Rightarrow> emit_claimed u q1, None))))"

definition updateStatus :: "time \<Rightarrow> string \<Rightarrow> TaskStatus \<Rightarrow> string option \<Rightarrow> task_queue \<Rightarrow> task_queue \<times> bool" where
  "updateStatus now i status assigned q =
     (case getTask q i of None \<Rightarrow> (q, False)
      | Some t \<Rightarrow>
        if tk_status t = status then (q, True)
        else if \<not> isValidTransition (tk_status t) status then (q, False)
        else (on_db (updateTask now i (\<lambda>r. r\<lparr>tr_status := status, tr_assigned_to := merge_field (tr_assigned_to r) assigned\<rparr>)) q, True))"

record completion_info =
  ci_executedByNode :: "peer_id option"
  ci_output :: "string option"
  ci_duration :: "int option"
  ci_cost :: "TaskCost option"

definition merge_cost :: "TaskCost \<Rightarrow> TaskCost \<Rightarrow> TaskCost" where
  "merge_cost old new =
     \<lparr>tc_inputTokens = merge_field (tc_inputTokens old) (tc_inputTokens new), tc_outputTokens = merge_field (tc_outputTokens old) (tc_outputTokens new),
      tc_costUsd = merge_field (tc_costUsd old) (tc_costUsd new), tc_durationMs = merge_field (tc_durationMs old) (tc_durationMs new),
      tc_tier = merge_field (tc_tier old) (tc_tier new), tc_model = merge_field (tc_model old) (tc_model new)\<rparr>"

definition complete_fields :: "peer_id \<Rightarrow> TaskResult option \<Rightarrow> completion_info \<Rightarrow> task_row \<Rightarrow> task_row" where
  "complete_fields self result info r =
     r\<lparr>tr_status := ts_done, tr_result := (case result of None \<Rightarrow> tr_result r | Some s \<Rightarrow> merge_result (tr_result r) s),
       tr_executed_by_node := (if truthy (ci_executedByNode info) then ci_executedByNode info
         else if \<not> truthy (tr_executed_by_node r) \<and> self \<noteq> [] then Some self else tr_executed_by_node r),
       tr_cost := (case ci_cost info of None \<Rightarrow> tr_cost r | Some c \<Rightarrow> merge_cost (tr_cost r) c)\<rparr>"

definition cascade_event :: "(time \<Rightarrow> string) \<Rightarrow> time \<Rightarrow> string \<Rightarrow> TaskTimelineEvent" where
  "cascade_event isostr now parent = \<lparr>te_timestamp = isostr now, te_event = ''cascade_rejected'',
     te_detail = ''Rejected: Parent task completed (parent: '' @ take 8 parent @ '')'',
     te_metadata = Some [(''parentTaskId'', md_text parent), (''reason'', md_text ''Parent task completed'')]\<rparr>"

definition cascade_reject :: "(time \<Rightarrow> string) \<Rightarrow> time \<Rightarrow> string \<Rightarrow> string \<Rightarrow> task_db \<Rightarrow> task_db" where
  "cascade_reject isostr now parent c d =
     (case jget (td_tasks d) c of None \<Rightarrow> d
      | Some r \<Rightarrow>
        if tr_status r \<noteq> ts_open \<and> tr_status r \<noteq> ts_claimed then d
        else insertTimelineEvent c (cascade_event isostr now parent)
          (updateTask now c (\<lambda>r. r\<lparr>tr_status := ts_rejected, tr_assigned_to := None,
             tr_result := (tr_result r)\<lparr>rs_note := Some ''Parent task completed''\<rparr>\<rparr>) d))"

definition sibling_event :: "(time \<Rightarrow> string) \<Rightarrow> time \<Rightarrow> string \<Rightarrow> string \<Rightarrow> TaskTimelineEvent" where
  "sibling_event isostr now i parent = \<lparr>te_timestamp = isostr now, te_event = ''sibling_auto_approved'',
     te_detail = ''Auto-approved: sibling '' @ take 8 i @ '' completed, all dependencies resolved'',
     te_metadata = Some [(''completedSiblingId'', md_text i), (''parentTaskId'', md_text parent)]\<rparr>"

definition is_resolved :: "task_db \<Rightarrow> string \<Rightarrow> bool" where
  "is_resolved d i = (case jget (td_tasks d) i of None \<Rightarrow> False | Some r \<Rightarrow> tr_status r = ts_done \<or> tr_status r = ts_rejected)"

definition approve_sibling :: "(time \<Rightarrow> string) \<Rightarrow> time \<Rightarrow> string \<Rightarrow> string \<Rightarrow> string \<Rightarrow> task_db \<Rightarrow> task_db" where
  "approve_sibling isostr now i parent s d =
     (case jget (td_tasks d) s of None \<Rightarrow> d
      | Some r \<Rightarrow>
        if tr_status r \<noteq> ts_open \<or> \<not> list_all (is_resolved d) (getDependencies d s) then d
        else insertTimelineEvent s (sibling_event isostr now i parent) d)"

definition approve_siblings :: "(time \<Rightarrow> string) \<Rightarrow> time \<Rightarrow> string \<Rightarrow> task_db \<Rightarrow> task_db" where
  "approve_siblings isostr now i d =
     (case jget (td_tasks d) i of None \<Rightarrow> d
      | Some r \<Rightarrow> (case present (tr_parent_task r) of None \<Rightarrow> d
        | Some parent \<Rightarrow> if td_exists d parent
            then fold (approve_sibling isostr now i parent) (filter (\<lambda>c. c \<noteq> i) (getChildren d parent)) d else d))"

definition completeTask ::
  "(time \<Rightarrow> string) \<Rightarrow> time \<Rightarrow> string \<Rightarrow> TaskResult option \<Rightarrow> completion_info \<Rightarrow> task_queue \<Rightarrow> task_queue \<times> bool" where
  "completeTask isostr now i result info q =
     (case getTask q i of None \<Rightarrow> (q, False)
      | Some t \<Rightarrow>
        if tk_status t = ts_done then (q, True)
        else if \<not> isValidTransition (tk_status t) ts_done then (q, False)
        else let children = getChildren (tq_db q) i;
                 q1 = on_db (\<lambda>d. fold (cascade_reject isostr now i) children (updateTask now i (complete_fields (tq_localPeerId q) result info) d)) q;
                 q2 = (case getTask q1 i of None \<Rightarrow> q1 | Some u \<Rightarrow> emit_completed u (ci_output info) (ci_duration info) q1)
             in (on_db (approve_siblings isostr now i) q2, True))"

definition rejectTask :: "time \<Rightarrow> string \<Rightarrow> string option \<Rightarrow> task_queue \<Rightarrow> task_queue \<times> bool" where
  "rejectTask now i reason q =
     (case getTask q i of None \<Rightarrow> (q, False)
      | Some t \<Rightarrow>
        if tk_status t = ts_open then (q, True)
        else if \<not> isValidTransition (tk_status t) ts_open then (q, False)
        else (on_db (updateTask now i (\<lambda>r. r\<lparr>tr_status := ts_open, tr_assigned_to := None,
               tr_result := (tr_result r)\<lparr>rs_note := or_keep reason (rs_note (tr_result r))\<rparr>\<rparr>)) q, True))"

definition releaseTask :: "time \<Rightarrow> string \<Rightarrow> string \<Rightarrow> task_queue \<Rightarrow> task_queue \<times> task_error option" where
  "releaseTask now i agent q =
     (case getTask q i of None \<Rightarrow> (q, Some TaskNotFound)
      | Some t \<Rightarrow>
        if tk_assignedTo t \<noteq> Some agent then (q, Some NotClaimedByAgent)
        else if \<not> is_active_status (tk_status t) then (q, Some (CannotRelease (tk_status t)))
        else (on_db (updateTask now i (\<lambda>r. r\<lparr>tr_status := ts_open, tr_assigned_to := None\<rparr>)) q, None))"

definition forceReleaseTask :: "time \<Rightarrow> string \<Rightarrow> task_queue \<Rightarrow> task_queue \<times> bool" where
  "forceReleaseTask now i q =
     (case getTask q i of None \<Rightarrow> (q, False)
      | Some t \<Rightarrow>
        if \<not> is_active_status (tk_status t) then (q, False)
        else (on_db (updateTask now i (\<lambda>r. r\<lparr>tr_status := ts_open, tr_assigned_to := None, tr_claimed_by_node := None,
               tr_claimed_at := None\<rparr>)) q, True))"

section \<open>Relations, notes and clean-up\<close>

definition setParentChild :: "time \<Rightarrow> string \<Rightarrow> string list \<Rightarrow> task_queue \<Rightarrow> task_queue \<times> bool" where
  "setParentChild now parent cs q =
     (if \<not> td_exists (tq_db q) parent then (q, False)
      else (on_db (\<lambda>d. fold (\<lambda>c. updateTask now c (\<lambda>r. r\<lparr>tr_parent_task := Some parent\<rparr>)) cs
              (updateTask now parent id (setChildren parent (filter (\<lambda>c. c \<noteq> parent) cs) d))) q, True))"

definition getChildTasks :: "task_queue \<Rightarrow> string \<Rightarrow> Task list" where
  "getChildTasks q i = List.map_filter (getTask q) (getChildren (tq_db q) i)"

definition getParentTask :: "task_queue \<Rightarrow> string \<Rightarrow> Task option" where
  "getParentTask q i = (case getTask q i of None \<Rightarrow> None | Some t \<Rightarrow> (case tk_parentTask t of None \<Rightarrow> None | Some p \<Rightarrow> getTask q p))"

definition areAllChildrenDone :: "task_queue \<Rightarrow> string \<Rightarrow> bool" where
  "areAllChildrenDone q i = (getChildren (tq_db q) i \<noteq> [] \<and> list_all (is_done (tq_db q)) (getChildren (tq_db q) i))"

definition setResultNote :: "time \<Rightarrow> string \<Rightarrow> string \<Rightarrow> task_queue \<Rightarrow> task_queue" where
  "setResultNote now i note q = on_db (updateTask now i (\<lambda>r. r\<lparr>tr_result := (tr_result r)\<lparr>rs_note := Some note\<rparr>\<rparr>)) q"

definition setQaTier :: "time \<Rightarrow> string \<Rightarrow> string \<Rightarrow> task_queue \<Rightarrow> task_queue" where
  "setQaTier now i tier q = on_db (updateTask now i (\<lambda>r. r\<lparr>tr_qa_tier := Some tier\<rparr>)) q"

definition setRoleMetadata :: "time \<Rightarrow> string \<Rightarrow> TaskRoleMetadata \<Rightarrow> task_queue \<Rightarrow> task_queue" where
  "setRoleMetadata now i m q = on_db (updateTask now i (\<lambda>r. r\<lparr>tr_role := Some m\<rparr>)) q"

definition commit_contains :: "string \<Rightarrow> string \<Rightarrow> bool" where
  "commit_contains msg title = (str_includes (map js_lower msg) (map js_lower title) \<or> str_includes (map js_lower title) (map js_lower msg))"

definition commit_matches :: "string \<Rightarrow> string \<Rightarrow> bool" where
  "commit_matches msg title =
     (let ws = filter (\<lambda>w. 3 \<le> length w) (split_at js_white [] (map js_lower title));
          n = length (filter (str_includes (map js_lower msg)) ws)
      in commit_contains msg title \<or> ws \<noteq> [] \<and> nat \<lceil>fmul (of_nat (length ws)) (fl (6 / 10))\<rceil> \<le> n)"

definition autocomplete_one :: "time \<Rightarrow> string \<Rightarrow> string option \<Rightarrow> Task \<Rightarrow> task_db \<Rightarrow> task_db" where
  "autocomplete_one now msg hash t d =
     (if \<not> commit_matches msg (tk_title t) then d
      else updateTask now (tk_id t) (\<lambda>r. r\<lparr>tr_status := ts_done, tr_result := (tr_result r)\<lparr>rs_commitHash := present hash,
             rs_buildPassed := Some True, rs_note := Some (if commit_contains msg (tk_title t)
               then ''Auto-completed by commit: '' @ take 100 msg else ''Auto-completed by commit (fuzzy): '' @ take 100 msg)\<rparr>\<rparr>) d)"

definition autoCompleteByCommit :: "time \<Rightarrow> string \<Rightarrow> string option \<Rightarrow> task_queue \<Rightarrow> task_queue \<times> Task list" where
  "autoCompleteByCommit now msg hash q =
     (let ts = td_getTasks \<lparr>qu_status = Some [ts_open, ts_claimed, ts_in_progress], qu_priority = None, qu_assignedTo = None, qu_limit = None\<rparr> (tq_db q);
          q1 = on_db (fold (autocomplete_one now msg hash) ts) q
      in (q1, List.map_filter (\<lambda>t. getTask q1 (tk_id t)) (filter (\<lambda>t. commit_matches msg (tk_title t)) ts)))"

definition pushTimelineEvent :: "(time \<Rightarrow> string) \<Rightarrow> time \<Rightarrow> string \<Rightarrow> TaskTimelineEvent \<Rightarrow> bool \<Rightarrow> task_queue \<Rightarrow> task_queue" where
  "pushTimelineEvent isostr now i e broadcast q =
     (if \<not> td_exists (tq_db q) i then q
      else let full = e\<lparr>te_timestamp := isostr now\<rparr>; q1 = on_db (insertTimelineEvent i full) q
           in if broadcast then (case getTask q1 i of None \<Rightarrow> q1
                | Some t \<Rightarrow> publishTaskEvent (event_timeline i (tk_title t) full (tq_localPeerId q)) q1) else q1)"

definition applyRemoteTimelineEvent :: "string \<Rightarrow> TaskTimelineEvent \<Rightarrow> task_queue \<Rightarrow> task_queue \<times> bool" where
  "applyRemoteTimelineEvent i e q =
     (if \<not> td_exists (tq_db q) i \<or> hasTimelineEvent (tq_db q) i (te_timestamp e) (te_event e) then (q, False)
      else (on_db (insertTimelineEvent i e) q, True))"

definition thread_event :: "(time \<Rightarrow> string) \<Rightarrow> ThreadMessage \<Rightarrow> TaskTimelineEvent" where
  "thread_event isostr m = \<lparr>te_timestamp = isostr (tm_createdAt m), te_event = ''thread_message'',
     te_detail = ''['' @ tm_role m @ ''] '' @ take 100 (tm_content m),
     te_metadata = Some [(''messageId'', md_text (tm_id m)), (''from'', md_text (tm_from m)), (''role'', md_text (tm_role m))]\<rparr>"

definition addMessage ::
  "(time \<Rightarrow> string) \<Rightarrow> time \<Rightarrow> string \<Rightarrow> string \<Rightarrow> peer_id \<Rightarrow> string \<Rightarrow> string \<Rightarrow> task_queue \<Rightarrow> task_queue \<times> ThreadMessage option" where
  "addMessage isostr now ident i from role content q =
     (if \<not> td_exists (tq_db q) i then (q, None)
      else let m = \<lparr>tm_id = ident, tm_taskId = i, tm_from = from, tm_role = role, tm_content = content, tm_createdAt = now\<rparr>;
               q1 = on_db (\<lambda>d. updateTask now i id (insertThreadMessage m d)) q
           in (case getTask q1 i of None \<Rightarrow> q1 | Some t \<Rightarrow> publishTaskEvent (event_thread i (tk_title t) (thread_event isostr m)) q1, Some m))"

definition archiveOldTasks :: "time \<Rightarrow> time \<Rightarrow> task_queue \<Rightarrow> task_queue \<times> nat" where
  "archiveOldTasks now age q = (case archiveTasks now age (tq_db q) of (d, n) \<Rightarrow> (q\<lparr>tq_db := d\<rparr>, n))"

definition cleanupExpiredTasks :: "time \<Rightarrow> task_queue \<Rightarrow> task_queue \<times> nat \<times> nat" where
  "cleanupExpiredTasks now q = (case td_cleanupExpiredTasks now (tq_db q) of (d, c) \<Rightarrow> (q\<lparr>tq_db := d\<rparr>, c))"

section \<open>Events of other nodes\<close>

definition or_zero :: "time option \<Rightarrow> time" where
  "or_zero t = (case t of None \<Rightarrow> 0 | Some x \<Rightarrow> x)"

definition we_win :: "peer_id \<Rightarrow> time option \<Rightarrow> peer_id \<Rightarrow> time option \<Rightarrow> bool" where
  "we_win self localAt sender remoteAt =
     (or_zero localAt < or_zero remoteAt \<or> or_zero localAt = or_zero remoteAt \<and> str_less self sender)"

definition on_remote_claim ::
  "time \<Rightarrow> peer_id \<Rightarrow> string \<Rightarrow> TaskStatus \<Rightarrow> string option \<Rightarrow> peer_id option \<Rightarrow> time option \<Rightarrow> task_queue \<Rightarrow> task_queue" where
  "on_remote_claim now sender i status assigned claimedBy claimedAt q =
     (let normal = fst (updateRemoteStatus now i status (Some assigned) None claimedBy None q) in
      case getTask q i of None \<Rightarrow> normal
      | Some t \<Rightarrow>
        if is_active_status (tk_status t) \<and> tk_claimedByNode t = Some (tq_localPeerId q)
        then if we_win (tq_localPeerId q) (tk_claimedAt t) sender claimedAt then q
             else fst (updateRemoteStatus now i ts_claimed (Some assigned) None claimedBy None (fst (forceReleaseTask now i q)))
        else normal)"

definition remote_completed_event :: "peer_id \<Rightarrow> string option \<Rightarrow> int option \<Rightarrow> TaskTimelineEvent" where
  "remote_completed_event p output duration = \<lparr>te_timestamp = [], te_event = ''remote_completed'',
     te_detail = ''Task executed by remote node '' @ take 12 p,
     te_metadata = Some ([(''executedByNode'', md_text p)] @ (case duration of None \<Rightarrow> [] | Some n \<Rightarrow> [(''duration'', md_int n)]) @
       [(''hasOutput'', md_bool (truthy output))])\<rparr>"

definition on_remote_completed ::
  "(time \<Rightarrow> string) \<Rightarrow> time \<Rightarrow> peer_id \<Rightarrow> string \<Rightarrow> TaskStatus \<Rightarrow> TaskResult option \<Rightarrow> peer_id option \<Rightarrow> string option \<Rightarrow> int option
     \<Rightarrow> task_queue \<Rightarrow> task_queue" where
  "on_remote_completed isostr now sender i status result executedBy output duration q =
     (let ex = (case present executedBy of None \<Rightarrow> sender | Some p \<Rightarrow> p);
          q1 = fst (updateRemoteStatus now i status None result None (Some ex) q)
      in case getTask q1 i of None \<Rightarrow> q1
         | Some t \<Rightarrow>
           if tk_originNode t \<noteq> Some (tq_localPeerId q) then q1
           else let q2 = (case present output of None \<Rightarrow> q1 | Some s \<Rightarrow> fst (storeRemoteOutput now i s (Some ex) q1))
                in pushTimelineEvent isostr now i (remote_completed_event ex output duration) True q2)"

definition onTaskEvent :: "(time \<Rightarrow> string) \<Rightarrow> time \<Rightarrow> peer_id \<Rightarrow> task_event \<Rightarrow> task_queue \<Rightarrow> task_queue" where
  "onTaskEvent isostr now sender e q =
     (case e of
        event_created t \<Rightarrow> fst (insertRemoteTask (t\<lparr>tk_origin := Some sender\<rparr>) q)
      | event_claimed i title prio status assigned claimedBy claimedAt \<Rightarrow> on_remote_claim now sender i status assigned claimedBy claimedAt q
      | event_completed i title prio status assigned result executedBy origin output duration \<Rightarrow>
          on_remote_completed isostr now sender i status result executedBy output duration q
      | event_timeline i title ev node \<Rightarrow> fst (applyRemoteTimelineEvent i ev q)
      | event_thread i title ev \<Rightarrow> fst (applyRemoteTimelineEvent i ev q))"

section \<open>Runs\<close>

text \<open>The calls that change the queue, and the states a sequence of them leads to.\<close>

datatype task_op =
    op_create time string create_opts
  | op_claim time string string
  | op_status time string TaskStatus "string option"
  | op_complete time string "TaskResult option" completion_info
  | op_reject time string "string option"
  | op_release time string string
  | op_force time string
  | op_relate time string "string list"
  | op_note time string string
  | op_tier time string string
  | op_role time string TaskRoleMetadata
  | op_commit time string "string option"
  | op_push time string TaskTimelineEvent bool
  | op_message time string string peer_id string string
  | op_archive time time
  | op_cleanup time
  | op_event time peer_id task_event
  | op_sync "Task list"

fun run_op :: "(time \<Rightarrow> string) \<Rightarrow> task_op \<Rightarrow> task_queue \<Rightarrow> task_queue" where
  "run_op isostr (op_create now ident opts) q = fst (createTask isostr now ident opts q)"
| "run_op isostr (op_claim now i agent) q = fst (claimTask now i agent q)"
| "run_op isostr (op_status now i st assigned) q = fst (updateStatus now i st assigned q)"
| "run_op isostr (op_complete now i result info) q = fst (completeTask isostr now i result info q)"
| "run_op isostr (op_reject now i reason) q = fst (rejectTask now i reason q)"
| "run_op isostr (op_release now i agent) q = fst (releaseTask now i agent q)"
| "run_op isostr (op_force now i) q = fst (forceReleaseTask now i q)"
| "run_op isostr (op_relate now i cs) q = fst (setParentChild now i cs q)"
| "run_op isostr (op_note now i s) q = setResultNote now i s q"
| "run_op isostr (op_tier now i tier) q = setQaTier now i tier q"
| "run_op isostr (op_role now i m) q = setRoleMetadata now i m q"
| "run_op isostr (op_commit now msg hash) q = fst (autoCompleteByCommit now msg hash q)"
| "run_op isostr (op_push now i e broadcast) q = pushTimelineEvent isostr now i e broadcast q"
| "run_op isostr (op_message now ident i p role content) q = fst (addMessage isostr now ident i p role content q)"
| "run_op isostr (op_archive now age) q = fst (archiveOldTasks now age q)"
| "run_op isostr (op_cleanup now) q = fst (cleanupExpiredTasks now q)"
| "run_op isostr (op_event now sender e) q = onTaskEvent isostr now sender e q"
| "run_op isostr (op_sync ts) q = task_handleSyncResponse ts q"

definition new_queue :: "peer_id \<Rightarrow> bool \<Rightarrow> Task list option \<Rightarrow> task_queue" where
  "new_queue self net file = \<lparr>tq_db = migrateFromJson file empty_task_db, tq_localPeerId = self, tq_network = net, tq_published = []\<rparr>"

inductive task_run :: "(time \<Rightarrow> string) \<Rightarrow> task_queue \<Rightarrow> task_queue \<Rightarrow> bool" for isostr q0 where
  start: "task_run isostr q0 q0"
| further: "task_run isostr q0 q \<Longrightarrow> task_run isostr q0 (run_op isostr op q)"

end
