(* ===== verification/TaskLifecycle.thy ===== *)
theory TaskLifecycle
  imports TaskQueue
begin

text \<open>
  The life cycle of a task: which changes of status every call of the queue can make (\<^verbatim>\<open>VALID_TRANSITIONS\<close> and what
  \<^verbatim>\<open>cleanupExpiredTasks\<close> and the resolution of claim conflicts add), and the consequences for runs.
\<close>

section \<open>The status of a task\<close>

named_theorems status_simps

definition status_of :: "task_db \<Rightarrow> string \<Rightarrow> TaskStatus option" where
  "status_of d i = map_option tr_status (jget (td_tasks d) i)"

text \<open>Every task of \<open>d\<close> is still there in \<open>d'\<close>, with a status that \<open>R\<close> allows.\<close>

definition moves :: "(TaskStatus \<Rightarrow> TaskStatus \<Rightarrow> bool) \<Rightarrow> task_db \<Rightarrow> task_db \<Rightarrow> bool" where
  "moves R d d' = (\<forall>i a. status_of d i = Some a \<longrightarrow> (\<exists>b. status_of d' i = Some b \<and> R a b))"

definition lifecycle_ok :: "TaskStatus \<Rightarrow> TaskStatus \<Rightarrow> bool" where
  "lifecycle_ok a b = (a = b \<or> isValidTransition a b \<or> a = ts_in_progress \<and> b = ts_claimed)"

lemma jget_updateTask [status_simps]:
  "jget (td_tasks (updateTask now i f d)) j =
     (if i = j then map_option (\<lambda>r. (f r)\<lparr>tr_updated_at := now\<rparr>) (jget (td_tasks d) j) else jget (td_tasks d) j)"
  by (simp add: updateTask_def)

lemma td_tasks_relations [simp]:
  "td_tasks (setFiles i xs d) = td_tasks d" "td_tasks (setDependencies i xs d) = td_tasks d"
  "td_tasks (setChildren i xs d) = td_tasks d" "td_tasks (insertTimelineEvent i e d) = td_tasks d"
  "td_tasks (insertThreadMessage m d) = td_tasks d"
  by (simp_all add: setFiles_def setDependencies_def setChildren_def insertTimelineEvent_def insertThreadMessage_def)

lemma td_tasks_fold_thread [simp]: "td_tasks (fold insertThreadMessage ms d) = td_tasks d"
  by (induction ms arbitrary: d) simp_all

lemma td_tasks_fold_timeline [simp]: "td_tasks (fold (insertTimelineEvent i) es d) = td_tasks d"
  by (induction es arbitrary: d) simp_all

lemma td_tasks_insert_full: "td_tasks (insert_full t d) = td_tasks (insertTask t d)"
  by (simp add: insert_full_def when_any_def Let_def)

lemma jget_insert_full [status_simps]:
  "jget (td_tasks (insert_full t d)) i =
     (if td_exists d i then jget (td_tasks d) i else if i = tk_id t then Some (taskToRow t) else None)"
  by (auto simp: td_tasks_insert_full insertTask_def td_exists_def jhas_def split: option.splits)

lemma status_of_insert_full [status_simps]:
  "status_of (insert_full t d) i = (if td_exists d i then status_of d i else if i = tk_id t then Some (tk_status t) else None)"
  by (simp add: status_of_def status_simps taskToRow_def)

lemma status_of_getTask: "map_option tk_status (getTask q i) = status_of (tq_db q) i"
  by (simp add: getTask_def td_getTask_def status_of_def assembleFullTask_def rowToTask_def option.map_comp comp_def)

lemma getTask_SomeD: "getTask q i = Some t \<Longrightarrow> status_of (tq_db q) i = Some (tk_status t)"
  by (simp flip: status_of_getTask)

lemma getTask_row:
  "getTask q i = Some t \<Longrightarrow> \<exists>r. jget (td_tasks (tq_db q)) i = Some r \<and> t = assembleFullTask (tq_db q) i r \<and> tr_status r = tk_status t"
  by (auto simp: getTask_def td_getTask_def assembleFullTask_def rowToTask_def)

lemma td_exists_status: "td_exists d i \<longleftrightarrow> status_of d i \<noteq> None"
  by (simp add: td_exists_def jhas_def status_of_def)

lemma tq_db_simps [simp]:
  "tq_db (on_db f q) = f (tq_db q)" "tq_localPeerId (on_db f q) = tq_localPeerId q" "tq_network (on_db f q) = tq_network q"
  "tq_db (publishTaskEvent e q) = tq_db q" "tq_localPeerId (publishTaskEvent e q) = tq_localPeerId q"
  "tq_db (emit_claimed t q) = tq_db q" "tq_db (emit_completed t out dur q) = tq_db q"
  "tq_localPeerId (emit_claimed t q) = tq_localPeerId q"
  by (simp_all add: on_db_def publishTaskEvent_def emit_claimed_def emit_completed_def)

section \<open>Moves\<close>

lemma lifecycle_refl [simp]: "lifecycle_ok a a"
  by (simp add: lifecycle_ok_def)

lemma moves_refl [simp]: "moves lifecycle_ok d d"
  by (simp add: moves_def)

lemma moves_mono: "moves R d d' \<Longrightarrow> (\<And>a b. R a b \<Longrightarrow> S a b) \<Longrightarrow> moves S d d'"
  unfolding moves_def by blast

lemma moves_comp: "moves R d d' \<Longrightarrow> moves S d' d'' \<Longrightarrow> (\<And>a b c. R a b \<Longrightarrow> S b c \<Longrightarrow> T a c) \<Longrightarrow> moves T d d''"
  unfolding moves_def by meson

lemma moves_update:
  assumes "\<And>r. jget (td_tasks d) i = Some r \<Longrightarrow> R (tr_status r) (tr_status (f r))" and "\<And>a. R a a"
  shows "moves R d (updateTask now i f d)"
  using assms by (auto simp: moves_def status_of_def status_simps)

lemma moves_update_same: "(\<And>r. tr_status (f r) = tr_status r) \<Longrightarrow> moves (=) d (updateTask now i f d)"
  by (intro moves_update) auto

lemma moves_tasks: "td_tasks d' = td_tasks d \<Longrightarrow> moves (=) d d'"
  by (simp add: moves_def status_of_def)

lemma moves_insert_full: "moves (=) d (insert_full t d)"
  by (auto simp: moves_def status_simps td_exists_status)

lemma moves_fold:
  assumes "\<And>x e. moves R e (f x e)" and "\<And>a. R a a" and "\<And>a b c. R a b \<Longrightarrow> R b c \<Longrightarrow> R a c"
  shows "moves R d (fold f xs d)"
proof (induction xs arbitrary: d)
  case Nil
  then show ?case using assms(2) by (simp add: moves_def)
next
  case (Cons x xs)
  have "moves R (f x d) (fold f xs (f x d))" by (rule Cons.IH)
  with assms(1) [of d x] show ?case by (auto intro: moves_comp assms(3))
qed

lemma moves_same_ok: "moves (=) d d' \<Longrightarrow> moves lifecycle_ok d d'"
  by (erule moves_mono) simp

lemma valid_ok: "isValidTransition a b \<Longrightarrow> lifecycle_ok a b"
  by (simp add: lifecycle_ok_def)

lemma release_ok: "is_active_status a \<Longrightarrow> lifecycle_ok a ts_open"
  by (auto simp: is_active_status_def lifecycle_ok_def isValidTransition_def)

lemma moves_update_status:
  assumes "getTask q i = Some t" and "lifecycle_ok (tk_status t) s" and "\<And>r. tr_status (f r) = s"
  shows "moves lifecycle_ok (tq_db q) (updateTask now i f (tq_db q))"
  using assms getTask_row [OF assms(1)] by (auto intro: moves_update)

section \<open>The calls\<close>

lemma claimTask_moves: "moves lifecycle_ok (tq_db q) (tq_db (fst (claimTask now i agent q)))"
  by (auto simp: claimTask_def Let_def isValidTransition_def intro!: moves_update_status valid_ok split: option.splits)

lemma updateStatus_moves: "moves lifecycle_ok (tq_db q) (tq_db (fst (updateStatus now i st assigned q)))"
  by (auto simp: updateStatus_def intro!: moves_update_status valid_ok split: option.splits)

lemma updateRemoteStatus_moves:
  "moves lifecycle_ok (tq_db q) (tq_db (fst (updateRemoteStatus now i st assigned result cb eb q)))"
  by (auto simp: updateRemoteStatus_def remote_fields_def intro!: moves_update_status valid_ok split: option.splits)

lemma rejectTask_moves: "moves lifecycle_ok (tq_db q) (tq_db (fst (rejectTask now i reason q)))"
  by (auto simp: rejectTask_def intro!: moves_update_status valid_ok split: option.splits)

lemma releaseTask_moves: "moves lifecycle_ok (tq_db q) (tq_db (fst (releaseTask now i agent q)))"
  by (auto simp: releaseTask_def intro!: moves_update_status release_ok split: option.splits)

lemma forceReleaseTask_moves: "moves lifecycle_ok (tq_db q) (tq_db (fst (forceReleaseTask now i q)))"
  by (auto simp: forceReleaseTask_def intro!: moves_update_status release_ok split: option.splits)

lemma storeRemoteOutput_moves: "moves (=) (tq_db q) (tq_db (fst (storeRemoteOutput now i s p q)))"
  by (auto simp: storeRemoteOutput_def moves_tasks intro!: moves_update_same split: option.splits)

lemma pushTimelineEvent_tasks [simp]: "td_tasks (tq_db (pushTimelineEvent isostr now i e b q)) = td_tasks (tq_db q)"
  by (simp add: pushTimelineEvent_def Let_def split: option.splits)

lemma applyRemoteTimelineEvent_tasks [simp]: "td_tasks (tq_db (fst (applyRemoteTimelineEvent i e q))) = td_tasks (tq_db q)"
  by (simp add: applyRemoteTimelineEvent_def)

lemma insertRemoteTask_moves: "moves (=) (tq_db q) (tq_db (fst (insertRemoteTask t q)))"
  by (simp add: insertRemoteTask_def moves_insert_full moves_tasks)

lemma handleSyncResponse_moves: "moves (=) (tq_db q) (tq_db (task_handleSyncResponse ts q))"
  unfolding task_handleSyncResponse_def
proof (induction ts arbitrary: q)
  case (Cons t ts)
  show ?case using moves_comp [OF insertRemoteTask_moves Cons.IH] by auto
qed (simp add: moves_tasks)

lemma createTask_moves: "moves (=) (tq_db q) (tq_db (fst (createTask isostr now ident opts q)))"
  by (simp add: createTask_def Let_def moves_insert_full moves_tasks split: option.splits)

text \<open>Completing a task rejects its open and claimed children.\<close>

definition rejected_child :: "TaskStatus \<Rightarrow> TaskStatus \<Rightarrow> bool" where
  "rejected_child a b = (a = b \<or> (a = ts_open \<or> a = ts_claimed) \<and> b = ts_rejected)"

lemma cascade_reject_moves: "moves rejected_child d (cascade_reject isostr now p c d)"
  by (auto simp: cascade_reject_def moves_def status_of_def status_simps rejected_child_def split: option.splits)

lemma cascade_fold_moves: "moves rejected_child d (fold (cascade_reject isostr now p) cs d)"
  by (rule moves_fold) (auto simp: cascade_reject_moves rejected_child_def)

lemma approve_fold_tasks [simp]: "td_tasks (fold (approve_sibling isostr now i p) ss d) = td_tasks d"
  by (induction ss arbitrary: d) (simp_all add: approve_sibling_def split: option.splits)

lemma approve_siblings_tasks [simp]: "td_tasks (approve_siblings isostr now i d) = td_tasks d"
  by (simp add: approve_siblings_def split: option.splits)

lemma completeTask_db:
  assumes "getTask q i = Some t" "tk_status t \<noteq> ts_done" "isValidTransition (tk_status t) ts_done"
  shows "td_tasks (tq_db (fst (completeTask isostr now i result info q))) =
    td_tasks (fold (cascade_reject isostr now i) (getChildren (tq_db q) i)
      (updateTask now i (complete_fields (tq_localPeerId q) result info) (tq_db q)))"
  using assms by (simp add: completeTask_def Let_def split: option.split)

lemma completeTask_moves: "moves lifecycle_ok (tq_db q) (tq_db (fst (completeTask isostr now i result info q)))"
proof (cases "\<exists>t. getTask q i = Some t \<and> tk_status t \<noteq> ts_done \<and> isValidTransition (tk_status t) ts_done")
  case True
  then obtain t where t: "getTask q i = Some t" "tk_status t \<noteq> ts_done" "isValidTransition (tk_status t) ts_done" by blast
  let ?d = "updateTask now i (complete_fields (tq_localPeerId q) result info) (tq_db q)"
  let ?done = "\<lambda>a b. a = b \<or> isValidTransition a b \<and> b = ts_done"
  have "moves ?done (tq_db q) ?d"
    using t getTask_row [OF t(1)] by (auto intro!: moves_update simp: complete_fields_def)
  then have "moves lifecycle_ok (tq_db q) (fold (cascade_reject isostr now i) (getChildren (tq_db q) i) ?d)"
    by (rule moves_comp [OF _ cascade_fold_moves]) (auto simp: rejected_child_def lifecycle_ok_def isValidTransition_def)
  then show ?thesis by (simp add: moves_def status_of_def completeTask_db [OF t])
qed (auto simp: completeTask_def split: option.splits)

section \<open>The shape of the database\<close>

definition owned :: "task_db \<Rightarrow> (string \<times> 'a) list \<Rightarrow> bool" where
  "owned d t = list_all (\<lambda>e. td_exists d (fst e)) t"

text \<open>Ids are unique, and files, dependencies, children and timeline entries belong to tasks that exist.\<close>

definition task_db_ok :: "task_db \<Rightarrow> bool" where
  "task_db_ok d = (jwf (td_tasks d) \<and> jwf (td_thread d) \<and> owned d (td_files d) \<and> owned d (td_dependencies d) \<and>
     owned d (td_children d) \<and> owned d (td_timeline d))"

lemma td_exists_simps [simp]:
  "td_exists (setFiles i xs d) j = td_exists d j" "td_exists (setDependencies i xs d) j = td_exists d j"
  "td_exists (setChildren i xs d) j = td_exists d j" "td_exists (insertTimelineEvent i e d) j = td_exists d j"
  "td_exists (insertThreadMessage m d) j = td_exists d j" "td_exists (updateTask now i f d) j = td_exists d j"
  "td_exists (insertTask t d) j = (td_exists d j \<or> j = tk_id t)"
  by (auto simp: td_exists_def updateTask_def insertTask_def jhas_def split: option.splits)

lemma set_set_related: "set (set_related a bs t) = {e \<in> set t. fst e \<noteq> a} \<union> Pair a ` set bs"
proof -
  have "set (fold (\<lambda>b. sadd (a, b)) bs u) = set u \<union> Pair a ` set bs" for u
    by (induction bs arbitrary: u) (auto simp: set_sadd)
  then show ?thesis by (simp add: set_related_def)
qed

lemma owned_set_related: "owned d t \<Longrightarrow> td_exists d i \<Longrightarrow> owned d (set_related i bs t)"
  by (auto simp: owned_def list_all_iff set_set_related)

lemma owned_mono: "owned d t \<Longrightarrow> (\<And>i. td_exists d i \<Longrightarrow> td_exists d' i) \<Longrightarrow> owned d' t"
  by (auto simp: owned_def list_all_iff)

lemma owned_simps [simp]:
  "owned (setFiles i xs d) = owned d" "owned (setDependencies i xs d) = owned d" "owned (setChildren i xs d) = owned d"
  "owned (insertTimelineEvent i e d) = owned d" "owned (insertThreadMessage m d) = owned d" "owned (updateTask now i f d) = owned d"
  by (auto simp: owned_def [abs_def] fun_eq_iff)

lemma db_ok_setFiles [inv_intros]: "task_db_ok d \<Longrightarrow> td_exists d i \<Longrightarrow> task_db_ok (setFiles i xs d)"
  by (simp add: task_db_ok_def) (simp add: setFiles_def owned_set_related)

lemma db_ok_setDependencies [inv_intros]: "task_db_ok d \<Longrightarrow> td_exists d i \<Longrightarrow> task_db_ok (setDependencies i xs d)"
  by (simp add: task_db_ok_def) (simp add: setDependencies_def owned_set_related)

lemma db_ok_setChildren [inv_intros]: "task_db_ok d \<Longrightarrow> td_exists d i \<Longrightarrow> task_db_ok (setChildren i xs d)"
  by (simp add: task_db_ok_def) (simp add: setChildren_def owned_set_related)

lemma db_ok_timeline [inv_intros]: "task_db_ok d \<Longrightarrow> td_exists d i \<Longrightarrow> task_db_ok (insertTimelineEvent i e d)"
  by (simp add: task_db_ok_def) (simp add: insertTimelineEvent_def owned_def)

lemma db_ok_thread [inv_intros]: "task_db_ok d \<Longrightarrow> task_db_ok (insertThreadMessage m d)"
  by (simp add: task_db_ok_def) (simp add: insertThreadMessage_def jwf_snoc)

lemma db_ok_update [inv_intros]: "task_db_ok d \<Longrightarrow> task_db_ok (updateTask now i f d)"
  by (simp add: task_db_ok_def) (simp add: updateTask_def)

lemma db_ok_insertTask [inv_intros]: "task_db_ok d \<Longrightarrow> task_db_ok (insertTask t d)"
proof -
  assume ok: "task_db_ok d"
  have "owned d u \<Longrightarrow> owned (insertTask t d) u" for u :: "(string \<times> TaskTimelineEvent) list" by (erule owned_mono) simp
  moreover have "owned d u \<Longrightarrow> owned (insertTask t d) u" for u :: "(string \<times> string) list" by (erule owned_mono) simp
  ultimately show ?thesis using ok by (simp add: task_db_ok_def) (simp add: insertTask_def jwf_snoc)
qed

lemma db_ok_fold_timeline [inv_intros]: "task_db_ok d \<Longrightarrow> td_exists d i \<Longrightarrow> task_db_ok (fold (insertTimelineEvent i) es d)"
  by (induction es arbitrary: d) (simp_all add: db_ok_timeline)

lemma db_ok_fold_thread [inv_intros]: "task_db_ok d \<Longrightarrow> task_db_ok (fold insertThreadMessage ms d)"
  by (induction ms arbitrary: d) (auto intro: inv_intros)

lemma db_ok_insert_full [inv_intros]: "task_db_ok d \<Longrightarrow> task_db_ok (insert_full t d)"
  by (auto simp: insert_full_def Let_def when_any_def intro!: inv_intros)

lemma db_ok_update_where [inv_intros]: "task_db_ok d \<Longrightarrow> task_db_ok (fst (update_where P f d))"
proof -
  have keys: "map fst (td_tasks (fst (update_where P f d))) = map fst (td_tasks d)" by (simp add: update_where_def comp_def if_distrib cong: if_cong)
  then have "fst ` set (td_tasks (fst (update_where P f d))) = fst ` set (td_tasks d)" by (metis list.set_map)
  then have ex: "td_exists (fst (update_where P f d)) = td_exists d" by (simp add: fun_eq_iff td_exists_def jhas_iff)
  assume "task_db_ok d"
  then show ?thesis
    using keys by (simp add: task_db_ok_def owned_def ex jwf_def) (simp add: update_where_def)
qed

lemma jget_update_where [status_simps]:
  "jget (td_tasks (fst (update_where P f d))) i = map_option (\<lambda>r. if P r then f r else r) (jget (td_tasks d) i)"
proof -
  have "jget (map (\<lambda>e. if P (snd e) then (fst e, f (snd e)) else e) m) i = map_option (\<lambda>r. if P r then f r else r) (jget m i)" for m
    by (induction m) auto
  then show ?thesis by (simp add: update_where_def)
qed

lemma db_ok_delete [inv_intros]: "task_db_ok d \<Longrightarrow> task_db_ok (delete_task i d)"
  by (auto simp: task_db_ok_def delete_task_def owned_def td_exists_def jhas_def drop_related_def list_all_iff jwf_def fst_jdel
    intro!: distinct_map_filter)

lemma jget_fold_delete [status_simps]: "jget (td_tasks (fold delete_task is d)) i = (if i \<in> set is then None else jget (td_tasks d) i)"
  by (induction "is" arbitrary: d) (auto simp: delete_task_def)

lemma db_ok_fold:
  assumes "task_db_ok d" and "\<And>x e. task_db_ok e \<Longrightarrow> task_db_ok (f x e)"
  shows "task_db_ok (fold f xs d)"
  using assms(1) by (induction xs arbitrary: d) (simp_all add: assms(2))

lemma db_ok_cascade [inv_intros]: "task_db_ok d \<Longrightarrow> task_db_ok (cascade_reject isostr now p c d)"
  by (auto simp: cascade_reject_def td_exists_status status_of_def status_simps intro!: inv_intros split: option.splits)

lemma db_ok_approve [inv_intros]: "task_db_ok d \<Longrightarrow> task_db_ok (approve_sibling isostr now i p s d)"
  by (auto simp: approve_sibling_def td_exists_def jhas_def intro!: inv_intros split: option.splits)

lemma db_ok_approve_siblings [inv_intros]: "task_db_ok d \<Longrightarrow> task_db_ok (approve_siblings isostr now i d)"
  by (auto simp: approve_siblings_def intro!: db_ok_fold inv_intros split: option.splits)

lemma db_ok_updateRemoteStatus [inv_intros]:
  "task_db_ok (tq_db q) \<Longrightarrow> task_db_ok (tq_db (fst (updateRemoteStatus now i st assigned result cb eb q)))"
  by (auto simp: updateRemoteStatus_def intro!: inv_intros split: option.splits)

lemma db_ok_forceRelease [inv_intros]: "task_db_ok (tq_db q) \<Longrightarrow> task_db_ok (tq_db (fst (forceReleaseTask now i q)))"
  by (auto simp: forceReleaseTask_def intro!: inv_intros split: option.splits)

lemma db_ok_storeRemoteOutput [inv_intros]: "task_db_ok (tq_db q) \<Longrightarrow> task_db_ok (tq_db (fst (storeRemoteOutput now i s p q)))"
  by (auto simp: storeRemoteOutput_def intro!: inv_intros split: option.splits)

lemma db_ok_push [inv_intros]: "task_db_ok (tq_db q) \<Longrightarrow> task_db_ok (tq_db (pushTimelineEvent isostr now i e b q))"
  by (auto simp: pushTimelineEvent_def Let_def intro!: inv_intros split: option.splits)

lemma db_ok_insertRemoteTask [inv_intros]: "task_db_ok (tq_db q) \<Longrightarrow> task_db_ok (tq_db (fst (insertRemoteTask t q)))"
  by (auto simp: insertRemoteTask_def intro!: inv_intros)

lemma db_ok_onTaskEvent: "task_db_ok (tq_db q) \<Longrightarrow> task_db_ok (tq_db (onTaskEvent isostr now sender e q))"
  by (auto simp: onTaskEvent_def on_remote_claim_def on_remote_completed_def applyRemoteTimelineEvent_def Let_def
    intro!: inv_intros split: task_event.splits option.splits)

lemma db_ok_sync: "task_db_ok (tq_db q) \<Longrightarrow> task_db_ok (tq_db (task_handleSyncResponse ts q))"
  unfolding task_handleSyncResponse_def by (induction ts arbitrary: q) (simp_all add: db_ok_insertRemoteTask)

lemma db_ok_cleanup: "task_db_ok d \<Longrightarrow> task_db_ok (fst (td_cleanupExpiredTasks now d))"
  unfolding td_cleanupExpiredTasks_def expire_open_def reset_claimed_def reset_in_progress_def Let_def case_prod_beta fst_conv
  by (intro db_ok_fold inv_intros)

lemma db_ok_complete: "task_db_ok (tq_db q) \<Longrightarrow> task_db_ok (tq_db (fst (completeTask isostr now i result info q)))"
  by (auto simp: completeTask_def Let_def intro!: db_ok_fold inv_intros split: option.splits)

lemma db_ok_commit: "task_db_ok (tq_db q) \<Longrightarrow> task_db_ok (tq_db (fst (autoCompleteByCommit now msg hash q)))"
  by (auto simp: autoCompleteByCommit_def autocomplete_one_def Let_def intro!: db_ok_fold inv_intros)

lemma db_ok_run_op: "task_db_ok (tq_db q) \<Longrightarrow> task_db_ok (tq_db (run_op isostr op q))"
proof (cases op)
  case (op_relate now p cs)
  then show "task_db_ok (tq_db q) \<Longrightarrow> ?thesis" by (auto simp: setParentChild_def intro!: db_ok_fold inv_intros)
next
  case (op_claim now i a)
  then show "task_db_ok (tq_db q) \<Longrightarrow> ?thesis" by (auto simp: claimTask_def Let_def intro!: inv_intros split: option.splits)
qed (auto simp: createTask_def updateStatus_def rejectTask_def releaseTask_def setResultNote_def setQaTier_def setRoleMetadata_def
    addMessage_def archiveOldTasks_def cleanupExpiredTasks_def archiveTasks_def Let_def case_prod_beta
    intro!: inv_intros db_ok_onTaskEvent db_ok_sync db_ok_cleanup db_ok_complete db_ok_commit split: option.splits)

section \<open>Every call follows the life cycle\<close>

lemma td_getTasks_row:
  assumes "t \<in> set (td_getTasks \<lparr>qu_status = Some ss, qu_priority = None, qu_assignedTo = None, qu_limit = None\<rparr> d)" and "task_db_ok d"
  obtains r where "jget (td_tasks d) (tk_id t) = Some r" "tr_status r \<in> set ss" "t = rowToTask d (tk_id t) r"
  using assms by (auto simp: td_getTasks_def limited_def by_priority_def td_rows_def query_matches_def truthy_def rowToTask_def
    task_db_ok_def dest: jget_mem)

lemma autocomplete_fold_status:
  "status_of d i = Some a \<Longrightarrow> \<exists>b. status_of (fold (autocomplete_one now msg hash) ts d) i = Some b \<and> (b = a \<or> b = ts_done \<and> (\<exists>t \<in> set ts. tk_id t = i))"
proof (induction ts arbitrary: d a)
  case (Cons t ts)
  obtain b where b: "status_of (autocomplete_one now msg hash t d) i = Some b" "b = a \<or> b = ts_done \<and> tk_id t = i"
    using Cons.prems by (cases "commit_matches msg (tk_title t)"; cases "tk_id t = i")
      (auto simp: autocomplete_one_def status_of_def status_simps)
  show ?case using Cons.IH [OF b(1)] b(2) by auto
qed simp

lemma autoComplete_moves: "task_db_ok (tq_db q) \<Longrightarrow> moves lifecycle_ok (tq_db q) (tq_db (fst (autoCompleteByCommit now msg hash q)))"
proof (unfold moves_def, intro allI impI)
  fix i a
  let ?ts = "td_getTasks \<lparr>qu_status = Some [ts_open, ts_claimed, ts_in_progress], qu_priority = None, qu_assignedTo = None, qu_limit = None\<rparr> (tq_db q)"
  assume ok: "task_db_ok (tq_db q)" and a: "status_of (tq_db q) i = Some a"
  have "lifecycle_ok a ts_done" if "t \<in> set ?ts" "tk_id t = i" for t
    using td_getTasks_row [OF that(1) ok] that(2) a by (force simp: status_of_def lifecycle_ok_def isValidTransition_def)
  with autocomplete_fold_status [OF a, of now msg hash ?ts]
  show "\<exists>b. status_of (tq_db (fst (autoCompleteByCommit now msg hash q))) i = Some b \<and> lifecycle_ok a b"
    by (auto simp: autoCompleteByCommit_def Let_def)
qed

lemma setParentChild_moves: "moves (=) (tq_db q) (tq_db (fst (setParentChild now p cs q)))"
proof -
  have "moves (=) d (fold (\<lambda>c. updateTask now c (\<lambda>r. r\<lparr>tr_parent_task := Some p\<rparr>)) cs (updateTask now p id (setChildren p xs d)))" for d xs
    by (rule moves_comp [OF moves_comp [OF moves_tasks moves_update_same] moves_fold [OF moves_update_same]]) auto
  then show ?thesis by (simp add: setParentChild_def moves_tasks)
qed

lemma addMessage_moves: "moves (=) (tq_db q) (tq_db (fst (addMessage isostr now ident i p role content q)))"
  by (auto simp: addMessage_def Let_def moves_def status_of_def status_simps split: option.splits)

lemma moves_update_where:
  assumes "\<And>r. P r \<Longrightarrow> R (tr_status r) (tr_status (f r))" and "\<And>a. R a a"
  shows "moves R d (fst (update_where P f d))"
proof (unfold moves_def, intro allI impI)
  fix i a
  assume "status_of d i = Some a"
  then obtain r where "jget (td_tasks d) i = Some r" "a = tr_status r" by (auto simp: status_of_def)
  with assms show "\<exists>b. status_of (fst (update_where P f d)) i = Some b \<and> R a b"
    by (cases "P r") (auto simp: status_of_def status_simps)
qed

lemma archive_moves: "moves lifecycle_ok (tq_db q) (tq_db (fst (archiveOldTasks now age q)))"
  by (auto simp: archiveOldTasks_def archiveTasks_def case_prod_beta lifecycle_ok_def isValidTransition_def intro!: moves_update_where)

lemma lost_claim_moves:
  assumes "getTask q i = Some t" "is_active_status (tk_status t)"
  shows "moves lifecycle_ok (tq_db q) (tq_db (fst (updateRemoteStatus now i ts_claimed a None cb None (fst (forceReleaseTask now i q)))))"
proof -
  obtain r where r: "jget (td_tasks (tq_db q)) i = Some r" "tr_status r = tk_status t" using getTask_row [OF assms(1)] by blast
  let ?q = "fst (forceReleaseTask now i q)"
  have q: "tq_db ?q = updateTask now i (\<lambda>r. r\<lparr>tr_status := ts_open, tr_assigned_to := None, tr_claimed_by_node := None, tr_claimed_at := None\<rparr>) (tq_db q)"
    using assms by (simp add: forceReleaseTask_def)
  then obtain u where "getTask ?q i = Some u" "tk_status u = ts_open"
    using r by (auto simp: getTask_def td_getTask_def status_simps assembleFullTask_def rowToTask_def)
  then show ?thesis using assms(2) r q
    by (auto simp: updateRemoteStatus_def isValidTransition_def moves_def status_of_def status_simps remote_fields_def lifecycle_ok_def is_active_status_def)
qed

lemma on_remote_claim_moves: "moves lifecycle_ok (tq_db q) (tq_db (on_remote_claim now sender i st a cb ca q))"
  by (auto simp: on_remote_claim_def Let_def intro: updateRemoteStatus_moves lost_claim_moves split: option.splits)

lemma on_remote_completed_moves: "moves lifecycle_ok (tq_db q) (tq_db (on_remote_completed isostr now sender i st result ex out dur q))"
proof -
  let ?ex = "case present ex of None \<Rightarrow> sender | Some p \<Rightarrow> p"
  let ?q1 = "fst (updateRemoteStatus now i st None result None (Some ?ex) q)"
  have same: "moves lifecycle_ok (tq_db q) d" if "moves (=) (tq_db ?q1) d" for d
    by (rule moves_comp [OF updateRemoteStatus_moves that]) simp
  have "moves (=) (tq_db ?q1) (tq_db (on_remote_completed isostr now sender i st result ex out dur q))"
    unfolding on_remote_completed_def Let_def
    using storeRemoteOutput_moves [of ?q1 now i _ "Some ?ex"]
    by (auto simp: moves_tasks moves_def status_of_def split: option.splits)
  then show ?thesis by (rule same)
qed

lemma onTaskEvent_moves: "moves lifecycle_ok (tq_db q) (tq_db (onTaskEvent isostr now sender e q))"
  by (auto simp: onTaskEvent_def intro: on_remote_claim_moves on_remote_completed_moves moves_same_ok [OF insertRemoteTask_moves]
    moves_same_ok [OF moves_tasks] split: task_event.splits)

section \<open>Clean-up\<close>

text \<open>What one pass of \<^verbatim>\<open>cleanupExpiredTasks\<close> makes of a row, as its comment lists the four cases.\<close>

definition cleanup_spec :: "time \<Rightarrow> task_row \<Rightarrow> task_row option" where
  "cleanup_spec now r =
     (if is_terminal (tr_status r) \<and> tr_updated_at r < now - 7 * 24 * HOUR_MS then None
      else if tr_status r = ts_open \<and> tr_created_at r < now - 48 * HOUR_MS then Some (r\<lparr>tr_status := ts_expired, tr_updated_at := now\<rparr>)
      else if tr_status r = ts_claimed \<and> sql_test (\<lambda>t. t < now - 2 * HOUR_MS) (tr_claimed_at r)
        then Some (r\<lparr>tr_status := ts_open, tr_claimed_by_node := None, tr_claimed_at := None, tr_assigned_to := None, tr_updated_at := now\<rparr>)
      else if tr_status r = ts_in_progress \<and> tr_updated_at r < now - 4 * HOUR_MS
        then Some (r\<lparr>tr_status := ts_open, tr_claimed_by_node := None, tr_claimed_at := None, tr_assigned_to := None,
          tr_executed_by_node := None, tr_updated_at := now\<rparr>)
      else Some r)"

lemma old_terminal_iff:
  "jwf (td_tasks d) \<Longrightarrow> i \<in> set (old_terminal now d) \<longleftrightarrow>
     (\<exists>r. jget (td_tasks d) i = Some r \<and> is_terminal (tr_status r) \<and> tr_updated_at r < now - 7 * 24 * HOUR_MS)"
  by (force simp: old_terminal_def td_rows_def dest: jget_SomeD jget_mem)

lemma HOUR_MS_pos [simp]: "0 < HOUR_MS"
  by (simp add: HOUR_MS_def)

lemma jget_cleanup:
  assumes "task_db_ok d"
  shows "jget (td_tasks (fst (td_cleanupExpiredTasks now d))) i = Option.bind (jget (td_tasks d) i) (cleanup_spec now)"
proof -
  let ?d3 = "fst (reset_in_progress now (fst (reset_claimed now (fst (expire_open now d)))))"
  have ok: "task_db_ok ?d3"
    unfolding expire_open_def reset_claimed_def reset_in_progress_def by (intro inv_intros assms)
  then have wf: "jwf (td_tasks ?d3)" by (simp add: task_db_ok_def)
  have "jget (td_tasks (fst (td_cleanupExpiredTasks now d))) i = (if i \<in> set (old_terminal now ?d3) then None else jget (td_tasks ?d3) i)"
    by (simp add: td_cleanupExpiredTasks_def Let_def case_prod_beta status_simps)
  also have "\<dots> = Option.bind (jget (td_tasks d) i) (cleanup_spec now)"
  proof (cases "jget (td_tasks d) i")
    case None
    then show ?thesis by (simp add: expire_open_def reset_claimed_def reset_in_progress_def status_simps)
  next
    case (Some r)
    then show ?thesis unfolding old_terminal_iff [OF wf]
      by (cases "tr_status r") (simp_all add: expire_open_def reset_claimed_def reset_in_progress_def status_simps cleanup_spec_def is_terminal_def
        HOUR_MS_def)
  qed
  finally show ?thesis .
qed

lemma cleanup_spec_status:
  "case cleanup_spec now r of None \<Rightarrow> is_terminal (tr_status r) | Some r' \<Rightarrow> lifecycle_ok (tr_status r) (tr_status r')"
  by (simp add: cleanup_spec_def lifecycle_ok_def isValidTransition_def)

lemma cleanup_status:
  assumes "task_db_ok d" and "status_of d i = Some a"
  shows "(\<exists>b. status_of (fst (td_cleanupExpiredTasks now d)) i = Some b \<and> lifecycle_ok a b) \<or>
    status_of (fst (td_cleanupExpiredTasks now d)) i = None \<and> is_terminal a"
proof -
  obtain r where r: "jget (td_tasks d) i = Some r" "a = tr_status r" using assms(2) by (auto simp: status_of_def)
  then show ?thesis using cleanup_spec_status [of r now]
    by (cases "cleanup_spec now r") (simp_all add: status_of_def jget_cleanup [OF assms(1)])
qed

lemma run_op_moves:
  assumes "task_db_ok (tq_db q)" and "\<And>now. op \<noteq> op_cleanup now"
  shows "moves lifecycle_ok (tq_db q) (tq_db (run_op isostr op q))"
proof (cases op)
  case (op_create now ident opts) then show ?thesis by (simp add: moves_same_ok createTask_moves)
next
  case (op_claim now i agent) then show ?thesis by (simp add: claimTask_moves)
next
  case (op_status now i st a) then show ?thesis by (simp add: updateStatus_moves)
next
  case (op_complete now i res info) then show ?thesis by (simp add: completeTask_moves)
next
  case (op_reject now i reason) then show ?thesis by (simp add: rejectTask_moves)
next
  case (op_release now i agent) then show ?thesis by (simp add: releaseTask_moves)
next
  case (op_force now i) then show ?thesis by (simp add: forceReleaseTask_moves)
next
  case (op_relate now i cs) then show ?thesis by (simp add: moves_same_ok setParentChild_moves)
next
  case (op_commit now msg hash) then show ?thesis by (simp add: autoComplete_moves assms(1))
next
  case (op_push now i e b) then show ?thesis by (simp add: moves_same_ok moves_tasks)
next
  case (op_message now ident i p role content) then show ?thesis by (simp add: moves_same_ok addMessage_moves)
next
  case (op_archive now age) then show ?thesis by (simp add: archive_moves)
next
  case (op_event now sender e) then show ?thesis by (simp add: onTaskEvent_moves)
next
  case (op_sync ts) then show ?thesis by (simp add: moves_same_ok handleSyncResponse_moves)
qed (use assms(2) in \<open>auto simp: setResultNote_def setQaTier_def setRoleMetadata_def intro!: moves_same_ok moves_update_same\<close>)

lemma run_op_status:
  assumes "task_db_ok (tq_db q)" and "status_of (tq_db q) i = Some a"
  shows "(\<exists>b. status_of (tq_db (run_op isostr op q)) i = Some b \<and> lifecycle_ok a b) \<or>
    status_of (tq_db (run_op isostr op q)) i = None \<and> is_terminal a"
proof (cases "\<exists>now. op = op_cleanup now")
  case True
  then obtain now where "op = op_cleanup now" by blast
  then show ?thesis using cleanup_status [OF assms, of now] by (simp add: cleanupExpiredTasks_def case_prod_beta)
next
  case False
  then show ?thesis using run_op_moves [OF assms(1), of op isostr] assms(2) by (auto simp: moves_def)
qed

lemma only_cleanup_removes:
  assumes "task_db_ok (tq_db q)" and "jget (td_tasks (tq_db q)) i = Some r" and "jget (td_tasks (tq_db (run_op isostr op q))) i = None"
  shows "\<exists>now. op = op_cleanup now \<and> is_terminal (tr_status r) \<and> tr_updated_at r < now - 7 * 24 * HOUR_MS"
proof -
  have "\<exists>now. op = op_cleanup now"
    using run_op_moves [OF assms(1), of op isostr] assms(2,3) by (force simp: moves_def status_of_def)
  then obtain now where op: "op = op_cleanup now" by blast
  with assms have "cleanup_spec now r = None" by (simp add: cleanupExpiredTasks_def case_prod_beta jget_cleanup)
  then show ?thesis using op by (auto simp: cleanup_spec_def split: if_splits)
qed

lemma owned_none: "owned d u \<Longrightarrow> \<not> td_exists d i \<Longrightarrow> related u i = []"
  by (auto simp: related_def filter_empty_conv owned_def list_all_iff)

lemma thread_fold_delete: "td_thread (fold delete_task is d) = filter (\<lambda>e. tm_taskId (snd e) \<notin> set is) (td_thread d)"
  by (induction "is" arbitrary: d) (auto simp: delete_task_def intro!: filter_cong)

lemma getThread_none: "(\<And>e. e \<in> set (td_thread d) \<Longrightarrow> tm_taskId (snd e) \<noteq> i) \<Longrightarrow> getThread d i = []"
proof -
  assume "\<And>e. e \<in> set (td_thread d) \<Longrightarrow> tm_taskId (snd e) \<noteq> i"
  then have "filter (\<lambda>m. tm_taskId m = i) (jvals (td_thread d)) = []" by (auto simp: filter_empty_conv jvals_def)
  then show ?thesis by (simp add: getThread_def)
qed

lemma cleanup_thread:
  assumes "task_db_ok d" "jget (td_tasks d) i = Some r" "cleanup_spec now r = None"
  shows "getThread (fst (td_cleanupExpiredTasks now d)) i = []"
proof -
  let ?d3 = "fst (reset_in_progress now (fst (reset_claimed now (fst (expire_open now d)))))"
  have ok: "task_db_ok ?d3"
    unfolding expire_open_def reset_claimed_def reset_in_progress_def by (intro inv_intros assms(1))
  then have "i \<in> set (old_terminal now ?d3)"
    using assms(2,3) by (simp add: old_terminal_iff task_db_ok_def expire_open_def reset_claimed_def reset_in_progress_def status_simps
      cleanup_spec_def split: if_splits) (auto simp: is_terminal_def)
  then show ?thesis
    by (intro getThread_none) (auto simp: td_cleanupExpiredTasks_def Let_def case_prod_beta thread_fold_delete)
qed

section \<open>Runs\<close>

lemma db_ok_empty: "task_db_ok empty_task_db"
  by (simp add: task_db_ok_def empty_task_db_def owned_def)

lemma db_ok_new_queue: "task_db_ok (tq_db (new_queue self net file))"
  by (auto simp: new_queue_def migrateFromJson_def intro!: db_ok_fold inv_intros db_ok_empty split: option.splits)

lemma task_run_ok: "task_run isostr (new_queue self net file) q \<Longrightarrow> task_db_ok (tq_db q)"
  by (induction rule: task_run.induct) (simp_all add: db_ok_new_queue db_ok_run_op)

text \<open>A store whose steps move the status of an entry along \<open>allowed\<close> and drop only entries with a \<open>removable\<close> status.\<close>

locale life_cycle =
  fixes status :: "'s \<Rightarrow> 'k \<Rightarrow> 'a option" and step :: "'o \<Rightarrow> 's \<Rightarrow> 's" and invar :: "'s \<Rightarrow> bool"
    and allowed :: "'a \<Rightarrow> 'a \<Rightarrow> bool" and removable :: "'a \<Rightarrow> bool"
  assumes invar_step: "invar s \<Longrightarrow> invar (step x s)"
    and status_step: "invar s \<Longrightarrow> status s k = Some a \<Longrightarrow>
      (\<exists>b. status (step x s) k = Some b \<and> allowed a b) \<or> status (step x s) k = None \<and> removable a"
begin

lemma stays_closed:
  assumes "\<And>a b. P a \<Longrightarrow> allowed a b \<Longrightarrow> P b" and "\<And>a. P a \<Longrightarrow> \<not> removable a"
  shows "invar s \<Longrightarrow> status s k = Some a \<Longrightarrow> P a \<Longrightarrow> \<exists>b. status (fold step xs s) k = Some b \<and> P b"
proof (induction xs arbitrary: s a)
  case (Cons x xs)
  then obtain b where "status (step x s) k = Some b" "P b" using status_step assms by blast
  then show ?case using Cons.IH [OF invar_step] Cons.prems by simp
qed simp

lemma stays_final:
  assumes "invar s" "status s k = Some a" "\<not> removable a" and "\<And>b. allowed a b \<Longrightarrow> b = a"
  shows "status (fold step xs s) k = Some a"
  using stays_closed [where P = "\<lambda>b. b = a"] assms by blast

end

interpretation tasks: life_cycle "\<lambda>q. status_of (tq_db q)" "run_op isostr" "\<lambda>q. task_db_ok (tq_db q)" lifecycle_ok is_terminal
  for isostr
  by unfold_locales (simp_all add: db_ok_run_op run_op_status)

section \<open>Properties\<close>

definition demo_task :: "string \<Rightarrow> TaskStatus \<Rightarrow> string list \<Rightarrow> Task" where
  "demo_task i st fs =
     \<lparr>tk_id = i, tk_title = ''t'', tk_description = [], tk_priority = tp_high, tk_status = st, tk_createdBy = ''u'', tk_assignedTo = None,
      tk_files = fs, tk_dependencies = [], tk_createdAt = 5, tk_updatedAt = 5, tk_result = None, tk_origin = None, tk_timeline = [],
      tk_parentTask = None, tk_childTasks = [], tk_roleMetadata = None, tk_claimedByNode = None, tk_claimedAt = None, tk_originNode = None,
      tk_executedByNode = None, tk_cost = None, tk_proposalId = None, tk_qaTier = None, tk_thread = [], tk_requiredCapabilities = None,
      tk_requiredResources = None, tk_managerId = None\<rparr>"

definition demo_queue :: "TaskStatus \<Rightarrow> task_queue" where
  "demo_queue st = new_queue ''A'' True (Some [demo_task ''t'' st []])"

lemma demo_run: "task_run isostr (new_queue ''A'' True (Some [demo_task ''t'' st []])) (demo_queue st)"
  by (simp add: demo_queue_def task_run.start)

lemma demo_row: "jget (td_tasks (tq_db (demo_queue st))) ''t'' = Some (taskToRow (demo_task ''t'' st []))"
  by (simp add: demo_queue_def new_queue_def migrateFromJson_def td_getStats_def empty_task_db_def status_simps td_exists_def jhas_def)
    (simp add: demo_task_def)

lemma demo_getTask: "\<exists>t. getTask (demo_queue st) ''t'' = Some t \<and> tk_status t = st"
  by (simp add: getTask_def td_getTask_def demo_row assembleFullTask_def rowToTask_def taskToRow_def demo_task_def)

text \<open>C16: In every state a run of the queue reaches from its start, whatever call comes next (local calls, events and tasks of other
  nodes, the clean-up): a task keeps its status or changes it along \<^verbatim>\<open>VALID_TRANSITIONS\<close>, the one exception being
  that a task in progress on this node may fall back to claimed when another node wins the claim; and a task disappears only
  when the clean-up finds it done, rejected or expired and unchanged for seven days.\<close>

theorem task_lifecycle:
  assumes "task_run isostr (new_queue self net file) q" and "getTask q i = Some t"
  shows "case getTask (run_op isostr op q) i of
      None \<Rightarrow> (\<exists>now. op = op_cleanup now \<and> is_terminal (tk_status t) \<and> tk_updatedAt t < now - 7 * 24 * HOUR_MS)
    | Some t' \<Rightarrow> tk_status t' = tk_status t \<or> isValidTransition (tk_status t) (tk_status t') \<or>
        tk_status t = ts_in_progress \<and> tk_status t' = ts_claimed"
proof -
  obtain r where r: "jget (td_tasks (tq_db q)) i = Some r" "t = assembleFullTask (tq_db q) i r" using getTask_row [OF assms(2)] by blast
  note ok = task_run_ok [OF assms(1)]
  show ?thesis
  proof (cases "getTask (run_op isostr op q) i")
    case None
    then have "jget (td_tasks (tq_db (run_op isostr op q))) i = None" by (simp add: getTask_def td_getTask_def)
    from only_cleanup_removes [OF ok r(1) this] None show ?thesis by (simp add: r(2) assembleFullTask_def rowToTask_def)
  next
    case (Some t')
    then show ?thesis using run_op_status [OF ok getTask_SomeD [OF assms(2)], of isostr op] getTask_SomeD [OF Some]
      by (auto simp: lifecycle_ok_def)
  qed
qed

theorem task_lifecycle_witness:
  "case getTask (run_op (\<lambda>_. []) (op_status 9 ''t'' ts_in_progress None) (demo_queue ts_claimed)) ''t'' of
      None \<Rightarrow> False
    | Some t' \<Rightarrow> tk_status t' = ts_claimed \<or> isValidTransition ts_claimed (tk_status t')"
proof -
  obtain t where t: "getTask (demo_queue ts_claimed) ''t'' = Some t" "tk_status t = ts_claimed" using demo_getTask by blast
  show ?thesis using task_lifecycle [where isostr = "\<lambda>_. []" and op = "op_status 9 ''t'' ts_in_progress None", OF demo_run t(1)] t(2)
    by (auto simp: is_terminal_def split: option.splits)
qed

text \<open>An archived task is final: no sequence of calls, local or remote, changes its status or removes it.\<close>

lemma archived_is_final:
  assumes "task_run isostr (new_queue self net file) q" and "getTask q i = Some t" and "tk_status t = ts_archived"
  shows "\<exists>t'. getTask (fold (run_op isostr) ops q) i = Some t' \<and> tk_status t' = ts_archived"
proof -
  have "status_of (tq_db (fold (run_op isostr) ops q)) i = Some ts_archived"
    by (rule tasks.stays_final [OF task_run_ok [OF assms(1)]])
      (use getTask_SomeD [OF assms(2)] assms(3) in \<open>auto simp: is_terminal_def lifecycle_ok_def isValidTransition_def\<close>)
  then show ?thesis by (auto simp flip: status_of_getTask)
qed

lemma archived_is_final_witness:
  "\<exists>t'. getTask (fold (run_op (\<lambda>_. [])) [op_status 9 ''t'' ts_open None, op_cleanup (10 ^ 12)] (demo_queue ts_archived)) ''t'' = Some t' \<and>
    tk_status t' = ts_archived"
proof -
  obtain t where t: "getTask (demo_queue ts_archived) ''t'' = Some t" "tk_status t = ts_archived" using demo_getTask by blast
  show ?thesis by (rule archived_is_final [OF demo_run t])
qed

text \<open>One pass of the clean-up treats every task exactly as its documentation lists the cases (expire open tasks after 48
  hours, reopen claims after two hours and work after four, delete finished tasks after seven days), each task by its state
  before the pass; nothing is left of a deleted task in the tables of files, dependencies, children, timeline and thread.\<close>

lemma cleanup_is_exact:
  assumes "task_run isostr (new_queue self net file) q" and "jget (td_tasks (tq_db q)) i = Some r"
  shows "let d' = tq_db (fst (cleanupExpiredTasks now q)) in
    case cleanup_spec now r of
      Some r' \<Rightarrow> jget (td_tasks d') i = Some r'
    | None \<Rightarrow> jget (td_tasks d') i = None \<and> getFiles d' i = [] \<and> getDependencies d' i = [] \<and> getChildren d' i = [] \<and>
        getTimeline d' i = [] \<and> getThread d' i = []"
proof -
  note ok = task_run_ok [OF assms(1)]
  let ?d' = "fst (td_cleanupExpiredTasks now (tq_db q))"
  have row: "jget (td_tasks ?d') i = cleanup_spec now r" by (simp add: jget_cleanup ok assms(2))
  have ok': "task_db_ok ?d'" by (rule db_ok_cleanup [OF ok])
  have "getThread ?d' i = []" if "cleanup_spec now r = None" using cleanup_thread [OF ok assms(2) that] .
  then show ?thesis using row ok'
    by (auto simp: cleanupExpiredTasks_def case_prod_beta task_db_ok_def getFiles_def getDependencies_def getChildren_def getTimeline_def
      td_exists_def jhas_def Let_def intro!: owned_none split: option.splits)
qed

lemma cleanup_is_exact_witness:
  "jget (td_tasks (tq_db (fst (cleanupExpiredTasks (10 ^ 9) (demo_queue ts_done))))) ''t'' = None \<and>
   getFiles (tq_db (fst (cleanupExpiredTasks (10 ^ 9) (demo_queue ts_done)))) ''t'' = []"
  using cleanup_is_exact [where now = "10 ^ 9", OF demo_run demo_row [of ts_done]]
  by (simp add: Let_def cleanup_spec_def taskToRow_def demo_task_def is_terminal_def HOUR_MS_def)

end
