(* ===== verification/TaskClaims.thy ===== *)
theory TaskClaims
  imports TaskLifecycle
begin

text \<open>
  Claims: the task that \<^verbatim>\<open>getNextClaimable\<close> offers, the exclusive use of files by active tasks, the outcome of two nodes
  claiming one task at once, and what the database keeps of a task.
\<close>

section \<open>Order of the open tasks\<close>

definition lex_le :: "('a \<Rightarrow> nat) \<Rightarrow> ('a \<Rightarrow> int) \<Rightarrow> 'a \<Rightarrow> 'a \<Rightarrow> bool" where
  "lex_le f g x y = (f x < f y \<or> f x = f y \<and> g x \<le> g y)"

lemma lex_insort:
  assumes "sorted_wrt (lex_le f g) ys" and "\<And>y. y \<in> set ys \<Longrightarrow> g x \<le> g y"
  shows "sorted_wrt (lex_le f g) (insort_key f x ys)"
  using assms
proof (induction ys)
  case (Cons y ys)
  show ?case
  proof (cases "f x \<le> f y")
    case True
    have "lex_le f g x z" if "z \<in> set (y # ys)" for z
      using that True Cons.prems by (auto simp: lex_le_def dest!: bspec)
    then show ?thesis using True Cons.prems(1) by simp
  next
    case False
    then have "lex_le f g y x" by (simp add: lex_le_def)
    then show ?thesis using False Cons by (simp add: set_insort_key)
  qed
qed simp

lemma lex_sort: "sorted_wrt (\<lambda>x y. g x \<le> g y) xs \<Longrightarrow> sorted_wrt (lex_le f g) (sort_key f xs)"
  by (induction xs) (auto intro: lex_insort)

lemma by_priority_sorted:
  "sorted_wrt (lex_le (\<lambda>e. priority_rank (tr_priority (snd e))) (\<lambda>e. tr_created_at (snd e))) (by_priority es)"
  unfolding by_priority_def by (rule lex_sort) (metis sorted_map sorted_sort_key)

lemma find_first:
  assumes "sorted_wrt R xs" "\<And>x. R x x" "find P xs = Some x" "u \<in> set xs" "P u"
  shows "R x u"
  using assms by (induction xs) (auto split: if_splits)

definition task_le :: "Task \<Rightarrow> Task \<Rightarrow> bool" where
  "task_le = lex_le (\<lambda>t. priority_rank (tk_priority t)) tk_createdAt"

lemma open_tasks_sorted: "sorted_wrt task_le (open_tasks d)"
  using by_priority_sorted [unfolded lex_le_def]
  by (simp add: open_tasks_def td_getTasks_def limited_def sorted_wrt_map task_le_def lex_le_def rowToTask_def)

definition eligible :: "task_queue \<Rightarrow> Task \<Rightarrow> bool" where
  "eligible q t = (tk_status t = ts_open \<and> claimable (tq_db q) (Some (tq_localPeerId q)) t)"

lemma open_tasks_complete:
  assumes "jget (td_tasks d) i = Some r" "tr_status r = ts_open"
  shows "rowToTask d i r \<in> set (open_tasks d)"
  using assms jget_SomeD [OF assms(1)]
  by (force simp: open_tasks_def td_getTasks_def limited_def by_priority_def td_rows_def query_matches_def truthy_def)

lemma open_tasks_row:
  assumes "task_db_ok d" "t \<in> set (open_tasks d)"
  obtains r where "jget (td_tasks d) (tk_id t) = Some r" "tr_status r = ts_open" "t = rowToTask d (tk_id t) r"
  using td_getTasks_row [OF assms(2) [unfolded open_tasks_def] assms(1)] by auto

lemma claimTask_eligible:
  assumes "getTask q i = Some t" "eligible q t"
  shows "snd (claimTask now i agent q) = None"
proof -
  have "tk_dependencies t = getDependencies (tq_db q) i"
    using assms(1) by (auto simp: getTask_def td_getTask_def assembleFullTask_def rowToTask_def)
  then have "getUnmetDependency (tq_db q) i = None" "getConflictingFiles (tq_db q) (tk_files t) = None"
    using assms(2) by (auto simp: eligible_def claimable_def getUnmetDependency_def getConflictingFiles_def find_None_iff list_all_iff list_ex_iff)
  with assms show ?thesis by (simp add: claimTask_def eligible_def present_def truthy_def Let_def)
qed

lemma eligible_full: "eligible q (assembleFullTask d i r) = eligible q (rowToTask d i r)"
  by (simp add: eligible_def claimable_def elsewhere_def assembleFullTask_def)

section \<open>File locks\<close>

definition active :: "task_db \<Rightarrow> string \<Rightarrow> bool" where
  "active d i = (case status_of d i of None \<Rightarrow> False | Some a \<Rightarrow> is_active_status a)"

text \<open>No file belongs to two active tasks, and none is the empty path, which \<^verbatim>\<open>claimTask\<close> takes for no conflict.\<close>

definition locks_disjoint :: "task_db \<Rightarrow> bool" where
  "locks_disjoint d = ((\<forall>i j f. i \<noteq> j \<and> active d i \<and> active d j \<longrightarrow> f \<notin> set (getFiles d i) \<or> f \<notin> set (getFiles d j)) \<and>
     (\<forall>i. active d i \<longrightarrow> [] \<notin> set (getFiles d i)))"

definition calm :: "task_db \<Rightarrow> task_db \<Rightarrow> bool" where
  "calm d d' = (\<forall>i. active d' i \<longrightarrow> active d i \<and> set (getFiles d' i) \<subseteq> set (getFiles d i))"

lemma calm_refl [simp]: "calm d d"
  by (simp add: calm_def)

lemma calm_trans: "calm d d' \<Longrightarrow> calm d' d'' \<Longrightarrow> calm d d''"
  unfolding calm_def by blast

lemma calm_locks: "calm d d' \<Longrightarrow> locks_disjoint d \<Longrightarrow> locks_disjoint d'"
  unfolding calm_def locks_disjoint_def by blast

lemma calm_same: "td_tasks d' = td_tasks d \<Longrightarrow> td_files d' = td_files d \<Longrightarrow> calm d d'"
  by (simp add: calm_def active_def status_of_def getFiles_def)

lemma td_files_simps [simp]:
  "td_files (updateTask now i f d) = td_files d" "td_files (insertTimelineEvent i e d) = td_files d"
  "td_files (insertThreadMessage m d) = td_files d" "td_files (setDependencies i xs d) = td_files d"
  "td_files (setChildren i xs d) = td_files d" "td_files (insertTask t d) = td_files d"
  "td_files (fst (update_where P g d)) = td_files d"
  by (simp_all add: updateTask_def insertTimelineEvent_def insertThreadMessage_def setDependencies_def setChildren_def insertTask_def update_where_def)

lemma calm_update:
  assumes "\<And>r. jget (td_tasks d) i = Some r \<Longrightarrow> is_active_status (tr_status (f r)) \<Longrightarrow> is_active_status (tr_status r)"
  shows "calm d (updateTask now i f d)"
  using assms by (auto simp: calm_def active_def status_of_def status_simps getFiles_def split: option.splits)

lemma calm_update_where:
  assumes "\<And>r. P r \<Longrightarrow> is_active_status (tr_status (f r)) \<Longrightarrow> is_active_status (tr_status r)"
  shows "calm d (fst (update_where P f d))"
  using assms by (auto simp: calm_def active_def status_of_def status_simps getFiles_def split: option.splits if_splits)

lemma calm_fold: "(\<And>x e. calm e (f x e)) \<Longrightarrow> calm d (fold f xs d)"
  by (induction xs arbitrary: d) (auto intro: calm_trans)

lemma calm_delete: "calm d (delete_task i d)"
  by (auto simp: calm_def active_def status_of_def delete_task_def getFiles_def related_def drop_related_def split: option.splits if_splits)

lemma set_getFiles: "f \<in> set (getFiles d i) \<longleftrightarrow> (i, f) \<in> set (td_files d)"
  by (force simp: getFiles_def related_def)

lemma td_files_fold_thread [simp]: "td_files (fold insertThreadMessage ms d) = td_files d"
  by (induction ms arbitrary: d) simp_all

lemma td_files_fold_timeline [simp]: "td_files (fold (insertTimelineEvent i) es d) = td_files d"
  by (induction es arbitrary: d) simp_all

lemma td_files_insert_full:
  "td_files (insert_full t d) = (if tk_files t = [] then td_files d else set_related (tk_id t) (tk_files t) (td_files d))"
  by (simp add: insert_full_def when_any_def Let_def setFiles_def)

lemma calm_insert_full:
  assumes "\<not> td_exists d (tk_id t)" "\<not> is_active_status (tk_status t)"
  shows "calm d (insert_full t d)"
  unfolding calm_def
proof (intro allI impI)
  fix i
  assume act: "active (insert_full t d) i"
  then have i: "td_exists d i" "active d i"
    using assms by (auto simp: active_def status_simps split: option.splits if_splits)
  then have "i \<noteq> tk_id t" using assms by auto
  then show "active d i \<and> set (getFiles (insert_full t d) i) \<subseteq> set (getFiles d i)"
    using i by (auto simp: set_getFiles td_files_insert_full set_set_related split: if_splits)
qed

lemma calm_insertRemoteTask: "\<not> is_active_status (tk_status t) \<Longrightarrow> calm (tq_db q) (tq_db (fst (insertRemoteTask t q)))"
  by (simp add: insertRemoteTask_def calm_insert_full)

lemma calm_sync: "list_all (\<lambda>t. \<not> is_active_status (tk_status t)) ts \<Longrightarrow> calm (tq_db q) (tq_db (task_handleSyncResponse ts q))"
  unfolding task_handleSyncResponse_def
proof (induction ts arbitrary: q)
  case (Cons t ts)
  have "calm (tq_db q) (tq_db (fst (insertRemoteTask t q)))" using Cons.prems by (simp add: calm_insertRemoteTask)
  moreover have "calm (tq_db (fst (insertRemoteTask t q))) (tq_db (fold (\<lambda>t g. fst (insertRemoteTask t g)) ts (fst (insertRemoteTask t q))))"
    using Cons.prems by (intro Cons.IH) simp
  ultimately show ?case by (simp add: calm_trans)
qed simp

lemma calm_status_update:
  assumes "getTask q i = Some t" and "\<And>r. tr_status (f r) = s" and "is_active_status s \<Longrightarrow> is_active_status (tk_status t)"
  shows "calm (tq_db q) (updateTask now i f (tq_db q))"
  using assms getTask_row [OF assms(1)] by (intro calm_update) auto

lemma in_progress_from: "isValidTransition a s \<Longrightarrow> s \<noteq> ts_claimed \<Longrightarrow> is_active_status s \<Longrightarrow> is_active_status a"
  by (cases a) (auto simp: isValidTransition_def is_active_status_def)

lemma calm_updateStatus: "st \<noteq> ts_claimed \<Longrightarrow> calm (tq_db q) (tq_db (fst (updateStatus now i st a q)))"
  by (auto simp: updateStatus_def intro!: calm_status_update dest: in_progress_from split: option.splits)

lemma calm_updateRemoteStatus:
  "st \<noteq> ts_claimed \<Longrightarrow> calm (tq_db q) (tq_db (fst (updateRemoteStatus now i st a res cb eb q)))"
  by (auto simp: updateRemoteStatus_def remote_fields_def intro!: calm_status_update dest: in_progress_from split: option.splits)

lemma calm_reopen:
  "calm (tq_db q) (tq_db (fst (rejectTask now i reason q)))" "calm (tq_db q) (tq_db (fst (releaseTask now i agent q)))"
  "calm (tq_db q) (tq_db (fst (forceReleaseTask now i q)))"
  by (auto simp: rejectTask_def releaseTask_def forceReleaseTask_def is_active_status_def intro!: calm_update split: option.splits)

lemma calm_cascade: "calm d (cascade_reject isostr now p c d)"
proof -
  have ev: "calm d (insertTimelineEvent c e d')" if "calm d d'" for e d'
    by (rule calm_trans [OF that]) (simp add: calm_same)
  show ?thesis by (auto simp: cascade_reject_def is_active_status_def intro!: ev calm_update split: option.splits)
qed

lemma approve_fold_files [simp]: "td_files (fold (approve_sibling isostr now i p) ss d) = td_files d"
  by (induction ss arbitrary: d) (simp_all add: approve_sibling_def split: option.splits)

lemma approve_siblings_files [simp]: "td_files (approve_siblings isostr now i d) = td_files d"
  by (simp add: approve_siblings_def split: option.splits)

lemma calm_complete: "calm (tq_db q) (tq_db (fst (completeTask isostr now i res info q)))"
proof -
  let ?d1 = "updateTask now i (complete_fields (tq_localPeerId q) res info) (tq_db q)"
  let ?d2 = "fold (cascade_reject isostr now i) (getChildren (tq_db q) i) ?d1"
  have "calm (tq_db q) ?d1" by (rule calm_update) (simp add: complete_fields_def is_active_status_def)
  then have "calm (tq_db q) ?d2" by (rule calm_trans) (rule calm_fold [OF calm_cascade])
  moreover have "calm ?d2 (approve_siblings isostr now i ?d2)" by (simp add: calm_same)
  ultimately show ?thesis by (auto simp: completeTask_def Let_def intro: calm_trans split: option.splits)
qed

lemma calm_cleanup: "calm d (fst (td_cleanupExpiredTasks now d))"
proof -
  let ?d1 = "fst (expire_open now d)" let ?d2 = "fst (reset_claimed now ?d1)" let ?d3 = "fst (reset_in_progress now ?d2)"
  have "calm d ?d1" unfolding expire_open_def by (rule calm_update_where) (simp add: is_active_status_def)
  moreover have "calm ?d1 ?d2" unfolding reset_claimed_def by (rule calm_update_where) (simp add: is_active_status_def)
  moreover have "calm ?d2 ?d3" unfolding reset_in_progress_def by (rule calm_update_where) (simp add: is_active_status_def)
  moreover have "calm ?d3 (fold delete_task (old_terminal now ?d3) ?d3)" by (rule calm_fold) (rule calm_delete)
  ultimately show ?thesis by (simp add: td_cleanupExpiredTasks_def Let_def case_prod_beta) (blast intro: calm_trans)
qed

lemma calm_commit: "calm (tq_db q) (tq_db (fst (autoCompleteByCommit now msg hash q)))"
  by (auto simp: autoCompleteByCommit_def autocomplete_one_def Let_def is_active_status_def intro!: calm_fold calm_update)

lemma calm_setParentChild: "calm (tq_db q) (tq_db (fst (setParentChild now p cs q)))"
proof -
  have "calm d (fold (\<lambda>c. updateTask now c (\<lambda>r. r\<lparr>tr_parent_task := Some p\<rparr>)) cs (updateTask now p id (setChildren p xs d)))" for d xs
    by (rule calm_trans [OF calm_trans [OF calm_same calm_update] calm_fold [OF calm_update]]) simp_all
  then show ?thesis by (simp add: setParentChild_def)
qed

lemma calm_addMessage: "calm (tq_db q) (tq_db (fst (addMessage isostr now ident i p role content q)))"
proof -
  have "calm d (updateTask now i id (insertThreadMessage m d))" for d m
    by (rule calm_trans [OF calm_same calm_update]) simp_all
  then show ?thesis by (auto simp: addMessage_def Let_def split: option.splits)
qed

lemma td_files_pushTimelineEvent [simp]: "td_files (tq_db (pushTimelineEvent isostr now i e b q)) = td_files (tq_db q)"
  by (simp add: pushTimelineEvent_def Let_def split: option.splits)

lemma calm_storeRemoteOutput: "calm (tq_db q) (tq_db (fst (storeRemoteOutput now i s p q)))"
  by (auto simp: storeRemoteOutput_def intro!: calm_update split: option.splits)

lemma calm_remote_completed:
  "st \<noteq> ts_claimed \<Longrightarrow> calm (tq_db q) (tq_db (on_remote_completed isostr now sender i st res ex out dur q))"
proof -
  assume st: "st \<noteq> ts_claimed"
  let ?ex = "case present ex of None \<Rightarrow> sender | Some p \<Rightarrow> p"
  let ?q1 = "fst (updateRemoteStatus now i st None res None (Some ?ex) q)"
  have push: "calm d (tq_db (pushTimelineEvent isostr now i e True g))" if "calm d (tq_db g)" for d e g
    by (rule calm_trans [OF that]) (simp add: calm_same)
  have "calm (tq_db ?q1) (tq_db (on_remote_completed isostr now sender i st res ex out dur q))"
    unfolding on_remote_completed_def Let_def by (auto intro!: push calm_storeRemoteOutput split: option.splits)
  with calm_updateRemoteStatus [OF st] show ?thesis by (rule calm_trans)
qed

lemma locked_iff: "f \<in> set (getLockedFiles d) \<longleftrightarrow> (\<exists>i. active d i \<and> f \<in> set (getFiles d i))"
  by (force simp: getLockedFiles_def active_def status_of_def set_getFiles split: option.splits)

lemma claim_locks:
  assumes "locks_disjoint (tq_db q)" and "[] \<notin> set (getFiles (tq_db q) i)"
  shows "locks_disjoint (tq_db (fst (claimTask now i agent q)))"
proof (cases "snd (claimTask now i agent q)")
  case None
  then obtain t where t: "getTask q i = Some t" "present (getConflictingFiles (tq_db q) (tk_files t)) = None"
    by (auto simp: claimTask_def Let_def split: option.splits if_splits)
  let ?f = "\<lambda>r. r\<lparr>tr_status := ts_claimed, tr_assigned_to := Some agent, tr_claimed_by_node := present (Some (tq_localPeerId q)), tr_claimed_at := Some now\<rparr>"
  let ?d = "updateTask now i ?f (tq_db q)"
  have db: "tq_db (fst (claimTask now i agent q)) = ?d" using None by (auto simp: claimTask_def Let_def split: option.splits if_splits)
  have files: "getFiles ?d j = getFiles (tq_db q) j" for j by (simp add: getFiles_def)
  have act: "active ?d j \<longleftrightarrow> active (tq_db q) j" if "j \<noteq> i" for j using that by (simp add: active_def status_of_def status_simps)
  have "[] \<notin> set (getLockedFiles (tq_db q))" using assms(1) by (auto simp: locked_iff locks_disjoint_def)
  then have "getConflictingFiles (tq_db q) (tk_files t) = None"
    using t(2) by (auto simp: getConflictingFiles_def present_def truthy_def find_Some_iff split: option.splits if_splits)
  moreover have "tk_files t = getFiles (tq_db q) i" using t(1) by (auto simp: getTask_def td_getTask_def assembleFullTask_def rowToTask_def)
  ultimately have free: "f \<notin> set (getFiles (tq_db q) j)" if "active (tq_db q) j" "f \<in> set (getFiles (tq_db q) i)" for j f
    using that by (auto simp: getConflictingFiles_def find_None_iff locked_iff)
  show ?thesis unfolding db locks_disjoint_def files
    using assms act free unfolding locks_disjoint_def by metis
next
  case (Some e)
  then have "fst (claimTask now i agent q) = q" by (auto simp: claimTask_def Let_def split: option.splits if_splits)
  with assms show ?thesis by simp
qed

text \<open>
  The calls that respect the locks: creation under a fresh id, claims through \<^verbatim>\<open>claimTask\<close> of tasks without an empty path, and
  every other call that does not itself set a task to claimed or bring in an active one.
\<close>

fun respects_locks :: "task_op \<Rightarrow> task_queue \<Rightarrow> bool" where
  "respects_locks (op_create now ident opts) q = (\<not> td_exists (tq_db q) ident)"
| "respects_locks (op_claim now i agent) q = ([] \<notin> set (getFiles (tq_db q) i))"
| "respects_locks (op_status now i st a) q = (st \<noteq> ts_claimed)"
| "respects_locks (op_event now sender e) q =
     (case e of event_created t \<Rightarrow> \<not> is_active_status (tk_status t) | event_claimed i title prio st a cb ca \<Rightarrow> False
      | event_completed i title prio st a res ex origin out dur \<Rightarrow> st \<noteq> ts_claimed | _ \<Rightarrow> True)"
| "respects_locks (op_sync ts) q = list_all (\<lambda>t. \<not> is_active_status (tk_status t)) ts"
| "respects_locks _ q = True"

inductive lock_run :: "(time \<Rightarrow> string) \<Rightarrow> task_queue \<Rightarrow> task_queue \<Rightarrow> bool" for isostr q0 where
  start: "lock_run isostr q0 q0"
| further: "lock_run isostr q0 q \<Longrightarrow> respects_locks op q \<Longrightarrow> lock_run isostr q0 (run_op isostr op q)"

lemma calm_event:
  assumes "respects_locks (op_event now sender e) q"
  shows "calm (tq_db q) (tq_db (onTaskEvent isostr now sender e q))"
proof -
  have tl: "calm (tq_db q) (tq_db (fst (applyRemoteTimelineEvent i ev q)))" for i ev
    by (rule calm_same) (simp_all add: applyRemoteTimelineEvent_def)
  show ?thesis using assms
    by (cases e) (simp_all add: onTaskEvent_def calm_remote_completed tl calm_insertRemoteTask)
qed

lemma calm_run_op:
  assumes "respects_locks op q" "\<And>now i agent. op \<noteq> op_claim now i agent"
  shows "calm (tq_db q) (tq_db (run_op isostr op q))"
proof (cases op)
  case (op_create now ident opts)
  then show ?thesis using assms(1)
    by (auto simp: createTask_def Let_def new_task_def is_active_status_def intro!: calm_insert_full split: option.splits)
next
  case (op_event now sender e)
  then show ?thesis using calm_event assms(1) by simp
next
  case (op_archive now age)
  then show ?thesis by (auto simp: archiveOldTasks_def archiveTasks_def case_prod_beta is_active_status_def intro!: calm_update_where)
qed (use assms in \<open>auto simp: calm_updateStatus calm_complete calm_reopen calm_setParentChild calm_commit calm_addMessage calm_sync calm_same
    cleanupExpiredTasks_def case_prod_beta calm_cleanup setResultNote_def setQaTier_def setRoleMetadata_def intro!: calm_update\<close>)

lemma run_op_locks:
  assumes "locks_disjoint (tq_db q)" "respects_locks op q"
  shows "locks_disjoint (tq_db (run_op isostr op q))"
proof (cases "\<exists>now i agent. op = op_claim now i agent")
  case True
  with assms show ?thesis by (auto simp: claim_locks)
next
  case False
  then have "calm (tq_db q) (tq_db (run_op isostr op q))" using calm_run_op [OF assms(2)] by blast
  then show ?thesis using assms(1) by (rule calm_locks)
qed

lemma lock_run_locks: "lock_run isostr (new_queue self net None) q \<Longrightarrow> locks_disjoint (tq_db q)"
proof (induction rule: lock_run.induct)
  case start
  show ?case by (simp add: locks_disjoint_def new_queue_def migrateFromJson_def empty_task_db_def active_def status_of_def)
qed (rule run_op_locks)

section \<open>Properties\<close>

text \<open>In every reachable state the task that \<^verbatim>\<open>getNextClaimable\<close> offers can be claimed (\<^verbatim>\<open>claimTask\<close> then
  succeeds), and no other claimable task has a higher priority, or the same priority and an earlier creation; when it offers none, no
  task is claimable.\<close>

lemma next_claimable_is_best:
  assumes "task_run isostr (new_queue self net file) q"
  shows "case getNextClaimable q of
      Some t \<Rightarrow> eligible q t \<and> snd (claimTask now (tk_id t) agent q) = None \<and>
        (\<forall>i u. getTask q i = Some u \<and> eligible q u \<longrightarrow> task_le t u)
    | None \<Rightarrow> (\<forall>i u. getTask q i = Some u \<longrightarrow> \<not> eligible q u)"
proof -
  note ok = task_run_ok [OF assms]
  let ?P = "claimable (tq_db q) (Some (tq_localPeerId q))"
  have nc: "getNextClaimable q = find ?P (open_tasks (tq_db q))" by (simp add: getNextClaimable_def td_getNextClaimable_def)
  have listed: "\<exists>v \<in> set (open_tasks (tq_db q)). ?P v \<and> task_le v u \<and> task_le u v" if g: "getTask q i = Some u" and e: "eligible q u" for i u
  proof -
    obtain r where r: "jget (td_tasks (tq_db q)) i = Some r" "u = assembleFullTask (tq_db q) i r" "tr_status r = tk_status u"
      using getTask_row [OF g] by blast
    have "rowToTask (tq_db q) i r \<in> set (open_tasks (tq_db q))" using open_tasks_complete r e by (simp add: eligible_def)
    moreover have "?P (rowToTask (tq_db q) i r)" using e by (simp add: r(2) eligible_full) (simp add: eligible_def)
    ultimately show ?thesis by (intro bexI [of _ "rowToTask (tq_db q) i r"]) (simp_all add: r(2) task_le_def lex_le_def assembleFullTask_def)
  qed
  have trans: "task_le t u" if "task_le t v" "task_le v u" for t u v using that by (auto simp: task_le_def lex_le_def)
  show ?thesis
  proof (cases "getNextClaimable q")
    case None
    then have "\<not> ?P v" if "v \<in> set (open_tasks (tq_db q))" for v using that by (auto simp: nc find_None_iff)
    then show ?thesis using listed None by auto
  next
    case (Some t)
    then have t: "t \<in> set (open_tasks (tq_db q))" "?P t" by (auto simp: nc dest: find_SomeD)
    obtain r where r: "jget (td_tasks (tq_db q)) (tk_id t) = Some r" "tr_status r = ts_open" "t = rowToTask (tq_db q) (tk_id t) r"
      using open_tasks_row [OF ok t(1)] by blast
    have el: "eligible q t" using t(2) r(2) arg_cong [OF r(3), of tk_status] by (simp add: eligible_def rowToTask_def)
    have "getTask q (tk_id t) = Some (assembleFullTask (tq_db q) (tk_id t) r)" by (simp add: getTask_def td_getTask_def r(1))
    then have "snd (claimTask now (tk_id t) agent q) = None"
      by (rule claimTask_eligible) (use el r(3) in \<open>simp add: eligible_full\<close>)
    moreover have "task_le t u" if "getTask q i = Some u" "eligible q u" for i u
    proof -
      obtain v where v: "v \<in> set (open_tasks (tq_db q))" "?P v" "task_le v u" using listed [OF \<open>getTask q i = Some u\<close> \<open>eligible q u\<close>] by blast
      have "task_le t v" by (rule find_first [OF open_tasks_sorted _ Some [unfolded nc] v(1,2)]) (simp add: task_le_def lex_le_def)
      then show ?thesis using v(3) by (rule trans)
    qed
    ultimately show ?thesis using Some el by auto
  qed
qed

lemma demo_eligible: "\<exists>t. getTask (demo_queue ts_open) ''t'' = Some t \<and> eligible (demo_queue ts_open) t"
proof -
  have f: "td_files (tq_db (demo_queue ts_open)) = []" "td_dependencies (tq_db (demo_queue ts_open)) = []"
    by (simp_all add: demo_queue_def new_queue_def migrateFromJson_def td_getStats_def empty_task_db_def insert_full_def when_any_def insertTask_def Let_def demo_task_def)
  show ?thesis
    by (simp add: getTask_def td_getTask_def demo_row eligible_def claimable_def elsewhere_def truthy_def present_def assembleFullTask_def rowToTask_def
      taskToRow_def getFiles_def getDependencies_def related_def f demo_task_def)
qed

lemma next_claimable_is_best_witness:
  "\<exists>t. getNextClaimable (demo_queue ts_open) = Some t \<and> snd (claimTask 7 (tk_id t) ''x'' (demo_queue ts_open)) = None"
  using next_claimable_is_best [OF demo_run, of ts_open 7 "''x''"] demo_eligible by (auto split: option.splits)

text \<open>C17: As long as tasks become active through \<^verbatim>\<open>claimTask\<close> only, two active tasks never share a file, whatever the order of
  creations, claims, releases, completions, commits, clean-ups and events of other nodes.\<close>

theorem active_tasks_have_disjoint_files:
  assumes "lock_run isostr (new_queue self net None) q" and "getTask q i = Some s" and "getTask q j = Some t" and "i \<noteq> j"
    and "is_active_status (tk_status s)" and "is_active_status (tk_status t)"
  shows "set (tk_files s) \<inter> set (tk_files t) = {}"
proof -
  have "active (tq_db q) i" "active (tq_db q) j" using assms by (auto simp: active_def dest: getTask_SomeD)
  then have "set (getFiles (tq_db q) i) \<inter> set (getFiles (tq_db q) j) = {}"
    using lock_run_locks [OF assms(1)] assms(4) by (auto simp: locks_disjoint_def)
  moreover have "tk_files s = getFiles (tq_db q) i" "tk_files t = getFiles (tq_db q) j"
    using assms(2,3) by (auto simp: getTask_def td_getTask_def assembleFullTask_def rowToTask_def)
  ultimately show ?thesis by simp
qed

definition demo_locks :: task_queue where
  "demo_locks = run_op (\<lambda>_. []) (op_claim 2 ''b'' ''y'') (run_op (\<lambda>_. []) (op_claim 1 ''a'' ''x'')
     (run_op (\<lambda>_. []) (op_sync [demo_task ''a'' ts_open [''f''], demo_task ''b'' ts_open [''g'']]) (new_queue ''A'' True None)))"

lemma demo_locks_run: "lock_run (\<lambda>_. []) (new_queue ''A'' True None) demo_locks"
  unfolding demo_locks_def by (intro lock_run.intros) code_simp+

lemma demo_locks_tasks:
  "map_option tk_status (getTask demo_locks ''a'') = Some ts_claimed" "map_option tk_status (getTask demo_locks ''b'') = Some ts_claimed"
  by code_simp+

theorem active_tasks_have_disjoint_files_witness:
  "set (tk_files (the (getTask demo_locks ''a''))) \<inter> set (tk_files (the (getTask demo_locks ''b''))) = {}"
proof -
  obtain s t where "getTask demo_locks ''a'' = Some s" "getTask demo_locks ''b'' = Some t" "tk_status s = ts_claimed" "tk_status t = ts_claimed"
    using demo_locks_tasks by auto
  then show ?thesis using active_tasks_have_disjoint_files [OF demo_locks_run, of "''a''" s "''b''" t] by (simp add: is_active_status_def)
qed

section \<open>Two nodes claim one task\<close>

text \<open>Who holds a task: its status, the node of its claim and the agent.\<close>

definition claim_view :: "task_queue \<Rightarrow> string \<Rightarrow> (TaskStatus \<times> peer_id option \<times> string option) option" where
  "claim_view q i = map_option (\<lambda>t. (tk_status t, tk_claimedByNode t, tk_assignedTo t)) (getTask q i)"

lemma present_Some [simp]: "s \<noteq> [] \<Longrightarrow> present (Some s) = Some s"
  by (simp add: present_def truthy_def)

lemma getTask_fields:
  "getTask q i = Some t \<Longrightarrow> \<exists>r. jget (td_tasks (tq_db q)) i = Some r \<and> tk_status t = tr_status r \<and> tk_claimedByNode t = present (tr_claimed_by_node r) \<and>
     tk_assignedTo t = present (tr_assigned_to r) \<and> or_zero (tk_claimedAt t) = or_zero (tr_claimed_at r) \<and> tk_id t = i"
  by (auto simp: getTask_def td_getTask_def assembleFullTask_def rowToTask_def or_zero_def)

lemma claim_view_row:
  "claim_view q i = map_option (\<lambda>r. (tr_status r, present (tr_claimed_by_node r), present (tr_assigned_to r))) (jget (td_tasks (tq_db q)) i)"
  by (cases "jget (td_tasks (tq_db q)) i") (simp_all add: claim_view_def getTask_def td_getTask_def assembleFullTask_def rowToTask_def)

lemma claimTask_success:
  assumes "claimTask now i agent q = (q', None)" "tq_localPeerId q \<noteq> []" "agent \<noteq> []" "tq_network q"
  obtains t where "getTask q' i = Some t" "tk_status t = ts_claimed" "tk_claimedByNode t = Some (tq_localPeerId q)" "tk_assignedTo t = Some agent"
    "or_zero (tk_claimedAt t) = now" "tq_localPeerId q' = tq_localPeerId q"
    "last (tq_published q') = event_claimed i (tk_title t) (tk_priority t) ts_claimed (Some agent) (Some (tq_localPeerId q)) (tk_claimedAt t)"
proof -
  let ?q1 = "on_db (updateTask now i (\<lambda>r. r\<lparr>tr_status := ts_claimed, tr_assigned_to := Some agent,
     tr_claimed_by_node := present (Some (tq_localPeerId q)), tr_claimed_at := Some now\<rparr>)) q"
  obtain s where s: "getTask q i = Some s" using assms(1) by (auto simp: claimTask_def split: option.splits)
  then obtain u where u: "getTask ?q1 i = Some u" by (auto simp: getTask_def td_getTask_def status_simps)
  have q': "q' = emit_claimed u ?q1" using assms(1) s u by (auto simp: claimTask_def Let_def split: option.splits if_splits)
  have "getTask q' i = Some u" using u by (simp add: q' getTask_def)
  moreover obtain r where r: "jget (td_tasks (tq_db ?q1)) i = Some r" "tk_status u = tr_status r" "tk_claimedByNode u = present (tr_claimed_by_node r)"
    "tk_assignedTo u = present (tr_assigned_to r)" "or_zero (tk_claimedAt u) = or_zero (tr_claimed_at r)" "tk_id u = i"
    using getTask_fields [OF u] by blast
  moreover have "tr_status r = ts_claimed" "tr_claimed_by_node r = Some (tq_localPeerId q)" "tr_assigned_to r = Some agent" "tr_claimed_at r = Some now"
    using r(1) assms(2) by (auto simp: status_simps)
  ultimately show ?thesis
    using assms(2-4) by (intro that [of u]) (simp_all add: q' or_zero_def emit_claimed_def publishTaskEvent_def on_db_def)
qed

lemma remote_claim_outcome:
  assumes "getTask q i = Some t" "tk_status t = ts_claimed" "tk_claimedByNode t = Some self" "tk_assignedTo t = Some mine"
    "tq_localPeerId q = self" "sender \<noteq> []" "theirs \<noteq> []"
  shows "claim_view (on_remote_claim now sender i ts_claimed (Some theirs) (Some sender) ca q) i =
    Some (ts_claimed, if we_win self (tk_claimedAt t) sender ca then (Some self, Some mine) else (Some sender, Some theirs))"
proof (cases "we_win self (tk_claimedAt t) sender ca")
  case True
  then show ?thesis using assms by (simp add: on_remote_claim_def is_active_status_def Let_def) (simp add: claim_view_def)
next
  case False
  let ?rel = "fst (forceReleaseTask now i q)"
  obtain r where r: "jget (td_tasks (tq_db q)) i = Some r" using getTask_row [OF assms(1)] by blast
  have rel: "tq_db ?rel = updateTask now i (\<lambda>r. r\<lparr>tr_status := ts_open, tr_assigned_to := None, tr_claimed_by_node := None, tr_claimed_at := None\<rparr>) (tq_db q)"
    using assms by (simp add: forceReleaseTask_def is_active_status_def)
  obtain u where u: "getTask ?rel i = Some u" "tk_status u = ts_open"
    using r by (auto simp: getTask_def td_getTask_def rel status_simps assembleFullTask_def rowToTask_def)
  have "on_remote_claim now sender i ts_claimed (Some theirs) (Some sender) ca q = fst (updateRemoteStatus now i ts_claimed (Some (Some theirs)) None (Some sender) None ?rel)"
    using assms False by (simp add: on_remote_claim_def is_active_status_def Let_def)
  then show ?thesis using u r assms False
    by (simp add: claim_view_row updateRemoteStatus_def isValidTransition_def remote_fields_def rel status_simps or_keep_def truthy_def)
qed

text \<open>Two nodes claim the same open task at the same time and each then receives the other's claim: both end with the same
  holder, the node whose claim is earlier, and at equal times the one with the smaller peer id.\<close>

lemma claim_race_has_one_winner:
  assumes "claimTask ta i agent_a qa = (qa', None)" and "claimTask tb i agent_b qb = (qb', None)"
    and "tq_localPeerId qa = pa" and "tq_localPeerId qb = pb" and "pa \<noteq> pb" and "pa \<noteq> []" and "pb \<noteq> []"
    and "agent_a \<noteq> []" and "agent_b \<noteq> []" and "tq_network qa" and "tq_network qb"
  shows "let a_wins = ta < tb \<or> ta = tb \<and> str_less pa pb;
      outcome = Some (ts_claimed, if a_wins then (Some pa, Some agent_a) else (Some pb, Some agent_b))
    in claim_view (onTaskEvent isostr now pb (last (tq_published qb')) qa') i = outcome \<and>
       claim_view (onTaskEvent isostr now' pa (last (tq_published qa')) qb') i = outcome"
proof -
  obtain t where t: "getTask qa' i = Some t" "tk_status t = ts_claimed" "tk_claimedByNode t = Some pa" "tk_assignedTo t = Some agent_a"
    "or_zero (tk_claimedAt t) = ta" "tq_localPeerId qa' = pa"
    "last (tq_published qa') = event_claimed i (tk_title t) (tk_priority t) ts_claimed (Some agent_a) (Some pa) (tk_claimedAt t)"
    using claimTask_success [OF assms(1)] assms by metis
  obtain u where u: "getTask qb' i = Some u" "tk_status u = ts_claimed" "tk_claimedByNode u = Some pb" "tk_assignedTo u = Some agent_b"
    "or_zero (tk_claimedAt u) = tb" "tq_localPeerId qb' = pb"
    "last (tq_published qb') = event_claimed i (tk_title u) (tk_priority u) ts_claimed (Some agent_b) (Some pb) (tk_claimedAt u)"
    using claimTask_success [OF assms(2)] assms by metis
  have "claim_view (onTaskEvent isostr now pb (last (tq_published qb')) qa') i =
      Some (ts_claimed, if we_win pa (tk_claimedAt t) pb (tk_claimedAt u) then (Some pa, Some agent_a) else (Some pb, Some agent_b))"
    unfolding u(7) onTaskEvent_def using remote_claim_outcome [OF t(1-4) t(6) assms(7) assms(9)] by simp
  moreover have "claim_view (onTaskEvent isostr now' pa (last (tq_published qa')) qb') i =
      Some (ts_claimed, if we_win pb (tk_claimedAt u) pa (tk_claimedAt t) then (Some pb, Some agent_b) else (Some pa, Some agent_a))"
    unfolding t(7) onTaskEvent_def using remote_claim_outcome [OF u(1-4) u(6) assms(6) assms(8)] by simp
  ultimately show ?thesis using t(5) u(5) str_less_total [OF assms(5)] by (auto simp: we_win_def Let_def)
qed

lemma success_pair: "snd p = None \<Longrightarrow> p = (fst p, None)"
  by (cases p) simp

lemma demo_claims:
  "snd (claimTask 7 ''t'' ''x'' (new_queue ''A'' True (Some [demo_task ''t'' ts_open []]))) = None"
  "snd (claimTask 5 ''t'' ''y'' (new_queue ''B'' True (Some [demo_task ''t'' ts_open []]))) = None"
  by code_simp+

lemma claim_race_has_one_winner_witness:
  "claim_view (onTaskEvent (\<lambda>_. []) 9 ''B'' (last (tq_published (fst (claimTask 5 ''t'' ''y'' (new_queue ''B'' True (Some [demo_task ''t'' ts_open []]))))))
     (fst (claimTask 7 ''t'' ''x'' (new_queue ''A'' True (Some [demo_task ''t'' ts_open []]))))) ''t'' = Some (ts_claimed, Some ''B'', Some ''y'')"
  using claim_race_has_one_winner [OF demo_claims [THEN success_pair], of "''A''" "''B''" "\<lambda>_. []" 9 9]
  by (simp add: Let_def new_queue_def)

section \<open>What the database keeps\<close>

text \<open>A task whose optional texts are absent rather than empty, with no repeated file, dependency or child, and messages of its own in order.\<close>

definition storable :: "Task \<Rightarrow> bool" where
  "storable t =
     (list_all (\<lambda>s. s \<noteq> Some []) [tk_assignedTo t, tk_origin t, tk_parentTask t, tk_claimedByNode t, tk_originNode t, tk_executedByNode t,
        tk_proposalId t, tk_qaTier t, tk_managerId t] \<and>
      tk_claimedAt t \<noteq> Some 0 \<and> tk_result t \<noteq> Some no_result \<and> tk_cost t \<noteq> Some no_cost \<and>
      distinct (tk_files t) \<and> distinct (tk_dependencies t) \<and> distinct (tk_childTasks t) \<and>
      distinct (map tm_id (tk_thread t)) \<and> list_all (\<lambda>m. tm_taskId m = tk_id t) (tk_thread t) \<and> sorted (map tm_createdAt (tk_thread t)))"

lemma related_set_related:
  assumes "distinct bs"
  shows "related (set_related a bs t) a = bs"
proof -
  have "fold (\<lambda>b. sadd (a, b)) bs u = u @ map (Pair a) bs" if "\<forall>b \<in> set bs. (a, b) \<notin> set u" "distinct bs" for u
    using that
  proof (induction bs arbitrary: u)
    case (Cons b bs)
    have "fold (\<lambda>b. sadd (a, b)) bs (u @ [(a, b)]) = (u @ [(a, b)]) @ map (Pair a) bs" by (rule Cons.IH) (use Cons.prems in auto)
    then show ?case using Cons.prems by (simp add: sadd_def [of "(a, b)" u])
  qed simp
  then have "set_related a bs t = filter (\<lambda>e. fst e \<noteq> a) t @ map (Pair a) bs" using assms by (simp add: set_related_def)
  then show ?thesis by (simp add: related_def comp_def)
qed

lemma related_when_any:
  assumes "distinct bs" "related t a = []"
  shows "related (if bs = [] then t else set_related a bs t) a = bs"
  using assms by (simp add: related_set_related)

definition add_messages :: "ThreadMessage list \<Rightarrow> (string, ThreadMessage) jsmap \<Rightarrow> (string, ThreadMessage) jsmap" where
  "add_messages ms th = fold (\<lambda>m th. if jhas th (tm_id m) then th else th @ [(tm_id m, m)]) ms th"

lemma thread_fold: "td_thread (fold insertThreadMessage ms e) = add_messages ms (td_thread e)"
  by (induction ms arbitrary: e) (simp_all add: insertThreadMessage_def add_messages_def)

lemma add_messages_fresh:
  assumes "distinct (map tm_id ms)" "\<And>m. m \<in> set ms \<Longrightarrow> \<not> jhas th (tm_id m)"
  shows "add_messages ms th = th @ map (\<lambda>m. (tm_id m, m)) ms"
  using assms
proof (induction ms arbitrary: th)
  case (Cons m ms)
  have "add_messages ms (th @ [(tm_id m, m)]) = (th @ [(tm_id m, m)]) @ map (\<lambda>m. (tm_id m, m)) ms"
  proof (rule Cons.IH)
    fix x
    assume x: "x \<in> set ms"
    then have "tm_id x \<noteq> tm_id m" using Cons.prems(1) by (auto simp: image_iff)
    then show "\<not> jhas (th @ [(tm_id m, m)]) (tm_id x)" using Cons.prems(2) [of x] x by (simp add: jhas_iff)
  qed (use Cons.prems in simp)
  then show ?case using Cons.prems(2) [of m] by (simp add: add_messages_def)
qed (simp add: add_messages_def)

lemma tables_insert_full:
  "td_dependencies (insert_full t d) = (if tk_dependencies t = [] then td_dependencies d else set_related (tk_id t) (tk_dependencies t) (td_dependencies d))"
  "td_children (insert_full t d) = (if tk_childTasks t = [] then td_children d else set_related (tk_id t) (tk_childTasks t) (td_children d))"
  "td_timeline (insert_full t d) = td_timeline d @ map (Pair (tk_id t)) (tk_timeline t)"
  "td_thread (insert_full t d) = add_messages (tk_thread t) (td_thread d)"
proof -
  have tl: "fold (insertTimelineEvent i) es e = e\<lparr>td_timeline := td_timeline e @ map (Pair i) es\<rparr>" for i es e
    by (induction es arbitrary: e) (simp_all add: insertTimelineEvent_def)
  have th: "td_dependencies (fold insertThreadMessage ms e) = td_dependencies e" "td_children (fold insertThreadMessage ms e) = td_children e"
    "td_timeline (fold insertThreadMessage ms e) = td_timeline e" for ms e
    by (induction ms arbitrary: e) (simp_all add: insertThreadMessage_def)
  show "td_dependencies (insert_full t d) = (if tk_dependencies t = [] then td_dependencies d else set_related (tk_id t) (tk_dependencies t) (td_dependencies d))"
    by (simp add: insert_full_def when_any_def Let_def tl th setFiles_def setDependencies_def setChildren_def insertTask_def)
  show "td_children (insert_full t d) = (if tk_childTasks t = [] then td_children d else set_related (tk_id t) (tk_childTasks t) (td_children d))"
    by (simp add: insert_full_def when_any_def Let_def tl th setFiles_def setDependencies_def setChildren_def insertTask_def)
  show "td_timeline (insert_full t d) = td_timeline d @ map (Pair (tk_id t)) (tk_timeline t)"
    by (simp add: insert_full_def when_any_def Let_def tl th setFiles_def setDependencies_def setChildren_def insertTask_def)
  show "td_thread (insert_full t d) = add_messages (tk_thread t) (td_thread d)"
    by (simp add: insert_full_def when_any_def Let_def tl thread_fold setFiles_def setDependencies_def setChildren_def insertTask_def)
qed

lemma received_thread:
  assumes "storable t" and "getThread d (tk_id t) = []" and "list_all (\<lambda>m. \<not> jhas (td_thread d) (tm_id m)) (tk_thread t)"
  shows "getThread (insert_full t d) (tk_id t) = tk_thread t"
proof -
  have "td_thread (insert_full t d) = td_thread d @ map (\<lambda>m. (tm_id m, m)) (tk_thread t)"
    using assms(1,3) by (simp add: tables_insert_full add_messages_fresh storable_def list_all_iff)
  moreover have "filter (\<lambda>m. tm_taskId m = tk_id t) (jvals (td_thread d)) = []"
    using arg_cong [OF assms(2), of set] by (simp add: getThread_def)
  moreover have "filter (\<lambda>m. tm_taskId m = tk_id t) (tk_thread t) = tk_thread t" using assms(1) by (simp add: storable_def list_all_iff)
  ultimately show ?thesis using assms(1) by (simp add: getThread_def jvals_def comp_def storable_def sort_key_id_if_sorted)
qed

lemma present_id: "s \<noteq> Some [] \<Longrightarrow> present s = s"
  by (auto simp: present_def truthy_def split: option.splits)

text \<open>A task received from another node (an event or a sync response) and read back is the task that was sent, relations,
  timeline and thread included, except that the resources it requires are gone: the table has no column for them.\<close>

lemma remote_task_roundtrip:
  assumes "task_run isostr (new_queue self net file) q" and "\<not> td_exists (tq_db q) (tk_id t)" and "storable t"
    and "getThread (tq_db q) (tk_id t) = []" and "list_all (\<lambda>m. \<not> jhas (td_thread (tq_db q)) (tm_id m)) (tk_thread t)"
  shows "getTask (fst (insertRemoteTask t q)) (tk_id t) = Some (t\<lparr>tk_requiredResources := None\<rparr>)"
proof -
  let ?i = "tk_id t" let ?d = "insert_full t (tq_db q)"
  have ok: "task_db_ok (tq_db q)" by (rule task_run_ok [OF assms(1)])
  then have none: "related (td_files (tq_db q)) ?i = []" "related (td_dependencies (tq_db q)) ?i = []"
    "related (td_children (tq_db q)) ?i = []" "related (td_timeline (tq_db q)) ?i = []"
    using assms(2) by (auto simp: task_db_ok_def intro: owned_none)
  have rel: "getFiles ?d ?i = tk_files t" "getDependencies ?d ?i = tk_dependencies t" "getChildren ?d ?i = tk_childTasks t"
    using assms(3) none by (simp_all add: getFiles_def getDependencies_def getChildren_def td_files_insert_full tables_insert_full related_set_related storable_def)
  have tl: "getTimeline ?d ?i = tk_timeline t"
    using none(4) by (simp add: getTimeline_def tables_insert_full related_def comp_def)
  have th: "getThread ?d ?i = tk_thread t" using received_thread [OF assms(3-5)] .
  have "getTask (fst (insertRemoteTask t q)) ?i = Some (assembleFullTask ?d ?i (taskToRow t))"
    using assms(2) by (simp add: insertRemoteTask_def getTask_def td_getTask_def status_simps)
  also have "assembleFullTask ?d ?i (taskToRow t) = t\<lparr>tk_requiredResources := None\<rparr>"
    using assms(3)
    by (intro Task.equality) (auto simp: assembleFullTask_def rowToTask_def taskToRow_def rel tl th storable_def present_id split: option.split)
  finally show ?thesis .
qed

lemma remote_task_roundtrip_witness:
  "getTask (fst (insertRemoteTask (demo_task ''t'' ts_review [''f'']) (new_queue ''A'' True None))) ''t'' =
    Some ((demo_task ''t'' ts_review [''f''])\<lparr>tk_requiredResources := None\<rparr>)"
  using remote_task_roundtrip [OF task_run.start, of "''A''" True None "demo_task ''t'' ts_review [''f'']"]
  by (simp add: storable_def demo_task_def new_queue_def migrateFromJson_def empty_task_db_def td_exists_def jhas_def getThread_def jvals_def)

end
