(* ===== verification/Guardrails.thy ===== *)
theory Guardrails
  imports JsText
begin

text \<open>
  \<^verbatim>\<open>Guardrails\<close> (\<^verbatim>\<open>packages/node/src/kernel/guardrails.ts\<close>): protected paths, the immutable kernel, rate limits, tiers and the queue of
  changes that wait for approval. Times are arguments, so are the random ids; the build and the tests that \<^verbatim>\<open>postCheck\<close> runs and
  the package file it reads come in as the record \<open>post_env\<close>. Explanations of a refusal are a datatype.
\<close>

section \<open>Configuration\<close>

record GuardrailConfig =
  gc_protectedPaths :: "string list"
  gc_maxSelfChangesPerHour :: int
  gc_maxSelfChangesPerDay :: int
  gc_rollbackOnBuildFailure :: bool
  gc_rollbackOnTestFailure :: bool
  gc_requireApprovalForCore :: bool
  gc_approvalTimeout :: time

datatype GuardrailTier = Critical | Important | Standard | Low

record TierRequirements =
  rq_requiresApproval :: bool
  rq_requiresReview :: bool
  rq_requiresTest :: bool
  rq_requiresBuild :: bool
  rq_maxChangesPerHour :: int
  rq_cooldownMs :: time

definition MINUTE_MS :: time where "MINUTE_MS = 60 * 1000"

definition DEFAULT_CONFIG :: GuardrailConfig where
  "DEFAULT_CONFIG =
     \<lparr>gc_protectedPaths = [''packages/shared/'', ''packages/ledger/'', ''packages/node/src/index.ts'', ''packages/node/src/network.ts''],
      gc_maxSelfChangesPerHour = 5, gc_maxSelfChangesPerDay = 20, gc_rollbackOnBuildFailure = True, gc_rollbackOnTestFailure = True,
      gc_requireApprovalForCore = True, gc_approvalTimeout = 24 * 60 * MINUTE_MS\<rparr>"

definition MAX_PENDING_CHANGES :: nat where "MAX_PENDING_CHANGES = 200"

definition DEFAULT_PATH_TO_TIER :: "(string \<times> GuardrailTier) list" where
  "DEFAULT_PATH_TO_TIER =
     [(''network.ts'', Critical), (''sync.ts'', Critical), (''ledger/'', Critical), (''crypto.ts'', Critical), (''identity.ts'', Critical),
      (''types.ts'', Critical), (''index.ts'', Important), (''api-server.ts'', Important), (''scheduler.ts'', Important),
      (''governance.ts'', Important), (''guardrails.ts'', Important), (''planner.ts'', Important), (''gateway/'', Standard)]"

fun getRequirements :: "GuardrailTier \<Rightarrow> TierRequirements" where
  "getRequirements Critical = \<lparr>rq_requiresApproval = True, rq_requiresReview = True, rq_requiresTest = True, rq_requiresBuild = True,
     rq_maxChangesPerHour = 2, rq_cooldownMs = 30 * MINUTE_MS\<rparr>"
| "getRequirements Important = \<lparr>rq_requiresApproval = True, rq_requiresReview = True, rq_requiresTest = True, rq_requiresBuild = True,
     rq_maxChangesPerHour = 5, rq_cooldownMs = 10 * MINUTE_MS\<rparr>"
| "getRequirements Standard = \<lparr>rq_requiresApproval = False, rq_requiresReview = True, rq_requiresTest = True, rq_requiresBuild = True,
     rq_maxChangesPerHour = 10, rq_cooldownMs = 5 * MINUTE_MS\<rparr>"
| "getRequirements Low = \<lparr>rq_requiresApproval = False, rq_requiresReview = False, rq_requiresTest = False, rq_requiresBuild = True,
     rq_maxChangesPerHour = 20, rq_cooldownMs = 1 * MINUTE_MS\<rparr>"

definition IMMUTABLE_KERNEL_FILES :: "string list" where
  "IMMUTABLE_KERNEL_FILES =
     [''packages/shared/src/crypto.ts'', ''packages/node/src/guardrails.ts'', ''packages/node/src/governance.ts'',
      ''packages/ledger/src/transactions.ts'', ''packages/node/src/code-pipeline.ts'', ''packages/node/src/deploy-manager.ts'',
      ''packages/shared/src/identity.ts'']"

definition IMMUTABLE_KERNEL :: "string list" where
  "IMMUTABLE_KERNEL = [''code-pipeline.ts'', ''deploy-manager.ts'', ''governance.ts'', ''crypto.ts'', ''guardrails.ts'', ''identity.ts'', ''transactions.ts'']"

section \<open>State\<close>

datatype PendingChangeStatus = pc_pending | pc_approved | pc_rejected | pc_expired | pc_rolled_back

record PendingChange =
  pd_id :: string
  pd_filePaths :: "string list"
  pd_description :: string
  pd_reason :: string
  pd_proposedBy :: string
  pd_taskId :: "string option"
  pd_status :: PendingChangeStatus
  pd_createdAt :: time
  pd_expiresAt :: time
  pd_reviewedAt :: "time option"
  pd_reviewedBy :: "string option"
  pd_rejectReason :: "string option"

text \<open>The two files hold what was last saved.\<close>

record guardrails =
  gr_config :: GuardrailConfig
  gr_pending :: "PendingChange list"
  gr_changeTimestamps :: "time list"
  gr_configFile :: "GuardrailConfig option"
  gr_pendingFile :: "PendingChange list option"

text \<open>A stored or partial configuration: the fields that are present.\<close>

record partial_config =
  pt_protectedPaths :: "string list option"
  pt_maxSelfChangesPerHour :: "int option"
  pt_maxSelfChangesPerDay :: "int option"
  pt_rollbackOnBuildFailure :: "bool option"
  pt_rollbackOnTestFailure :: "bool option"
  pt_requireApprovalForCore :: "bool option"
  pt_approvalTimeout :: "time option"

definition or_field :: "'a option \<Rightarrow> 'a \<Rightarrow> 'a" where
  "or_field new old = (case new of None \<Rightarrow> old | Some x \<Rightarrow> x)"

definition assign_config :: "GuardrailConfig \<Rightarrow> partial_config \<Rightarrow> GuardrailConfig" where
  "assign_config c p =
     \<lparr>gc_protectedPaths = or_field (pt_protectedPaths p) (gc_protectedPaths c),
      gc_maxSelfChangesPerHour = or_field (pt_maxSelfChangesPerHour p) (gc_maxSelfChangesPerHour c),
      gc_maxSelfChangesPerDay = or_field (pt_maxSelfChangesPerDay p) (gc_maxSelfChangesPerDay c),
      gc_rollbackOnBuildFailure = or_field (pt_rollbackOnBuildFailure p) (gc_rollbackOnBuildFailure c),
      gc_rollbackOnTestFailure = or_field (pt_rollbackOnTestFailure p) (gc_rollbackOnTestFailure c),
      gc_requireApprovalForCore = or_field (pt_requireApprovalForCore p) (gc_requireApprovalForCore c),
      gc_approvalTimeout = or_field (pt_approvalTimeout p) (gc_approvalTimeout c)\<rparr>"

text \<open>\<open>None\<close> for a file that is missing or cannot be parsed.\<close>

definition Guardrails_init :: "partial_config option \<Rightarrow> PendingChange list option \<Rightarrow> guardrails" where
  "Guardrails_init cfg pend =
     \<lparr>gr_config = (case cfg of None \<Rightarrow> DEFAULT_CONFIG | Some p \<Rightarrow> assign_config DEFAULT_CONFIG p),
      gr_pending = (case pend of None \<Rightarrow> [] | Some ps \<Rightarrow> take MAX_PENDING_CHANGES ps), gr_changeTimestamps = [],
      gr_configFile = (case cfg of None \<Rightarrow> Some DEFAULT_CONFIG | Some p \<Rightarrow> None), gr_pendingFile = None\<rparr>"

definition updateConfig :: "partial_config \<Rightarrow> guardrails \<Rightarrow> guardrails" where
  "updateConfig p g = (let c = assign_config (gr_config g) p in g\<lparr>gr_config := c, gr_configFile := Some c\<rparr>)"

definition savePending :: "guardrails \<Rightarrow> guardrails" where
  "savePending g = g\<lparr>gr_pendingFile := Some (gr_pending g)\<rparr>"

definition stale_change :: "time \<Rightarrow> PendingChange \<Rightarrow> bool" where
  "stale_change now p = (pd_status p = pc_pending \<and> pd_expiresAt p \<le> now)"

definition expire_change :: "time \<Rightarrow> PendingChange \<Rightarrow> PendingChange" where
  "expire_change now p = (if stale_change now p then p\<lparr>pd_status := pc_expired, pd_reviewedAt := Some now\<rparr> else p)"

definition expire_stale :: "time \<Rightarrow> guardrails \<Rightarrow> guardrails" where
  "expire_stale now g =
     (if list_ex (stale_change now) (gr_pending g) then savePending (g\<lparr>gr_pending := map (expire_change now) (gr_pending g)\<rparr>) else g)"

definition gr_getPending :: "time \<Rightarrow> guardrails \<Rightarrow> guardrails \<times> PendingChange list" where
  "gr_getPending now g = (let g1 = expire_stale now g in (g1, filter (\<lambda>p. pd_status p = pc_pending) (gr_pending g1)))"

definition getPendingById :: "string \<Rightarrow> guardrails \<Rightarrow> PendingChange option" where
  "getPendingById i g = find (\<lambda>p. pd_id p = i) (gr_pending g)"

section \<open>Protected paths, tiers and the kernel\<close>

definition under_protected :: "string \<Rightarrow> string \<Rightarrow> bool" where
  "under_protected s pp =
     (if endsWith pp ''/'' then startsWith s pp \<or> str_includes s (CHR ''/'' # pp)
      else s = pp \<or> endsWith s (CHR ''/'' # pp))"

definition isProtected :: "GuardrailConfig \<Rightarrow> string \<Rightarrow> bool" where
  "isProtected c f = list_ex (\<lambda>pp. under_protected (slashes f) (slashes pp)) (gc_protectedPaths c)"

definition getProtectedFiles :: "GuardrailConfig \<Rightarrow> string list \<Rightarrow> string list" where
  "getProtectedFiles c fs = filter (isProtected c) fs"

definition tier_matches :: "string \<Rightarrow> string \<Rightarrow> bool" where
  "tier_matches s pat =
     (if endsWith pat ''/'' then str_includes s pat \<or> str_includes s (CHR ''/'' # pat)
      else endsWith s (CHR ''/'' # pat) \<or> s = pat)"

definition getTier :: "string \<Rightarrow> GuardrailTier" where
  "getTier f = (case find (\<lambda>e. tier_matches (slashes f) (fst e)) DEFAULT_PATH_TO_TIER of None \<Rightarrow> Low | Some e \<Rightarrow> snd e)"

fun tier_index :: "GuardrailTier \<Rightarrow> nat" where
  "tier_index Critical = 0"
| "tier_index Important = 1"
| "tier_index Standard = 2"
| "tier_index Low = 3"

definition effectiveTier :: "string list \<Rightarrow> GuardrailTier" where
  "effectiveTier fs = fold (\<lambda>f t. if tier_index (getTier f) < tier_index t then getTier f else t) fs Low"

definition isImmutableKernel :: "string \<Rightarrow> bool" where
  "isImmutableKernel f =
     (list_ex (\<lambda>k. endsWith (slashes f) (CHR ''/'' # k) \<or> slashes f = k) IMMUTABLE_KERNEL \<or>
      list_ex (\<lambda>k. endsWith (slashes f) k \<or> str_includes (slashes f) k) IMMUTABLE_KERNEL_FILES)"

text \<open>The file an explanation names, \<open>None\<close> for the general text.\<close>

definition getImmutableReason :: "string \<Rightarrow> string option option" where
  "getImmutableReason f =
     (if \<not> isImmutableKernel f then None
      else Some (find (str_includes (slashes f))
        [''crypto.ts'', ''guardrails.ts'', ''governance.ts'', ''transactions.ts'', ''code-pipeline.ts'', ''deploy-manager.ts'', ''identity.ts'']))"

section \<open>Rate limits\<close>

datatype refusal =
    HourlyLimit nat int
  | DailyLimit nat int
  | QueuedForApproval "string list"
  | NoFilePaths
  | InvalidPaths nat
  | ImmutableFiles "string list"
  | ProtectedPaths "string list"
  | TierLimit GuardrailTier nat int string
  | TierCooldown GuardrailTier int
  | TierApproval GuardrailTier "string list"

definition changes_since :: "time \<Rightarrow> time list \<Rightarrow> nat" where
  "changes_since t ts = length (filter (\<lambda>x. t < x) ts)"

definition prune_changes :: "time \<Rightarrow> guardrails \<Rightarrow> guardrails" where
  "prune_changes now g = g\<lparr>gr_changeTimestamps := filter (\<lambda>t. now - 24 * 60 * MINUTE_MS < t) (gr_changeTimestamps g)\<rparr>"

definition checkRateLimits :: "time \<Rightarrow> guardrails \<Rightarrow> guardrails \<times> refusal option" where
  "checkRateLimits now g =
     (let g1 = prune_changes now g; hour = changes_since (now - 60 * MINUTE_MS) (gr_changeTimestamps g1); today = length (gr_changeTimestamps g1)
      in (g1, if gc_maxSelfChangesPerHour (gr_config g) \<le> int hour then Some (HourlyLimit hour (gc_maxSelfChangesPerHour (gr_config g)))
              else if gc_maxSelfChangesPerDay (gr_config g) \<le> int today then Some (DailyLimit today (gc_maxSelfChangesPerDay (gr_config g)))
              else None))"

definition recordChange :: "time \<Rightarrow> guardrails \<Rightarrow> guardrails" where
  "recordChange now g = g\<lparr>gr_changeTimestamps := gr_changeTimestamps g @ [now]\<rparr>"

definition getRateLimitStatus :: "time \<Rightarrow> guardrails \<Rightarrow> guardrails \<times> nat \<times> int \<times> nat \<times> int" where
  "getRateLimitStatus now g =
     (let g1 = prune_changes now g
      in (g1, changes_since (now - 60 * MINUTE_MS) (gr_changeTimestamps g1), gc_maxSelfChangesPerHour (gr_config g),
          length (gr_changeTimestamps g1), gc_maxSelfChangesPerDay (gr_config g)))"

section \<open>Checks before a change\<close>

record change_request =
  cr_filePaths :: "string list"
  cr_description :: string
  cr_reason :: string
  cr_proposedBy :: string
  cr_taskId :: "string option"

definition new_pending :: "time \<Rightarrow> string \<Rightarrow> change_request \<Rightarrow> GuardrailConfig \<Rightarrow> PendingChange" where
  "new_pending now ident r c =
     \<lparr>pd_id = ident, pd_filePaths = cr_filePaths r, pd_description = cr_description r, pd_reason = cr_reason r, pd_proposedBy = cr_proposedBy r,
      pd_taskId = cr_taskId r, pd_status = pc_pending, pd_createdAt = now, pd_expiresAt = now + gc_approvalTimeout c, pd_reviewedAt = None,
      pd_reviewedBy = None, pd_rejectReason = None\<rparr>"

definition queue_change :: "PendingChange \<Rightarrow> guardrails \<Rightarrow> guardrails" where
  "queue_change p g = savePending (g\<lparr>gr_pending := take MAX_PENDING_CHANGES (p # gr_pending g)\<rparr>)"

definition preCheck :: "time \<Rightarrow> string \<Rightarrow> change_request \<Rightarrow> guardrails \<Rightarrow> guardrails \<times> refusal option" where
  "preCheck now ident r g =
     (case checkRateLimits now g of
        (g1, Some why) \<Rightarrow> (g1, Some why)
      | (g1, None) \<Rightarrow>
          let ps = getProtectedFiles (gr_config g) (cr_filePaths r) in
          if ps \<noteq> [] \<and> gc_requireApprovalForCore (gr_config g)
          then (queue_change (new_pending now ident r (gr_config g)) g1, Some (QueuedForApproval ps))
          else (recordChange now g1, None))"

record tiered_result =
  tp_refusal :: "refusal option"
  tp_tier :: GuardrailTier
  tp_immutableViolations :: "string list"
  tp_protectedPathViolations :: "string list"

definition tiered :: "refusal option \<Rightarrow> GuardrailTier \<Rightarrow> tiered_result" where
  "tiered why t = \<lparr>tp_refusal = why, tp_tier = t, tp_immutableViolations = [], tp_protectedPathViolations = []\<rparr>"

text \<open>Steps 5 to 8 for the tier of the change, without the approval of the governance.\<close>

definition tier_check :: "time \<Rightarrow> string list \<Rightarrow> string \<Rightarrow> time list \<Rightarrow> GuardrailTier \<Rightarrow> refusal option" where
  "tier_check now fs desc ts t =
     (let rq = getRequirements t; n = changes_since (now - 60 * MINUTE_MS) ts in
      if rq_maxChangesPerHour rq \<le> int n then Some (TierLimit t n (rq_maxChangesPerHour rq) desc)
      else if ts \<noteq> [] \<and> now - last ts < rq_cooldownMs rq then Some (TierCooldown t (- ((- (rq_cooldownMs rq - (now - last ts))) div 1000)))
      else if rq_requiresApproval rq then Some (TierApproval t fs) else None)"

definition tieredPreCheck :: "time \<Rightarrow> string list \<Rightarrow> string \<Rightarrow> bool \<Rightarrow> guardrails \<Rightarrow> guardrails \<times> tiered_result" where
  "tieredPreCheck now fs desc approved g =
     (let blank = filter is_blank fs; kern = filter isImmutableKernel fs; prot = getProtectedFiles (gr_config g) fs in
      if fs = [] then (g, tiered (Some NoFilePaths) Low)
      else if blank \<noteq> [] then (g, tiered (Some (InvalidPaths (length blank))) Low)
      else if kern \<noteq> [] then (g, (tiered (Some (ImmutableFiles kern)) Critical)\<lparr>tp_immutableViolations := kern\<rparr>)
      else if \<not> approved \<and> prot \<noteq> [] \<and> gc_requireApprovalForCore (gr_config g)
        then (g, (tiered (Some (ProtectedPaths prot)) Critical)\<lparr>tp_protectedPathViolations := prot\<rparr>)
      else if approved then (g, tiered None (effectiveTier fs))
      else case checkRateLimits now g of
        (g1, Some why) \<Rightarrow> (g1, tiered (Some why) Low)
      | (g1, None) \<Rightarrow> (g1, tiered (tier_check now fs desc (gr_changeTimestamps g1) (effectiveTier fs)) (effectiveTier fs)))"

section \<open>Review\<close>

fun update_first :: "('a \<Rightarrow> bool) \<Rightarrow> ('a \<Rightarrow> 'a) \<Rightarrow> 'a list \<Rightarrow> 'a list" where
  "update_first P f [] = []"
| "update_first P f (x # xs) = (if P x then f x # xs else x # update_first P f xs)"

definition approveChange :: "time \<Rightarrow> string \<Rightarrow> string option \<Rightarrow> guardrails \<Rightarrow> guardrails \<times> bool" where
  "approveChange now i by_whom g =
     (case getPendingById i g of None \<Rightarrow> (g, False)
      | Some p \<Rightarrow>
        if pd_status p \<noteq> pc_pending then (g, False)
        else (recordChange now (savePending (g\<lparr>gr_pending := update_first (\<lambda>q. pd_id q = i)
          (\<lambda>q. q\<lparr>pd_status := pc_approved, pd_reviewedAt := Some now, pd_reviewedBy := by_whom\<rparr>) (gr_pending g)\<rparr>)), True))"

definition rejectChange :: "time \<Rightarrow> string \<Rightarrow> string option \<Rightarrow> string option \<Rightarrow> guardrails \<Rightarrow> guardrails \<times> bool" where
  "rejectChange now i why by_whom g =
     (case getPendingById i g of None \<Rightarrow> (g, False)
      | Some p \<Rightarrow>
        if pd_status p \<noteq> pc_pending then (g, False)
        else (savePending (g\<lparr>gr_pending := update_first (\<lambda>q. pd_id q = i)
          (\<lambda>q. q\<lparr>pd_status := pc_rejected, pd_reviewedAt := Some now, pd_reviewedBy := by_whom, pd_rejectReason := why\<rparr>) (gr_pending g)\<rparr>), True))"

section \<open>Checks after a change\<close>

definition windows_path :: "string \<Rightarrow> nat" where
  "windows_path s = (case s of c # d # e # rest \<Rightarrow>
       (let n = length (takeWhile (\<lambda>x. word_char x \<or> x = CHR 0x5C \<or> x = CHR ''.'' \<or> x = CHR ''-'') rest)
        in if js_lower c \<in> set (map char_of [97..<123]) \<and> d = CHR '':'' \<and> e = CHR 0x5C \<and> n \<noteq> 0 then 3 + n else 0)
     | _ \<Rightarrow> 0)"

definition unix_path :: "string \<Rightarrow> nat" where
  "unix_path s = (case find (startsWith s) [''/home/'', ''/Users/'', ''/var/'', ''/tmp/'', ''/opt/''] of None \<Rightarrow> 0
     | Some r \<Rightarrow>
       (let n = length (takeWhile (\<lambda>x. word_char x \<or> x = CHR ''/'' \<or> x = CHR ''.'' \<or> x = CHR ''-'') (drop (length r) s))
        in if n = 0 then 0 else length r + n))"

definition sanitizeError :: "string \<Rightarrow> string" where
  "sanitizeError msg =
     (let s = replace_all unix_path ''<path>'' (replace_all windows_path ''<path>'' msg)
      in if 500 < length s then take 497 s @ ''...'' else s)"

datatype post_error =
    KernelModified "string list"
  | NotApproved "string list"
  | NoWorkingDirectory
  | NoPackageJson
  | InvalidPackageJson string
  | BuildFailed string
  | TestsFailed string

record post_result =
  po_passed :: bool
  po_buildOk :: bool
  po_testOk :: bool
  po_protectedFilesOk :: bool
  po_immutableKernelOk :: bool
  po_error :: "post_error option"

text \<open>What \<^verbatim>\<open>postCheck\<close> finds on disk: the directory, the package file with its scripts, the outcome of running them (an error text
  or success) and a git repository to roll back.\<close>

record post_env =
  en_cwdExists :: bool
  en_packageExists :: bool
  en_package :: "string + string option \<times> string option"
  en_build :: "string option"
  en_test :: "string option"
  en_git :: bool

definition post_failed :: "bool \<Rightarrow> bool \<Rightarrow> post_error \<Rightarrow> post_result" where
  "post_failed prot kern e =
     \<lparr>po_passed = False, po_buildOk = False, po_testOk = False, po_protectedFilesOk = prot, po_immutableKernelOk = kern, po_error = Some e\<rparr>"

definition approved_for :: "guardrails \<Rightarrow> string \<Rightarrow> bool" where
  "approved_for g f = list_ex (\<lambda>p. pd_status p = pc_approved \<and> list_ex (\<lambda>pf. slashes pf = slashes f) (pd_filePaths p)) (gr_pending g)"

definition test_placeholder :: "string option \<Rightarrow> bool" where
  "test_placeholder t = (case t of None \<Rightarrow> True
     | Some s \<Rightarrow> s = ''echo '' @ [CHR 0x22] @ ''Error: no test specified'' @ [CHR 0x22] @ '' && exit 1'' \<or> is_blank s)"

definition run_scripts :: "bool \<Rightarrow> bool \<Rightarrow> string option \<times> string option \<Rightarrow> post_env \<Rightarrow> bool \<times> bool \<times> post_error option" where
  "run_scripts needBuild needTest scripts env =
     (let buildOk = (needBuild \<and> truthy (fst scripts) \<longrightarrow> en_build env = None);
          testOk = (buildOk \<and> needTest \<and> \<not> test_placeholder (snd scripts) \<longrightarrow> en_test env = None)
      in (buildOk, testOk,
          if \<not> buildOk then map_option (\<lambda>e. BuildFailed (sanitizeError e)) (en_build env)
          else if \<not> testOk then map_option (\<lambda>e. TestsFailed (sanitizeError e)) (en_test env) else None))"

text \<open>The last component says whether the working tree was rolled back.\<close>

definition postCheck :: "time \<Rightarrow> string list \<Rightarrow> bool \<Rightarrow> post_env \<Rightarrow> guardrails \<Rightarrow> guardrails \<times> post_result \<times> bool" where
  "postCheck now fs approved env g =
     (let rq = getRequirements (effectiveTier fs);
          needBuild = (gc_rollbackOnBuildFailure (gr_config g) \<or> fs \<noteq> [] \<and> rq_requiresBuild rq);
          needTest = (gc_rollbackOnTestFailure (gr_config g) \<or> fs \<noteq> [] \<and> rq_requiresTest rq);
          kern = filter isImmutableKernel fs;
          unapproved = (if approved \<or> \<not> gc_requireApprovalForCore (gr_config g) then []
            else filter (\<lambda>f. \<not> approved_for g f) (getProtectedFiles (gr_config g) fs))
      in if kern \<noteq> [] then (g, post_failed True False (KernelModified kern), False)
         else if unapproved \<noteq> [] then (g, post_failed False True (NotApproved unapproved), False)
         else if \<not> en_cwdExists env then (g, post_failed True True NoWorkingDirectory, False)
         else if \<not> en_packageExists env
           then (g, if \<not> needBuild \<and> \<not> needTest then \<lparr>po_passed = True, po_buildOk = True, po_testOk = True, po_protectedFilesOk = True,
                   po_immutableKernelOk = True, po_error = None\<rparr> else post_failed True True NoPackageJson, False)
         else case en_package env of
           Inl msg \<Rightarrow> (g, post_failed True True (InvalidPackageJson (sanitizeError msg)), False)
         | Inr scripts \<Rightarrow>
             (case run_scripts needBuild needTest scripts env of
                (buildOk, testOk, err) \<Rightarrow>
                  (g\<lparr>gr_changeTimestamps := filter (\<lambda>t. 0 < t \<and> t \<le> now) (gr_changeTimestamps g)\<rparr>,
                   \<lparr>po_passed = (buildOk \<and> testOk), po_buildOk = buildOk, po_testOk = testOk, po_protectedFilesOk = True,
                    po_immutableKernelOk = True, po_error = err\<rparr>,
                   \<not> buildOk \<and> en_git env)))"

section \<open>Lemmas\<close>

lemma slashes_slash: "CHR 0x5C \<notin> set s \<Longrightarrow> slashes s = s"
  unfolding slashes_def by (rule map_idI) auto

lemma checkRateLimits_config [simp]: "gr_config (fst (checkRateLimits now g)) = gr_config g"
  by (simp add: checkRateLimits_def prune_changes_def Let_def)

lemma requiresApproval_iff: "rq_requiresApproval (getRequirements t) \<longleftrightarrow> tier_index t < 2"
  by (cases t) simp_all

lemma tier_index_low: "tier_index t < 2 \<longleftrightarrow> t \<noteq> Standard \<and> t \<noteq> Low"
  by (cases t) simp_all

lemma tier_fold:
  "tier_index (fold (\<lambda>f t. if tier_index (getTier f) < tier_index t then getTier f else t) fs t) < 2 \<longleftrightarrow>
     tier_index t < 2 \<or> (\<exists>f \<in> set fs. tier_index (getTier f) < 2)"
proof (induction fs arbitrary: t)
  case (Cons f fs)
  show ?case using Cons.IH [of "getTier f"] Cons.IH [of t] by auto
qed simp

lemma effectiveTier_approval: "rq_requiresApproval (getRequirements (effectiveTier fs)) \<longleftrightarrow> (\<exists>f \<in> set fs. getTier f \<noteq> Standard \<and> getTier f \<noteq> Low)"
  unfolding requiresApproval_iff effectiveTier_def tier_fold by (simp add: tier_index_low)

text \<open>The conditions under which a change of the pipeline may proceed.\<close>

definition may_proceed :: "time \<Rightarrow> string list \<Rightarrow> bool \<Rightarrow> guardrails \<Rightarrow> bool" where
  "may_proceed now fs approved g =
     (fs \<noteq> [] \<and> list_all (\<lambda>f. \<not> is_blank f \<and> \<not> isImmutableKernel f) fs \<and>
      (approved \<or>
       (gc_requireApprovalForCore (gr_config g) \<longrightarrow> list_all (\<lambda>f. \<not> isProtected (gr_config g) f) fs) \<and>
       list_all (\<lambda>f. getTier f = Standard \<or> getTier f = Low) fs \<and>
       (let recent = filter (\<lambda>t. now - 24 * 60 * MINUTE_MS < t) (gr_changeTimestamps g);
            hour = int (changes_since (now - 60 * MINUTE_MS) recent); rq = getRequirements (effectiveTier fs)
        in hour < gc_maxSelfChangesPerHour (gr_config g) \<and> int (length recent) < gc_maxSelfChangesPerDay (gr_config g) \<and>
           hour < rq_maxChangesPerHour rq \<and> (recent \<noteq> [] \<longrightarrow> rq_cooldownMs rq \<le> now - last recent))))"


lemma checkRateLimits_None:
  "snd (checkRateLimits now g) = None \<longleftrightarrow>
     int (changes_since (now - 60 * MINUTE_MS) (gr_changeTimestamps (prune_changes now g))) < gc_maxSelfChangesPerHour (gr_config g) \<and>
     int (length (gr_changeTimestamps (prune_changes now g))) < gc_maxSelfChangesPerDay (gr_config g)"
  by (auto simp: checkRateLimits_def Let_def)

lemma checkRateLimits_state [simp]: "fst (checkRateLimits now g) = prune_changes now g"
  by (simp add: checkRateLimits_def Let_def)

lemma tier_check_None:
  "tier_check now fs desc ts t = None \<longleftrightarrow>
     int (changes_since (now - 60 * MINUTE_MS) ts) < rq_maxChangesPerHour (getRequirements t) \<and>
     (ts \<noteq> [] \<longrightarrow> rq_cooldownMs (getRequirements t) \<le> now - last ts) \<and> \<not> rq_requiresApproval (getRequirements t)"
  by (auto simp: tier_check_def Let_def)

lemma tiered_check_spec: "tp_refusal (snd (tieredPreCheck now fs desc approved g)) = None \<longleftrightarrow> may_proceed now fs approved g"
proof -
  have lists: "list_all (\<lambda>f. \<not> is_blank f \<and> \<not> isImmutableKernel f) fs \<longleftrightarrow> filter is_blank fs = [] \<and> filter isImmutableKernel fs = []"
    "list_all (\<lambda>f. \<not> isProtected (gr_config g) f) fs \<longleftrightarrow> getProtectedFiles (gr_config g) fs = []"
    "list_all (\<lambda>f. getTier f = Standard \<or> getTier f = Low) fs \<longleftrightarrow> \<not> rq_requiresApproval (getRequirements (effectiveTier fs))"
    by (auto simp: list_all_iff filter_empty_conv getProtectedFiles_def effectiveTier_approval)
  have ts: "gr_changeTimestamps (prune_changes now g) = filter (\<lambda>t. now - 24 * 60 * MINUTE_MS < t) (gr_changeTimestamps g)"
    by (simp add: prune_changes_def)
  obtain why where why: "checkRateLimits now g = (prune_changes now g, why)" by (metis checkRateLimits_state prod.collapse)
  show ?thesis
    unfolding may_proceed_def lists Let_def ts [symmetric] using checkRateLimits_None [of now g]
    by (cases why) (auto simp: tieredPreCheck_def tiered_def Let_def tier_check_None why)
qed

section \<open>Properties\<close>


section \<open>Runs\<close>

datatype gr_op =
    go_pre time string change_request
  | go_tiered time "string list" string bool
  | go_post time "string list" bool post_env
  | go_approve time string "string option"
  | go_reject time string "string option" "string option"
  | go_pending time
  | go_status time
  | go_config partial_config

fun gr_step :: "gr_op \<Rightarrow> guardrails \<Rightarrow> guardrails" where
  "gr_step (go_pre now ident r) g = fst (preCheck now ident r g)"
| "gr_step (go_tiered now fs desc approved) g = fst (tieredPreCheck now fs desc approved g)"
| "gr_step (go_post now fs approved env) g = fst (postCheck now fs approved env g)"
| "gr_step (go_approve now i w) g = fst (approveChange now i w g)"
| "gr_step (go_reject now i why w) g = fst (rejectChange now i why w g)"
| "gr_step (go_pending now) g = fst (gr_getPending now g)"
| "gr_step (go_status now) g = fst (getRateLimitStatus now g)"
| "gr_step (go_config p) g = updateConfig p g"

lemma set_update_first: "set (update_first P f xs) \<subseteq> set xs \<union> f ` {x \<in> set xs. P x}"
  by (induction xs) auto

definition reviewed :: "gr_op list \<Rightarrow> guardrails \<Rightarrow> bool" where
  "reviewed ops g = (\<forall>p \<in> set (gr_pending g). pd_status p = pc_approved \<longrightarrow> (\<exists>now who. go_approve now (pd_id p) who \<in> set ops))"

lemma reviewed_mono:
  assumes "reviewed ops g" and "set ops \<subseteq> set ops'"
    and "\<And>p. p \<in> set (gr_pending g') \<Longrightarrow> pd_status p = pc_approved \<Longrightarrow>
      p \<in> set (gr_pending g) \<or> (\<exists>now who. go_approve now (pd_id p) who \<in> set ops')"
  shows "reviewed ops' g'"
  using assms unfolding reviewed_def by blast

lemma pending_simps [simp]:
  "gr_pending (prune_changes now g) = gr_pending g" "gr_pending (recordChange now g) = gr_pending g" "gr_pending (savePending g) = gr_pending g"
  "gr_pending (fst (tieredPreCheck now fs desc approved g)) = gr_pending g" "gr_pending (fst (postCheck now fs approved env g)) = gr_pending g"
  "gr_pending (updateConfig p g) = gr_pending g" "gr_pending (fst (getRateLimitStatus now g)) = gr_pending g"
proof -
  obtain why where why: "checkRateLimits now g = (prune_changes now g, why)" by (metis checkRateLimits_state prod.collapse)
  show "gr_pending (prune_changes now g) = gr_pending g" by (simp add: prune_changes_def)
  then show "gr_pending (fst (tieredPreCheck now fs desc approved g)) = gr_pending g"
    by (cases why) (simp_all add: tieredPreCheck_def Let_def why)
  show "gr_pending (fst (postCheck now fs approved env g)) = gr_pending g" by (simp add: postCheck_def Let_def split: sum.split prod.split)
qed (simp_all add: recordChange_def savePending_def updateConfig_def getRateLimitStatus_def Let_def prune_changes_def)

lemma reviewed_step: "reviewed ops g \<Longrightarrow> reviewed (ops @ [op]) (gr_step op g)"
proof (erule reviewed_mono)
  fix p
  assume p: "p \<in> set (gr_pending (gr_step op g))" and st: "pd_status p = pc_approved"
  show "p \<in> set (gr_pending g) \<or> (\<exists>now who. go_approve now (pd_id p) who \<in> set (ops @ [op]))"
  proof (cases op)
    case (go_pre now ident r)
    obtain why where "checkRateLimits now g = (prune_changes now g, why)" by (metis checkRateLimits_state prod.collapse)
    then show ?thesis using p st go_pre
      by (cases why) (auto simp: preCheck_def Let_def queue_change_def new_pending_def dest!: in_set_takeD split: if_splits)
  next
    case (go_approve now i w)
    then show ?thesis using p set_update_first [of "\<lambda>q. pd_id q = i"]
      by (fastforce simp: approveChange_def split: option.splits if_splits)
  next
    case (go_reject now i why w)
    then show ?thesis using p st set_update_first [of "\<lambda>q. pd_id q = i"]
      by (fastforce simp: rejectChange_def split: option.splits if_splits)
  next
    case (go_pending now)
    then show ?thesis using p st by (auto simp: gr_getPending_def expire_stale_def expire_change_def Let_def split: if_splits)
  qed (use p in auto)
qed auto

lemma reviewed_run: "reviewed ops0 g \<Longrightarrow> reviewed (ops0 @ ops) (fold gr_step ops g)"
proof (induction ops arbitrary: ops0 g)
  case (Cons op ops)
  have "reviewed ((ops0 @ [op]) @ ops) (fold gr_step ops (gr_step op g))" by (rule Cons.IH [OF reviewed_step [OF Cons.prems]])
  then show ?case by simp
qed simp

text \<open>After any sequence of calls on fresh guardrails: when the check after a change passes without the approval of the
  governance and the configuration asks for approval of core files, no file of the change is in the immutable kernel, and every
  protected one is named by a queued change that a reviewer approved.\<close>

lemma protected_changes_are_reviewed:
  assumes "g = fold gr_step ops (Guardrails_init cfg None)" and "po_passed (fst (snd (postCheck now fs False env g)))"
    and "gc_requireApprovalForCore (gr_config g)" and "f \<in> set fs"
  shows "\<not> isImmutableKernel f \<and> (isProtected (gr_config g) f \<longrightarrow>
    (\<exists>p \<in> set (gr_pending g). pd_status p = pc_approved \<and> slashes f \<in> slashes ` set (pd_filePaths p) \<and>
      (\<exists>t who. go_approve t (pd_id p) who \<in> set ops)))"
proof (intro conjI impI)
  have rev: "reviewed ops g" using reviewed_run [of "[]" "Guardrails_init cfg None" ops] by (simp add: assms(1) reviewed_def Guardrails_init_def)
  have k: "filter isImmutableKernel fs = []" and a: "filter (\<lambda>f. \<not> approved_for g f) (getProtectedFiles (gr_config g) fs) = []"
    using assms(2,3) by (auto simp: postCheck_def Let_def post_failed_def split: if_splits)
  show "\<not> isImmutableKernel f" using k assms(4) by (simp add: filter_empty_conv)
  assume "isProtected (gr_config g) f"
  then have "approved_for g f" using a assms(4) by (simp add: filter_empty_conv getProtectedFiles_def)
  then obtain p where "p \<in> set (gr_pending g)" "pd_status p = pc_approved" "slashes f \<in> slashes ` set (pd_filePaths p)"
    by (auto simp: approved_for_def list_ex_iff) (metis imageI)
  then show "\<exists>p \<in> set (gr_pending g). pd_status p = pc_approved \<and> slashes f \<in> slashes ` set (pd_filePaths p) \<and>
      (\<exists>t who. go_approve t (pd_id p) who \<in> set ops)" using rev unfolding reviewed_def by blast
qed

definition demo_ops :: "gr_op list" where
  "demo_ops = [go_pre 5 ''x'' \<lparr>cr_filePaths = [''packages/shared/a.ts''], cr_description = [], cr_reason = [], cr_proposedBy = [], cr_taskId = None\<rparr>,
     go_approve 7 ''x'' None]"

definition demo_post_env :: post_env where
  "demo_post_env = \<lparr>en_cwdExists = True, en_packageExists = True, en_package = Inr (Some ''tsc'', None), en_build = None, en_test = None, en_git = True\<rparr>"

lemma demo_post:
  "po_passed (fst (snd (postCheck 9 [''packages/shared/a.ts''] False demo_post_env (fold gr_step demo_ops (Guardrails_init None None)))))"
  "gc_requireApprovalForCore (gr_config (fold gr_step demo_ops (Guardrails_init None None)))"
  "isProtected (gr_config (fold gr_step demo_ops (Guardrails_init None None))) ''packages/shared/a.ts''"
  by code_simp+

lemma protected_changes_are_reviewed_witness:
  "\<exists>p. p \<in> set (gr_pending (fold gr_step demo_ops (Guardrails_init None None))) \<and> pd_status p = pc_approved \<and>
     (\<exists>t who. go_approve t (pd_id p) who \<in> set demo_ops)"
  using protected_changes_are_reviewed [OF refl demo_post(1,2), of "''packages/shared/a.ts''"] demo_post(3) by auto

text \<open>The calls the code pipeline and the status queries make; approvals and \<^verbatim>\<open>preCheck\<close>, which nothing calls, are the others.\<close>

fun pipeline_op :: "gr_op \<Rightarrow> bool" where
  "pipeline_op (go_tiered now fs desc approved) = True"
| "pipeline_op (go_post now fs approved env) = True"
| "pipeline_op (go_pending now) = True"
| "pipeline_op (go_status now) = True"
| "pipeline_op _ = False"

lemma pipeline_step:
  assumes "pipeline_op op" "gr_changeTimestamps g = []"
  shows "gr_changeTimestamps (gr_step op g) = [] \<and> gr_config (gr_step op g) = gr_config g"
proof (cases op)
  case (go_tiered now fs desc approved)
  obtain why where "checkRateLimits now g = (prune_changes now g, why)" by (metis checkRateLimits_state prod.collapse)
  then show ?thesis using assms go_tiered by (cases why) (simp_all add: tieredPreCheck_def Let_def prune_changes_def)
qed (use assms in \<open>auto simp: postCheck_def Let_def gr_getPending_def expire_stale_def savePending_def getRateLimitStatus_def prune_changes_def
    split: sum.split prod.split\<close>)

lemma pipeline_run:
  "list_all pipeline_op ops \<Longrightarrow> gr_changeTimestamps g = [] \<Longrightarrow>
    gr_changeTimestamps (fold gr_step ops g) = [] \<and> gr_config (fold gr_step ops g) = gr_config g"
  by (induction ops arbitrary: g) (auto dest!: pipeline_step)

text \<open>The limits never bind in the pipeline: its checks before and after a change record nothing, so whatever number of
  changes it made before, at whatever times, the next change to files that need no approval is allowed, although the default
  configuration says five per hour.\<close>

lemma pipeline_is_not_rate_limited:
  assumes "list_all pipeline_op ops" and "fs \<noteq> []" and "\<And>f. f \<in> set fs \<Longrightarrow> \<not> is_blank f \<and> \<not> isImmutableKernel f \<and> \<not> isProtected DEFAULT_CONFIG f \<and>
    (getTier f = Standard \<or> getTier f = Low)"
  shows "tp_refusal (snd (tieredPreCheck now fs desc False (fold gr_step ops (Guardrails_init None None)))) = None"
proof -
  let ?g = "fold gr_step ops (Guardrails_init None None)"
  have g: "gr_changeTimestamps ?g = []" "gr_config ?g = DEFAULT_CONFIG"
    using pipeline_run [OF assms(1), of "Guardrails_init None None"] by (simp_all add: Guardrails_init_def)
  have "rq_maxChangesPerHour (getRequirements t) > 0" for t by (cases t) simp_all
  then show ?thesis unfolding tiered_check_spec may_proceed_def
    using assms(2,3) by (simp add: g list_all_iff changes_since_def DEFAULT_CONFIG_def Let_def)
qed

lemma pipeline_is_not_rate_limited_witness:
  "tp_refusal (snd (tieredPreCheck 9 [''docs/a.md''] [] False
     (fold gr_step (replicate 100 (go_tiered 9 [''docs/a.md''] [] False)) (Guardrails_init None None)))) = None"
proof (rule pipeline_is_not_rate_limited)
  have "\<not> is_blank ''docs/a.md'' \<and> \<not> isImmutableKernel ''docs/a.md'' \<and> \<not> isProtected DEFAULT_CONFIG ''docs/a.md'' \<and> getTier ''docs/a.md'' = Low"
    by code_simp
  then show "\<not> is_blank f \<and> \<not> isImmutableKernel f \<and> \<not> isProtected DEFAULT_CONFIG f \<and> (getTier f = Standard \<or> getTier f = Low)"
    if "f \<in> set [''docs/a.md'']" for f using that by simp
qed (simp_all add: list_all_iff)

end
