(* ===== verification/CodePipeline.thy ===== *)
theory CodePipeline
  imports Guardrails
begin

text \<open>
  \<^verbatim>\<open>CodePipeline\<close> (\<^verbatim>\<open>packages/node/src/platform/code-pipeline.ts\<close>): changes extracted from a workspace or from git, applied to the
  repository under the guardrails, and rolled back. The disk is a map from normal absolute paths to the contents of files and a set of
  directories; \<open>denied\<close> tells which paths the operating system does not let the process write or remove. What git reports is an argument.
\<close>

section \<open>Types\<close>

datatype file_operation = fo_create | fo_modify | fo_delete

text \<open>The summary of a diff: added and removed lines, and the totals before and after.\<close>

type_synonym diff_summary = "nat \<times> nat \<times> nat \<times> nat"

record FileChange =
  fc_filePath :: string
  fc_operation :: file_operation
  fc_oldContent :: "string option"
  fc_newContent :: "string option"
  fc_diff :: "diff_summary option"

record PatchSet =
  ps_id :: string
  ps_description :: string
  ps_changes :: "FileChange list"
  ps_createdAt :: time

datatype conflict_reason = ImmutableFile | Blocked refusal | WriteFailed

record MergeConflict =
  mc_filePaths :: "string list"
  mc_reason :: conflict_reason
  mc_ourContent :: string
  mc_theirContent :: string

type_synonym originals = "(string, string option) jsmap"

record MergeResult =
  mr_success :: bool
  mr_mergedFiles :: "string list"
  mr_conflicts :: "MergeConflict list"
  mr_patchSetId :: string
  mr_rollbackInfo :: "originals option"

record disk =
  dk_files :: "string \<Rightarrow> string option"
  dk_dirs :: "string \<Rightarrow> bool"

section \<open>Extraction\<close>

definition SOURCE_EXTENSIONS :: "string list" where
  "SOURCE_EXTENSIONS = [''.ts'', ''.tsx'', ''.js'', ''.jsx'', ''.mjs'', ''.cjs'', ''.json'', ''.css'', ''.scss'', ''.html'', ''.svg'', ''.md'',
     ''.yaml'', ''.yml'', ''.toml'']"

definition SKIP_PATTERNS :: "string list" where
  "SKIP_PATTERNS = [''node_modules'', ''dist'', ''.git'', ''.cache'', ''__pycache__'', ''.DS_Store'', ''Thumbs.db'']"

text \<open>\<^verbatim>\<open>path.extname\<close>: from the last dot of the last segment, unless that dot begins it.\<close>

definition extname :: "string \<Rightarrow> string" where
  "extname p =
     (let b = last (segments p); after = takeWhile (\<lambda>c. c \<noteq> CHR ''.'') (rev b)
      in if length after = length b \<or> Suc (length after) = length b then [] else CHR ''.'' # rev after)"

definition is_source :: "string \<Rightarrow> bool" where
  "is_source p = (map js_lower (extname p) \<in> set SOURCE_EXTENSIONS)"

datatype ws_entry = ws_file string string | ws_dir string "ws_entry list"

definition skipped :: "string \<Rightarrow> bool" where
  "skipped n = (startsWith n ''.'' \<or> n \<in> set SKIP_PATTERNS)"

text \<open>The source files under a directory, as paths relative to the workspace with their contents.\<close>

fun collect_entry :: "string \<Rightarrow> ws_entry \<Rightarrow> (string \<times> string) list" where
  "collect_entry rel (ws_file n c) = (if skipped n \<or> \<not> is_source n then [] else [(rel @ n, c)])"
| "collect_entry rel (ws_dir n es) = (if skipped n then [] else concat (map (collect_entry (rel @ n @ ''/'')) es))"

definition collectSourceFiles :: "ws_entry list \<Rightarrow> (string \<times> string) list" where
  "collectSourceFiles es = concat (map (collect_entry []) es)"

definition computeSimpleDiff :: "string \<Rightarrow> string \<Rightarrow> diff_summary" where
  "computeSimpleDiff old new =
     (let ol = split_at (\<lambda>c. c = CHR 0x0A) [] old; nl = split_at (\<lambda>c. c = CHR 0x0A) [] new
      in (length (filter (\<lambda>l. l \<notin> set ol) nl), length (filter (\<lambda>l. l \<notin> set nl) ol), length ol, length nl))"

definition workspace_change :: "string \<Rightarrow> disk \<Rightarrow> string \<times> string \<Rightarrow> FileChange option" where
  "workspace_change repo d e =
     (case dk_files d (path_join repo (fst e)) of
        Some old \<Rightarrow> if old = snd e then None
          else Some \<lparr>fc_filePath = fst e, fc_operation = fo_modify, fc_oldContent = Some old, fc_newContent = Some (snd e),
                 fc_diff = Some (computeSimpleDiff old (snd e))\<rparr>
      | None \<Rightarrow> Some \<lparr>fc_filePath = fst e, fc_operation = fo_create, fc_oldContent = None, fc_newContent = Some (snd e), fc_diff = None\<rparr>)"

text \<open>What git reports: the modified files of the working tree and of the index, and the contents at HEAD, if the file is there.\<close>

record git_view =
  gv_unstaged :: "string list"
  gv_staged :: "string list"
  gv_head :: "string \<Rightarrow> string option"

definition git_change :: "string \<Rightarrow> disk \<Rightarrow> git_view \<Rightarrow> string \<Rightarrow> FileChange option" where
  "git_change repo d git rel =
     (if rel = [] \<or> \<not> is_source rel \<or> list_ex (str_includes rel) SKIP_PATTERNS then None
      else case dk_files d (path_join repo rel) of None \<Rightarrow> None
      | Some new \<Rightarrow>
          let old = (case gv_head git rel of None \<Rightarrow> [] | Some c \<Rightarrow> c) in
          if old = new then None
          else Some \<lparr>fc_filePath = rel, fc_operation = (if old = [] then fo_create else fo_modify), fc_oldContent = (if old = [] then None else Some old),
                 fc_newContent = Some new, fc_diff = Some (computeSimpleDiff old new)\<rparr>)"

definition extractGitDiff :: "string \<Rightarrow> disk \<Rightarrow> git_view \<Rightarrow> FileChange list" where
  "extractGitDiff repo d git =
     List.map_filter (git_change repo d git) (fold sadd (map str_trim (gv_unstaged git) @ map str_trim (gv_staged git)) [])"

text \<open>The workspace is \<open>None\<close> when its directory does not exist. The result is \<open>None\<close> when reading throws: the repository has a directory
  at the place of a file of the workspace. The description of the patch, its id and its time are left to the caller.\<close>

definition extractDiff :: "string \<Rightarrow> disk \<Rightarrow> git_view \<Rightarrow> ws_entry list option \<Rightarrow> FileChange list option" where
  "extractDiff repo d git ws =
     (let fs = (case ws of None \<Rightarrow> [] | Some es \<Rightarrow> collectSourceFiles es) in
      if list_ex (\<lambda>e. dk_dirs d (path_join repo (fst e))) fs then None
      else let cs = List.map_filter (workspace_change repo d) fs
           in Some (if cs = [] then extractGitDiff repo d git else cs))"

section \<open>Application\<close>

definition ancestors :: "string \<Rightarrow> string list" where
  "ancestors p = map (\<lambda>n. take n p) (filter (\<lambda>n. p ! n = CHR ''/'') [1..<length p])"

definition is_dir :: "disk \<Rightarrow> string \<Rightarrow> bool" where
  "is_dir d p = dk_dirs d (if endsWith p ''/'' then butlast p else p)"

definition under_file :: "disk \<Rightarrow> string \<Rightarrow> bool" where
  "under_file d p = list_ex (\<lambda>a. dk_files d a \<noteq> None) (ancestors p)"

definition make_parents :: "string \<Rightarrow> disk \<Rightarrow> disk" where
  "make_parents p d = d\<lparr>dk_dirs := (\<lambda>q. dk_dirs d q \<or> q \<in> set (ancestors p))\<rparr>"

definition set_file :: "string \<Rightarrow> string option \<Rightarrow> disk \<Rightarrow> disk" where
  "set_file p c d = d\<lparr>dk_files := (dk_files d)(p := c)\<rparr>"

text \<open>Writing or removing one file after making its parent directories; the flag tells success. A path below a file can be
  neither made nor written; removing it does nothing when the file is its parent.\<close>

definition put_file :: "(string \<Rightarrow> bool) \<Rightarrow> string \<Rightarrow> string option \<Rightarrow> disk \<Rightarrow> disk \<times> bool" where
  "put_file denied p c d =
     (if under_file d p then (d, c = None \<and> dk_files d (last (ancestors p)) \<noteq> None)
      else let d1 = make_parents p d in
           if c = None \<and> dk_files d p = None then (d1, True)
           else if denied p \<or> dk_dirs d1 p \<or> endsWith p ''/'' then (d1, False)
           else (set_file p c d1, True))"

record apply_state =
  as_disk :: disk
  as_originals :: originals
  as_merged :: "string list"
  as_conflicts :: "MergeConflict list"

definition or_empty :: "string option \<Rightarrow> string" where
  "or_empty c = (case c of None \<Rightarrow> [] | Some s \<Rightarrow> s)"

definition conflict :: "FileChange \<Rightarrow> conflict_reason \<Rightarrow> MergeConflict" where
  "conflict c why = \<lparr>mc_filePaths = [fc_filePath c], mc_reason = why, mc_ourContent = or_empty (fc_oldContent c), mc_theirContent = or_empty (fc_newContent c)\<rparr>"

definition wanted :: "FileChange \<Rightarrow> string option" where
  "wanted c = (if fc_operation c = fo_delete then None else Some (or_empty (fc_newContent c)))"

definition apply_change :: "(string \<Rightarrow> bool) \<Rightarrow> string \<Rightarrow> FileChange \<Rightarrow> apply_state \<Rightarrow> apply_state" where
  "apply_change denied repo c s =
     (let p = path_join repo (fc_filePath c); d = as_disk s;
          failed = (\<lambda>s. s\<lparr>as_conflicts := as_conflicts s @ [conflict c WriteFailed]\<rparr>)
      in if is_dir d p then failed s
         else let s1 = s\<lparr>as_originals := jset (fc_filePath c) (dk_files d p) (as_originals s)\<rparr> in
              case put_file denied p (wanted c) d of
                (d1, True) \<Rightarrow> s1\<lparr>as_disk := d1, as_merged := as_merged s @ [fc_filePath c]\<rparr>
              | (d1, False) \<Rightarrow> failed (s1\<lparr>as_disk := d1\<rparr>))"

definition rollback_file :: "(string \<Rightarrow> bool) \<Rightarrow> string \<Rightarrow> string \<times> string option \<Rightarrow> disk \<Rightarrow> disk" where
  "rollback_file denied repo e d =
     (let p = path_join repo (fst e) in
      case snd e of
        None \<Rightarrow> if dk_files d p = None \<or> denied p then d else set_file p None d
      | Some c \<Rightarrow> fst (put_file denied p (Some c) d))"

definition rollback :: "(string \<Rightarrow> bool) \<Rightarrow> string \<Rightarrow> originals \<Rightarrow> disk \<Rightarrow> disk" where
  "rollback denied repo info d = fold (rollback_file denied repo) info d"

definition refused :: "PatchSet \<Rightarrow> MergeConflict list \<Rightarrow> MergeResult" where
  "refused ps cs = \<lparr>mr_success = False, mr_mergedFiles = [], mr_conflicts = cs, mr_patchSetId = ps_id ps, mr_rollbackInfo = None\<rparr>"

definition apply_changes :: "(string \<Rightarrow> bool) \<Rightarrow> string \<Rightarrow> FileChange list \<Rightarrow> disk \<Rightarrow> apply_state" where
  "apply_changes denied repo cs d = fold (apply_change denied repo) cs \<lparr>as_disk = d, as_originals = [], as_merged = [], as_conflicts = []\<rparr>"

definition applyPatch ::
  "(string \<Rightarrow> bool) \<Rightarrow> time \<Rightarrow> string \<Rightarrow> PatchSet \<Rightarrow> bool \<Rightarrow> guardrails \<Rightarrow> disk \<Rightarrow> guardrails \<times> disk \<times> MergeResult" where
  "applyPatch denied now repo ps approved g d =
     (let cs = ps_changes ps; paths = map fc_filePath cs; kern = filter (\<lambda>c. isImmutableKernel (fc_filePath c)) cs;
          (g1, tr) = (if paths = [] then (g, tiered None Low) else tieredPreCheck now paths (ps_description ps) approved g)
      in if kern \<noteq> [] then (g, d, refused ps (map (\<lambda>c. conflict c ImmutableFile) kern))
         else case tp_refusal tr of
           Some why \<Rightarrow> (g1, d, refused ps [\<lparr>mc_filePaths = paths, mc_reason = Blocked why, mc_ourContent = [], mc_theirContent = []\<rparr>])
         | None \<Rightarrow>
             let s = apply_changes denied repo cs d in
             if as_conflicts s \<noteq> [] then (g1, rollback denied repo (as_originals s) (as_disk s), refused ps (as_conflicts s))
             else (g1, as_disk s, \<lparr>mr_success = True, mr_mergedFiles = as_merged s, mr_conflicts = [], mr_patchSetId = ps_id ps,
                     mr_rollbackInfo = Some (as_originals s)\<rparr>))"

section \<open>Only the files of the patch change\<close>

lemma put_file_other: "q \<noteq> p \<Longrightarrow> dk_files (fst (put_file denied p c d)) q = dk_files d q"
  by (simp add: put_file_def make_parents_def set_file_def Let_def)

lemma apply_change_other:
  "q \<noteq> path_join repo (fc_filePath c) \<Longrightarrow> dk_files (as_disk (apply_change denied repo c s)) q = dk_files (as_disk s) q"
  using put_file_other [of q "path_join repo (fc_filePath c)" denied "wanted c" "as_disk s"]
  by (auto simp: apply_change_def Let_def split: prod.splits bool.splits)

lemma apply_fold_other:
  "q \<notin> (\<lambda>c. path_join repo (fc_filePath c)) ` set cs \<Longrightarrow> dk_files (as_disk (fold (apply_change denied repo) cs s)) q = dk_files (as_disk s) q"
  by (induction cs arbitrary: s) (simp_all add: apply_change_other)

lemma rollback_file_other: "q \<noteq> path_join repo (fst e) \<Longrightarrow> dk_files (rollback_file denied repo e d) q = dk_files d q"
  by (simp add: rollback_file_def Let_def put_file_other set_file_def split: option.split)

lemma rollback_other:
  "q \<notin> (\<lambda>e. path_join repo (fst e)) ` set info \<Longrightarrow> dk_files (rollback denied repo info d) q = dk_files d q"
  unfolding rollback_def by (induction info arbitrary: d) (simp_all add: rollback_file_other)

lemma apply_originals_step: "fst ` set (as_originals (apply_change denied repo c s)) \<subseteq> insert (fc_filePath c) (fst ` set (as_originals s))"
proof -
  have "fst ` set (jset k v m) \<subseteq> insert k (fst ` set m)" for k :: string and v :: "string option" and m
  proof -
    have "set (map fst (jset k v m)) \<subseteq> insert k (set (map fst m))" by (simp only: fst_jset) auto
    then show ?thesis by simp
  qed
  then show ?thesis by (auto simp: apply_change_def Let_def split: prod.splits bool.splits)
qed

lemma apply_originals_keys:
  "fst ` set (as_originals (fold (apply_change denied repo) cs s)) \<subseteq> fc_filePath ` set cs \<union> fst ` set (as_originals s)"
proof (induction cs arbitrary: s)
  case (Cons c cs)
  show ?case using Cons.IH [of "apply_change denied repo c s"] apply_originals_step [of denied repo c s] by auto
qed simp

lemma applyPatch_cases:
  assumes "applyPatch denied now repo ps approved g d = (g', d', r)"
  obtains (refused) "d' = d" "\<not> mr_success r"
  | (failed) "filter (\<lambda>c. isImmutableKernel (fc_filePath c)) (ps_changes ps) = []" "as_conflicts (apply_changes denied repo (ps_changes ps) d) \<noteq> []"
      "d' = rollback denied repo (as_originals (apply_changes denied repo (ps_changes ps) d)) (as_disk (apply_changes denied repo (ps_changes ps) d))" "\<not> mr_success r"
  | (applied) "filter (\<lambda>c. isImmutableKernel (fc_filePath c)) (ps_changes ps) = []" "as_conflicts (apply_changes denied repo (ps_changes ps) d) = []"
      "d' = as_disk (apply_changes denied repo (ps_changes ps) d)" "mr_success r"
      "mr_rollbackInfo r = Some (as_originals (apply_changes denied repo (ps_changes ps) d))"
proof -
  let ?kern = "filter (\<lambda>c. isImmutableKernel (fc_filePath c)) (ps_changes ps)"
  obtain g1 tr where x: "(if map fc_filePath (ps_changes ps) = [] then (g, tiered None Low)
      else tieredPreCheck now (map fc_filePath (ps_changes ps)) (ps_description ps) approved g) = (g1, tr)" by (metis surj_pair)
  show ?thesis
    using assms unfolding applyPatch_def x Let_def
    by (cases "?kern = []"; cases "tp_refusal tr"; cases "as_conflicts (apply_changes denied repo (ps_changes ps) d) = []")
      (auto simp: refused_def intro: that)
qed

lemma applyPatch_changes:
  assumes "applyPatch denied now repo ps approved g d = (g', d', r)" and "dk_files d' q \<noteq> dk_files d q"
  shows "\<exists>c \<in> set (ps_changes ps). q = path_join repo (fc_filePath c) \<and> \<not> isImmutableKernel (fc_filePath c)"
proof -
  let ?s = "apply_changes denied repo (ps_changes ps) d"
  have kern: "filter (\<lambda>c. isImmutableKernel (fc_filePath c)) (ps_changes ps) = []"
    and d': "d' = as_disk ?s \<or> d' = rollback denied repo (as_originals ?s) (as_disk ?s)"
    by (rule applyPatch_cases [OF assms(1)]; use assms(2) in simp)+
  have "q \<in> (\<lambda>c. path_join repo (fc_filePath c)) ` set (ps_changes ps)"
  proof (rule ccontr)
    assume no: "q \<notin> (\<lambda>c. path_join repo (fc_filePath c)) ` set (ps_changes ps)"
    have "fst ` set (as_originals ?s) \<subseteq> fc_filePath ` set (ps_changes ps)"
      using apply_originals_keys [of denied repo "ps_changes ps" "\<lparr>as_disk = d, as_originals = [], as_merged = [], as_conflicts = []\<rparr>"]
      by (simp add: apply_changes_def)
    then have "q \<notin> (\<lambda>e. path_join repo (fst e)) ` set (as_originals ?s)" using no by force
    then show False using d' assms(2) no apply_fold_other [OF no] rollback_other [of q repo] by (auto simp: apply_changes_def)
  qed
  then show ?thesis using kern by (auto simp: filter_empty_conv)
qed


lemma kernel_names_plain: "k \<in> set IMMUTABLE_KERNEL \<Longrightarrow> CHR ''/'' \<notin> set k \<and> CHR 0x5C \<notin> set k \<and> k \<noteq> []"
  by (auto simp: IMMUTABLE_KERNEL_def)

lemma slashes_append [simp]: "slashes (s @ t) = slashes s @ slashes t"
  by (simp add: slashes_def)

lemma kernel_suffix:
  assumes "k \<in> set IMMUTABLE_KERNEL" and "endsWith (b @ CHR ''/'' # f) (CHR ''/'' # k)"
  shows "isImmutableKernel f"
proof -
  have k: "CHR ''/'' \<notin> set k" "slashes k = k" using kernel_names_plain [OF assms(1)] by (auto simp: slashes_slash)
  obtain u where u: "b @ CHR ''/'' # f = u @ CHR ''/'' # k" using assms(2) by (auto simp: endsWith_suffix suffix_def)
  then consider "f = k" | v where "f = v @ CHR ''/'' # k" using k(1)
    by (auto simp: append_eq_append_conv2 Cons_eq_append_conv append_eq_Cons_conv)
  then show ?thesis
  proof cases
    case 1
    then show ?thesis using assms(1) k(2) by (auto simp: isImmutableKernel_def list_ex_iff)
  next
    case (2 v)
    then have "endsWith (slashes f) (CHR ''/'' # k)"
      using k(2) by (simp add: endsWith_suffix suffix_def) (simp add: slashes_def)
    then show ?thesis using assms(1) by (auto simp: isImmutableKernel_def list_ex_iff)
  qed
qed

section \<open>Properties\<close>

text \<open>C18: The autonomous pipeline does not change its own kernel. Whatever patch of plain paths it applies, approved by the
  governance or not, whether it succeeds, fails or is rolled back: a file that differs afterwards lies in the repository, is named by
  the patch, and its name is none of the immutable kernel files.\<close>

theorem pipeline_keeps_kernel:
  assumes "plain_path b" and "\<And>c. c \<in> set (ps_changes ps) \<Longrightarrow> plain_path (fc_filePath c)"
    and "applyPatch denied now (CHR ''/'' # b) ps approved g d = (g', d', r)" and "dk_files d' q \<noteq> dk_files d q"
  shows "prefix (CHR ''/'' # b @ ''/'') q \<and> (\<exists>c \<in> set (ps_changes ps). q = CHR ''/'' # b @ CHR ''/'' # fc_filePath c) \<and>
    (\<forall>k \<in> set IMMUTABLE_KERNEL. \<not> suffix (CHR ''/'' # k) q)"
proof -
  obtain c where c: "c \<in> set (ps_changes ps)" "q = path_join (CHR ''/'' # b) (fc_filePath c)" "\<not> isImmutableKernel (fc_filePath c)"
    using applyPatch_changes [OF assms(3,4)] by blast
  have q: "q = CHR ''/'' # b @ CHR ''/'' # fc_filePath c" using c path_join_plain [OF assms(1) assms(2) [OF c(1)]] by simp
  have "\<not> suffix (CHR ''/'' # k) q" if k: "k \<in> set IMMUTABLE_KERNEL" for k
  proof
    assume "suffix (CHR ''/'' # k) q"
    then have "endsWith ((CHR ''/'' # b) @ CHR ''/'' # fc_filePath c) (CHR ''/'' # k)" by (simp add: q endsWith_suffix)
    with c(3) kernel_suffix [OF k] show False by blast
  qed
  with c(1) q show ?thesis by (auto simp: prefix_def)
qed

section \<open>Rollback\<close>

text \<open>A disk on which no path is both file and directory or lies below a file.\<close>

definition disk_ok :: "disk \<Rightarrow> bool" where
  "disk_ok d = (\<forall>p. dk_files d p \<noteq> None \<longrightarrow> \<not> dk_dirs d p \<and> \<not> under_file d p \<and> \<not> endsWith p ''/'')"

definition targets :: "string \<Rightarrow> FileChange list \<Rightarrow> string list" where
  "targets repo cs = map (\<lambda>c. path_join repo (fc_filePath c)) cs"

text \<open>No two changes concern the same file, and none a file in a directory that another one names.\<close>

definition independent :: "string \<Rightarrow> FileChange list \<Rightarrow> bool" where
  "independent repo cs = (distinct (targets repo cs) \<and> list_all (\<lambda>t. list_all (\<lambda>u. t \<notin> set (ancestors u)) (targets repo cs)) (targets repo cs))"

definition frame :: "string set \<Rightarrow> disk \<Rightarrow> disk \<Rightarrow> bool" where
  "frame T d e = ((\<forall>q. q \<notin> T \<longrightarrow> dk_files e q = dk_files d q) \<and> (\<forall>q \<in> T. dk_dirs e q = dk_dirs d q))"

definition apart :: "string set \<Rightarrow> bool" where
  "apart T = (\<forall>u \<in> T. \<forall>a \<in> set (ancestors u). a \<notin> T)"

lemma under_file_frame: "frame T d e \<Longrightarrow> (\<And>a. a \<in> set (ancestors t) \<Longrightarrow> a \<notin> T) \<Longrightarrow> under_file e t = under_file d t"
  by (auto simp: frame_def under_file_def list_ex_iff)

lemma put_file_frame:
  assumes "frame T d e" "t \<in> T" "apart T"
  shows "frame T d (fst (put_file denied t c e))"
  using assms by (auto simp: frame_def put_file_def make_parents_def set_file_def Let_def apart_def)

lemma put_file_value:
  assumes "frame T d e" "t \<in> T" "apart T"
  shows "dk_files (fst (put_file denied t c e)) t = dk_files e t \<or> \<not> denied t"
    and "\<not> denied t \<Longrightarrow> \<not> dk_dirs d t \<Longrightarrow> \<not> under_file d t \<Longrightarrow> \<not> endsWith t ''/'' \<Longrightarrow> dk_files (fst (put_file denied t (Some c') e)) t = Some c'"
  using assms under_file_frame [OF assms(1), of t] by (auto simp: put_file_def make_parents_def set_file_def Let_def frame_def apart_def)

lemma jset_member: "(k, v) \<in> set (jset k v m)"
  by (induction m) auto

lemma jset_other: "(k', v') \<in> set m \<Longrightarrow> k' \<noteq> k \<Longrightarrow> (k', v') \<in> set (jset k v m)"
  by (induction m) auto

lemma jset_subset: "set (jset k v m) \<subseteq> insert (k, v) (set m)"
  by (induction m) (auto split: if_splits)

text \<open>What is known while the changes are applied: every file that differs has its old content among the originals, and
  can be written.\<close>

definition restorable :: "(string \<Rightarrow> bool) \<Rightarrow> string \<Rightarrow> string set \<Rightarrow> disk \<Rightarrow> originals \<Rightarrow> disk \<Rightarrow> bool" where
  "restorable denied repo T d info e =
     (frame T d e \<and> (\<forall>x \<in> set info. path_join repo (fst x) \<in> T \<and> snd x = dk_files d (path_join repo (fst x))) \<and>
      (\<forall>q. dk_files e q \<noteq> dk_files d q \<longrightarrow> \<not> denied q \<and> (\<exists>x \<in> set info. q = path_join repo (fst x))))"

lemma rollback_restores:
  assumes "disk_ok d" and "apart T"
  shows "restorable denied repo T d info e \<Longrightarrow> dk_files (rollback denied repo info e) = dk_files d"
proof (induction info arbitrary: e)
  case Nil
  then show ?case by (auto simp: rollback_def restorable_def)
next
  case (Cons x info)
  let ?t = "path_join repo (fst x)" let ?e = "rollback_file denied repo x e"
  have fr: "frame T d e" and x: "?t \<in> T" "snd x = dk_files d ?t" using Cons.prems by (auto simp: restorable_def)
  have fr': "frame T d ?e"
    using fr x(1) put_file_frame [OF fr x(1) assms(2)] by (auto simp: rollback_file_def Let_def set_file_def frame_def split: option.split)
  have t: "dk_files ?e ?t = dk_files d ?t"
  proof (cases "denied ?t")
    case True
    then have "dk_files e ?t = dk_files d ?t" using Cons.prems unfolding restorable_def by blast
    then show ?thesis using True x(2) put_file_value(1) [where denied = denied, OF fr x(1) assms(2)]
      by (auto simp: rollback_file_def Let_def split: option.split)
  next
    case False
    show ?thesis
    proof (cases "dk_files d ?t")
      case None
      then show ?thesis using x(2) False by (simp add: rollback_file_def Let_def set_file_def)
    next
      case (Some c)
      then have "\<not> dk_dirs d ?t \<and> \<not> under_file d ?t \<and> \<not> endsWith ?t ''/''" using assms(1) by (auto simp: disk_ok_def)
      then show ?thesis using put_file_value(2) [where denied = denied, OF fr x(1) assms(2) False] Some x(2) by (simp add: rollback_file_def Let_def)
    qed
  qed
  have "restorable denied repo T d info ?e"
    using Cons.prems fr' t rollback_file_other [of _ repo x denied e] unfolding restorable_def by (metis list.set_intros(2) set_ConsD)
  then show ?case using Cons.IH by (simp add: rollback_def)
qed

lemma apply_change_restorable:
  assumes "restorable denied repo T d (as_originals s) (as_disk s)" and "apart T"
    and "path_join repo (fc_filePath c) \<in> T" and "dk_files (as_disk s) (path_join repo (fc_filePath c)) = dk_files d (path_join repo (fc_filePath c))"
  shows "restorable denied repo T d (as_originals (apply_change denied repo c s)) (as_disk (apply_change denied repo c s))"
proof (cases "is_dir (as_disk s) (path_join repo (fc_filePath c))")
  case True
  then show ?thesis using assms(1) by (simp add: apply_change_def Let_def)
next
  case False
  let ?t = "path_join repo (fc_filePath c)" let ?info = "jset (fc_filePath c) (dk_files d ?t) (as_originals s)"
  let ?e = "fst (put_file denied ?t (wanted c) (as_disk s))"
  have res: "as_originals (apply_change denied repo c s) = ?info" "as_disk (apply_change denied repo c s) = ?e"
    using False assms(4) by (simp_all add: apply_change_def Let_def split: prod.split bool.split)
  have fr: "frame T d (as_disk s)" using assms(1) by (simp add: restorable_def)
  have keep: "x \<in> set ?info" if "x \<in> set (as_originals s)" for x
  proof (cases "fst x = fc_filePath c")
    case True
    then have "x = (fc_filePath c, dk_files d ?t)" using that assms(1) by (auto simp: restorable_def prod_eq_iff)
    then show ?thesis by (simp add: jset_member)
  next
    case False
    then show ?thesis using that jset_other [of "fst x" "snd x"] by simp
  qed
  have info: "\<forall>x \<in> set ?info. path_join repo (fst x) \<in> T \<and> snd x = dk_files d (path_join repo (fst x))"
    using assms(1,3) jset_subset [of "fc_filePath c" "dk_files d ?t" "as_originals s"] by (auto simp: restorable_def)
  have diff: "\<not> denied q \<and> (\<exists>x \<in> set ?info. q = path_join repo (fst x))" if q: "dk_files ?e q \<noteq> dk_files d q" for q
  proof (cases "q = ?t")
    case True
    then show ?thesis using q assms(4) put_file_value(1) [where denied = denied and c = "wanted c", OF fr assms(3) assms(2)]
      by (auto intro!: bexI [OF _ jset_member])
  next
    case False
    then have "dk_files (as_disk s) q \<noteq> dk_files d q" using q by (simp add: put_file_other)
    then show ?thesis using assms(1) keep unfolding restorable_def by blast
  qed
  show ?thesis unfolding res restorable_def using put_file_frame [OF fr assms(3) assms(2)] info diff by blast
qed

lemma apply_fold_restorable:
  assumes "apart T"
  shows "restorable denied repo T d (as_originals s) (as_disk s) \<Longrightarrow> set (targets repo cs) \<subseteq> T \<Longrightarrow> distinct (targets repo cs) \<Longrightarrow>
    (\<And>t. t \<in> set (targets repo cs) \<Longrightarrow> dk_files (as_disk s) t = dk_files d t) \<Longrightarrow>
    restorable denied repo T d (as_originals (fold (apply_change denied repo) cs s)) (as_disk (fold (apply_change denied repo) cs s))"
proof (induction cs arbitrary: s)
  case (Cons c cs)
  have "dk_files (as_disk (apply_change denied repo c s)) t = dk_files d t" if "t \<in> set (targets repo cs)" for t
  proof -
    have "t \<noteq> path_join repo (fc_filePath c)" using that Cons.prems(3) by (auto simp: targets_def image_iff)
    then show ?thesis using that Cons.prems(4) by (simp add: apply_change_other targets_def)
  qed
  moreover have "restorable denied repo T d (as_originals (apply_change denied repo c s)) (as_disk (apply_change denied repo c s))"
    using Cons.prems by (intro apply_change_restorable assms) (auto simp: targets_def)
  ultimately show ?case using Cons.IH [of "apply_change denied repo c s"] Cons.prems(2,3) by (simp add: targets_def)
qed simp

lemma apply_changes_restorable:
  assumes "independent repo cs"
  shows "restorable denied repo (set (targets repo cs)) d (as_originals (apply_changes denied repo cs d)) (as_disk (apply_changes denied repo cs d))"
  unfolding apply_changes_def
  by (rule apply_fold_restorable) (use assms in \<open>auto simp: independent_def list_all_iff restorable_def frame_def apart_def\<close>)



definition demo_disk :: disk where
  "demo_disk = \<lparr>dk_files = [''/r/docs/a.md'' \<mapsto> ''old'', ''/r/packages/node/src/kernel/governance.ts'' \<mapsto> ''vote''],
     dk_dirs = (\<lambda>p. p \<in> set [''/r'', ''/r/docs''])\<rparr>"

definition demo_patch :: "(string \<times> file_operation \<times> string) list \<Rightarrow> PatchSet" where
  "demo_patch cs = \<lparr>ps_id = ''p'', ps_description = [], ps_changes = map (\<lambda>(f, o1, c). \<lparr>fc_filePath = f, fc_operation = o1, fc_oldContent = None,
     fc_newContent = Some c, fc_diff = None\<rparr>) cs, ps_createdAt = 1\<rparr>"

lemma demo_disk_ok: "disk_ok demo_disk"
proof -
  have "dk_files demo_disk p \<noteq> None \<Longrightarrow> p = ''/r/docs/a.md'' \<or> p = ''/r/packages/node/src/kernel/governance.ts''" for p
    by (simp add: demo_disk_def split: if_splits)
  moreover have "\<not> dk_dirs demo_disk p \<and> \<not> under_file demo_disk p \<and> \<not> endsWith p ''/''"
    if "p = ''/r/docs/a.md'' \<or> p = ''/r/packages/node/src/kernel/governance.ts''" for p
    using that by (elim disjE; hypsubst; intro conjI) code_simp+
  ultimately show ?thesis by (auto simp: disk_ok_def)
qed


definition demo_result :: "guardrails \<times> disk \<times> MergeResult" where
  "demo_result = applyPatch (\<lambda>_. False) 1 ''/r'' (demo_patch [(''docs/a.md'', fo_modify, ''new''), (''src/b.ts'', fo_create, ''b'')]) False
     (Guardrails_init None None) demo_disk"

lemma demo_result_facts:
  "mr_success (snd (snd demo_result))" "dk_files (fst (snd demo_result)) ''/r/docs/a.md'' = Some ''new''"
  "dk_files demo_disk ''/r/docs/a.md'' = Some ''old''" "plain_path ''r''" "plain_path ''docs/a.md''" "plain_path ''src/b.ts''"
  "independent ''/r'' (ps_changes (demo_patch [(''docs/a.md'', fo_modify, ''new''), (''src/b.ts'', fo_create, ''b'')]))"
  by code_simp+

lemma demo_result_eq:
  "applyPatch (\<lambda>_. False) 1 ''/r'' (demo_patch [(''docs/a.md'', fo_modify, ''new''), (''src/b.ts'', fo_create, ''b'')]) False
     (Guardrails_init None None) demo_disk = (fst demo_result, fst (snd demo_result), snd (snd demo_result))"
  by (simp add: demo_result_def)

theorem pipeline_keeps_kernel_witness: "\<not> suffix ''/governance.ts'' ''/r/docs/a.md'' \<and> prefix ''/r/'' ''/r/docs/a.md''"
proof -
  have "plain_path (fc_filePath c)" if "c \<in> set (ps_changes (demo_patch [(''docs/a.md'', fo_modify, ''new''), (''src/b.ts'', fo_create, ''b'')]))" for c
    using that demo_result_facts(5,6) by (auto simp: demo_patch_def)
  moreover have "dk_files (fst (snd demo_result)) ''/r/docs/a.md'' \<noteq> dk_files demo_disk ''/r/docs/a.md''"
    using demo_result_facts(2,3) by simp
  ultimately have "prefix (CHR ''/'' # ''r'' @ ''/'') ''/r/docs/a.md'' \<and> (\<forall>k \<in> set IMMUTABLE_KERNEL. \<not> suffix (CHR ''/'' # k) ''/r/docs/a.md'')"
    using pipeline_keeps_kernel [OF demo_result_facts(4) _ demo_result_eq] by blast
  then show ?thesis by (simp add: IMMUTABLE_KERNEL_def)
qed


text \<open>The kernel check looks at the text of a path, the write at the path it stands for: with \<^verbatim>\<open>/.\<close> after the name of a kernel
  file the check does not recognize it, its tier is the lowest, and the pipeline overwrites the file without any approval.\<close>

lemma kernel_check_is_bypassed:
  "case applyPatch (\<lambda>_. False) 1 ''/r'' (demo_patch [(''packages/node/src/kernel/governance.ts/.'', fo_modify, ''changed'')]) False
     (Guardrails_init None None) demo_disk of
     (g', d', r) \<Rightarrow> mr_success r \<and> dk_files d' ''/r/packages/node/src/kernel/governance.ts'' = Some ''changed'' \<and>
       isImmutableKernel ''packages/node/src/kernel/governance.ts''"
  by code_simp

section \<open>From the workspace to the repository\<close>

lemma conflicts_mono: "as_conflicts (fold (apply_change denied repo) cs s) = [] \<Longrightarrow> as_conflicts s = []"
proof (induction cs arbitrary: s)
  case (Cons c cs)
  have "as_conflicts (apply_change denied repo c s) = []" by (rule Cons.IH) (use Cons.prems in simp)
  then show ?case by (auto simp: apply_change_def Let_def split: if_splits prod.splits bool.splits)
qed simp

lemma put_file_success: "snd (put_file denied p (Some c) d) \<Longrightarrow> dk_files (fst (put_file denied p (Some c) d)) p = Some c"
  by (auto simp: put_file_def Let_def set_file_def split: if_splits)

lemma apply_change_success:
  assumes "as_conflicts (apply_change denied repo c s) = []" "fc_operation c \<noteq> fo_delete"
  shows "dk_files (as_disk (apply_change denied repo c s)) (path_join repo (fc_filePath c)) = Some (or_empty (fc_newContent c))"
proof -
  let ?t = "path_join repo (fc_filePath c)"
  have "\<not> is_dir (as_disk s) ?t" and ok: "snd (put_file denied ?t (wanted c) (as_disk s))"
    using assms(1) by (auto simp: apply_change_def Let_def split: if_splits prod.splits bool.splits)
  then have "as_disk (apply_change denied repo c s) = fst (put_file denied ?t (wanted c) (as_disk s))"
    by (auto simp: apply_change_def Let_def split: prod.splits bool.splits)
  then show ?thesis using ok assms(2) put_file_success by (simp add: wanted_def)
qed

lemma apply_fold_written:
  "as_conflicts (fold (apply_change denied repo) cs s) = [] \<Longrightarrow> distinct (targets repo cs) \<Longrightarrow> c \<in> set cs \<Longrightarrow> fc_operation c \<noteq> fo_delete \<Longrightarrow>
    dk_files (as_disk (fold (apply_change denied repo) cs s)) (path_join repo (fc_filePath c)) = Some (or_empty (fc_newContent c))"
proof (induction cs arbitrary: s)
  case (Cons x cs)
  show ?case
  proof (cases "c = x")
    case True
    have "as_conflicts (apply_change denied repo x s) = []" by (rule conflicts_mono [of denied repo cs]) (use Cons.prems(1) in simp)
    then show ?thesis using True Cons.prems(2,4) by (simp add: apply_fold_other apply_change_success targets_def)
  next
    case False
    then show ?thesis using Cons by (simp add: targets_def)
  qed
qed simp

lemma set_map_filter_iff: "x \<in> set (List.map_filter f xs) \<longleftrightarrow> (\<exists>e \<in> set xs. f e = Some x)"
  by (force simp: List.map_filter_def)

lemma workspace_change_path: "workspace_change repo d e = Some c \<Longrightarrow> fc_filePath c = fst e \<and> fc_newContent c = Some (snd e) \<and> fc_operation c \<noteq> fo_delete"
  by (auto simp: workspace_change_def split: option.splits if_splits)

lemma workspace_targets:
  "distinct (map (\<lambda>e. path_join repo (fst e)) es) \<Longrightarrow> distinct (targets repo (List.map_filter (workspace_change repo d) es))"
proof (induction es)
  case (Cons e es)
  have sub: "set (targets repo (List.map_filter (workspace_change repo d) es)) \<subseteq> set (map (\<lambda>e. path_join repo (fst e)) es)" for es
    by (force simp: targets_def set_map_filter_iff dest: workspace_change_path)
  show ?case
  proof (cases "workspace_change repo d e")
    case None
    then show ?thesis using Cons by (simp add: List.map_filter_def)
  next
    case (Some c)
    then have "path_join repo (fc_filePath c) \<notin> set (targets repo (List.map_filter (workspace_change repo d) es))"
      using Cons.prems sub [of es] workspace_change_path [OF Some] by auto
    then show ?thesis using Cons Some by (simp add: List.map_filter_def targets_def)
  qed
qed (simp add: targets_def List.map_filter_def)

text \<open>What the agents produced is what arrives: when the patch extracted from a workspace is applied with success, every source
  file of the workspace is in the repository with the workspace's content, provided the files have different places there.\<close>

lemma workspace_reaches_repository:
  assumes "extractDiff repo d git (Some es) = Some (ps_changes ps)" and "List.map_filter (workspace_change repo d) (collectSourceFiles es) \<noteq> []"
    and "distinct (map (\<lambda>e. path_join repo (fst e)) (collectSourceFiles es))"
    and "applyPatch denied now repo ps approved g d = (g', d', r)" and "mr_success r" and "(rel, c) \<in> set (collectSourceFiles es)"
  shows "dk_files d' (path_join repo rel) = Some c"
proof -
  let ?cs = "List.map_filter (workspace_change repo d) (collectSourceFiles es)"
  have cs: "ps_changes ps = ?cs" using assms(1,2) by (simp add: extractDiff_def Let_def split: if_splits)
  have ok: "as_conflicts (apply_changes denied repo ?cs d) = []" "d' = as_disk (apply_changes denied repo ?cs d)"
    by (rule applyPatch_cases [OF assms(4)]; use assms(5) cs in simp)+
  have dist: "distinct (targets repo ?cs)" by (rule workspace_targets [OF assms(3)])
  show ?thesis
  proof (cases "workspace_change repo d (rel, c)")
    case None
    then have same: "dk_files d (path_join repo rel) = Some c" by (auto simp: workspace_change_def split: option.splits if_splits)
    have "path_join repo rel \<notin> (\<lambda>x. path_join repo (fc_filePath x)) ` set ?cs"
    proof
      assume "path_join repo rel \<in> (\<lambda>x. path_join repo (fc_filePath x)) ` set ?cs"
      then obtain x where x: "x \<in> set ?cs" "path_join repo rel = path_join repo (fc_filePath x)" by blast
      then obtain e where "e \<in> set (collectSourceFiles es)" "workspace_change repo d e = Some x" by (auto simp: set_map_filter_iff)
      with x(2) have e: "e \<in> set (collectSourceFiles es)" "workspace_change repo d e = Some x" "path_join repo rel = path_join repo (fst e)"
        by (simp_all add: workspace_change_path)
      have "inj_on (\<lambda>e. path_join repo (fst e)) (set (collectSourceFiles es))" using assms(3) by (simp add: distinct_map)
      then have "(rel, c) = e" by (rule inj_onD) (use e assms(6) in simp_all)
      with e None show False by simp
    qed
    then show ?thesis using same ok(2) by (simp add: apply_changes_def apply_fold_other)
  next
    case (Some x)
    then have x: "x \<in> set ?cs" using assms(6) by (auto simp: set_map_filter_iff)
    show ?thesis using apply_fold_written [OF ok(1) [unfolded apply_changes_def] dist x] workspace_change_path [OF Some] ok(2)
      by (simp add: apply_changes_def or_empty_def)
  qed
qed


definition demo_workspace :: "ws_entry list" where
  "demo_workspace = [ws_dir ''docs'' [ws_file ''a.md'' ''new'', ws_file ''logo.png'' ''x''], ws_dir ''dist'' [ws_file ''b.js'' ''y'']]"

definition demo_git :: git_view where
  "demo_git = \<lparr>gv_unstaged = [], gv_staged = [], gv_head = (\<lambda>_. None)\<rparr>"

definition demo_extracted :: PatchSet where
  "demo_extracted = \<lparr>ps_id = ''p'', ps_description = [], ps_changes = the (extractDiff ''/r'' demo_disk demo_git (Some demo_workspace)), ps_createdAt = 1\<rparr>"

lemma demo_extracted_facts:
  "List.map_filter (workspace_change ''/r'' demo_disk) (collectSourceFiles demo_workspace) \<noteq> []"
  "distinct (map (\<lambda>e. path_join ''/r'' (fst e)) (collectSourceFiles demo_workspace))"
  "mr_success (snd (snd (applyPatch (\<lambda>_. False) 1 ''/r'' demo_extracted False (Guardrails_init None None) demo_disk)))"
  "(''docs/a.md'', ''new'') \<in> set (collectSourceFiles demo_workspace)" "path_join ''/r'' ''docs/a.md'' = ''/r/docs/a.md''"
  "extractDiff ''/r'' demo_disk demo_git (Some demo_workspace) = Some (ps_changes demo_extracted)"
  by code_simp+

lemma workspace_reaches_repository_witness:
  "dk_files (fst (snd (applyPatch (\<lambda>_. False) 1 ''/r'' demo_extracted False (Guardrails_init None None) demo_disk))) ''/r/docs/a.md'' = Some ''new''"
proof -
  obtain g' d' r where res: "applyPatch (\<lambda>_. False) 1 ''/r'' demo_extracted False (Guardrails_init None None) demo_disk = (g', d', r)"
    by (metis surj_pair)
  show ?thesis using workspace_reaches_repository [OF demo_extracted_facts(6,1,2) res _ demo_extracted_facts(4)] demo_extracted_facts(3,5) res by simp
qed

end
