(* ===== verification/SecurityMonitor.thy ===== *)
theory SecurityMonitor
  imports Guardrails
begin

text \<open>
  \<^verbatim>\<open>SecurityMonitor\<close> (\<^verbatim>\<open>packages/node/src/kernel/security-monitor.ts\<close>): the five detectors, alerts, the quarantine of peers with its levels
  and repeated offences, and the two files. Times are arguments; \<open>newId\<close> gives the random id of the alert raised for a type and a peer
  in a check. Descriptions and evidence are datatypes with the values the code puts into the text. Emitted events and the calls of the
  credential wiper are logged; nothing switches a detector off, so the flags \<^verbatim>\<open>enabled\<close> are left out.
\<close>

section \<open>Types and constants\<close>

datatype SecurityAlertSeverity = sv_info | sv_warning | sv_critical

datatype SecurityAlertType = message_flood | transaction_conflict | sybil_cluster | profile_poisoning | emission_abuse

datatype alert_text = at_messages string nat | at_conflicts string nat | at_joined nat | at_profile string nat | at_proposals string nat | at_level nat string | at_reason string

datatype alert_evidence = ev_count nat | ev_conflicts nat "(string \<times> string) list" | ev_peers nat "string list" | ev_level nat string

record SecurityAlert =
  al_id :: string
  al_type :: SecurityAlertType
  al_severity :: SecurityAlertSeverity
  al_source :: string
  al_description :: alert_text
  al_evidence :: alert_evidence
  al_timestamp :: time
  al_resolved :: bool
  al_resolvedAt :: "time option"

record QuarantineEntry =
  qe_peerId :: string
  qe_reason :: alert_text
  qe_alertId :: string
  qe_quarantinedAt :: time
  qe_releasedAt :: "time option"
  qe_active :: bool
  qe_level :: nat
  qe_appealReason :: "string option"
  qe_appealedAt :: "time option"
  qe_quarantineCount :: "nat option"

definition MAX_ALERTS :: nat where "MAX_ALERTS = 200"
definition MAX_QUARANTINE_ENTRIES :: nat where "MAX_QUARANTINE_ENTRIES = 200"
definition MSG_RATE_WINDOW_MS :: time where "MSG_RATE_WINDOW_MS = 60000"
definition MSG_RATE_THRESHOLD :: nat where "MSG_RATE_THRESHOLD = 100"
definition TX_CONFLICT_WINDOW_MS :: time where "TX_CONFLICT_WINDOW_MS = 5 * 60000"
definition TX_CONFLICT_THRESHOLD :: nat where "TX_CONFLICT_THRESHOLD = 3"
definition SYBIL_CORRELATION_WINDOW_MS :: time where "SYBIL_CORRELATION_WINDOW_MS = 60 * 60000"
definition SYBIL_JOIN_BURST_THRESHOLD :: nat where "SYBIL_JOIN_BURST_THRESHOLD = 5"
definition PROFILE_MAX_FIELD_LENGTH :: nat where "PROFILE_MAX_FIELD_LENGTH = 10000"
definition PROFILE_SUSPICIOUS_SCORE_THRESHOLD :: nat where "PROFILE_SUSPICIOUS_SCORE_THRESHOLD = 10"
definition EMISSION_ABUSE_WINDOW_MS :: time where "EMISSION_ABUSE_WINDOW_MS = 60 * 60000"
definition EMISSION_ABUSE_THRESHOLD :: nat where "EMISSION_ABUSE_THRESHOLD = 50"
definition QUARANTINE_DURATION_MS :: time where "QUARANTINE_DURATION_MS = 60 * 60000"

record tx_entry =
  te_id :: string
  te_from :: string
  te_to :: string
  te_amount :: rat
  te_timestamp :: time

datatype sm_event =
    se_alert SecurityAlert
  | se_quarantine QuarantineEntry
  | se_upgrade QuarantineEntry
  | se_release QuarantineEntry
  | se_level nat string string
  | se_appeal string string

record security_monitor =
  sm_localPeerId :: string
  sm_running :: bool
  sm_messageLog :: "(string, time list) jsmap"
  sm_txLog :: "(string, tx_entry list) jsmap"
  sm_joinLog :: "(string \<times> time) list"
  sm_flaggedProfiles :: "(string, nat) jsmap"
  sm_proposalLog :: "(string, time list) jsmap"
  sm_alerts :: "SecurityAlert list"
  sm_quarantine :: "QuarantineEntry list"
  sm_lastCheckAt :: "time option"
  sm_credentialWiper :: bool
  sm_wipes :: nat
  sm_alertsFile :: "SecurityAlert list option"
  sm_quarantineFile :: "QuarantineEntry list option"
  sm_events :: "sm_event list"

section \<open>Detectors\<close>

definition log_add :: "string \<Rightarrow> 'a \<Rightarrow> (string, 'a list) jsmap \<Rightarrow> (string, 'a list) jsmap" where
  "log_add p x m = jset p ((case jget m p of None \<Rightarrow> [] | Some xs \<Rightarrow> xs) @ [x]) m"

definition new_alert :: "(SecurityAlertType \<Rightarrow> string \<Rightarrow> string) \<Rightarrow> time \<Rightarrow> SecurityAlertType \<Rightarrow> SecurityAlertSeverity \<Rightarrow> string \<Rightarrow> alert_text \<Rightarrow> alert_evidence \<Rightarrow> SecurityAlert" where
  "new_alert newId now t sev p desc ev =
     \<lparr>al_id = newId t p, al_type = t, al_severity = sev, al_source = p, al_description = desc, al_evidence = ev, al_timestamp = now,
      al_resolved = False, al_resolvedAt = None\<rparr>"

definition over :: "nat \<Rightarrow> nat \<Rightarrow> SecurityAlertSeverity" where
  "over limit n = (if limit * 2 \<le> n then sv_critical else sv_warning)"

definition recent_times :: "time \<Rightarrow> time list \<Rightarrow> time list" where
  "recent_times cutoff ts = filter (\<lambda>t. cutoff < t) ts"

definition recordMessage :: "time \<Rightarrow> string \<Rightarrow> security_monitor \<Rightarrow> security_monitor" where
  "recordMessage now p s = s\<lparr>sm_messageLog := log_add p now (sm_messageLog s)\<rparr>"

definition check_messages :: "(SecurityAlertType \<Rightarrow> string \<Rightarrow> string) \<Rightarrow> time \<Rightarrow> security_monitor \<Rightarrow> security_monitor \<times> SecurityAlert list" where
  "check_messages newId now s =
     (let m = map (\<lambda>(p, ts). (p, if p = sm_localPeerId s then ts else recent_times (now - MSG_RATE_WINDOW_MS) ts)) (sm_messageLog s)
      in (s\<lparr>sm_messageLog := filter (\<lambda>(p, ts). ts \<noteq> []) m\<rparr>,
          map (\<lambda>(p, ts). new_alert newId now message_flood (over MSG_RATE_THRESHOLD (length ts)) p (at_messages p (length ts)) (ev_count (length ts)))
            (filter (\<lambda>(p, ts). p \<noteq> sm_localPeerId s \<and> MSG_RATE_THRESHOLD \<le> length ts) m)))"

definition sm_recordTransaction :: "time \<Rightarrow> string \<Rightarrow> string \<Rightarrow> string \<Rightarrow> string \<Rightarrow> rat \<Rightarrow> security_monitor \<Rightarrow> security_monitor" where
  "sm_recordTransaction now p i from to amount s =
     s\<lparr>sm_txLog := log_add p \<lparr>te_id = i, te_from = from, te_to = to, te_amount = amount, te_timestamp = now\<rparr> (sm_txLog s)\<rparr>"

fun tx_conflicts :: "tx_entry list \<Rightarrow> (string \<times> string) list" where
  "tx_conflicts [] = []"
| "tx_conflicts (a # as) =
     map (\<lambda>b. (take 8 (te_id a), take 8 (te_id b))) (filter (\<lambda>b. te_from a = te_from b \<and> te_amount a = te_amount b \<and> te_to a \<noteq> te_to b) as) @ tx_conflicts as"

definition check_transactions :: "(SecurityAlertType \<Rightarrow> string \<Rightarrow> string) \<Rightarrow> time \<Rightarrow> security_monitor \<Rightarrow> security_monitor \<times> SecurityAlert list" where
  "check_transactions newId now s =
     (let m = map (\<lambda>(p, ts). (p, filter (\<lambda>t. now - TX_CONFLICT_WINDOW_MS < te_timestamp t) ts)) (sm_txLog s)
      in (s\<lparr>sm_txLog := m\<rparr>,
          map (\<lambda>(p, ts). let cs = tx_conflicts ts in
              new_alert newId now transaction_conflict sv_critical p (at_conflicts p (length cs)) (ev_conflicts (length cs) (take 10 cs)))
            (filter (\<lambda>(p, ts). 2 \<le> length ts \<and> TX_CONFLICT_THRESHOLD \<le> length (tx_conflicts ts)) m)))"

definition recordPeerJoin :: "time \<Rightarrow> string \<Rightarrow> security_monitor \<Rightarrow> security_monitor" where
  "recordPeerJoin now p s = s\<lparr>sm_joinLog := sm_joinLog s @ [(p, now)]\<rparr>"

definition check_joins :: "(SecurityAlertType \<Rightarrow> string \<Rightarrow> string) \<Rightarrow> time \<Rightarrow> security_monitor \<Rightarrow> security_monitor \<times> SecurityAlert list" where
  "check_joins newId now s =
     (let js = filter (\<lambda>(p, t). now - SYBIL_CORRELATION_WINDOW_MS < t) (sm_joinLog s);
          recent = filter (\<lambda>(p, t). now - 30000 < t) js; peers = fold sadd (map fst recent) []
      in (s\<lparr>sm_joinLog := js\<rparr>,
          if SYBIL_JOIN_BURST_THRESHOLD \<le> length recent \<and> SYBIL_JOIN_BURST_THRESHOLD \<le> length peers
          then [new_alert newId now sybil_cluster sv_warning (hd peers) (at_joined (length peers)) (ev_peers (length peers) (map (take 12) peers))]
          else []))"

text \<open>The fields of a profile; \<open>None\<close> for a value that is not a string.\<close>

definition PROFILE_SUSPICIOUS_PATTERNS :: "string list" where
  "PROFILE_SUSPICIOUS_PATTERNS = [''<script'', ''javascript:'', ''data:text/html'', [CHR 0x00]]"

definition field_score :: "string option \<Rightarrow> nat" where
  "field_score v = (case v of None \<Rightarrow> 0
     | Some s \<Rightarrow> (if PROFILE_MAX_FIELD_LENGTH < length s then 2 else 0) + 3 * length (filter (str_includes (map js_lower s)) PROFILE_SUSPICIOUS_PATTERNS))"

definition recordProfile :: "string \<Rightarrow> (string \<times> string option) list \<Rightarrow> security_monitor \<Rightarrow> security_monitor" where
  "recordProfile p profile s =
     (let score = sum_list (map (field_score \<circ> snd) profile)
      in if 0 < score then s\<lparr>sm_flaggedProfiles := jset p ((case jget (sm_flaggedProfiles s) p of None \<Rightarrow> 0 | Some n \<Rightarrow> n) + score) (sm_flaggedProfiles s)\<rparr> else s)"

definition check_profiles :: "(SecurityAlertType \<Rightarrow> string \<Rightarrow> string) \<Rightarrow> time \<Rightarrow> security_monitor \<Rightarrow> security_monitor \<times> SecurityAlert list" where
  "check_profiles newId now s =
     (s\<lparr>sm_flaggedProfiles := []\<rparr>,
      map (\<lambda>(p, n). new_alert newId now profile_poisoning (if PROFILE_SUSPICIOUS_SCORE_THRESHOLD * 2 < n then sv_critical else sv_warning) p (at_profile p n) (ev_count n))
        (filter (\<lambda>(p, n). PROFILE_SUSPICIOUS_SCORE_THRESHOLD < n) (sm_flaggedProfiles s)))"

definition recordEmissionProposal :: "time \<Rightarrow> string \<Rightarrow> security_monitor \<Rightarrow> security_monitor" where
  "recordEmissionProposal now p s = s\<lparr>sm_proposalLog := log_add p now (sm_proposalLog s)\<rparr>"

definition check_proposals :: "(SecurityAlertType \<Rightarrow> string \<Rightarrow> string) \<Rightarrow> time \<Rightarrow> security_monitor \<Rightarrow> security_monitor \<times> SecurityAlert list" where
  "check_proposals newId now s =
     (let m = map (\<lambda>(p, ts). (p, recent_times (now - EMISSION_ABUSE_WINDOW_MS) ts)) (sm_proposalLog s)
      in (s\<lparr>sm_proposalLog := filter (\<lambda>(p, ts). ts \<noteq> []) m\<rparr>,
          map (\<lambda>(p, ts). new_alert newId now emission_abuse (over EMISSION_ABUSE_THRESHOLD (length ts)) p (at_proposals p (length ts)) (ev_count (length ts)))
            (filter (\<lambda>(p, ts). EMISSION_ABUSE_THRESHOLD \<le> length ts) m)))"

section \<open>Alerts and quarantine\<close>

definition sm_save :: "security_monitor \<Rightarrow> security_monitor" where
  "sm_save s = s\<lparr>sm_alertsFile := Some (sm_alerts s), sm_quarantineFile := Some (sm_quarantine s)\<rparr>"

definition sm_emit :: "sm_event \<Rightarrow> security_monitor \<Rightarrow> security_monitor" where
  "sm_emit e s = s\<lparr>sm_events := sm_events s @ [e]\<rparr>"

definition of_peer :: "string \<Rightarrow> QuarantineEntry \<Rightarrow> bool" where
  "of_peer p q = (qe_peerId q = p \<and> qe_active q)"

definition isQuarantined :: "security_monitor \<Rightarrow> string \<Rightarrow> bool" where
  "isQuarantined s p = list_ex (of_peer p) (sm_quarantine s)"

definition getQuarantineLevel :: "security_monitor \<Rightarrow> string \<Rightarrow> nat" where
  "getQuarantineLevel s p = (case find (of_peer p) (sm_quarantine s) of None \<Rightarrow> 0 | Some q \<Rightarrow> qe_level q)"

definition quarantinePeer :: "time \<Rightarrow> string \<Rightarrow> alert_text \<Rightarrow> string \<Rightarrow> nat \<Rightarrow> security_monitor \<Rightarrow> security_monitor" where
  "quarantinePeer now p why alertId level s =
     (if p = sm_localPeerId s then s
      else case find (of_peer p) (sm_quarantine s) of
        Some q \<Rightarrow>
          if qe_level q < level
          then sm_save (sm_emit (se_upgrade (q\<lparr>qe_level := level, qe_reason := why\<rparr>))
            (s\<lparr>sm_quarantine := update_first (of_peer p) (\<lambda>q. q\<lparr>qe_level := level, qe_reason := why\<rparr>) (sm_quarantine s)\<rparr>))
          else s
      | None \<Rightarrow>
          let q = \<lparr>qe_peerId = p, qe_reason = why, qe_alertId = alertId, qe_quarantinedAt = now, qe_releasedAt = None, qe_active = True, qe_level = level,
                   qe_appealReason = None, qe_appealedAt = None,
                   qe_quarantineCount = Some (Suc (length (filter (\<lambda>q. qe_peerId q = p \<and> \<not> qe_active q) (sm_quarantine s))))\<rparr>
          in sm_save (sm_emit (se_quarantine q) (s\<lparr>sm_quarantine := take MAX_QUARANTINE_ENTRIES (q # sm_quarantine s)\<rparr>)))"

definition same_alert :: "SecurityAlert \<Rightarrow> SecurityAlert \<Rightarrow> bool" where
  "same_alert a b = (al_type b = al_type a \<and> al_source b = al_source a \<and> \<not> al_resolved b)"

definition wipe_credentials :: "security_monitor \<Rightarrow> security_monitor" where
  "wipe_credentials s = (if sm_credentialWiper s then s\<lparr>sm_wipes := Suc (sm_wipes s)\<rparr> else s)"

definition processAlert :: "time \<Rightarrow> SecurityAlert \<Rightarrow> security_monitor \<Rightarrow> security_monitor" where
  "processAlert now a s =
     (if list_ex (same_alert a) (sm_alerts s)
      then s\<lparr>sm_alerts := update_first (same_alert a) (\<lambda>b. b\<lparr>al_timestamp := al_timestamp a, al_evidence := al_evidence a\<rparr>) (sm_alerts s)\<rparr>
      else let s1 = sm_emit (se_alert a) (s\<lparr>sm_alerts := take MAX_ALERTS (a # sm_alerts s)\<rparr>)
           in if al_severity a = sv_critical
              then wipe_credentials (quarantinePeer now (al_source a) (al_description a) (al_id a) 1 s1)
              else s1)"

definition resolve_alert :: "time \<Rightarrow> string \<Rightarrow> SecurityAlert list \<Rightarrow> SecurityAlert list" where
  "resolve_alert now i as = update_first (\<lambda>a. al_id a = i \<and> \<not> al_resolved a) (\<lambda>a. a\<lparr>al_resolved := True, al_resolvedAt := Some now\<rparr>) as"

definition offence_count :: "QuarantineEntry \<Rightarrow> nat" where
  "offence_count q = (case qe_quarantineCount q of None \<Rightarrow> 1 | Some 0 \<Rightarrow> 1 | Some n \<Rightarrow> n)"

definition auto_release :: "time \<Rightarrow> QuarantineEntry \<Rightarrow> bool" where
  "auto_release now q =
     (qe_active q \<and> QUARANTINE_DURATION_MS * 2 ^ (offence_count q - 1) \<le> now - qe_quarantinedAt q \<and> offence_count q \<le> 2)"

definition release_entry :: "time \<Rightarrow> QuarantineEntry \<Rightarrow> QuarantineEntry" where
  "release_entry now q = q\<lparr>qe_active := False, qe_releasedAt := Some now\<rparr>"

definition releaseExpiredQuarantines :: "time \<Rightarrow> security_monitor \<Rightarrow> security_monitor" where
  "releaseExpiredQuarantines now s =
     (let out = filter (auto_release now) (sm_quarantine s)
      in s\<lparr>sm_quarantine := map (\<lambda>q. if auto_release now q then release_entry now q else q) (sm_quarantine s),
           sm_alerts := fold (\<lambda>q. resolve_alert now (qe_alertId q)) out (sm_alerts s),
           sm_events := sm_events s @ map (\<lambda>q. se_release (release_entry now q)) out\<rparr>)"

definition run_detector ::
  "time \<Rightarrow> (security_monitor \<Rightarrow> security_monitor \<times> SecurityAlert list) \<Rightarrow> security_monitor \<Rightarrow> security_monitor" where
  "run_detector now d s = (case d s of (s1, as) \<Rightarrow> fold (processAlert now) as s1)"

definition run_detectors :: "(SecurityAlertType \<Rightarrow> string \<Rightarrow> string) \<Rightarrow> time \<Rightarrow> security_monitor \<Rightarrow> security_monitor" where
  "run_detectors newId now s = fold (run_detector now)
     [check_messages newId now, check_transactions newId now, check_joins newId now, check_profiles newId now, check_proposals newId now] s"

definition runCheck :: "(SecurityAlertType \<Rightarrow> string \<Rightarrow> string) \<Rightarrow> time \<Rightarrow> security_monitor \<Rightarrow> security_monitor" where
  "runCheck newId now s =
     (let s1 = run_detectors newId now s
      in sm_save ((releaseExpiredQuarantines now s1)\<lparr>sm_lastCheckAt := Some now\<rparr>))"

definition sm_start :: "(SecurityAlertType \<Rightarrow> string \<Rightarrow> string) \<Rightarrow> time \<Rightarrow> security_monitor \<Rightarrow> security_monitor" where
  "sm_start newId now s = (if sm_running s then s else runCheck newId now (s\<lparr>sm_running := True\<rparr>))"

definition sm_stop :: "security_monitor \<Rightarrow> security_monitor" where
  "sm_stop s = (if sm_running s then sm_save (s\<lparr>sm_running := False\<rparr>) else s)"

definition releasePeer :: "time \<Rightarrow> string \<Rightarrow> security_monitor \<Rightarrow> security_monitor \<times> bool" where
  "releasePeer now p s =
     (case find (of_peer p) (sm_quarantine s) of None \<Rightarrow> (s, False)
      | Some q \<Rightarrow>
          (sm_save (sm_emit (se_release (release_entry now q))
            (s\<lparr>sm_quarantine := update_first (of_peer p) (release_entry now) (sm_quarantine s),
               sm_alerts := resolve_alert now (qe_alertId q) (sm_alerts s)\<rparr>)), True))"

fun level_type :: "nat \<Rightarrow> SecurityAlertType" where
  "level_type n = (if n = 1 then message_flood else if n = 2 then transaction_conflict else sybil_cluster)"

text \<open>\<^verbatim>\<open>quarantineLevel1\<close> to \<^verbatim>\<open>quarantineLevel3\<close>, which differ in the level, the type and the severity.\<close>

definition quarantineLevel :: "nat \<Rightarrow> time \<Rightarrow> string \<Rightarrow> string \<Rightarrow> string \<Rightarrow> security_monitor \<Rightarrow> security_monitor \<times> QuarantineEntry option" where
  "quarantineLevel n now i p why s =
     (if p = sm_localPeerId s then (s, None)
      else let a = \<lparr>al_id = i, al_type = level_type n, al_severity = (if n = 1 then sv_warning else sv_critical), al_source = p,
                    al_description = at_level n why, al_evidence = ev_level n why, al_timestamp = now, al_resolved = False, al_resolvedAt = None\<rparr>;
               s1 = sm_emit (se_level n p why) (quarantinePeer now p (at_reason why) i n (processAlert now a s))
           in (s1, find (of_peer p) (sm_quarantine s1)))"

definition appealQuarantine :: "time \<Rightarrow> string \<Rightarrow> string \<Rightarrow> security_monitor \<Rightarrow> security_monitor \<times> bool" where
  "appealQuarantine now p why s =
     (case find (of_peer p) (sm_quarantine s) of None \<Rightarrow> (s, False)
      | Some q \<Rightarrow>
          (sm_save (sm_emit (se_appeal p why)
            (s\<lparr>sm_quarantine := update_first (of_peer p) (\<lambda>q. q\<lparr>qe_appealReason := Some why, qe_appealedAt := Some now\<rparr>) (sm_quarantine s)\<rparr>)), True))"

definition getActiveAlerts :: "security_monitor \<Rightarrow> SecurityAlert list" where
  "getActiveAlerts s = filter (\<lambda>a. \<not> al_resolved a) (sm_alerts s)"

definition getQuarantinedPeers :: "security_monitor \<Rightarrow> QuarantineEntry list" where
  "getQuarantinedPeers s = filter qe_active (sm_quarantine s)"

record SecurityStats =
  st_totalAlerts :: nat
  st_activeAlerts :: nat
  st_resolvedAlerts :: nat
  st_alertsByType :: "SecurityAlertType \<Rightarrow> nat"
  st_quarantinedPeers :: nat
  st_lastCheckAt :: "time option"

definition sm_getStats :: "security_monitor \<Rightarrow> SecurityStats" where
  "sm_getStats s =
     \<lparr>st_totalAlerts = length (sm_alerts s), st_activeAlerts = length (getActiveAlerts s), st_resolvedAlerts = length (filter al_resolved (sm_alerts s)),
      st_alertsByType = (\<lambda>t. length (filter (\<lambda>a. al_type a = t) (sm_alerts s))), st_quarantinedPeers = length (getQuarantinedPeers s),
      st_lastCheckAt = sm_lastCheckAt s\<rparr>"

text \<open>\<open>None\<close> for a file that is missing or is not a JSON array.\<close>

definition sm_load :: "nat \<Rightarrow> 'a list option \<Rightarrow> 'a list" where
  "sm_load n file = (case file of None \<Rightarrow> [] | Some xs \<Rightarrow> take n xs)"

definition SecurityMonitor_init :: "string \<Rightarrow> SecurityAlert list option \<Rightarrow> QuarantineEntry list option \<Rightarrow> security_monitor" where
  "SecurityMonitor_init local as qs =
     \<lparr>sm_localPeerId = local, sm_running = False, sm_messageLog = [], sm_txLog = [], sm_joinLog = [], sm_flaggedProfiles = [], sm_proposalLog = [],
      sm_alerts = sm_load MAX_ALERTS as, sm_quarantine = sm_load MAX_QUARANTINE_ENTRIES qs,
      sm_lastCheckAt = None, sm_credentialWiper = False, sm_wipes = 0, sm_alertsFile = as, sm_quarantineFile = qs, sm_events = []\<rparr>"

definition setCredentialWiper :: "security_monitor \<Rightarrow> security_monitor" where
  "setCredentialWiper s = s\<lparr>sm_credentialWiper := True\<rparr>"

section \<open>Logs with live entries\<close>

lemma live_take: "distinct (map k (filter P xs)) \<Longrightarrow> distinct (map k (filter P (take n xs)))"
  by (metis append_take_drop_id distinct_append filter_append map_append)

lemma live_take_set: "x \<in> k ` set (filter P (take n xs)) \<Longrightarrow> x \<in> k ` set (filter P xs)"
  by (auto dest: in_set_takeD)

lemma live_update_set:
  assumes "\<And>x. k (f x) = k x" "\<And>x. P (f x) \<Longrightarrow> P x"
  shows "k ` set (filter P (update_first Q f xs)) \<subseteq> k ` set (filter P xs)"
proof (induction xs)
  case (Cons x xs)
  then show ?case using assms(1) [of x] assms(2) [of x] by (auto simp: image_iff)
qed simp

lemma live_update:
  assumes "\<And>x. k (f x) = k x" "\<And>x. P (f x) \<Longrightarrow> P x"
  shows "distinct (map k (filter P xs)) \<Longrightarrow> distinct (map k (filter P (update_first Q f xs)))"
proof (induction xs)
  case (Cons x xs)
  then show ?case using assms(1) [of x] assms(2) [of x] live_update_set [of k f P Q xs, OF assms] by auto
qed simp

lemma length_update_first [simp]: "length (update_first P f xs) = length xs"
  by (induction xs) simp_all

definition open_keys :: "SecurityAlert list \<Rightarrow> (SecurityAlertType \<times> string) list" where
  "open_keys as = map (\<lambda>a. (al_type a, al_source a)) (filter (\<lambda>a. \<not> al_resolved a) as)"

definition active_peers :: "QuarantineEntry list \<Rightarrow> string list" where
  "active_peers qs = map qe_peerId (filter qe_active qs)"

lemma quarantined_iff: "isQuarantined s p \<longleftrightarrow> p \<in> set (active_peers (sm_quarantine s))"
  by (auto simp: isQuarantined_def of_peer_def active_peers_def list_ex_iff)

lemma find_of_peer: "find (of_peer p) qs = None \<longleftrightarrow> p \<notin> set (active_peers qs)"
  by (auto simp: find_None_iff of_peer_def active_peers_def)

lemma active_update:
  assumes "\<And>q. qe_peerId (f q) = qe_peerId q" "\<And>q. qe_active (f q) \<Longrightarrow> qe_active q"
  shows "distinct (active_peers qs) \<Longrightarrow> distinct (active_peers (update_first Q f qs))"
    and "set (active_peers (update_first Q f qs)) \<subseteq> set (active_peers qs)"
  using live_update [of qe_peerId f qe_active, OF assms] live_update_set [of qe_peerId f qe_active, OF assms] by (auto simp: active_peers_def)

lemma resolve_keys: "distinct (open_keys as) \<Longrightarrow> distinct (open_keys (resolve_alert now i as))"
  unfolding open_keys_def resolve_alert_def by (rule live_update) simp_all

lemma length_resolve [simp]: "length (resolve_alert now i as) = length as"
  by (simp add: resolve_alert_def)

section \<open>Invariant\<close>

definition alerts_ok :: "SecurityAlert list \<Rightarrow> bool" where
  "alerts_ok as = (distinct (open_keys as) \<and> length as \<le> MAX_ALERTS)"

definition quarantine_ok :: "string \<Rightarrow> QuarantineEntry list \<Rightarrow> bool" where
  "quarantine_ok local qs = (distinct (active_peers qs) \<and> local \<notin> set (active_peers qs) \<and> length qs \<le> MAX_QUARANTINE_ENTRIES)"

text \<open>The file of the quarantine is what the monitor holds.\<close>

definition saved :: "security_monitor \<Rightarrow> bool" where
  "saved s = (sm_quarantineFile s = Some (sm_quarantine s) \<or> sm_quarantineFile s = None \<and> sm_quarantine s = [])"

definition sm_ok :: "security_monitor \<Rightarrow> bool" where
  "sm_ok s = (alerts_ok (sm_alerts s) \<and> quarantine_ok (sm_localPeerId s) (sm_quarantine s) \<and> saved s \<and>
     (case sm_alertsFile s of None \<Rightarrow> True | Some as \<Rightarrow> alerts_ok as))"

lemma saved_save [simp]: "saved (sm_save s)" by (simp add: saved_def sm_save_def)

lemma sm_okI: "alerts_ok (sm_alerts s) \<Longrightarrow> quarantine_ok (sm_localPeerId s) (sm_quarantine s) \<Longrightarrow> sm_ok (sm_save s)"
  by (simp add: sm_ok_def sm_save_def saved_def)

lemma sm_okD: "sm_ok s \<Longrightarrow> alerts_ok (sm_alerts s)" "sm_ok s \<Longrightarrow> quarantine_ok (sm_localPeerId s) (sm_quarantine s)"
  by (simp_all add: sm_ok_def)

lemma sm_ok_frame:
  "sm_ok s \<Longrightarrow> sm_alerts s' = sm_alerts s \<Longrightarrow> sm_quarantine s' = sm_quarantine s \<Longrightarrow> sm_localPeerId s' = sm_localPeerId s \<Longrightarrow>
    sm_alertsFile s' = sm_alertsFile s \<Longrightarrow> sm_quarantineFile s' = sm_quarantineFile s \<Longrightarrow> sm_ok s'"
  by (simp add: sm_ok_def saved_def)

lemma sm_ok_alerts: "sm_ok s \<Longrightarrow> alerts_ok as \<Longrightarrow> sm_ok (s\<lparr>sm_alerts := as\<rparr>)"
  by (simp add: sm_ok_def saved_def)

lemma quarantine_update_ok:
  assumes "\<And>q. qe_peerId (f q) = qe_peerId q" "\<And>q. qe_active (f q) \<Longrightarrow> qe_active q" "quarantine_ok l qs"
  shows "quarantine_ok l (update_first Q f qs)"
  using assms(3) active_update(1) [of f qs Q, OF assms(1,2)] subsetD [OF active_update(2) [of f Q qs, OF assms(1,2)], of l]
  unfolding quarantine_ok_def by simp blast

lemma quarantinePeer_ok: "sm_ok s \<Longrightarrow> sm_ok (quarantinePeer now p why i level s)"
proof (cases "p = sm_localPeerId s \<or> find (of_peer p) (sm_quarantine s) \<noteq> None")
  case True
  assume ok: "sm_ok s"
  have "sm_ok (sm_save (sm_emit e (s\<lparr>sm_quarantine := update_first (of_peer p) (\<lambda>q. q\<lparr>qe_level := level, qe_reason := why\<rparr>) (sm_quarantine s)\<rparr>)))" for e
    by (rule sm_okI) (use sm_okD [OF ok] in \<open>auto simp: sm_emit_def intro!: quarantine_update_ok\<close>)
  then show ?thesis using True ok by (auto simp: quarantinePeer_def)
next
  case False
  then have new: "p \<noteq> sm_localPeerId s" "find (of_peer p) (sm_quarantine s) = None" "p \<notin> set (active_peers (sm_quarantine s))"
    by (auto simp: find_of_peer)
  assume ok: "sm_ok s"
  have "quarantine_ok (sm_localPeerId s) (take MAX_QUARANTINE_ENTRIES (q # sm_quarantine s))" if "qe_peerId q = p" for q
    using that new(1,3) sm_okD(2) [OF ok] live_take [of qe_peerId qe_active "q # sm_quarantine s" MAX_QUARANTINE_ENTRIES]
      live_take_set [of "sm_localPeerId s" qe_peerId qe_active MAX_QUARANTINE_ENTRIES "q # sm_quarantine s"]
    by (auto simp: quarantine_ok_def active_peers_def split: if_splits)
  then show ?thesis using new sm_okD(1) [OF ok] by (simp add: quarantinePeer_def Let_def sm_emit_def sm_okI)
qed

lemma open_keys_update:
  "open_keys (update_first (same_alert a) (\<lambda>b. b\<lparr>al_timestamp := t, al_evidence := e\<rparr>) as) = open_keys as"
  unfolding open_keys_def by (induction as) simp_all

lemma processAlert_ok: "sm_ok s \<Longrightarrow> \<not> al_resolved a \<Longrightarrow> sm_ok (processAlert now a s)"
proof (cases "list_ex (same_alert a) (sm_alerts s)")
  case True
  assume "sm_ok s"
  then show ?thesis using True by (auto simp: processAlert_def alerts_ok_def open_keys_update dest: sm_okD intro!: sm_ok_alerts)
next
  case False
  assume ok: "sm_ok s" and a: "\<not> al_resolved a"
  have "alerts_ok (take MAX_ALERTS (a # sm_alerts s))"
    using sm_okD(1) [OF ok] False a live_take [of "\<lambda>a. (al_type a, al_source a)" "\<lambda>a. \<not> al_resolved a" "a # sm_alerts s" MAX_ALERTS]
    by (force simp: alerts_ok_def open_keys_def list_ex_iff same_alert_def)
  then have "sm_ok (sm_emit (se_alert a) (s\<lparr>sm_alerts := take MAX_ALERTS (a # sm_alerts s)\<rparr>))"
    by (intro sm_ok_frame [OF sm_ok_alerts [OF ok]]) (simp_all add: sm_emit_def)
  moreover have "sm_ok x \<Longrightarrow> sm_ok (wipe_credentials x)" for x by (erule sm_ok_frame) (simp_all add: wipe_credentials_def)
  ultimately show ?thesis using False by (simp add: processAlert_def Let_def quarantinePeer_ok)
qed

lemma alerts_fold_ok: "sm_ok s \<Longrightarrow> list_all (\<lambda>a. \<not> al_resolved a) as \<Longrightarrow> sm_ok (fold (processAlert now) as s)"
  by (induction as arbitrary: s) (simp_all add: processAlert_ok)

lemma run_detector_ok: "sm_ok (fst (d s)) \<Longrightarrow> list_all (\<lambda>a. \<not> al_resolved a) (snd (d s)) \<Longrightarrow> sm_ok (run_detector now d s)"
  by (simp add: run_detector_def case_prod_beta alerts_fold_ok)

lemmas detector_defs = check_messages_def check_transactions_def check_joins_def check_profiles_def check_proposals_def new_alert_def Let_def

lemma detector_state:
  "sm_ok s \<Longrightarrow> sm_ok (fst (check_messages newId now s))" "sm_ok s \<Longrightarrow> sm_ok (fst (check_transactions newId now s))"
  "sm_ok s \<Longrightarrow> sm_ok (fst (check_joins newId now s))" "sm_ok s \<Longrightarrow> sm_ok (fst (check_profiles newId now s))"
  "sm_ok s \<Longrightarrow> sm_ok (fst (check_proposals newId now s))"
  by (erule sm_ok_frame; simp add: detector_defs)+

lemma detector_alerts:
  "list_all (\<lambda>a. \<not> al_resolved a) (snd (check_messages newId now s))" "list_all (\<lambda>a. \<not> al_resolved a) (snd (check_transactions newId now s))"
  "list_all (\<lambda>a. \<not> al_resolved a) (snd (check_joins newId now s))" "list_all (\<lambda>a. \<not> al_resolved a) (snd (check_profiles newId now s))"
  "list_all (\<lambda>a. \<not> al_resolved a) (snd (check_proposals newId now s))"
  by (auto simp: detector_defs list_all_iff)

lemmas detectors_ok = run_detector_ok [OF detector_state(1) detector_alerts(1)] run_detector_ok [OF detector_state(2) detector_alerts(2)]
  run_detector_ok [OF detector_state(3) detector_alerts(3)] run_detector_ok [OF detector_state(4) detector_alerts(4)]
  run_detector_ok [OF detector_state(5) detector_alerts(5)]

lemma fold_resolve_ok: "alerts_ok as \<Longrightarrow> alerts_ok (fold (\<lambda>q. resolve_alert now (qe_alertId q)) qs as)"
  by (induction qs arbitrary: as) (simp_all add: alerts_ok_def resolve_keys)

lemma release_map_active:
  "active_peers (map (\<lambda>q. if R q then release_entry now q else q) qs) = map qe_peerId (filter (\<lambda>q. qe_active q \<and> \<not> R q) qs)"
  unfolding active_peers_def by (induction qs) (simp_all add: release_entry_def)

lemma release_map_ok: "quarantine_ok l qs \<Longrightarrow> quarantine_ok l (map (\<lambda>q. if R q then release_entry now q else q) qs)"
proof -
  have "active_peers (map (\<lambda>q. if R q then release_entry now q else q) qs) = map qe_peerId (filter (\<lambda>q. \<not> R q) (filter qe_active qs))"
    by (simp add: release_map_active conj_commute)
  then show "quarantine_ok l qs \<Longrightarrow> ?thesis"
    unfolding quarantine_ok_def using distinct_map_filter [of qe_peerId "filter qe_active qs" "\<lambda>q. \<not> R q"] by (auto simp: active_peers_def [of qs])
qed

lemma runCheck_ok: "sm_ok s \<Longrightarrow> sm_ok (runCheck newId now s)"
proof -
  assume "sm_ok s"
  then have "sm_ok (run_detectors newId now s)" by (simp add: run_detectors_def detectors_ok)
  then show ?thesis unfolding runCheck_def Let_def
    by (intro sm_okI) (simp_all add: releaseExpiredQuarantines_def Let_def fold_resolve_ok release_map_ok sm_okD)
qed

section \<open>Runs\<close>

datatype sm_op =
    so_message time string
  | so_transaction time string string string string rat
  | so_join time string
  | so_profile string "(string \<times> string option) list"
  | so_proposal time string
  | so_check "SecurityAlertType \<Rightarrow> string \<Rightarrow> string" time
  | so_start "SecurityAlertType \<Rightarrow> string \<Rightarrow> string" time
  | so_stop
  | so_release time string
  | so_level nat time string string string
  | so_appeal time string string
  | so_wiper
  | so_restart

fun sm_step :: "sm_op \<Rightarrow> security_monitor \<Rightarrow> security_monitor" where
  "sm_step (so_message now p) s = recordMessage now p s"
| "sm_step (so_transaction now p i from to amount) s = sm_recordTransaction now p i from to amount s"
| "sm_step (so_join now p) s = recordPeerJoin now p s"
| "sm_step (so_profile p profile) s = recordProfile p profile s"
| "sm_step (so_proposal now p) s = recordEmissionProposal now p s"
| "sm_step (so_check newId now) s = runCheck newId now s"
| "sm_step (so_start newId now) s = sm_start newId now s"
| "sm_step so_stop s = sm_stop s"
| "sm_step (so_release now p) s = fst (releasePeer now p s)"
| "sm_step (so_level n now i p why) s = fst (quarantineLevel n now i p why s)"
| "sm_step (so_appeal now p why) s = fst (appealQuarantine now p why s)"
| "sm_step so_wiper s = setCredentialWiper s"
| "sm_step so_restart s = SecurityMonitor_init (sm_localPeerId s) (sm_alertsFile s) (sm_quarantineFile s)"

lemma record_ok:
  "sm_ok s \<Longrightarrow> sm_ok (recordMessage now p s)" "sm_ok s \<Longrightarrow> sm_ok (sm_recordTransaction now p i from to amount s)" "sm_ok s \<Longrightarrow> sm_ok (recordPeerJoin now p s)"
  "sm_ok s \<Longrightarrow> sm_ok (recordProfile p profile s)" "sm_ok s \<Longrightarrow> sm_ok (recordEmissionProposal now p s)" "sm_ok s \<Longrightarrow> sm_ok (setCredentialWiper s)"
  by (erule sm_ok_frame; simp add: recordMessage_def sm_recordTransaction_def recordPeerJoin_def recordProfile_def recordEmissionProposal_def
      setCredentialWiper_def Let_def)+

lemma releasePeer_ok: "sm_ok s \<Longrightarrow> sm_ok (fst (releasePeer now p s))"
  by (auto simp: releasePeer_def sm_emit_def alerts_ok_def release_entry_def dest: sm_okD split: option.split
      intro!: sm_okI quarantine_update_ok resolve_keys)

lemma quarantineLevel_ok: "sm_ok s \<Longrightarrow> sm_ok (fst (quarantineLevel n now i p why s))"
proof -
  have emit: "sm_ok s \<Longrightarrow> sm_ok (sm_emit e s)" for e s by (erule sm_ok_frame) (simp_all add: sm_emit_def)
  show "sm_ok s \<Longrightarrow> ?thesis" by (auto simp: quarantineLevel_def Let_def intro!: emit quarantinePeer_ok processAlert_ok)
qed

lemma appealQuarantine_ok: "sm_ok s \<Longrightarrow> sm_ok (fst (appealQuarantine now p why s))"
  by (auto simp: appealQuarantine_def sm_emit_def dest: sm_okD split: option.split intro!: sm_okI quarantine_update_ok)

lemma restart_state:
  assumes "sm_ok s"
  shows "sm_quarantine (sm_step so_restart s) = sm_quarantine s" and "sm_ok (sm_step so_restart s)"
proof -
  show q: "sm_quarantine (sm_step so_restart s) = sm_quarantine s"
    using assms by (auto simp: SecurityMonitor_init_def sm_load_def sm_ok_def saved_def quarantine_ok_def)
  have "alerts_ok (sm_alerts (sm_step so_restart s))"
    using assms by (auto simp: SecurityMonitor_init_def sm_load_def sm_ok_def alerts_ok_def open_keys_def split: option.splits)
  then show "sm_ok (sm_step so_restart s)" using assms q by (auto simp: sm_ok_def saved_def SecurityMonitor_init_def sm_load_def)
qed

lemma sm_step_ok: "sm_ok s \<Longrightarrow> sm_ok (sm_step op s)"
proof (cases op)
  case (so_start newId now)
  assume "sm_ok s"
  then have "sm_ok (s\<lparr>sm_running := True\<rparr>)" by (rule sm_ok_frame) simp_all
  then show ?thesis using so_start \<open>sm_ok s\<close> by (simp add: sm_start_def runCheck_ok)
next
  case so_stop
  assume "sm_ok s"
  then show ?thesis using so_stop by (auto simp: sm_stop_def dest: sm_okD intro!: sm_okI)
qed (auto intro: record_ok runCheck_ok releasePeer_ok quarantineLevel_ok appealQuarantine_ok restart_state(2) simp del: sm_step.simps(13))

lemma sm_run_ok: "sm_ok s \<Longrightarrow> sm_ok (fold sm_step ops s)"
  by (induction ops arbitrary: s) (simp_all add: sm_step_ok)

lemma sm_init_ok: "sm_ok (SecurityMonitor_init local None None)"
  by (simp add: sm_ok_def SecurityMonitor_init_def sm_load_def alerts_ok_def quarantine_ok_def open_keys_def active_peers_def saved_def)

section \<open>Properties\<close>

text \<open>C23: After any sequence of events, checks, manual quarantines, appeals, releases and restarts: a peer has at most one active
  quarantine entry and the node itself none, a peer has at most one open alert of a type, at most 200 alerts and entries are kept,
  and a restart from the files keeps every peer's quarantine and its level.\<close>

theorem quarantine_is_consistent:
  "case fold sm_step ops (SecurityMonitor_init local None None) of s \<Rightarrow>
     distinct (map qe_peerId (getQuarantinedPeers s)) \<and> \<not> isQuarantined s (sm_localPeerId s) \<and>
     distinct (map (\<lambda>a. (al_type a, al_source a)) (getActiveAlerts s)) \<and>
     length (sm_alerts s) \<le> MAX_ALERTS \<and> length (sm_quarantine s) \<le> MAX_QUARANTINE_ENTRIES \<and>
     isQuarantined (sm_step so_restart s) = isQuarantined s \<and> getQuarantineLevel (sm_step so_restart s) = getQuarantineLevel s"
proof -
  let ?s = "fold sm_step ops (SecurityMonitor_init local None None)"
  have ok: "sm_ok ?s" by (rule sm_run_ok [OF sm_init_ok])
  have "isQuarantined (sm_step so_restart ?s) = isQuarantined ?s" "getQuarantineLevel (sm_step so_restart ?s) = getQuarantineLevel ?s"
    by (rule ext; simp only: isQuarantined_def getQuarantineLevel_def restart_state(1) [OF ok])+
  then show ?thesis using sm_okD [OF ok]
    by (simp add: quarantined_iff alerts_ok_def quarantine_ok_def open_keys_def active_peers_def getActiveAlerts_def getQuarantinedPeers_def)
qed

text \<open>A peer with an entry of its third or a later offence; entries can only leave a full list.\<close>

definition held_for_review :: "string \<Rightarrow> security_monitor \<Rightarrow> bool" where
  "held_for_review p s = (list_ex (\<lambda>q. of_peer p q \<and> 3 \<le> offence_count q) (sm_quarantine s) \<or> length (sm_quarantine s) = MAX_QUARANTINE_ENTRIES)"

lemma held_frame: "held_for_review p s \<Longrightarrow> sm_quarantine s' = sm_quarantine s \<Longrightarrow> held_for_review p s'"
  by (simp add: held_for_review_def)

lemma held_update:
  assumes "\<And>q. qe_peerId (f q) = qe_peerId q \<and> qe_active (f q) = qe_active q \<and> qe_quarantineCount (f q) = qe_quarantineCount q"
    and "held_for_review p s" and "sm_quarantine s' = update_first Q f (sm_quarantine s)"
  shows "held_for_review p s'"
proof -
  have "list_ex (\<lambda>q. of_peer p q \<and> 3 \<le> offence_count q) (update_first Q f qs) = list_ex (\<lambda>q. of_peer p q \<and> 3 \<le> offence_count q) qs" for qs
    using assms(1) by (induction qs) (simp_all add: of_peer_def offence_count_def)
  then show ?thesis using assms(2,3) by (simp add: held_for_review_def)
qed

lemma held_quarantinePeer: "held_for_review p s \<Longrightarrow> length (sm_quarantine s) \<le> MAX_QUARANTINE_ENTRIES \<Longrightarrow> held_for_review p (quarantinePeer now r why i level s)"
proof (cases "r = sm_localPeerId s \<or> find (of_peer r) (sm_quarantine s) \<noteq> None")
  case True
  have "held_for_review p s \<Longrightarrow> held_for_review p (sm_save (sm_emit e (s\<lparr>sm_quarantine := update_first (of_peer r) (\<lambda>q. q\<lparr>qe_level := level, qe_reason := why\<rparr>) (sm_quarantine s)\<rparr>)))" for e
    by (rule held_update [where f = "\<lambda>q. q\<lparr>qe_level := level, qe_reason := why\<rparr>" and Q = "of_peer r" and s = s]) (simp_all add: sm_save_def sm_emit_def)
  then show "held_for_review p s \<Longrightarrow> ?thesis" using True by (auto simp: quarantinePeer_def)
next
  case False
  assume "held_for_review p s" "length (sm_quarantine s) \<le> MAX_QUARANTINE_ENTRIES"
  then have "length (sm_quarantine s) = MAX_QUARANTINE_ENTRIES \<or>
      length (sm_quarantine s) < MAX_QUARANTINE_ENTRIES \<and> list_ex (\<lambda>q. of_peer p q \<and> 3 \<le> offence_count q) (sm_quarantine s)"
    by (auto simp: held_for_review_def)
  then show ?thesis using False
    by (auto simp: quarantinePeer_def Let_def held_for_review_def sm_save_def sm_emit_def)
qed

lemma held_emit [simp]: "held_for_review p (sm_emit e s) = held_for_review p s" "sm_quarantine (sm_emit e s) = sm_quarantine s"
  by (simp_all add: held_for_review_def sm_emit_def)

lemma held_processAlert: "held_for_review p s \<Longrightarrow> length (sm_quarantine s) \<le> MAX_QUARANTINE_ENTRIES \<Longrightarrow> held_for_review p (processAlert now a s)"
proof -
  have wipe: "held_for_review p s \<Longrightarrow> held_for_review p (wipe_credentials s)" for s by (simp add: held_for_review_def wipe_credentials_def)
  have same: "held_for_review p (s\<lparr>sm_alerts := as\<rparr>) = held_for_review p s" for as s by (simp add: held_for_review_def)
  show "held_for_review p s \<Longrightarrow> length (sm_quarantine s) \<le> MAX_QUARANTINE_ENTRIES \<Longrightarrow> ?thesis"
    by (simp add: processAlert_def Let_def same wipe held_quarantinePeer)
qed

lemma held_alerts:
  "sm_ok s \<Longrightarrow> held_for_review p s \<Longrightarrow> list_all (\<lambda>a. \<not> al_resolved a) as \<Longrightarrow> held_for_review p (fold (processAlert now) as s)"
proof (induction as arbitrary: s)
  case (Cons a as)
  then show ?case using sm_okD(2) [OF Cons.prems(1)] by (simp add: processAlert_ok held_processAlert quarantine_ok_def)
qed simp

lemma held_detector:
  "sm_ok (fst (d s)) \<Longrightarrow> list_all (\<lambda>a. \<not> al_resolved a) (snd (d s)) \<Longrightarrow> sm_quarantine (fst (d s)) = sm_quarantine s \<Longrightarrow> held_for_review p s \<Longrightarrow>
    held_for_review p (run_detector now d s)"
  by (simp add: run_detector_def case_prod_beta held_alerts held_frame [of p s])

lemma detector_frame:
  "sm_quarantine (fst (check_messages newId now s)) = sm_quarantine s" "sm_quarantine (fst (check_transactions newId now s)) = sm_quarantine s"
  "sm_quarantine (fst (check_joins newId now s)) = sm_quarantine s" "sm_quarantine (fst (check_profiles newId now s)) = sm_quarantine s"
  "sm_quarantine (fst (check_proposals newId now s)) = sm_quarantine s"
  by (simp_all add: detector_defs)

lemma held_detectors:
  "sm_ok s \<Longrightarrow> held_for_review p s \<Longrightarrow> held_for_review p (run_detector t (check_messages newId now) s)"
  "sm_ok s \<Longrightarrow> held_for_review p s \<Longrightarrow> held_for_review p (run_detector t (check_transactions newId now) s)"
  "sm_ok s \<Longrightarrow> held_for_review p s \<Longrightarrow> held_for_review p (run_detector t (check_joins newId now) s)"
  "sm_ok s \<Longrightarrow> held_for_review p s \<Longrightarrow> held_for_review p (run_detector t (check_profiles newId now) s)"
  "sm_ok s \<Longrightarrow> held_for_review p s \<Longrightarrow> held_for_review p (run_detector t (check_proposals newId now) s)"
  by (rule held_detector; simp add: detector_state detector_alerts detector_frame)+

lemma held_runCheck: "sm_ok s \<Longrightarrow> held_for_review p s \<Longrightarrow> held_for_review p (runCheck newId now s)"
proof -
  assume "sm_ok s" "held_for_review p s"
  then have h: "held_for_review p (run_detectors newId now s)" by (simp add: run_detectors_def detectors_ok held_detectors)
  have "list_ex (\<lambda>q. of_peer p q \<and> 3 \<le> offence_count q) (map (\<lambda>q. if auto_release now q then release_entry now q else q) qs)"
    if "list_ex (\<lambda>q. of_peer p q \<and> 3 \<le> offence_count q) qs" for qs
    using that by (induction qs) (auto simp: auto_release_def)
  then show ?thesis using h by (auto simp: runCheck_def Let_def sm_save_def releaseExpiredQuarantines_def held_for_review_def)
qed

lemma held_step: "sm_ok s \<Longrightarrow> held_for_review p s \<Longrightarrow> (\<And>now. op \<noteq> so_release now p) \<Longrightarrow> held_for_review p (sm_step op s)"
proof (cases op)
  case (so_start newId now)
  assume "sm_ok s" "held_for_review p s"
  moreover have "sm_ok (s\<lparr>sm_running := True\<rparr>)" by (rule sm_ok_frame [OF \<open>sm_ok s\<close>]) simp_all
  ultimately show ?thesis using so_start by (simp add: sm_start_def held_runCheck held_for_review_def [of p "s\<lparr>sm_running := True\<rparr>"] held_for_review_def [of p s])
next
  case (so_release now r)
  assume h: "held_for_review p s" and "\<And>now. op \<noteq> so_release now p"
  then have "r \<noteq> p" using so_release by blast
  then have "list_ex (\<lambda>q. of_peer p q \<and> 3 \<le> offence_count q) (update_first (of_peer r) (release_entry now) qs) = list_ex (\<lambda>q. of_peer p q \<and> 3 \<le> offence_count q) qs" for qs
    by (induction qs) (auto simp: of_peer_def release_entry_def)
  then show ?thesis using h so_release by (auto simp: releasePeer_def sm_save_def sm_emit_def held_for_review_def split: option.split)
next
  case (so_level n now i r why)
  assume ok: "sm_ok s" and h: "held_for_review p s"
  have "sm_ok (processAlert now a s)" "held_for_review p (processAlert now a s)" if "\<not> al_resolved a" for a
    using that ok h sm_okD(2) [OF ok] by (simp_all add: processAlert_ok held_processAlert quarantine_ok_def)
  then have "held_for_review p (quarantinePeer now r y i n (processAlert now a s))" if "\<not> al_resolved a" for a y
    using that sm_okD(2) by (fastforce simp: quarantine_ok_def intro!: held_quarantinePeer)
  then show ?thesis using h so_level by (simp add: quarantineLevel_def Let_def)
next
  case (so_appeal now r why)
  assume "held_for_review p s"
  then show ?thesis using so_appeal
    by (auto simp: appealQuarantine_def sm_save_def sm_emit_def split: option.split
      intro!: held_update [where s = s and Q = "of_peer r" and f = "\<lambda>q. q\<lparr>qe_appealReason := Some why, qe_appealedAt := Some now\<rparr>"])
next
  case so_restart
  assume "sm_ok s" "held_for_review p s"
  then show ?thesis using so_restart restart_state(1) held_frame by metis
next
  case (so_check newId now)
  assume "sm_ok s" "held_for_review p s"
  then show ?thesis using so_check by (simp add: held_runCheck)
qed (auto elim!: held_frame simp: recordMessage_def sm_recordTransaction_def recordPeerJoin_def recordProfile_def recordEmissionProposal_def
    setCredentialWiper_def Let_def sm_stop_def sm_save_def)

lemma held_run:
  "sm_ok s \<Longrightarrow> held_for_review p s \<Longrightarrow> list_all (\<lambda>op. \<forall>now. op \<noteq> so_release now p) ops \<Longrightarrow> held_for_review p (fold sm_step ops s)"
  by (induction ops arbitrary: s) (simp_all add: sm_step_ok held_step)

text \<open>Repeated offenders are not let out automatically: a peer that is quarantined for the third or a later time stays
  quarantined through all checks, restarts, appeals and other events, until it is released by hand or 200 entries
  have filled the list.\<close>

lemma repeat_offenders_stay:
  assumes "s = fold sm_step ops (SecurityMonitor_init local None None)" and "q \<in> set (sm_quarantine s)" and "of_peer p q" and "3 \<le> offence_count q"
    and "list_all (\<lambda>op. \<forall>now. op \<noteq> so_release now p) later"
  shows "isQuarantined (fold sm_step later s) p \<or> length (sm_quarantine (fold sm_step later s)) = MAX_QUARANTINE_ENTRIES"
proof -
  have "sm_ok s" unfolding assms(1) by (rule sm_run_ok [OF sm_init_ok])
  moreover have "held_for_review p s" using assms(2-4) by (auto simp: held_for_review_def list_ex_iff)
  ultimately have "held_for_review p (fold sm_step later s)" by (rule held_run [OF _ _ assms(5)])
  then show ?thesis by (auto simp: held_for_review_def isQuarantined_def list_ex_iff)
qed

definition demo_offences :: "sm_op list" where
  "demo_offences = [so_level 2 1 ''a'' ''p'' [], so_release 2 ''p'', so_level 2 3 ''b'' ''p'' [], so_release 4 ''p'', so_level 2 5 ''c'' ''p'' []]"

definition demo_held :: security_monitor where
  "demo_held = fold sm_step demo_offences (SecurityMonitor_init ''me'' None None)"

lemma demo_held_facts:
  "of_peer ''p'' (hd (sm_quarantine demo_held))" "3 \<le> offence_count (hd (sm_quarantine demo_held))" "sm_quarantine demo_held \<noteq> []"
  "length (sm_quarantine (fold sm_step [so_check (\<lambda>t p. p) (10 ^ 12), so_restart] demo_held)) = 3"
  by code_simp+

lemma repeat_offenders_stay_witness: "isQuarantined (fold sm_step [so_check (\<lambda>t p. p) (10 ^ 12), so_restart] demo_held) ''p''"
  using repeat_offenders_stay [OF demo_held_def [unfolded atomize_eq] hd_in_set [OF demo_held_facts(3)] demo_held_facts(1,2),
      of "[so_check (\<lambda>t p. p) (10 ^ 12), so_restart]"] demo_held_facts(4)
  by (simp add: MAX_QUARANTINE_ENTRIES_def del: fold_simps sm_step.simps)

section \<open>Floods\<close>

definition flood :: "nat \<Rightarrow> time \<Rightarrow> security_monitor \<Rightarrow> security_monitor" where
  "flood n now s = (recordMessage now ''p'' ^^ n) s"

lemma flood_log:
  "flood n now s = (if n = 0 then s else s\<lparr>sm_messageLog :=
     jset ''p'' ((case jget (sm_messageLog s) ''p'' of None \<Rightarrow> [] | Some ts \<Rightarrow> ts) @ replicate n now) (sm_messageLog s)\<rparr>)"
proof (induction n)
  case (Suc n)
  have twice: "jset k v (jset k w m) = jset k v m" for k :: string and v w :: "time list" and m by (induction m) auto
  show ?case using Suc by (simp add: flood_def recordMessage_def log_add_def twice replicate_append_same)
qed (simp add: flood_def)

text \<open>A check of a monitor that has seen only messages of one other peer.\<close>

definition flooded :: "time list \<Rightarrow> SecurityAlert list \<Rightarrow> security_monitor \<Rightarrow> bool" where
  "flooded ts as s = (sm_localPeerId s = ''me'' \<and> sm_messageLog s = (if ts = [] then [] else [(''p'', ts)]) \<and> sm_txLog s = [] \<and> sm_joinLog s = [] \<and>
     sm_flaggedProfiles s = [] \<and> sm_proposalLog s = [] \<and> sm_quarantine s = [] \<and> sm_alerts s = as)"

lemma flooded_flood: "flooded ts as s \<Longrightarrow> flooded (ts @ replicate n now) as (flood n now s)"
  by (auto simp: flooded_def flood_log)

lemma processAlert_logs [simp]:
  "sm_localPeerId (processAlert now a s) = sm_localPeerId s" "sm_messageLog (processAlert now a s) = sm_messageLog s" "sm_txLog (processAlert now a s) = sm_txLog s"
  "sm_joinLog (processAlert now a s) = sm_joinLog s" "sm_flaggedProfiles (processAlert now a s) = sm_flaggedProfiles s" "sm_proposalLog (processAlert now a s) = sm_proposalLog s"
  by (simp_all add: processAlert_def quarantinePeer_def wipe_credentials_def sm_emit_def sm_save_def Let_def split: option.split)

lemma quiet_detectors:
  "sm_txLog s = [] \<Longrightarrow> run_detector t (check_transactions newId now) s = s" "sm_joinLog s = [] \<Longrightarrow> run_detector t (check_joins newId now) s = s"
  "sm_flaggedProfiles s = [] \<Longrightarrow> run_detector t (check_profiles newId now) s = s" "sm_proposalLog s = [] \<Longrightarrow> run_detector t (check_proposals newId now) s = s"
  by (cases s; simp add: run_detector_def detector_defs SYBIL_JOIN_BURST_THRESHOLD_def)+

lemma runCheck_flooded:
  assumes "flooded ts as s" and "recent = recent_times (now - MSG_RATE_WINDOW_MS) ts"
    and "a = new_alert newId now message_flood (over MSG_RATE_THRESHOLD (length recent)) ''p'' (at_messages ''p'' (length recent)) (ev_count (length recent))"
    and "s1 = s\<lparr>sm_messageLog := (if recent = [] then [] else [(''p'', recent)])\<rparr>"
  shows "runCheck newId now s = sm_save ((releaseExpiredQuarantines now (if MSG_RATE_THRESHOLD \<le> length recent then processAlert now a s1 else s1))\<lparr>sm_lastCheckAt := Some now\<rparr>)"
proof -
  have "run_detector now (check_messages newId now) s = (if MSG_RATE_THRESHOLD \<le> length recent then processAlert now a s1 else s1)"
    using assms by (cases "ts = []") (auto simp: run_detector_def check_messages_def flooded_def Let_def recent_times_def MSG_RATE_THRESHOLD_def)
  moreover have "sm_txLog s1 = []" "sm_joinLog s1 = []" "sm_flaggedProfiles s1 = []" "sm_proposalLog s1 = []"
    using assms(1,4) by (simp_all add: flooded_def)
  ultimately show ?thesis by (simp add: runCheck_def run_detectors_def quiet_detectors Let_def)
qed

lemma warning_flooded:
  assumes "flooded ts [] s" and "length ts = n" and "recent_times (now - MSG_RATE_WINDOW_MS) ts = ts" and "100 \<le> n" and "n < 200"
  shows "flooded ts [new_alert newId now message_flood sv_warning ''p'' (at_messages ''p'' n) (ev_count n)] (runCheck newId now s)"
  unfolding runCheck_flooded [OF assms(1) refl refl refl] assms(3) assms(2)
  using assms by (auto simp: flooded_def processAlert_def new_alert_def over_def MSG_RATE_THRESHOLD_def releaseExpiredQuarantines_def sm_save_def sm_emit_def
      Let_def MAX_ALERTS_def)

lemma warned_flooded:
  assumes "flooded ts as s" and "list_ex (\<lambda>a. al_type a = message_flood \<and> al_source a = ''p'' \<and> \<not> al_resolved a) as"
  shows "\<not> isQuarantined (runCheck newId now s) ''p''"
proof -
  have "list_ex (same_alert (new_alert newId now message_flood sev ''p'' d e)) as" for sev d e
    using assms(2) by (auto simp: list_ex_iff same_alert_def new_alert_def)
  then show ?thesis using assms(1) unfolding runCheck_flooded [OF assms(1) refl refl refl]
    by (simp add: isQuarantined_def processAlert_def releaseExpiredQuarantines_def sm_save_def Let_def flooded_def)
qed

lemma unwarned_flooded:
  assumes "flooded ts [] s" and "length ts = n" and "recent_times (now - MSG_RATE_WINDOW_MS) ts = ts"
  shows "isQuarantined (runCheck newId now s) ''p'' \<longleftrightarrow> 200 \<le> n"
  using assms(1) unfolding runCheck_flooded [OF assms(1) refl refl refl] assms(3) assms(2)
  by (auto simp: isQuarantined_def flooded_def processAlert_def new_alert_def over_def MSG_RATE_THRESHOLD_def releaseExpiredQuarantines_def sm_save_def sm_emit_def
      Let_def MAX_ALERTS_def MAX_QUARANTINE_ENTRIES_def quarantinePeer_def wipe_credentials_def of_peer_def auto_release_def offence_count_def QUARANTINE_DURATION_MS_def)

text \<open>A warning makes a peer immune: 200 or more messages in a minute quarantine a peer, but not after a check that found 100
  to 199 of them. The open warning is only refreshed by later alerts, and nothing ever resolves it, so however many messages
  follow, the peer is not quarantined.\<close>

lemma warned_flood_is_ignored:
  "isQuarantined (runCheck newId 31000 (flood n 31000 (SecurityMonitor_init ''me'' None None))) ''p'' = (200 \<le> n) \<and>
   \<not> isQuarantined (runCheck newId 31000 (flood n 31000 (runCheck newId 1000 (flood 100 1000 (SecurityMonitor_init ''me'' None None))))) ''p''"
proof -
  let ?m = "SecurityMonitor_init ''me'' None None"
  have m: "flooded [] [] ?m" by (simp add: flooded_def SecurityMonitor_init_def sm_load_def)
  have "recent_times (t - MSG_RATE_WINDOW_MS) (replicate k t) = replicate k t" for k t
    by (simp add: recent_times_def MSG_RATE_WINDOW_MS_def)
  note recent = this
  have w: "flooded (replicate 100 1000) [new_alert newId 1000 message_flood sv_warning ''p'' (at_messages ''p'' 100) (ev_count 100)] (runCheck newId 1000 (flood 100 1000 ?m))"
    using flooded_flood [OF m, of 100 1000] by (intro warning_flooded recent) simp_all
  have "isQuarantined (runCheck newId 31000 (flood n 31000 ?m)) ''p'' = (200 \<le> n)"
    by (rule unwarned_flooded [OF flooded_flood [OF m]]) (simp_all add: recent)
  moreover have "\<not> isQuarantined (runCheck newId 31000 (flood n 31000 (runCheck newId 1000 (flood 100 1000 ?m)))) ''p''"
    by (rule warned_flooded [OF flooded_flood [OF w]]) (simp add: new_alert_def)
  ultimately show ?thesis by blast
qed

text \<open>The credential wiper, meant for local threats, is called when a remote peer floods the node.\<close>

lemma remote_flood_wipes_credentials:
  assumes "flooded ts [] s" and "recent_times (now - MSG_RATE_WINDOW_MS) ts = ts" and "200 \<le> length ts" and "sm_credentialWiper s"
  shows "sm_wipes (runCheck newId now s) = Suc (sm_wipes s)"
  using assms(1,3,4) unfolding runCheck_flooded [OF assms(1) refl refl refl] assms(2)
  by (auto simp: flooded_def processAlert_def new_alert_def over_def MSG_RATE_THRESHOLD_def releaseExpiredQuarantines_def sm_save_def sm_emit_def
      Let_def quarantinePeer_def wipe_credentials_def)

text \<open>A quarantine by hand holds at the level asked for or a higher one.\<close>

lemma find_update_first: "find P xs = Some x \<Longrightarrow> P (f x) \<Longrightarrow> find P (update_first P f xs) = Some (f x)"
  by (induction xs) (auto split: if_splits)

lemma quarantinePeer_level: "p \<noteq> sm_localPeerId s \<Longrightarrow> n \<le> getQuarantineLevel (quarantinePeer now p why i n s) p"
proof (cases "find (of_peer p) (sm_quarantine s)")
  case (Some q)
  then have "of_peer p q" by (auto dest: find_SomeD)
  then have "find (of_peer p) (update_first (of_peer p) (\<lambda>q. q\<lparr>qe_level := n, qe_reason := why\<rparr>) (sm_quarantine s)) = Some (q\<lparr>qe_level := n, qe_reason := why\<rparr>)"
    using Some by (intro find_update_first) (simp_all add: of_peer_def)
  then show "p \<noteq> sm_localPeerId s \<Longrightarrow> ?thesis" using Some by (simp add: quarantinePeer_def getQuarantineLevel_def sm_save_def sm_emit_def)
qed (simp add: quarantinePeer_def getQuarantineLevel_def sm_save_def sm_emit_def of_peer_def Let_def MAX_QUARANTINE_ENTRIES_def)

end
