(* ===== verification/UserAccounts.thy ===== *)
theory UserAccounts
  imports Ledger JsText
begin

text \<open>
  \<^verbatim>\<open>UserAccountStore\<close> (\<^verbatim>\<open>packages/node/src/platform/user-accounts.ts\<close>): guests, claims with a password, log-in and the reclamation of
  expired guests, over the accounts of the ledger and a local table of encrypted private keys. The key derivations and the cipher come
  from \<^verbatim>\<open>node:crypto\<close> and are parameters; random bytes, generated identities and times are arguments. A claim waits for the password
  hash: its rest is a job that any other operation can precede.
\<close>

section \<open>Hexadecimal texts\<close>

definition hex_digit :: "nat \<Rightarrow> char" where
  "hex_digit n = ''0123456789abcdef'' ! (n mod 16)"

definition hex_value :: "char \<Rightarrow> nat option" where
  "hex_value c = find (\<lambda>n. hex_digit n = js_lower c) [0..<16]"

fun hex_of :: "string \<Rightarrow> string" where
  "hex_of [] = []"
| "hex_of (c # cs) = hex_digit (of_char c div 16) # hex_digit (of_char c) # hex_of cs"

text \<open>\<^verbatim>\<open>Buffer.from(s, 'hex')\<close> stops at the first pair that is not two digits.\<close>

fun unhex :: "string \<Rightarrow> string" where
  "unhex (a # b # cs) = (case (hex_value a, hex_value b) of (Some x, Some y) \<Rightarrow> char_of (16 * x + y) # unhex cs | _ \<Rightarrow> [])"
| "unhex _ = []"

section \<open>State\<close>

record EncryptedKey =
  ek_salt :: string
  ek_iv :: string
  ek_data :: string

datatype enc_type = enc_node | enc_user | enc_browser

record key_row =
  kr_private_key_enc :: "EncryptedKey option"
  kr_enc_type :: enc_type
  kr_encrypted_backup :: "string option"
  kr_created_at :: time

record claim_job =
  cj_peerId :: peer_id
  cj_password :: string
  cj_username :: "string option"

record user_accounts =
  ua_ledger :: database
  ua_keys :: "(peer_id, key_row) jsmap"
  ua_nodeSecret :: "string option"
  ua_secretFile :: "string option"
  ua_jobs :: "claim_job list"

text \<open>\<^verbatim>\<open>scrypt\<close>, \<^verbatim>\<open>pbkdf2\<close> and AES-256-GCM: sealing gives the ciphertext and the tag, opening fails with \<open>None\<close>.\<close>

record crypto_env =
  ce_scrypt :: "string \<Rightarrow> string \<Rightarrow> string"
  ce_pbkdf2 :: "string \<Rightarrow> string \<Rightarrow> string"
  ce_seal :: "string \<Rightarrow> string \<Rightarrow> string \<Rightarrow> string \<times> string"
  ce_open :: "string \<Rightarrow> string \<Rightarrow> string \<Rightarrow> string \<Rightarrow> string option"

datatype auth_error =
    AlreadyClaimed
  | PasswordRequired
  | PasswordTooShort
  | PasswordTooLong
  | UsernameRequired
  | UsernameTooShort
  | UsernameTooLong
  | UsernameCharacters
  | UsernameReserved
  | UsernameTaken
  | CredentialsRequired
  | InvalidCredentials
  | HashingTimedOut
  | DecryptionFailed
  | LedgerFailed ledger_error
  | IdentityFailed

record AuthResult =
  ares_peerId :: peer_id
  ares_publicKey :: string
  ares_userName :: "string option"
  ares_isClaimed :: bool
  ares_isNewAccount :: bool

definition new_store :: "database \<Rightarrow> (peer_id, key_row) jsmap \<Rightarrow> string option \<Rightarrow> user_accounts" where
  "new_store d keys file = \<lparr>ua_ledger = d, ua_keys = keys, ua_nodeSecret = None, ua_secretFile = file, ua_jobs = []\<rparr>"

section \<open>Keys\<close>

definition encryptPrivateKey :: "crypto_env \<Rightarrow> string \<Rightarrow> string \<Rightarrow> string \<Rightarrow> string \<Rightarrow> EncryptedKey" where
  "encryptPrivateKey E salt iv key passphrase =
     (case ce_seal E (ce_pbkdf2 E passphrase salt) iv key of (ct, tag) \<Rightarrow> \<lparr>ek_salt = hex_of salt, ek_iv = hex_of iv, ek_data = hex_of (ct @ tag)\<rparr>)"

definition decryptPrivateKey :: "crypto_env \<Rightarrow> EncryptedKey \<Rightarrow> string \<Rightarrow> string option" where
  "decryptPrivateKey E enc passphrase =
     (let buf = unhex (ek_data enc); n = length buf - 16
      in ce_open E (ce_pbkdf2 E passphrase (unhex (ek_salt enc))) (unhex (ek_iv enc)) (take n buf) (drop n buf))"

definition storeEncryptedKey :: "peer_id \<Rightarrow> string \<Rightarrow> user_accounts \<Rightarrow> user_accounts" where
  "storeEncryptedKey p key s = s\<lparr>ua_keys := jupd p (\<lambda>r. r\<lparr>kr_encrypted_backup := Some key\<rparr>) (ua_keys s)\<rparr>"

definition getEncryptedKey :: "user_accounts \<Rightarrow> peer_id \<Rightarrow> string option" where
  "getEncryptedKey s p = (case jget (ua_keys s) p of None \<Rightarrow> None | Some r \<Rightarrow> or_null (kr_encrypted_backup r))"

definition getNodeSecret :: "string \<Rightarrow> user_accounts \<Rightarrow> user_accounts \<times> string" where
  "getNodeSecret fresh s =
     (if truthy (ua_nodeSecret s) then (s, the (ua_nodeSecret s))
      else case ua_secretFile s of
        Some t \<Rightarrow> (s\<lparr>ua_nodeSecret := Some (str_trim t)\<rparr>, str_trim t)
      | None \<Rightarrow> (s\<lparr>ua_nodeSecret := Some (hex_of fresh), ua_secretFile := Some (hex_of fresh)\<rparr>, hex_of fresh))"

section \<open>Guests\<close>

text \<open>The generated identity: peer id, public and private key; \<open>None\<close> when the generation fails.\<close>

definition createGuest ::
  "crypto_env \<Rightarrow> time \<Rightarrow> string \<Rightarrow> string \<Rightarrow> string \<Rightarrow> (peer_id \<times> string \<times> string) option \<Rightarrow> user_accounts \<Rightarrow> user_accounts \<times> (auth_error + AuthResult)" where
  "createGuest E now fresh salt iv identity s =
     (case identity of None \<Rightarrow> (s, Inl IdentityFailed)
      | Some (p, pub, priv) \<Rightarrow>
          (case getNodeSecret fresh s of (s1, secret) \<Rightarrow>
            (s1\<lparr>ua_ledger := fst (registerNode now p pub (ua_ledger s1)),
                ua_keys := jset p \<lparr>kr_private_key_enc = Some (encryptPrivateKey E salt iv priv secret), kr_enc_type = enc_node, kr_encrypted_backup = None,
                  kr_created_at = now\<rparr> (ua_keys s1)\<rparr>,
             Inr \<lparr>ares_peerId = p, ares_publicKey = pub, ares_userName = None, ares_isClaimed = False, ares_isNewAccount = True\<rparr>)))"

definition createGuestFromBrowserKey :: "time \<Rightarrow> peer_id \<Rightarrow> string \<Rightarrow> user_accounts \<Rightarrow> user_accounts \<times> AuthResult" where
  "createGuestFromBrowserKey now p pub s =
     (if accounts_exists (ua_ledger s) p
      then (s, \<lparr>ares_peerId = p, ares_publicKey = pub, ares_userName = None, ares_isClaimed = False, ares_isNewAccount = False\<rparr>)
      else (s\<lparr>ua_ledger := fst (registerNode now p pub (ua_ledger s)),
              ua_keys := jset p \<lparr>kr_private_key_enc = None, kr_enc_type = enc_browser, kr_encrypted_backup = None, kr_created_at = now\<rparr> (ua_keys s)\<rparr>,
            \<lparr>ares_peerId = p, ares_publicKey = pub, ares_userName = None, ares_isClaimed = False, ares_isNewAccount = True\<rparr>))"

section \<open>Claims\<close>

definition MIN_PASSWORD_LENGTH :: nat where "MIN_PASSWORD_LENGTH = 8"
definition MIN_USERNAME_LENGTH :: nat where "MIN_USERNAME_LENGTH = 3"
definition MAX_USERNAME_LENGTH :: nat where "MAX_USERNAME_LENGTH = 32"

definition reserved_names :: "string list" where
  "reserved_names = [''admin'', ''root'', ''system'', ''network'', ''node'', ''api'', ''auth'']"

definition validateUsername :: "string \<Rightarrow> auth_error option" where
  "validateUsername u =
     (if u = [] then Some UsernameRequired
      else if length u < MIN_USERNAME_LENGTH then Some UsernameTooShort
      else if MAX_USERNAME_LENGTH < length u then Some UsernameTooLong
      else if \<not> list_all (\<lambda>c. word_char c \<or> c = CHR ''-'') u then Some UsernameCharacters
      else if map js_lower u \<in> set reserved_names then Some UsernameReserved else None)"

definition validatePassword :: "string \<Rightarrow> auth_error option" where
  "validatePassword pw =
     (if pw = [] then Some PasswordRequired
      else if length pw < MIN_PASSWORD_LENGTH then Some PasswordTooShort
      else if 256 < length pw then Some PasswordTooLong else None)"

definition hashPassword :: "crypto_env \<Rightarrow> string \<Rightarrow> string \<Rightarrow> string" where
  "hashPassword E salt pw = hex_of salt @ CHR '':'' # hex_of (ce_scrypt E pw salt)"

definition verifyPassword :: "crypto_env \<Rightarrow> string \<Rightarrow> string \<Rightarrow> bool" where
  "verifyPassword E pw stored =
     (case split_at (\<lambda>c. c = CHR '':'') [] stored of
        saltHex # hashHex # _ \<Rightarrow> saltHex \<noteq> [] \<and> hashHex \<noteq> [] \<and> ce_scrypt E pw (unhex saltHex) = unhex hashHex
      | _ \<Rightarrow> False)"

text \<open>\<^verbatim>\<open>claimByPeerId\<close> up to the hashing of the password, and from there.\<close>

definition claim_begin :: "peer_id \<Rightarrow> string \<Rightarrow> string option \<Rightarrow> user_accounts \<Rightarrow> user_accounts \<times> auth_error option" where
  "claim_begin p pw username s =
     (let d = ua_ledger s; u = or_null username in
      if (case getAuthFields d p of None \<Rightarrow> False | Some a \<Rightarrow> au_isClaimed a) then (s, Some AlreadyClaimed)
      else case validatePassword pw of Some e \<Rightarrow> (s, Some e)
      | None \<Rightarrow>
          (case u of
             Some n \<Rightarrow> (case validateUsername n of Some e \<Rightarrow> (s, Some e)
               | None \<Rightarrow> if isUsernameAvailable d n then (s\<lparr>ua_jobs := ua_jobs s @ [\<lparr>cj_peerId = p, cj_password = pw, cj_username = u\<rparr>]\<rparr>, None)
                         else (s, Some UsernameTaken))
           | None \<Rightarrow> (s\<lparr>ua_jobs := ua_jobs s @ [\<lparr>cj_peerId = p, cj_password = pw, cj_username = None\<rparr>]\<rparr>, None)))"

definition reencrypt_key :: "crypto_env \<Rightarrow> string \<Rightarrow> string \<Rightarrow> string \<Rightarrow> claim_job \<Rightarrow> user_accounts \<Rightarrow> user_accounts \<times> auth_error option" where
  "reencrypt_key E fresh salt iv j s =
     (case jget (ua_keys s) (cj_peerId j) of None \<Rightarrow> (s, None)
      | Some r \<Rightarrow>
          (case kr_private_key_enc r of
             Some enc \<Rightarrow> if kr_enc_type r \<noteq> enc_node then (s, None)
               else (case getNodeSecret fresh s of (s1, secret) \<Rightarrow>
                 (case decryptPrivateKey E enc secret of None \<Rightarrow> (s1, Some DecryptionFailed)
                  | Some key \<Rightarrow> (s1\<lparr>ua_keys := jupd (cj_peerId j)
                      (\<lambda>r. r\<lparr>kr_private_key_enc := Some (encryptPrivateKey E salt iv key (cj_password j)), kr_enc_type := enc_user\<rparr>) (ua_keys s1)\<rparr>, None)))
           | None \<Rightarrow> (s, None)))"

text \<open>The two salts are those of the password hash and of the key. The column \<^verbatim>\<open>public_key\<close> that the code reads from the key table does not exist, so an
  account created here has the empty public key.\<close>

definition claim_finish ::
  "crypto_env \<Rightarrow> time \<Rightarrow> bool \<Rightarrow> string \<Rightarrow> string \<Rightarrow> string \<Rightarrow> string \<Rightarrow> claim_job \<Rightarrow> user_accounts \<Rightarrow> user_accounts \<times> (auth_error + AuthResult)" where
  "claim_finish E now timedOut hashSalt fresh salt iv j s0 =
     (let p = cj_peerId j; s = s0\<lparr>ua_jobs := remove1 j (ua_jobs s0)\<rparr> in
      if timedOut then (s, Inl HashingTimedOut)
      else case reencrypt_key E fresh salt iv j s of
        (s1, Some e) \<Rightarrow> (s1, Inl e)
      | (s1, None) \<Rightarrow>
          let d = (if accounts_exists (ua_ledger s1) p then ua_ledger s1 else fst (registerNode now p [] (ua_ledger s1)))
          in (case claimAccount now p (cj_username j) None (hashPassword E hashSalt (cj_password j)) d of
                (d1, Inl e) \<Rightarrow> (s1\<lparr>ua_ledger := d1\<rparr>, Inl (LedgerFailed e))
              | (d1, Inr _) \<Rightarrow>
                  (s1\<lparr>ua_ledger := d1\<rparr>,
                   Inr \<lparr>ares_peerId = p, ares_publicKey = (case accounts_get d1 p of None \<Rightarrow> [] | Some a \<Rightarrow> ac_publicKey a), ares_userName = cj_username j,
                        ares_isClaimed = True, ares_isNewAccount = False\<rparr>)))"

section \<open>Log-in and look-up\<close>

record login_row =
  lr_peerId :: peer_id
  lr_hash :: "string option"
  lr_username :: "string option"
  lr_publicKey :: string

definition login_row_of :: "database \<Rightarrow> string \<Rightarrow> login_row option" where
  "login_row_of d ident =
     (case getByUsername d ident of
        Some (a, f) \<Rightarrow> if au_isClaimed f then Some \<lparr>lr_peerId = ac_peerId a, lr_hash = au_passwordHash f, lr_username = au_username f, lr_publicKey = ac_publicKey a\<rparr>
          else None
      | None \<Rightarrow> None)"

definition login_row_by_id :: "database \<Rightarrow> string \<Rightarrow> login_row option" where
  "login_row_by_id d ident =
     (case getAuthFields d ident of
        Some f \<Rightarrow> if au_isClaimed f then Some \<lparr>lr_peerId = ident, lr_hash = au_passwordHash f, lr_username = au_username f,
            lr_publicKey = (case accounts_get d ident of None \<Rightarrow> [] | Some a \<Rightarrow> ac_publicKey a)\<rparr>
          else None
      | None \<Rightarrow> None)"

definition login :: "crypto_env \<Rightarrow> bool \<Rightarrow> string \<Rightarrow> string \<Rightarrow> database \<Rightarrow> auth_error + AuthResult" where
  "login E timedOut ident pw d =
     (if ident = [] \<or> pw = [] then Inl CredentialsRequired
      else case (case login_row_of d ident of Some r \<Rightarrow> Some r | None \<Rightarrow> login_row_by_id d ident) of
        None \<Rightarrow> Inl InvalidCredentials
      | Some r \<Rightarrow>
          if lr_peerId r = [] \<or> \<not> truthy (lr_hash r) then Inl InvalidCredentials
          else if timedOut then Inl HashingTimedOut
          else if \<not> verifyPassword E pw (the (lr_hash r)) then Inl InvalidCredentials
          else Inr \<lparr>ares_peerId = lr_peerId r, ares_publicKey = lr_publicKey r, ares_userName = or_null (lr_username r), ares_isClaimed = True, ares_isNewAccount = False\<rparr>)"

record UserAccountPublic =
  up_peerId :: peer_id
  up_publicKey :: string
  up_username :: "string option"
  up_displayName :: "string option"
  up_isClaimed :: bool
  up_createdAt :: time

definition getIdentityByPeerId :: "database \<Rightarrow> peer_id \<Rightarrow> UserAccountPublic option" where
  "getIdentityByPeerId d p =
     (case (accounts_get d p, getAuthFields d p) of
        (Some a, Some f) \<Rightarrow> Some \<lparr>up_peerId = ac_peerId a, up_publicKey = ac_publicKey a, up_username = au_username f, up_displayName = au_displayName f,
           up_isClaimed = au_isClaimed f, up_createdAt = ac_createdAt a\<rparr>
      | (Some a, None) \<Rightarrow> Some \<lparr>up_peerId = ac_peerId a, up_publicKey = ac_publicKey a, up_username = None, up_displayName = None,
           up_isClaimed = False, up_createdAt = ac_createdAt a\<rparr>
      | _ \<Rightarrow> None)"

section \<open>Reclamation and statistics\<close>

definition GUEST_EXPIRY_MS :: time where "GUEST_EXPIRY_MS = 30 * 24 * 60 * 60 * 1000"

record reclaim_state =
  rc_store :: user_accounts
  rc_reclaimed :: nat
  rc_luxRecovered :: number

definition reclaim_guest :: "time \<Rightarrow> (peer_id \<Rightarrow> string) \<Rightarrow> peer_id \<Rightarrow> reclaim_state \<Rightarrow> reclaim_state" where
  "reclaim_guest now hash p r =
     (let s = rc_store r; d = ua_ledger s; bal = getBalance d p;
          forget = (\<lambda>s. s\<lparr>ua_keys := jdel p (ua_keys s)\<rparr>)
      in if \<not> accounts_exists d p then r
         else if 0 < bal
         then (case transfer now (hash p) p NETWORK_ACCOUNT bal None d of
                 Inl e \<Rightarrow> r
               | Inr (d1, tx) \<Rightarrow> \<lparr>rc_store = forget (s\<lparr>ua_ledger := d1\<rparr>), rc_reclaimed = Suc (rc_reclaimed r), rc_luxRecovered = fadd (rc_luxRecovered r) bal\<rparr>)
         else r\<lparr>rc_store := forget s, rc_reclaimed := Suc (rc_reclaimed r)\<rparr>)"

definition expired_guests :: "time \<Rightarrow> database \<Rightarrow> peer_id list" where
  "expired_guests now d = map fst (filter (\<lambda>(p, r). \<not> ar_is_claimed r \<and> ar_created_at r < now - GUEST_EXPIRY_MS) (db_accounts d))"

definition reclaimExpiredGuests :: "time \<Rightarrow> (peer_id \<Rightarrow> string) \<Rightarrow> user_accounts \<Rightarrow> reclaim_state" where
  "reclaimExpiredGuests now hash s =
     fold (reclaim_guest now hash) (expired_guests now (ua_ledger s)) \<lparr>rc_store = s, rc_reclaimed = 0, rc_luxRecovered = 0\<rparr>"

definition ua_getStats :: "database \<Rightarrow> nat \<times> nat \<times> nat" where
  "ua_getStats d = (length (db_accounts d), length (filter (ar_is_claimed \<circ> snd) (db_accounts d)), length (filter (\<lambda>e. \<not> ar_is_claimed (snd e)) (db_accounts d)))"

section \<open>Passwords and keys\<close>

lemma hex_table:
  "list_all (\<lambda>n. hex_value (hex_digit n) = Some n \<and> hex_digit n \<noteq> CHR '':'') [0..<16]"
  by code_simp

lemma hex_digit_facts: "hex_value (hex_digit n) = Some (n mod 16)" "hex_digit n \<noteq> CHR '':''"
proof -
  have "hex_digit n = hex_digit (n mod 16)" by (simp add: hex_digit_def)
  moreover have "n mod 16 \<in> set [0..<16]" by simp
  ultimately show "hex_value (hex_digit n) = Some (n mod 16)" "hex_digit n \<noteq> CHR '':''"
    using hex_table unfolding list_all_iff by metis+
qed

lemma unhex_hex [simp]: "unhex (hex_of s) = s"
proof (induction s)
  case (Cons c s)
  have "of_char c div 16 mod 16 = (of_char c div 16 :: nat)" using less_mult_imp_div_less [of "of_char c" 16 16] nat_of_char_less_256 [of c] by simp
  then have "char_of (16 * (of_char c div 16 mod 16) + of_char c mod 16 :: nat) = c" by (simp only: mult_div_mod_eq char_of_char)
  then show ?case using Cons by (simp add: hex_digit_facts)
qed simp

lemma hex_colon: "CHR '':'' \<notin> set (hex_of s)"
  using hex_digit_facts(2) by (induction s) (auto simp: eq_commute [of "CHR '':''"])

lemma hex_empty [simp]: "hex_of s = [] \<longleftrightarrow> s = []"
  by (cases s) simp_all

lemma split_at_none: "CHR '':'' \<notin> set s \<Longrightarrow> split_at (\<lambda>c. c = CHR '':'') cur s = [rev cur @ s]"
  by (induction s arbitrary: cur) auto

lemma verify_hash:
  assumes "salt \<noteq> []" and "ce_scrypt E pw salt \<noteq> []"
  shows "verifyPassword E pw' (hashPassword E salt pw) \<longleftrightarrow> ce_scrypt E pw' salt = ce_scrypt E pw salt"
  using assms by (simp add: verifyPassword_def hashPassword_def split_at_append split_at_none hex_colon)

text \<open>What AES-256-GCM promises: a tag of 16 bytes, and opening what was sealed.\<close>

definition gcm_laws :: "crypto_env \<Rightarrow> bool" where
  "gcm_laws E = (\<forall>k iv m. length (snd (ce_seal E k iv m)) = 16 \<and> ce_open E k iv (fst (ce_seal E k iv m)) (snd (ce_seal E k iv m)) = Some m)"

lemma decrypt_encrypt: "gcm_laws E \<Longrightarrow> decryptPrivateKey E (encryptPrivateKey E salt iv key pw) pw = Some key"
proof -
  assume E: "gcm_laws E"
  obtain ct tag where ct: "ce_seal E (ce_pbkdf2 E pw salt) iv key = (ct, tag)" by fastforce
  then have "length tag = 16" "ce_open E (ce_pbkdf2 E pw salt) iv ct tag = Some key" using E unfolding gcm_laws_def by (metis fst_conv snd_conv)+
  then show ?thesis by (simp add: decryptPrivateKey_def encryptPrivateKey_def ct Let_def)
qed

section \<open>Claims and log-ins\<close>

lemma getNodeSecret_state [simp]:
  "ua_ledger (fst (getNodeSecret fresh s)) = ua_ledger s" "ua_keys (fst (getNodeSecret fresh s)) = ua_keys s"
  by (auto simp: getNodeSecret_def split: option.split)

lemma reencrypt_ledger: "reencrypt_key E fresh salt iv j s = (s1, e) \<Longrightarrow> ua_ledger s1 = ua_ledger s"
  by (auto simp: reencrypt_key_def dest: arg_cong [where f = "ua_ledger \<circ> fst"] split: option.splits if_splits prod.splits)

lemma claim_finish_success:
  assumes "claim_finish E now late hs fresh salt iv j s = (s', Inr r)"
  obtains d where "d = (if accounts_exists (ua_ledger s) (cj_peerId j) then ua_ledger s else fst (registerNode now (cj_peerId j) [] (ua_ledger s)))"
    "accounts_exists d (cj_peerId j)" "\<not> violates_username_index d (cj_peerId j) (cj_username j)"
    "ua_ledger s' = set_claim now (cj_peerId j) (cj_username j) None (hashPassword E hs (cj_password j)) d"
    "r = \<lparr>ares_peerId = cj_peerId j, ares_publicKey = (case accounts_get (ua_ledger s') (cj_peerId j) of None \<Rightarrow> [] | Some a \<Rightarrow> ac_publicKey a),
          ares_userName = cj_username j, ares_isClaimed = True, ares_isNewAccount = False\<rparr>"
proof -
  obtain s1 e where x: "reencrypt_key E fresh salt iv j (s\<lparr>ua_jobs := remove1 j (ua_jobs s)\<rparr>) = (s1, e)" by fastforce
  have "ua_ledger s1 = ua_ledger s" using reencrypt_ledger [OF x] by simp
  then show ?thesis using assms x
    by (auto simp: claim_finish_def Let_def claimAccount_def intro!: that split: option.splits sum.splits prod.splits if_splits)
qed

lemma getByUsername_owner:
  assumes "unique_usernames d" "(p, row) \<in> set (db_accounts d)" "ar_username row = Some u"
  shows "getByUsername d u = Some (row_to_account p row, \<lparr>au_username = Some u, au_displayName = or_null (ar_display_name row),
      au_passwordHash = or_null (ar_password_hash row), au_isClaimed = ar_is_claimed row\<rparr>)"
proof -
  have m: "name_matches u row" using assms(3) by (simp add: name_matches_def)
  have "\<exists>e. find (\<lambda>e. name_matches u (snd e)) (db_accounts d) = Some e"
    using assms(2) m by (metis (mono_tags, lifting) find_None_iff not_Some_eq snd_conv)
  then obtain q row' where e: "find (\<lambda>e. name_matches u (snd e)) (db_accounts d) = Some (q, row')" by auto
  then have "(q, row') \<in> set (db_accounts d)" "name_matches u row'" by (auto dest: find_SomeD)
  then have "q = p \<and> row' = row" using name_owner_unique [OF assms(1) _ assms(2)] m by blast
  then show ?thesis using e assms(3) by (simp add: getByUsername_def)
qed

text \<open>C24: Claim and log in: after an account is claimed with a user name, logging in with that name gives exactly the claimed account
  when the password hashes to the stored value, and invalid credentials with every other password.\<close>

theorem claim_then_login:
  assumes "unique_usernames (ua_ledger s)" and "claim_finish E now False hs fresh salt iv j s = (s', Inr r)" and "cj_username j = Some u" and "u \<noteq> []"
    and "cj_peerId j \<noteq> []" and "hs \<noteq> []" and "ce_scrypt E (cj_password j) hs \<noteq> []" and "pw \<noteq> []"
  shows "login E False u pw (ua_ledger s') = (if ce_scrypt E pw hs = ce_scrypt E (cj_password j) hs then Inr r else Inl InvalidCredentials)"
proof -
  let ?p = "cj_peerId j" and ?h = "hashPassword E hs (cj_password j)"
  obtain d where d: "d = (if accounts_exists (ua_ledger s) ?p then ua_ledger s else fst (registerNode now ?p [] (ua_ledger s)))"
    and ex: "accounts_exists d ?p" and idx: "\<not> violates_username_index d ?p (cj_username j)"
    and s': "ua_ledger s' = set_claim now ?p (Some u) None ?h d"
    and r: "r = \<lparr>ares_peerId = ?p, ares_publicKey = (case accounts_get (ua_ledger s') ?p of None \<Rightarrow> [] | Some a \<Rightarrow> ac_publicKey a),
          ares_userName = Some u, ares_isClaimed = True, ares_isNewAccount = False\<rparr>"
    using claim_finish_success [OF assms(2)] assms(3) by metis
  have uni: "unique_usernames d" unfolding d using assms(1) by (simp add: registerNode_def accounts_create_unique)
  then have uni': "unique_usernames (ua_ledger s')" unfolding s'
    using idx ex assms(3) by (intro set_claim_unique) (auto simp: violates_username_index_def)
  obtain row where row: "jget (db_accounts (ua_ledger s')) ?p = Some row" "ar_username row = Some u" "ar_password_hash row = Some ?h" "ar_is_claimed row"
    using ex unfolding s' by (auto simp: set_claim_def accounts_exists_def jhas_def)
  have by_name: "getByUsername (ua_ledger s') u = Some (row_to_account ?p row, \<lparr>au_username = Some u, au_displayName = or_null (ar_display_name row),
      au_passwordHash = or_null (Some ?h), au_isClaimed = True\<rparr>)"
    using getByUsername_owner [OF uni' jget_SomeD [OF row(1)] row(2)] row(3,4) by simp
  have "?h \<noteq> []" by (simp add: hashPassword_def)
  moreover have "accounts_get (ua_ledger s') ?p = Some (row_to_account ?p row)" using row(1) by (simp add: accounts_get_def)
  ultimately show ?thesis using by_name assms(4-8) r
    by (simp add: login_def login_row_of_def or_null_def truthy_def verify_hash row_to_account_def)
qed

section \<open>The private key\<close>

lemma node_secret_stable:
  assumes "getNodeSecret fresh s = (s1, secret)" and "ua_nodeSecret s2 = ua_nodeSecret s1" "ua_secretFile s2 = ua_secretFile s1"
  shows "snd (getNodeSecret fresh' s2) = secret"
  using assms by (auto simp: getNodeSecret_def truthy_def str_trim_def split: option.splits if_splits)

text \<open>The private key of a guest survives the claim and changes hands: after the claim the stored key opens with the user's
  password and is the key the guest was created with; it is no longer encrypted with the secret of the node.\<close>

lemma claimed_key_opens:
  assumes "gcm_laws E" and "createGuest E now fresh salt iv (Some (p, pub, priv)) s = (s1, Inr g)"
    and "jget (ua_keys s2) p = jget (ua_keys s1) p" and "ua_nodeSecret s2 = ua_nodeSecret s1" and "ua_secretFile s2 = ua_secretFile s1"
    and "cj_peerId j = p" and "claim_finish E now' False hs fresh' salt' iv' j s2 = (s3, Inr r)"
  shows "\<exists>row enc. jget (ua_keys s3) p = Some row \<and> kr_enc_type row = enc_user \<and> kr_private_key_enc row = Some enc \<and>
    decryptPrivateKey E enc (cj_password j) = Some priv"
proof -
  obtain s0 secret where sec: "getNodeSecret fresh s = (s0, secret)" by fastforce
  then have s1: "jget (ua_keys s1) p = Some \<lparr>kr_private_key_enc = Some (encryptPrivateKey E salt iv priv secret), kr_enc_type = enc_node,
      kr_encrypted_backup = None, kr_created_at = now\<rparr>" "ua_nodeSecret s1 = ua_nodeSecret s0" "ua_secretFile s1 = ua_secretFile s0"
    using assms(2) by (auto simp: createGuest_def)
  let ?s2 = "s2\<lparr>ua_jobs := remove1 j (ua_jobs s2)\<rparr>"
  obtain s4 x where s4: "getNodeSecret fresh' ?s2 = (s4, x)" by fastforce
  then have "x = secret" using node_secret_stable [OF sec, of ?s2 fresh'] s1 assms(4,5) by simp
  then have re: "reencrypt_key E fresh' salt' iv' j ?s2 = (s4\<lparr>ua_keys := jupd p (\<lambda>r. r\<lparr>kr_private_key_enc :=
      Some (encryptPrivateKey E salt' iv' priv (cj_password j)), kr_enc_type := enc_user\<rparr>) (ua_keys s4)\<rparr>, None)"
    using s1 assms(3,6) by (simp add: reencrypt_key_def s4 decrypt_encrypt [OF assms(1)])
  have "ua_keys s4 = ua_keys s2" using getNodeSecret_state(2) [of fresh' ?s2] by (simp add: s4)
  then show ?thesis using assms(7) s1(1) assms(3,6)
    by (auto simp: claim_finish_def Let_def re decrypt_encrypt [OF assms(1)] split: prod.splits sum.splits if_splits)
qed

section \<open>Reclaimed money\<close>

lemma transfer_all_succeeds:
  assumes "grid_accounts d" and "abs_units d p = Some u" and "0 < u" and "p \<noteq> q" and "accounts_exists d q" and "\<not> jhas (db_transactions d) h"
  shows "\<exists>d' tx. transfer now h p q (lux u) None d = Inr (d', tx)"
proof -
  have b: "getBalance d p = lux u" "0 \<le> u" "u \<le> UNIT_LIMIT" using grid_accountsD [OF assms(1)] assms(2) by (auto intro: order_trans)
  have "0 < lux u" using lux_strict_mono [of 0 u] assms(3) b(3) by simp
  moreover have "fadd (lux u) 0 = lux u" by (simp add: fadd_def lux_def fl_double is_double_fl)
  moreover have "accounts_exists d p" using assms(2) by (auto simp: accounts_exists_def jhas_def abs_units_def)
  ultimately show ?thesis using assms(4-6) by (auto simp: transfer_def Let_def relay_fee_def truthy_def recordTransaction_def b(1))
qed

lemma transfer_all:
  assumes g: "grid_accounts d" and t: "transfer now h p q (getBalance d p) None d = Inr (d', tx)"
  shows "grid_accounts d'" "total_units d' = total_units d" "abs_units d' p = Some 0" "r \<noteq> p \<Longrightarrow> r \<noteq> q \<Longrightarrow> abs_units d' r = abs_units d r"
    "accounts_exists d' r = accounts_exists d r" "jhas (db_transactions d') i \<longleftrightarrow> i = h \<or> jhas (db_transactions d) i"
proof -
  obtain u where u: "abs_units d p = Some u" using transfer_InrD(3) [OF t] by (auto simp: accounts_exists_def jhas_def abs_units_def)
  have b: "getBalance d p = lux u" "0 \<le> u" "u \<le> UNIT_LIMIT" using grid_accountsD [OF g] u by (auto intro: order_trans)
  note t' = t [unfolded b(1)]
  have lim: "u + fee_units u None \<le> UNIT_LIMIT" using b(3) by (simp add: fee_units_none truthy_def)
  have m: "abs_units d' = credit q u ((abs_units d)(p \<mapsto> 0))"
    using transfer_units(1) [OF g b(2) lim t'] u by (simp add: fee_units_none truthy_def)
  have pq: "p \<noteq> q" by (rule transfer_InrD(2) [OF t])
  show "grid_accounts d'" "total_units d' = total_units d" using transfer_units(2,3) [OF g b(2) lim t'] by (simp_all add: truthy_def)
  show "abs_units d' p = Some 0" "r \<noteq> p \<Longrightarrow> r \<noteq> q \<Longrightarrow> abs_units d' r = abs_units d r"
    using pq by (simp_all add: m credit_def split: option.split)
  have "accounts_exists d' r \<longleftrightarrow> abs_units d' r \<noteq> None" "accounts_exists d r \<longleftrightarrow> abs_units d r \<noteq> None" for r
    by (simp_all add: accounts_exists_def jhas_def abs_units_def)
  then show "accounts_exists d' r = accounts_exists d r" using u by (auto simp: m credit_def split: option.split)
  show "jhas (db_transactions d') i \<longleftrightarrow> i = h \<or> jhas (db_transactions d) i"
    using recordTransaction_frame(6) [OF transfer_InrD(7) [OF t]] transfer_InrD(6) [OF t]
    by (auto simp: jhas_iff relay_fee_def truthy_def)
qed

lemma reclaim_guest_money:
  assumes g: "grid_accounts d" and d: "ua_ledger (rc_store r) = d" and d': "ua_ledger (rc_store (reclaim_guest now hash p r)) = d'"
  shows "grid_accounts d'" "total_units d' = total_units d" "q \<noteq> p \<Longrightarrow> q \<noteq> NETWORK_ACCOUNT \<Longrightarrow> abs_units d' q = abs_units d q"
    "accounts_exists d' q = accounts_exists d q" "jhas (db_transactions d') i \<Longrightarrow> i = hash p \<or> jhas (db_transactions d) i"
    "accounts_exists d NETWORK_ACCOUNT \<Longrightarrow> p \<noteq> NETWORK_ACCOUNT \<Longrightarrow> \<not> jhas (db_transactions d) (hash p) \<Longrightarrow> accounts_exists d p \<Longrightarrow> abs_units d' p = Some 0"
proof -
  have cases: "d' = d \<or> (\<exists>tx. transfer now (hash p) p NETWORK_ACCOUNT (getBalance d p) None d = Inr (d', tx))"
    using d d' by (auto simp: reclaim_guest_def Let_def split: sum.splits prod.splits if_splits)
  then show "grid_accounts d'" "total_units d' = total_units d" "q \<noteq> p \<Longrightarrow> q \<noteq> NETWORK_ACCOUNT \<Longrightarrow> abs_units d' q = abs_units d q"
    "accounts_exists d' q = accounts_exists d q" "jhas (db_transactions d') i \<Longrightarrow> i = hash p \<or> jhas (db_transactions d) i"
    by (metis g transfer_all [OF g])+
  assume n: "accounts_exists d NETWORK_ACCOUNT" "p \<noteq> NETWORK_ACCOUNT" "\<not> jhas (db_transactions d) (hash p)" "accounts_exists d p"
  obtain u where u: "abs_units d p = Some u" using n(4) by (auto simp: accounts_exists_def jhas_def abs_units_def)
  have b: "getBalance d p = lux u" "0 \<le> u" "u \<le> UNIT_LIMIT" using grid_accountsD [OF g] u by (auto intro: order_trans)
  show "abs_units d' p = Some 0"
  proof (cases "u = 0")
    case True
    then have "\<not> 0 < getBalance d p" using b(1) by simp
    then have "d' = d" using n(4) d d' by (auto simp: reclaim_guest_def Let_def)
    then show ?thesis using u True by simp
  next
    case False
    then obtain d1 tx where t: "transfer now (hash p) p NETWORK_ACCOUNT (getBalance d p) None d = Inr (d1, tx)"
      using transfer_all_succeeds [OF g u _ n(2,1,3), of now] b by auto
    have "0 < getBalance d p" using lux_strict_mono [of 0 u] False b by simp
    then have "d' = d1" using t n(4) d d' by (auto simp: reclaim_guest_def Let_def)
    then show ?thesis using transfer_all(3) [OF g t] by simp
  qed
qed

lemma reclaim_fold_money:
  assumes "grid_accounts (ua_ledger (rc_store r))" and "d = ua_ledger (rc_store r)" and "d' = ua_ledger (rc_store (fold (reclaim_guest now hash) ps r))"
  shows "grid_accounts d' \<and> total_units d' = total_units d \<and> (\<forall>q. q \<notin> set ps \<longrightarrow> q \<noteq> NETWORK_ACCOUNT \<longrightarrow> abs_units d' q = abs_units d q) \<and>
    (\<forall>q. accounts_exists d' q = accounts_exists d q)"
  using assms
proof (induction ps arbitrary: r d)
  case (Cons p ps)
  let ?r = "reclaim_guest now hash p r"
  note step = reclaim_guest_money [OF Cons.prems(1) refl refl, where now = now and hash = hash and p = p]
  have d': "d' = ua_ledger (rc_store (fold (reclaim_guest now hash) ps ?r))" using Cons.prems(3) by simp
  show ?case using Cons.IH [OF step(1) refl d'] step(2,3,4) Cons.prems(2) by simp
qed simp

lemma reclaim_fold_empties:
  assumes "grid_accounts (ua_ledger (rc_store r))" and "accounts_exists (ua_ledger (rc_store r)) NETWORK_ACCOUNT"
    and "distinct ps" and "inj_on hash (set ps)" and "p \<in> set ps" and "p \<noteq> NETWORK_ACCOUNT" and "accounts_exists (ua_ledger (rc_store r)) p"
    and "\<forall>q \<in> set ps. \<not> jhas (db_transactions (ua_ledger (rc_store r))) (hash q)"
  shows "abs_units (ua_ledger (rc_store (fold (reclaim_guest now hash) ps r))) p = Some 0"
  using assms
proof (induction ps arbitrary: r)
  case (Cons x ps)
  let ?r = "reclaim_guest now hash x r"
  note step = reclaim_guest_money [OF Cons.prems(1) refl refl, where now = now and hash = hash and p = x]
  show ?case
  proof (cases "p = x")
    case True
    have "abs_units (ua_ledger (rc_store ?r)) p = Some 0" using step(6) Cons.prems(2,6,7,8) True by simp
    moreover have "p \<notin> set ps" using Cons.prems(3) True by simp
    ultimately show ?thesis using reclaim_fold_money [OF step(1) refl refl, of now hash ps] Cons.prems(6) by simp
  next
    case False
    have "\<not> jhas (db_transactions (ua_ledger (rc_store ?r))) (hash q)" if "q \<in> set ps" for q
    proof
      assume "jhas (db_transactions (ua_ledger (rc_store ?r))) (hash q)"
      then have "hash q = hash x" using step(5) Cons.prems(8) that by auto
      then have "q = x" using Cons.prems(4) that by (auto simp: inj_on_def)
      then show False using that Cons.prems(3) by simp
    qed
    then show ?thesis using Cons.IH [OF step(1)] step(4) Cons.prems False by simp
  qed
qed simp

text \<open>C25: The daily reclamation takes the whole balance of exactly the unclaimed accounts older than thirty days and credits the
  network account: no other balance changes, no Lux appears or is lost, and with fresh transaction ids every such account is emptied
  when the network account exists.\<close>

theorem reclaim_conserves_money:
  assumes "grid_accounts (ua_ledger s)" and "d' = ua_ledger (rc_store (reclaimExpiredGuests now hash s))"
  shows "total_units d' = total_units (ua_ledger s) \<and>
    (\<forall>p row. jget (db_accounts (ua_ledger s)) p = Some row \<and> p \<noteq> NETWORK_ACCOUNT \<and> (ar_is_claimed row \<or> now - GUEST_EXPIRY_MS \<le> ar_created_at row) \<longrightarrow>
      abs_units d' p = abs_units (ua_ledger s) p) \<and>
    (accounts_exists (ua_ledger s) NETWORK_ACCOUNT \<and> inj hash \<and> (\<forall>q. \<not> jhas (db_transactions (ua_ledger s)) (hash q)) \<longrightarrow>
      (\<forall>p row. jget (db_accounts (ua_ledger s)) p = Some row \<and> p \<noteq> NETWORK_ACCOUNT \<and> \<not> ar_is_claimed row \<and> ar_created_at row < now - GUEST_EXPIRY_MS \<longrightarrow>
        abs_units d' p = Some 0))"
proof -
  let ?d = "ua_ledger s" and ?r = "\<lparr>rc_store = s, rc_reclaimed = 0, rc_luxRecovered = 0\<rparr>"
  have r: "ua_ledger (rc_store ?r) = ?d" by simp
  have wf: "jwf (db_accounts ?d)" by (rule grid_accountsD(1) [OF assms(1)])
  then have expired: "p \<in> set (expired_guests now ?d) \<longleftrightarrow> (\<exists>row. jget (db_accounts ?d) p = Some row \<and> \<not> ar_is_claimed row \<and> ar_created_at row < now - GUEST_EXPIRY_MS)" for p
    by (force simp: expired_guests_def jget_mem dest: jget_SomeD)
  have dist: "distinct (expired_guests now ?d)" using wf unfolding expired_guests_def jwf_def by (rule distinct_map_filter)
  have empty: "abs_units d' p = Some 0" if "accounts_exists ?d NETWORK_ACCOUNT" "inj hash" "\<forall>q. \<not> jhas (db_transactions ?d) (hash q)"
      "p \<in> set (expired_guests now ?d)" "p \<noteq> NETWORK_ACCOUNT" for p
  proof -
    have "accounts_exists ?d p" using that(4) expired by (auto simp: accounts_exists_def jhas_def)
    then show ?thesis unfolding assms(2) reclaimExpiredGuests_def
      by (intro reclaim_fold_empties) (use that assms(1) dist inj_on_subset [OF that(2), of "set (expired_guests now ?d)"] in simp_all)
  qed
  have "d' = ua_ledger (rc_store (fold (reclaim_guest now hash) (expired_guests now ?d) ?r))"
    using assms(2) by (simp only: reclaimExpiredGuests_def)
  note money = reclaim_fold_money [OF assms(1) [folded r] r [symmetric] this]
  have same: "abs_units d' p = abs_units ?d p" if "jget (db_accounts ?d) p = Some row" "p \<noteq> NETWORK_ACCOUNT" "ar_is_claimed row \<or> now - GUEST_EXPIRY_MS \<le> ar_created_at row" for p row
  proof -
    have "p \<notin> set (expired_guests now ?d)" using that(1,3) unfolding expired by force
    then show ?thesis using money that(2) by blast
  qed
  show ?thesis by (intro conjI impI allI) (use money same empty expired in blast)+
qed

section \<open>Examples\<close>

text \<open>A cipher that keeps the text and marks it with the key satisfies the laws.\<close>

definition demo_crypto :: crypto_env where
  "demo_crypto = \<lparr>ce_scrypt = (\<lambda>pw salt. pw @ salt), ce_pbkdf2 = (\<lambda>pw salt. pw), ce_seal = (\<lambda>k iv m. (m, take 16 (k @ replicate 16 (CHR 0x00)))),
     ce_open = (\<lambda>k iv ct tag. if tag = take 16 (k @ replicate 16 (CHR 0x00)) then Some ct else None)\<rparr>"

lemma demo_gcm: "gcm_laws demo_crypto" by (auto simp: gcm_laws_def demo_crypto_def min_def)

definition demo_guest :: user_accounts where
  "demo_guest = fst (createGuest demo_crypto 1 ''r'' ''s'' ''i'' (Some (''p'', ''pub'', ''priv'')) (new_store empty_database [] None))"

definition demo_job :: "string \<Rightarrow> string \<Rightarrow> claim_job" where
  "demo_job pw u = \<lparr>cj_peerId = ''p'', cj_password = pw, cj_username = Some u\<rparr>"

definition demo_claim :: "user_accounts \<times> (auth_error + AuthResult)" where
  "demo_claim = claim_finish demo_crypto 2 False ''h'' ''r'' ''t'' ''j'' (demo_job ''password1'' ''bob'') demo_guest"

lemma demo_claim_facts:
  "demo_claim = (fst demo_claim, Inr \<lparr>ares_peerId = ''p'', ares_publicKey = ''pub'', ares_userName = Some ''bob'', ares_isClaimed = True, ares_isNewAccount = False\<rparr>)"
  by code_simp

lemma demo_guest_unique: "unique_usernames (ua_ledger demo_guest)"
  by (simp add: demo_guest_def createGuest_def new_store_def getNodeSecret_def truthy_def unique_usernames_def empty_database_def registerNode_def
      accounts_create_def insert_or_ignore_def jhas_def new_account_def jwf_def Let_def)

lemma demo_claim_eq:
  "claim_finish demo_crypto 2 False ''h'' ''r'' ''t'' ''j'' (demo_job ''password1'' ''bob'') demo_guest =
     (fst demo_claim, Inr \<lparr>ares_peerId = ''p'', ares_publicKey = ''pub'', ares_userName = Some ''bob'', ares_isClaimed = True, ares_isNewAccount = False\<rparr>)"
  by (rule trans [OF demo_claim_def [symmetric] demo_claim_facts])

theorem claim_then_login_witness:
  "login demo_crypto False ''bob'' ''password1'' (ua_ledger (fst demo_claim)) =
     Inr \<lparr>ares_peerId = ''p'', ares_publicKey = ''pub'', ares_userName = Some ''bob'', ares_isClaimed = True, ares_isNewAccount = False\<rparr> \<and>
   login demo_crypto False ''bob'' ''password2'' (ua_ledger (fst demo_claim)) = Inl InvalidCredentials"
  using claim_then_login [OF demo_guest_unique demo_claim_eq, of "''bob''" "''password1''"]
    claim_then_login [OF demo_guest_unique demo_claim_eq, of "''bob''" "''password2''"]
  by (simp add: demo_job_def demo_crypto_def)

lemma demo_guest_eq:
  "createGuest demo_crypto 1 ''r'' ''s'' ''i'' (Some (''p'', ''pub'', ''priv'')) (new_store empty_database [] None) =
     (demo_guest, Inr \<lparr>ares_peerId = ''p'', ares_publicKey = ''pub'', ares_userName = None, ares_isClaimed = False, ares_isNewAccount = True\<rparr>)"
  by (rule prod_eqI) (simp_all add: demo_guest_def createGuest_def split: prod.split)

lemma claimed_key_opens_witness:
  "\<exists>row enc. jget (ua_keys (fst demo_claim)) ''p'' = Some row \<and> kr_private_key_enc row = Some enc \<and> decryptPrivateKey demo_crypto enc ''password1'' = Some ''priv''"
  using claimed_key_opens [OF demo_gcm demo_guest_eq refl refl refl _ demo_claim_eq] by (auto simp: demo_job_def)

definition old_db :: database where
  "old_db = empty_database\<lparr>db_accounts := [(''NETWORK'', new_account ''n'' 0 0), (''g'', new_account ''k'' (lux 500) 0)]\<rparr>"

lemma old_db_grid: "grid_accounts old_db"
  unfolding grid_accounts_def by (intro conjI) code_simp+

lemma old_db_facts:
  "jget (db_accounts old_db) ''g'' = Some (new_account ''k'' (lux 500) 0)" "ua_ledger (new_store old_db [] None) = old_db"
  "accounts_exists old_db NETWORK_ACCOUNT" "db_transactions old_db = []" "total_units old_db = 500"
  by (simp add: old_db_def, simp add: new_store_def, code_simp, code_simp, code_simp)

theorem reclaim_conserves_money_witness:
  "abs_units (ua_ledger (rc_store (reclaimExpiredGuests (GUEST_EXPIRY_MS + 1) (\<lambda>p. p) (new_store old_db [] None)))) ''g'' = Some 0 \<and>
   total_units (ua_ledger (rc_store (reclaimExpiredGuests (GUEST_EXPIRY_MS + 1) (\<lambda>p. p) (new_store old_db [] None)))) = 500"
  using reclaim_conserves_money [of "new_store old_db [] None", OF _ refl, of "GUEST_EXPIRY_MS + 1" "\<lambda>p. p"] old_db_grid old_db_facts
  by (simp add: NETWORK_ACCOUNT_def jhas_def new_account_def)

text \<open>Without an account of the network, which nothing creates, the reclamation recovers nothing.\<close>

lemma no_network_no_reclamation: "\<not> accounts_exists (ua_ledger s) NETWORK_ACCOUNT \<Longrightarrow> ua_ledger (rc_store (reclaimExpiredGuests now hash s)) = ua_ledger s"
proof -
  have "\<not> accounts_exists (ua_ledger (rc_store r)) NETWORK_ACCOUNT \<Longrightarrow> ua_ledger (rc_store (fold (reclaim_guest now hash) ps r)) = ua_ledger (rc_store r)" for ps r
  proof (induction ps arbitrary: r)
    case (Cons p ps)
    have "ua_ledger (rc_store (reclaim_guest now hash p r)) = ua_ledger (rc_store r)"
      using Cons.prems by (auto simp: reclaim_guest_def Let_def transfer_def split: sum.splits prod.splits if_splits)
    then show ?case using Cons by simp
  qed simp
  then show "\<not> accounts_exists (ua_ledger s) NETWORK_ACCOUNT \<Longrightarrow> ?thesis" by (simp add: reclaimExpiredGuests_def)
qed

text \<open>Two guests ask for one name at the same time. The loser's claim fails at the unique index, after its key was encrypted with the password
  of the failed claim; a second claim with another password succeeds and leaves the key under the first.\<close>

definition racing_claims :: "(auth_error + AuthResult) \<times> (auth_error + AuthResult) \<times> user_accounts" where
  "racing_claims =
     (let s0 = fst (createGuest demo_crypto 1 ''r'' ''s'' ''i'' (Some (''q'', ''pub2'', ''priv2'')) demo_guest);
          s1 = fst (claim_finish demo_crypto 2 False ''h'' ''r'' ''t'' ''j'' (demo_job ''password1'' ''bob'') s0);
          (s2, lost) = claim_finish demo_crypto 3 False ''h'' ''r'' ''t'' ''j'' \<lparr>cj_peerId = ''q'', cj_password = ''firstpass'', cj_username = Some ''bob''\<rparr> s1;
          (s3, won) = claim_finish demo_crypto 4 False ''h'' ''r'' ''t'' ''j'' \<lparr>cj_peerId = ''q'', cj_password = ''secondpass'', cj_username = Some ''bobby''\<rparr> s2
      in (lost, won, s3))"

lemma failed_claim_locks_key:
  "case racing_claims of (lost, won, s) \<Rightarrow>
     lost = Inl (LedgerFailed (ConstraintViolation ''accounts.username'')) \<and>
     won = Inr \<lparr>ares_peerId = ''q'', ares_publicKey = ''pub2'', ares_userName = Some ''bobby'', ares_isClaimed = True, ares_isNewAccount = False\<rparr> \<and>
     decryptPrivateKey demo_crypto (the (kr_private_key_enc (the (jget (ua_keys s) ''q'')))) ''secondpass'' = None \<and>
     decryptPrivateKey demo_crypto (the (kr_private_key_enc (the (jget (ua_keys s) ''q'')))) ''firstpass'' = Some ''priv2''"
  by code_simp

end
