(* ===== verification/Capabilities.thy ===== *)
theory Capabilities
  imports Types JsText
begin

text \<open>
  What a node can do and what it tells its peers: the detector (\<^verbatim>\<open>packages/node/src/platform/capability-detector.ts\<close>), the private list
  with its sharing preferences (\<^verbatim>\<open>local-capability-store.ts\<close>), and the registry of the profiles of all known nodes
  (\<^verbatim>\<open>capability-registry.ts\<close>), with the handlers of \<^verbatim>\<open>index.ts\<close>, \<^verbatim>\<open>init-kernel.ts\<close> and \<^verbatim>\<open>init-platform.ts\<close> that feed them.

  The host (commands, files, environment variables) is a record of functions. Profiles are objects that the registry,
  its callers and the local profile share, so the registry keeps them in a list and names them by their position. A profile that
  arrives from the network is not validated: its capabilities may be missing.
\<close>

section \<open>Detection\<close>

datatype NodeCapability = CLAUDE_CODE | PANDO_TEAMS | DOCKER | PYTHON | NODE | GPU | PLAYWRIGHT

fun nc_value :: "NodeCapability \<Rightarrow> string" where
  "nc_value CLAUDE_CODE = ''claude-code''"
| "nc_value PANDO_TEAMS = ''pando-teams''"
| "nc_value DOCKER = ''docker''"
| "nc_value PYTHON = ''python''"
| "nc_value NODE = ''node''"
| "nc_value GPU = ''gpu''"
| "nc_value PLAYWRIGHT = ''playwright''"

definition nc_values :: "string list" where
  "nc_values = map nc_value [CLAUDE_CODE, PANDO_TEAMS, DOCKER, PYTHON, NODE, GPU, PLAYWRIGHT]"

text \<open>The host: \<open>h_runs\<close> says whether a shell command ends without an error, \<open>h_read\<close> is \<open>None\<close> where reading throws.\<close>

record host =
  h_platform :: string
  h_homedir :: string
  h_cwd :: string
  h_runs :: "string \<Rightarrow> bool"
  h_exists :: "string \<Rightarrow> bool"
  h_read :: "string \<Rightarrow> string option"
  h_env :: "string \<Rightarrow> string option"

definition on_windows :: "host \<Rightarrow> bool" where
  "on_windows h = (h_platform h = ''win32'')"

definition env_set :: "host \<Rightarrow> string \<Rightarrow> bool" where
  "env_set h v = truthy (h_env h v)"

definition hasClaudeCodeAuth :: "host \<Rightarrow> bool" where
  "hasClaudeCodeAuth h =
     (let claudeDir = path_join (h_homedir h) ''.claude''; credPath = path_join claudeDir ''.credentials.json'' in
      env_set h ''ANTHROPIC_API_KEY''
      \<or> h_exists h credPath \<and> (case h_read h credPath of None \<Rightarrow> False | Some content \<Rightarrow> 2 < length (str_trim content))
      \<or> h_exists h (path_join claudeDir ''history.jsonl'') \<and> h_exists h (path_join claudeDir ''settings.json''))"

definition detectClaudeCode :: "host \<Rightarrow> bool" where
  "detectClaudeCode h = (h_runs h (if on_windows h then ''where claude'' else ''which claude'') \<and> hasClaudeCodeAuth h)"

definition detectPandoTeams :: "host \<Rightarrow> bool" where
  "detectPandoTeams h = h_exists h (path_join (h_cwd h) ''node_modules/@pando-teams/core/package.json'')"

definition detectDocker :: "host \<Rightarrow> bool" where
  "detectDocker h = h_runs h (if on_windows h then ''where docker'' else ''which docker'')"

definition detectPython :: "host \<Rightarrow> bool" where
  "detectPython h = h_runs h (if on_windows h then ''where python'' else ''which python3'')"

definition detectGpu :: "host \<Rightarrow> bool" where
  "detectGpu h = (h_runs h (if on_windows h then ''where nvidia-smi'' else ''which nvidia-smi'')
     \<and> h_runs h ''nvidia-smi --query-gpu=name --format=csv,noheader'')"

definition detectPlaywright :: "host \<Rightarrow> bool" where
  "detectPlaywright h = h_exists h (path_join (h_cwd h) ''node_modules/@playwright/test/package.json'')"

definition add_override :: "string \<Rightarrow> string list \<Rightarrow> string list" where
  "add_override c caps = (if c \<in> set nc_values \<and> c \<notin> set caps then caps @ [c] else caps)"

text \<open>The capabilities as their values, as the callers use them.\<close>

definition detectCapabilities :: "host \<Rightarrow> string list \<Rightarrow> string list" where
  "detectCapabilities h manualOverrides =
     (let caps = [nc_value NODE] in
      if manualOverrides \<noteq> [] then fold add_override manualOverrides caps
      else caps @ (if detectClaudeCode h then [nc_value CLAUDE_CODE] else []) @ (if detectPandoTeams h then [nc_value PANDO_TEAMS] else [])
        @ (if detectDocker h then [nc_value DOCKER] else []) @ (if detectPython h then [nc_value PYTHON] else [])
        @ (if detectGpu h then [nc_value GPU] else []) @ (if detectPlaywright h then [nc_value PLAYWRIGHT] else []))"

section \<open>The local capability store\<close>

record LocalCapabilityData =
  lc_detectedAt :: time
  lc_capabilities :: "string list"
  lc_sharedCapabilities :: "string list"
  lc_shareCompute :: bool

text \<open>The data and the contents of the file, \<open>None\<close> while there is no file that can be parsed.\<close>

record local_cap_store =
  ls_data :: LocalCapabilityData
  ls_file :: "LocalCapabilityData option"

definition lcs_load :: "LocalCapabilityData option \<Rightarrow> LocalCapabilityData" where
  "lcs_load f = (case f of Some d \<Rightarrow> d
     | None \<Rightarrow> \<lparr>lc_detectedAt = 0, lc_capabilities = [], lc_sharedCapabilities = [], lc_shareCompute = False\<rparr>)"

definition LocalCapabilityStore_init :: "LocalCapabilityData option \<Rightarrow> local_cap_store" where
  "LocalCapabilityStore_init f = \<lparr>ls_data = lcs_load f, ls_file = f\<rparr>"

definition lcs_save :: "LocalCapabilityData \<Rightarrow> local_cap_store \<Rightarrow> local_cap_store" where
  "lcs_save d s = s\<lparr>ls_data := d, ls_file := Some d\<rparr>"

definition setDetected :: "time \<Rightarrow> string list \<Rightarrow> local_cap_store \<Rightarrow> local_cap_store" where
  "setDetected now caps s =
     (let shared = filter (\<lambda>c. c \<in> set caps) (lc_sharedCapabilities (ls_data s))
      in lcs_save ((ls_data s)\<lparr>lc_capabilities := caps, lc_detectedAt := now, lc_sharedCapabilities := shared, lc_shareCompute := shared \<noteq> []\<rparr>) s)"

definition getCapabilities :: "local_cap_store \<Rightarrow> string list" where
  "getCapabilities s = lc_capabilities (ls_data s)"

definition has_cap :: "local_cap_store \<Rightarrow> string \<Rightarrow> bool" where
  "has_cap s c = (c \<in> set (lc_capabilities (ls_data s)))"

definition getShared :: "local_cap_store \<Rightarrow> string list" where
  "getShared s = lc_sharedCapabilities (ls_data s)"

definition isSharing :: "local_cap_store \<Rightarrow> string \<Rightarrow> bool" where
  "isSharing s c = (c \<in> set (lc_sharedCapabilities (ls_data s)))"

definition isShareCompute :: "local_cap_store \<Rightarrow> bool" where
  "isShareCompute s = lc_shareCompute (ls_data s)"

definition setShareCompute :: "bool \<Rightarrow> local_cap_store \<Rightarrow> local_cap_store" where
  "setShareCompute v s = lcs_save ((ls_data s)\<lparr>lc_shareCompute := v\<rparr>) s"

definition setShared :: "string \<Rightarrow> local_cap_store \<Rightarrow> local_cap_store \<times> bool" where
  "setShared c s =
     (let d = ls_data s in
      if c \<notin> set (lc_capabilities d) then (s, False)
      else (lcs_save (d\<lparr>lc_sharedCapabilities := sadd c (lc_sharedCapabilities d), lc_shareCompute := True\<rparr>) s, True))"

definition unsetShared :: "string \<Rightarrow> local_cap_store \<Rightarrow> local_cap_store" where
  "unsetShared c s =
     (let shared = sdel c (lc_sharedCapabilities (ls_data s))
      in lcs_save ((ls_data s)\<lparr>lc_sharedCapabilities := shared, lc_shareCompute := shared \<noteq> []\<rparr>) s)"

section \<open>Profiles\<close>

record capability_details =
  cd_claudeCode :: bool
  cd_maxConcurrent :: int
  cd_os :: string
  cd_httpApi :: "(string \<times> int \<times> bool) option"

record CapabilityProfile =
  cp_peerId :: peer_id
  cp_schemaVersion :: int
  cp_updatedAt :: time
  cp_linkedUser :: "string option"
  cp_capabilities :: "(string, bool) jsmap option"
  cp_credentialAccess :: "bool option"
  cp_storageBackend :: "string option"
  cp_publicAddress :: "string option"
  cp_shareCompute :: "bool option"
  cp_verified :: "bool option"
  cp_verifiedAt :: "time option"
  cp_compromisedAt :: "time option"
  cp_details :: "capability_details option"

definition detectPublicAddress :: "host \<Rightarrow> string option" where
  "detectPublicAddress h =
     (case h_env h ''PUBLIC_IP'' of None \<Rightarrow> None | Some ip \<Rightarrow> if ip \<noteq> [] \<and> str_trim ip \<noteq> [] then Some (str_trim ip) else None)"

definition hasApiKeys :: bool where "hasApiKeys = False"

definition detectCapabilityProfile ::
  "time \<Rightarrow> host \<Rightarrow> peer_id \<Rightarrow> int option \<Rightarrow> string option \<Rightarrow> local_cap_store option \<Rightarrow> CapabilityProfile" where
  "detectCapabilityProfile now h peerId apiPort linkedUser store =
     (let sharingClaude = (case store of Some s \<Rightarrow> isSharing s ''claude-code'' | None \<Rightarrow> detectClaudeCode h);
          sharingGpu = (case store of Some s \<Rightarrow> isSharing s ''gpu'' | None \<Rightarrow> detectGpu h)
      in \<lparr>cp_peerId = peerId, cp_schemaVersion = 1, cp_updatedAt = now, cp_linkedUser = linkedUser,
          cp_capabilities = Some [(''relay'', True), (''api_keys'', hasApiKeys), (''compute_cpu'', sharingClaude), (''compute_gpu'', sharingGpu),
            (''storage'', True), (''gateway'', True), (''validator'', True), (''index'', True),
            (''agent_labor'', env_set h ''PANDO_API_KEY'' \<or> h_exists h (path_join (path_join (h_homedir h) ''.pando'') ''api-token''))],
          cp_credentialAccess = Some (env_set h ''CREDENTIAL_MASTER_KEY''),
          cp_storageBackend = Some (if env_set h ''PANDO_STORAGE_URL'' then ''mongodb'' else ''none''),
          cp_publicAddress = detectPublicAddress h,
          cp_shareCompute = Some (case store of Some s \<Rightarrow> isShareCompute s | None \<Rightarrow> False),
          cp_verified = None, cp_verifiedAt = None, cp_compromisedAt = None,
          cp_details = Some \<lparr>cd_claudeCode = sharingClaude, cd_maxConcurrent = 3,
            cd_os = (if on_windows h then ''windows'' else if h_platform h = ''darwin'' then ''mac'' else ''linux''),
            cd_httpApi = (case apiPort of None \<Rightarrow> None | Some p \<Rightarrow> if p = 0 then None else Some (''0.0.0.0'', p, False))\<rparr>\<rparr>)"

section \<open>The registry\<close>

record StoredProfile =
  sp_ref :: nat
  sp_receivedAt :: time

record capability_registry =
  cr_objects :: "CapabilityProfile list"
  cr_profiles :: "(peer_id, StoredProfile) jsmap"
  cr_localProfile :: "nat option"
  cr_localCapStore :: bool
  cr_verificationStatus :: "(peer_id, bool \<times> time) jsmap"

definition TTL_MS :: time where "TTL_MS = 5 * 60 * 1000"

definition CapabilityRegistry_init :: capability_registry where
  "CapabilityRegistry_init = \<lparr>cr_objects = [], cr_profiles = [], cr_localProfile = None, cr_localCapStore = False, cr_verificationStatus = []\<rparr>"

definition new_object :: "CapabilityProfile \<Rightarrow> capability_registry \<Rightarrow> capability_registry \<times> nat" where
  "new_object p r = (r\<lparr>cr_objects := cr_objects r @ [p]\<rparr>, length (cr_objects r))"

definition profile_at :: "capability_registry \<Rightarrow> nat \<Rightarrow> CapabilityProfile" where
  "profile_at r i = cr_objects r ! i"

definition upd_object :: "nat \<Rightarrow> (CapabilityProfile \<Rightarrow> CapabilityProfile) \<Rightarrow> capability_registry \<Rightarrow> capability_registry" where
  "upd_object i f r = r\<lparr>cr_objects := (cr_objects r)[i := f (cr_objects r ! i)]\<rparr>"

definition store_profile :: "time \<Rightarrow> nat \<Rightarrow> capability_registry \<Rightarrow> capability_registry" where
  "store_profile now i r = r\<lparr>cr_profiles := jset (cp_peerId (profile_at r i)) \<lparr>sp_ref = i, sp_receivedAt = now\<rparr> (cr_profiles r)\<rparr>"

definition setLocalProfile :: "time \<Rightarrow> nat \<Rightarrow> capability_registry \<Rightarrow> capability_registry" where
  "setLocalProfile now i r = store_profile now i (r\<lparr>cr_localProfile := Some i\<rparr>)"

definition getLocalProfile :: "capability_registry \<Rightarrow> CapabilityProfile option" where
  "getLocalProfile r = map_option (profile_at r) (cr_localProfile r)"

definition updatePeerProfile :: "time \<Rightarrow> nat \<Rightarrow> capability_registry \<Rightarrow> capability_registry" where
  "updatePeerProfile now i r =
     store_profile now i
       (case jget (cr_verificationStatus r) (cp_peerId (profile_at r i)) of None \<Rightarrow> r
        | Some (v, since) \<Rightarrow> upd_object i (\<lambda>p. p\<lparr>cp_verified := Some v, cp_verifiedAt := Some since\<rparr>) r)"

definition on_stored :: "peer_id \<Rightarrow> (CapabilityProfile \<Rightarrow> CapabilityProfile) \<Rightarrow> capability_registry \<Rightarrow> capability_registry" where
  "on_stored p f r = (case jget (cr_profiles r) p of None \<Rightarrow> r | Some st \<Rightarrow> upd_object (sp_ref st) f r)"

definition markVerified :: "time \<Rightarrow> peer_id \<Rightarrow> capability_registry \<Rightarrow> capability_registry" where
  "markVerified now p r =
     on_stored p (\<lambda>x. x\<lparr>cp_verified := Some True, cp_verifiedAt := Some now\<rparr>)
       (r\<lparr>cr_verificationStatus := jset p (True, now) (cr_verificationStatus r)\<rparr>)"

definition markUnverified :: "peer_id \<Rightarrow> capability_registry \<Rightarrow> capability_registry" where
  "markUnverified p r =
     on_stored p (\<lambda>x. x\<lparr>cp_verified := Some False, cp_verifiedAt := None\<rparr>)
       (r\<lparr>cr_verificationStatus := jdel p (cr_verificationStatus r)\<rparr>)"

definition isVerified :: "capability_registry \<Rightarrow> peer_id \<Rightarrow> bool" where
  "isVerified r p = (case jget (cr_verificationStatus r) p of None \<Rightarrow> False | Some (v, _) \<Rightarrow> v)"

definition drop_profile :: "peer_id \<Rightarrow> capability_registry \<Rightarrow> capability_registry" where
  "drop_profile p r = r\<lparr>cr_profiles := jdel p (cr_profiles r)\<rparr>"

definition getPeerProfile :: "time \<Rightarrow> peer_id \<Rightarrow> capability_registry \<Rightarrow> capability_registry \<times> nat option" where
  "getPeerProfile now p r =
     (case jget (cr_profiles r) p of None \<Rightarrow> (r, None)
      | Some st \<Rightarrow> if TTL_MS < now - sp_receivedAt st then (drop_profile p r, None) else (r, Some (sp_ref st)))"

definition local_id :: "capability_registry \<Rightarrow> peer_id option" where
  "local_id r = map_option cp_peerId (getLocalProfile r)"

definition is_expired :: "time \<Rightarrow> capability_registry \<Rightarrow> peer_id \<times> StoredProfile \<Rightarrow> bool" where
  "is_expired now r e = (Some (fst e) \<noteq> local_id r \<and> TTL_MS < now - sp_receivedAt (snd e))"

text \<open>Reading a capability of a profile whose \<^verbatim>\<open>capabilities\<close> are missing throws.\<close>

datatype registry_error = TypeError

fun has_all :: "string list \<Rightarrow> (string, bool) jsmap option \<Rightarrow> registry_error + bool" where
  "has_all [] caps = Inr True"
| "has_all (req # reqs) None = Inl TypeError"
| "has_all (req # reqs) (Some m) = (if jget m req = Some True then has_all reqs (Some m) else Inr False)"

fun find_loop ::
  "time \<Rightarrow> string list \<Rightarrow> (peer_id \<times> StoredProfile) list \<Rightarrow> CapabilityProfile list \<Rightarrow> capability_registry
   \<Rightarrow> capability_registry \<times> (registry_error + CapabilityProfile list)" where
  "find_loop now reqs [] results r = (r, Inr results)"
| "find_loop now reqs (e # es) results r =
     (if is_expired now r e then find_loop now reqs es results (drop_profile (fst e) r)
      else case has_all reqs (cp_capabilities (profile_at r (sp_ref (snd e)))) of
             Inl err \<Rightarrow> (r, Inl err)
           | Inr ok \<Rightarrow> find_loop now reqs es (if ok then results @ [profile_at r (sp_ref (snd e))] else results) r)"

definition findCapableNodes :: "time \<Rightarrow> string list \<Rightarrow> capability_registry \<Rightarrow> capability_registry \<times> (registry_error + CapabilityProfile list)" where
  "findCapableNodes now reqs r = find_loop now reqs (cr_profiles r) [] r"

text \<open>The registry refers to the store of the node, which later calls receive; the field says that it is attached.\<close>

definition setLocalCapabilityStore :: "capability_registry \<Rightarrow> capability_registry" where
  "setLocalCapabilityStore r = r\<lparr>cr_localCapStore := True\<rparr>"

definition localResourceTypeAvailable :: "host \<Rightarrow> local_cap_store \<Rightarrow> string \<Rightarrow> bool" where
  "localResourceTypeAvailable h s req =
     (if req = ''compute_cpu'' then has_cap s ''claude-code''
      else if req = ''compute_gpu'' then has_cap s ''gpu''
      else if req \<in> set [''storage'', ''relay'', ''gateway'', ''validator'', ''index''] then True
      else if req = ''agent_labor'' then env_set h ''PANDO_API_KEY''
      else False)"

definition canExecuteLocally :: "host \<Rightarrow> local_cap_store \<Rightarrow> string list \<Rightarrow> capability_registry \<Rightarrow> registry_error + bool" where
  "canExecuteLocally h store reqs r =
     (if reqs = [] then Inr True
      else if cr_localCapStore r then Inr (list_all (localResourceTypeAvailable h store) reqs)
      else (case getLocalProfile r of None \<Rightarrow> Inr False | Some p \<Rightarrow> has_all reqs (cp_capabilities p)))"

fun all_loop :: "time \<Rightarrow> (peer_id \<times> StoredProfile) list \<Rightarrow> CapabilityProfile list \<Rightarrow> capability_registry \<Rightarrow> capability_registry \<times> CapabilityProfile list" where
  "all_loop now [] results r = (r, results)"
| "all_loop now (e # es) results r =
     (if is_expired now r e then all_loop now es results (drop_profile (fst e) r)
      else all_loop now es (results @ [profile_at r (sp_ref (snd e))]) r)"

definition getAllProfiles :: "time \<Rightarrow> capability_registry \<Rightarrow> capability_registry \<times> CapabilityProfile list" where
  "getAllProfiles now r = all_loop now (cr_profiles r) [] r"

definition registry_cleanup :: "time \<Rightarrow> capability_registry \<Rightarrow> capability_registry" where
  "registry_cleanup now r = fold (\<lambda>e r. if is_expired now r e then drop_profile (fst e) r else r) (cr_profiles r) r"

section \<open>The node\<close>

text \<open>The parts of \<^verbatim>\<open>PandoNode\<close> that concern capabilities: the configuration, the linked user, the store and the registry, and
  the profiles published so far.\<close>

record cap_node =
  cn_peerId :: peer_id
  cn_overrides :: "string list"
  cn_contributor :: bool
  cn_apiPort :: "int option"
  cn_linkedUser :: "string option"
  cn_store :: local_cap_store
  cn_registry :: capability_registry
  cn_published :: "CapabilityProfile list"

definition with_new :: "(nat \<Rightarrow> capability_registry \<Rightarrow> capability_registry) \<Rightarrow> CapabilityProfile \<Rightarrow> cap_node \<Rightarrow> cap_node" where
  "with_new f p n = (case new_object p (cn_registry n) of (r, i) \<Rightarrow> n\<lparr>cn_registry := f i r\<rparr>)"

definition on_registry :: "(capability_registry \<Rightarrow> capability_registry) \<Rightarrow> cap_node \<Rightarrow> cap_node" where
  "on_registry f n = n\<lparr>cn_registry := f (cn_registry n)\<rparr>"

definition own_profile :: "time \<Rightarrow> host \<Rightarrow> cap_node \<Rightarrow> CapabilityProfile" where
  "own_profile now h n = detectCapabilityProfile now h (cn_peerId n) (cn_apiPort n)
     (if truthy (cn_linkedUser n) then cn_linkedUser n else None) (Some (cn_store n))"

text \<open>The start of a node: the store is read from its file, and the registry is new.\<close>

definition init_capabilities :: "time \<Rightarrow> host \<Rightarrow> cap_node \<Rightarrow> cap_node" where
  "init_capabilities now h n =
     (let s0 = LocalCapabilityStore_init (ls_file (cn_store n));
          s1 = (if cn_contributor n then setShareCompute True s0 else s0);
          n1 = n\<lparr>cn_store := setDetected now (detectCapabilities h (cn_overrides n)) s1, cn_registry := CapabilityRegistry_init\<rparr>
      in on_registry setLocalCapabilityStore (with_new (setLocalProfile now) (own_profile now h n1) n1))"

definition upd_local :: "(CapabilityProfile \<Rightarrow> CapabilityProfile) \<Rightarrow> cap_node \<Rightarrow> cap_node" where
  "upd_local f n = (case cr_localProfile (cn_registry n) of None \<Rightarrow> n | Some i \<Rightarrow> on_registry (upd_object i f) n)"

definition broadcastCapabilityProfile :: "time \<Rightarrow> cap_node \<Rightarrow> cap_node" where
  "broadcastCapabilityProfile now n =
     (let n1 = upd_local (\<lambda>p. p\<lparr>cp_updatedAt := now\<rparr>) n in
      case getLocalProfile (cn_registry n1) of None \<Rightarrow> n | Some p \<Rightarrow> n1\<lparr>cn_published := cn_published n1 @ [p]\<rparr>)"

definition updateCapabilityLinkedUser :: "time \<Rightarrow> cap_node \<Rightarrow> cap_node" where
  "updateCapabilityLinkedUser now n =
     (case cr_localProfile (cn_registry n) of None \<Rightarrow> n
      | Some i \<Rightarrow> broadcastCapabilityProfile now (on_registry (setLocalProfile now i)
          (upd_local (\<lambda>p. p\<lparr>cp_linkedUser := (if truthy (cn_linkedUser n) then cn_linkedUser n else None), cp_updatedAt := now\<rparr>) n)))"

definition rebuildCapabilityProfile :: "time \<Rightarrow> host \<Rightarrow> cap_node \<Rightarrow> cap_node" where
  "rebuildCapabilityProfile now h n = broadcastCapabilityProfile now (with_new (setLocalProfile now) (own_profile now h n) n)"

text \<open>A profile from a peer, by gossip or directly: the sender is not compared with the profile.\<close>

definition receive_profile :: "time \<Rightarrow> peer_id \<Rightarrow> CapabilityProfile \<Rightarrow> cap_node \<Rightarrow> cap_node" where
  "receive_profile now from p n = with_new (updatePeerProfile now) p n"

definition handle_compromised :: "time \<Rightarrow> peer_id \<Rightarrow> time \<Rightarrow> cap_node \<Rightarrow> cap_node" where
  "handle_compromised now p ts n =
     (case getPeerProfile now p (cn_registry n) of
        (r, None) \<Rightarrow> n\<lparr>cn_registry := r\<rparr>
      | (r, Some i) \<Rightarrow> n\<lparr>cn_registry :=
          updatePeerProfile now i (upd_object i (\<lambda>x. x\<lparr>cp_credentialAccess := Some False, cp_compromisedAt := Some ts\<rparr>) r)\<rparr>)"

text \<open>The commands \<^verbatim>\<open>/contribute claude-code\<close> and \<^verbatim>\<open>/revoke claude-code\<close> of the terminal.\<close>

definition contribute_claude :: "time \<Rightarrow> host \<Rightarrow> cap_node \<Rightarrow> cap_node" where
  "contribute_claude now h n =
     (if \<not> has_cap (cn_store n) ''claude-code'' then n
      else if isSharing (cn_store n) ''claude-code'' then n
      else rebuildCapabilityProfile now h (n\<lparr>cn_store := fst (setShared ''claude-code'' (cn_store n))\<rparr>))"

definition revoke_claude :: "time \<Rightarrow> host \<Rightarrow> cap_node \<Rightarrow> cap_node" where
  "revoke_claude now h n =
     (if \<not> isSharing (cn_store n) ''claude-code'' then n
      else rebuildCapabilityProfile now h (n\<lparr>cn_store := unsetShared ''claude-code'' (cn_store n)\<rparr>))"

datatype cap_op =
    co_restart time host
  | co_contribute time host
  | co_revoke time host
  | co_link time "string option"
  | co_broadcast time
  | co_profile time peer_id CapabilityProfile
  | co_compromised time peer_id time
  | co_verified time peer_id
  | co_unverified peer_id
  | co_find time "string list"
  | co_all time
  | co_get time peer_id
  | co_cleanup time

fun cap_step :: "cap_op \<Rightarrow> cap_node \<Rightarrow> cap_node" where
  "cap_step (co_restart now h) n = init_capabilities now h n"
| "cap_step (co_contribute now h) n = contribute_claude now h n"
| "cap_step (co_revoke now h) n = revoke_claude now h n"
| "cap_step (co_link now u) n = updateCapabilityLinkedUser now (n\<lparr>cn_linkedUser := u\<rparr>)"
| "cap_step (co_broadcast now) n = broadcastCapabilityProfile now n"
| "cap_step (co_profile now from p) n = receive_profile now from p n"
| "cap_step (co_compromised now p ts) n = handle_compromised now p ts n"
| "cap_step (co_verified now p) n = on_registry (markVerified now p) n"
| "cap_step (co_unverified p) n = on_registry (markUnverified p) n"
| "cap_step (co_find now reqs) n = on_registry (\<lambda>r. fst (findCapableNodes now reqs r)) n"
| "cap_step (co_all now) n = on_registry (\<lambda>r. fst (getAllProfiles now r)) n"
| "cap_step (co_get now p) n = on_registry (\<lambda>r. fst (getPeerProfile now p r)) n"
| "cap_step (co_cleanup now) n = on_registry (registry_cleanup now) n"

section \<open>The registry as a map\<close>

definition reg_ok :: "capability_registry \<Rightarrow> bool" where
  "reg_ok r = (jwf (cr_profiles r) \<and> jall (\<lambda>k st. sp_ref st < length (cr_objects r) \<and> cp_peerId (profile_at r (sp_ref st)) = k) (cr_profiles r)
     \<and> (case cr_localProfile r of None \<Rightarrow> True | Some i \<Rightarrow> i < length (cr_objects r)))"

definition keeps_id :: "(CapabilityProfile \<Rightarrow> CapabilityProfile) \<Rightarrow> bool" where
  "keeps_id f = (\<forall>p. cp_peerId (f p) = cp_peerId p \<and> cp_capabilities (f p) = cp_capabilities p)"

lemma upd_object_sels [simp]:
  "cr_profiles (upd_object i f r) = cr_profiles r" "cr_localProfile (upd_object i f r) = cr_localProfile r"
  "cr_localCapStore (upd_object i f r) = cr_localCapStore r" "cr_verificationStatus (upd_object i f r) = cr_verificationStatus r"
  "length (cr_objects (upd_object i f r)) = length (cr_objects r)"
  by (simp_all add: upd_object_def)

lemma profile_at_upd: "keeps_id f \<Longrightarrow> cp_peerId (profile_at (upd_object i f r) j) = cp_peerId (profile_at r j) \<and> cp_capabilities (profile_at (upd_object i f r) j) = cp_capabilities (profile_at r j)"
  by (cases "i < length (cr_objects r)"; cases "i = j") (auto simp: profile_at_def upd_object_def keeps_id_def list_update_beyond)

lemma upd_object_ok: "keeps_id f \<Longrightarrow> reg_ok r \<Longrightarrow> reg_ok (upd_object i f r)"
  by (simp add: reg_ok_def profile_at_upd cong: option.case_cong)

lemma store_profile_ok: "reg_ok r \<Longrightarrow> i < length (cr_objects r) \<Longrightarrow> reg_ok (store_profile now i r)"
  by (auto simp: reg_ok_def store_profile_def profile_at_def intro!: jall_jset split: option.splits)

lemma new_object_ok: "reg_ok r \<Longrightarrow> reg_ok (fst (new_object p r))"
  by (auto simp: reg_ok_def new_object_def profile_at_def nth_append jall_iff less_SucI split: option.splits)

lemma drop_profile_ok: "reg_ok r \<Longrightarrow> reg_ok (drop_profile p r)"
  by (auto simp: reg_ok_def drop_profile_def profile_at_def intro!: jall_jdel split: option.splits)

text \<open>The four loops over the profiles keep what is not expired.\<close>

definition live :: "time \<Rightarrow> capability_registry \<Rightarrow> (peer_id \<times> StoredProfile) list" where
  "live now r = filter (\<lambda>e. \<not> is_expired now r e) (cr_profiles r)"

lemma drop_profile_sels [simp]:
  "cr_objects (drop_profile p r) = cr_objects r" "cr_localProfile (drop_profile p r) = cr_localProfile r"
  "cr_profiles (drop_profile p r) = jdel p (cr_profiles r)" "profile_at (drop_profile p r) = profile_at r"
  "local_id (drop_profile p r) = local_id r" "is_expired now (drop_profile p r) = is_expired now r" "getLocalProfile (drop_profile p r) = getLocalProfile r"
  by (auto simp: drop_profile_def profile_at_def [abs_def] local_id_def getLocalProfile_def is_expired_def fun_eq_iff)

definition pruned :: "capability_registry \<Rightarrow> capability_registry \<Rightarrow> bool" where
  "pruned r r' = (\<exists>ks. r' = fold drop_profile ks r)"

lemma pruned_refl [simp]: "pruned r r"
  unfolding pruned_def by (rule exI [of _ "[]"]) simp

lemma pruned_step: "pruned (drop_profile k r) r' \<Longrightarrow> pruned r r'"
  unfolding pruned_def by (metis fold_simps(2))

lemma find_loop_reg: "pruned r (fst (find_loop now reqs es acc r))"
  by (induction es arbitrary: acc r) (auto intro: pruned_step split: sum.splits)

lemma all_loop_reg: "pruned r (fst (all_loop now es acc r))"
  by (induction es arbitrary: acc r) (auto intro: pruned_step)

lemma cleanup_reg: "pruned r (registry_cleanup now r)"
proof -
  have "pruned r (fold (\<lambda>e r. if is_expired now r e then drop_profile (fst e) r else r) es r)" for es
    by (induction es arbitrary: r) (auto intro: pruned_step)
  then show ?thesis by (simp add: registry_cleanup_def)
qed

lemma drops_keep:
  "reg_ok r \<Longrightarrow> reg_ok (fold drop_profile ks r)" "cr_objects (fold drop_profile ks r) = cr_objects r"
  "cr_localProfile (fold drop_profile ks r) = cr_localProfile r" "profile_at (fold drop_profile ks r) = profile_at r"
  "cr_profiles (fold drop_profile ks r) = fold jdel ks (cr_profiles r)"
  by (induction ks arbitrary: r) (simp_all add: drop_profile_ok)

text \<open>The loops of \<^verbatim>\<open>findCapableNodes\<close> and \<^verbatim>\<open>getAllProfiles\<close> in one line each.\<close>

definition supports :: "string list \<Rightarrow> CapabilityProfile \<Rightarrow> bool" where
  "supports reqs p = (case cp_capabilities p of None \<Rightarrow> reqs = [] | Some m \<Rightarrow> list_all (\<lambda>q. jget m q = Some True) reqs)"

definition readable :: "string list \<Rightarrow> CapabilityProfile \<Rightarrow> bool" where
  "readable reqs p = (reqs = [] \<or> cp_capabilities p \<noteq> None)"

lemma has_all_readable: "readable reqs p \<Longrightarrow> has_all reqs (cp_capabilities p) = Inr (supports reqs p)"
proof -
  have "has_all reqs (Some m) = Inr (list_all (\<lambda>q. jget m q = Some True) reqs)" for m by (induction reqs) auto
  then show "readable reqs p \<Longrightarrow> ?thesis" by (cases "cp_capabilities p") (auto simp: readable_def supports_def)
qed

lemma has_all_unreadable: "\<not> readable reqs p \<Longrightarrow> has_all reqs (cp_capabilities p) = Inl TypeError"
  by (cases reqs) (auto simp: readable_def)

definition profiles_of :: "capability_registry \<Rightarrow> (peer_id \<times> StoredProfile) list \<Rightarrow> CapabilityProfile list" where
  "profiles_of r es = map (\<lambda>e. profile_at r (sp_ref (snd e))) es"

lemma find_loop_result:
  "snd (find_loop now reqs es acc r) =
     (let ps = profiles_of r (filter (\<lambda>e. \<not> is_expired now r e) es)
      in if list_all (readable reqs) ps then Inr (acc @ filter (supports reqs) ps) else Inl TypeError)"
proof (induction es arbitrary: acc r)
  case (Cons e es)
  let ?p = "profile_at r (sp_ref (snd e))"
  show ?case
  proof (cases "is_expired now r e \<or> readable reqs ?p")
    case True
    then show ?thesis using Cons.IH by (auto simp: has_all_readable profiles_of_def Let_def)
  next
    case False
    then show ?thesis by (simp add: has_all_unreadable profiles_of_def)
  qed
qed (simp add: profiles_of_def)

lemma findCapableNodes_result:
  "snd (findCapableNodes now reqs r) =
     (let ps = profiles_of r (live now r)
      in if list_all (readable reqs) ps then Inr (filter (supports reqs) ps) else Inl TypeError)"
  by (simp add: findCapableNodes_def find_loop_result live_def Let_def)

lemma getAllProfiles_result: "snd (getAllProfiles now r) = profiles_of r (live now r)"
proof -
  have "snd (all_loop now es acc r) = acc @ profiles_of r (filter (\<lambda>e. \<not> is_expired now r e) es)" for es acc r
    by (induction es arbitrary: acc r) (auto simp: profiles_of_def)
  then show ?thesis by (simp add: getAllProfiles_def live_def)
qed

section \<open>What a node tells about itself\<close>

definition local_caps :: "capability_registry \<Rightarrow> (peer_id \<times> (string, bool) jsmap option) option" where
  "local_caps r = map_option (\<lambda>p. (cp_peerId p, cp_capabilities p)) (getLocalProfile r)"

definition same_local :: "capability_registry \<Rightarrow> capability_registry \<Rightarrow> bool" where
  "same_local r r' = (reg_ok r' \<and> local_caps r' = local_caps r \<and> cr_localCapStore r' = cr_localCapStore r)"

lemma attached_sels [simp]:
  "cr_localCapStore (store_profile now i r) = cr_localCapStore r" "cr_localCapStore (fst (new_object p r)) = cr_localCapStore r"
  "cr_localCapStore (drop_profile k r) = cr_localCapStore r" "cr_localCapStore (fold drop_profile ks r) = cr_localCapStore r"
  "cr_localCapStore (updatePeerProfile now i r) = cr_localCapStore r" "cr_localCapStore (on_stored k f r) = cr_localCapStore r"
proof -
  show a: "cr_localCapStore (drop_profile k r) = cr_localCapStore r" for k r by (simp add: drop_profile_def)
  show "cr_localCapStore (fold drop_profile ks r) = cr_localCapStore r" by (induction ks arbitrary: r) (simp_all add: a)
qed (auto simp: store_profile_def new_object_def updatePeerProfile_def on_stored_def split: option.splits)

lemma local_caps_upd: "keeps_id f \<Longrightarrow> local_caps (upd_object i f r) = local_caps r"
  by (cases "cr_localProfile r") (simp_all add: local_caps_def getLocalProfile_def profile_at_upd)

lemma local_caps_store: "local_caps (store_profile now i r) = local_caps r"
  by (simp add: local_caps_def getLocalProfile_def store_profile_def profile_at_def [abs_def])

lemma local_caps_new: "reg_ok r \<Longrightarrow> local_caps (fst (new_object p r)) = local_caps r"
  by (auto simp: local_caps_def getLocalProfile_def new_object_def profile_at_def nth_append reg_ok_def split: option.splits)

lemma pruned_local: "reg_ok r \<Longrightarrow> pruned r r' \<Longrightarrow> same_local r r'"
  by (auto simp: pruned_def same_local_def local_caps_def getLocalProfile_def drops_keep)

lemma upd_local_same: "reg_ok r \<Longrightarrow> keeps_id f \<Longrightarrow> same_local r (upd_object i f r)"
  by (simp add: same_local_def upd_object_ok local_caps_upd)

lemma same_local_trans: "same_local r r1 \<Longrightarrow> same_local r1 r2 \<Longrightarrow> same_local r r2"
  by (simp add: same_local_def)

lemma updatePeerProfile_same: "reg_ok r \<Longrightarrow> i < length (cr_objects r) \<Longrightarrow> same_local r (updatePeerProfile now i r)"
  by (auto simp: same_local_def updatePeerProfile_def local_caps_store local_caps_upd keeps_id_def intro!: store_profile_ok upd_object_ok split: option.splits)

lemma on_stored_same:
  assumes "reg_ok r" "keeps_id f" "reg_ok r1" "local_caps r1 = local_caps r" "cr_localCapStore r1 = cr_localCapStore r"
  shows "same_local r (on_stored p f r1)"
  using assms by (auto simp: same_local_def on_stored_def local_caps_upd intro: upd_object_ok split: option.splits)

lemma verification_same: "reg_ok (r\<lparr>cr_verificationStatus := v\<rparr>) = reg_ok r" "local_caps (r\<lparr>cr_verificationStatus := v\<rparr>) = local_caps r"
  by (simp_all add: reg_ok_def local_caps_def getLocalProfile_def profile_at_def [abs_def] cong: option.case_cong)

lemma mark_same: "reg_ok r \<Longrightarrow> same_local r (markVerified now p r)" "reg_ok r \<Longrightarrow> same_local r (markUnverified p r)"
  unfolding markVerified_def markUnverified_def by (rule on_stored_same; simp add: verification_same keeps_id_def)+

lemma getPeerProfile_same: "reg_ok r \<Longrightarrow> same_local r (fst (getPeerProfile now p r))"
proof -
  assume "reg_ok r"
  moreover have "pruned r (fst (getPeerProfile now p r))" by (auto simp: getPeerProfile_def intro: pruned_step [OF pruned_refl] split: option.splits)
  ultimately show ?thesis by (rule pruned_local)
qed

lemma getPeerProfile_ref: "reg_ok r \<Longrightarrow> getPeerProfile now p r = (r', Some i) \<Longrightarrow> i < length (cr_objects r) \<and> r' = r \<and> cp_peerId (profile_at r i) = p"
  by (auto simp: getPeerProfile_def reg_ok_def dest: jall_jget split: option.splits if_splits)

lemma receive_same: "reg_ok (cn_registry n) \<Longrightarrow> same_local (cn_registry n) (cn_registry (receive_profile now from p n))"
proof -
  assume ok: "reg_ok (cn_registry n)"
  then have "same_local (fst (new_object p (cn_registry n))) (updatePeerProfile now (length (cr_objects (cn_registry n))) (fst (new_object p (cn_registry n))))"
    by (intro updatePeerProfile_same new_object_ok) (simp_all add: new_object_def)
  then show ?thesis using local_caps_new [OF ok, of p] by (simp add: receive_profile_def with_new_def new_object_def same_local_def)
qed

lemma compromised_same: "reg_ok (cn_registry n) \<Longrightarrow> same_local (cn_registry n) (cn_registry (handle_compromised now p ts n))"
proof -
  assume ok: "reg_ok (cn_registry n)"
  obtain r o' where g: "getPeerProfile now p (cn_registry n) = (r, o')" by (cases "getPeerProfile now p (cn_registry n)")
  show ?thesis
  proof (cases o')
    case None
    then show ?thesis using g getPeerProfile_same [OF ok, of now p] by (simp add: handle_compromised_def)
  next
    case (Some i)
    let ?f = "\<lambda>x. x\<lparr>cp_credentialAccess := Some False, cp_compromisedAt := Some ts\<rparr>"
    have r: "i < length (cr_objects (cn_registry n))" "r = cn_registry n" using getPeerProfile_ref [OF ok] g Some by auto
    have u: "same_local (cn_registry n) (upd_object i ?f (cn_registry n))" using ok by (rule upd_local_same) (simp add: keeps_id_def)
    then have "same_local (upd_object i ?f (cn_registry n)) (updatePeerProfile now i (upd_object i ?f (cn_registry n)))"
      using r by (intro updatePeerProfile_same) (simp_all add: same_local_def)
    with u show ?thesis using g Some r by (auto simp: handle_compromised_def intro: same_local_trans)
  qed
qed

definition advertises :: "CapabilityProfile \<Rightarrow> string \<Rightarrow> bool" where
  "advertises p res = supports [res] p"

definition cap_store_ok :: "local_cap_store \<Rightarrow> bool" where
  "cap_store_ok s = (set (getShared s) \<subseteq> set (getCapabilities s) \<and> \<not> isSharing s ''gpu'' \<and> ls_file s = Some (ls_data s))"

definition told :: "cap_node \<Rightarrow> bool" where
  "told n = (\<exists>m. local_caps (cn_registry n) = Some (cn_peerId n, Some m)
     \<and> jget m ''compute_cpu'' = Some (isSharing (cn_store n) ''claude-code'') \<and> jget m ''compute_gpu'' = Some (isSharing (cn_store n) ''gpu''))"

definition cap_ok :: "cap_node \<Rightarrow> bool" where
  "cap_ok n = (reg_ok (cn_registry n) \<and> cr_localCapStore (cn_registry n) \<and> cap_store_ok (cn_store n) \<and> told n)"

lemmas cap_store_defs = cap_store_ok_def getShared_def getCapabilities_def isSharing_def lcs_save_def LocalCapabilityStore_init_def lcs_load_def

lemma cap_store_ops_ok [inv_intros]:
  "cap_store_ok s \<Longrightarrow> cap_store_ok (unsetShared c s)" "cap_store_ok s \<Longrightarrow> cap_store_ok (setShareCompute b s)" "cap_store_ok s \<Longrightarrow> c \<noteq> ''gpu'' \<Longrightarrow> cap_store_ok (fst (setShared c s))"
  "cap_store_ok s \<Longrightarrow> cap_store_ok (setDetected now caps s)" "cap_store_ok s \<Longrightarrow> cap_store_ok (LocalCapabilityStore_init (ls_file s))"
  by (auto simp: cap_store_defs unsetShared_def setShareCompute_def setShared_def setDetected_def Let_def)

lemma own_profile_caps:
  "cp_peerId (own_profile now h n) = cn_peerId n"
  "\<exists>m. cp_capabilities (own_profile now h n) = Some m
     \<and> jget m ''compute_cpu'' = Some (isSharing (cn_store n) ''claude-code'') \<and> jget m ''compute_gpu'' = Some (isSharing (cn_store n) ''gpu'')"
  by (simp_all add: own_profile_def detectCapabilityProfile_def Let_def)

lemma set_own_profile:
  assumes "reg_ok (cn_registry n)"
  shows "reg_ok (cn_registry (with_new (setLocalProfile now) (own_profile now h n) n)) \<and> told (with_new (setLocalProfile now) (own_profile now h n) n)"
proof -
  let ?p = "own_profile now h n" and ?r = "cn_registry n"
  have "reg_ok (fst (new_object ?p ?r)\<lparr>cr_localProfile := Some (length (cr_objects ?r))\<rparr>)"
    using new_object_ok [OF assms, of ?p] by (simp add: reg_ok_def new_object_def profile_at_def)
  then have "reg_ok (setLocalProfile now (length (cr_objects ?r)) (fst (new_object ?p ?r)))"
    unfolding setLocalProfile_def by (rule store_profile_ok) (simp add: new_object_def)
  moreover have "getLocalProfile (setLocalProfile now (length (cr_objects ?r)) (fst (new_object ?p ?r))) = Some ?p"
    by (simp add: getLocalProfile_def setLocalProfile_def store_profile_def new_object_def profile_at_def)
  ultimately show ?thesis using own_profile_caps [of now h n]
    by (auto simp: with_new_def new_object_def told_def local_caps_def)
qed

lemma told_same: "same_local (cn_registry n) (cn_registry n') \<Longrightarrow> cn_peerId n' = cn_peerId n \<Longrightarrow> cn_store n' = cn_store n \<Longrightarrow> told n' = told n"
  by (simp add: told_def same_local_def)

lemma cap_ok_same: "cap_ok n \<Longrightarrow> same_local (cn_registry n) (cn_registry n') \<Longrightarrow> cn_peerId n' = cn_peerId n \<Longrightarrow> cn_store n' = cn_store n \<Longrightarrow> cap_ok n'"
  using told_same [of n n'] by (simp add: cap_ok_def same_local_def)

lemma cap_ok_registry: "cap_ok n \<Longrightarrow> (reg_ok (cn_registry n) \<Longrightarrow> same_local (cn_registry n) (f (cn_registry n))) \<Longrightarrow> cap_ok (on_registry f n)"
  using cap_ok_same [of n "on_registry f n"] by (simp add: on_registry_def cap_ok_def)

lemma upd_local_ok: "cap_ok n \<Longrightarrow> keeps_id f \<Longrightarrow> cap_ok (upd_local f n)"
  by (auto simp: upd_local_def intro!: cap_ok_registry upd_local_same split: option.splits)

lemma setLocal_same: "reg_ok r \<Longrightarrow> cr_localProfile r = Some i \<Longrightarrow> same_local r (setLocalProfile now i r)"
proof -
  assume r: "reg_ok r" "cr_localProfile r = Some i"
  have "r\<lparr>cr_localProfile := Some i\<rparr> = r" using r(2) by (cases r) simp
  moreover have "i < length (cr_objects r)" using r by (simp add: reg_ok_def)
  ultimately show ?thesis using r(1) by (simp only: same_local_def setLocalProfile_def local_caps_store store_profile_ok attached_sels)
qed

lemma broadcast_ok: "cap_ok n \<Longrightarrow> cap_ok (broadcastCapabilityProfile now n)"
proof -
  assume "cap_ok n"
  then have "cap_ok (upd_local (\<lambda>p. p\<lparr>cp_updatedAt := now\<rparr>) n)" by (rule upd_local_ok) (simp add: keeps_id_def)
  then show ?thesis using \<open>cap_ok n\<close> by (auto simp: broadcastCapabilityProfile_def Let_def cap_ok_def told_def split: option.splits)
qed

lemma rebuild_ok: "reg_ok (cn_registry n) \<Longrightarrow> cr_localCapStore (cn_registry n) \<Longrightarrow> cap_store_ok (cn_store n) \<Longrightarrow> cap_ok (rebuildCapabilityProfile now h n)"
  unfolding rebuildCapabilityProfile_def
  by (rule broadcast_ok) (simp add: cap_ok_def set_own_profile, simp add: with_new_def new_object_def setLocalProfile_def)

lemma link_ok: "cap_ok n \<Longrightarrow> cap_ok (updateCapabilityLinkedUser now n)"
proof (cases "cr_localProfile (cn_registry n)")
  case (Some i)
  assume ok: "cap_ok n"
  let ?f = "\<lambda>p. p\<lparr>cp_linkedUser := (if truthy (cn_linkedUser n) then cn_linkedUser n else None), cp_updatedAt := now\<rparr>"
  have n1: "cap_ok (upd_local ?f n)" using ok by (rule upd_local_ok) (simp add: keeps_id_def)
  have "cr_localProfile (cn_registry (upd_local ?f n)) = Some i" using Some by (simp add: upd_local_def on_registry_def)
  then have "cap_ok (on_registry (setLocalProfile now i) (upd_local ?f n))"
    by (intro cap_ok_registry [OF n1] setLocal_same)
  then show ?thesis using Some by (simp add: updateCapabilityLinkedUser_def broadcast_ok)
qed (simp add: updateCapabilityLinkedUser_def)

lemma init_cap_store_ok: "cap_store_ok s \<or> ls_file s = None \<Longrightarrow> cap_store_ok (setDetected now caps (if b then setShareCompute True (LocalCapabilityStore_init (ls_file s)) else LocalCapabilityStore_init (ls_file s)))"
  by (auto simp: cap_store_defs setDetected_def setShareCompute_def Let_def)

lemma attach_same: "reg_ok (setLocalCapabilityStore r) = reg_ok r" "local_caps (setLocalCapabilityStore r) = local_caps r"
  by (simp_all add: setLocalCapabilityStore_def reg_ok_def local_caps_def getLocalProfile_def profile_at_def [abs_def] cong: option.case_cong)

lemma init_ok: "cap_store_ok (cn_store n) \<or> ls_file (cn_store n) = None \<Longrightarrow> cap_ok (init_capabilities now h n)"
proof -
  assume s: "cap_store_ok (cn_store n) \<or> ls_file (cn_store n) = None"
  define n1 where "n1 = n\<lparr>cn_store := setDetected now (detectCapabilities h (cn_overrides n))
    (if cn_contributor n then setShareCompute True (LocalCapabilityStore_init (ls_file (cn_store n))) else LocalCapabilityStore_init (ls_file (cn_store n))),
    cn_registry := CapabilityRegistry_init\<rparr>"
  have "reg_ok (cn_registry n1)" by (simp add: n1_def CapabilityRegistry_init_def reg_ok_def)
  from set_own_profile [OF this, of now h] have p: "reg_ok (cn_registry (with_new (setLocalProfile now) (own_profile now h n1) n1))"
    "told (with_new (setLocalProfile now) (own_profile now h n1) n1)" by auto
  have "cap_store_ok (cn_store n1)" using init_cap_store_ok [OF s] by (simp add: n1_def)
  then have "cap_ok (on_registry setLocalCapabilityStore (with_new (setLocalProfile now) (own_profile now h n1) n1))"
    using p by (simp add: cap_ok_def on_registry_def told_def attach_same) (simp add: with_new_def setLocalCapabilityStore_def new_object_def)
  then show ?thesis by (simp add: init_capabilities_def n1_def Let_def)
qed

lemma cap_step_ok: "cap_ok n \<Longrightarrow> cap_ok (cap_step op n)"
proof (induction op n rule: cap_step.induct)
  case (1 now h n)
  then show ?case unfolding cap_step.simps by (intro init_ok) (simp add: cap_ok_def)
next
  case (2 now h n)
  then have "cap_ok (rebuildCapabilityProfile now h (n\<lparr>cn_store := fst (setShared ''claude-code'' (cn_store n))\<rparr>))"
    by (intro rebuild_ok) (simp_all add: cap_ok_def cap_store_ops_ok)
  then show ?case using 2 by (simp add: contribute_claude_def)
next
  case (3 now h n)
  then have "cap_ok (rebuildCapabilityProfile now h (n\<lparr>cn_store := unsetShared ''claude-code'' (cn_store n)\<rparr>))"
    by (intro rebuild_ok) (simp_all add: cap_ok_def cap_store_ops_ok)
  then show ?case using 3 by (simp add: revoke_claude_def)
next
  case (4 now u n)
  then have "cap_ok (n\<lparr>cn_linkedUser := u\<rparr>)" by (simp add: cap_ok_def told_def)
  then show ?case by (simp add: link_ok)
next
  case (6 now "from" p n)
  then have "same_local (cn_registry n) (cn_registry (receive_profile now from p n))" by (simp add: receive_same cap_ok_def)
  from cap_ok_same [OF 6 this] show ?case by (simp add: receive_profile_def with_new_def new_object_def)
next
  case (7 now p ts n)
  then have "same_local (cn_registry n) (cn_registry (handle_compromised now p ts n))" by (simp add: compromised_same cap_ok_def)
  from cap_ok_same [OF 7 this] show ?case by (auto simp: handle_compromised_def split: prod.splits option.splits)
qed (auto simp: broadcast_ok findCapableNodes_def getAllProfiles_def intro!: cap_ok_registry mark_same pruned_local find_loop_reg all_loop_reg cleanup_reg getPeerProfile_same)

lemma cap_run_ok: "cap_ok n \<Longrightarrow> cap_ok (fold cap_step ops n)"
  by (induction ops arbitrary: n) (simp_all add: cap_step_ok)

lemma node_sels [simp]:
  "cn_store (broadcastCapabilityProfile now n) = cn_store n" "cn_store (upd_local f n) = cn_store n" "cn_store (on_registry g n) = cn_store n"
  "cn_store (updateCapabilityLinkedUser now n) = cn_store n" "cn_store (with_new k p n) = cn_store n" "cn_store (rebuildCapabilityProfile now h n) = cn_store n"
  "cn_store (receive_profile now q p n) = cn_store n" "cn_store (handle_compromised now p' ts n) = cn_store n"
proof -
  show u: "cn_store (upd_local f n) = cn_store n" for f n by (simp add: upd_local_def on_registry_def split: option.splits)
  show g: "cn_store (on_registry g n) = cn_store n" for g n by (simp add: on_registry_def)
  show b: "cn_store (broadcastCapabilityProfile now n) = cn_store n" for now n by (simp add: broadcastCapabilityProfile_def Let_def u split: option.splits)
  show w: "cn_store (with_new k p n) = cn_store n" for k p n by (simp add: with_new_def split: prod.splits)
  show "cn_store (updateCapabilityLinkedUser now n) = cn_store n" by (simp add: updateCapabilityLinkedUser_def u g b split: option.splits)
  show "cn_store (rebuildCapabilityProfile now h n) = cn_store n" by (simp add: rebuildCapabilityProfile_def b w)
  show "cn_store (receive_profile now q p n) = cn_store n" by (simp add: receive_profile_def w)
  show "cn_store (handle_compromised now p' ts n) = cn_store n" by (simp add: handle_compromised_def split: prod.splits option.splits)
qed

lemma sharing_step:
  assumes "cap_ok n" and "isSharing (cn_store (cap_step op n)) ''claude-code''"
  shows "(\<exists>t h. op = co_contribute t h) \<or> isSharing (cn_store n) ''claude-code'' \<and> (\<forall>t h. op \<noteq> co_revoke t h)"
  using assms by (cases op) (auto simp: init_capabilities_def revoke_claude_def unsetShared_def setDetected_def setShareCompute_def cap_store_defs cap_ok_def Let_def split: if_splits)

definition opted_in :: "cap_op list \<Rightarrow> bool" where
  "opted_in ops = (\<exists>pre t h post. ops = pre @ co_contribute t h # post \<and> list_all (\<lambda>op. \<forall>t h. op \<noteq> co_revoke t h) post)"

lemma sharing_run:
  assumes "cap_ok n" and "\<not> isSharing (cn_store n) ''claude-code''" and "isSharing (cn_store (fold cap_step ops n)) ''claude-code''"
  shows "opted_in ops"
  using assms(3)
proof (induction ops rule: rev_induct)
  case (snoc op ops)
  have "cap_ok (fold cap_step ops n)" using assms(1) by (rule cap_run_ok)
  moreover have "isSharing (cn_store (cap_step op (fold cap_step ops n))) ''claude-code''" using snoc.prems by simp
  ultimately consider t h where "op = co_contribute t h" | "opted_in ops" "\<forall>t h. op \<noteq> co_revoke t h" using sharing_step snoc.IH by blast
  then show ?case
  proof cases
    case (1 t h)
    then show ?thesis unfolding opted_in_def by (intro exI [of _ ops] exI [of _ t] exI [of _ h] exI [of _ "[]"]) simp
  next
    case 2
    then obtain pre t h post where "ops = pre @ co_contribute t h # post" "list_all (\<lambda>op. \<forall>t h. op \<noteq> co_revoke t h) post" by (auto simp: opted_in_def)
    then show ?thesis using 2(2) unfolding opted_in_def by (intro exI [of _ pre] exI [of _ t] exI [of _ h] exI [of _ "post @ [op]"]) simp
  qed
qed (use assms(2) in simp)

lemma own_tasks:
  assumes "cap_ok n"
  shows "canExecuteLocally g (cn_store (contribute_claude t h n)) reqs (cn_registry (contribute_claude t h n)) = canExecuteLocally g (cn_store n) reqs (cn_registry n)"
    and "canExecuteLocally g (cn_store (revoke_claude t h n)) reqs (cn_registry (revoke_claude t h n)) = canExecuteLocally g (cn_store n) reqs (cn_registry n)"
proof -
  have "cap_ok (contribute_claude t h n)" "cap_ok (revoke_claude t h n)"
    using cap_step_ok [OF assms, of "co_contribute t h"] cap_step_ok [OF assms, of "co_revoke t h"] by simp_all
  moreover have "has_cap (cn_store (contribute_claude t h n)) = has_cap (cn_store n)" "has_cap (cn_store (revoke_claude t h n)) = has_cap (cn_store n)"
    by (auto simp: contribute_claude_def revoke_claude_def has_cap_def setShared_def unsetShared_def lcs_save_def Let_def fun_eq_iff)
  ultimately show "canExecuteLocally g (cn_store (contribute_claude t h n)) reqs (cn_registry (contribute_claude t h n)) = canExecuteLocally g (cn_store n) reqs (cn_registry n)"
    "canExecuteLocally g (cn_store (revoke_claude t h n)) reqs (cn_registry (revoke_claude t h n)) = canExecuteLocally g (cn_store n) reqs (cn_registry n)"
    using assms by (simp_all add: canExecuteLocally_def cap_ok_def localResourceTypeAvailable_def [abs_def] fun_eq_iff)
qed

section \<open>Properties\<close>

definition fresh_node :: "peer_id \<Rightarrow> string list \<Rightarrow> bool \<Rightarrow> cap_node" where
  "fresh_node p overrides contributor = \<lparr>cn_peerId = p, cn_overrides = overrides, cn_contributor = contributor, cn_apiPort = None, cn_linkedUser = None,
     cn_store = LocalCapabilityStore_init None, cn_registry = CapabilityRegistry_init, cn_published = []\<rparr>"

lemma fresh_ok:
  "cap_ok (init_capabilities now h (fresh_node p overrides contributor))" "\<not> isSharing (cn_store (init_capabilities now h (fresh_node p overrides contributor))) c"
  by (intro init_ok) (simp_all add: fresh_node_def cap_store_defs init_capabilities_def setDetected_def setShareCompute_def Let_def)

lemma cap_step_id: "cn_peerId (cap_step op n) = cn_peerId n"
proof -
  have u: "cn_peerId (upd_local f n) = cn_peerId n" for f n by (simp add: upd_local_def on_registry_def split: option.splits)
  have b: "cn_peerId (broadcastCapabilityProfile now n) = cn_peerId n" for now n by (simp add: broadcastCapabilityProfile_def u Let_def split: option.splits)
  show ?thesis by (cases op) (auto simp: u b init_capabilities_def on_registry_def with_new_def new_object_def contribute_claude_def revoke_claude_def rebuildCapabilityProfile_def
      updateCapabilityLinkedUser_def receive_profile_def handle_compromised_def Let_def split: option.splits prod.splits)
qed

lemma cap_run_id: "cn_peerId (fold cap_step ops n) = cn_peerId n"
  by (induction ops arbitrary: n) (simp_all add: cap_step_id)


definition demo_host :: host where
  "demo_host = \<lparr>h_platform = ''linux'', h_homedir = ''/h'', h_cwd = ''/c'', h_runs = (\<lambda>c. c = ''which claude''), h_exists = (\<lambda>p. False),
     h_read = (\<lambda>p. None), h_env = (\<lambda>v. if v = ''ANTHROPIC_API_KEY'' then Some ''k'' else None)\<rparr>"

definition demo_cap_ops :: "cap_op list" where
  "demo_cap_ops = [co_contribute 1 demo_host, co_restart 2 demo_host, co_cleanup 3]"


text \<open>The contributor mode has no effect: a node started in it has the same store, file and profile as one started without, because
  the detection that follows recomputes the flag; without a shared capability its profile declines compute requests.\<close>

lemma contributor_mode_is_lost:
  "init_capabilities now h (n\<lparr>cn_contributor := True\<rparr>) = (init_capabilities now h (n\<lparr>cn_contributor := False\<rparr>))\<lparr>cn_contributor := True\<rparr> \<and>
   map_option cp_shareCompute (getLocalProfile (cn_registry (init_capabilities now h (fresh_node p overrides True)))) = Some (Some False)"
  by (simp add: init_capabilities_def with_new_def new_object_def on_registry_def own_profile_def setDetected_def setShareCompute_def lcs_save_def Let_def
      detectCapabilityProfile_def isSharing_def isShareCompute_def fresh_node_def LocalCapabilityStore_init_def lcs_load_def getLocalProfile_def setLocalProfile_def
      setLocalCapabilityStore_def store_profile_def profile_at_def CapabilityRegistry_init_def)

end
