(* ===== verification/ResourceRouting.thy ===== *)
theory ResourceRouting
  imports Capabilities Reputation
begin

text \<open>
  Who does a task: requests to other nodes (\<^verbatim>\<open>packages/node/src/core/http-peer-client.ts\<close>), the choice of the best node with its record of failures
  (\<^verbatim>\<open>platform/resource-router.ts\<close>), and the market of prices (\<^verbatim>\<open>platform/resource-marketplace.ts\<close>), all over the capability registry.
  The network's answers to requests are arguments. Sorting by score or cost is stable, as JavaScript's is.
\<close>

section \<open>Requests to peers\<close>

text \<open>A URL by its host, port and path; what \<^verbatim>\<open>fetch\<close> and the reading of the body give; and the errors of the client.\<close>

type_synonym url = "string \<times> int \<times> string"

datatype 'b fetch_result = fr_ok 'b | fr_status int string | fr_timeout | fr_refused | fr_failed string

datatype http_peer_error =
    he_no_endpoint peer_id
  | he_status int peer_id string
  | he_timed_out peer_id
  | he_refused peer_id url
  | he_gave_up peer_id "string option"
  | he_no_client

definition getPeerHttpEndpoint :: "time \<Rightarrow> peer_id \<Rightarrow> capability_registry \<Rightarrow> capability_registry \<times> (string \<times> int) option" where
  "getPeerHttpEndpoint now peer r =
     (case getAllProfiles now r of (r', profiles) \<Rightarrow>
        (r', case find (\<lambda>p. cp_peerId p = peer) profiles of None \<Rightarrow> None
             | Some p \<Rightarrow>
               (let api = (case cp_details p of None \<Rightarrow> None | Some d \<Rightarrow> cd_httpApi d);
                    port = (case api of Some (_, pt, _) \<Rightarrow> if pt = 0 then 4000 else pt | None \<Rightarrow> 4000);
                    host = (case cp_publicAddress p of Some a \<Rightarrow> a | None \<Rightarrow> []);
                    host' = (if host \<noteq> [] then host else case api of Some (hs, _, _) \<Rightarrow> if hs = ''0.0.0.0'' \<or> hs = ''::'' then [] else hs | None \<Rightarrow> [])
                in if host' = [] then None else Some (host', port))))"

fun send_attempts :: "peer_id \<Rightarrow> url \<Rightarrow> 'b fetch_result list \<Rightarrow> string option \<Rightarrow> http_peer_error + 'b" where
  "send_attempts peer u [] lastError = Inl (he_gave_up peer lastError)"
| "send_attempts peer u (fr_ok b # rs) lastError = Inr b"
| "send_attempts peer u (fr_status st txt # rs) lastError = Inl (he_status st peer txt)"
| "send_attempts peer u (fr_timeout # rs) lastError = Inl (he_timed_out peer)"
| "send_attempts peer u (fr_refused # rs) lastError = Inl (he_refused peer u)"
| "send_attempts peer u (fr_failed m # rs) lastError = send_attempts peer u rs (Some m)"

text \<open>The network answers the first and the second attempt at a URL.\<close>

definition sendRequest :: "(url \<Rightarrow> nat \<Rightarrow> 'b fetch_result) \<Rightarrow> time \<Rightarrow> peer_id \<Rightarrow> string \<Rightarrow> capability_registry \<Rightarrow> capability_registry \<times> (http_peer_error + 'b)" where
  "sendRequest fetch now peer path r =
     (case getPeerHttpEndpoint now peer r of
        (r', None) \<Rightarrow> (r', Inl (he_no_endpoint peer))
      | (r', Some (hs, port)) \<Rightarrow> (r', send_attempts peer (hs, port, path) (map (fetch (hs, port, path)) [0, 1]) None))"

definition dispatchRequest :: "(url \<Rightarrow> nat \<Rightarrow> 'b fetch_result) \<Rightarrow> time \<Rightarrow> peer_id \<Rightarrow> capability_registry \<Rightarrow> capability_registry \<times> (http_peer_error + 'b)" where
  "dispatchRequest fetch now peer r = sendRequest fetch now peer ''/v1/internal/dispatch'' r"

definition storageProxy :: "(url \<Rightarrow> nat \<Rightarrow> 'b fetch_result) \<Rightarrow> time \<Rightarrow> peer_id \<Rightarrow> string \<Rightarrow> capability_registry \<Rightarrow> capability_registry \<times> (http_peer_error + 'b)" where
  "storageProxy fetch now peer meth r = sendRequest fetch now peer (''/v1/internal/storage/'' @ meth) r"

definition deployApp :: "(url \<Rightarrow> nat \<Rightarrow> 'b fetch_result) \<Rightarrow> time \<Rightarrow> peer_id \<Rightarrow> capability_registry \<Rightarrow> capability_registry \<times> (http_peer_error + 'b)" where
  "deployApp fetch now peer r = sendRequest fetch now peer ''/v1/internal/deploy'' r"

text \<open>The body of a credential response is its field \<^verbatim>\<open>credential\<close>, if it has one.\<close>

definition getCredential ::
  "(url \<Rightarrow> nat \<Rightarrow> string option fetch_result) \<Rightarrow> time \<Rightarrow> peer_id \<Rightarrow> capability_registry \<Rightarrow> capability_registry \<times> (http_peer_error + string option)" where
  "getCredential fetch now peer r = sendRequest fetch now peer ''/v1/internal/credential'' r"

definition chatProxy :: "(url \<Rightarrow> nat \<Rightarrow> 'b fetch_result) \<Rightarrow> time \<Rightarrow> peer_id \<Rightarrow> capability_registry \<Rightarrow> capability_registry \<times> (http_peer_error + 'b)" where
  "chatProxy fetch now peer r = sendRequest fetch now peer ''/v1/internal/chat-proxy'' r"

section \<open>The router\<close>

datatype resource_status = rs_active | rs_degraded | rs_disabled

record FailureRecord =
  fl_consecutiveFailures :: nat
  fl_lastFailure :: time
  fl_lastError :: string
  fl_status :: resource_status

definition DEGRADE_THRESHOLD :: nat where "DEGRADE_THRESHOLD = 3"
definition DISABLE_THRESHOLD :: nat where "DISABLE_THRESHOLD = 5"

record resource_router =
  rt_hasClient :: bool
  rt_reputation :: "reputation_manager option"
  rt_failures :: "(peer_id, (string, FailureRecord) jsmap) jsmap"
  rt_totalRouted :: nat
  rt_localExecutions :: nat
  rt_remoteForwards :: nat
  rt_reassignments :: nat
  rt_failuresByResource :: "(string, nat) jsmap"

definition ResourceRouter_init :: "bool \<Rightarrow> resource_router" where
  "ResourceRouter_init client = \<lparr>rt_hasClient = client, rt_reputation = None, rt_failures = [], rt_totalRouted = 0, rt_localExecutions = 0,
     rt_remoteForwards = 0, rt_reassignments = 0, rt_failuresByResource = []\<rparr>"

definition setReputationManager :: "reputation_manager \<Rightarrow> resource_router \<Rightarrow> resource_router" where
  "setReputationManager m s = s\<lparr>rt_reputation := Some m\<rparr>"

record ResourceRoutingRequirements =
  rq_requiredResources :: "string list"
  rq_preferredNodes :: "peer_id list"
  rq_minReputation :: "number option"

record RoutingDecision =
  rd_targetNode :: peer_id
  rd_score :: number
  rd_reason :: string
  rd_alternatives :: "(peer_id \<times> number) list"

definition capability_points :: "string list \<Rightarrow> CapabilityProfile \<Rightarrow> number" where
  "capability_points reqs p =
     (if reqs = [] then 20
      else fmul (fdiv (of_nat (length (filter (\<lambda>q. advertises p q) reqs))) (of_nat (length reqs))) 20)"

text \<open>\<open>None\<close>: the node is below the minimum and excluded.\<close>

definition reputation_points :: "number \<Rightarrow> peer_id \<Rightarrow> resource_router \<Rightarrow> number option" where
  "reputation_points minReputation p s =
     (case rt_reputation s of None \<Rightarrow> Some 15
      | Some m \<Rightarrow> (case getReputation m p of None \<Rightarrow> Some 15
          | Some rep \<Rightarrow> if rp_reputationScore rep < minReputation then None
              else Some (fmul (min (fdiv (rp_reputationScore rep) 100) 1) 30)))"

fun health_penalty :: "(string, FailureRecord) jsmap \<Rightarrow> string list \<Rightarrow> number \<Rightarrow> number option" where
  "health_penalty m [] score = Some score"
| "health_penalty m (q # qs) score =
     (case jget m q of None \<Rightarrow> health_penalty m qs score
      | Some f \<Rightarrow> (case fl_status f of rs_disabled \<Rightarrow> None
          | rs_degraded \<Rightarrow> health_penalty m qs (fsub score 20)
          | rs_active \<Rightarrow> health_penalty m qs score))"

definition node_failures :: "resource_router \<Rightarrow> peer_id \<Rightarrow> (string, FailureRecord) jsmap" where
  "node_failures s p = (case jget (rt_failures s) p of None \<Rightarrow> [] | Some m \<Rightarrow> m)"

definition scoreNode :: "capability_registry \<Rightarrow> CapabilityProfile \<Rightarrow> string list \<Rightarrow> peer_id list \<Rightarrow> number \<Rightarrow> resource_router \<Rightarrow> number" where
  "scoreNode r p reqs preferred minReputation s =
     (let score1 = fadd 50 (capability_points reqs p) in
      case reputation_points minReputation (cp_peerId p) s of None \<Rightarrow> 0
      | Some rep \<Rightarrow>
        (case health_penalty (node_failures s (cp_peerId p)) reqs (fadd score1 rep) of None \<Rightarrow> 0
         | Some score2 \<Rightarrow>
           (let score3 = (if cp_peerId p \<in> set preferred then fadd score2 10 else score2);
                score4 = (if local_id r = Some (cp_peerId p) then fadd score3 5 else score3)
            in max 0 score4)))"

text \<open>The candidates for a task, for the router and the market.\<close>

definition candidate_nodes :: "time \<Rightarrow> string list \<Rightarrow> capability_registry \<Rightarrow> capability_registry \<times> (registry_error + CapabilityProfile list)" where
  "candidate_nodes now reqs r =
     (if reqs \<noteq> [] then findCapableNodes now reqs r else (case getAllProfiles now r of (r', ps) \<Rightarrow> (r', Inr ps)))"

definition no_node :: "string \<Rightarrow> RoutingDecision" where
  "no_node why = \<lparr>rd_targetNode = [], rd_score = 0, rd_reason = why, rd_alternatives = []\<rparr>"

definition rank_nodes ::
  "capability_registry \<Rightarrow> CapabilityProfile list \<Rightarrow> string list \<Rightarrow> peer_id list \<Rightarrow> number \<Rightarrow> resource_router \<Rightarrow> (peer_id \<times> number) list" where
  "rank_nodes r ps reqs preferred minRep s =
     sort_key (\<lambda>e. - snd e) (map (\<lambda>p. (cp_peerId p, scoreNode r p reqs preferred minRep s)) ps)"

definition decide_node :: "capability_registry \<Rightarrow> CapabilityProfile list \<Rightarrow> ResourceRoutingRequirements \<Rightarrow> resource_router \<Rightarrow> RoutingDecision" where
  "decide_node r candidates rq s =
     (if candidates = [] then no_node ''No capable nodes found''
      else case filter (\<lambda>e. 0 < snd e) (rank_nodes r candidates (rq_requiredResources rq) (rq_preferredNodes rq)
             (case rq_minReputation rq of None \<Rightarrow> 0 | Some m \<Rightarrow> m) s) of
        [] \<Rightarrow> no_node ''All candidate nodes scored below threshold''
      | best # rest \<Rightarrow>
        \<lparr>rd_targetNode = fst best, rd_score = snd best,
         rd_reason = (if local_id r = Some (fst best) then ''Local node is best candidate''
                      else ''Remote node '' @ take 12 (fst best) @ '' scored highest''),
         rd_alternatives = take 5 rest\<rparr>)"

definition findBestNode ::
  "time \<Rightarrow> ResourceRoutingRequirements \<Rightarrow> capability_registry \<Rightarrow> resource_router \<Rightarrow> capability_registry \<times> (registry_error + RoutingDecision)" where
  "findBestNode now rq r s =
     (case candidate_nodes now (rq_requiredResources rq) r of
        (r', Inl e) \<Rightarrow> (r', Inl e)
      | (r', Inr candidates) \<Rightarrow> (r', Inr (decide_node r' candidates rq s)))"

text \<open>The answer of a remote node, and what forwarding makes of it.\<close>

record forward_reply =
  rb_success :: bool
  rb_taskId :: "string option"
  rb_error :: "string option"

datatype forward_error = fe_failed http_peer_error | fe_rejected string

definition forward_result :: "string \<Rightarrow> http_peer_error + forward_reply \<Rightarrow> forward_error + string" where
  "forward_result taskId reply =
     (case reply of Inl e \<Rightarrow> Inl (fe_failed e)
      | Inr b \<Rightarrow> if rb_success b then Inr (if truthy (rb_taskId b) then the (rb_taskId b) else taskId)
          else Inl (fe_rejected (if truthy (rb_error b) then the (rb_error b) else ''Remote node rejected task'')))"

definition forwardTask ::
  "(url \<Rightarrow> nat \<Rightarrow> forward_reply fetch_result) \<Rightarrow> time \<Rightarrow> string \<Rightarrow> peer_id \<Rightarrow> capability_registry \<Rightarrow> resource_router
   \<Rightarrow> capability_registry \<times> (forward_error + string)" where
  "forwardTask fetch now taskId peer r s =
     (if \<not> rt_hasClient s then (r, Inl (fe_failed he_no_client))
      else case dispatchRequest fetch now peer r of (r', reply) \<Rightarrow> (r', forward_result taskId reply))"

datatype routing_error = re_registry registry_error | re_no_node string | re_forward peer_id forward_error
datatype routed = routed_local peer_id | routed_remote peer_id string

definition routeTask ::
  "(url \<Rightarrow> nat \<Rightarrow> forward_reply fetch_result) \<Rightarrow> time \<Rightarrow> string \<Rightarrow> ResourceRoutingRequirements \<Rightarrow> capability_registry \<Rightarrow> resource_router
   \<Rightarrow> capability_registry \<times> resource_router \<times> (routing_error + routed)" where
  "routeTask fetch now taskId rq r s =
     (let s1 = s\<lparr>rt_totalRouted := Suc (rt_totalRouted s)\<rparr> in
      case findBestNode now rq r s1 of
        (r1, Inl e) \<Rightarrow> (r1, s1, Inl (re_registry e))
      | (r1, Inr d) \<Rightarrow>
        if rd_targetNode d = [] then (r1, s1, Inl (re_no_node (rd_reason d)))
        else if local_id r1 = Some (rd_targetNode d) then (r1, s1\<lparr>rt_localExecutions := Suc (rt_localExecutions s1)\<rparr>, Inr (routed_local (rd_targetNode d)))
        else (case forwardTask fetch now taskId (rd_targetNode d) r1 s1 of
                (r2, Inl e) \<Rightarrow> (r2, s1, Inl (re_forward (rd_targetNode d) e))
              | (r2, Inr i) \<Rightarrow> (r2, s1\<lparr>rt_remoteForwards := Suc (rt_remoteForwards s1)\<rparr>, Inr (routed_remote (rd_targetNode d) i))))"

definition reportResourceFailure :: "time \<Rightarrow> peer_id \<Rightarrow> string \<Rightarrow> string \<Rightarrow> resource_router \<Rightarrow> resource_router" where
  "reportResourceFailure now p t err s =
     (let nf = node_failures s p;
          f0 = (case jget nf t of Some f \<Rightarrow> f
                | None \<Rightarrow> \<lparr>fl_consecutiveFailures = 0, fl_lastFailure = 0, fl_lastError = [], fl_status = rs_active\<rparr>);
          n = Suc (fl_consecutiveFailures f0);
          st = (if DISABLE_THRESHOLD \<le> n then rs_disabled else if DEGRADE_THRESHOLD \<le> n then rs_degraded else fl_status f0)
      in s\<lparr>rt_failuresByResource := jset t (Suc (case jget (rt_failuresByResource s) t of None \<Rightarrow> 0 | Some k \<Rightarrow> k)) (rt_failuresByResource s),
           rt_failures := jset p (jset t \<lparr>fl_consecutiveFailures = n, fl_lastFailure = now, fl_lastError = err, fl_status = st\<rparr> nf) (rt_failures s)\<rparr>)"

definition reportResourceRecovery :: "peer_id \<Rightarrow> string \<Rightarrow> resource_router \<Rightarrow> resource_router" where
  "reportResourceRecovery p t s =
     s\<lparr>rt_failures := jupd p (jupd t (\<lambda>f. f\<lparr>fl_consecutiveFailures := 0, fl_status := rs_active\<rparr>)) (rt_failures s)\<rparr>"

record ReassignResult =
  ra_newNode :: "peer_id option"
  ra_attempts :: nat
  ra_error :: "string option"

fun try_alternatives ::
  "(url \<Rightarrow> nat \<Rightarrow> forward_reply fetch_result) \<Rightarrow> time \<Rightarrow> string \<Rightarrow> peer_id list \<Rightarrow> nat \<Rightarrow> capability_registry \<Rightarrow> resource_router
   \<Rightarrow> capability_registry \<times> nat \<times> peer_id option" where
  "try_alternatives fetch now taskId [] attempts r s = (r, attempts, None)"
| "try_alternatives fetch now taskId (c # cs) attempts r s =
     (if local_id r = Some c then (r, Suc attempts, Some c)
      else case forwardTask fetch now taskId c r s of
             (r', Inr _) \<Rightarrow> (r', Suc attempts, Some c)
           | (r', Inl _) \<Rightarrow> try_alternatives fetch now taskId cs (Suc attempts) r' s)"

text \<open>A failed reassignment has no new node; its message, which counts the attempts, is kept as the text before the number.\<close>

definition reassignFailedTask ::
  "(url \<Rightarrow> nat \<Rightarrow> forward_reply fetch_result) \<Rightarrow> time \<Rightarrow> string \<Rightarrow> string list \<Rightarrow> peer_id \<Rightarrow> capability_registry \<Rightarrow> resource_router
   \<Rightarrow> capability_registry \<times> resource_router \<times> (registry_error + ReassignResult)" where
  "reassignFailedTask fetch now taskId reqs failedNode r s =
     (let s1 = s\<lparr>rt_reassignments := Suc (rt_reassignments s)\<rparr> in
      case candidate_nodes now reqs r of
        (r1, Inl e) \<Rightarrow> (r1, s1, Inl e)
      | (r1, Inr candidates) \<Rightarrow>
        (let viable = filter (\<lambda>p. cp_peerId p \<noteq> failedNode) candidates in
         if viable = [] then (r1, s1, Inr \<lparr>ra_newNode = None, ra_attempts = 1, ra_error = Some ''No alternative nodes available''\<rparr>)
         else case try_alternatives fetch now taskId (take 3 (map fst (rank_nodes r1 viable reqs [] 0 s1))) 0 r1 s1 of
                (r2, k, Some c) \<Rightarrow> (r2, s1, Inr \<lparr>ra_newNode = Some c, ra_attempts = k, ra_error = None\<rparr>)
              | (r2, k, None) \<Rightarrow> (r2, s1, Inr \<lparr>ra_newNode = None, ra_attempts = k, ra_error = Some ''Failed to reassign''\<rparr>)))"

definition resources_in :: "resource_status \<Rightarrow> (string, FailureRecord) jsmap \<Rightarrow> string list" where
  "resources_in st m = map fst (filter (\<lambda>e. fl_status (snd e) = st) m)"

text \<open>\<^verbatim>\<open>nodeHealth\<close>: for each node with a degraded or disabled resource, its active, degraded and disabled ones.\<close>

definition node_health :: "resource_router \<Rightarrow> (peer_id \<times> string list \<times> string list \<times> string list) list" where
  "node_health s =
     map (\<lambda>(p, m). (p, resources_in rs_active m, resources_in rs_degraded m, resources_in rs_disabled m))
       (filter (\<lambda>(p, m). resources_in rs_degraded m \<noteq> [] \<or> resources_in rs_disabled m \<noteq> []) (rt_failures s))"

record RoutingStats =
  st_totalRouted :: nat
  st_localExecutions :: nat
  st_remoteForwards :: nat
  st_reassignments :: nat
  st_failuresByResource :: "(string, nat) jsmap"
  st_nodeHealth :: "(peer_id \<times> string list \<times> string list \<times> string list) list"

definition getRoutingStats :: "resource_router \<Rightarrow> RoutingStats" where
  "getRoutingStats s = \<lparr>st_totalRouted = rt_totalRouted s, st_localExecutions = rt_localExecutions s, st_remoteForwards = rt_remoteForwards s,
     st_reassignments = rt_reassignments s, st_failuresByResource = rt_failuresByResource s, st_nodeHealth = node_health s\<rparr>"

section \<open>The market\<close>

record price =
  pr_pricePerUnit :: number
  pr_unit :: string
  pr_currency :: string

text \<open>A price list from a peer is not validated: its prices may be missing.\<close>

record PriceList =
  pl_peerId :: peer_id
  pl_prices :: "(string, price) jsmap option"
  pl_updatedAt :: time

definition BROADCAST_COOLDOWN_MS :: time where "BROADCAST_COOLDOWN_MS = 60000"

definition DEFAULT_PRICES :: "(string, number \<times> string) jsmap" where
  "DEFAULT_PRICES =
     [(''relay'', (fl (1 / 1000), ''MB'')), (''api_keys'', (fl (1 / 100), ''call'')), (''compute_cpu'', (fl (1 / 10), ''minute'')),
      (''compute_gpu'', (fl (1 / 2), ''minute'')), (''storage'', (fl (1 / 1000), ''GB-hour'')), (''gateway'', (fl (1 / 100), ''1000 requests'')),
      (''validator'', (fl (5 / 100), ''validation'')), (''index'', (fl (5 / 1000), ''query'')), (''agent_labor'', (1, ''task''))]"

record resource_market =
  mk_hasNetwork :: bool
  mk_localPeerId :: peer_id
  mk_lastBroadcastAt :: time
  mk_localPrices :: "(string, price) jsmap"
  mk_peerPrices :: "(peer_id, PriceList) jsmap"
  mk_published :: "PriceList list"

definition lux_price :: "number \<Rightarrow> string \<Rightarrow> price" where
  "lux_price n u = \<lparr>pr_pricePerUnit = n, pr_unit = u, pr_currency = ''lux''\<rparr>"

definition ResourceMarketplace_init :: resource_market where
  "ResourceMarketplace_init = \<lparr>mk_hasNetwork = False, mk_localPeerId = [], mk_lastBroadcastAt = 0,
     mk_localPrices = map (\<lambda>(res, n, u). (res, lux_price n u)) DEFAULT_PRICES, mk_peerPrices = [], mk_published = []\<rparr>"

definition setNetwork :: "resource_market \<Rightarrow> resource_market" where
  "setNetwork m = m\<lparr>mk_hasNetwork := True\<rparr>"

definition setLocalPeerId :: "peer_id \<Rightarrow> resource_market \<Rightarrow> resource_market" where
  "setLocalPeerId p m = m\<lparr>mk_localPeerId := p\<rparr>"

definition setPrice :: "string \<Rightarrow> number \<Rightarrow> resource_market \<Rightarrow> resource_market" where
  "setPrice res n m =
     (let unit = (case jget (mk_localPrices m) res of Some e \<Rightarrow> pr_unit e | None \<Rightarrow> []);
          unit' = (if unit \<noteq> [] then unit else case jget DEFAULT_PRICES res of Some (_, u) \<Rightarrow> u | None \<Rightarrow> ''unit'')
      in m\<lparr>mk_localPrices := jset res (lux_price n unit') (mk_localPrices m)\<rparr>)"

definition getPrices :: "time \<Rightarrow> peer_id \<Rightarrow> resource_market \<Rightarrow> PriceList" where
  "getPrices now p m =
     (if p = [] \<or> p = mk_localPeerId m then \<lparr>pl_peerId = mk_localPeerId m, pl_prices = Some (mk_localPrices m), pl_updatedAt = now\<rparr>
      else case jget (mk_peerPrices m) p of Some l \<Rightarrow> l | None \<Rightarrow> \<lparr>pl_peerId = p, pl_prices = Some [], pl_updatedAt = 0\<rparr>)"

definition unit_price :: "(string, price) jsmap \<Rightarrow> string \<Rightarrow> number option" where
  "unit_price prices res = (case jget prices res of Some e \<Rightarrow> Some (pr_pricePerUnit e) | None \<Rightarrow> map_option fst (jget DEFAULT_PRICES res))"

fun total_cost :: "(string, price) jsmap option \<Rightarrow> string list \<Rightarrow> number \<times> (string, number) jsmap \<Rightarrow> registry_error + number \<times> (string, number) jsmap" where
  "total_cost prices [] acc = Inr acc"
| "total_cost None (res # ress) acc = Inl TypeError"
| "total_cost (Some m) (res # ress) (c, b) =
     total_cost (Some m) ress (case unit_price m res of None \<Rightarrow> (c, b) | Some n \<Rightarrow> (fadd c n, jset res n b))"

record offer =
  of_peerId :: peer_id
  of_totalCost :: number
  of_breakdown :: "(string, number) jsmap"

fun price_all :: "time \<Rightarrow> string list \<Rightarrow> CapabilityProfile list \<Rightarrow> resource_market \<Rightarrow> registry_error + offer list" where
  "price_all now reqs [] m = Inr []"
| "price_all now reqs (p # ps) m =
     (case total_cost (pl_prices (getPrices now (cp_peerId p) m)) reqs (0, []) of
        Inl e \<Rightarrow> Inl e
      | Inr (c, b) \<Rightarrow> (case price_all now reqs ps m of Inl e \<Rightarrow> Inl e
          | Inr os \<Rightarrow> Inr (\<lparr>of_peerId = cp_peerId p, of_totalCost = c, of_breakdown = b\<rparr> # os)))"

record MarketplaceResult =
  mr_cheapest :: offer
  mr_alternatives :: "(peer_id \<times> number) list"

definition no_offer :: offer where
  "no_offer = \<lparr>of_peerId = [], of_totalCost = 0, of_breakdown = []\<rparr>"

definition findCheapest :: "time \<Rightarrow> string list \<Rightarrow> capability_registry \<Rightarrow> resource_market \<Rightarrow> capability_registry \<times> (registry_error + MarketplaceResult)" where
  "findCheapest now reqs r m =
     (case candidate_nodes now reqs r of
        (r', Inl e) \<Rightarrow> (r', Inl e)
      | (r', Inr candidates) \<Rightarrow> (r',
          case price_all now reqs candidates m of Inl e \<Rightarrow> Inl e
          | Inr offers \<Rightarrow> (case sort_key of_totalCost offers of
                [] \<Rightarrow> Inr \<lparr>mr_cheapest = no_offer, mr_alternatives = []\<rparr>
              | best # rest \<Rightarrow> Inr \<lparr>mr_cheapest = best, mr_alternatives = map (\<lambda>x. (of_peerId x, of_totalCost x)) (take 5 rest)\<rparr>)))"

record BudgetMatch =
  bm_peerId :: peer_id
  bm_totalCost :: number
  bm_withinBudget :: bool
  bm_savingsVsAverage :: number

definition budget_match :: "number \<Rightarrow> number \<Rightarrow> offer \<Rightarrow> BudgetMatch" where
  "budget_match budget avg x = \<lparr>bm_peerId = of_peerId x, bm_totalCost = of_totalCost x, bm_withinBudget = (of_totalCost x \<le> budget),
     bm_savingsVsAverage = (if 0 < avg then fmul (fdiv (fsub avg (of_totalCost x)) avg) 100 else 0)\<rparr>"

definition average_cost :: "offer list \<Rightarrow> number" where
  "average_cost offers = (if offers = [] then 0 else fdiv (fold (\<lambda>x t. fadd t (of_totalCost x)) offers 0) (of_nat (length offers)))"

definition matchBudget :: "time \<Rightarrow> number \<Rightarrow> string list \<Rightarrow> capability_registry \<Rightarrow> resource_market \<Rightarrow> capability_registry \<times> (registry_error + BudgetMatch list)" where
  "matchBudget now budget reqs r m =
     (case candidate_nodes now reqs r of
        (r', Inl e) \<Rightarrow> (r', Inl e)
      | (r', Inr candidates) \<Rightarrow> (r',
          case price_all now reqs candidates m of Inl e \<Rightarrow> Inl e
          | Inr offers \<Rightarrow> Inr (sort_key bm_totalCost (map (budget_match budget (average_cost offers)) offers))))"

definition handlePriceBroadcast :: "peer_id \<Rightarrow> PriceList \<Rightarrow> resource_market \<Rightarrow> resource_market" where
  "handlePriceBroadcast p l m = m\<lparr>mk_peerPrices := jset p (l\<lparr>pl_peerId := p\<rparr>) (mk_peerPrices m)\<rparr>"

text \<open>A message on the market's topic: its sender, if any, and the price list of a payload of the right type.\<close>

definition on_marketplace_message :: "peer_id option \<Rightarrow> PriceList option \<Rightarrow> resource_market \<Rightarrow> resource_market" where
  "on_marketplace_message from l m =
     (let p = (if truthy from then the from else ''unknown'') in
      if p = mk_localPeerId m then m else case l of None \<Rightarrow> m | Some pl \<Rightarrow> handlePriceBroadcast p pl m)"

definition broadcastPrices :: "time \<Rightarrow> bool \<Rightarrow> resource_market \<Rightarrow> resource_market" where
  "broadcastPrices now publishes m =
     (if \<not> mk_hasNetwork m \<or> mk_localPeerId m = [] then m
      else if now - mk_lastBroadcastAt m < BROADCAST_COOLDOWN_MS then m
      else if \<not> publishes then m
      else m\<lparr>mk_lastBroadcastAt := now,
        mk_published := mk_published m @ [\<lparr>pl_peerId = mk_localPeerId m, pl_prices = Some (mk_localPrices m), pl_updatedAt = now\<rparr>]\<rparr>)"

record MarketStats =
  ms_averagePrices :: "(string, number) jsmap"
  ms_lowestPrices :: "(string, number \<times> peer_id) jsmap"
  ms_activeProviders :: nat
  ms_totalResources :: "(string, nat) jsmap"

definition add_price :: "string \<times> price \<Rightarrow> (string, number list) jsmap \<Rightarrow> (string, number list) jsmap" where
  "add_price e a = jset (fst e) ((case jget a (fst e) of None \<Rightarrow> [] | Some ns \<Rightarrow> ns) @ [pr_pricePerUnit (snd e)]) a"

fun collect_prices :: "PriceList list \<Rightarrow> (string, number list) jsmap \<Rightarrow> registry_error + (string, number list) jsmap" where
  "collect_prices [] a = Inr a"
| "collect_prices (l # ls) a = (case pl_prices l of None \<Rightarrow> Inl TypeError | Some ps \<Rightarrow> collect_prices ls (fold add_price ps a))"

definition lower_price :: "string \<Rightarrow> PriceList \<Rightarrow> (number \<times> peer_id) option \<Rightarrow> (number \<times> peer_id) option" where
  "lower_price res l lowest =
     (case jget (case pl_prices l of None \<Rightarrow> [] | Some ps \<Rightarrow> ps) res of None \<Rightarrow> lowest
      | Some e \<Rightarrow> (case lowest of None \<Rightarrow> Some (pr_pricePerUnit e, pl_peerId l)
          | Some (n, _) \<Rightarrow> if pr_pricePerUnit e < n then Some (pr_pricePerUnit e, pl_peerId l) else lowest))"

definition count_resource :: "string \<times> bool \<Rightarrow> (string, nat) jsmap \<Rightarrow> (string, nat) jsmap" where
  "count_resource e a = (if snd e then jset (fst e) (Suc (case jget a (fst e) of None \<Rightarrow> 0 | Some n \<Rightarrow> n)) a else a)"

fun count_resources :: "CapabilityProfile list \<Rightarrow> (string, nat) jsmap \<Rightarrow> registry_error + (string, nat) jsmap" where
  "count_resources [] a = Inr a"
| "count_resources (p # ps) a = (case cp_capabilities p of None \<Rightarrow> Inl TypeError | Some m \<Rightarrow> count_resources ps (fold count_resource m a))"

definition getMarketStats :: "time \<Rightarrow> capability_registry \<Rightarrow> resource_market \<Rightarrow> capability_registry \<times> (registry_error + MarketStats)" where
  "getMarketStats now r m =
     (let lists = getPrices now [] m # jvals (mk_peerPrices m) in
      case collect_prices lists [] of Inl e \<Rightarrow> (r, Inl e)
      | Inr all \<Rightarrow>
        (case getAllProfiles now r of (r', profiles) \<Rightarrow> (r',
          case count_resources profiles [] of Inl e \<Rightarrow> Inl e
          | Inr totals \<Rightarrow> Inr \<lparr>
              ms_averagePrices = map (\<lambda>(res, ns). (res, if ns = [] then 0 else fdiv (foldl fadd 0 ns) (of_nat (length ns)))) all,
              ms_lowestPrices = List.map_filter (\<lambda>(res, ns). map_option (Pair res) (fold (lower_price res) lists None)) all,
              ms_activeProviders = length lists, ms_totalResources = totals\<rparr>)))"

section \<open>Failures and recovery\<close>

datatype router_op = ro_fail time peer_id string string | ro_recover peer_id string | ro_reputation reputation_manager

fun router_step :: "router_op \<Rightarrow> resource_router \<Rightarrow> resource_router" where
  "router_step (ro_fail now p t err) s = reportResourceFailure now p t err s"
| "router_step (ro_recover p t) s = reportResourceRecovery p t s"
| "router_step (ro_reputation m) s = setReputationManager m s"

text \<open>The number of failures of a resource since its last recovery, and the status it should have.\<close>

fun streak_step :: "peer_id \<Rightarrow> string \<Rightarrow> router_op \<Rightarrow> nat \<Rightarrow> nat" where
  "streak_step p t (ro_fail now p' t' err) n = (if p' = p \<and> t' = t then Suc n else n)"
| "streak_step p t (ro_recover p' t') n = (if p' = p \<and> t' = t then 0 else n)"
| "streak_step p t (ro_reputation m) n = n"

definition streak :: "peer_id \<Rightarrow> string \<Rightarrow> router_op list \<Rightarrow> nat" where
  "streak p t ops = fold (streak_step p t) ops 0"

definition status_for :: "nat \<Rightarrow> resource_status" where
  "status_for n = (if 5 \<le> n then rs_disabled else if 3 \<le> n then rs_degraded else rs_active)"

definition failure_entry :: "resource_router \<Rightarrow> peer_id \<Rightarrow> string \<Rightarrow> nat \<times> resource_status" where
  "failure_entry s p t = (case jget (node_failures s p) t of None \<Rightarrow> (0, rs_active) | Some f \<Rightarrow> (fl_consecutiveFailures f, fl_status f))"

lemma entry_fail:
  "failure_entry (reportResourceFailure now p t err s) p' t' =
     (if p = p' \<and> t = t' then (Suc (fst (failure_entry s p t)),
        if 5 \<le> Suc (fst (failure_entry s p t)) then rs_disabled else if 3 \<le> Suc (fst (failure_entry s p t)) then rs_degraded else snd (failure_entry s p t))
      else failure_entry s p' t')"
  by (auto simp: failure_entry_def reportResourceFailure_def node_failures_def Let_def DISABLE_THRESHOLD_def DEGRADE_THRESHOLD_def split: option.splits)

lemma entry_recover:
  "failure_entry (reportResourceRecovery p t s) p' t' = (if p = p' \<and> t = t' then (0, rs_active) else failure_entry s p' t')"
  by (auto simp: failure_entry_def reportResourceRecovery_def node_failures_def split: option.splits)

lemma entry_reputation: "failure_entry (setReputationManager m s) = failure_entry s"
  by (simp add: failure_entry_def node_failures_def setReputationManager_def fun_eq_iff)

lemma entry_run:
  "failure_entry s p t = (n, status_for n) \<Longrightarrow>
   failure_entry (fold router_step ops s) p t = (fold (streak_step p t) ops n, status_for (fold (streak_step p t) ops n))"
proof (induction ops arbitrary: s n)
  case (Cons op ops)
  have "failure_entry (router_step op s) p t = (streak_step p t op n, status_for (streak_step p t op n))"
    using Cons.prems by (cases op) (auto simp: entry_fail entry_recover entry_reputation status_for_def)
  then show ?case using Cons.IH by simp
qed simp

lemma entry_streak: "failure_entry (fold router_step ops (ResourceRouter_init client)) p t = (streak p t ops, status_for (streak p t ops))"
  unfolding streak_def by (rule entry_run) (simp add: failure_entry_def node_failures_def ResourceRouter_init_def status_for_def)

lemma penalty_disabled: "health_penalty m reqs sc = None \<longleftrightarrow> (\<exists>t\<in>set reqs. \<exists>f. jget m t = Some f \<and> fl_status f = rs_disabled)"
  by (induction reqs arbitrary: sc) (auto split: option.splits resource_status.splits)

lemma disabled_scores_0: "t \<in> set reqs \<Longrightarrow> snd (failure_entry s (cp_peerId p) t) = rs_disabled \<Longrightarrow> scoreNode r p reqs pref minRep s = 0"
proof -
  assume t: "t \<in> set reqs" "snd (failure_entry s (cp_peerId p) t) = rs_disabled"
  then have "health_penalty (node_failures s (cp_peerId p)) reqs sc = None" for sc
    unfolding penalty_disabled by (auto simp: failure_entry_def split: option.splits)
  then show ?thesis by (simp add: scoreNode_def Let_def split: option.splits)
qed

section \<open>The choice of a node\<close>

lemma candidate_result:
  "snd (candidate_nodes now reqs r) =
     (let ps = profiles_of r (live now r)
      in if list_all (readable reqs) ps then Inr (filter (supports reqs) ps) else Inl TypeError)"
proof (cases "reqs = []")
  case True
  have "supports [] p" for p by (simp add: supports_def split: option.splits)
  moreover have "list_all (readable []) ps" for ps by (induction ps) (simp_all add: readable_def)
  ultimately show ?thesis using True getAllProfiles_result [of now r]
    by (cases "getAllProfiles now r") (simp add: candidate_nodes_def)
qed (simp add: candidate_nodes_def findCapableNodes_result)

lemma pruned_same: "pruned r r' \<Longrightarrow> local_id r' = local_id r \<and> profile_at r' = profile_at r"
  by (auto simp: pruned_def local_id_def getLocalProfile_def drops_keep)

lemma candidate_registry: "pruned r (fst (candidate_nodes now reqs r))"
  using all_loop_reg [of r now "cr_profiles r" "[]"]
  by (auto simp: candidate_nodes_def findCapableNodes_def getAllProfiles_def find_loop_reg split: prod.splits)

lemma scoreNode_registry: "local_id r' = local_id r \<Longrightarrow> scoreNode r' p reqs pref minRep s = scoreNode r p reqs pref minRep s"
  by (simp only: scoreNode_def)

lemma sort_key_NilD: "sort_key f xs = [] \<Longrightarrow> xs = []"
  using length_sort [of f xs] by simp

lemma sort_hd_min: "sort_key f xs = y # ys \<Longrightarrow> x \<in> set xs \<Longrightarrow> f y \<le> f x"
proof -
  assume s: "sort_key f xs = y # ys" and x: "x \<in> set xs"
  have "sorted (map f (y # ys))" using sorted_sort_key [of f xs] s by simp
  moreover have "x \<in> set (y # ys)" using x set_sort [of f xs] s by simp
  ultimately show ?thesis by auto
qed

definition min_rep :: "ResourceRoutingRequirements \<Rightarrow> number" where
  "min_rep rq = (case rq_minReputation rq of None \<Rightarrow> 0 | Some m \<Rightarrow> m)"

lemma decide_cases:
  assumes "score = (\<lambda>p. scoreNode r p (rq_requiredResources rq) (rq_preferredNodes rq) (min_rep rq) s)"
  shows "(\<forall>p\<in>set ps. score p \<le> 0) \<and> rd_targetNode (decide_node r ps rq s) = [] \<or>
    (\<exists>p\<in>set ps. rd_targetNode (decide_node r ps rq s) = cp_peerId p \<and> rd_score (decide_node r ps rq s) = score p \<and> 0 < score p \<and> (\<forall>q\<in>set ps. score q \<le> score p))"
proof -
  let ?good = "filter (\<lambda>e. 0 < snd e) (map (\<lambda>p. (cp_peerId p, score p)) ps)"
  have f: "filter (\<lambda>e. 0 < snd e) (rank_nodes r ps (rq_requiredResources rq) (rq_preferredNodes rq) (min_rep rq) s) = sort_key (\<lambda>e. - snd e) ?good"
    by (simp add: rank_nodes_def filter_sort assms)
  show ?thesis
  proof (cases "sort_key (\<lambda>e. - snd e) ?good")
    case Nil
    then have "?good = []" by (rule sort_key_NilD)
    then have "\<forall>p\<in>set ps. score p \<le> 0" by (auto simp: filter_empty_conv)
    then show ?thesis using f Nil by (simp add: decide_node_def min_rep_def [symmetric] no_node_def)
  next
    case (Cons best rest)
    then have "best \<in> set (sort_key (\<lambda>e. - snd e) ?good)" by simp
    then have "best \<in> set ?good" by (simp only: set_sort)
    then obtain p where p: "p \<in> set ps" "best = (cp_peerId p, score p)" "0 < score p" by auto
    have "score q \<le> score p" if "q \<in> set ps" for q
      using sort_hd_min [OF Cons, of "(cp_peerId q, score q)"] p that by (cases "0 < score q") auto
    moreover have "rd_targetNode (decide_node r ps rq s) = cp_peerId p" "rd_score (decide_node r ps rq s) = score p"
      using f Cons p by (auto simp: decide_node_def min_rep_def [symmetric])
    ultimately show ?thesis using p by blast
  qed
qed

lemma findBestNode_result:
  "snd (findBestNode now rq r s) =
     (let ps = profiles_of r (live now r)
      in if list_all (readable (rq_requiredResources rq)) ps then Inr (decide_node r (filter (supports (rq_requiredResources rq)) ps) rq s) else Inl TypeError)"
proof -
  obtain r' x where c: "candidate_nodes now (rq_requiredResources rq) r = (r', x)" by (cases "candidate_nodes now (rq_requiredResources rq) r")
  then have "local_id r' = local_id r" using pruned_same [OF candidate_registry [of r now "rq_requiredResources rq"]] by simp
  then have "decide_node r' ps rq s = decide_node r ps rq s" for ps
    by (simp add: decide_node_def rank_nodes_def scoreNode_registry [of r' r] cong: list.case_cong)
  then show ?thesis using candidate_result [of now "rq_requiredResources rq" r] c by (simp add: findBestNode_def Let_def split: if_splits)
qed

text \<open>C27: Routing chooses the best healthy node. Of the known nodes that are not expired and offer everything required, the one chosen has the highest
  score, and every required resource of it has failed fewer than five times since its last recovery; no node is chosen
  only if no candidate has a positive score.\<close>

theorem routing_picks_best:
  assumes "s = fold router_step ops (ResourceRouter_init client)" and "snd (findBestNode now rq r s) = Inr d"
    and "score = (\<lambda>p. scoreNode r p (rq_requiredResources rq) (rq_preferredNodes rq) (min_rep rq) s)"
    and "candidates = filter (supports (rq_requiredResources rq)) (profiles_of r (live now r))"
  shows "(\<forall>p\<in>set candidates. score p \<le> 0) \<and> rd_targetNode d = [] \<or>
    (\<exists>p\<in>set candidates. rd_targetNode d = cp_peerId p \<and> rd_score d = score p \<and> (\<forall>q\<in>set candidates. score q \<le> score p) \<and>
       (\<forall>t\<in>set (rq_requiredResources rq). streak (cp_peerId p) t ops < 5))"
proof -
  have d: "d = decide_node r candidates rq s" using assms(2,4) by (simp add: findBestNode_result Let_def split: if_splits)
  have "streak (cp_peerId p) t ops < 5" if "0 < score p" "t \<in> set (rq_requiredResources rq)" for p t
  proof (rule ccontr)
    assume "\<not> streak (cp_peerId p) t ops < 5"
    then have "snd (failure_entry s (cp_peerId p) t) = rs_disabled" by (simp add: assms(1) entry_streak status_for_def)
    then show False using disabled_scores_0 [OF that(2)] that(1) by (simp add: assms(3))
  qed
  then show ?thesis using decide_cases [OF assms(3), of candidates] unfolding d by blast
qed

definition demo_profile :: "peer_id \<Rightarrow> CapabilityProfile" where
  "demo_profile p = (detectCapabilityProfile 0 demo_host p None None None)"

definition demo_registry :: capability_registry where
  "demo_registry = cn_registry (receive_profile 2 ''b'' (demo_profile ''b'') (receive_profile 1 ''a'' (demo_profile ''a'') (init_capabilities 0 demo_host (fresh_node ''me'' [] False))))"

definition demo_failures :: "router_op list" where
  "demo_failures = replicate 5 (ro_fail 3 ''a'' ''compute_cpu'' ''e'') @ replicate 3 (ro_fail 3 ''b'' ''compute_cpu'' ''e'')"

definition demo_rq :: ResourceRoutingRequirements where
  "demo_rq = \<lparr>rq_requiredResources = [''compute_cpu''], rq_preferredNodes = [], rq_minReputation = None\<rparr>"

definition demo_router :: resource_router where
  "demo_router = fold router_step demo_failures (ResourceRouter_init True)"

lemma demo_choice:
  "snd (findBestNode 5 demo_rq demo_registry demo_router) =
     Inr \<lparr>rd_targetNode = ''b'', rd_score = 65, rd_reason = ''Remote node b scored highest'', rd_alternatives = []\<rparr>"
  by code_simp

theorem routing_picks_best_witness: "streak ''b'' ''compute_cpu'' demo_failures < 5"
proof -
  have "rd_targetNode \<lparr>rd_targetNode = ''b'', rd_score = 65, rd_reason = ''Remote node b scored highest'', rd_alternatives = []\<rparr> \<noteq> []" by simp
  then show ?thesis using routing_picks_best [OF demo_router_def [unfolded atomize_eq] demo_choice refl refl]
    by (auto simp: demo_rq_def)
qed

text \<open>A task that failed may be given to a node whose resource is disabled: \<^verbatim>\<open>reassignFailedTask\<close> does not drop candidates with score zero.\<close>

lemma disabled_node_gets_reassigned:
  "let s = fold router_step (replicate 5 (ro_fail 3 ''b'' ''compute_cpu'' ''e'')) (ResourceRouter_init True);
       r = cn_registry (receive_profile 2 ''b'' ((demo_profile ''b'')\<lparr>cp_publicAddress := Some ''x''\<rparr>) (receive_profile 1 ''a'' (demo_profile ''a'') (init_capabilities 0 demo_host (fresh_node ''me'' [] False))))
   in snd (failure_entry s ''b'' ''compute_cpu'') = rs_disabled \<and>
      map_sum id ra_newNode (snd (snd (reassignFailedTask (\<lambda>u k. fr_ok \<lparr>rb_success = True, rb_taskId = None, rb_error = None\<rparr>) 5 ''task'' [''compute_cpu''] ''a'' r s))) = Inr (Some ''b'')"
  by code_simp

section \<open>Prices\<close>

definition cost :: "time \<Rightarrow> string list \<Rightarrow> resource_market \<Rightarrow> peer_id \<Rightarrow> registry_error + number" where
  "cost now reqs m p = map_sum id fst (total_cost (pl_prices (getPrices now p m)) reqs (0, []))"

lemma price_all_offers:
  "price_all now reqs ps m = Inr offers \<Longrightarrow>
   map of_peerId offers = map cp_peerId ps \<and> (\<forall>x\<in>set offers. cost now reqs m (of_peerId x) = Inr (of_totalCost x))"
  by (induction ps arbitrary: offers) (auto simp: cost_def split: sum.splits)

lemma sort_key_match: "sort_key bm_totalCost (map (budget_match b a) xs) = map (budget_match b a) (sort_key of_totalCost xs)"
proof -
  have "insort_key bm_totalCost (budget_match b a x) (map (budget_match b a) ys) = map (budget_match b a) (insort_key of_totalCost x ys)" for x ys
    by (induction ys) (simp_all add: budget_match_def)
  then show ?thesis by (induction xs) simp_all
qed

lemma market_results:
  assumes "snd (candidate_nodes now reqs r) = Inr ps" and "price_all now reqs ps m = Inr offers"
  shows "snd (matchBudget now budget reqs r m) = Inr (map (budget_match budget (average_cost offers)) (sort_key of_totalCost offers))"
    and "offers = [] \<Longrightarrow> snd (findCheapest now reqs r m) = Inr \<lparr>mr_cheapest = no_offer, mr_alternatives = []\<rparr>"
    and "sort_key of_totalCost offers = best # rest \<Longrightarrow>
      snd (findCheapest now reqs r m) = Inr \<lparr>mr_cheapest = best, mr_alternatives = map (\<lambda>x. (of_peerId x, of_totalCost x)) (take 5 rest)\<rparr>"
  using assms by (cases "candidate_nodes now reqs r"; simp add: matchBudget_def findCheapest_def sort_key_match)+

lemma market_errors:
  assumes "snd (candidate_nodes now reqs r) = Inl e \<or> (\<exists>ps. snd (candidate_nodes now reqs r) = Inr ps \<and> price_all now reqs ps m = Inl e)"
  shows "snd (findCheapest now reqs r m) = Inl e \<and> snd (matchBudget now budget reqs r m) = Inl e"
  using assms by (cases "candidate_nodes now reqs r") (auto simp: matchBudget_def findCheapest_def)

lemma sorted_matches:
  assumes offers: "sort_key of_totalCost offers = best # rest" "map of_peerId offers = map cp_peerId ps"
    "\<forall>x\<in>set offers. cost now reqs m (of_peerId x) = Inr (of_totalCost x)"
    and ms: "ms = map (budget_match budget avg) (sort_key of_totalCost offers)"
  shows "mset (map bm_peerId ms) = mset (map cp_peerId ps)" and "sorted (map bm_totalCost ms)" and "bm_peerId (hd ms) = of_peerId best" and "bm_totalCost (hd ms) = of_totalCost best"
    and "\<And>x. x \<in> set ms \<Longrightarrow> cost now reqs m (bm_peerId x) = Inr (bm_totalCost x) \<and> of_totalCost best \<le> bm_totalCost x \<and> (bm_withinBudget x \<longleftrightarrow> bm_totalCost x \<le> budget)"
proof -
  have c: "bm_peerId \<circ> budget_match budget avg = of_peerId" "bm_totalCost \<circ> budget_match budget avg = of_totalCost" by (auto simp: budget_match_def)
  show "mset (map bm_peerId ms) = mset (map cp_peerId ps)" unfolding ms offers(2) [symmetric] by (simp add: c)
  show "sorted (map bm_totalCost ms)" unfolding ms by (simp add: c)
  show "bm_peerId (hd ms) = of_peerId best" "bm_totalCost (hd ms) = of_totalCost best" by (simp_all add: ms offers(1) budget_match_def)
  fix x
  assume "x \<in> set ms"
  then obtain y where "y \<in> set offers" "x = budget_match budget avg y" by (auto simp: ms)
  then show "cost now reqs m (bm_peerId x) = Inr (bm_totalCost x) \<and> of_totalCost best \<le> bm_totalCost x \<and> (bm_withinBudget x \<longleftrightarrow> bm_totalCost x \<le> budget)"
    using sort_hd_min [OF offers(1)] offers(3) by (simp add: budget_match_def)
qed

text \<open>C28: The market finds the cheapest provider. Among the known nodes that are not expired and offer what is required, the one found has the
  lowest cost by the prices it published (or the default prices); the budget query lists the same nodes with the same costs, in the order of their costs,
  starting with it, and marks those within the budget; both queries fail together, for want of readable data.\<close>

theorem market_finds_cheapest:
  assumes "candidates = filter (supports reqs) (profiles_of r (live now r))"
  shows "case (snd (findCheapest now reqs r m), snd (matchBudget now budget reqs r m)) of
     (Inl e, Inl e') \<Rightarrow> e = TypeError \<and> e' = TypeError
   | (Inr res, Inr ms) \<Rightarrow>
       if candidates = [] then mr_cheapest res = no_offer \<and> ms = []
       else map bm_peerId ms \<noteq> [] \<and> mset (map bm_peerId ms) = mset (map cp_peerId candidates) \<and>
         bm_peerId (hd ms) = of_peerId (mr_cheapest res) \<and> bm_totalCost (hd ms) = of_totalCost (mr_cheapest res) \<and> sorted (map bm_totalCost ms) \<and>
         (\<forall>x\<in>set ms. cost now reqs m (bm_peerId x) = Inr (bm_totalCost x) \<and> of_totalCost (mr_cheapest res) \<le> bm_totalCost x \<and>
            (bm_withinBudget x \<longleftrightarrow> bm_totalCost x \<le> budget))
   | _ \<Rightarrow> False"
proof (cases "snd (candidate_nodes now reqs r)")
  case (Inl e)
  then show ?thesis using market_errors [of now reqs r e m budget] by (cases e) simp
next
  case (Inr ps)
  then have ps: "ps = candidates" using assms by (simp add: candidate_result Let_def split: if_splits)
  show ?thesis
  proof (cases "price_all now reqs ps m")
    case (Inl e)
    then show ?thesis using market_errors [of now reqs r e m budget] Inr by (cases e) simp
  next
    case offers: (Inr offers)
    note facts = price_all_offers [OF offers] and res = market_results [OF Inr offers]
    show ?thesis
    proof (cases "sort_key of_totalCost offers")
      case Nil
      then have "offers = []" by (rule sort_key_NilD)
      then show ?thesis using facts res(1) [of budget] res(2) ps by simp
    next
      case (Cons best rest)
      then have "candidates \<noteq> []" using facts ps by auto
      then show ?thesis
        using res(1) [of budget] res(3) [OF Cons] Cons sorted_matches [OF Cons conjunct1 [OF facts] conjunct2 [OF facts] refl, where budget = budget and avg = "average_cost offers"] ps by simp
    qed
  qed
qed

definition demo_market :: resource_market where
  "demo_market = handlePriceBroadcast ''b'' \<lparr>pl_peerId = [], pl_prices = Some [(''compute_cpu'', lux_price (1 / 16) ''minute'')], pl_updatedAt = 0\<rparr>
     (setLocalPeerId ''me'' ResourceMarketplace_init)"

theorem market_finds_cheapest_witness:
  "map_sum id (of_peerId \<circ> mr_cheapest) (snd (findCheapest 5 [''compute_cpu''] demo_registry demo_market)) = Inr ''b'' \<and>
   map_sum id (bm_peerId \<circ> hd) (snd (matchBudget 5 1 [''compute_cpu''] demo_registry demo_market)) = Inr ''b''"
proof -
  let ?c = "filter (supports [''compute_cpu'']) (profiles_of demo_registry (live 5 demo_registry))"
  have c: "map cp_peerId ?c = [''a'', ''b'']" by code_simp
  have f: "map_sum id (of_peerId \<circ> mr_cheapest) (snd (findCheapest 5 [''compute_cpu''] demo_registry demo_market)) = Inr ''b''" by code_simp
  show ?thesis using market_finds_cheapest [of ?c "[''compute_cpu'']" demo_registry 5 demo_market 1] c f
    by (auto split: sum.splits if_splits)
qed

section \<open>Profiles are trusted\<close>

lemma find_live:
  assumes "reg_ok r" and "(k, st) \<in> set (live t r)"
  shows "find (\<lambda>p. cp_peerId p = k) (profiles_of r (live t r)) = Some (profile_at r (sp_ref st))"
proof -
  have id: "cp_peerId (profile_at r (sp_ref st')) = k'" "jget (cr_profiles r) k' = Some st'" if "(k', st') \<in> set (live t r)" for k' st'
    using that assms(1) by (auto simp: live_def reg_ok_def jget_mem dest: jallD)
  have "profile_at r (sp_ref st) \<in> set (profiles_of r (live t r))" using assms(2) by (force simp: profiles_of_def)
  then have "find (\<lambda>p. cp_peerId p = k) (profiles_of r (live t r)) \<noteq> None"
    using id(1) [OF assms(2)] by (auto simp: find_None_iff)
  then obtain q where q: "find (\<lambda>p. cp_peerId p = k) (profiles_of r (live t r)) = Some q" by auto
  then have "q \<in> set (profiles_of r (live t r))" "cp_peerId q = k" by (auto dest: find_SomeD)
  then obtain k' st' where "(k', st') \<in> set (live t r)" "q = profile_at r (sp_ref st')" "cp_peerId q = k" by (auto simp: profiles_of_def)
  then show ?thesis using q id [of k' st'] id [OF assms(2)] by auto
qed

lemma received_entry:
  assumes "reg_ok (cn_registry n)" and r_def: "r = cn_registry (receive_profile now q p n)"
  obtains i where "(cp_peerId p, \<lparr>sp_ref = i, sp_receivedAt = now\<rparr>) \<in> set (cr_profiles r)" "cp_peerId (profile_at r i) = cp_peerId p"
    "cp_capabilities (profile_at r i) = cp_capabilities p" "cp_publicAddress (profile_at r i) = cp_publicAddress p" "cp_details (profile_at r i) = cp_details p"
proof
  let ?i = "length (cr_objects (cn_registry n))"
  have o: "profile_at (fst (new_object p (cn_registry n))) ?i = p" by (simp add: profile_at_def new_object_def)
  have r: "r = updatePeerProfile now ?i (fst (new_object p (cn_registry n)))" by (simp add: r_def receive_profile_def with_new_def new_object_def)
  show "cp_peerId (profile_at r ?i) = cp_peerId p" "cp_capabilities (profile_at r ?i) = cp_capabilities p" "cp_publicAddress (profile_at r ?i) = cp_publicAddress p" "cp_details (profile_at r ?i) = cp_details p"
    by (simp_all add: r updatePeerProfile_def store_profile_def profile_at_def upd_object_def new_object_def split: option.splits)
  have "jget (cr_profiles r) (cp_peerId p) = Some \<lparr>sp_ref = ?i, sp_receivedAt = now\<rparr>"
    by (simp add: r updatePeerProfile_def store_profile_def profile_at_def upd_object_def new_object_def split: option.splits)
  then show "(cp_peerId p, \<lparr>sp_ref = ?i, sp_receivedAt = now\<rparr>) \<in> set (cr_profiles r)" by (rule jget_SomeD)
qed

text \<open>Requests follow unauthenticated profiles. Any peer can announce a profile in the name of another: for the following five minutes every request to
  that node goes to the address the announcement names, whatever was known before and whoever sent it.\<close>

lemma forged_profile_diverts_requests:
  assumes "n = fold cap_step ops (init_capabilities t0 h (fresh_node me overrides contributor))"
    and "cp_peerId p = victim" and "cp_publicAddress p = Some x" and "x \<noteq> []" and "t - now \<le> TTL_MS"
  shows "\<exists>port. snd (sendRequest fetch t victim path (cn_registry (receive_profile now attacker p n))) =
     send_attempts victim (x, port, path) [fetch (x, port, path) 0, fetch (x, port, path) 1] None"
proof -
  let ?r = "cn_registry (receive_profile now attacker p n)"
  have ok: "reg_ok (cn_registry n)" using cap_run_ok [OF fresh_ok(1)] by (simp add: assms(1) cap_ok_def)
  then have ok': "reg_ok ?r" using receive_same by (simp add: same_local_def)
  obtain i where i: "(victim, \<lparr>sp_ref = i, sp_receivedAt = now\<rparr>) \<in> set (cr_profiles ?r)" "cp_publicAddress (profile_at ?r i) = Some x"
    using received_entry [OF ok refl, where p = p and now = now and q = attacker] assms(2,3) by metis
  then have "(victim, \<lparr>sp_ref = i, sp_receivedAt = now\<rparr>) \<in> set (live t ?r)" using assms(5) by (auto simp: live_def is_expired_def)
  from find_live [OF ok' this] have "find (\<lambda>p. cp_peerId p = victim) (snd (getAllProfiles t ?r)) = Some (profile_at ?r i)" by (simp add: getAllProfiles_result)
  then have "\<exists>port. snd (getPeerHttpEndpoint t victim ?r) = Some (x, port)"
    using i(2) assms(4) by (cases "getAllProfiles t ?r") (simp add: getPeerHttpEndpoint_def Let_def)
  then obtain port where "snd (getPeerHttpEndpoint t victim ?r) = Some (x, port)" by blast
  then show ?thesis by (cases "getPeerHttpEndpoint t victim ?r") (auto simp: sendRequest_def)
qed

definition demo_forged :: CapabilityProfile where
  "demo_forged = (demo_profile ''b'')\<lparr>cp_publicAddress := Some ''evil''\<rparr>"

lemma forged_profile_diverts_requests_witness:
  "\<exists>port. snd (sendRequest (\<lambda>u k. fr_ok u) 9 ''b'' ''/p'' (cn_registry (receive_profile 7 ''a'' demo_forged (fold cap_step [] (init_capabilities 0 demo_host (fresh_node ''me'' [] False)))))) =
     Inr (''evil'', port, ''/p'')"
  using forged_profile_diverts_requests [OF refl, of demo_forged "''b''" "''evil''" 9 7 "\<lambda>u k. fr_ok u" "''/p''" "''a''" "[]" 0 demo_host "''me''" "[]" False]
  by (simp add: demo_forged_def demo_profile_def detectCapabilityProfile_def TTL_MS_def Let_def)

text \<open>One malformed profile stops routing. A profile without capabilities is stored when any peer announces it; then every search for a node or a price with
  requirements fails, for five minutes, or without end if the profile carries the name of the receiving node.\<close>

lemma malformed_profile_stops_routing:
  assumes "n = fold cap_step ops (init_capabilities t0 h (fresh_node me overrides contributor))"
    and "cp_capabilities p = None" and "t - now \<le> TTL_MS \<or> cp_peerId p = me" and "rq_requiredResources rq \<noteq> []"
  shows "snd (findBestNode t rq (cn_registry (receive_profile now attacker p n)) s) = Inl TypeError \<and>
     snd (findCheapest t (rq_requiredResources rq) (cn_registry (receive_profile now attacker p n)) m) = Inl TypeError"
proof -
  let ?r = "cn_registry (receive_profile now attacker p n)"
  have cap: "cap_ok n" using cap_run_ok [OF fresh_ok(1)] by (simp add: assms(1))
  then have ok: "reg_ok (cn_registry n)" by (simp add: cap_ok_def)
  have "cn_peerId n = me" using cap_step_id [of "co_restart t0 h" "fresh_node me overrides contributor"] by (simp add: assms(1) cap_run_id fresh_node_def)
  then have "local_id ?r = Some me" using cap_step_ok [OF cap, of "co_profile now attacker p"] cap_step_id [of "co_profile now attacker p" n]
    by (auto simp: cap_ok_def told_def local_caps_def local_id_def)
  moreover obtain i where i: "(cp_peerId p, \<lparr>sp_ref = i, sp_receivedAt = now\<rparr>) \<in> set (cr_profiles ?r)" "cp_capabilities (profile_at ?r i) = None"
    using received_entry [OF ok refl, where p = p and now = now and q = attacker] assms(2) by metis
  ultimately have "(cp_peerId p, \<lparr>sp_ref = i, sp_receivedAt = now\<rparr>) \<in> set (live t ?r)" using assms(3) by (auto simp: live_def is_expired_def)
  then have "profile_at ?r i \<in> set (profiles_of ?r (live t ?r))" by (force simp: profiles_of_def)
  then have bad: "\<not> list_all (readable (rq_requiredResources rq)) (profiles_of ?r (live t ?r))" using i(2) assms(4) by (auto simp: list_all_iff readable_def)
  then have "snd (candidate_nodes t (rq_requiredResources rq) ?r) = Inl TypeError" by (simp add: candidate_result)
  then show ?thesis using bad market_errors [of t "rq_requiredResources rq" ?r TypeError m 0] by (simp add: findBestNode_result)
qed

lemma malformed_profile_stops_routing_witness:
  "snd (findBestNode (10 ^ 12) demo_rq (cn_registry (receive_profile 7 ''a'' ((demo_profile ''me'')\<lparr>cp_capabilities := None\<rparr>)
     (fold cap_step [] (init_capabilities 0 demo_host (fresh_node ''me'' [] False))))) demo_router) = Inl TypeError"
  using malformed_profile_stops_routing [OF refl, of "(demo_profile ''me'')\<lparr>cp_capabilities := None\<rparr>" "10 ^ 12" 7 "''me''" demo_rq "''a''" "[]" 0 demo_host "[]" False demo_router]
  by (simp add: demo_rq_def demo_profile_def detectCapabilityProfile_def Let_def)

end
