(* ===== verification/ResourceMeter.thy ===== *)
theory ResourceMeter
  imports Types JsText
begin

text \<open>
  \<^verbatim>\<open>ResourceMeter\<close> (\<^verbatim>\<open>packages/node/src/platform/resource-meter.ts\<close>): what every node used of each resource, the readings and rewards
  computed from it, its pruning and its file. The names of resources and peers are not those of fields that every object has, and not numbers.
\<close>

section \<open>The meter\<close>

record ResourceUsage =
  us_resourceType :: string
  us_quantity :: number
  us_unit :: string
  us_taskId :: "string option"
  us_timestamp :: time

record MeterReading =
  mr_peerId :: peer_id
  mr_period :: string
  mr_readings :: "(string, number \<times> string) jsmap"
  mr_estimatedReward :: number

record NetworkMeterReading =
  nr_period :: string
  nr_totalNodes :: nat
  nr_readings :: "(string, number \<times> string \<times> nat) jsmap"
  nr_totalRewardsDistributed :: number

text \<open>One line per resource: its type, the usage, the rate and the reward.\<close>

record RewardCalculation =
  rc_peerId :: peer_id
  rc_period :: string
  rc_rewards :: "(string \<times> number \<times> number \<times> number) list"
  rc_totalReward :: number

type_synonym usage_map = "(peer_id, ResourceUsage list) jsmap"

record resource_meter =
  me_records :: usage_map
  me_timer :: bool
  me_file :: "usage_map option"

definition REWARD_RATES :: "(string, number \<times> string) jsmap" where
  "REWARD_RATES = [(''relay'', fl (1 / 1000), ''bytes''), (''api_keys'', fl (1 / 100), ''calls''), (''compute_cpu'', fl (1 / 10), ''minutes''),
     (''compute_gpu'', fl (1 / 2), ''minutes''), (''storage'', fl (1 / 1000), ''gb_hours''), (''gateway'', fl (1 / 100), ''requests''),
     (''validator'', fl (5 / 100), ''validations''), (''index'', fl (5 / 1000), ''requests'')]"

definition UNIT_DIVISORS :: "(string, number) jsmap" where
  "UNIT_DIVISORS = [(''relay'', 1048576), (''gateway'', 1000)]"

definition RETENTION_MS :: time where
  "RETENTION_MS = 30 * 24 * 60 * 60 * 1000"

definition periodToMs :: "string \<Rightarrow> time" where
  "periodToMs p =
     (if p = ''hour'' then 60 * 60 * 1000 else if p = ''day'' then 24 * 60 * 60 * 1000
      else if p = ''week'' then 7 * 24 * 60 * 60 * 1000 else if p = ''month'' then 30 * 24 * 60 * 60 * 1000 else 24 * 60 * 60 * 1000)"

definition peer_records :: "resource_meter \<Rightarrow> peer_id \<Rightarrow> ResourceUsage list" where
  "peer_records m p = (case jget (me_records m) p of None \<Rightarrow> [] | Some rs \<Rightarrow> rs)"

definition recordResourceUsage :: "time \<Rightarrow> peer_id \<Rightarrow> string \<Rightarrow> ResourceUsage \<Rightarrow> resource_meter \<Rightarrow> resource_meter" where
  "recordResourceUsage now p t u m =
     m\<lparr>me_records := jset p (peer_records m p @ [u\<lparr>us_resourceType := t, us_timestamp := (if us_timestamp u = 0 then now else us_timestamp u)\<rparr>]) (me_records m)\<rparr>"

definition recent_usage :: "time \<Rightarrow> string \<Rightarrow> ResourceUsage list \<Rightarrow> ResourceUsage list" where
  "recent_usage now period rs = filter (\<lambda>r. \<not> us_timestamp r < now - periodToMs period) rs"

definition usage_unit :: "ResourceUsage \<Rightarrow> string" where
  "usage_unit r =
     (if us_unit r \<noteq> [] then us_unit r else case jget REWARD_RATES (us_resourceType r) of Some (rate, u) \<Rightarrow> u | None \<Rightarrow> ''units'')"

definition add_reading :: "ResourceUsage \<Rightarrow> (string, number \<times> string) jsmap \<Rightarrow> (string, number \<times> string) jsmap" where
  "add_reading r m =
     (case (case jget m (us_resourceType r) of None \<Rightarrow> (0, usage_unit r) | Some e \<Rightarrow> e) of
        (tot, unit) \<Rightarrow> jset (us_resourceType r) (fadd tot (us_quantity r), unit) m)"

definition add_usage :: "ResourceUsage \<Rightarrow> (string, number) jsmap \<Rightarrow> (string, number) jsmap" where
  "add_usage r m = jset (us_resourceType r) (fadd (case jget m (us_resourceType r) of None \<Rightarrow> 0 | Some x \<Rightarrow> x) (us_quantity r)) m"

definition reward_line :: "string \<times> number \<Rightarrow> (string \<times> number \<times> number \<times> number) option" where
  "reward_line = (\<lambda>(t, usage). map_option (\<lambda>(rate, u).
     (t, usage, rate, fmul (fdiv usage (case jget UNIT_DIVISORS t of None \<Rightarrow> 1 | Some d \<Rightarrow> d)) rate)) (jget REWARD_RATES t))"

definition rewards_of :: "ResourceUsage list \<Rightarrow> (string \<times> number \<times> number \<times> number) list \<times> number" where
  "rewards_of rs = (let ls = List.map_filter reward_line (fold add_usage rs []) in (ls, fold (\<lambda>(t, u, rate, x) tot. fadd tot x) ls 0))"

definition calculateRewards :: "time \<Rightarrow> peer_id \<Rightarrow> string \<Rightarrow> resource_meter \<Rightarrow> RewardCalculation" where
  "calculateRewards now p period m =
     (case rewards_of (recent_usage now period (peer_records m p)) of
        (ls, tot) \<Rightarrow> \<lparr>rc_peerId = p, rc_period = period, rc_rewards = ls, rc_totalReward = tot\<rparr>)"

definition getUsage :: "time \<Rightarrow> peer_id \<Rightarrow> string \<Rightarrow> resource_meter \<Rightarrow> MeterReading" where
  "getUsage now p period m =
     \<lparr>mr_peerId = p, mr_period = period, mr_readings = fold add_reading (recent_usage now period (peer_records m p)) [],
      mr_estimatedReward = rc_totalReward (calculateRewards now p period m)\<rparr>"

text \<open>Network totals: beside total and unit the set of the peers that contributed.\<close>

definition add_network ::
  "peer_id \<Rightarrow> ResourceUsage \<Rightarrow> (string, number \<times> string \<times> peer_id list) jsmap \<Rightarrow> (string, number \<times> string \<times> peer_id list) jsmap" where
  "add_network p r m =
     (case (case jget m (us_resourceType r) of None \<Rightarrow> (0, usage_unit r, []) | Some e \<Rightarrow> e) of
        (tot, unit, ps) \<Rightarrow> jset (us_resourceType r) (fadd tot (us_quantity r), unit, sadd p ps) m)"

definition getNetworkUsage :: "time \<Rightarrow> string \<Rightarrow> resource_meter \<Rightarrow> NetworkMeterReading" where
  "getNetworkUsage now period m =
     (let ms = me_records m;
          readings = fold (\<lambda>(p, rs). fold (add_network p) (recent_usage now period rs)) ms [];
          tot = fold (\<lambda>(p, rs) t. fadd t (rc_totalReward (calculateRewards now p period m))) ms 0
      in \<lparr>nr_period = period, nr_totalNodes = length ms, nr_readings = map (\<lambda>(t, x, u, ps). (t, x, u, length ps)) readings,
          nr_totalRewardsDistributed = tot\<rparr>)"

definition save_usage :: "resource_meter \<Rightarrow> resource_meter" where
  "save_usage m = m\<lparr>me_file := Some (me_records m)\<rparr>"

definition load_usage :: "resource_meter \<Rightarrow> resource_meter" where
  "load_usage m = (case me_file m of None \<Rightarrow> m | Some f \<Rightarrow> m\<lparr>me_records := fold (\<lambda>(p, rs). jset p rs) f []\<rparr>)"

definition ResourceMeter_init :: "usage_map option \<Rightarrow> resource_meter" where
  "ResourceMeter_init f = load_usage \<lparr>me_records = [], me_timer = False, me_file = f\<rparr>"

definition prune_peer :: "time \<Rightarrow> peer_id \<times> ResourceUsage list \<Rightarrow> (peer_id \<times> ResourceUsage list) option" where
  "prune_peer now e =
     (let kept = filter (\<lambda>r. now - RETENTION_MS \<le> us_timestamp r) (snd e)
      in if length kept < length (snd e) \<and> kept = [] then None else Some (fst e, kept))"

definition pruneOldRecords :: "time \<Rightarrow> resource_meter \<Rightarrow> resource_meter" where
  "pruneOldRecords now m = m\<lparr>me_records := List.map_filter (prune_peer now) (me_records m)\<rparr>"

definition startMeteringLoop :: "resource_meter \<Rightarrow> resource_meter" where
  "startMeteringLoop m = m\<lparr>me_timer := True\<rparr>"

definition metering_tick :: "time \<Rightarrow> resource_meter \<Rightarrow> resource_meter" where
  "metering_tick now m = (if me_timer m then save_usage (pruneOldRecords now m) else m)"

definition stopMeteringLoop :: "resource_meter \<Rightarrow> resource_meter" where
  "stopMeteringLoop m = save_usage (m\<lparr>me_timer := False\<rparr>)"

definition getTrackedPeers :: "resource_meter \<Rightarrow> peer_id list" where
  "getTrackedPeers m = jkeys (me_records m)"

section \<open>Pruning and restarts\<close>

lemma period_retained: "periodToMs p \<le> RETENTION_MS"
  by (simp add: periodToMs_def RETENTION_MS_def)

lemma recent_after_prune:
  "now \<le> now' \<Longrightarrow> recent_usage now' p (filter (\<lambda>r. now - RETENTION_MS \<le> us_timestamp r) rs) = recent_usage now' p rs"
  unfolding recent_usage_def filter_filter using period_retained [of p] by (intro filter_cong refl) auto

lemma recent_nil [simp]: "recent_usage now p [] = []"
  by (simp add: recent_usage_def)

lemma prune_None: "now \<le> now' \<Longrightarrow> prune_peer now e = None \<Longrightarrow> recent_usage now' p (snd e) = []"
  using recent_after_prune [of now now' p "snd e"] by (simp add: prune_peer_def Let_def split: if_splits)

lemma prune_Some: "now \<le> now' \<Longrightarrow> prune_peer now e = Some e' \<Longrightarrow> fst e' = fst e \<and> recent_usage now' p (snd e') = recent_usage now' p (snd e)"
  using recent_after_prune [of now now' p "snd e"] by (auto simp: prune_peer_def Let_def split: if_splits)

lemma prune_fst: "fst ` set (List.map_filter (prune_peer now) m) \<subseteq> fst ` set m"
  by (induction m) (auto simp: map_filter_simps prune_peer_def Let_def split: if_splits)

lemma prune_wf: "jwf m \<Longrightarrow> jwf (List.map_filter (prune_peer now) m)"
proof (induction m)
  case (Cons e m)
  have "fst e \<notin> fst ` set (List.map_filter (prune_peer now) m)" using prune_fst [of now m] Cons.prems by (auto simp: jwf_def)
  then have "prune_peer now e = Some e' \<Longrightarrow> fst e' \<notin> fst ` set (List.map_filter (prune_peer now) m)" for e'
    by (cases e') (simp add: prune_peer_def Let_def split: if_splits)
  then show ?case using Cons by (auto simp: jwf_def map_filter_simps split: option.splits)
qed (simp add: map_filter_simps)

lemma peer_records_prune:
  assumes "jwf (me_records m)" and "now \<le> now'"
  shows "recent_usage now' q (peer_records (pruneOldRecords now m) p) = recent_usage now' q (peer_records m p)"
proof -
  have "recent_usage now' q (case jget (List.map_filter (prune_peer now) ms) p of None \<Rightarrow> [] | Some rs \<Rightarrow> rs)
    = recent_usage now' q (case jget ms p of None \<Rightarrow> [] | Some rs \<Rightarrow> rs)" if "jwf ms" for ms
    using that
  proof (induction ms)
    case (Cons e ms)
    obtain k rs where e: "e = (k, rs)" by fastforce
    have ms: "jwf ms" "k \<notin> fst ` set ms" using Cons.prems e by (auto simp: jwf_def)
    show ?case
    proof (cases "prune_peer now e")
      case None
      have "jget (List.map_filter (prune_peer now) ms) k = None" "jget ms k = None"
        using ms(2) prune_fst [of now ms] by (auto simp: jget_None_iff)
      then show ?thesis using None Cons.IH [OF ms(1)] prune_None [OF assms(2) None, of q] e by (auto simp: map_filter_simps)
    next
      case (Some e')
      then show ?thesis using Cons.IH [OF ms(1)] prune_Some [OF assms(2) Some, of q] e by (cases e') (auto simp: map_filter_simps)
    qed
  qed (simp add: map_filter_simps)
  from this [OF assms(1)] show ?thesis by (simp add: peer_records_def pruneOldRecords_def)
qed

lemma rewards_prune:
  "jwf (me_records m) \<Longrightarrow> now \<le> now' \<Longrightarrow> calculateRewards now' p q (pruneOldRecords now m) = calculateRewards now' p q m"
  by (simp add: calculateRewards_def peer_records_prune)

lemma no_usage_no_reward: "recent_usage now q (peer_records m p) = [] \<Longrightarrow> rc_totalReward (calculateRewards now p q m) = 0"
  by (simp add: calculateRewards_def rewards_of_def map_filter_simps)

text \<open>A fold over the peers where a peer without recent usage changes nothing.\<close>

lemma fold_prune:
  assumes "now \<le> now'" and "\<And>p a. Q a \<Longrightarrow> f p [] a = a" and "\<And>p rs a. Q a \<Longrightarrow> Q (f p rs a)" and "Q a"
  shows "fold (\<lambda>(p, rs). f p (recent_usage now' q rs)) (List.map_filter (prune_peer now) ms) a = fold (\<lambda>(p, rs). f p (recent_usage now' q rs)) ms a"
  using assms(4)
proof (induction ms arbitrary: a)
  case (Cons e ms)
  obtain k rs where e: "e = (k, rs)" by fastforce
  show ?case
  proof (cases "prune_peer now e")
    case None
    then show ?thesis using Cons.IH [OF Cons.prems] prune_None [OF assms(1) None, of q] e assms(2) Cons.prems by (simp add: map_filter_simps)
  next
    case (Some e')
    then show ?thesis using Cons.IH [OF assms(3) [OF Cons.prems]] prune_Some [OF assms(1) Some, of q] e by (cases e') (simp add: map_filter_simps)
  qed
qed (simp add: map_filter_simps)

definition reward_total :: "ResourceUsage list \<Rightarrow> number" where
  "reward_total rs = snd (rewards_of rs)"

lemma reward_fold:
  assumes "jwf ms" and "\<And>p rs. (p, rs) \<in> set ms \<Longrightarrow> peer_records m p = rs"
  shows "fold (\<lambda>(p, rs) t. fadd t (rc_totalReward (calculateRewards now p q m))) ms a = fold (\<lambda>(p, rs) t. fadd t (reward_total (recent_usage now q rs))) ms a"
proof (rule fold_cong [OF refl refl])
  fix e
  assume e: "e \<in> set ms"
  obtain p rs where p: "e = (p, rs)" by fastforce
  then have "peer_records m p = rs" using assms(2) e by simp
  then show "(case e of (p, rs) \<Rightarrow> \<lambda>t. fadd t (rc_totalReward (calculateRewards now p q m))) = (case e of (p, rs) \<Rightarrow> \<lambda>t. fadd t (reward_total (recent_usage now q rs)))"
    by (simp add: p calculateRewards_def reward_total_def split: prod.splits)
qed

lemma network_total:
  assumes "jwf (me_records m)"
  shows "nr_totalRewardsDistributed (getNetworkUsage now q m) = fold (\<lambda>(p, rs) t. fadd t (reward_total (recent_usage now q rs))) (me_records m) 0"
  unfolding getNetworkUsage_def Let_def using reward_fold [OF assms, of m now q 0] jget_mem [OF assms] by (simp add: peer_records_def)

text \<open>Pruning shows in no reading, now or later: nothing a period can still ask for is dropped. Only the number of known nodes may fall.\<close>

lemma pruning_is_invisible:
  assumes "jwf (me_records m)" and "now \<le> now'"
  shows "getUsage now' p q (pruneOldRecords now m) = getUsage now' p q m"
    and "getNetworkUsage now' q (pruneOldRecords now m) = (getNetworkUsage now' q m)\<lparr>nr_totalNodes := length (me_records (pruneOldRecords now m))\<rparr>"
    and "length (me_records (pruneOldRecords now m)) \<le> nr_totalNodes (getNetworkUsage now' q m)"
proof -
  show "getUsage now' p q (pruneOldRecords now m) = getUsage now' p q m"
    by (simp add: getUsage_def peer_records_prune [OF assms] rewards_prune [OF assms])
  have w: "jwf (me_records (pruneOldRecords now m))" using prune_wf [OF assms(1)] by (simp add: pruneOldRecords_def)
  have "fold (\<lambda>(p, rs). fold (add_network p) (recent_usage now' q rs)) (me_records (pruneOldRecords now m)) [] = fold (\<lambda>(p, rs). fold (add_network p) (recent_usage now' q rs)) (me_records m) []"
    unfolding pruneOldRecords_def using fold_prune [OF assms(2), of "\<lambda>_. True" "\<lambda>p. fold (add_network p)" "[]" q] by simp
  moreover have "nr_totalRewardsDistributed (getNetworkUsage now' q (pruneOldRecords now m)) = nr_totalRewardsDistributed (getNetworkUsage now' q m)"
    unfolding network_total [OF w] network_total [OF assms(1)]
    using fold_prune [OF assms(2), of is_double "\<lambda>p rs t. fadd t (reward_total rs)" 0 q "me_records m"] fl_double is_double_fl fl_0
    by (simp add: pruneOldRecords_def fadd_def reward_total_def rewards_of_def map_filter_simps) (metis fl_0 is_double_fl)
  ultimately show "getNetworkUsage now' q (pruneOldRecords now m) = (getNetworkUsage now' q m)\<lparr>nr_totalNodes := length (me_records (pruneOldRecords now m))\<rparr>"
    by (simp add: getNetworkUsage_def Let_def)
  have "length (List.map_filter (prune_peer now) ms) \<le> length ms" for ms by (induction ms) (auto simp: map_filter_simps split: option.splits)
  then show "length (me_records (pruneOldRecords now m)) \<le> nr_totalNodes (getNetworkUsage now' q m)"
    by (simp add: getNetworkUsage_def Let_def pruneOldRecords_def)
qed

lemma record_wf [inv_intros]: "jwf (me_records m) \<Longrightarrow> jwf (me_records (recordResourceUsage now p t u m))"
  by (simp add: recordResourceUsage_def)

text \<open>After a tick of the loop, a process started from the file has the records of this one.\<close>

lemma usage_survives_restart:
  assumes "jwf (me_records m)" and "me_timer m"
  shows "me_records (ResourceMeter_init (me_file (metering_tick now m))) = me_records (metering_tick now m)"
proof -
  have "fold (\<lambda>(p, rs). jset p rs) xs ys = ys @ xs" if "jwf (ys @ xs)" for xs ys :: usage_map
    using that
  proof (induction xs arbitrary: ys)
    case (Cons e xs)
    obtain k rs where e: "e = (k, rs)" by fastforce
    have "\<not> jhas ys k" using Cons.prems e by (auto simp: jwf_def jhas_iff)
    then show ?case using Cons.IH [of "ys @ [e]"] Cons.prems e by (simp add: jset_fresh)
  qed simp
  from this [of "[]"] prune_wf [OF assms(1)] assms(2) show ?thesis
    by (simp add: ResourceMeter_init_def load_usage_def metering_tick_def save_usage_def pruneOldRecords_def)
qed

end
