(* ===== verification/FileRegistry.thy ===== *)
theory FileRegistry
  imports Types JsText
begin

text \<open>
  \<^verbatim>\<open>FileRegistry\<close> (\<^verbatim>\<open>packages/node/src/platform/file-registry.ts\<close>): the files of a node that its agents have claimed for editing.
\<close>

section \<open>State and operations\<close>

record FileClaim =
  fc_filePath :: string
  fc_claimedBy :: peer_id
  fc_claimedAt :: time
  fc_expiresAt :: time

record file_registry =
  fr_claims :: "(string, FileClaim) jsmap"
  fr_ttlMs :: time

definition DEFAULT_TTL_MS :: time where
  "DEFAULT_TTL_MS = 15 * 60 * 1000"

definition FileRegistry_init :: "time option \<Rightarrow> file_registry" where
  "FileRegistry_init ttl = \<lparr>fr_claims = [], fr_ttlMs = (case ttl of None \<Rightarrow> DEFAULT_TTL_MS | Some t \<Rightarrow> t)\<rparr>"

definition normalize_path :: "string \<Rightarrow> string" where
  "normalize_path p = str_trim (slashes p)"

definition pruneExpired :: "time \<Rightarrow> file_registry \<Rightarrow> file_registry" where
  "pruneExpired now r = r\<lparr>fr_claims := filter (\<lambda>(p, c). \<not> fc_expiresAt c \<le> now) (fr_claims r)\<rparr>"

definition claimFile :: "time \<Rightarrow> string \<Rightarrow> peer_id \<Rightarrow> file_registry \<Rightarrow> file_registry \<times> bool" where
  "claimFile now path peer r =
     (let r1 = pruneExpired now r; p = normalize_path path;
          claim = r1\<lparr>fr_claims := jset p \<lparr>fc_filePath = p, fc_claimedBy = peer, fc_claimedAt = now, fc_expiresAt = now + fr_ttlMs r1\<rparr> (fr_claims r1)\<rparr>
      in case jget (fr_claims r1) p of Some c \<Rightarrow> if fc_claimedBy c \<noteq> peer then (r1, False) else (claim, True) | None \<Rightarrow> (claim, True))"

definition releaseFile :: "string \<Rightarrow> peer_id \<Rightarrow> file_registry \<Rightarrow> file_registry \<times> bool" where
  "releaseFile path peer r =
     (case jget (fr_claims r) (normalize_path path) of None \<Rightarrow> (r, False)
      | Some c \<Rightarrow> if fc_claimedBy c \<noteq> peer then (r, False) else (r\<lparr>fr_claims := jdel (normalize_path path) (fr_claims r)\<rparr>, True))"

definition checkClaim :: "time \<Rightarrow> string \<Rightarrow> peer_id \<Rightarrow> file_registry \<Rightarrow> file_registry \<times> FileClaim option" where
  "checkClaim now path peer r =
     (let r1 = pruneExpired now r
      in (r1, case jget (fr_claims r1) (normalize_path path) of None \<Rightarrow> None | Some c \<Rightarrow> if fc_claimedBy c = peer then None else Some c))"

definition clearAll :: "file_registry \<Rightarrow> file_registry \<times> nat" where
  "clearAll r = (r\<lparr>fr_claims := []\<rparr>, length (fr_claims r))"

definition listClaims :: "time \<Rightarrow> file_registry \<Rightarrow> file_registry \<times> FileClaim list" where
  "listClaims now r = (let r1 = pruneExpired now r in (r1, jvals (fr_claims r1)))"

section \<open>Exclusion\<close>

datatype registry_op = fo_claim time string peer_id | fo_release time string peer_id | fo_check time string peer_id | fo_list time

fun registry_step :: "registry_op \<Rightarrow> file_registry \<Rightarrow> file_registry" where
  "registry_step (fo_claim t p a) r = fst (claimFile t p a r)"
| "registry_step (fo_release t p a) r = fst (releaseFile p a r)"
| "registry_step (fo_check t p a) r = fst (checkClaim t p a r)"
| "registry_step (fo_list t) r = fst (listClaims t r)"

fun fo_time :: "registry_op \<Rightarrow> time" where
  "fo_time (fo_claim t p a) = t"
| "fo_time (fo_release t p a) = t"
| "fo_time (fo_check t p a) = t"
| "fo_time (fo_list t) = t"

fun releases :: "string \<Rightarrow> peer_id \<Rightarrow> registry_op \<Rightarrow> bool" where
  "releases p a (fo_release t q b) = (normalize_path q = p \<and> b = a)"
| "releases p a _ = False"

text \<open>The file is held by an agent until a time.\<close>

definition held_by :: "string \<Rightarrow> peer_id \<Rightarrow> time \<Rightarrow> file_registry \<Rightarrow> bool" where
  "held_by p a t r = (\<exists>c. jget (fr_claims r) p = Some c \<and> fc_claimedBy c = a \<and> t \<le> fc_expiresAt c)"

lemma jget_prune: "jwf m \<Longrightarrow> jget (filter (\<lambda>(p, c). P c) m) k = (case jget m k of None \<Rightarrow> None | Some c \<Rightarrow> if P c then Some c else None)"
proof (induction m)
  case (Cons e m)
  obtain a c where e: "e = (a, c)" by fastforce
  have "jget (filter (\<lambda>(p, c). P c) m) a = None" using Cons.prems e by (auto simp: jget_None_iff jwf_def)
  then show ?case using Cons e by (auto simp: jwf_def)
qed simp

lemma registry_wf: "jwf (fr_claims r) \<Longrightarrow> jwf (fr_claims (registry_step op r))" "fr_ttlMs (registry_step op r) = fr_ttlMs r"
proof -
  have f: "jwf m \<Longrightarrow> jwf (filter P m)" for m :: "(string, FileClaim) jsmap" and P by (simp add: jwf_def distinct_map_filter)
  show "jwf (fr_claims r) \<Longrightarrow> jwf (fr_claims (registry_step op r))"
    by (cases op) (auto simp: claimFile_def releaseFile_def checkClaim_def listClaims_def pruneExpired_def Let_def f split: option.splits)
  show "fr_ttlMs (registry_step op r) = fr_ttlMs r"
    by (cases op) (auto simp: claimFile_def releaseFile_def checkClaim_def listClaims_def pruneExpired_def Let_def split: option.splits)
qed

lemma claim_kept:
  assumes "jwf (fr_claims r)" "held_by p a e r" "fo_time op < e" "e \<le> fo_time op + fr_ttlMs r" "\<not> releases p a op"
  shows "held_by p a e (registry_step op r)"
proof -
  obtain c where c: "jget (fr_claims r) p = Some c" "fc_claimedBy c = a" "e \<le> fc_expiresAt c" using assms(2) by (auto simp: held_by_def)
  then show ?thesis using assms
    by (cases op) (auto simp: held_by_def claimFile_def releaseFile_def checkClaim_def listClaims_def pruneExpired_def Let_def jget_prune split: option.splits)
qed

text \<open>An agent that claimed a file keeps it: no other agent gets a claim of the same file, however it is spelt, before the time is over, whatever
  other calls are made, as long as the agent does not release it.\<close>

lemma claims_are_exclusive:
  assumes "jwf (fr_claims r)" and "snd (claimFile t path a r)" and "normalize_path path' = normalize_path path" and "b \<noteq> a"
    and "\<And>op. op \<in> set ops \<Longrightarrow> t \<le> fo_time op \<and> fo_time op < t + fr_ttlMs r \<and> \<not> releases (normalize_path path) a op"
    and "t' < t + fr_ttlMs r"
  shows "\<not> snd (claimFile t' path' b (fold registry_step ops (fst (claimFile t path a r))))"
proof -
  let ?r = "fst (claimFile t path a r)"
  have r: "jwf (fr_claims ?r)" "fr_ttlMs ?r = fr_ttlMs r" using registry_wf [where r = r and op = "fo_claim t path a"] assms(1) by simp_all
  have h: "held_by (normalize_path path) a (t + fr_ttlMs r) ?r"
    using assms(2) by (auto simp: held_by_def claimFile_def pruneExpired_def Let_def split: option.splits if_splits)
  have "held_by (normalize_path path) a (t + fr_ttlMs r) (fold registry_step ops s) \<and> jwf (fr_claims (fold registry_step ops s))"
    if "held_by (normalize_path path) a (t + fr_ttlMs r) s" "jwf (fr_claims s)" "fr_ttlMs s = fr_ttlMs r" for s
    using that assms(5)
  proof (induction ops arbitrary: s)
    case (Cons op ops)
    have "held_by (normalize_path path) a (t + fr_ttlMs r) (registry_step op s)"
      by (rule claim_kept) (use Cons.prems(4) [of op] Cons.prems(1-3) in auto)
    then show ?case using Cons.IH [of "registry_step op s"] Cons.prems(2-4) registry_wf by simp
  qed simp
  from this [OF h r] show ?thesis using assms(3,4,6) by (auto simp: claimFile_def pruneExpired_def Let_def held_by_def jget_prune)
qed

end
