(* ===== verification/Scheduler.thy ===== *)
theory Scheduler
  imports TaskClaims ResourceRouting ResourceMeter FileRegistry Ledger
begin

text \<open>
  \<^verbatim>\<open>Scheduler\<close> (\<^verbatim>\<open>packages/node/src/platform/scheduler.ts\<close>): the queue of approved tasks on top of the task queue, the reports of
  finished tasks, and the completion of parent tasks, which climbs from parent to parent.
  Events emitted and callbacks called are logged in the state; what listeners do in turn is not
  part of a call. An approved profile is named by its id. A poll runs without interruption, so its guard against overlapping polls is left
  out, as are the per-task output streams beyond their keys and the reading of log files. A hyphen stands for the dash in texts.
\<close>

section \<open>State\<close>

record SchedulerConfig =
  sf_pollIntervalMs :: time
  sf_maxConcurrentTasks :: nat
  sf_maxTaskDepth :: nat
  sf_workspaceBaseDir :: string
  sf_apiPort :: nat

datatype sched_event =
    se_approved string "string option"
  | se_completed string string "string option"
  | se_failed string string
  | se_reputation string string "bool option"
  | se_reward string string
  | se_result string bool string

text \<open>\<open>sc_interval\<close> is the interval of the poll timer, if it runs; \<open>sc_canExecute\<close> what the capability registry, once attached, answers.\<close>

record scheduler =
  sc_config :: SchedulerConfig
  sc_queue :: task_queue
  sc_fileRegistry :: "file_registry option"
  sc_running :: bool
  sc_interval :: "time option"
  sc_emitters :: "string list"
  sc_cleanupCounter :: nat
  sc_lastArchiveTime :: time
  sc_hasReputation :: bool
  sc_hasRewards :: bool
  sc_scorer :: "(string \<Rightarrow> number option) option"
  sc_nodeCapabilities :: "string list"
  sc_canExecute :: "(string list \<Rightarrow> bool) option"
  sc_router :: "resource_router option"
  sc_meter :: "resource_meter option"
  sc_approvedQueue :: "string list"
  sc_approvedProfiles :: "(string, string) jsmap"
  sc_approvedManagers :: "(string, string) jsmap"
  sc_resultCallbacks :: "string list"
  sc_totalProcessed :: nat
  sc_totalSucceeded :: nat
  sc_totalFailed :: nat
  sc_events :: "sched_event list"

definition MAX_QUEUE_SIZE :: nat where
  "MAX_QUEUE_SIZE = 10000"

definition DEFAULT_SCHEDULER_CONFIG :: "string \<Rightarrow> SchedulerConfig" where
  "DEFAULT_SCHEDULER_CONFIG home = \<lparr>sf_pollIntervalMs = 10000, sf_maxConcurrentTasks = 2, sf_maxTaskDepth = 3,
     sf_workspaceBaseDir = path_join (path_join home ''.pando'') ''workspaces'', sf_apiPort = 4000\<rparr>"

definition Scheduler_init :: "SchedulerConfig \<Rightarrow> task_queue \<Rightarrow> bool \<Rightarrow> scheduler" where
  "Scheduler_init config q rewards =
     \<lparr>sc_config = config, sc_queue = q, sc_fileRegistry = None, sc_running = False, sc_interval = None, sc_emitters = [], sc_cleanupCounter = 0,
      sc_lastArchiveTime = 0, sc_hasReputation = False, sc_hasRewards = rewards, sc_scorer = None, sc_nodeCapabilities = [], sc_canExecute = None,
      sc_router = None, sc_meter = None, sc_approvedQueue = [], sc_approvedProfiles = [], sc_approvedManagers = [], sc_resultCallbacks = [],
      sc_totalProcessed = 0, sc_totalSucceeded = 0, sc_totalFailed = 0, sc_events = []\<rparr>"

definition on_queue :: "(task_queue \<Rightarrow> task_queue) \<Rightarrow> scheduler \<Rightarrow> scheduler" where
  "on_queue f s = s\<lparr>sc_queue := f (sc_queue s)\<rparr>"

definition emit_sched :: "sched_event \<Rightarrow> scheduler \<Rightarrow> scheduler" where
  "emit_sched e s = s\<lparr>sc_events := sc_events s @ [e]\<rparr>"

definition sched_task :: "scheduler \<Rightarrow> string \<Rightarrow> Task option" where
  "sched_task s i = getTask (sc_queue s) i"

text \<open>An entry of a task's timeline; the queue adds the time.\<close>

definition log_event :: "(time \<Rightarrow> string) \<Rightarrow> time \<Rightarrow> string \<Rightarrow> string \<Rightarrow> string \<Rightarrow> (string \<times> meta_value) list option \<Rightarrow> scheduler \<Rightarrow> scheduler" where
  "log_event isostr now i event detail meta =
     on_queue (pushTimelineEvent isostr now i \<lparr>te_timestamp = [], te_event = event, te_detail = detail, te_metadata = meta\<rparr> True)"

definition with_status :: "TaskStatus list \<Rightarrow> scheduler \<Rightarrow> Task list" where
  "with_status ss s = td_getTasks \<lparr>qu_status = Some ss, qu_priority = None, qu_assignedTo = None, qu_limit = None\<rparr> (tq_db (sc_queue s))"

definition status_text :: "TaskStatus \<Rightarrow> string" where
  "status_text st =
     (case st of ts_open \<Rightarrow> ''open'' | ts_claimed \<Rightarrow> ''claimed'' | ts_in_progress \<Rightarrow> ''in_progress'' | ts_review \<Rightarrow> ''review'' | ts_done \<Rightarrow> ''done''
      | ts_rejected \<Rightarrow> ''rejected'' | ts_archived \<Rightarrow> ''archived'' | ts_expired \<Rightarrow> ''expired'' | ts_other x \<Rightarrow> x)"

definition comma_list :: "string list \<Rightarrow> string" where
  "comma_list xs = (case xs of [] \<Rightarrow> [] | y # ys \<Rightarrow> y @ concat (map (\<lambda>x. '', '' @ x) ys))"

definition finished :: "TaskStatus \<Rightarrow> bool" where
  "finished st = (st = ts_done \<or> st = ts_rejected)"

section \<open>Approved tasks\<close>

definition resources_missing :: "scheduler \<Rightarrow> Task \<Rightarrow> string list option" where
  "resources_missing s t =
     (case sc_canExecute s of None \<Rightarrow> None
      | Some can \<Rightarrow> (case tk_requiredResources t of None \<Rightarrow> None | Some rs \<Rightarrow> if rs \<noteq> [] \<and> \<not> can rs then Some rs else None))"

definition score_of_manager :: "(string \<Rightarrow> number option) \<Rightarrow> string \<Rightarrow> number" where
  "score_of_manager f m = (case f m of None \<Rightarrow> 0 | Some x \<Rightarrow> x)"

definition manager_of :: "scheduler \<Rightarrow> string \<Rightarrow> string" where
  "manager_of s i = (case jget (sc_approvedManagers s) i of None \<Rightarrow> [] | Some m \<Rightarrow> m)"

fun insert_ranked :: "(string \<Rightarrow> number) \<Rightarrow> number \<Rightarrow> string \<Rightarrow> string list \<Rightarrow> string list" where
  "insert_ranked rank x i [] = [i]"
| "insert_ranked rank x i (j # js) = (if rank j < x then i # j # js else j # insert_ranked rank x i js)"

definition enqueue_approved :: "string \<Rightarrow> string \<Rightarrow> scheduler \<Rightarrow> scheduler" where
  "enqueue_approved i manager s =
     (case sc_scorer s of
        Some f \<Rightarrow> if sc_approvedQueue s \<noteq> []
          then s\<lparr>sc_approvedQueue := insert_ranked (\<lambda>j. score_of_manager f (manager_of s j)) (score_of_manager f manager) i (sc_approvedQueue s)\<rparr>
          else s\<lparr>sc_approvedQueue := sc_approvedQueue s @ [i]\<rparr>
      | None \<Rightarrow> s\<lparr>sc_approvedQueue := sc_approvedQueue s @ [i]\<rparr>)"

definition receiveApprovedTask :: "(time \<Rightarrow> string) \<Rightarrow> time \<Rightarrow> string \<Rightarrow> string \<Rightarrow> string option \<Rightarrow> scheduler \<Rightarrow> scheduler" where
  "receiveApprovedTask isostr now i manager profile s =
     (if MAX_QUEUE_SIZE \<le> length (sc_approvedQueue s) then s
      else case sched_task s i of None \<Rightarrow> s
      | Some t \<Rightarrow>
        (case resources_missing s t of
           Some rs \<Rightarrow> log_event isostr now i ''capability_rejected'' (''Local node cannot execute: missing resources ['' @ comma_list rs @ '']'')
             (Some [(''managerId'', md_text manager), (''missingResources'', md_texts rs)]) s
         | None \<Rightarrow>
             let s1 = (case profile of None \<Rightarrow> s | Some p \<Rightarrow> s\<lparr>sc_approvedProfiles := jset i p (sc_approvedProfiles s)\<rparr>);
                 s2 = s1\<lparr>sc_approvedManagers := jset i manager (sc_approvedManagers s1)\<rparr>;
                 s3 = log_event isostr now i ''manager_approved''
                   (''Task approved by manager '' @ manager @ (case profile of None \<Rightarrow> [] | Some p \<Rightarrow> '' with profile '' @ p))
                   (Some ((''managerId'', md_text manager) # (case profile of None \<Rightarrow> [] | Some p \<Rightarrow> [(''profileId'', md_text p)]))) s2
             in emit_sched (se_approved i (tk_managerId t)) (enqueue_approved i manager s3)))"

definition forget_approval :: "string \<Rightarrow> scheduler \<Rightarrow> scheduler" where
  "forget_approval i s = s\<lparr>sc_approvedProfiles := jdel i (sc_approvedProfiles s), sc_approvedManagers := jdel i (sc_approvedManagers s)\<rparr>"

definition dependency_open :: "scheduler \<Rightarrow> string \<Rightarrow> bool" where
  "dependency_open s d = (case sched_task s d of None \<Rightarrow> True | Some t \<Rightarrow> \<not> finished (tk_status t) \<and> tk_status t \<noteq> ts_archived)"

definition capabilities_missing :: "scheduler \<Rightarrow> Task \<Rightarrow> bool" where
  "capabilities_missing s t =
     (let required = (case tk_requiredCapabilities t of None \<Rightarrow> [nc_value CLAUDE_CODE] | Some cs \<Rightarrow> if cs = [] then [nc_value CLAUDE_CODE] else cs)
      in list_ex (\<lambda>c. c \<notin> set (sc_nodeCapabilities s)) required)"

definition finished_parent :: "scheduler \<Rightarrow> Task \<Rightarrow> (string \<times> TaskStatus) option" where
  "finished_parent s t =
     (case tk_parentTask t of None \<Rightarrow> None
      | Some p \<Rightarrow> (case sched_task s p of None \<Rightarrow> None | Some u \<Rightarrow> if finished (tk_status u) then Some (p, tk_status u) else None))"

definition title_words :: "string \<Rightarrow> string list" where
  "title_words s = remdups (filter (\<lambda>w. w \<noteq> []) (split_at (\<lambda>c. \<not> word_char c) [] (map js_lower s)))"

definition wordOverlapRatio :: "string \<Rightarrow> string \<Rightarrow> number" where
  "wordOverlapRatio a b =
     (let A = title_words a; B = title_words b in
      if A = [] \<and> B = [] then 1 else if A = [] \<or> B = [] then 0
      else fdiv (of_nat (length (filter (\<lambda>w. w \<in> set B) A))) (of_nat (max (length A) (length B))))"

definition done_before :: "time \<Rightarrow> scheduler \<Rightarrow> Task \<Rightarrow> Task option" where
  "done_before now s t =
     find (\<lambda>u. fl (8 / 10) < wordOverlapRatio (tk_title t) (tk_title u))
       (filter (\<lambda>u. now - 24 * 60 * 60 * 1000 \<le> tk_updatedAt u) (with_status [ts_done] s))"

text \<open>A task refused at the head of the queue.\<close>

definition refuse_task ::
  "(time \<Rightarrow> string) \<Rightarrow> time \<Rightarrow> string \<Rightarrow> string \<Rightarrow> (string \<times> meta_value) list \<Rightarrow> string \<Rightarrow> string \<Rightarrow> scheduler \<Rightarrow> scheduler" where
  "refuse_task isostr now i detail meta note err s =
     (let s1 = log_event isostr now i ''rejected'' detail (Some meta) (forget_approval i s);
          s2 = on_queue (\<lambda>q. fst (updateStatus now i ts_rejected None q)) s1;
          s3 = on_queue (setResultNote now i note) s2
      in emit_sched (se_failed i err) s3)"

text \<open>One \<^verbatim>\<open>continue\<close> of the loop for each task; a task that waits for another goes to the end of the queue and ends the call.\<close>

fun dequeue_from :: "(time \<Rightarrow> string) \<Rightarrow> time \<Rightarrow> string list \<Rightarrow> scheduler \<Rightarrow> scheduler \<times> (string \<times> string option) option" where
  "dequeue_from isostr now [] s = (s\<lparr>sc_approvedQueue := []\<rparr>, None)"
| "dequeue_from isostr now (i # is) s =
     (case sched_task s i of None \<Rightarrow> dequeue_from isostr now is s
      | Some t \<Rightarrow>
        if tk_status t \<noteq> ts_open then dequeue_from isostr now is (forget_approval i s)
        else if list_ex (dependency_open s) (tk_dependencies t) then (s\<lparr>sc_approvedQueue := is @ [i]\<rparr>, None)
        else if resources_missing s t \<noteq> None \<or> capabilities_missing s t then dequeue_from isostr now is (forget_approval i s)
        else (case finished_parent s t of
            Some (p, st) \<Rightarrow> dequeue_from isostr now is (refuse_task isostr now i (''Parent task '' @ status_text st @ '': '' @ p)
              [(''parentTaskId'', md_text p), (''parentStatus'', md_text (status_text st))] (''Parent task already '' @ status_text st)
              (''Parent task already '' @ status_text st) s)
          | None \<Rightarrow> (case done_before now s t of
              Some u \<Rightarrow> dequeue_from isostr now is (refuse_task isostr now i (''Similar task already completed: '' @ tk_id u)
                [(''dupTaskId'', md_text (tk_id u)), (''dupTaskTitle'', md_text (tk_title u))] (''Similar task already completed: '' @ tk_id u)
                (''Dedup: similar to '' @ take 8 (tk_id u)) s)
            | None \<Rightarrow> ((forget_approval i s)\<lparr>sc_approvedQueue := is\<rparr>, Some (i, jget (sc_approvedProfiles s) i)))))"

definition dequeueApproved :: "(time \<Rightarrow> string) \<Rightarrow> time \<Rightarrow> scheduler \<Rightarrow> scheduler \<times> (string \<times> string option) option" where
  "dequeueApproved isostr now s = dequeue_from isostr now (sc_approvedQueue s) s"

definition getApprovedQueueLength :: "scheduler \<Rightarrow> nat" where
  "getApprovedQueueLength s = length (sc_approvedQueue s)"

section \<open>Parents and children\<close>

text \<open>An unfinished child of a finished parent is rejected, if its status allows; its note changes in any case.\<close>

definition cancel_child :: "(time \<Rightarrow> string) \<Rightarrow> time \<Rightarrow> Task \<Rightarrow> string \<Rightarrow> scheduler \<Rightarrow> scheduler" where
  "cancel_child isostr now parent c s =
     (case sched_task s c of None \<Rightarrow> s
      | Some u \<Rightarrow>
        if finished (tk_status u) then s
        else let reason = ''Orphaned: parent task '' @ take 8 (tk_id parent) @ '' completed directly'';
                 s1 = log_event isostr now c ''cancelled'' reason
                   (Some [(''parentTaskId'', md_text (tk_id parent)), (''parentStatus'', md_text (status_text (tk_status parent)))]) s;
                 s2 = on_queue (\<lambda>q. fst (updateStatus now c ts_rejected None q)) s1
             in on_queue (setResultNote now c reason) s2)"

definition cancelOrphanedChildren :: "(time \<Rightarrow> string) \<Rightarrow> time \<Rightarrow> Task \<Rightarrow> scheduler \<Rightarrow> scheduler" where
  "cancelOrphanedChildren isostr now parent s = fold (cancel_child isostr now parent) (tk_childTasks parent) s"

definition child_status :: "scheduler \<Rightarrow> string \<Rightarrow> TaskStatus option" where
  "child_status s c = map_option tk_status (sched_task s c)"

definition no_info :: completion_info where
  "no_info = \<lparr>ci_executedByNode = None, ci_output = None, ci_duration = None, ci_cost = None\<rparr>"

definition complete_parent :: "(time \<Rightarrow> string) \<Rightarrow> time \<Rightarrow> Task \<Rightarrow> string list \<Rightarrow> scheduler \<Rightarrow> scheduler" where
  "complete_parent isostr now t kids s =
     (let s1 = log_event isostr now (tk_id t) ''completed'' ''All subtasks completed successfully - parent task done (cascade)''
                 (Some [(''childTasks'', md_texts (tk_childTasks t)), (''childCount'', md_int (int (length kids)))]) s;
          note = ''Parent task completed: all '' @ show_nat (length (tk_childTasks t)) @ '' subtasks done''
      in emit_sched (se_completed (tk_id t) ''All subtasks completed'' None)
           (on_queue (\<lambda>q. fst (completeTask isostr now (tk_id t) (Some (no_result\<lparr>rs_buildPassed := Some True, rs_note := Some note\<rparr>)) no_info q)) s1))"

definition reject_parent :: "(time \<Rightarrow> string) \<Rightarrow> time \<Rightarrow> Task \<Rightarrow> string list \<Rightarrow> scheduler \<Rightarrow> scheduler" where
  "reject_parent isostr now t kids s =
     (let bad = length (filter (\<lambda>c. child_status s c = Some ts_rejected) kids);
          of_kids = show_nat bad @ '' of '' @ show_nat (length kids);
          s1 = log_event isostr now (tk_id t) ''rejected'' (''Parent rejected: '' @ of_kids @ '' subtasks were rejected'')
                 (Some [(''childTasks'', md_texts (tk_childTasks t)), (''childCount'', md_int (int (length kids))), (''rejectedCount'', md_int (int bad))]) s;
          s2 = on_queue (\<lambda>q. fst (updateStatus now (tk_id t) ts_rejected None q)) s1;
          s3 = on_queue (setResultNote now (tk_id t) (''Parent rejected: '' @ of_kids @ '' subtasks failed'')) s2
      in emit_sched (se_failed (tk_id t) ''Some subtasks were rejected'') s3)"

definition finish_parent :: "(time \<Rightarrow> string) \<Rightarrow> time \<Rightarrow> Task \<Rightarrow> string list \<Rightarrow> scheduler \<Rightarrow> scheduler" where
  "finish_parent isostr now t kids s =
     (if list_all (\<lambda>c. child_status s c = Some ts_done) kids then complete_parent isostr now t kids s else reject_parent isostr now t kids s)"

definition other_children :: "Task \<Rightarrow> string list" where
  "other_children t = filter (\<lambda>c. c \<noteq> tk_id t) (tk_childTasks t)"

definition children_finished :: "scheduler \<Rightarrow> Task \<Rightarrow> bool" where
  "children_finished s t =
     (other_children t \<noteq> [] \<and> list_all (\<lambda>c. case child_status s c of None \<Rightarrow> False | Some st \<Rightarrow> finished st) (other_children t))"

text \<open>The recursion to the parent's parent has no bound in the code. A call that does not return is \<open>None\<close>; in JavaScript it ends with
  an overflow of the stack.\<close>

partial_function (option) checkParentCompletion :: "(time \<Rightarrow> string) \<Rightarrow> time \<Rightarrow> string \<Rightarrow> scheduler \<Rightarrow> scheduler option" where
  "checkParentCompletion isostr now p s =
     (case sched_task s p of None \<Rightarrow> Some s
      | Some t \<Rightarrow>
        if tk_status t = ts_done then Some (cancelOrphanedChildren isostr now t s)
        else if \<not> children_finished s t \<or> tk_status t = ts_rejected then Some s
        else (case tk_parentTask t of
            None \<Rightarrow> Some (finish_parent isostr now t (other_children t) s)
          | Some g \<Rightarrow> checkParentCompletion isostr now g (finish_parent isostr now t (other_children t) s)))"

text \<open>The scan, over the candidates found at its start.\<close>

fun scan_parents :: "(time \<Rightarrow> string) \<Rightarrow> time \<Rightarrow> Task list \<Rightarrow> scheduler \<Rightarrow> scheduler option" where
  "scan_parents isostr now [] s = Some s"
| "scan_parents isostr now (t # ts) s =
     (if \<not> children_finished s t then scan_parents isostr now ts s
      else case checkParentCompletion isostr now (tk_id t) s of None \<Rightarrow> None | Some s' \<Rightarrow> scan_parents isostr now ts s')"

definition safetyNetParentCompletionScan :: "(time \<Rightarrow> string) \<Rightarrow> time \<Rightarrow> scheduler \<Rightarrow> scheduler option" where
  "safetyNetParentCompletionScan isostr now s = scan_parents isostr now (with_status [ts_open, ts_claimed, ts_in_progress] s) s"

section \<open>Reports\<close>

definition onTaskResult :: "string \<Rightarrow> scheduler \<Rightarrow> scheduler" where
  "onTaskResult i s = s\<lparr>sc_resultCallbacks := sadd i (sc_resultCallbacks s)\<rparr>"

definition fireResultCallback :: "string \<Rightarrow> bool \<Rightarrow> string \<Rightarrow> scheduler \<Rightarrow> scheduler" where
  "fireResultCallback i success output s =
     (if i \<notin> set (sc_resultCallbacks s) then s else emit_sched (se_result i success output) (s\<lparr>sc_resultCallbacks := sdel i (sc_resultCallbacks s)\<rparr>))"

definition report_title :: "scheduler \<Rightarrow> string \<Rightarrow> string" where
  "report_title s i = (case sched_task s i of None \<Rightarrow> i | Some t \<Rightarrow> if tk_title t = [] then i else tk_title t)"

definition meter_task :: "time \<Rightarrow> string \<Rightarrow> TaskCost option \<Rightarrow> scheduler \<Rightarrow> scheduler" where
  "meter_task now i spent s =
     (case (sc_meter s, map_option tc_durationMs spent) of
        (Some m, Some (Some d)) \<Rightarrow>
          if d = 0 then s
          else s\<lparr>sc_meter := Some (recordResourceUsage now (tq_localPeerId (sc_queue s)) ''compute_cpu''
            \<lparr>us_resourceType = ''compute_cpu'', us_quantity = fdiv (of_int d) 60000, us_unit = ''minutes'', us_taskId = Some i, us_timestamp = now\<rparr> m)\<rparr>
      | _ \<Rightarrow> s)"

definition on_router :: "(peer_id \<Rightarrow> resource_router \<Rightarrow> resource_router) \<Rightarrow> scheduler \<Rightarrow> scheduler" where
  "on_router f s =
     (case sc_router s of None \<Rightarrow> s
      | Some r \<Rightarrow> if tq_localPeerId (sc_queue s) = [] then s else s\<lparr>sc_router := Some (f (tq_localPeerId (sc_queue s)) r)\<rparr>)"

definition when_set :: "bool \<Rightarrow> sched_event \<Rightarrow> scheduler \<Rightarrow> scheduler" where
  "when_set b e s = (if b then emit_sched e s else s)"

definition reportTaskCompleted :: "(time \<Rightarrow> string) \<Rightarrow> time \<Rightarrow> string \<Rightarrow> string \<Rightarrow> TaskCost option \<Rightarrow> scheduler \<Rightarrow> scheduler option" where
  "reportTaskCompleted isostr now i output spent s =
     (let ttl = report_title s i;
          s1 = s\<lparr>sc_totalProcessed := Suc (sc_totalProcessed s), sc_totalSucceeded := Suc (sc_totalSucceeded s)\<rparr>;
          s2 = emit_sched (se_completed i (take 500 output) (Some ttl)) s1;
          s3 = when_set (sc_hasReputation s) (se_reputation ''task_completed'' (''Task completed: '' @ take 50 ttl) (Some True)) s2;
          s4 = when_set (sc_hasRewards s) (se_reward ''task_completed'' (''task completed: '' @ take 50 ttl)) s3;
          s5 = on_router (\<lambda>p. reportResourceRecovery p ''compute_cpu'') (meter_task now i spent s4)
      in map_option (fireResultCallback i True (take 2000 output))
           (case sched_task s i of None \<Rightarrow> Some s5
            | Some t \<Rightarrow> (case tk_parentTask t of None \<Rightarrow> Some s5 | Some p \<Rightarrow> checkParentCompletion isostr now p s5)))"

definition reportTaskFailed :: "time \<Rightarrow> string \<Rightarrow> string \<Rightarrow> scheduler \<Rightarrow> scheduler" where
  "reportTaskFailed now i err s =
     (let ttl = report_title s i;
          s1 = s\<lparr>sc_totalProcessed := Suc (sc_totalProcessed s), sc_totalFailed := Suc (sc_totalFailed s)\<rparr>;
          s2 = emit_sched (se_failed i err) s1;
          s3 = when_set (sc_hasReputation s) (se_reputation ''task_failed'' (''Task failed: '' @ take 50 ttl @ '': '' @ take 80 err) None) s2
      in fireResultCallback i False err (on_router (\<lambda>p. reportResourceFailure now p ''compute_cpu'' err) s3))"

section \<open>Start, stop and poll\<close>

text \<open>A task counts as another node's only if it was claimed by that node and also carries the node that executed it.\<close>

definition runs_elsewhere :: "Task \<Rightarrow> bool" where
  "runs_elsewhere t = (truthy (tk_claimedByNode t) \<and> tk_claimedByNode t \<noteq> Some ''local'' \<and> truthy (tk_executedByNode t))"

definition recover_task :: "(time \<Rightarrow> string) \<Rightarrow> time \<Rightarrow> Task \<Rightarrow> scheduler \<Rightarrow> scheduler" where
  "recover_task isostr now t s =
     (if runs_elsewhere t then s
      else log_event isostr now (tk_id t) ''orphan_recovered''
        (''Reset from '' @ [CHR 0x27] @ status_text (tk_status t) @ [CHR 0x27] @ '' to '' @ [CHR 0x27] @ ''open'' @ [CHR 0x27] @ '' on startup (no active process)'') None
        (on_queue (\<lambda>q. fst (updateStatus now (tk_id t) ts_open None q)) s))"

definition recoverOrphanedTasks :: "(time \<Rightarrow> string) \<Rightarrow> time \<Rightarrow> scheduler \<Rightarrow> scheduler" where
  "recoverOrphanedTasks isostr now s = fold (recover_task isostr now) (with_status [ts_claimed] s @ with_status [ts_in_progress] s) s"

definition sweepStaleEmitters :: "scheduler \<Rightarrow> scheduler" where
  "sweepStaleEmitters s =
     s\<lparr>sc_emitters := filter (\<lambda>i. case sched_task s i of None \<Rightarrow> False | Some t \<Rightarrow> is_pending_status (tk_status t)) (sc_emitters s)\<rparr>"

definition archive_if_due :: "time \<Rightarrow> scheduler \<Rightarrow> scheduler" where
  "archive_if_due now s =
     (if 3600000 \<le> now - sc_lastArchiveTime s
      then on_queue (\<lambda>q. fst (archiveOldTasks now (7 * 24 * 60 * 60 * 1000) q)) (s\<lparr>sc_lastArchiveTime := now\<rparr>) else s)"

definition sched_poll :: "(time \<Rightarrow> string) \<Rightarrow> time \<Rightarrow> scheduler \<Rightarrow> scheduler option" where
  "sched_poll isostr now s =
     (if \<not> sc_running s then Some s
      else let s1 = on_queue (\<lambda>q. fst (cleanupExpiredTasks now q)) (s\<lparr>sc_cleanupCounter := Suc (sc_cleanupCounter s)\<rparr>);
               s2 = (if sc_cleanupCounter s1 mod 10 = 0 then sweepStaleEmitters s1 else s1)
           in map_option (archive_if_due now) (if sc_cleanupCounter s2 mod 6 = 0 then safetyNetParentCompletionScan isostr now s2 else Some s2))"

definition sched_start :: "(time \<Rightarrow> string) \<Rightarrow> time \<Rightarrow> scheduler \<Rightarrow> scheduler option" where
  "sched_start isostr now s =
     (if sc_running s then Some s
      else let s1 = recoverOrphanedTasks isostr now (s\<lparr>sc_running := True\<rparr>);
               s2 = s1\<lparr>sc_fileRegistry := map_option (\<lambda>r. fst (clearAll r)) (sc_fileRegistry s1)\<rparr>
           in map_option (\<lambda>s. s\<lparr>sc_interval := Some (sf_pollIntervalMs (sc_config s))\<rparr>) (sched_poll isostr now s2))"

definition sched_stop :: "scheduler \<Rightarrow> scheduler" where
  "sched_stop s = (if sc_running s then s\<lparr>sc_running := False, sc_interval := None\<rparr> else s)"

definition sched_updateConfig :: "time option \<Rightarrow> nat option \<Rightarrow> nat option \<Rightarrow> scheduler \<Rightarrow> scheduler" where
  "sched_updateConfig interval tasks depth s =
     (let c = sc_config s;
          c1 = (case interval of None \<Rightarrow> c | Some x \<Rightarrow> c\<lparr>sf_pollIntervalMs := x\<rparr>);
          c2 = (case tasks of None \<Rightarrow> c1 | Some x \<Rightarrow> c1\<lparr>sf_maxConcurrentTasks := x\<rparr>);
          c3 = (case depth of None \<Rightarrow> c2 | Some x \<Rightarrow> c2\<lparr>sf_maxTaskDepth := x\<rparr>)
      in s\<lparr>sc_config := c3, sc_interval := (if interval \<noteq> None \<and> sc_running s \<and> sc_interval s \<noteq> None then interval else sc_interval s)\<rparr>)"

record SchedulerStatus =
  ss_running :: bool
  ss_config :: SchedulerConfig
  ss_totalProcessed :: nat
  ss_totalSucceeded :: nat
  ss_totalFailed :: nat
  ss_approvedQueueLength :: nat

definition sched_getStatus :: "scheduler \<Rightarrow> SchedulerStatus" where
  "sched_getStatus s = \<lparr>ss_running = sc_running s, ss_config = sc_config s, ss_totalProcessed = sc_totalProcessed s,
     ss_totalSucceeded = sc_totalSucceeded s, ss_totalFailed = sc_totalFailed s, ss_approvedQueueLength = length (sc_approvedQueue s)\<rparr>"

definition getTaskEmitter :: "scheduler \<Rightarrow> string \<Rightarrow> bool" where
  "getTaskEmitter s i = (i \<in> set (sc_emitters s))"

definition setTaskEmitter :: "string \<Rightarrow> scheduler \<Rightarrow> scheduler" where
  "setTaskEmitter i s = s\<lparr>sc_emitters := sadd i (sc_emitters s)\<rparr>"

text \<open>The components attached after construction: file registry, reputation, scorer, capabilities, capability registry, router, meter.\<close>

datatype attachment = at_files file_registry | at_reputation | at_scorer "string \<Rightarrow> number option" | at_capabilities "string list"
  | at_registry "string list \<Rightarrow> bool" | at_router resource_router | at_meter resource_meter

fun attach :: "attachment \<Rightarrow> scheduler \<Rightarrow> scheduler" where
  "attach (at_files r) s = s\<lparr>sc_fileRegistry := Some r\<rparr>"
| "attach at_reputation s = s\<lparr>sc_hasReputation := True\<rparr>"
| "attach (at_scorer f) s = s\<lparr>sc_scorer := Some f\<rparr>"
| "attach (at_capabilities cs) s = s\<lparr>sc_nodeCapabilities := cs\<rparr>"
| "attach (at_registry f) s = s\<lparr>sc_canExecute := Some f\<rparr>"
| "attach (at_router r) s = s\<lparr>sc_router := Some r\<rparr>"
| "attach (at_meter m) s = s\<lparr>sc_meter := Some m\<rparr>"

section \<open>What the operations change\<close>

definition sched_db :: "scheduler \<Rightarrow> task_db" where
  "sched_db s = tq_db (sc_queue s)"

definition stat :: "scheduler \<Rightarrow> string \<Rightarrow> TaskStatus option" where
  "stat s i = status_of (sched_db s) i"

definition parent_link :: "scheduler \<Rightarrow> string \<Rightarrow> string option" where
  "parent_link s i = (case jget (td_tasks (sched_db s)) i of None \<Rightarrow> None | Some r \<Rightarrow> present (tr_parent_task r))"

definition kids :: "scheduler \<Rightarrow> string \<Rightarrow> string list" where
  "kids s i = filter (\<lambda>c. c \<noteq> i) (getChildren (sched_db s) i)"

definition same_links :: "scheduler \<Rightarrow> scheduler \<Rightarrow> bool" where
  "same_links s s' = (parent_link s' = parent_link s \<and> getChildren (sched_db s') = getChildren (sched_db s))"

definition alive :: "TaskStatus \<Rightarrow> bool" where
  "alive st = (st = ts_open \<or> st = ts_claimed \<or> st = ts_in_progress \<or> st = ts_review)"

named_theorems sched_simps

lemma live_transition: "alive st \<longleftrightarrow> \<not> finished st \<and> isValidTransition st ts_done" "\<not> finished st \<Longrightarrow> isValidTransition st ts_rejected \<longleftrightarrow> alive st"
  by (cases st; simp add: alive_def finished_def isValidTransition_def)+

lemma sched_task_facts:
  assumes "sched_task s i = Some t"
  shows "tk_id t = i" "stat s i = Some (tk_status t)" "tk_parentTask t = parent_link s i" "tk_childTasks t = getChildren (sched_db s) i" "other_children t = kids s i"
proof -
  obtain r where r: "jget (td_tasks (sched_db s)) i = Some r" "t = assembleFullTask (sched_db s) i r" "tr_status r = tk_status t"
    using getTask_row [of "sc_queue s" i t] assms by (auto simp: sched_task_def sched_db_def)
  show i: "tk_id t = i" and c: "tk_childTasks t = getChildren (sched_db s) i" unfolding r(2) by (simp_all add: assembleFullTask_def rowToTask_def)
  show "stat s i = Some (tk_status t)" using r(1,3) by (simp add: stat_def status_of_def)
  show "tk_parentTask t = parent_link s i" unfolding r(2) using r(1) by (simp add: parent_link_def assembleFullTask_def rowToTask_def)
  show "other_children t = kids s i" by (simp add: other_children_def kids_def i c)
qed

lemma sched_task_none: "sched_task s i = None \<longleftrightarrow> stat s i = None"
  by (simp add: sched_task_def getTask_def td_getTask_def stat_def sched_db_def status_of_def)

lemma child_status_stat: "child_status s c = stat s c"
  by (cases "sched_task s c") (simp_all add: child_status_def sched_task_facts(2) sched_task_none [THEN iffD1])

lemma stat_cong: "td_tasks (sched_db s') = td_tasks (sched_db s) \<Longrightarrow> stat s' = stat s \<and> parent_link s' = parent_link s"
  by (simp add: stat_def status_of_def parent_link_def fun_eq_iff)

lemma children_cong: "td_children d' = td_children d \<Longrightarrow> getChildren d' = getChildren d"
  by (simp add: getChildren_def fun_eq_iff)

lemma td_children_simps [simp]:
  "td_children (updateTask now i f d) = td_children d" "td_children (insertTimelineEvent i e d) = td_children d"
  "getChildren (updateTask now i f d) = getChildren d"
  by (simp_all add: updateTask_def insertTimelineEvent_def getChildren_def fun_eq_iff)

lemma cascade_children [simp]: "td_children (cascade_reject isostr now p c d) = td_children d"
  by (simp add: cascade_reject_def split: option.split)

lemma approve_children [simp]: "td_children (approve_siblings isostr now i d) = td_children d"
proof -
  have "td_children (fold (approve_sibling isostr now i p) ss d) = td_children d" for p ss d
    by (induction ss arbitrary: d) (simp_all add: approve_sibling_def split: option.splits)
  then show ?thesis by (simp add: approve_siblings_def split: option.split)
qed

lemma sched_db_simps [simp]:
  "sched_db (on_queue f s) = tq_db (f (sc_queue s))" "sched_db (emit_sched e s) = sched_db s" "sched_db (forget_approval i s) = sched_db s"
  by (simp_all add: sched_db_def on_queue_def emit_sched_def forget_approval_def)

lemma log_tasks [simp]:
  "td_tasks (sched_db (log_event isostr now i ev detail meta s)) = td_tasks (sched_db s)"
  "td_children (sched_db (log_event isostr now i ev detail meta s)) = td_children (sched_db s)"
proof -
  have "td_children (tq_db (pushTimelineEvent isostr now i e b q)) = td_children (tq_db q)" for e b q
    by (simp add: pushTimelineEvent_def Let_def split: option.split)
  then show "td_tasks (sched_db (log_event isostr now i ev detail meta s)) = td_tasks (sched_db s)"
    "td_children (sched_db (log_event isostr now i ev detail meta s)) = td_children (sched_db s)"
    by (simp_all add: log_event_def sched_db_def on_queue_def)
qed

lemma log_links [simp]: "stat (log_event isostr now i ev detail meta s) = stat s" "same_links s (log_event isostr now i ev detail meta s)"
  using stat_cong [OF log_tasks(1)] children_cong [OF log_tasks(2)] by (simp_all add: same_links_def)

lemma emit_links [simp]: "stat (emit_sched e s) = stat s" "same_links s (emit_sched e s)"
  by (simp_all add: stat_def same_links_def parent_link_def fun_eq_iff)

text \<open>Changing one row's status, and whatever else but the parent.\<close>

lemma update_stat:
  assumes "sched_db s' = updateTask now i f (sched_db s)" and "\<And>r. tr_parent_task (f r) = tr_parent_task r"
  shows "same_links s s'" "(\<And>r. tr_status (f r) = g (tr_status r)) \<Longrightarrow> stat s' = (\<lambda>j. if j = i then map_option g (stat s j) else stat s j)"
proof -
  have "parent_link s' j = parent_link s j" for j
    by (cases "jget (td_tasks (sched_db s)) j") (auto simp: parent_link_def assms status_simps)
  then show "same_links s s'" by (simp add: same_links_def assms(1) fun_eq_iff)
  assume "\<And>r. tr_status (f r) = g (tr_status r)"
  then show "stat s' = (\<lambda>j. if j = i then map_option g (stat s j) else stat s j)"
    by (auto simp: stat_def status_of_def assms(1) status_simps option.map_comp comp_def fun_eq_iff)
qed

lemma note_links [simp]: "stat (on_queue (setResultNote now i note) s) = stat s" "same_links s (on_queue (setResultNote now i note) s)"
proof -
  have "sched_db (on_queue (setResultNote now i note) s) = updateTask now i (\<lambda>r. r\<lparr>tr_result := (tr_result r)\<lparr>rs_note := Some note\<rparr>\<rparr>) (sched_db s)"
    by (simp add: setResultNote_def sched_db_def on_queue_def)
  from update_stat(1) [OF this] update_stat(2) [OF this, where g = "\<lambda>x. x"]
  show "stat (on_queue (setResultNote now i note) s) = stat s" "same_links s (on_queue (setResultNote now i note) s)"
    by (simp_all add: fun_eq_iff option.map_ident)
qed

lemma same_links_refl [simp]: "same_links s s"
  by (simp add: same_links_def)

lemma same_links_trans: "same_links s s' \<Longrightarrow> same_links s' s'' \<Longrightarrow> same_links s s''"
  by (simp add: same_links_def)

lemma update_links:
  "stat (on_queue (\<lambda>q. fst (updateStatus now i st None q)) s) =
     (case stat s i of None \<Rightarrow> stat s | Some a \<Rightarrow> if isValidTransition a st then (stat s)(i := Some st) else stat s)"
  "same_links s (on_queue (\<lambda>q. fst (updateStatus now i st None q)) s)"
proof -
  let ?s = "on_queue (\<lambda>q. fst (updateStatus now i st None q)) s"
  have "stat ?s = (case stat s i of None \<Rightarrow> stat s | Some a \<Rightarrow> if isValidTransition a st then (stat s)(i := Some st) else stat s) \<and> same_links s ?s"
  proof (cases "getTask (sc_queue s) i")
    case None
    then show ?thesis using sched_task_none [of s i] by (simp add: sched_task_def updateStatus_def on_queue_def)
  next
    case (Some t)
    then have a: "stat s i = Some (tk_status t)" using sched_task_facts(2) [of s i t] by (simp add: sched_task_def)
    show ?thesis
    proof (cases "tk_status t \<noteq> st \<and> isValidTransition (tk_status t) st")
      case True
      then have "sched_db ?s = updateTask now i (\<lambda>r. r\<lparr>tr_status := st, tr_assigned_to := merge_field (tr_assigned_to r) None\<rparr>) (sched_db s)"
        using Some by (simp add: updateStatus_def sched_db_def on_queue_def)
      from update_stat(1) [OF this] update_stat(2) [OF this, where g = "\<lambda>_. st"] show ?thesis using a True by (auto simp: fun_eq_iff)
    next
      case False
      then have "?s = s" using Some by (auto simp: updateStatus_def on_queue_def)
      then show ?thesis using a False by (auto simp: fun_eq_iff)
    qed
  qed
  then show "stat ?s = (case stat s i of None \<Rightarrow> stat s | Some a \<Rightarrow> if isValidTransition a st then (stat s)(i := Some st) else stat s)" "same_links s ?s" by auto
qed

lemma cascade_none:
  assumes "\<And>c r. c \<in> set cs \<Longrightarrow> jget (td_tasks d) c = Some r \<Longrightarrow> tr_status r \<noteq> ts_open \<and> tr_status r \<noteq> ts_claimed"
  shows "fold (cascade_reject isostr now p) cs d = d"
  using assms by (induction cs) (auto simp: cascade_reject_def split: option.splits)

lemma children_finished_iff:
  assumes "sched_task s i = Some t"
  shows "children_finished s t \<longleftrightarrow> kids s i \<noteq> [] \<and> (\<forall>c \<in> set (kids s i). \<exists>st. stat s c = Some st \<and> finished st)"
  by (auto simp: children_finished_def sched_task_facts(5) [OF assms] child_status_stat list_all_iff split: option.splits)

text \<open>Completing a task whose other children are finished changes its own status only.\<close>

lemma complete_links:
  assumes t: "sched_task s i = Some t" and fin: "\<And>c. c \<in> set (kids s i) \<Longrightarrow> \<exists>st. stat s c = Some st \<and> finished st"
    and nf: "\<not> finished (tk_status t)"
  shows "stat (on_queue (\<lambda>q. fst (completeTask isostr now i result no_info q)) s) = (if alive (tk_status t) then (stat s)(i := Some ts_done) else stat s)"
    and "same_links s (on_queue (\<lambda>q. fst (completeTask isostr now i result no_info q)) s)"
proof -
  let ?s = "on_queue (\<lambda>q. fst (completeTask isostr now i result no_info q)) s"
  have g: "getTask (sc_queue s) i = Some t" using t by (simp add: sched_task_def)
  have nd: "tk_status t \<noteq> ts_done" using nf by (auto simp: finished_def)
  have "stat ?s = (if alive (tk_status t) then (stat s)(i := Some ts_done) else stat s) \<and> same_links s ?s"
  proof (cases "isValidTransition (tk_status t) ts_done")
    case False
    then have "?s = s" using g nd by (simp add: completeTask_def on_queue_def)
    then show ?thesis using False nf live_transition(1) by simp
  next
    case True
    let ?d = "updateTask now i (complete_fields (tq_localPeerId (sc_queue s)) result no_info) (sched_db s)"
    have "fold (cascade_reject isostr now i) (getChildren (sched_db s) i) ?d = ?d"
    proof (rule cascade_none)
      fix c r
      assume c: "c \<in> set (getChildren (sched_db s) i)" and r: "jget (td_tasks ?d) c = Some r"
      show "tr_status r \<noteq> ts_open \<and> tr_status r \<noteq> ts_claimed"
      proof (cases "c = i")
        case True
        then show ?thesis using r by (auto simp: status_simps complete_fields_def)
      next
        case False
        then have "c \<in> set (kids s i)" using c by (simp add: kids_def)
        then show ?thesis using fin [of c] r False by (auto simp: status_simps stat_def status_of_def finished_def)
      qed
    qed
    then have tasks: "td_tasks (sched_db ?s) = td_tasks ?d"
      using completeTask_db [OF g nd True, of isostr now result no_info] by (simp add: sched_db_def on_queue_def)
    have "td_children (fold (cascade_reject isostr now i) cs d) = td_children d" for cs d by (induction cs arbitrary: d) simp_all
    then have kids: "getChildren (sched_db ?s) = getChildren (sched_db s)"
      using g nd True by (intro children_cong) (simp add: completeTask_def sched_db_def on_queue_def Let_def split: option.split)
    define u where "u = s\<lparr>sc_queue := (sc_queue s)\<lparr>tq_db := ?d\<rparr>\<rparr>"
    have u: "sched_db u = ?d" by (simp add: u_def sched_db_def)
    have par: "tr_parent_task (complete_fields p result no_info r) = tr_parent_task r" "tr_status (complete_fields p result no_info r) = ts_done" for p r
      by (simp_all add: complete_fields_def)
    have "stat ?s = stat u \<and> parent_link ?s = parent_link u" using tasks by (intro stat_cong) (simp add: u)
    moreover have "same_links s u" "stat u = (\<lambda>j. if j = i then map_option (\<lambda>_. ts_done) (stat s j) else stat s j)"
      using update_stat(1) [OF u] update_stat(2) [OF u, where g = "\<lambda>_. ts_done"] par by auto
    ultimately show ?thesis using kids live_transition(1) nf True sched_task_facts(2) [OF t] by (auto simp: same_links_def fun_eq_iff)
  qed
  then show "stat ?s = (if alive (tk_status t) then (stat s)(i := Some ts_done) else stat s)" "same_links s ?s" by auto
qed

lemma same_kids: "same_links s s' \<Longrightarrow> kids s' = kids s"
  by (simp add: same_links_def kids_def fun_eq_iff)

lemma sched_task_status: "sched_task s i = Some t \<Longrightarrow> stat s' = stat s \<Longrightarrow> \<exists>t'. sched_task s' i = Some t' \<and> tk_status t' = tk_status t"
  using sched_task_none [of s' i] sched_task_facts(2) [of s i t] sched_task_facts(2) [of s' i] by (cases "sched_task s' i") auto

text \<open>The outcome of a parent whose children are finished.\<close>

definition verdict :: "scheduler \<Rightarrow> string \<Rightarrow> TaskStatus" where
  "verdict s i = (if \<forall>c \<in> set (kids s i). stat s c = Some ts_done then ts_done else ts_rejected)"

lemma emit_after: "stat s' = f \<Longrightarrow> same_links s s' \<Longrightarrow> stat (emit_sched e s') = f \<and> same_links s (emit_sched e s')"
  by (auto intro: same_links_trans)

lemma complete_after:
  assumes t: "sched_task s i = Some t" and fin: "children_finished s t" and nf: "\<not> finished (tk_status t)" and l: "stat l = stat s" "same_links s l"
  shows "stat (on_queue (\<lambda>q. fst (completeTask isostr now i result no_info q)) l) = (if alive (tk_status t) then (stat s)(i := Some ts_done) else stat s) \<and>
    same_links s (on_queue (\<lambda>q. fst (completeTask isostr now i result no_info q)) l)"
proof -
  obtain t' where t': "sched_task l i = Some t'" "tk_status t' = tk_status t" using sched_task_status [OF t l(1)] by blast
  have kids: "\<exists>st. stat l c = Some st \<and> finished st" if "c \<in> set (kids l i)" for c
    using that fin by (auto simp: children_finished_iff [OF t] same_kids [OF l(2)] l(1))
  have "\<not> finished (tk_status t')" using nf t'(2) by simp
  from complete_links [OF t'(1) kids this, of isostr now result] show ?thesis
    using same_links_trans [OF l(2)] unfolding t'(2) l(1) by blast
qed

lemma reject_after:
  assumes "sched_task s i = Some t" and "\<not> finished (tk_status t)" and l: "stat l = stat s" "same_links s l"
  shows "stat (on_queue (setResultNote now i remark) (on_queue (\<lambda>q. fst (updateStatus now i ts_rejected None q)) l)) = (if alive (tk_status t) then (stat s)(i := Some ts_rejected) else stat s) \<and>
    same_links s (on_queue (setResultNote now i remark) (on_queue (\<lambda>q. fst (updateStatus now i ts_rejected None q)) l))"
proof -
  have "stat (on_queue (\<lambda>q. fst (updateStatus now i ts_rejected None q)) l) = (if alive (tk_status t) then (stat s)(i := Some ts_rejected) else stat s)"
    using live_transition(2) [OF assms(2)] sched_task_facts(2) [OF assms(1)] l(1) by (simp add: update_links(1))
  then show ?thesis using same_links_trans [OF same_links_trans [OF l(2) update_links(2)] note_links(2)] by simp
qed

lemma finish_links:
  assumes t: "sched_task s i = Some t" and fin: "children_finished s t" and nf: "\<not> finished (tk_status t)"
  shows "stat (finish_parent isostr now t (other_children t) s) = (if alive (tk_status t) then (stat s)(i := Some (verdict s i)) else stat s)"
    and "same_links s (finish_parent isostr now t (other_children t) s)"
proof -
  note facts = sched_task_facts [OF t]
  have "stat (finish_parent isostr now t (other_children t) s) = (if alive (tk_status t) then (stat s)(i := Some (verdict s i)) else stat s) \<and>
    same_links s (finish_parent isostr now t (other_children t) s)"
  proof (cases "list_all (\<lambda>c. child_status s c = Some ts_done) (other_children t)")
    case True
    then have v: "verdict s i = ts_done" by (simp add: verdict_def facts(5) child_status_stat list_all_iff)
    have c: "complete_parent isostr now t (other_children t) s = finish_parent isostr now t (other_children t) s" using True by (simp add: finish_parent_def)
    show ?thesis unfolding v c [symmetric] unfolding complete_parent_def Let_def facts(1)
      by (rule emit_after [OF complete_after [OF t fin nf log_links, THEN conjunct1] complete_after [OF t fin nf log_links, THEN conjunct2]])
  next
    case False
    then have v: "verdict s i = ts_rejected" by (auto simp: verdict_def facts(5) child_status_stat list_all_iff)
    have r: "reject_parent isostr now t (other_children t) s = finish_parent isostr now t (other_children t) s" using False by (simp add: finish_parent_def)
    show ?thesis unfolding v r [symmetric] unfolding reject_parent_def Let_def facts(1)
      by (rule emit_after [OF reject_after [OF t nf log_links, THEN conjunct1] reject_after [OF t nf log_links, THEN conjunct2]])
  qed
  then show "stat (finish_parent isostr now t (other_children t) s) = (if alive (tk_status t) then (stat s)(i := Some (verdict s i)) else stat s)"
    "same_links s (finish_parent isostr now t (other_children t) s)" by auto
qed

text \<open>Cancelling the children of a finished parent rejects the live ones.\<close>

lemma cancel_links:
  "stat (cancel_child isostr now u c s) = (case stat s c of None \<Rightarrow> stat s | Some st \<Rightarrow> if alive st then (stat s)(c := Some ts_rejected) else stat s)"
  "same_links s (cancel_child isostr now u c s)"
proof -
  have "stat (cancel_child isostr now u c s) = (case stat s c of None \<Rightarrow> stat s | Some st \<Rightarrow> if alive st then (stat s)(c := Some ts_rejected) else stat s) \<and>
    same_links s (cancel_child isostr now u c s)"
  proof (cases "sched_task s c")
    case None
    then show ?thesis using sched_task_none [of s c] by (simp add: cancel_child_def)
  next
    case (Some t)
    then show ?thesis using sched_task_facts(2) [OF Some] live_transition(2) [of "tk_status t"]
      by (auto simp: cancel_child_def Let_def update_links alive_def finished_def intro!: same_links_trans [OF _ note_links(2)] same_links_trans [OF log_links(2) update_links(2)])
  qed
  then show "stat (cancel_child isostr now u c s) = (case stat s c of None \<Rightarrow> stat s | Some st \<Rightarrow> if alive st then (stat s)(c := Some ts_rejected) else stat s)"
    "same_links s (cancel_child isostr now u c s)" by auto
qed

lemma cancel_all:
  "stat (fold (cancel_child isostr now u) cs s) = (\<lambda>i. case stat s i of Some st \<Rightarrow> if alive st \<and> i \<in> set cs then Some ts_rejected else Some st | None \<Rightarrow> None)"
  "same_links s (fold (cancel_child isostr now u) cs s)"
proof (induction cs arbitrary: s)
  case Nil
  case 1
  show ?case by (auto simp: fun_eq_iff split: option.split)
next
  case (Cons c cs)
  case 1
  show ?case unfolding fold_simps comp_def Cons.IH(1) by (auto simp: cancel_links(1) fun_eq_iff alive_def split: option.split)
  case 2
  show ?case using same_links_trans [OF cancel_links(2) Cons.IH(2)] by simp
qed simp

section \<open>The cascade\<close>

text \<open>A task that can neither be completed nor rejected any more, though it is neither: archived, expired, or of unknown status.\<close>

definition stuck :: "TaskStatus \<Rightarrow> bool" where
  "stuck st = (\<not> alive st \<and> \<not> finished st)"

text \<open>The hypothesis of termination: the parents of stuck tasks form no cycle.\<close>

definition ranked :: "(string \<Rightarrow> nat) \<Rightarrow> scheduler \<Rightarrow> bool" where
  "ranked rank s = (\<forall>i st g. stat s i = Some st \<and> stuck st \<and> parent_link s i = Some g \<longrightarrow> rank g < rank i)"

definition live_tasks :: "scheduler \<Rightarrow> string set" where
  "live_tasks s = {i. \<exists>st. stat s i = Some st \<and> alive st}"

text \<open>What a run of the cascade does: links stay, and a status changes only from a live one, to rejected, or to done when all other children of the task are done.\<close>

definition cascades :: "scheduler \<Rightarrow> scheduler \<Rightarrow> bool" where
  "cascades s s' = (same_links s s' \<and> (\<forall>i. stat s' i = stat s i \<or>
     ((\<exists>st. stat s i = Some st \<and> alive st) \<and> (stat s' i = Some ts_rejected \<or> stat s' i = Some ts_done \<and> (\<forall>c \<in> set (kids s i). stat s' c = Some ts_done)))))"

lemma finite_live: "finite (live_tasks s)"
proof -
  have "live_tasks s \<subseteq> fst ` set (td_tasks (sched_db s))"
    by (auto simp: live_tasks_def stat_def status_of_def dest!: jget_SomeD) (metis fst_conv image_eqI)
  then show ?thesis by (rule finite_subset) simp
qed

lemma cascades_refl [simp]: "cascades s s"
  by (simp add: cascades_def)

lemma not_live [simp]: "\<not> alive ts_done" "\<not> alive ts_rejected" "finished ts_done" "finished ts_rejected"
  by (simp_all add: alive_def finished_def)

lemma cascades_trans:
  assumes a: "cascades s s'" and b: "cascades s' s''"
  shows "cascades s s''"
proof -
  have done_kept: "stat s' c = Some ts_done \<Longrightarrow> stat s'' c = Some ts_done" for c using b by (force simp: cascades_def)
  have "stat s'' i = stat s i \<or> ((\<exists>st. stat s i = Some st \<and> alive st) \<and> (stat s'' i = Some ts_rejected \<or> stat s'' i = Some ts_done \<and> (\<forall>c \<in> set (kids s i). stat s'' c = Some ts_done)))" for i
    using a b same_kids [of s s'] done_kept unfolding cascades_def by (smt (verit, best) not_live option.inject)
  then show ?thesis using a b same_links_trans [of s s' s''] by (simp add: cascades_def)
qed

lemma finish_cascades:
  assumes "sched_task s i = Some t" and "children_finished s t" and "\<not> finished (tk_status t)"
  shows "cascades s (finish_parent isostr now t (other_children t) s)"
proof -
  have "c \<noteq> i" if "c \<in> set (kids s i)" for c using that by (simp add: kids_def)
  then show ?thesis using finish_links [OF assms, of isostr now] sched_task_facts(2) [OF assms(1)]
    by (auto simp: cascades_def verdict_def alive_def split: if_splits)
qed

lemma cancel_cascades: "cascades s (fold (cancel_child isostr now u) cs s)"
  using cancel_all [where s = s and isostr = isostr and now = now and u = u and cs = cs] by (auto simp: cascades_def split: option.split)

lemma ranked_cascade: "ranked rank s \<Longrightarrow> cascades s s' \<Longrightarrow> ranked rank s'"
  unfolding ranked_def cascades_def same_links_def stuck_def by (metis not_live(3,4) option.inject)

lemma check_step:
  assumes "sched_task s p = Some t" and "\<not> finished (tk_status t)" and "children_finished s t"
  shows "checkParentCompletion isostr now p s =
    (case parent_link s p of None \<Rightarrow> Some (finish_parent isostr now t (other_children t) s)
     | Some g \<Rightarrow> checkParentCompletion isostr now g (finish_parent isostr now t (other_children t) s))"
  using assms sched_task_facts(3) [OF assms(1)] by (subst checkParentCompletion.simps) (auto simp: finished_def)

lemma check_end:
  assumes "\<And>t. sched_task s p = Some t \<Longrightarrow> finished (tk_status t) \<or> \<not> children_finished s t"
  shows "\<exists>s'. checkParentCompletion isostr now p s = Some s' \<and> cascades s s' \<and> (stat s p \<noteq> Some ts_done \<longrightarrow> s' = s)"
proof (cases "sched_task s p")
  case (Some t)
  then show ?thesis using assms [OF Some] sched_task_facts(2) [OF Some]
    by (subst checkParentCompletion.simps) (auto simp: finished_def cancelOrphanedChildren_def cancel_cascades)
qed (subst checkParentCompletion.simps, simp)

lemma cascade_decreases:
  assumes "ranked rank s" and t: "sched_task s p = Some t" "\<not> finished (tk_status t)" "children_finished s t" and "parent_link s p = Some g"
  shows "((card (live_tasks (finish_parent isostr now t (other_children t) s)), rank g), (card (live_tasks s), rank p)) \<in> {(x, y). x < y} <*lex*> {(x, y). x < y}"
proof -
  let ?s = "finish_parent isostr now t (other_children t) s"
  note l = finish_links(1) [OF t(1,3,2), of isostr now]
  show ?thesis
  proof (cases "alive (tk_status t)")
    case True
    have "live_tasks ?s \<subset> live_tasks s" using True l sched_task_facts(2) [OF t(1)] by (auto simp: live_tasks_def verdict_def split: if_splits)
    then show ?thesis using psubset_card_mono [OF finite_live] by simp
  next
    case False
    then have "rank g < rank p" using assms(1,5) sched_task_facts(2) [OF t(1)] t(2) by (auto simp: ranked_def stuck_def)
    then show ?thesis using False l by (simp add: live_tasks_def)
  qed
qed

text \<open>Each step of the recursion finishes a live task or climbs from a stuck one to its parent, so it ends.\<close>

lemma cascade_returns:
  "ranked rank s \<Longrightarrow> \<exists>s'. checkParentCompletion isostr now p s = Some s' \<and> cascades s s'"
proof (induction "(card (live_tasks s), rank p)" arbitrary: s p rule: wf_induct_rule [OF wf_lex_prod [OF wf_less wf_less]])
  case 1
  show ?case
  proof (cases "\<exists>t. sched_task s p = Some t \<and> \<not> finished (tk_status t) \<and> children_finished s t")
    case False
    then show ?thesis using check_end [of s p isostr now] by blast
  next
    case True
    then obtain t where t: "sched_task s p = Some t" "\<not> finished (tk_status t)" "children_finished s t" by blast
    let ?s = "finish_parent isostr now t (other_children t) s"
    note c = finish_cascades [OF t(1,3,2), of isostr now]
    show ?thesis
    proof (cases "parent_link s p")
      case None
      then show ?thesis using check_step [OF t] c by simp
    next
      case (Some g)
      have "((card (live_tasks ?s), rank g), (card (live_tasks s), rank p)) \<in> {(x, y). x < y} <*lex*> {(x, y). x < y}"
        by (rule cascade_decreases [OF 1(2) t Some])
      from 1(1) [OF this ranked_cascade [OF 1(2) c]]
      obtain s' where "checkParentCompletion isostr now g ?s = Some s'" "cascades ?s s'" by blast
      then show ?thesis using check_step [OF t] Some cascades_trans [OF c] by simp
    qed
  qed
qed

section \<open>The safety net\<close>

text \<open>A task that should have been finished: live, with children, all of them finished.\<close>

definition overdue :: "scheduler \<Rightarrow> string set" where
  "overdue s = {i. (\<exists>st. stat s i = Some st \<and> alive st) \<and> kids s i \<noteq> [] \<and> (\<forall>c \<in> set (kids s i). \<exists>st. stat s c = Some st \<and> finished st)}"

text \<open>A child that exists names the task as its parent.\<close>

definition linked :: "scheduler \<Rightarrow> bool" where
  "linked s = (\<forall>p c. c \<in> set (kids s p) \<and> stat s c \<noteq> None \<longrightarrow> parent_link s c = Some p)"

lemma cascades_domain: "cascades s s' \<Longrightarrow> (stat s' i = None) = (stat s i = None)"
  unfolding cascades_def by (metis option.distinct(1))

lemma linked_cascade: "linked s \<Longrightarrow> cascades s s' \<Longrightarrow> linked s'"
  using same_kids [of s s'] cascades_domain [of s s'] by (simp add: linked_def cascades_def same_links_def)

lemma overdue_finished:
  assumes t: "sched_task s p = Some t"
  shows "p \<in> overdue s \<longleftrightarrow> alive (tk_status t) \<and> children_finished s t"
  using sched_task_facts(2) [OF t] by (auto simp: overdue_def children_finished_iff [OF t])

text \<open>If only \<open>p\<close> changes its status, only the parent of \<open>p\<close> can become overdue.\<close>

lemma overdue_update:
  assumes "linked s" and "same_links s s'" and "stat s' = (stat s)(p := Some st)" and "finished st" and "stat s p \<noteq> None"
  shows "overdue s' \<subseteq> (overdue s - {p}) \<union> {g. parent_link s p = Some g}"
proof
  fix x
  assume x: "x \<in> overdue s'"
  then have xp: "x \<noteq> p" using assms(3,4) by (auto simp: overdue_def alive_def finished_def)
  show "x \<in> (overdue s - {p}) \<union> {g. parent_link s p = Some g}"
  proof (cases "p \<in> set (kids s x)")
    case True
    then show ?thesis using assms(1,5) by (auto simp: linked_def)
  next
    case False
    have "\<exists>st. stat s c = Some st \<and> finished st" if c: "c \<in> set (kids s x)" for c
    proof -
      have "c \<noteq> p" using c False by auto
      then show ?thesis using x c same_kids [OF assms(2)] assms(3) by (auto simp: overdue_def)
    qed
    then show ?thesis using x xp same_kids [OF assms(2)] assms(3) by (auto simp: overdue_def)
  qed
qed

lemma overdue_cancel:
  assumes l: "linked s" and p: "stat s p = Some ts_done"
  shows "overdue (fold (cancel_child isostr now u) (getChildren (sched_db s) p) s) \<subseteq> overdue s"
proof
  fix x
  let ?s = "fold (cancel_child isostr now u) (getChildren (sched_db s) p) s"
  note c = cancel_all [where s = s and isostr = isostr and now = now and u = u and cs = "getChildren (sched_db s) p"]
  assume x: "x \<in> overdue ?s"
  have xs: "\<exists>st. stat s x = Some st \<and> alive st" using x unfolding overdue_def c(1) by (auto split: option.splits if_splits)
  have "\<exists>st. stat s k = Some st \<and> finished st" if k: "k \<in> set (kids s x)" for k
  proof (rule ccontr)
    assume nf: "\<not> (\<exists>st. stat s k = Some st \<and> finished st)"
    obtain st where st: "stat ?s k = Some st" "finished st" using x k same_kids [OF c(2)] by (auto simp: overdue_def)
    then have k': "k \<in> set (getChildren (sched_db s) p)" "stat s k \<noteq> None" using nf unfolding c(1) by (auto split: option.splits if_splits)
    moreover have "k \<noteq> p" using nf p by auto
    ultimately have "parent_link s k = Some p" using l by (simp add: linked_def kids_def)
    moreover have "parent_link s k = Some x" using l k k'(2) by (simp add: linked_def)
    ultimately show False using xs p by auto
  qed
  then show "x \<in> overdue s" using xs x same_kids [OF c(2)] by (auto simp: overdue_def)
qed

lemma check_overdue:
  "ranked rank s \<Longrightarrow> linked s \<Longrightarrow> checkParentCompletion isostr now p s = Some s' \<Longrightarrow> overdue s' \<subseteq> overdue s - {p}"
proof (induction "(card (live_tasks s), rank p)" arbitrary: s p s' rule: wf_induct_rule [OF wf_lex_prod [OF wf_less wf_less]])
  case 1
  show ?case
  proof (cases "\<exists>t. sched_task s p = Some t \<and> \<not> finished (tk_status t) \<and> children_finished s t")
    case False
    show ?thesis
    proof (cases "sched_task s p")
      case None
      then have "p \<notin> overdue s" using sched_task_none [of s p] by (simp add: overdue_def)
      moreover have "s' = s" using 1(4) None by (subst (asm) checkParentCompletion.simps) simp
      ultimately show ?thesis by simp
    next
      case (Some t)
      have p: "p \<notin> overdue s" using False Some live_transition(1) by (auto simp: overdue_finished [OF Some])
      show ?thesis
      proof (cases "tk_status t = ts_done")
        case True
        then have "s' = fold (cancel_child isostr now t) (getChildren (sched_db s) p) s"
          using 1(4) Some sched_task_facts(4) [OF Some] by (subst (asm) checkParentCompletion.simps) (simp add: cancelOrphanedChildren_def)
        then show ?thesis using overdue_cancel [OF 1(3), of p] sched_task_facts(2) [OF Some] True p by auto
      next
        case nd: False
        then have "s' = s" using 1(4) Some False by (subst (asm) checkParentCompletion.simps) (auto simp: finished_def split: if_splits)
        then show ?thesis using p by simp
      qed
    qed
  next
    case True
    then obtain t where t: "sched_task s p = Some t" "\<not> finished (tk_status t)" "children_finished s t" by blast
    let ?s = "finish_parent isostr now t (other_children t) s"
    note c = finish_cascades [OF t(1,3,2), of isostr now] and l = finish_links [OF t(1,3,2), of isostr now]
    have o: "overdue ?s \<subseteq> (overdue s - {p}) \<union> {g. parent_link s p = Some g}"
    proof (cases "alive (tk_status t)")
      case True
      then show ?thesis using overdue_update [OF 1(3) l(2), of p "verdict s p"] l(1) sched_task_facts(2) [OF t(1)] by (simp add: verdict_def)
    next
      case False
      then have "overdue ?s = overdue s" using l same_kids [OF l(2)] by (simp add: overdue_def)
      then show ?thesis using False by (auto simp: overdue_finished [OF t(1)])
    qed
    show ?thesis
    proof (cases "parent_link s p")
      case None
      then show ?thesis using check_step [OF t] o 1(4) by simp
    next
      case (Some g)
      have d: "((card (live_tasks ?s), rank g), (card (live_tasks s), rank p)) \<in> {(x, y). x < y} <*lex*> {(x, y). x < y}"
        by (rule cascade_decreases [OF 1(2) t Some])
      have "checkParentCompletion isostr now g ?s = Some s'" using check_step [OF t] Some 1(4) by simp
      from 1(1) [OF d ranked_cascade [OF 1(2) c] linked_cascade [OF 1(3) c] this] show ?thesis using o Some by auto
    qed
  qed
qed

lemma scan_overdue:
  assumes "ranked rank s" and "linked s"
    and "\<And>t. t \<in> set ts \<Longrightarrow> tk_childTasks t = getChildren (sched_db s) (tk_id t)"
  shows "\<exists>s'. scan_parents isostr now ts s = Some s' \<and> cascades s s' \<and> overdue s' \<subseteq> overdue s - tk_id ` set ts"
  using assms
proof (induction ts arbitrary: s)
  case (Cons t ts)
  have kids: "other_children t = kids s (tk_id t)" using Cons.prems(3) [of t] by (simp add: other_children_def kids_def)
  show ?case
  proof (cases "children_finished s t")
    case False
    then have "tk_id t \<notin> overdue s" by (auto simp: overdue_def children_finished_def kids child_status_stat list_all_iff split: option.splits)
    then show ?thesis using Cons.IH [OF Cons.prems(1,2)] Cons.prems(3) False by (auto; blast)
  next
    case True
    obtain s1 where s1: "checkParentCompletion isostr now (tk_id t) s = Some s1" "cascades s s1"
      using cascade_returns [OF Cons.prems(1), of isostr now "tk_id t"] by blast
    have o: "overdue s1 \<subseteq> overdue s - {tk_id t}" by (rule check_overdue [OF Cons.prems(1,2) s1(1)])
    have "getChildren (sched_db s1) = getChildren (sched_db s)" using s1(2) by (simp add: cascades_def same_links_def)
    then have "\<exists>s'. scan_parents isostr now ts s1 = Some s' \<and> cascades s1 s' \<and> overdue s' \<subseteq> overdue s1 - tk_id ` set ts"
      using Cons.IH [OF ranked_cascade [OF Cons.prems(1) s1(2)] linked_cascade [OF Cons.prems(2) s1(2)]] Cons.prems(3) by simp
    then show ?thesis using True s1(1) cascades_trans [OF s1(2)] o by (auto; blast)
  qed
qed simp

lemma with_status_facts:
  "t \<in> set (with_status ss s) \<Longrightarrow> tk_childTasks t = getChildren (sched_db s) (tk_id t)"
  "stat s i = Some st \<Longrightarrow> st \<in> set ss \<Longrightarrow> i \<in> tk_id ` set (with_status ss s)"
proof -
  show "t \<in> set (with_status ss s) \<Longrightarrow> tk_childTasks t = getChildren (sched_db s) (tk_id t)"
    by (auto simp: with_status_def td_getTasks_def sched_db_def rowToTask_def)
  assume "stat s i = Some st" "st \<in> set ss"
  then obtain r where r: "jget (td_tasks (sched_db s)) i = Some r" "tr_status r \<in> set ss" by (auto simp: stat_def status_of_def)
  have "(i, r) \<in> set (td_tasks (sched_db s))" by (rule jget_SomeD [OF r(1)])
  then have "rowToTask (sched_db s) i r \<in> set (with_status ss s)"
    using r(2) by (force simp: with_status_def td_getTasks_def limited_def by_priority_def td_rows_def query_matches_def truthy_def sched_db_def)
  moreover have "tk_id (rowToTask (sched_db s) i r) = i" by (simp add: rowToTask_def)
  ultimately show "i \<in> tk_id ` set (with_status ss s)" by force
qed


definition family_row :: "TaskStatus \<Rightarrow> string option \<Rightarrow> task_row" where
  "family_row st parent = \<lparr>tr_title = ''t'', tr_description = [], tr_status = st, tr_priority = tp_medium, tr_created_by = ''ann'', tr_assigned_to = None, tr_created_at = 0,
     tr_updated_at = 0, tr_origin = None, tr_origin_node = None, tr_claimed_by_node = None, tr_claimed_at = None, tr_executed_by_node = None, tr_parent_task = parent,
     tr_proposal_id = None, tr_qa_tier = None, tr_required_capabilities = None, tr_manager_id = None, tr_result = no_result, tr_cost = no_cost, tr_role = None\<rparr>"

text \<open>An open task \<open>p\<close> with the child \<open>c\<close>, which is done, and nothing else.\<close>

definition demo_family :: task_queue where
  "demo_family = \<lparr>tq_db = empty_task_db\<lparr>td_tasks := [(''p'', family_row ts_open None), (''c'', family_row ts_done (Some ''p''))], td_children := [(''p'', ''c'')]\<rparr>,
     tq_localPeerId = ''me'', tq_network = False, tq_published = []\<rparr>"

definition demo_scheduler :: scheduler where
  "demo_scheduler = (Scheduler_init (DEFAULT_SCHEDULER_CONFIG ''/h'') demo_family False)\<lparr>sc_running := True, sc_nodeCapabilities := [''claude-code'']\<rparr>"

lemma demo_family_facts:
  "stat demo_scheduler i = (if i = ''p'' then Some ts_open else if i = ''c'' then Some ts_done else None)"
  "parent_link demo_scheduler i = (if i = ''c'' then Some ''p'' else None)"
  "kids demo_scheduler i = (if i = ''p'' then [''c''] else [])"
  by (auto simp: demo_scheduler_def Scheduler_init_def demo_family_def stat_def parent_link_def kids_def sched_db_def status_of_def family_row_def
    getChildren_def related_def present_def truthy_def)


section \<open>Every call returns\<close>

definition acyclic_parents :: "(string \<Rightarrow> nat) \<Rightarrow> scheduler \<Rightarrow> bool" where
  "acyclic_parents rank s = (\<forall>i g. parent_link s i = Some g \<longrightarrow> rank g < rank i)"

lemma acyclic_ranked: "acyclic_parents rank s \<Longrightarrow> ranked rank s"
  by (simp add: acyclic_parents_def ranked_def)

lemma acyclic_links: "same_links s s' \<Longrightarrow> acyclic_parents rank s' = acyclic_parents rank s"
  by (simp add: acyclic_parents_def same_links_def)

lemma scan_returns: "ranked rank s \<Longrightarrow> \<exists>s'. scan_parents isostr now ts s = Some s'"
proof (induction ts arbitrary: s)
  case (Cons t ts)
  obtain s1 where s1: "checkParentCompletion isostr now (tk_id t) s = Some s1" "cascades s s1"
    using cascade_returns [OF Cons.prems, of isostr now "tk_id t"] by blast
  show ?case using Cons.IH [OF Cons.prems] Cons.IH [OF ranked_cascade [OF Cons.prems s1(2)]] s1(1) by simp
qed simp

text \<open>The clean-up keeps the parent of every task it keeps.\<close>

lemma cleanup_parents:
  "parent_link (on_queue (\<lambda>q. fst (cleanupExpiredTasks now q)) s) i = Some g \<Longrightarrow> parent_link s i = Some g"
proof -
  let ?link = "\<lambda>d. case jget (td_tasks d) i of None \<Rightarrow> None | Some r \<Rightarrow> present (tr_parent_task r)"
  have u: "?link (fst (update_where P f d)) = ?link d" if "\<And>r. tr_parent_task (f r) = tr_parent_task r" for P f d
    using that by (simp add: status_simps split: option.split)
  have del: "?link (fold delete_task ks d) = Some g \<Longrightarrow> ?link d = Some g" for ks d
    by (simp add: jget_fold_delete split: if_splits)
  have "?link (fst (td_cleanupExpiredTasks now d)) = Some g \<Longrightarrow> ?link d = Some g" for d
    unfolding td_cleanupExpiredTasks_def expire_open_def reset_claimed_def reset_in_progress_def Let_def case_prod_beta fst_conv
    by (drule del) (simp add: u)
  then show "parent_link (on_queue (\<lambda>q. fst (cleanupExpiredTasks now q)) s) i = Some g \<Longrightarrow> parent_link s i = Some g"
    by (simp add: parent_link_def sched_db_def on_queue_def cleanupExpiredTasks_def case_prod_beta)
qed

lemma same_links_record [simp]: "sched_db s' = sched_db s \<Longrightarrow> same_links s s'"
  by (simp add: same_links_def parent_link_def fun_eq_iff)

lemma recover_links: "same_links s (recoverOrphanedTasks isostr now s)"
proof -
  have step: "same_links s (recover_task isostr now t s)" for t s
    by (simp add: recover_task_def) (blast intro: same_links_trans update_links(2) log_links(2))
  have "same_links s (fold (recover_task isostr now) ts s)" for ts
    by (induction ts arbitrary: s) (auto intro: same_links_trans [OF step])
  then show ?thesis unfolding recoverOrphanedTasks_def .
qed

lemma poll_returns: "acyclic_parents rank s \<Longrightarrow> \<exists>s'. sched_poll isostr now s = Some s'"
proof -
  assume a: "acyclic_parents rank s"
  let ?s1 = "on_queue (\<lambda>q. fst (cleanupExpiredTasks now q)) (s\<lparr>sc_cleanupCounter := Suc (sc_cleanupCounter s)\<rparr>)"
  have "parent_link (s\<lparr>sc_cleanupCounter := n\<rparr>) = parent_link s" for n by (simp add: parent_link_def sched_db_def fun_eq_iff)
  then have a1: "acyclic_parents rank ?s1" using a cleanup_parents [of now "s\<lparr>sc_cleanupCounter := Suc (sc_cleanupCounter s)\<rparr>"] by (auto simp: acyclic_parents_def)
  have "same_links ?s1 (sweepStaleEmitters ?s1)" by (simp add: sweepStaleEmitters_def sched_db_def)
  then have "acyclic_parents rank (if b then sweepStaleEmitters ?s1 else ?s1)" for b using a1 acyclic_links by simp
  from scan_returns [OF acyclic_ranked [OF this]]
  have "\<exists>s'. safetyNetParentCompletionScan isostr now (if b then sweepStaleEmitters ?s1 else ?s1) = Some s'" for b by (simp only: safetyNetParentCompletionScan_def)
  from this [of "sc_cleanupCounter ?s1 mod 10 = 0"] show ?thesis by (auto simp: sched_poll_def Let_def simp del: if_split_asm)
qed

lemma report_db:
  "sched_db (when_set b e u) = sched_db u" "sched_db (on_router f u) = sched_db u" "sched_db (meter_task now i spent u) = sched_db u"
  by (auto simp: when_set_def on_router_def meter_task_def emit_sched_def sched_db_def split: option.split)

text \<open>C33: The scheduler's calls return. If no task is its own ancestor, the report of a finished task, a poll and the start all come to an end, however long the
  chain of parents they complete.\<close>

theorem scheduler_calls_return:
  assumes "acyclic_parents rank s"
  shows "(\<exists>s'. reportTaskCompleted isostr now i output spent s = Some s') \<and> (\<exists>s'. sched_poll isostr now s = Some s') \<and> (\<exists>s'. sched_start isostr now s = Some s')"
proof (intro conjI)
  have check: "\<exists>s'. checkParentCompletion isostr now p u = Some s'" if "sched_db u = sched_db s" for u p
    using cascade_returns [OF acyclic_ranked, of rank u isostr now p] assms acyclic_links [of s u rank] that by auto
  have end_of_report: "\<exists>s'. map_option f (case x of None \<Rightarrow> Some u | Some t \<Rightarrow> (case tk_parentTask t of None \<Rightarrow> Some u | Some p \<Rightarrow> checkParentCompletion isostr now p u)) = Some s'"
    if "sched_db u = sched_db s" for u x and f :: "scheduler \<Rightarrow> scheduler"
    using check [OF that] by (auto split: option.split)
  show "\<exists>s'. reportTaskCompleted isostr now i output spent s = Some s'"
    unfolding reportTaskCompleted_def Let_def by (rule end_of_report) (simp add: report_db, simp add: sched_db_def)
  show "\<exists>s'. sched_poll isostr now s = Some s'" by (rule poll_returns [OF assms])
  let ?s1 = "recoverOrphanedTasks isostr now (s\<lparr>sc_running := True\<rparr>)"
  let ?s2 = "?s1\<lparr>sc_fileRegistry := map_option (\<lambda>r. fst (clearAll r)) (sc_fileRegistry ?s1)\<rparr>"
  have "same_links s (s\<lparr>sc_running := True\<rparr>)" "same_links ?s1 ?s2" by (simp_all add: sched_db_def)
  then have "same_links s ?s2" using recover_links same_links_trans by blast
  then have "acyclic_parents rank ?s2" using assms acyclic_links by blast
  from poll_returns [OF this] show "\<exists>s'. sched_start isostr now s = Some s'" by (auto simp: sched_start_def Let_def)
qed

theorem scheduler_calls_return_witness:
  "\<exists>s'. reportTaskCompleted (\<lambda>t. []) 1 ''c'' ''ok'' None demo_scheduler = Some s'"
proof -
  have "acyclic_parents (\<lambda>i. if i = ''c'' then 1 else 0) demo_scheduler" by (auto simp: acyclic_parents_def demo_family_facts)
  from scheduler_calls_return [OF this] show ?thesis by blast
qed

section \<open>A cycle that does not return\<close>

text \<open>A stuck task that is its own parent and has only finished children: the recursion comes back to it in the same situation.\<close>

definition loops_on :: "string \<Rightarrow> scheduler \<Rightarrow> bool" where
  "loops_on p s = (\<exists>t. sched_task s p = Some t \<and> stuck (tk_status t) \<and> parent_link s p = Some p \<and> children_finished s t)"

lemma loops_again:
  assumes "sched_task s p = Some t" and "stuck (tk_status t)" and "parent_link s p = Some p" and "children_finished s t"
  shows "loops_on p (finish_parent isostr now t (other_children t) s)"
proof -
  let ?s = "finish_parent isostr now t (other_children t) s"
  have nf: "\<not> finished (tk_status t)" "\<not> alive (tk_status t)" using assms(2) by (simp_all add: stuck_def)
  note l = finish_links [OF assms(1,4) nf(1), of isostr now]
  have st: "stat ?s = stat s" using l(1) nf(2) by simp
  obtain t' where t': "sched_task ?s p = Some t'" "tk_status t' = tk_status t" using sched_task_status [OF assms(1) st] by blast
  have "children_finished ?s t'" using assms(4) by (simp add: children_finished_iff [OF t'(1)] children_finished_iff [OF assms(1)] st same_kids [OF l(2)])
  then show ?thesis using t' assms(2,3) l(2) by (auto simp: loops_on_def same_links_def)
qed

lemma looping_check_never_returns:
  assumes "loops_on p s"
  shows "checkParentCompletion isostr now p s = None"
proof -
  have "\<not> loops_on p s" if "checkParentCompletion isostr now p s = Some y" for y
    using that
  proof (rule checkParentCompletion.raw_induct [rotated, where P = "\<lambda>isostr now p s y. \<not> loops_on p s"], goal_cases)
    case (1 check isostr now p s y)
    show ?case
    proof
      assume "loops_on p s"
      then obtain t where t: "sched_task s p = Some t" "stuck (tk_status t)" "parent_link s p = Some p" "children_finished s t" by (auto simp: loops_on_def)
      then have "check isostr now p (finish_parent isostr now t (other_children t) s) = Some y"
        using 1(2) sched_task_facts(3) [OF t(1)] by (auto simp: stuck_def finished_def)
      from 1(1) [OF this] loops_again [OF t] show False by blast
    qed
  qed
  then show ?thesis using assms by (cases "checkParentCompletion isostr now p s") auto
qed

text \<open>Any peer can set this up: tasks received are stored as they come. Two messages about tasks the node does not know, a finished one and an archived one that is its own
  parent, and no report of a task under that parent returns.\<close>

lemma forged_parent_hangs_reports:
  assumes c: "tk_status c = ts_done" "tk_id c \<noteq> tk_id x" and x: "tk_status x = ts_archived" "tk_parentTask x = Some (tk_id x)" "tk_childTasks x = [tk_id c]" "tk_id x \<noteq> []"
    and new: "\<not> td_exists (sched_db s) (tk_id c)" "\<not> td_exists (sched_db s) (tk_id x)"
    and s': "s' = on_queue (\<lambda>q. onTaskEvent isostr now eve (event_created x) (onTaskEvent isostr now eve (event_created c) q)) s"
    and t: "sched_task s' i = Some t" "tk_parentTask t = Some (tk_id x)"
  shows "reportTaskCompleted isostr now i output spent s' = None"
proof -
  let ?d1 = "insert_full (c\<lparr>tk_origin := Some eve\<rparr>) (sched_db s)"
  have d1: "\<not> td_exists ?d1 (tk_id x)" using new(2) c(2) by (simp add: td_exists_status status_simps)
  have db: "sched_db s' = insert_full (x\<lparr>tk_origin := Some eve\<rparr>) ?d1"
    using new(1) d1 by (simp add: s' sched_db_def on_queue_def onTaskEvent_def insertRemoteTask_def)
  have st: "stat s' (tk_id x) = Some ts_archived" "stat s' (tk_id c) = Some ts_done"
    using d1 new c x(1) by (simp_all add: stat_def db status_simps td_exists_status)
  have one: "related (set_related i [b] m) i = [b]" for i b :: string and m by (simp add: related_def set_related_def sadd_def)
  have "getChildren (sched_db s') (tk_id x) = [tk_id c]" using x(3) by (simp add: db getChildren_def tables_insert_full one)
  then have k: "kids s' (tk_id x) = [tk_id c]" using c(2) by (simp add: kids_def)
  have p: "parent_link s' (tk_id x) = Some (tk_id x)"
    using d1 x(2,4) by (simp add: parent_link_def db status_simps taskToRow_def present_def truthy_def)
  obtain u where u: "sched_task s' (tk_id x) = Some u" using sched_task_none [of s' "tk_id x"] st(1) by auto
  have l: "loops_on (tk_id x) v" if "sched_db v = sched_db s'" for v
  proof -
    have v: "sched_task v (tk_id x) = Some u" "stat v = stat s'" "parent_link v = parent_link s'" "kids v = kids s'"
      using that u by (simp_all add: sched_task_def getTask_def sched_db_def stat_def parent_link_def kids_def fun_eq_iff)
    have "tk_status u = ts_archived" using sched_task_facts(2) [OF u] st(1) by simp
    then show ?thesis using v p st k by (auto simp: loops_on_def children_finished_iff [OF v(1)] stuck_def alive_def finished_def)
  qed
  show ?thesis unfolding reportTaskCompleted_def Let_def t(1) option.case t(2)
    by (subst looping_check_never_returns [OF l]) (simp_all add: report_db, simp_all add: sched_db_def)
qed

section \<open>The approved queue\<close>

text \<open>A task that may be run, and one that a call drops from the queue.\<close>

definition ready :: "time \<Rightarrow> scheduler \<Rightarrow> Task \<Rightarrow> bool" where
  "ready now s t = (tk_status t = ts_open \<and> (\<forall>d \<in> set (tk_dependencies t). \<not> dependency_open s d) \<and> resources_missing s t = None \<and>
     \<not> capabilities_missing s t \<and> finished_parent s t = None \<and> done_before now s t = None)"

definition dropped :: "scheduler \<Rightarrow> string \<Rightarrow> bool" where
  "dropped s j = (case sched_task s j of None \<Rightarrow> True
     | Some t \<Rightarrow> tk_status t \<noteq> ts_open \<or> resources_missing s t \<noteq> None \<or> capabilities_missing s t)"

definition row_caps :: "scheduler \<Rightarrow> string \<Rightarrow> string list option" where
  "row_caps s j = (case jget (td_tasks (sched_db s)) j of None \<Rightarrow> None | Some r \<Rightarrow> tr_required_capabilities r)"

definition lacks_caps :: "scheduler \<Rightarrow> string list option \<Rightarrow> bool" where
  "lacks_caps s cs = (\<exists>c \<in> set (case cs of None \<Rightarrow> [nc_value CLAUDE_CODE] | Some cs \<Rightarrow> if cs = [] then [nc_value CLAUDE_CODE] else cs). c \<notin> set (sc_nodeCapabilities s))"

lemma sched_task_caps:
  assumes "sched_task s i = Some t"
  shows "resources_missing s t = None" "capabilities_missing s t = lacks_caps s (row_caps s i)"
proof -
  obtain r where r: "jget (td_tasks (sched_db s)) i = Some r" "t = assembleFullTask (sched_db s) i r"
    using getTask_row [of "sc_queue s" i t] assms by (auto simp: sched_task_def sched_db_def)
  show "resources_missing s t = None" unfolding r(2) by (simp add: resources_missing_def assembleFullTask_def rowToTask_def split: option.split)
  show "capabilities_missing s t = lacks_caps s (row_caps s i)"
    unfolding r(2) by (simp add: capabilities_missing_def lacks_caps_def row_caps_def r(1) assembleFullTask_def rowToTask_def list_ex_iff Let_def)
qed

lemma dropped_iff: "dropped s j \<longleftrightarrow> stat s j \<noteq> Some ts_open \<or> lacks_caps s (row_caps s j)"
  using sched_task_none [of s j] by (auto simp: dropped_def sched_task_facts(2) sched_task_caps split: option.split)

text \<open>What a step of the loop keeps.\<close>

definition same_node :: "scheduler \<Rightarrow> scheduler \<Rightarrow> bool" where
  "same_node s s' = (row_caps s' = row_caps s \<and> sc_nodeCapabilities s' = sc_nodeCapabilities s)"

lemma same_node_refl [simp]: "same_node s s"
  by (simp add: same_node_def)

lemma row_caps_update: "sched_db s' = updateTask now i f (sched_db s) \<Longrightarrow> (\<And>r. tr_required_capabilities (f r) = tr_required_capabilities r) \<Longrightarrow> row_caps s' = row_caps s"
  by (auto simp: row_caps_def status_simps fun_eq_iff split: option.split)

lemma refuse_facts:
  "stat (refuse_task isostr now i detail meta remark err s) = (case stat s i of None \<Rightarrow> stat s | Some a \<Rightarrow> if isValidTransition a ts_rejected then (stat s)(i := Some ts_rejected) else stat s)"
  "same_node s (refuse_task isostr now i detail meta remark err s)"
  "sc_approvedProfiles (refuse_task isostr now i detail meta remark err s) = jdel i (sc_approvedProfiles s)"
proof -
  let ?l = "log_event isostr now i ''rejected'' detail (Some meta) (forget_approval i s)"
  have f: "stat (forget_approval i s) = stat s" "row_caps (forget_approval i s) = row_caps s" by (simp_all add: stat_def row_caps_def fun_eq_iff)
  show "stat (refuse_task isostr now i detail meta remark err s) = (case stat s i of None \<Rightarrow> stat s | Some a \<Rightarrow> if isValidTransition a ts_rejected then (stat s)(i := Some ts_rejected) else stat s)"
    by (cases "stat s i") (simp_all add: refuse_task_def Let_def update_links(1) f)
  have l: "row_caps ?l = row_caps s" using f(2) log_tasks(1) [of isostr now i "''rejected''" detail "Some meta" "forget_approval i s"] by (simp add: row_caps_def fun_eq_iff)
  have "row_caps (on_queue (\<lambda>q. fst (updateStatus now i st None q)) u) = row_caps u" for st u
    by (cases "sched_db (on_queue (\<lambda>q. fst (updateStatus now i st None q)) u) = sched_db u")
      (auto simp: row_caps_def fun_eq_iff sched_db_def on_queue_def updateStatus_def status_simps split: option.split)
  moreover have "row_caps (on_queue (setResultNote now i remark) u) = row_caps u" for u
    by (rule row_caps_update [of _ now i "\<lambda>r. r\<lparr>tr_result := (tr_result r)\<lparr>rs_note := Some remark\<rparr>\<rparr>"]) (simp_all add: sched_db_def on_queue_def setResultNote_def)
  moreover have "row_caps (emit_sched e u) = row_caps u" for e u by (simp add: row_caps_def fun_eq_iff)
  ultimately show "same_node s (refuse_task isostr now i detail meta remark err s)"
    using l by (simp add: same_node_def refuse_task_def Let_def) (simp add: on_queue_def emit_sched_def log_event_def forget_approval_def)
  show "sc_approvedProfiles (refuse_task isostr now i detail meta remark err s) = jdel i (sc_approvedProfiles s)"
    by (simp add: refuse_task_def Let_def on_queue_def emit_sched_def log_event_def forget_approval_def)
qed

lemma forget_facts: "stat (forget_approval i s) = stat s" "same_node s (forget_approval i s)" "sc_approvedProfiles (forget_approval i s) = jdel i (sc_approvedProfiles s)"
  by (simp_all add: stat_def same_node_def row_caps_def forget_approval_def sched_db_def fun_eq_iff)

text \<open>The state after one task was dropped.\<close>

definition drops :: "string \<Rightarrow> scheduler \<Rightarrow> scheduler \<Rightarrow> bool" where
  "drops i s s' = (same_node s s' \<and> (\<forall>j. stat s' j = Some ts_open \<longrightarrow> stat s j = Some ts_open) \<and> dropped s' i \<and>
     (\<forall>j. j \<noteq> i \<longrightarrow> jget (sc_approvedProfiles s') j = jget (sc_approvedProfiles s) j))"

lemma refuse_drops: "drops i s (refuse_task isostr now i detail meta remark err s)"
  using refuse_facts [where isostr = isostr and now = now and i = i and detail = detail and meta = meta and remark = remark and err = err and s = s]
  by (auto simp: drops_def dropped_iff isValidTransition_def split: option.splits if_splits)

lemma forget_drops: "dropped s i \<Longrightarrow> drops i s (forget_approval i s)"
  using forget_facts [where i = i and s = s] by (auto simp: drops_def dropped_iff same_node_def lacks_caps_def)

lemma dequeue_step:
  obtains (absent) s1 where "dequeue_from isostr now (i # ks) s = dequeue_from isostr now ks s1" "drops i s s1"
  | (waits) "snd (dequeue_from isostr now (i # ks) s) = None"
  | (runs) t where "sched_task s i = Some t" "ready now s t"
      "dequeue_from isostr now (i # ks) s = ((forget_approval i s)\<lparr>sc_approvedQueue := ks\<rparr>, Some (i, jget (sc_approvedProfiles s) i))"
proof (cases "sched_task s i")
  case None
  then have "dequeue_from isostr now (i # ks) s = dequeue_from isostr now ks s" "drops i s s" by (simp_all add: drops_def dropped_def)
  then show thesis by (rule absent)
next
  case (Some t)
  show thesis
  proof (cases "tk_status t \<noteq> ts_open \<or> \<not> list_ex (dependency_open s) (tk_dependencies t) \<and> (resources_missing s t \<noteq> None \<or> capabilities_missing s t)")
    case True
    then have "dropped s i" using Some by (auto simp: dropped_def)
    then show thesis using True Some by (intro absent [of "forget_approval i s"]) (auto simp: forget_drops)
  next
    case False
    then show thesis
    proof (cases "list_ex (dependency_open s) (tk_dependencies t)")
      case True
      then show thesis using False Some by (intro waits) simp
    next
      case nodep: False
      show thesis
      proof (cases "finished_parent s t")
        case p: (Some e)
        then show thesis using False nodep Some by (cases e) (auto intro: absent refuse_drops)
      next
        case p: None
        show thesis
        proof (cases "done_before now s t")
          case d: (Some u)
          then show thesis using False nodep Some p by (auto intro: absent refuse_drops)
        next
          case None
          then show thesis using False nodep Some p by (intro runs [of t]) (auto simp: ready_def list_ex_iff)
        qed
      qed
    qed
  qed
qed

lemma drops_dropped: "drops i s s' \<Longrightarrow> dropped s j \<Longrightarrow> dropped s' j"
  by (auto simp: drops_def dropped_iff same_node_def lacks_caps_def)

lemma dropped_taken: "dropped ((forget_approval i s)\<lparr>sc_approvedQueue := is\<rparr>) j = dropped s j"
  by (simp add: dropped_iff stat_def row_caps_def sched_db_def forget_approval_def lacks_caps_def)

lemma dequeue_keeps_dropped: "dequeue_from isostr now is s = (s', Some x) \<Longrightarrow> dropped s j \<Longrightarrow> dropped s' j"
proof (induction "is" arbitrary: s)
  case (Cons i "is")
  show ?case
  proof (rule dequeue_step [where isostr = isostr and now = now and i = i and ks = "is" and s = s])
    fix s1
    assume absent: "dequeue_from isostr now (i # is) s = dequeue_from isostr now is s1" "drops i s s1"
    then show ?thesis using Cons drops_dropped by metis
  next
    assume waits: "snd (dequeue_from isostr now (i # is) s) = None"
    then show ?thesis using Cons.prems(1) by simp
  next
    fix t
    assume runs: "sched_task s i = Some t" "ready now s t"
      "dequeue_from isostr now (i # is) s = ((forget_approval i s)\<lparr>sc_approvedQueue := is\<rparr>, Some (i, jget (sc_approvedProfiles s) i))"
    then show ?thesis using Cons.prems dropped_taken by auto
  qed
qed simp

lemma ready_taken: "sched_task ((forget_approval i s)\<lparr>sc_approvedQueue := is\<rparr>) = sched_task s" "ready now ((forget_approval i s)\<lparr>sc_approvedQueue := is\<rparr>) t = ready now s t"
proof -
  let ?u = "(forget_approval i s)\<lparr>sc_approvedQueue := is\<rparr>"
  have f: "sc_queue ?u = sc_queue s" "sc_canExecute ?u = sc_canExecute s" "sc_nodeCapabilities ?u = sc_nodeCapabilities s" by (simp_all add: forget_approval_def)
  show st: "sched_task ?u = sched_task s" by (rule ext) (simp only: sched_task_def f)
  have "dependency_open ?u = dependency_open s" by (rule ext) (simp only: dependency_open_def st)
  moreover have "resources_missing ?u t = resources_missing s t" "capabilities_missing ?u t = capabilities_missing s t" "finished_parent ?u t = finished_parent s t" "done_before now ?u t = done_before now s t"
    by (simp_all only: resources_missing_def capabilities_missing_def finished_parent_def done_before_def with_status_def st f)
  ultimately show "ready now ?u t = ready now s t" by (simp only: ready_def)
qed

lemma dequeue_from_sound:
  assumes "dequeue_from isostr now is s = (s', Some (i, profile))"
  shows "\<exists>before t. is = before @ i # sc_approvedQueue s' \<and> (\<forall>j \<in> set before. dropped s' j) \<and> sched_task s' i = Some t \<and> ready now s' t \<and>
    (i \<notin> set before \<longrightarrow> profile = jget (sc_approvedProfiles s) i)"
  using assms
proof (induction "is" arbitrary: s)
  case (Cons k "is")
  show ?case
  proof (rule dequeue_step [where isostr = isostr and now = now and i = k and ks = "is" and s = s])
    fix s1
    assume absent: "dequeue_from isostr now (k # is) s = dequeue_from isostr now is s1" "drops k s s1"
    then have res: "dequeue_from isostr now is s1 = (s', Some (i, profile))" using Cons.prems by simp
    obtain before t where b: "is = before @ i # sc_approvedQueue s'" "\<forall>j \<in> set before. dropped s' j" "sched_task s' i = Some t" "ready now s' t"
      "i \<notin> set before \<longrightarrow> profile = jget (sc_approvedProfiles s1) i" using Cons.IH [OF res] by blast
    have "dropped s' k" using dequeue_keeps_dropped [OF res] absent(2) by (simp add: drops_def)
    then show ?thesis using b absent(2) by (intro exI [of _ "k # before"] exI [of _ t]) (auto simp: drops_def)
  next
    assume waits: "snd (dequeue_from isostr now (k # is) s) = None"
    then show ?thesis using Cons.prems by simp
  next
    fix t
    assume runs: "sched_task s k = Some t" "ready now s t"
      "dequeue_from isostr now (k # is) s = ((forget_approval k s)\<lparr>sc_approvedQueue := is\<rparr>, Some (k, jget (sc_approvedProfiles s) k))"
    then have "s' = (forget_approval i s)\<lparr>sc_approvedQueue := is\<rparr>" "k = i" "profile = jget (sc_approvedProfiles s) i" using Cons.prems by auto
    then show ?thesis using runs(1,2) ready_taken [where i = i and s = s] by (intro exI [of _ "[]"] exI [of _ t]) simp
  qed
qed simp

text \<open>C34: What is taken from the queue may run. It is open, its dependencies are resolved, the node has the capabilities, its parent is not finished, and no
  task with a similar title was done in the last day; every task before it in the queue is gone, no longer open, or beyond the node's capabilities; and it comes
  with the profile it was approved with.\<close>

theorem dequeued_task_may_run:
  assumes "dequeueApproved isostr now s = (s', Some (i, profile))"
  shows "\<exists>before t. sc_approvedQueue s = before @ i # sc_approvedQueue s' \<and> (\<forall>j \<in> set before. dropped s' j) \<and>
    sched_task s' i = Some t \<and> ready now s' t \<and> profile = jget (sc_approvedProfiles s) i"
proof -
  obtain before t where b: "sc_approvedQueue s = before @ i # sc_approvedQueue s'" "\<forall>j \<in> set before. dropped s' j" "sched_task s' i = Some t" "ready now s' t"
    "i \<notin> set before \<longrightarrow> profile = jget (sc_approvedProfiles s) i" using dequeue_from_sound [OF assms [unfolded dequeueApproved_def]] by blast
  have "\<not> dropped s' i" using b(3,4) by (simp add: dropped_def ready_def)
  then show ?thesis using b by blast
qed

definition demo_approved :: scheduler where
  "demo_approved = demo_scheduler\<lparr>sc_approvedQueue := [''x'', ''p''], sc_approvedProfiles := [(''p'', ''careful'')]\<rparr>"

theorem dequeued_task_may_run_witness:
  "snd (dequeueApproved (\<lambda>t. []) 1000000000 demo_approved) = Some (''p'', Some ''careful'') \<and>
   (\<exists>t. sched_task (fst (dequeueApproved (\<lambda>t. []) 1000000000 demo_approved)) ''p'' = Some t \<and> ready 1000000000 (fst (dequeueApproved (\<lambda>t. []) 1000000000 demo_approved)) t)"
proof -
  have x: "sched_task demo_approved ''x'' = None"
    by (simp add: demo_approved_def demo_scheduler_def Scheduler_init_def demo_family_def sched_task_def getTask_def td_getTask_def)
  obtain t where t: "sched_task demo_approved ''p'' = Some t" "tk_status t = ts_open" "tk_dependencies t = []" "tk_requiredCapabilities t = None" "tk_parentTask t = None"
    by (simp add: demo_approved_def demo_scheduler_def Scheduler_init_def demo_family_def sched_task_def getTask_def td_getTask_def empty_task_db_def
      assembleFullTask_def rowToTask_def family_row_def getDependencies_def related_def present_def truthy_def)
  have "u \<in> set (with_status [ts_done] demo_approved) \<Longrightarrow> tk_updatedAt u = 0" for u
    by (auto simp: with_status_def td_getTasks_def limited_def by_priority_def td_rows_def query_matches_def demo_approved_def demo_scheduler_def Scheduler_init_def
      demo_family_def rowToTask_def family_row_def)
  then have d: "done_before 1000000000 demo_approved t = None" by (auto simp: done_before_def find_None_iff)
  have c: "resources_missing demo_approved t = None" "\<not> capabilities_missing demo_approved t" "finished_parent demo_approved t = None"
    using sched_task_caps(1) [OF t(1)] t(4,5) by (simp_all add: capabilities_missing_def finished_parent_def demo_approved_def demo_scheduler_def)
  have "sc_approvedQueue demo_approved = [''x'', ''p'']" "sc_approvedProfiles demo_approved = [(''p'', ''careful'')]" by (simp_all add: demo_approved_def)
  then have q: "dequeueApproved (\<lambda>t. []) 1000000000 demo_approved = ((forget_approval ''p'' demo_approved)\<lparr>sc_approvedQueue := []\<rparr>, Some (''p'', Some ''careful''))"
    using x t d c by (simp add: dequeueApproved_def)
  from dequeued_task_may_run [OF q] show ?thesis unfolding q by auto
qed

section \<open>Order and restart\<close>

text \<open>A task is put before the first one of a manager with a lower score: a queue in order of the scores stays so.\<close>

lemma ranked_insertion: "sorted_wrt (\<lambda>a b. rank b \<le> rank a) js \<Longrightarrow> x = rank i \<Longrightarrow> sorted_wrt (\<lambda>a b. rank b \<le> rank a) (insert_ranked rank x i js)"
proof (induction js)
  case (Cons j js)
  have "set (insert_ranked rank x i js) = insert i (set js)" by (induction js) auto
  then show ?case using Cons by auto
qed simp

lemma recover_stat:
  "stat (recover_task isostr now t s) = (case stat s (tk_id t) of None \<Rightarrow> stat s
     | Some a \<Rightarrow> if \<not> runs_elsewhere t \<and> isValidTransition a ts_open then (stat s)(tk_id t := Some ts_open) else stat s)"
  by (simp add: recover_task_def update_links(1) split: option.split)

lemma recover_fold:
  "stat (fold (recover_task isostr now) ts s) i = (case stat s i of None \<Rightarrow> None
     | Some a \<Rightarrow> if (\<exists>t \<in> set ts. tk_id t = i \<and> \<not> runs_elsewhere t) \<and> isValidTransition a ts_open then Some ts_open else Some a)"
proof (induction ts arbitrary: s)
  case (Cons t ts)
  have "\<not> isValidTransition ts_open ts_open" by (simp add: isValidTransition_def)
  then show ?case unfolding fold_simps comp_def Cons.IH by (auto simp: recover_stat split: option.split)
qed (simp split: option.split)

text \<open>After a start exactly those claimed and running tasks are open again that do not carry another node both as the one that claimed and the one that executed
  them. A task another node has claimed, and not yet executed, is therefore taken from it.\<close>

lemma orphans_are_reopened:
  assumes ok: "task_db_ok (sched_db s)" and t: "sched_task s i = Some t"
  shows "stat (recoverOrphanedTasks isostr now s) i =
    Some (if is_active_status (tk_status t) \<and> \<not> runs_elsewhere t then ts_open else tk_status t)"
proof -
  obtain r where r: "jget (td_tasks (sched_db s)) i = Some r" "t = assembleFullTask (sched_db s) i r" "tr_status r = tk_status t"
    using getTask_row [of "sc_queue s" i t] t by (auto simp: sched_task_def sched_db_def)
  have same: "runs_elsewhere (rowToTask (sched_db s) i r) = runs_elsewhere t" unfolding r(2) by (simp add: runs_elsewhere_def assembleFullTask_def)
  have "(\<exists>u \<in> set (with_status [ts_claimed] s @ with_status [ts_in_progress] s). tk_id u = i \<and> \<not> runs_elsewhere u) = (is_active_status (tk_status t) \<and> \<not> runs_elsewhere t)"
  proof
    assume "\<exists>u \<in> set (with_status [ts_claimed] s @ with_status [ts_in_progress] s). tk_id u = i \<and> \<not> runs_elsewhere u"
    then obtain u where u: "u \<in> set (with_status [ts_claimed] s) \<or> u \<in> set (with_status [ts_in_progress] s)" "tk_id u = i" "\<not> runs_elsewhere u" by auto
    have row: "\<exists>r'. jget (td_tasks (sched_db s)) i = Some r' \<and> tr_status r' = st \<and> u = rowToTask (sched_db s) i r'" if st: "u \<in> set (with_status [st] s)" for st
    proof -
      obtain r' where "jget (td_tasks (sched_db s)) (tk_id u) = Some r'" "tr_status r' \<in> set [st]" "u = rowToTask (sched_db s) (tk_id u) r'"
        by (rule td_getTasks_row [OF st [unfolded with_status_def] ok [unfolded sched_db_def], folded sched_db_def])
      then show ?thesis using u(2) by auto
    qed
    from u(1) obtain r' where "jget (td_tasks (sched_db s)) i = Some r'" "tr_status r' = ts_claimed \<or> tr_status r' = ts_in_progress" "u = rowToTask (sched_db s) i r'"
      using row by blast
    then show "is_active_status (tk_status t) \<and> \<not> runs_elsewhere t" using r u(3) same by (auto simp: is_active_status_def)
  next
    assume a: "is_active_status (tk_status t) \<and> \<not> runs_elsewhere t"
    have "(i, r) \<in> set (td_tasks (sched_db s))" by (rule jget_SomeD [OF r(1)])
    then have "rowToTask (sched_db s) i r \<in> set (with_status [tr_status r] s)"
      by (force simp: with_status_def td_getTasks_def limited_def by_priority_def td_rows_def query_matches_def truthy_def sched_db_def)
    moreover have "tk_id (rowToTask (sched_db s) i r) = i" by (simp add: rowToTask_def)
    ultimately show "\<exists>u \<in> set (with_status [ts_claimed] s @ with_status [ts_in_progress] s). tk_id u = i \<and> \<not> runs_elsewhere u"
      using a r(3) same by (force simp: is_active_status_def)
  qed
  then show ?thesis unfolding recoverOrphanedTasks_def recover_fold
    using sched_task_facts(2) [OF t] by (auto simp: is_active_status_def isValidTransition_def)
qed

end
