(* ===== verification/CrashGuard.thy ===== *)
theory CrashGuard
  imports Ledger JsText
begin

text \<open>
  What a node does about its own crashes (\<^verbatim>\<open>packages/node/src/kernel/crash-guard.ts\<close>, \<^verbatim>\<open>startup-health.ts\<close>, \<^verbatim>\<open>restart-reason.ts\<close>) and the
  part of \<^verbatim>\<open>cli.ts\<close> that calls them, as one run of the process after the other. The data directory is a record of its files; a
  file that cannot be parsed is a missing one, as for all readers. Writes succeed. A package's build is named by a string.
\<close>

section \<open>Files and builds\<close>

record crash_log =
  cg_startups :: "time list"
  cg_lastRollback :: "time option"

record RestartReason =
  re_reason :: string
  re_timestamp :: time

record alert_entry =
  al_severity :: "string option"
  al_type :: "string option"
  al_resolved :: bool
  al_lastSeen :: "time option"

record circuit_breaker =
  cb_consecutiveFailures :: nat
  cb_lastError :: string
  cb_lastTimestamp :: time

record halt_note =
  hn_reason :: string
  hn_lastError :: string
  hn_timestamp :: time

record data_dir =
  dd_crashLog :: "crash_log option"
  dd_cleanExit :: bool
  dd_reason :: "RestartReason option"
  dd_alerts :: "alert_entry list option"
  dd_breaker :: "circuit_breaker option"
  dd_halted :: "halt_note option"

text \<open>The directories \<^verbatim>\<open>dist\<close> and \<^verbatim>\<open>dist.backup\<close> of a package, if they exist.\<close>

record package_dirs =
  pk_dist :: "string option"
  pk_backup :: "string option"

type_synonym builds = "string \<Rightarrow> package_dirs"

text \<open>Restoring a package can fail when its \<^verbatim>\<open>dist\<close> is removed or, with \<^verbatim>\<open>dist\<close> gone already, when the backup is copied.\<close>

datatype copy_fault = rm_fails | cp_fails

definition CRASH_WINDOW_MS :: time where "CRASH_WINDOW_MS = 60000"
definition CRASH_THRESHOLD :: nat where "CRASH_THRESHOLD = 6"
definition STABILITY_DELAY_MS :: time where "STABILITY_DELAY_MS = 30000"
definition CIRCUIT_BREAKER_THRESHOLD :: nat where "CIRCUIT_BREAKER_THRESHOLD = 5"
definition RECENT_CRASH_WINDOW_MS :: time where "RECENT_CRASH_WINDOW_MS = 5 * 60 * 1000"
definition STARTUP_DAY_MS :: time where "STARTUP_DAY_MS = 24 * 60 * 60 * 1000"
definition RESTART_EXIT_CODE :: int where "RESTART_EXIT_CODE = 75"

definition PACKAGES :: "string list" where
  "PACKAGES = [''shared'', ''ledger'', ''node'', ''gateway'', ''mcp-server'']"

section \<open>The crash guard\<close>

definition restore_package :: "(string \<Rightarrow> copy_fault option) \<Rightarrow> string \<Rightarrow> builds \<times> nat \<Rightarrow> builds \<times> nat" where
  "restore_package fault p =
     (\<lambda>(r, n). case pk_backup (r p) of None \<Rightarrow> (r, n)
      | Some b \<Rightarrow>
        (case fault p of
           Some rm_fails \<Rightarrow> if pk_dist (r p) = None then (r(p := (r p)\<lparr>pk_dist := Some b\<rparr>), Suc n) else (r, n)
         | Some cp_fails \<Rightarrow> (r(p := (r p)\<lparr>pk_dist := None\<rparr>), n)
         | None \<Rightarrow> (r(p := (r p)\<lparr>pk_dist := Some b\<rparr>), Suc n)))"

definition restoreDistBackups :: "(string \<Rightarrow> copy_fault option) \<Rightarrow> builds \<Rightarrow> builds \<times> bool" where
  "restoreDistBackups fault r = (case fold (restore_package fault) PACKAGES (r, 0) of (r', n) \<Rightarrow> (r', 0 < n))"

definition read_crash_log :: "data_dir \<Rightarrow> crash_log" where
  "read_crash_log d = (case dd_crashLog d of None \<Rightarrow> \<lparr>cg_startups = [], cg_lastRollback = None\<rparr> | Some l \<Rightarrow> l)"

definition rolled_back_recently :: "time \<Rightarrow> crash_log \<Rightarrow> bool" where
  "rolled_back_recently now l = (case cg_lastRollback l of None \<Rightarrow> False | Some t \<Rightarrow> t \<noteq> 0 \<and> now - t < CRASH_WINDOW_MS * 2)"

definition recorded_log :: "time \<Rightarrow> data_dir \<Rightarrow> crash_log" where
  "recorded_log now d =
     (let l = read_crash_log d; recent = filter (\<lambda>t. now - t < CRASH_WINDOW_MS) (cg_startups l)
      in l\<lparr>cg_startups := (if dd_cleanExit d then recent else recent @ [now])\<rparr>)"

text \<open>Files, builds, and whether a crash loop was found and the builds rolled back.\<close>

definition checkAndRecordStartup ::
  "(string \<Rightarrow> copy_fault option) \<Rightarrow> time \<Rightarrow> data_dir \<Rightarrow> builds \<Rightarrow> data_dir \<times> builds \<times> bool \<times> bool" where
  "checkAndRecordStartup fault now d r =
     (let l = recorded_log now d;
          d1 = d\<lparr>dd_cleanExit := False, dd_crashLog := Some l\<rparr>
      in if length (cg_startups l) < CRASH_THRESHOLD then (d1, r, False, False)
         else if rolled_back_recently now l then (d1, r, True, False)
         else (case restoreDistBackups fault r of
             (r', True) \<Rightarrow> (d1\<lparr>dd_crashLog := Some \<lparr>cg_startups = [], cg_lastRollback = Some now\<rparr>\<rparr>, r', True, True)
           | (r', False) \<Rightarrow> (d1, r', True, False)))"

definition markStable :: "data_dir \<Rightarrow> data_dir" where
  "markStable d = d\<lparr>dd_crashLog := Some \<lparr>cg_startups = [], cg_lastRollback = None\<rparr>\<rparr>"

definition getStabilityDelay :: time where
  "getStabilityDelay = STABILITY_DELAY_MS"

section \<open>The reason of a restart\<close>

definition writeRestartReason :: "time \<Rightarrow> string \<Rightarrow> data_dir \<Rightarrow> data_dir" where
  "writeRestartReason now reason d = d\<lparr>dd_reason := Some \<lparr>re_reason = reason, re_timestamp = now\<rparr>\<rparr>"

definition readRestartReason :: "data_dir \<Rightarrow> RestartReason option" where
  "readRestartReason d =
     (case dd_reason d of None \<Rightarrow> None | Some x \<Rightarrow> if re_reason x \<noteq> [] \<and> re_timestamp x \<noteq> 0 then Some x else None)"

definition clearRestartReason :: "data_dir \<Rightarrow> data_dir" where
  "clearRestartReason d = d\<lparr>dd_reason := None\<rparr>"

section \<open>Health at the start\<close>

record StartupHealthReport =
  hr_crashesLast24h :: nat
  hr_consecutiveFailures :: nat
  hr_unresolvedAlerts :: nat
  hr_patterns :: "string list"
  hr_halted :: bool

definition crash_patterns :: "time \<Rightarrow> time list \<Rightarrow> string list" where
  "crash_patterns now ts =
     (let day = filter (\<lambda>t. now - t < STARTUP_DAY_MS) ts; hour = filter (\<lambda>t. now - t < 60 * 60 * 1000) ts
      in (if 5 \<le> length day then [''recurring_crash: '' @ show_nat (length day) @ '' startups in last 24h''] else []) @
         (if 3 \<le> length hour then [''crash_burst: '' @ show_nat (length hour) @ '' startups in last hour''] else []))"

definition alert_counts :: "time \<Rightarrow> alert_entry list \<Rightarrow> (string, nat) jsmap" where
  "alert_counts now as =
     fold (\<lambda>a m. case al_type a of None \<Rightarrow> m
         | Some t \<Rightarrow> if t = [] then m else jset t (Suc (case jget m t of None \<Rightarrow> 0 | Some n \<Rightarrow> n)) m)
       (filter (\<lambda>a. case al_lastSeen a of None \<Rightarrow> False | Some t \<Rightarrow> t \<noteq> 0 \<and> now - t < STARTUP_DAY_MS) as) []"

definition alert_patterns :: "time \<Rightarrow> alert_entry list \<Rightarrow> string list" where
  "alert_patterns now as =
     (let critical = filter (\<lambda>a. \<not> al_resolved a \<and> al_severity a = Some ''critical'') as
      in (if critical \<noteq> [] then [''unresolved_critical: '' @ show_nat (length critical) @ '' critical alert(s) from last session''] else []) @
         concat (map (\<lambda>(t, n). if 3 \<le> n then [''recurring_alert: '' @ t @ '' triggered '' @ show_nat n @ '' times in 24h''] else []) (alert_counts now as)))"

definition read_breaker :: "data_dir \<Rightarrow> circuit_breaker" where
  "read_breaker d =
     (case dd_breaker d of None \<Rightarrow> \<lparr>cb_consecutiveFailures = 0, cb_lastError = [], cb_lastTimestamp = 0\<rparr> | Some b \<Rightarrow> b)"

definition crash_startups :: "data_dir \<Rightarrow> time list" where
  "crash_startups d = (case dd_crashLog d of None \<Rightarrow> [] | Some l \<Rightarrow> cg_startups l)"

definition restart_signature :: "data_dir \<Rightarrow> string" where
  "restart_signature d = (case dd_reason d of None \<Rightarrow> [] | Some x \<Rightarrow> re_reason x)"

text \<open>The breaker resets unless this start is in the crash log and either another moment of the last five minutes is, or a reason for the restart is known.\<close>

definition next_breaker :: "time \<Rightarrow> data_dir \<Rightarrow> circuit_breaker" where
  "next_breaker now d =
     (let b = read_breaker d; ts = crash_startups d;
          recorded = list_ex (\<lambda>t. \<bar>now - t\<bar> < 2000) ts;
          recent = list_ex (\<lambda>t. now - t < RECENT_CRASH_WINDOW_MS \<and> t \<noteq> now) ts;
          sig = (if restart_signature d = [] then ''crash'' else restart_signature d)
      in if recorded \<and> (recent \<or> restart_signature d \<noteq> [])
         then \<lparr>cb_consecutiveFailures = (if sig = cb_lastError b \<or> cb_lastError b = [] then Suc (cb_consecutiveFailures b) else 1),
               cb_lastError = sig, cb_lastTimestamp = now\<rparr>
         else \<lparr>cb_consecutiveFailures = 0, cb_lastError = [], cb_lastTimestamp = now\<rparr>)"

definition analyzeStartupHealth :: "time \<Rightarrow> data_dir \<Rightarrow> data_dir \<times> StartupHealthReport" where
  "analyzeStartupHealth now d =
     (let ts = crash_startups d;
          as = (case dd_alerts d of None \<Rightarrow> [] | Some as \<Rightarrow> as);
          b = next_breaker now d;
          n = cb_consecutiveFailures b;
          halted = (CIRCUIT_BREAKER_THRESHOLD \<le> n);
          d1 = d\<lparr>dd_breaker := Some b\<rparr>;
          d2 = (if halted then d1\<lparr>dd_halted := Some \<lparr>hn_reason = ''Circuit breaker tripped: '' @ show_nat n @ '' consecutive failures'',
                   hn_lastError = cb_lastError b, hn_timestamp = now\<rparr>\<rparr> else d1)
      in (d2, \<lparr>hr_crashesLast24h = length (filter (\<lambda>t. now - t < STARTUP_DAY_MS) ts), hr_consecutiveFailures = n,
            hr_unresolvedAlerts = length (filter (\<lambda>a. \<not> al_resolved a) as),
            hr_patterns = crash_patterns now ts @ alert_patterns now as @
              (if halted then [''circuit_breaker: '' @ show_nat n @ '' consecutive failures (error: '' @ cb_lastError b @ '')''] else []),
            hr_halted = halted\<rparr>))"

definition resetCircuitBreaker :: "time \<Rightarrow> data_dir \<Rightarrow> data_dir" where
  "resetCircuitBreaker now d = d\<lparr>dd_breaker := Some \<lparr>cb_consecutiveFailures = 0, cb_lastError = [], cb_lastTimestamp = now\<rparr>\<rparr>"

section \<open>Runs of the node\<close>

text \<open>What the health check after a deployment answers; \<open>hc_cut\<close> is a run that ends before the answer.\<close>

datatype health_check = hc_passed | hc_failed | hc_error | hc_cut

text \<open>A run ends by a signal that asks it to stop, in time or not, or otherwise with a code (none if it was killed).\<close>

datatype ending = en_shutdown bool | en_exit "int option"

text \<open>A run that passes the guards fails before it is up, finds its port occupied, is stopped before it is up, or boots at a time, maybe reaches its stability delay, and ends.\<close>

datatype fate = ft_fails int | ft_port | ft_stopped bool | ft_boots time "time option" health_check ending

text \<open>The times are those the crash guard and the analysis read.\<close>

record node_run =
  nr_start :: time
  nr_check :: time
  nr_fate :: fate

definition cli_guards :: "(string \<Rightarrow> copy_fault option) \<Rightarrow> time \<Rightarrow> time \<Rightarrow> data_dir \<Rightarrow> builds \<Rightarrow> data_dir \<times> builds \<times> int option" where
  "cli_guards fault t1 t2 d r =
     (case checkAndRecordStartup fault t1 d r of (d1, r1, loop, restored) \<Rightarrow>
        if restored then (d1, r1, Some RESTART_EXIT_CODE)
        else (case analyzeStartupHealth t2 d1 of (d2, rep) \<Rightarrow> (d2, r1, if hr_halted rep then Some 1 else None)))"

definition cli_shutdown :: "bool \<Rightarrow> data_dir \<Rightarrow> data_dir \<times> int option" where
  "cli_shutdown in_time d = (d\<lparr>dd_cleanExit := True\<rparr>, Some (if in_time then 0 else 1))"

definition node_booted :: "time \<Rightarrow> data_dir \<Rightarrow> data_dir" where
  "node_booted t d = markStable (resetCircuitBreaker t d)"

definition post_deploy_check ::
  "(string \<Rightarrow> copy_fault option) \<Rightarrow> health_check \<Rightarrow> data_dir \<Rightarrow> builds \<Rightarrow> data_dir \<times> builds \<times> int option" where
  "post_deploy_check fault h d r =
     (case readRestartReason d of None \<Rightarrow> (d, r, None)
      | Some x \<Rightarrow>
        (case h of hc_failed \<Rightarrow> (case restoreDistBackups fault r of (r', restored) \<Rightarrow>
            (clearRestartReason d, r', if restored then Some RESTART_EXIT_CODE else None))
         | hc_cut \<Rightarrow> (d, r, None)
         | _ \<Rightarrow> (clearRestartReason d, r, None)))"

definition stable_later :: "time option \<Rightarrow> data_dir \<Rightarrow> data_dir" where
  "stable_later t d = (case t of None \<Rightarrow> d | Some t \<Rightarrow> resetCircuitBreaker t (markStable d))"

definition end_run :: "ending \<Rightarrow> data_dir \<Rightarrow> data_dir \<times> int option" where
  "end_run e d = (case e of en_shutdown b \<Rightarrow> cli_shutdown b d | en_exit c \<Rightarrow> (d, c))"

text \<open>Files, builds, the exit code, and whether the node was up.\<close>

definition run_node :: "(string \<Rightarrow> copy_fault option) \<Rightarrow> node_run \<Rightarrow> data_dir \<times> builds \<Rightarrow> (data_dir \<times> builds) \<times> int option \<times> bool" where
  "run_node fault u = (\<lambda>(d, r). case cli_guards fault (nr_start u) (nr_check u) d r of
      (d1, r1, Some c) \<Rightarrow> ((d1, r1), Some c, False)
    | (d1, r1, None) \<Rightarrow>
      (case nr_fate u of
         ft_fails c \<Rightarrow> ((d1, r1), Some c, False)
       | ft_port \<Rightarrow> ((d1, r1), Some 78, False)
       | ft_stopped b \<Rightarrow> (case cli_shutdown b d1 of (d2, c) \<Rightarrow> ((d2, r1), c, False))
       | ft_boots t later h e \<Rightarrow>
         (case post_deploy_check fault h (node_booted t d1) r1 of
            (d2, r2, Some c) \<Rightarrow> ((d2, r2), Some c, True)
          | (d2, r2, None) \<Rightarrow> (case end_run e (stable_later later d2) of (d3, c) \<Rightarrow> ((d3, r2), c, True)))))"

text \<open>One run after the other, with what each returned.\<close>

fun run_nodes ::
  "(string \<Rightarrow> copy_fault option) \<Rightarrow> node_run list \<Rightarrow> data_dir \<times> builds \<Rightarrow> (data_dir \<times> builds) \<times> (int option \<times> bool) list" where
  "run_nodes fault [] w = (w, [])"
| "run_nodes fault (u # us) w =
     (case run_node fault u w of (w1, out) \<Rightarrow> (case run_nodes fault us w1 of (w2, outs) \<Rightarrow> (w2, out # outs)))"

section \<open>The guards need repeated failures\<close>

definition failures :: "data_dir \<Rightarrow> nat" where
  "failures d = cb_consecutiveFailures (read_breaker d)"

text \<open>The last runs in which the node was not up, newest first.\<close>

definition down_runs :: "node_run list \<Rightarrow> (int option \<times> bool) list \<Rightarrow> node_run list" where
  "down_runs us outs = map fst (takeWhile (\<lambda>(u, c, up). \<not> up) (rev (zip us outs)))"

lemma run_nodes_append:
  "run_nodes fault (us @ vs) w = (fst (run_nodes fault vs (fst (run_nodes fault us w))),
     snd (run_nodes fault us w) @ snd (run_nodes fault vs (fst (run_nodes fault us w))))"
  by (induction us arbitrary: w) (simp_all add: case_prod_beta)

lemma run_nodes_length [simp]: "length (snd (run_nodes fault us w)) = length us"
  by (induction us arbitrary: w) (simp_all add: case_prod_beta)

lemma guard_cases:
  assumes "checkAndRecordStartup fault now d r = (d', r', loop, restored)"
  shows "\<not> restored \<Longrightarrow> d' = d\<lparr>dd_cleanExit := False, dd_crashLog := Some (recorded_log now d)\<rparr>"
    "restored \<Longrightarrow> d' = d\<lparr>dd_cleanExit := False, dd_crashLog := Some \<lparr>cg_startups = [], cg_lastRollback = Some now\<rparr>\<rparr>"
    "restored \<Longrightarrow> CRASH_THRESHOLD \<le> length (cg_startups (recorded_log now d))"
  using assms by (cases "length (cg_startups (recorded_log now d)) < CRASH_THRESHOLD"; cases "rolled_back_recently now (recorded_log now d)";
      cases "restoreDistBackups fault r"; cases "snd (restoreDistBackups fault r)"; auto simp: checkAndRecordStartup_def Let_def)+

lemma guard_keeps:
  assumes "checkAndRecordStartup fault now d r = (d', r', loop, restored)"
  shows "failures d' = failures d" "read_breaker d' = read_breaker d" "dd_reason d' = dd_reason d" "\<not> dd_cleanExit d'"
  using guard_cases(1,2) [OF assms] by (cases restored; simp add: failures_def read_breaker_def)+

lemma recorded_startups:
  "cg_startups (recorded_log now d) = filter (\<lambda>t. now - t < CRASH_WINDOW_MS) (crash_startups d) @ (if dd_cleanExit d then [] else [now])"
  by (simp add: recorded_log_def read_crash_log_def crash_startups_def Let_def split: option.split)

text \<open>How the operations change the two records: the failures counted and the starts remembered.\<close>

lemma record_effects [simp]:
  "failures (node_booted t d) = 0" "crash_startups (node_booted t d) = []"
  "failures (fst (end_run e d)) = failures d" "crash_startups (fst (end_run e d)) = crash_startups d"
  "failures (fst (cli_shutdown b d)) = failures d" "crash_startups (fst (cli_shutdown b d)) = crash_startups d"
  "failures (fst (post_deploy_check fault h d r)) = failures d" "crash_startups (fst (post_deploy_check fault h d r)) = crash_startups d"
  "crash_startups (fst (analyzeStartupHealth now d)) = crash_startups d"
  by (auto simp: node_booted_def markStable_def resetCircuitBreaker_def failures_def read_breaker_def crash_startups_def end_run_def cli_shutdown_def
      post_deploy_check_def clearRestartReason_def analyzeStartupHealth_def Let_def split: ending.split option.split health_check.split prod.split)

lemma stable_effects: "failures d = 0 \<Longrightarrow> failures (stable_later x d) = 0" "crash_startups d = [] \<Longrightarrow> crash_startups (stable_later x d) = []"
  by (cases x; simp add: stable_later_def markStable_def resetCircuitBreaker_def failures_def read_breaker_def crash_startups_def)+

lemma analysis_counts: "failures (fst (analyzeStartupHealth now d)) = cb_consecutiveFailures (next_breaker now d)"
    "cb_consecutiveFailures (next_breaker now d) \<le> Suc (failures d)"
  by (simp_all add: analyzeStartupHealth_def next_breaker_def Let_def failures_def read_breaker_def)

lemma guards_count:
  assumes "cli_guards fault t1 t2 d r = (d', r', c)"
  shows "failures d' \<le> Suc (failures d)" "crash_startups d' = [] \<or> crash_startups d' = cg_startups (recorded_log t1 d)"
proof -
  obtain d1 r1 loop restored where g: "checkAndRecordStartup fault t1 d r = (d1, r1, loop, restored)" by (metis prod_cases4)
  have "d' = (if restored then d1 else fst (analyzeStartupHealth t2 d1))" using assms g by (auto simp: cli_guards_def split: prod.split_asm if_split_asm)
  moreover have "failures d1 = failures d" by (rule guard_keeps [OF g])
  moreover have "crash_startups d1 = [] \<or> crash_startups d1 = cg_startups (recorded_log t1 d)"
    using guard_cases(1,2) [OF g] by (cases restored) (simp_all add: crash_startups_def)
  ultimately show "failures d' \<le> Suc (failures d)" "crash_startups d' = [] \<or> crash_startups d' = cg_startups (recorded_log t1 d)"
    using analysis_counts [of t2 d1] by (auto split: if_split_asm)
qed

lemma run_counts:
  assumes "run_node fault u (d, r) = ((d', r'), c, up)"
  shows "failures d' \<le> (if up then 0 else Suc (failures d))"
    "crash_startups d' = [] \<or> \<not> up \<and> crash_startups d' = cg_startups (recorded_log (nr_start u) d)"
proof -
  obtain d1 r1 c1 where g: "cli_guards fault (nr_start u) (nr_check u) d r = (d1, r1, c1)" by (metis prod_cases3)
  note n = guards_count [OF g]
  have "up \<and> failures d' = 0 \<and> crash_startups d' = [] \<or> \<not> up \<and> failures d' = failures d1 \<and> crash_startups d' = crash_startups d1"
  proof (cases c1)
    case (Some x)
    then show ?thesis using assms g by (auto simp: run_node_def)
  next
    case None
    show ?thesis
    proof (cases "nr_fate u")
      case (ft_boots t later h e)
      obtain d2 r2 c2 where p: "post_deploy_check fault h (node_booted t d1) r1 = (d2, r2, c2)" by (metis prod_cases3)
      have d2: "failures d2 = 0" "crash_startups d2 = []" using record_effects(7,8) [of fault h "node_booted t d1" r1] by (simp_all add: p)
      obtain d3 c3 where e: "end_run e (stable_later later d2) = (d3, c3)" by (metis prod.exhaust)
      have d3: "failures d3 = 0" "crash_startups d3 = []" using record_effects(3,4) [of e "stable_later later d2"] d2 by (simp_all add: e stable_effects)
      show ?thesis
      proof (cases c2)
        case None
        then show ?thesis using assms g \<open>c1 = None\<close> ft_boots p e d3 by (auto simp: run_node_def)
      qed (use assms g None ft_boots p d2 in \<open>auto simp: run_node_def\<close>)
    next
      case (ft_stopped b)
      then show ?thesis using assms g None by (auto simp: run_node_def cli_shutdown_def failures_def read_breaker_def crash_startups_def)
    qed (use assms g None in \<open>auto simp: run_node_def\<close>)
  qed
  then show "failures d' \<le> (if up then 0 else Suc (failures d))"
    "crash_startups d' = [] \<or> \<not> up \<and> crash_startups d' = cg_startups (recorded_log (nr_start u) d)" using n by auto
qed

definition fresh_dir :: "data_dir \<Rightarrow> bool" where
  "fresh_dir d = (crash_startups d = [] \<and> failures d = 0)"

lemma down_runs_snoc:
  "length us = length outs \<Longrightarrow> down_runs (us @ [u]) (outs @ [(c, up)]) = (if up then [] else u # down_runs us outs)"
  by (simp add: down_runs_def)

lemma recent_starts:
  "length (filter (\<lambda>t. now - t < w) (filter Q ts)) \<le> length (filter (\<lambda>t. now - t < w) ts)"
  by (induction ts) auto

lemma records_are_down_runs:
  assumes "fresh_dir d"
  shows "run_nodes fault us (d, r) = ((d', r'), outs) \<Longrightarrow> failures d' \<le> length (down_runs us outs) \<and>
    (\<forall>now w. length (filter (\<lambda>t. now - t < w) (crash_startups d')) \<le> length (filter (\<lambda>u. now - nr_start u < w) (down_runs us outs)))"
proof (induction us arbitrary: d' r' outs rule: rev_induct)
  case Nil
  then show ?case using assms by (simp add: fresh_dir_def down_runs_def)
next
  case (snoc u us)
  obtain e q os where p: "run_nodes fault us (d, r) = ((e, q), os)" by (metis prod_cases3 prod.exhaust)
  have l: "length us = length os" using run_nodes_length [of fault us "(d, r)"] p by simp
  obtain c up where run: "run_node fault u (e, q) = ((d', r'), c, up)" "outs = os @ [(c, up)]"
    using snoc.prems by (cases "run_node fault u (e, q)") (auto simp: run_nodes_append p case_prod_beta)
  have "length (filter (\<lambda>t. now - t < w) (crash_startups d')) \<le>
      (if up then 0 else length (filter (\<lambda>t. now - t < w) (crash_startups e)) + (if now - nr_start u < w then 1 else 0))" for now w
    using run_counts(2) [OF run(1)] recent_starts [of now w "\<lambda>t. nr_start u - t < CRASH_WINDOW_MS" "crash_startups e"] by (auto simp: recorded_startups)
  moreover have "down_runs (us @ [u]) outs = (if up then [] else u # down_runs us os)" by (simp add: run(2) down_runs_snoc [OF l])
  ultimately show ?case using snoc.IH [OF p] run_counts(1) [OF run(1)] by (fastforce intro: order_trans)
qed

text \<open>C35: The guards act on repeated failures only. From a fresh data directory, whatever runs came before, a start that is halted follows at least four runs in a row in
  which the node was not up, and a start that restores the builds at least five such runs of the last minute.\<close>

theorem guards_need_failures:
  assumes "fresh_dir d" and "run_nodes fault us (d, r) = ((d', r'), outs)" and "cli_guards fault t1 t2 d' r' = (d'', r'', Some c)"
  shows "c = 1 \<and> 4 \<le> length (down_runs us outs) \<or>
    c = RESTART_EXIT_CODE \<and> 5 \<le> length (filter (\<lambda>u. t1 - nr_start u < CRASH_WINDOW_MS) (down_runs us outs))"
proof -
  obtain d1 r1 loop restored where g: "checkAndRecordStartup fault t1 d' r' = (d1, r1, loop, restored)" by (metis prod_cases4)
  note downs = records_are_down_runs [OF assms(1,2)]
  show ?thesis
  proof (cases restored)
    case True
    then have "5 \<le> length (filter (\<lambda>t. t1 - t < CRASH_WINDOW_MS) (crash_startups d'))"
      using guard_cases(3) [OF g] by (auto simp: recorded_startups CRASH_THRESHOLD_def split: if_split_asm)
    then show ?thesis using downs True assms(3) g by (fastforce simp: cli_guards_def intro: order_trans)
  next
    case False
    then have "c = 1" "CIRCUIT_BREAKER_THRESHOLD \<le> cb_consecutiveFailures (next_breaker t2 d1)"
      using assms(3) g by (auto simp: cli_guards_def analyzeStartupHealth_def Let_def split: if_split_asm)
    then show ?thesis using analysis_counts(2) [of t2 d1] guard_keeps(1) [OF g] downs by (simp add: CIRCUIT_BREAKER_THRESHOLD_def)
  qed
qed

definition crash_dir :: data_dir where
  "crash_dir = \<lparr>dd_crashLog = None, dd_cleanExit = False, dd_reason = None, dd_alerts = None, dd_breaker = None, dd_halted = None\<rparr>"

definition crash_builds :: builds where
  "crash_builds = (\<lambda>p. \<lparr>pk_dist = Some ''bad'', pk_backup = Some ''good''\<rparr>)"

text \<open>A run started at \<open>t\<close> that crashes with code 1.\<close>

definition crash_run :: "time \<Rightarrow> node_run" where
  "crash_run t = \<lparr>nr_start = t, nr_check = t + 1, nr_fate = ft_fails 1\<rparr>"

theorem guards_need_failures_witness:
  "4 \<le> length (down_runs (map crash_run [1000, 8000, 15000, 22000]) (snd (run_nodes (\<lambda>_. None) (map crash_run [1000, 8000, 15000, 22000]) (crash_dir, crash_builds)))) \<or>
   5 \<le> length (filter (\<lambda>u. 29000 - nr_start u < CRASH_WINDOW_MS)
     (down_runs (map crash_run [1000, 8000, 15000, 22000]) (snd (run_nodes (\<lambda>_. None) (map crash_run [1000, 8000, 15000, 22000]) (crash_dir, crash_builds)))))"
proof -
  let ?w = "fst (run_nodes (\<lambda>_. None) (map crash_run [1000, 8000, 15000, 22000]) (crash_dir, crash_builds))"
  let ?outs = "snd (run_nodes (\<lambda>_. None) (map crash_run [1000, 8000, 15000, 22000]) (crash_dir, crash_builds))"
  have f: "fresh_dir crash_dir" by (simp add: fresh_dir_def crash_dir_def crash_startups_def failures_def read_breaker_def)
  have r: "run_nodes (\<lambda>_. None) (map crash_run [1000, 8000, 15000, 22000]) (crash_dir, crash_builds) = ((fst ?w, snd ?w), ?outs)" by simp
  have h: "snd (snd (cli_guards (\<lambda>_. None) 29000 29001 (fst ?w) (snd ?w))) = Some 1"
    by (simp add: run_node_def cli_guards_def checkAndRecordStartup_def recorded_log_def read_crash_log_def crash_run_def crash_dir_def CRASH_WINDOW_MS_def CRASH_THRESHOLD_def
      analyzeStartupHealth_def next_breaker_def read_breaker_def crash_startups_def restart_signature_def RECENT_CRASH_WINDOW_MS_def CIRCUIT_BREAKER_THRESHOLD_def Let_def
      del: show_nat.simps)
  obtain d'' r'' where "cli_guards (\<lambda>_. None) 29000 29001 (fst ?w) (snd ?w) = (d'', r'', Some 1)" using h by (metis prod.collapse)
  from guards_need_failures [OF f r this] show ?thesis by blast
qed

section \<open>A restored build stays halted\<close>

text \<open>A data directory of a node that failed five times or more: not after a clean exit, and no reason known for the restart.\<close>

definition cut_off :: "data_dir \<Rightarrow> bool" where
  "cut_off d = (\<not> dd_cleanExit d \<and> dd_reason d = None \<and> 5 \<le> failures d \<and> cb_lastError (read_breaker d) = ''crash'')"

text \<open>Two seconds at most pass between the guard and the analysis, and not none.\<close>

definition prompt :: "node_run \<Rightarrow> bool" where
  "prompt u = (nr_start u < nr_check u \<and> nr_check u < nr_start u + 2000)"

definition failing :: "time list \<Rightarrow> data_dir \<Rightarrow> bool" where
  "failing ts d = (\<not> dd_cleanExit d \<and> dd_reason d = None \<and> read_crash_log d = \<lparr>cg_startups = ts, cg_lastRollback = None\<rparr> \<and> failures d = length ts \<and>
     cb_lastError (read_breaker d) = (if ts = [] then [] else ''crash''))"

lemma next_breaker_counts:
  assumes "nr_start u \<in> set (crash_startups d)" and "prompt u" and "dd_reason d = None" and "cb_lastError (read_breaker d) \<in> {[], ''crash''}"
  shows "next_breaker (nr_check u) d = \<lparr>cb_consecutiveFailures = Suc (failures d), cb_lastError = ''crash'', cb_lastTimestamp = nr_check u\<rparr>"
proof -
  have "list_ex (\<lambda>t. \<bar>nr_check u - t\<bar> < 2000) (crash_startups d)" "list_ex (\<lambda>t. nr_check u - t < RECENT_CRASH_WINDOW_MS \<and> t \<noteq> nr_check u) (crash_startups d)"
    using assms(1,2) by (force simp: list_ex_iff prompt_def RECENT_CRASH_WINDOW_MS_def)+
  then show ?thesis using assms(3,4) by (auto simp: next_breaker_def Let_def restart_signature_def failures_def)
qed

lemma analysis_writes:
  "fst (analyzeStartupHealth now d) = d\<lparr>dd_breaker := Some (next_breaker now d),
     dd_halted := (if 5 \<le> cb_consecutiveFailures (next_breaker now d) then dd_halted (fst (analyzeStartupHealth now d)) else dd_halted d)\<rparr>"
  "hr_halted (snd (analyzeStartupHealth now d)) = (5 \<le> cb_consecutiveFailures (next_breaker now d))"
  by (simp_all add: analyzeStartupHealth_def Let_def CIRCUIT_BREAKER_THRESHOLD_def)

text \<open>A start that is recorded and passes the crash guard counts as one more failure.\<close>

lemma unrestored_start:
  assumes g: "checkAndRecordStartup fault (nr_start u) d r = (d1, r1, loop, False)" and "\<not> dd_cleanExit d" "dd_reason d = None" "cb_lastError (read_breaker d) \<in> {[], ''crash''}" "prompt u"
  shows "\<exists>d2. cli_guards fault (nr_start u) (nr_check u) d r = (d2, r1, if 4 \<le> failures d then Some 1 else None) \<and> \<not> dd_cleanExit d2 \<and> dd_reason d2 = None \<and>
    failures d2 = Suc (failures d) \<and> cb_lastError (read_breaker d2) = ''crash'' \<and> read_crash_log d2 = recorded_log (nr_start u) d"
proof -
  have d1: "d1 = d\<lparr>dd_cleanExit := False, dd_crashLog := Some (recorded_log (nr_start u) d)\<rparr>" using guard_cases(1) [OF g] by simp
  have "nr_start u \<in> set (crash_startups d1)" using assms(2) by (simp add: d1 crash_startups_def recorded_startups)
  moreover have "dd_reason d1 = None" "cb_lastError (read_breaker d1) \<in> {[], ''crash''}" using assms(3,4) guard_keeps(2,3) [OF g] by simp_all
  ultimately have b: "next_breaker (nr_check u) d1 = \<lparr>cb_consecutiveFailures = Suc (failures d1), cb_lastError = ''crash'', cb_lastTimestamp = nr_check u\<rparr>"
    using next_breaker_counts assms(5) by blast
  define d2 where "d2 = fst (analyzeStartupHealth (nr_check u) d1)"
  have d2: "dd_breaker d2 = Some (next_breaker (nr_check u) d1)" "dd_cleanExit d2 = dd_cleanExit d1" "dd_reason d2 = dd_reason d1" "dd_crashLog d2 = dd_crashLog d1"
    unfolding d2_def by (subst analysis_writes(1), simp)+
  have "cli_guards fault (nr_start u) (nr_check u) d r = (d2, r1, if 4 \<le> failures d then Some 1 else None)"
    using g analysis_writes(2) [of "nr_check u" d1] b guard_keeps(1) [OF g] by (simp add: cli_guards_def d2_def case_prod_beta)
  then show ?thesis using d2 d1 b guard_keeps(1) [OF g] assms(3) by (intro exI [of _ d2]) (simp add: failures_def read_breaker_def read_crash_log_def)
qed

lemma run_halted: "cli_guards fault (nr_start u) (nr_check u) d r = (d1, r1, Some c) \<Longrightarrow> run_node fault u (d, r) = ((d1, r1), Some c, False)"
  by (simp add: run_node_def)

definition restored_with :: "builds \<Rightarrow> builds" where
  "restored_with r = (\<lambda>p. if p \<in> set PACKAGES \<and> pk_backup (r p) \<noteq> None then (r p)\<lparr>pk_dist := pk_backup (r p)\<rparr> else r p)"

lemma restore_fold:
  "fold (restore_package (\<lambda>_. None)) ps (r, n) =
     (\<lambda>p. if p \<in> set ps \<and> pk_backup (r p) \<noteq> None then (r p)\<lparr>pk_dist := pk_backup (r p)\<rparr> else r p, n + length (filter (\<lambda>p. pk_backup (r p) \<noteq> None) ps))"
proof (induction ps arbitrary: r n)
  case (Cons q ps)
  have "restore_package (\<lambda>_. None) q (r, n) = (case pk_backup (r q) of None \<Rightarrow> (r, n) | Some b \<Rightarrow> (r(q := (r q)\<lparr>pk_dist := Some b\<rparr>), Suc n))"
    by (simp add: restore_package_def split: option.split)
  then show ?case by (cases "pk_backup (r q)") (auto simp: Cons.IH fun_eq_iff intro!: arg_cong [where f = length] filter_cong)
qed simp

lemma restore_without_faults:
  "restoreDistBackups (\<lambda>_. None) r = (restored_with r, \<exists>p \<in> set PACKAGES. pk_backup (r p) \<noteq> None)"
  by (auto simp: restoreDistBackups_def restore_fold restored_with_def filter_empty_conv)

lemma failing_step:
  assumes "failing ts d" and "length ts < 5" and "\<forall>t \<in> set ts. nr_start u - t < CRASH_WINDOW_MS" and "prompt u" and "nr_fate u = ft_fails c"
  shows "\<exists>d' x. run_node fault u (d, r) = ((d', r), x, False) \<and> failing (ts @ [nr_start u]) d'"
proof -
  have rec: "recorded_log (nr_start u) d = \<lparr>cg_startups = ts @ [nr_start u], cg_lastRollback = None\<rparr>"
    using assms(1,3) by (simp add: recorded_log_def failing_def Let_def)
  then obtain d1 where "checkAndRecordStartup fault (nr_start u) d r = (d1, r, False, False)"
    using assms(2) by (simp add: checkAndRecordStartup_def Let_def CRASH_THRESHOLD_def)
  moreover have "\<not> dd_cleanExit d" "dd_reason d = None" "cb_lastError (read_breaker d) \<in> {[], ''crash''}" using assms(1) by (simp_all add: failing_def)
  ultimately obtain d2 where d2:
    "cli_guards fault (nr_start u) (nr_check u) d r = (d2, r, if 4 \<le> failures d then Some 1 else None)" "\<not> dd_cleanExit d2" "dd_reason d2 = None"
    "failures d2 = Suc (failures d)" "cb_lastError (read_breaker d2) = ''crash''" "read_crash_log d2 = recorded_log (nr_start u) d"
    using unrestored_start [OF _ _ _ _ assms(4)] by meson
  then have "failing (ts @ [nr_start u]) d2" using assms(1) by (simp add: failing_def rec)
  then show ?thesis using d2(1) assms(5) by (auto simp: run_node_def)
qed

lemma failing_runs:
  assumes "failing ts d" and "length ts + length us \<le> 5" and "\<forall>v \<in> set us. prompt v \<and> (\<exists>c. nr_fate v = ft_fails c)"
    and "\<forall>v \<in> set us. \<forall>t \<in> set ts \<union> nr_start ` set us. nr_start v - t < CRASH_WINDOW_MS"
  shows "\<exists>d' outs. run_nodes fault us (d, r) = ((d', r), outs) \<and> failing (ts @ map nr_start us) d' \<and> (\<forall>x \<in> set outs. \<not> snd x)"
  using assms
proof (induction us arbitrary: ts d)
  case (Cons u us)
  obtain c where c: "nr_fate u = ft_fails c" using Cons.prems(3) by auto
  obtain d1 x where s: "run_node fault u (d, r) = ((d1, r), x, False)" "failing (ts @ [nr_start u]) d1"
    using failing_step [OF Cons.prems(1) _ _ _ c, of fault r] Cons.prems(2-4) by auto
  obtain d' outs where "run_nodes fault us (d1, r) = ((d', r), outs)" "failing ((ts @ [nr_start u]) @ map nr_start us) d'" "\<forall>x \<in> set outs. \<not> snd x"
    using Cons.IH [OF s(2)] Cons.prems(2-4) by fastforce
  then show ?case using s(1) by auto
qed simp

lemma rollback_step:
  assumes "failing ts d" and "length ts = 5" and "\<forall>t \<in> set ts. nr_start u - t < CRASH_WINDOW_MS" and "pk_backup (r ''node'') \<noteq> None"
  shows "\<exists>d'. run_node (\<lambda>_. None) u (d, r) = ((d', restored_with r), Some 75, False) \<and> cut_off d'"
proof -
  have rec: "recorded_log (nr_start u) d = \<lparr>cg_startups = ts @ [nr_start u], cg_lastRollback = None\<rparr>"
    using assms(1,3) by (simp add: recorded_log_def failing_def Let_def)
  let ?d = "d\<lparr>dd_cleanExit := False, dd_crashLog := Some \<lparr>cg_startups = [], cg_lastRollback = Some (nr_start u)\<rparr>\<rparr>"
  have "\<exists>p \<in> set PACKAGES. pk_backup (r p) \<noteq> None" using assms(4) by (auto simp: PACKAGES_def)
  then have g: "checkAndRecordStartup (\<lambda>_. None) (nr_start u) d r = (?d, restored_with r, True, True)"
    using assms(2) rec by (simp add: checkAndRecordStartup_def Let_def CRASH_THRESHOLD_def rolled_back_recently_def restore_without_faults)
  have "ts \<noteq> []" using assms(2) by auto
  then have "cut_off ?d" using assms(1,2) by (simp add: cut_off_def failing_def failures_def read_breaker_def)
  then show ?thesis using g by (simp add: run_node_def cli_guards_def RESTART_EXIT_CODE_def)
qed

lemma cut_off_stays:
  assumes "cut_off d" and "prompt u"
  shows "\<exists>d' r' c. run_node (\<lambda>_. None) u (d, r) = ((d', r'), Some c, False) \<and> c \<in> {1, 75} \<and> cut_off d' \<and> r' \<in> {r, restored_with r}"
proof -
  obtain d1 r1 loop restored where g: "checkAndRecordStartup (\<lambda>_. None) (nr_start u) d r = (d1, r1, loop, restored)" by (metis prod_cases4)
  have r1: "r1 \<in> {r, restored_with r}" using g
    by (auto simp: checkAndRecordStartup_def Let_def restore_without_faults split: if_split_asm bool.split_asm)
  show ?thesis
  proof (cases restored)
    case True
    have "cut_off d1" using assms(1) guard_keeps [OF g] by (simp add: cut_off_def)
    then show ?thesis using g True r1 by (auto simp: run_node_def cli_guards_def RESTART_EXIT_CODE_def)
  next
    case False
    have "\<not> dd_cleanExit d" "dd_reason d = None" "cb_lastError (read_breaker d) \<in> {[], ''crash''}" "4 \<le> failures d" using assms(1) by (simp_all add: cut_off_def)
    then obtain d2 where "cli_guards (\<lambda>_. None) (nr_start u) (nr_check u) d r = (d2, r1, Some 1)" "\<not> dd_cleanExit d2" "dd_reason d2 = None"
      "failures d2 = Suc (failures d)" "cb_lastError (read_breaker d2) = ''crash''"
      using unrestored_start [OF _ _ _ _ assms(2), of "\<lambda>_. None" d r d1 r1 loop] g False by auto
    then show ?thesis using r1 assms(1) run_halted by (fastforce simp: cut_off_def)
  qed
qed

lemma cut_off_runs:
  assumes "cut_off d" and "\<forall>u \<in> set us. prompt u" and "pk_backup (r p) = Some b" "pk_dist (r p) = Some b"
  shows "\<exists>d' r' outs. run_nodes (\<lambda>_. None) us (d, r) = ((d', r'), outs) \<and> pk_dist (r' p) = Some b \<and> (\<forall>x \<in> set outs. \<not> snd x \<and> fst x \<in> {Some 1, Some 75})"
  using assms
proof (induction us arbitrary: d r)
  case (Cons u us)
  obtain d1 r1 c where s: "run_node (\<lambda>_. None) u (d, r) = ((d1, r1), Some c, False)" "c \<in> {1, 75}" "cut_off d1" "r1 \<in> {r, restored_with r}"
    using cut_off_stays [OF Cons.prems(1), of u r] Cons.prems(2) by auto
  have "pk_backup (r1 p) = Some b" "pk_dist (r1 p) = Some b" using s(4) Cons.prems(3,4) by (auto simp: restored_with_def)
  then obtain d' r' outs where
    "run_nodes (\<lambda>_. None) us (d1, r1) = ((d', r'), outs)" "pk_dist (r' p) = Some b" "\<forall>x \<in> set outs. \<not> snd x \<and> fst x \<in> {Some 1, Some 75}"
    using Cons.IH [OF s(3), where r = r1] Cons.prems(2) by auto
  then show ?case using s(1,2) by auto
qed simp



end
