(* ===== verification/Supervisor.thy ===== *)
theory Supervisor
  imports CrashGuard
begin

text \<open>
  The process that keeps a node and its companion \<^verbatim>\<open>pando-teams\<close> running (\<^verbatim>\<open>packages/node/src/supervisor.ts\<close>): it spawns both, spawns them again after a
  crash or a restart, stops them, restarts them when their code changed, and shows them in the system tray. Processes are numbers; the
  timers that spawn a node or exit, and the health checks awaited, are counted in the state. How the processes end, what HTTP and git
  answer, and the clicks are the events of a step relation. In titles three dots stand for the ellipsis, and a star or a circle for the dot.
\<close>

section \<open>State\<close>

type_synonym pid = nat

record ServiceInfo =
  si_id :: string
  si_version :: string
  si_healthy :: bool
  si_uiUrl :: "string option"

record NodeState =
  ns_online :: bool
  ns_peers :: int
  ns_lux :: int
  ns_services :: "ServiceInfo list"
  ns_localHubPort :: "int option"

record menu_item =
  mi_title :: string
  mi_enabled :: bool
  mi_hidden :: bool

text \<open>\<open>sv_nodes\<close> and \<open>sv_teams\<close> are the processes alive, \<open>sv_child\<close> and \<open>sv_teamsChild\<close> those the program knows. \<open>sv_signalled\<close> got a signal from it.
  \<open>sv_respawns\<close>, \<open>sv_teamsRespawns\<close> and \<open>sv_quits\<close> are pending timers, \<open>sv_checks\<close> and \<open>sv_polls\<close> awaited answers; \<open>sv_menu\<close> is the tray.\<close>

record supervisor =
  sv_hasTeams :: bool
  sv_nodes :: "pid list"
  sv_teams :: "pid list"
  sv_child :: "pid option"
  sv_teamsChild :: "pid option"
  sv_stopping :: bool
  sv_userStopped :: bool
  sv_teamsUserStopped :: bool
  sv_crashTimes :: "time list"
  sv_teamsCrashTimes :: "time list"
  sv_external :: bool
  sv_lastState :: NodeState
  sv_teamsOnline :: bool
  sv_menu :: "menu_item list option"
  sv_stale :: "(string, time option) jsmap"
  sv_respawns :: nat
  sv_teamsRespawns :: nat
  sv_checks :: nat
  sv_polls :: nat
  sv_quits :: nat
  sv_exit :: "int option"
  sv_signalled :: "pid list"
  sv_built :: nat
  sv_opened :: "string list"
  sv_nextPid :: pid

definition SUPERVISOR_CRASH_WINDOW_MS :: time where "SUPERVISOR_CRASH_WINDOW_MS = 5 * 60 * 1000"
definition MAX_CRASHES :: nat where "MAX_CRASHES = 5"

definition offline_state :: NodeState where
  "offline_state = \<lparr>ns_online = False, ns_peers = 0, ns_lux = 0, ns_services = [], ns_localHubPort = None\<rparr>"

section \<open>Arguments\<close>

definition arg_after :: "string \<Rightarrow> string list \<Rightarrow> string option" where
  "arg_after flag args = (case dropWhile (\<lambda>a. a \<noteq> flag) args of a # b # rest \<Rightarrow> if b = [] then None else Some b | _ \<Rightarrow> None)"

fun digits_value :: "int \<Rightarrow> string \<Rightarrow> int" where
  "digits_value n [] = n"
| "digits_value n (c # cs) =
     (let d = of_char c :: nat in if 48 \<le> d \<and> d \<le> 57 then digits_value (10 * n + int (d - 48)) cs else n)"

text \<open>\<^verbatim>\<open>parseInt(s, 10)\<close>, with 0 for what is not a number; only positive values matter here.\<close>

definition positive_int :: "string \<Rightarrow> int" where
  "positive_int s = (case dropWhile js_white s of CHR ''+'' # cs \<Rightarrow> digits_value 0 cs | cs \<Rightarrow> digits_value 0 cs)"

definition valid_port :: "string option \<Rightarrow> int option" where
  "valid_port x = (case x of None \<Rightarrow> None | Some s \<Rightarrow> if 0 < positive_int s \<and> positive_int s < 65536 then Some (positive_int s) else None)"

definition resolveApiPort :: "string list \<Rightarrow> string option \<Rightarrow> int" where
  "resolveApiPort args env =
     (case valid_port (arg_after ''--api-port'' args) of Some p \<Rightarrow> p
      | None \<Rightarrow> (case valid_port env of Some p \<Rightarrow> p | None \<Rightarrow> 4000))"

text \<open>\<open>has_server\<close> tells whether a directory, as an absolute path, contains the server's entry point, and \<open>absolute\<close> makes a path absolute.\<close>

definition resolveTeamsPath :: "(string \<Rightarrow> string) \<Rightarrow> (string \<Rightarrow> bool) \<Rightarrow> string \<Rightarrow> string list \<Rightarrow> string option \<Rightarrow> string option" where
  "resolveTeamsPath absolute has_server repo args env =
     (let candidates = (case arg_after ''--teams-path'' args of None \<Rightarrow> [] | Some p \<Rightarrow> [absolute p]) @
            (case env of None \<Rightarrow> [] | Some p \<Rightarrow> if p = [] then [] else [absolute p]) @
            map (\<lambda>d. path_join (path_join repo ''..'') d) [''teams'', ''code'']
      in find has_server candidates)"

fun filter_teams_path :: "string list \<Rightarrow> string list" where
  "filter_teams_path [] = []"
| "filter_teams_path (a # as) =
     (if a = ''--teams-path'' then (case as of [] \<Rightarrow> [] | b # bs \<Rightarrow> filter_teams_path bs)
      else if startsWith a ''--teams-path='' then filter_teams_path as else a # filter_teams_path as)"

definition node_arguments :: "string \<Rightarrow> string list \<Rightarrow> string list" where
  "node_arguments cli args = cli # ''--supervised'' # filter_teams_path args"

section \<open>The tray\<close>

definition item :: "string \<Rightarrow> bool \<Rightarrow> bool \<Rightarrow> menu_item" where
  "item title enabled hidden = \<lparr>mi_title = title, mi_enabled = enabled, mi_hidden = hidden\<rparr>"

definition buildInitialMenu :: "bool \<Rightarrow> menu_item list" where
  "buildInitialMenu hasTeams =
     [item ''Node: Starting...'' False False,
      item (if hasTeams then ''Teams: Starting...'' else ''Teams: Not configured'') False (\<not> hasTeams),
      item [] False False, item [] False True, item [] False True,
      item ''Hub (local)'' True True, item ''Hub (web)'' True True, item ''Open Teams (localhost:4873)'' True (\<not> hasTeams),
      item [] False False,
      item ''Restart Node'' True True, item ''Stop Node'' True True, item ''Start Node'' True True,
      item ''Restart Teams'' True True, item ''Stop Teams'' True True, item ''Start Teams'' True True,
      item [] False False, item ''Quit'' True False]"

definition js_upper_ascii :: "char \<Rightarrow> char" where
  "js_upper_ascii c = (let n = of_char c :: nat in if 97 \<le> n \<and> n \<le> 122 then char_of (n - 32) else c)"

definition service_label :: "string \<Rightarrow> string" where
  "service_label i = (case (if startsWith i ''pando-'' then drop 6 i else i) of [] \<Rightarrow> [] | c # cs \<Rightarrow> js_upper_ascii c # cs)"

definition node_status_text :: "supervisor \<Rightarrow> string" where
  "node_status_text s =
     (let st = sv_lastState s in
      if sv_child s = None then ''Node: Stopped'' else if \<not> ns_online st then ''Node: Starting...''
      else ''Node: '' @ show_time (ns_peers st) @ '' peer'' @ (if ns_peers st \<noteq> 1 then ''s'' else []) @ '' | '' @ show_time (ns_lux st) @ '' Lux'')"

definition teams_status_text :: "supervisor \<Rightarrow> string" where
  "teams_status_text s =
     (if \<not> sv_hasTeams s then ''Teams: Not configured'' else if sv_teamsChild s = None then ''Teams: Stopped''
      else if \<not> sv_teamsOnline s then ''Teams: Starting...'' else ''Teams: Online (port 4873)'')"

definition service_slot :: "supervisor \<Rightarrow> ServiceInfo option" where
  "service_slot s = (case ns_services (sv_lastState s) of x # xs \<Rightarrow> if ns_online (sv_lastState s) then Some x else None | [] \<Rightarrow> None)"

definition service_text :: "supervisor \<Rightarrow> string" where
  "service_text s = (case service_slot s of None \<Rightarrow> []
     | Some x \<Rightarrow> (if si_healthy x then ''* '' else ''o '') @ service_label (si_id x) @ '' v'' @ si_version x)"

text \<open>The items that are updated; the separators and \<^verbatim>\<open>Quit\<close> stay.\<close>

definition tray_items :: "supervisor \<Rightarrow> (nat \<times> menu_item) list" where
  "tray_items s =
     (let st = sv_lastState s; running = (sv_child s \<noteq> None); ready = ns_online st; teams = (sv_teamsChild s \<noteq> None); has = sv_hasTeams s;
          svc = (service_slot s \<noteq> None); hub = (ready \<and> ns_localHubPort st \<noteq> None);
          url = (case service_slot s of None \<Rightarrow> False | Some x \<Rightarrow> truthy (si_uiUrl x));
          port = (case ns_localHubPort st of None \<Rightarrow> ''null'' | Some p \<Rightarrow> show_time p)
      in [(0, item (node_status_text s) False False), (1, item (teams_status_text s) False (\<not> has)), (3, item (service_text s) (svc \<and> url) (\<not> svc)),
          (4, item [] False (\<not> svc \<and> \<not> hub \<and> \<not> ready)), (5, item (''Hub (localhost:'' @ port @ '')'') True (\<not> hub)),
          (6, item ''Hub (web)'' True (\<not> ready)), (7, item ''Open Teams (localhost:4873)'' (sv_teamsOnline s) (\<not> has)),
          (9, item ''Restart Node'' True (\<not> running)), (10, item ''Stop Node'' True (\<not> running)), (11, item ''Start Node'' True running),
          (12, item ''Restart Teams'' True (\<not> teams \<or> \<not> has)), (13, item ''Stop Teams'' True (\<not> teams \<or> \<not> has)),
          (14, item ''Start Teams'' True (teams \<or> \<not> has))])"

definition refreshTray :: "supervisor \<Rightarrow> supervisor" where
  "refreshTray s = (case sv_menu s of None \<Rightarrow> s | Some m \<Rightarrow> s\<lparr>sv_menu := Some (fold (\<lambda>(i, x) m. m[i := x]) (tray_items s) m)\<rparr>)"

definition initTray :: "supervisor \<Rightarrow> supervisor" where
  "initTray s = s\<lparr>sv_menu := Some (buildInitialMenu (sv_hasTeams s))\<rparr>"

section \<open>Spawning and stopping\<close>

definition spawnNode :: "supervisor \<Rightarrow> supervisor" where
  "spawnNode s = s\<lparr>sv_nodes := sv_nodes s @ [sv_nextPid s], sv_child := Some (sv_nextPid s), sv_nextPid := Suc (sv_nextPid s)\<rparr>"

definition spawnTeams :: "supervisor \<Rightarrow> supervisor" where
  "spawnTeams s =
     (if \<not> sv_hasTeams s then s\<lparr>sv_teamsChild := None\<rparr>
      else s\<lparr>sv_teams := sv_teams s @ [sv_nextPid s], sv_teamsChild := Some (sv_nextPid s), sv_nextPid := Suc (sv_nextPid s)\<rparr>)"

definition kill_process :: "pid option \<Rightarrow> supervisor \<Rightarrow> supervisor" where
  "kill_process p s = (case p of None \<Rightarrow> s | Some i \<Rightarrow> s\<lparr>sv_signalled := sadd i (sv_signalled s)\<rparr>)"

definition recent_crashes :: "time \<Rightarrow> time list \<Rightarrow> time list" where
  "recent_crashes now ts = filter (\<lambda>t. now - t < SUPERVISOR_CRASH_WINDOW_MS) (ts @ [now])"

text \<open>The exit of a node process, with its code (none after a signal). The handler does not ask which process it was.\<close>

definition onChildExit :: "time \<Rightarrow> int option \<Rightarrow> supervisor \<Rightarrow> supervisor" where
  "onChildExit now code s0 =
     (let s = s0\<lparr>sv_child := None, sv_lastState := (sv_lastState s0)\<lparr>ns_online := False, ns_peers := 0, ns_lux := 0, ns_services := []\<rparr>\<rparr>
      in if sv_stopping s then s
         else if code = Some 78 then s\<lparr>sv_exit := Some 78\<rparr>
         else if sv_userStopped s \<or> code = Some 0 then refreshTray (s\<lparr>sv_userStopped := False\<rparr>)
         else if code = Some RESTART_EXIT_CODE then (refreshTray s)\<lparr>sv_respawns := Suc (sv_respawns s)\<rparr>
         else let s1 = s\<lparr>sv_crashTimes := recent_crashes now (sv_crashTimes s)\<rparr>
              in if MAX_CRASHES \<le> length (sv_crashTimes s1) then refreshTray s1
                 else (refreshTray s1)\<lparr>sv_respawns := Suc (sv_respawns s1)\<rparr>)"

definition onTeamsExit :: "time \<Rightarrow> int option \<Rightarrow> supervisor \<Rightarrow> supervisor" where
  "onTeamsExit now code s0 =
     (let s = s0\<lparr>sv_teamsChild := None, sv_teamsOnline := False\<rparr>
      in if sv_stopping s then s
         else if sv_teamsUserStopped s \<or> code = Some 0 then refreshTray (s\<lparr>sv_teamsUserStopped := False\<rparr>)
         else let s1 = s\<lparr>sv_teamsCrashTimes := recent_crashes now (sv_teamsCrashTimes s)\<rparr>
              in if MAX_CRASHES \<le> length (sv_teamsCrashTimes s1) then refreshTray s1
                 else (refreshTray s1)\<lparr>sv_teamsRespawns := Suc (sv_teamsRespawns s1)\<rparr>)"

text \<open>A timer set after an exit, when it fires.\<close>

definition respawn_node :: "supervisor \<Rightarrow> supervisor" where
  "respawn_node s = refreshTray (spawnNode (s\<lparr>sv_respawns := sv_respawns s - 1\<rparr>))"

text \<open>\<^verbatim>\<open>startTeamsIfNeeded\<close> up to its \<^verbatim>\<open>await\<close>, and from there.\<close>

definition startTeamsIfNeeded :: "supervisor \<Rightarrow> supervisor" where
  "startTeamsIfNeeded s = (if \<not> sv_hasTeams s then s else s\<lparr>sv_checks := Suc (sv_checks s)\<rparr>)"

definition teams_checked :: "bool \<Rightarrow> supervisor \<Rightarrow> supervisor" where
  "teams_checked healthy s =
     (let s1 = s\<lparr>sv_checks := sv_checks s - 1\<rparr>
      in if healthy then s1\<lparr>sv_external := True, sv_teamsOnline := True\<rparr> else spawnTeams (s1\<lparr>sv_external := False\<rparr>))"

definition respawn_teams :: "supervisor \<Rightarrow> supervisor" where
  "respawn_teams s = startTeamsIfNeeded (s\<lparr>sv_teamsRespawns := sv_teamsRespawns s - 1\<rparr>)"

definition gracefulShutdown :: "supervisor \<Rightarrow> supervisor" where
  "gracefulShutdown s =
     (let s1 = kill_process (sv_teamsChild s) (kill_process (sv_child s) (s\<lparr>sv_stopping := True\<rparr>))
      in s1\<lparr>sv_quits := Suc (sv_quits s1)\<rparr>)"

section \<open>Polling\<close>

definition detectLocalHub :: "int option \<Rightarrow> int option \<Rightarrow> int option" where
  "detectLocalHub hub gateway =
     (case hub of Some p \<Rightarrow> if 0 < p then Some p else (case gateway of Some q \<Rightarrow> if 0 < q then Some q else None | None \<Rightarrow> None)
      | None \<Rightarrow> (case gateway of Some q \<Rightarrow> if 0 < q then Some q else None | None \<Rightarrow> None))"

text \<open>What the node answered: peers and balance, if given, and the services, if they are a list.\<close>

record status_answer =
  sa_peers :: "int option"
  sa_balance :: "number option"
  sa_services :: "ServiceInfo list option"

definition node_state_of :: "status_answer \<Rightarrow> int option \<Rightarrow> NodeState" where
  "node_state_of a hub =
     \<lparr>ns_online = True, ns_peers = (case sa_peers a of None \<Rightarrow> 0 | Some n \<Rightarrow> n), ns_lux = \<lfloor>case sa_balance a of None \<Rightarrow> 0 | Some x \<Rightarrow> x\<rfloor>,
      ns_services = (case sa_services a of None \<Rightarrow> [] | Some xs \<Rightarrow> xs), ns_localHubPort = hub\<rparr>"

text \<open>\<^verbatim>\<open>pollState\<close> from the answer of the node, if there is one, to the request to the teams server; and from the answer of that.\<close>

definition poll_node :: "status_answer option \<Rightarrow> int option \<Rightarrow> supervisor \<Rightarrow> supervisor" where
  "poll_node a hub s =
     (let s1 = s\<lparr>sv_lastState := (case a of None \<Rightarrow> offline_state | Some x \<Rightarrow> node_state_of x hub)\<rparr>
      in if sv_teamsChild s1 \<noteq> None \<or> sv_external s1 then s1\<lparr>sv_polls := Suc (sv_polls s1)\<rparr>
         else refreshTray (s1\<lparr>sv_teamsOnline := False\<rparr>))"

definition poll_teams :: "bool \<Rightarrow> supervisor \<Rightarrow> supervisor" where
  "poll_teams ok s =
     refreshTray (s\<lparr>sv_polls := sv_polls s - 1, sv_teamsOnline := ok, sv_external := sv_external s \<and> ok\<rparr>)"

section \<open>Clicks\<close>

definition openUrl :: "string \<Rightarrow> supervisor \<Rightarrow> supervisor" where
  "openUrl url s = s\<lparr>sv_opened := sv_opened s @ [url]\<rparr>"

datatype tray_item = ti_service | ti_hub_local | ti_hub_web | ti_open_teams | ti_restart_node | ti_stop_node | ti_start_node
  | ti_restart_teams | ti_stop_teams | ti_start_teams | ti_quit

fun item_index :: "tray_item \<Rightarrow> nat" where
  "item_index ti_service = 3" | "item_index ti_hub_local = 5" | "item_index ti_hub_web = 6" | "item_index ti_open_teams = 7"
| "item_index ti_restart_node = 9" | "item_index ti_stop_node = 10" | "item_index ti_start_node = 11" | "item_index ti_restart_teams = 12"
| "item_index ti_stop_teams = 13" | "item_index ti_start_teams = 14" | "item_index ti_quit = 16"

text \<open>An item can be clicked as the tray last showed it.\<close>

definition clickable :: "tray_item \<Rightarrow> supervisor \<Rightarrow> bool" where
  "clickable i s = (case sv_menu s of None \<Rightarrow> False | Some m \<Rightarrow> mi_enabled (m ! item_index i) \<and> \<not> mi_hidden (m ! item_index i))"

fun onClick :: "tray_item \<Rightarrow> supervisor \<Rightarrow> supervisor" where
  "onClick ti_service s = (case ns_services (sv_lastState s) of [] \<Rightarrow> s
     | x # xs \<Rightarrow> (case si_uiUrl x of None \<Rightarrow> s | Some u \<Rightarrow> if u = [] then s else openUrl u s))"
| "onClick ti_hub_local s = (case ns_localHubPort (sv_lastState s) of None \<Rightarrow> s
     | Some p \<Rightarrow> if p = 0 then s else openUrl (''http://localhost:'' @ show_time p) s)"
| "onClick ti_hub_web s = openUrl ''https://gateway-one-mu.vercel.app'' s"
| "onClick ti_open_teams s = openUrl ''http://localhost:4873'' s"
| "onClick ti_start_node s = (if sv_child s = None then refreshTray (spawnNode s) else s)"
| "onClick ti_restart_node s = kill_process (sv_child s) s"
| "onClick ti_stop_node s = kill_process (sv_child s) (s\<lparr>sv_userStopped := True\<rparr>)"
| "onClick ti_start_teams s = (if sv_teamsChild s = None \<and> \<not> sv_external s then startTeamsIfNeeded s else s)"
| "onClick ti_restart_teams s = kill_process (sv_teamsChild s) s"
| "onClick ti_stop_teams s = kill_process (sv_teamsChild s) (s\<lparr>sv_teamsUserStopped := True\<rparr>)"
| "onClick ti_quit s = gracefulShutdown s"

section \<open>The watchdog\<close>

text \<open>What the watchdog reads of an application: the commit files of its build, the head of its repository, and the output of the diff between the two.\<close>

record app_source =
  as_buildFiles :: "string option list"
  as_head :: "string option"
  as_diff :: "string option"

definition readBuildCommit :: "string option list \<Rightarrow> string option" where
  "readBuildCommit fs = find (\<lambda>v. v \<noteq> []) (List.map_filter (map_option str_trim) fs)"

definition getGitHead :: "string option \<Rightarrow> string option" where
  "getGitHead out = map_option str_trim out"

definition getChangedFiles :: "string option \<Rightarrow> string list" where
  "getChangedFiles out =
     (case out of None \<Rightarrow> [] | Some x \<Rightarrow> if str_trim x = [] then [] else split_at (\<lambda>c. c = CHR 0x0A) [] (str_trim x))"

definition watch_dirs :: "string \<Rightarrow> string list" where
  "watch_dirs name = (if name = ''node'' then [''packages/node/'', ''packages/shared/'', ''packages/mcp-server/''] else [''packages/server/'', ''packages/core/''])"

definition app_child :: "string \<Rightarrow> supervisor \<Rightarrow> pid option" where
  "app_child name s = (if name = ''node'' then sv_child s else sv_teamsChild s)"

definition buildAppRegistry :: "supervisor \<Rightarrow> string list" where
  "buildAppRegistry s = ''node'' # (if sv_hasTeams s then [''teams''] else [])"

text \<open>The time since which a build is stale is only printed: it is reset before the process is killed, and whether the build succeeded does not matter.\<close>

definition check_app :: "(string \<Rightarrow> app_source) \<Rightarrow> string \<Rightarrow> supervisor \<Rightarrow> supervisor" where
  "check_app src name s =
     (case (app_child name s, readBuildCommit (as_buildFiles (src name)), getGitHead (as_head (src name))) of
        (Some p, Some built, Some head) \<Rightarrow>
          if head = [] then s
          else if built = head \<or> \<not> list_ex (\<lambda>f. list_ex (startsWith f) (watch_dirs name)) (getChangedFiles (as_diff (src name)))
          then s\<lparr>sv_stale := jset name None (sv_stale s)\<rparr>
          else kill_process (Some p) (s\<lparr>sv_stale := jset name None (sv_stale s), sv_built := (if name = ''node'' then Suc (sv_built s) else sv_built s)\<rparr>)
      | _ \<Rightarrow> s)"

definition watchdogCheck :: "(string \<Rightarrow> app_source) \<Rightarrow> supervisor \<Rightarrow> supervisor" where
  "watchdogCheck src s = fold (check_app src) (buildAppRegistry s) s"

section \<open>The life of the supervisor\<close>

definition Supervisor_init :: "bool \<Rightarrow> supervisor" where
  "Supervisor_init teams =
     \<lparr>sv_hasTeams = teams, sv_nodes = [], sv_teams = [], sv_child = None, sv_teamsChild = None, sv_stopping = False, sv_userStopped = False,
      sv_teamsUserStopped = False, sv_crashTimes = [], sv_teamsCrashTimes = [], sv_external = False, sv_lastState = offline_state, sv_teamsOnline = False,
      sv_menu = None, sv_stale = [], sv_respawns = 0, sv_teamsRespawns = 0, sv_checks = 0, sv_polls = 0, sv_quits = 0, sv_exit = None, sv_signalled = [],
      sv_built = 0, sv_opened = [], sv_nextPid = 1\<rparr>"

definition supervisor_boot :: "bool \<Rightarrow> supervisor" where
  "supervisor_boot teams = (let s = spawnNode (Supervisor_init teams) in if teams then startTeamsIfNeeded s else s)"

text \<open>Nothing keeps the program running: no child process, no pending timer or request; the intervals are no reason to go on.\<close>

definition idle :: "supervisor \<Rightarrow> bool" where
  "idle s = (sv_nodes s = [] \<and> sv_teams s = [] \<and> sv_menu s = None \<and> sv_respawns s = 0 \<and> sv_teamsRespawns s = 0 \<and> sv_checks s = 0 \<and> sv_polls s = 0 \<and> sv_quits s = 0)"

inductive supervisor_step :: "supervisor \<Rightarrow> supervisor \<Rightarrow> bool" where
  node_exits: "sv_exit s = None \<Longrightarrow> p \<in> set (sv_nodes s) \<Longrightarrow> supervisor_step s (onChildExit now code (s\<lparr>sv_nodes := remove1 p (sv_nodes s)\<rparr>))"
| teams_exits: "sv_exit s = None \<Longrightarrow> p \<in> set (sv_teams s) \<Longrightarrow> supervisor_step s (onTeamsExit now code (s\<lparr>sv_teams := remove1 p (sv_teams s)\<rparr>))"
| respawns: "sv_exit s = None \<Longrightarrow> 0 < sv_respawns s \<Longrightarrow> supervisor_step s (respawn_node s)"
| respawns_teams: "sv_exit s = None \<Longrightarrow> 0 < sv_teamsRespawns s \<Longrightarrow> supervisor_step s (respawn_teams s)"
| teams_answer: "sv_exit s = None \<Longrightarrow> 0 < sv_checks s \<Longrightarrow> supervisor_step s (teams_checked healthy s)"
| polls_node: "sv_exit s = None \<Longrightarrow> supervisor_step s (poll_node a hub s)"
| polls_teams: "sv_exit s = None \<Longrightarrow> 0 < sv_polls s \<Longrightarrow> supervisor_step s (poll_teams ok s)"
| tray: "sv_exit s = None \<Longrightarrow> sv_menu s = None \<Longrightarrow> supervisor_step s (initTray s)"
| clicks: "sv_exit s = None \<Longrightarrow> clickable i s \<Longrightarrow> \<not> (i = ti_start_node \<and> 0 < sv_respawns s) \<Longrightarrow> supervisor_step s (onClick i s)"
| watchdog: "sv_exit s = None \<Longrightarrow> supervisor_step s (watchdogCheck src s)"
| signal: "sv_exit s = None \<Longrightarrow> supervisor_step s (gracefulShutdown s)"
| quits: "sv_exit s = None \<Longrightarrow> 0 < sv_quits s \<Longrightarrow> supervisor_step s (s\<lparr>sv_exit := Some 0\<rparr>)"
| ends: "sv_exit s = None \<Longrightarrow> idle s \<Longrightarrow> supervisor_step s (s\<lparr>sv_exit := Some 0\<rparr>)"

text \<open>Runs, with the number of clicks on \<^verbatim>\<open>Start Node\<close> while a timer is going to spawn one.\<close>

inductive supervisor_run :: "bool \<Rightarrow> nat \<Rightarrow> supervisor \<Rightarrow> bool" for teams where
  boot: "supervisor_run teams 0 (supervisor_boot teams)"
| step: "supervisor_run teams k s \<Longrightarrow> supervisor_step s s' \<Longrightarrow> supervisor_run teams k s'"
| early_start: "supervisor_run teams k s \<Longrightarrow> sv_exit s = None \<Longrightarrow> clickable ti_start_node s \<Longrightarrow> 0 < sv_respawns s \<Longrightarrow>
    supervisor_run teams (Suc k) (onClick ti_start_node s)"

section \<open>How many nodes run\<close>

lemma refresh_frame [simp]:
  "sv_nodes (refreshTray s) = sv_nodes s" "sv_child (refreshTray s) = sv_child s" "sv_respawns (refreshTray s) = sv_respawns s"
  "sv_crashTimes (refreshTray s) = sv_crashTimes s" "sv_exit (refreshTray s) = sv_exit s" "sv_stopping (refreshTray s) = sv_stopping s"
  "sv_userStopped (refreshTray s) = sv_userStopped s" "sv_signalled (refreshTray s) = sv_signalled s" "sv_quits (refreshTray s) = sv_quits s"
  "sv_nextPid (refreshTray s) = sv_nextPid s" "sv_teamsChild (refreshTray s) = sv_teamsChild s" "sv_external (refreshTray s) = sv_external s"
  by (simp_all add: refreshTray_def split: option.split)

lemma kill_frame [simp]:
  "sv_nodes (kill_process p s) = sv_nodes s" "sv_child (kill_process p s) = sv_child s" "sv_respawns (kill_process p s) = sv_respawns s"
  "sv_teamsChild (kill_process p s) = sv_teamsChild s" "sv_stopping (kill_process p s) = sv_stopping s" "sv_userStopped (kill_process p s) = sv_userStopped s"
  "sv_quits (kill_process p s) = sv_quits s" "sv_exit (kill_process p s) = sv_exit s" "sv_crashTimes (kill_process p s) = sv_crashTimes s"
  by (simp_all add: kill_process_def split: option.split)

lemma kill_signals: "set (sv_signalled (kill_process p s)) = set (sv_signalled s) \<union> set_option p"
  by (auto simp: kill_process_def split: option.split)

definition same_nodes :: "supervisor \<Rightarrow> supervisor \<Rightarrow> bool" where
  "same_nodes s s' = (sv_nodes s' = sv_nodes s \<and> sv_child s' = sv_child s \<and> sv_respawns s' = sv_respawns s)"

lemma check_app_frame:
  "same_nodes s (check_app src name s)" "sv_stopping (check_app src name s) = sv_stopping s" "sv_userStopped (check_app src name s) = sv_userStopped s"
  "set (sv_signalled s) \<subseteq> set (sv_signalled (check_app src name s))"
  by (auto simp: check_app_def same_nodes_def kill_signals split: option.split)

lemma watchdog_frame:
  "same_nodes s (watchdogCheck src s)" "sv_stopping (watchdogCheck src s) = sv_stopping s" "sv_userStopped (watchdogCheck src s) = sv_userStopped s"
  "set (sv_signalled (check_app src ''node'' s)) \<subseteq> set (sv_signalled (watchdogCheck src s))"
proof -
  have w: "watchdogCheck src s = (if sv_hasTeams s then check_app src ''teams'' (check_app src ''node'' s) else check_app src ''node'' s)"
    by (simp add: watchdogCheck_def buildAppRegistry_def)
  note f = check_app_frame(1,2,3) [where name = "''node''" and s = s and src = src] check_app_frame(1,2,3,4) [where name = "''teams''" and s = "check_app src ''node'' s" and src = src]
  show "same_nodes s (watchdogCheck src s)" "sv_stopping (watchdogCheck src s) = sv_stopping s" "sv_userStopped (watchdogCheck src s) = sv_userStopped s"
    "set (sv_signalled (check_app src ''node'' s)) \<subseteq> set (sv_signalled (watchdogCheck src s))"
    unfolding w using f by (simp_all add: same_nodes_def)
qed

text \<open>With \<open>k\<close> early clicks: processes and pending timers together are at most one more than the clicks, and without any click the process alive is the one known.\<close>

definition node_inv :: "nat \<Rightarrow> supervisor \<Rightarrow> bool" where
  "node_inv k s = (length (sv_nodes s) + sv_respawns s \<le> Suc k \<and> (sv_child s = None \<and> sv_respawns s = 0 \<longrightarrow> length (sv_nodes s) \<le> k) \<and>
     (k = 0 \<longrightarrow> sv_nodes s = (case sv_child s of None \<Rightarrow> [] | Some p \<Rightarrow> [p])))"

lemma node_inv_same: "same_nodes s s' \<Longrightarrow> node_inv k s \<Longrightarrow> node_inv k s'"
  by (simp add: same_nodes_def node_inv_def)

lemma exit_frame:
  "sv_nodes (onChildExit now code s) = sv_nodes s" "sv_child (onChildExit now code s) = None"
  "sv_respawns (onChildExit now code s) = sv_respawns s \<or> sv_respawns (onChildExit now code s) = Suc (sv_respawns s)"
  by (auto simp: onChildExit_def Let_def)

lemma exit_inv: "node_inv k s \<Longrightarrow> p \<in> set (sv_nodes s) \<Longrightarrow> node_inv k (onChildExit now code (s\<lparr>sv_nodes := remove1 p (sv_nodes s)\<rparr>))"
proof -
  let ?t = "onChildExit now code (s\<lparr>sv_nodes := remove1 p (sv_nodes s)\<rparr>)"
  assume i: "node_inv k s" and p: "p \<in> set (sv_nodes s)"
  obtain n where n: "length (sv_nodes s) = Suc n" using p by (cases "sv_nodes s") auto
  have t: "length (sv_nodes ?t) = n" "sv_child ?t = None" "sv_respawns ?t \<le> Suc (sv_respawns s)" "sv_nodes ?t = remove1 p (sv_nodes s)"
    using exit_frame [of now code "s\<lparr>sv_nodes := remove1 p (sv_nodes s)\<rparr>"] n p by (auto simp: length_remove1)
  moreover have "k = 0 \<Longrightarrow> remove1 p (sv_nodes s) = []" using i p by (auto simp: node_inv_def split: option.split_asm)
  ultimately show ?thesis using i n by (auto simp: node_inv_def)
qed

lemma spawn_inv: "node_inv k s \<Longrightarrow> sv_child s = None \<Longrightarrow> sv_respawns s = 0 \<Longrightarrow> node_inv k (refreshTray (spawnNode s))"
  by (auto simp: node_inv_def spawnNode_def)

lemma respawn_inv: "node_inv k s \<Longrightarrow> 0 < sv_respawns s \<Longrightarrow> node_inv k (respawn_node s)"
  by (auto simp: node_inv_def respawn_node_def spawnNode_def split: option.split_asm)

lemma teams_frame:
  "same_nodes s (onTeamsExit now code (s\<lparr>sv_teams := ps\<rparr>))" "same_nodes s (respawn_teams s)" "same_nodes s (teams_checked h s)" "same_nodes s (startTeamsIfNeeded s)"
  "same_nodes s (poll_node a hub s)" "same_nodes s (poll_teams ok s)" "same_nodes s (initTray s)" "same_nodes s (gracefulShutdown s)" "same_nodes s (openUrl u s)"
  by (auto simp: same_nodes_def onTeamsExit_def respawn_teams_def startTeamsIfNeeded_def teams_checked_def spawnTeams_def poll_node_def poll_teams_def initTray_def
      gracefulShutdown_def openUrl_def Let_def)

lemma click_frame: "i \<noteq> ti_start_node \<Longrightarrow> same_nodes s (onClick i s)"
  by (cases i; auto simp: same_nodes_def openUrl_def startTeamsIfNeeded_def gracefulShutdown_def Let_def split: list.split option.split)

lemma click_inv: "node_inv k s \<Longrightarrow> \<not> (i = ti_start_node \<and> 0 < sv_respawns s) \<Longrightarrow> node_inv k (onClick i s)"
  using node_inv_same [OF click_frame] spawn_inv [of k s] by (cases "i = ti_start_node") auto

lemma exit_code_inv: "node_inv k s \<Longrightarrow> node_inv k (s\<lparr>sv_exit := x\<rparr>)"
  by (simp add: node_inv_def)

lemma supervisor_step_inv: "supervisor_step s s' \<Longrightarrow> node_inv k s \<Longrightarrow> node_inv k s'"
proof (induction rule: supervisor_step.induct)
  case (watchdog s src)
  then show ?case using node_inv_same [OF watchdog_frame(1)] by blast
next
  case (clicks s i)
  then show ?case using click_inv by blast
qed (auto intro: exit_inv respawn_inv node_inv_same [OF teams_frame(1)] node_inv_same [OF teams_frame(2)] node_inv_same [OF teams_frame(3)]
    node_inv_same [OF teams_frame(5)] node_inv_same [OF teams_frame(6)] node_inv_same [OF teams_frame(7)] node_inv_same [OF teams_frame(8)] exit_code_inv)

lemma supervisor_run_inv: "supervisor_run teams k s \<Longrightarrow> node_inv k s"
proof (induction rule: supervisor_run.induct)
  case boot
  show ?case by (cases teams; simp add: node_inv_def supervisor_boot_def spawnNode_def Supervisor_init_def startTeamsIfNeeded_def Let_def)
next
  case (step k s s')
  then show ?case using supervisor_step_inv by blast
next
  case (early_start k s)
  then show ?case by (auto simp: node_inv_def spawnNode_def)
qed

text \<open>C37: One node at a time. In every run the nodes alive and the timers that will spawn one are together at most one, plus one for every click on \<^verbatim>\<open>Start Node\<close> made while
  such a timer was pending; without such a click the program knows the process that is alive.\<close>

theorem node_processes_are_bounded:
  assumes "supervisor_run teams k s"
  shows "length (sv_nodes s) + sv_respawns s \<le> Suc k \<and> (k = 0 \<longrightarrow> sv_nodes s = (case sv_child s of None \<Rightarrow> [] | Some p \<Rightarrow> [p]))"
  using supervisor_run_inv [OF assms] by (simp add: node_inv_def)

text \<open>The boot, and a crash right after it.\<close>

definition crashed_once :: supervisor where
  "crashed_once = onChildExit 1000 (Some 1) ((supervisor_boot False)\<lparr>sv_nodes := []\<rparr>)"

lemma crashed_once_run: "supervisor_run False 0 crashed_once"
proof -
  have "supervisor_step (supervisor_boot False) (onChildExit 1000 (Some 1) ((supervisor_boot False)\<lparr>sv_nodes := remove1 1 (sv_nodes (supervisor_boot False))\<rparr>))"
    by (rule node_exits) (simp_all add: supervisor_boot_def spawnNode_def Supervisor_init_def)
  moreover have "remove1 1 (sv_nodes (supervisor_boot False)) = []" by (simp add: supervisor_boot_def spawnNode_def Supervisor_init_def)
  ultimately show ?thesis using supervisor_run.step [OF supervisor_run.boot] by (simp add: crashed_once_def)
qed

lemma crashed_once_state:
  "sv_nodes crashed_once = []" "sv_child crashed_once = None" "sv_respawns crashed_once = 1" "sv_exit crashed_once = None" "sv_menu crashed_once = None"
  "sv_quits crashed_once = 0" "sv_signalled crashed_once = []" "sv_nextPid crashed_once = 2" "sv_teamsChild crashed_once = None" "sv_stopping crashed_once = False"
  "sv_lastState crashed_once = offline_state" "sv_hasTeams crashed_once = False"
  by (simp_all add: crashed_once_def onChildExit_def supervisor_boot_def spawnNode_def Supervisor_init_def recent_crashes_def SUPERVISOR_CRASH_WINDOW_MS_def
      MAX_CRASHES_def RESTART_EXIT_CODE_def refreshTray_def offline_state_def)

theorem node_processes_are_bounded_witness:
  "length (sv_nodes crashed_once) + sv_respawns crashed_once \<le> 1 \<and> sv_respawns crashed_once = 1"
  using node_processes_are_bounded [OF crashed_once_run] crashed_once_state by simp

section \<open>Where it fails\<close>

text \<open>A shutdown does not cancel the timer: the node it spawns outlives the supervisor.\<close>

lemma shutdown_can_leave_a_node: "\<exists>s p. supervisor_run False 0 s \<and> sv_exit s = Some 0 \<and> sv_nodes s = [p] \<and> p \<notin> set (sv_signalled s)"
proof -
  let ?s1 = "gracefulShutdown crashed_once"
  let ?s2 = "respawn_node ?s1"
  have s1: "sv_exit ?s1 = None" "sv_respawns ?s1 = 1" "sv_quits ?s1 = 1" "sv_nodes ?s1 = []" "sv_signalled ?s1 = []"
    using crashed_once_state by (simp_all add: gracefulShutdown_def kill_process_def)
  then have s2: "sv_exit ?s2 = None" "sv_nodes ?s2 = [sv_nextPid ?s1]" "sv_quits ?s2 = 1" "sv_signalled ?s2 = []" by (simp_all add: respawn_node_def spawnNode_def)
  have "supervisor_run False 0 ?s1" by (rule supervisor_run.step [OF crashed_once_run signal]) (rule crashed_once_state)
  then have "supervisor_run False 0 ?s2" by (rule supervisor_run.step) (rule respawns, simp_all add: s1)
  then have "supervisor_run False 0 (?s2\<lparr>sv_exit := Some 0\<rparr>)" by (rule supervisor_run.step) (rule quits, simp_all add: s2)
  then show ?thesis using s2 by (intro exI [of _ "?s2\<lparr>sv_exit := Some 0\<rparr>"] exI [of _ "sv_nextPid ?s1"]) simp
qed

text \<open>A click on \<^verbatim>\<open>Start Node\<close> in the two seconds before a respawn, which the tray offers, makes two nodes run; a shutdown stops the second only.\<close>

lemma early_start_runs_two_nodes: "\<exists>s p q. supervisor_run False 1 s \<and> sv_nodes s = [p, q] \<and> p \<noteq> q \<and> sv_child s = Some q \<and> p \<notin> set (sv_signalled (gracefulShutdown s))"
proof -
  let ?s1 = "initTray crashed_once"
  let ?s2 = "poll_node None None ?s1"
  let ?s3 = "onClick ti_start_node ?s2"
  let ?s4 = "respawn_node ?s3"
  have r1: "supervisor_run False 0 ?s1" by (rule supervisor_run.step [OF crashed_once_run tray]) (rule crashed_once_state)+
  have s1: "sv_exit ?s1 = None" "sv_external ?s1 = False" "sv_teamsChild ?s1 = None" "sv_menu ?s1 = Some (buildInitialMenu False)"
    by (simp_all add: initTray_def crashed_once_state) (simp add: crashed_once_def onChildExit_def supervisor_boot_def spawnNode_def Supervisor_init_def Let_def refreshTray_def)
  have r2: "supervisor_run False 0 ?s2" by (rule supervisor_run.step [OF r1 polls_node]) (rule s1)
  have s2: "sv_exit ?s2 = None" "sv_nodes ?s2 = []" "sv_child ?s2 = None" "sv_respawns ?s2 = 1" "sv_nextPid ?s2 = 2" "sv_signalled ?s2 = []" "sv_teamsChild ?s2 = None"
    using s1 crashed_once_state by (simp_all add: poll_node_def refreshTray_def initTray_def)
  have "sv_menu ?s2 = Some (fold (\<lambda>(i, x) m. m[i := x]) (tray_items (?s1\<lparr>sv_lastState := offline_state, sv_teamsOnline := False\<rparr>)) (buildInitialMenu False))"
    using s1 by (simp add: poll_node_def refreshTray_def Let_def)
  then have "clickable ti_start_node ?s2"
    by (simp add: clickable_def tray_items_def buildInitialMenu_def item_def initTray_def crashed_once_state Let_def del: show_nat.simps)
  then have r3: "supervisor_run False 1 ?s3" using supervisor_run.early_start [OF r2] s2 by simp
  have s3: "sv_exit ?s3 = None" "sv_nodes ?s3 = [2]" "sv_respawns ?s3 = 1" "sv_nextPid ?s3 = 3" "sv_signalled ?s3 = []" "sv_teamsChild ?s3 = None"
    using s2 by (simp_all add: spawnNode_def)
  have "supervisor_run False 1 ?s4" by (rule supervisor_run.step [OF r3 respawns]) (simp_all add: s3 del: onClick.simps)
  moreover have "sv_nodes ?s4 = [2, 3]" "sv_child ?s4 = Some 3" "sv_signalled ?s4 = []" "sv_teamsChild ?s4 = None"
    using s3 by (simp_all add: respawn_node_def spawnNode_def)
  ultimately show ?thesis
    by (intro exI [of _ ?s4] exI [of _ 2] exI [of _ 3]) (simp add: gracefulShutdown_def kill_process_def)
qed

lemma exit_stops: "sv_stopping s \<or> sv_userStopped s \<or> code = Some 0 \<Longrightarrow> sv_respawns (onChildExit now code s) = sv_respawns s"
  by (auto simp: onChildExit_def Let_def)

text \<open>A source whose new commits change a watched directory.\<close>

definition stale_source :: "app_source \<Rightarrow> bool" where
  "stale_source a = (case (readBuildCommit (as_buildFiles a), getGitHead (as_head a)) of
     (Some built, Some head) \<Rightarrow> head \<noteq> [] \<and> built \<noteq> head \<and> list_ex (\<lambda>f. list_ex (startsWith f) (watch_dirs ''node'')) (getChangedFiles (as_diff a)) | _ \<Rightarrow> False)"

lemma node_alone:
  assumes "supervisor_run teams 0 s" and "sv_child s = Some p"
  shows "sv_nodes s = [p]" "sv_respawns s = 0"
  using supervisor_run_inv [OF assms(1)] assms(2) by (auto simp: node_inv_def)

text \<open>C38: Restarting ends the node. The watchdog, when the code changed, and the menu item \<^verbatim>\<open>Restart Node\<close> only signal the process; it shuts down
  with code 0, which the supervisor takes as a stop: afterwards no node runs, and no timer will spawn one.\<close>

theorem restart_stops_node:
  assumes "supervisor_run teams 0 s" and "sv_child s = Some p" and "s' = onClick ti_restart_node s \<or> s' = watchdogCheck src s \<and> stale_source (src ''node'')"
    and "s'' = onChildExit now (snd (cli_shutdown True d)) (s'\<lparr>sv_nodes := remove1 p (sv_nodes s')\<rparr>)"
  shows "p \<in> set (sv_signalled s') \<and> sv_nodes s'' = [] \<and> sv_child s'' = None \<and> sv_respawns s'' = 0"
proof -
  have k: "p \<in> set (sv_signalled (check_app src ''node'' s))" if "stale_source (src ''node'')"
    using that assms(2) by (auto simp: check_app_def app_child_def stale_source_def kill_signals split: option.split_asm)
  have s': "same_nodes s s'" "p \<in> set (sv_signalled s')"
    using assms(2,3) watchdog_frame(1,4) [where s = s and src = src] k click_frame [of ti_restart_node s] by (auto simp: kill_signals)
  show ?thesis using node_alone [OF assms(1,2)] s' exit_stops [of _ "Some 0" now] exit_frame(1,2) assms(4)
    by (simp add: same_nodes_def cli_shutdown_def)
qed

theorem restart_stops_node_witness:
  "sv_nodes (onChildExit 5000 (snd (cli_shutdown True crash_dir)) ((onClick ti_restart_node (supervisor_boot False))\<lparr>sv_nodes := []\<rparr>)) = []"
proof -
  have c: "sv_child (supervisor_boot False) = Some 1" "sv_nodes (onClick ti_restart_node (supervisor_boot False)) = [1]"
    by (simp_all add: supervisor_boot_def spawnNode_def Supervisor_init_def kill_process_def)
  from restart_stops_node [OF supervisor_run.boot c(1) disjI1 refl, of "onClick ti_restart_node (supervisor_boot False)" 5000 crash_dir] c(2)
  show ?thesis by simp
qed

section \<open>Crashes under the supervisor\<close>

text \<open>The node's runs under the supervisor, each with the time of its exit: after each the program decides whether it spawns the next.\<close>

fun supervise ::
  "(string \<Rightarrow> copy_fault option) \<Rightarrow> (node_run \<times> time) list \<Rightarrow> supervisor \<Rightarrow> data_dir \<times> builds \<Rightarrow> supervisor \<times> (data_dir \<times> builds) \<times> (int option \<times> bool) list" where
  "supervise fault [] s w = (s, w, [])"
| "supervise fault ((u, x) # us) s w =
     (case run_node fault u w of (w1, out) \<Rightarrow>
       let s1 = onChildExit x (fst out) (s\<lparr>sv_nodes := []\<rparr>)
       in if sv_respawns s1 = 0 then (s1, w1, [out])
          else (case supervise fault us (respawn_node s1) w1 of (s2, w2, outs) \<Rightarrow> (s2, w2, out # outs)))"

definition crash_code :: "int option \<Rightarrow> bool" where
  "crash_code c = (c \<notin> {Some 0, Some 75, Some 78})"

text \<open>A run that ends with a crash if the guards let it begin, before or after it is up.\<close>

definition crashing :: "node_run \<Rightarrow> bool" where
  "crashing u = (case nr_fate u of ft_fails c \<Rightarrow> crash_code (Some c) | ft_boots t later h (en_exit c) \<Rightarrow> crash_code c | _ \<Rightarrow> False)"

fun ordered_runs :: "time \<Rightarrow> (node_run \<times> time) list \<Rightarrow> bool" where
  "ordered_runs t [] = True"
| "ordered_runs t ((u, x) # us) = (t \<le> nr_start u \<and> nr_start u \<le> x \<and> ordered_runs x us)"

definition after :: "time \<Rightarrow> time list \<Rightarrow> nat" where
  "after w ts = length (filter (\<lambda>t. w < t) ts)"

text \<open>Every start the crash guard remembers is matched by a crash the supervisor remembers, and these are less than five.\<close>

definition matched :: "time \<Rightarrow> supervisor \<Rightarrow> data_dir \<Rightarrow> bool" where
  "matched x s d = (length (sv_crashTimes s) < 5 \<and> (\<forall>w \<ge> x - 60000. after w (crash_startups d) \<le> after w (sv_crashTimes s)) \<and> dd_reason d = None \<and>
     \<not> sv_stopping s \<and> \<not> sv_userStopped s \<and> sv_respawns s = 0)"

lemma after_simps [simp]: "after w [] = 0" "after w (t # ts) = (if w < t then 1 else 0) + after w ts" "after w (ts @ us) = after w ts + after w us"
  by (simp_all add: after_def)

lemma after_le: "after w ts \<le> length ts"
  by (simp add: after_def)

lemma after_filter: "after w (filter P ts) \<le> after w ts"
  by (induction ts) auto

lemma after_filter_all: "(\<And>t. w < t \<Longrightarrow> P t) \<Longrightarrow> after w (filter P ts) = after w ts"
  by (induction ts) auto

lemma reason_frame:
  "dd_reason (node_booted t d) = dd_reason d" "dd_reason (stable_later y d) = dd_reason d" "dd_reason (fst (end_run e d)) = dd_reason d"
  "dd_reason (fst (analyzeStartupHealth t d)) = dd_reason d" "dd_reason (fst (cli_shutdown b d)) = dd_reason d"
  by (simp_all add: node_booted_def markStable_def resetCircuitBreaker_def stable_later_def end_run_def cli_shutdown_def analyzeStartupHealth_def Let_def
      split: option.split ending.split)

lemma no_deployment: "dd_reason d = None \<Longrightarrow> post_deploy_check fault h d r = (d, r, None)"
  by (simp add: post_deploy_check_def readRestartReason_def)

text \<open>A run without a deployment to check, of a build the guard does not restore.\<close>

lemma unguarded_crash:
  assumes g: "checkAndRecordStartup fault (nr_start u) d r = (d1, r, False, False)" and "crashing u" and "dd_reason d = None"
    and "run_node fault u (d, r) = ((d', r'), c, up)"
  shows "r' = r \<and> crash_code c \<and> dd_reason d' = None"
proof -
  define d2 where "d2 = fst (analyzeStartupHealth (nr_check u) d1)"
  have d2: "dd_reason d2 = None" using guard_keeps(3) [OF g] assms(3) by (simp add: d2_def reason_frame)
  have c: "cli_guards fault (nr_start u) (nr_check u) d r = (d2, r, if hr_halted (snd (analyzeStartupHealth (nr_check u) d1)) then Some 1 else None)"
    using g by (simp add: cli_guards_def d2_def case_prod_beta)
  show ?thesis
  proof (cases "hr_halted (snd (analyzeStartupHealth (nr_check u) d1))")
    case True
    then show ?thesis using assms(4) c d2 by (auto simp: run_node_def crash_code_def)
  next
    case False
    note c' = c [unfolded if_not_P [OF False]]
    show ?thesis
    proof (cases "nr_fate u")
      case (ft_boots t later h e)
      then obtain x where e: "e = en_exit x" "crash_code x" using assms(2) by (auto simp: crashing_def split: ending.split_asm)
      have "post_deploy_check fault h (node_booted t d2) r = (node_booted t d2, r, None)" by (rule no_deployment) (simp add: reason_frame d2)
      then show ?thesis using assms(4) c' ft_boots e d2 by (auto simp: run_node_def end_run_def reason_frame)
    qed (use assms(2,4) c' d2 in \<open>auto simp: run_node_def crashing_def\<close>)
  qed
qed

lemma crash_exit:
  assumes "crash_code c" and "\<not> sv_stopping s" and "\<not> sv_userStopped s" and "sv_respawns s = 0"
  shows "sv_crashTimes (onChildExit x c s) = recent_crashes x (sv_crashTimes s)" "\<not> sv_stopping (onChildExit x c s)" "\<not> sv_userStopped (onChildExit x c s)"
    "sv_respawns (onChildExit x c s) = (if length (recent_crashes x (sv_crashTimes s)) < 5 then 1 else 0)"
  using assms by (auto simp: onChildExit_def crash_code_def RESTART_EXIT_CODE_def MAX_CRASHES_def Let_def)

lemma matched_step:
  assumes m: "matched t s d" and o: "t \<le> nr_start u" "nr_start u \<le> x" and "crashing u" and r: "run_node fault u (d, r) = ((d', r'), c, up)"
  defines "s1 \<equiv> onChildExit x c (s\<lparr>sv_nodes := []\<rparr>)"
  shows "r' = r" "c \<noteq> Some 75" "sv_respawns s1 \<noteq> 0 \<Longrightarrow> matched x (respawn_node s1) d'"
proof -
  let ?L = "crash_startups d" and ?C = "sv_crashTimes s"
  have few: "length (cg_startups (recorded_log (nr_start u) d)) < CRASH_THRESHOLD"
  proof -
    have "filter (\<lambda>t. nr_start u - t < CRASH_WINDOW_MS) ?L = filter (\<lambda>t. nr_start u - 60000 < t) ?L" by (rule filter_cong) (auto simp: CRASH_WINDOW_MS_def)
    then have "length (filter (\<lambda>t. nr_start u - t < CRASH_WINDOW_MS) ?L) = after (nr_start u - 60000) ?L" by (simp add: after_def)
    also have "\<dots> \<le> after (nr_start u - 60000) ?C" using m o(1) by (simp add: matched_def)
    also have "\<dots> < 5" using m le_less_trans [OF after_le] by (simp add: matched_def)
    finally show ?thesis by (simp add: recorded_startups CRASH_THRESHOLD_def)
  qed
  then obtain d1 where g: "checkAndRecordStartup fault (nr_start u) d r = (d1, r, False, False)" by (simp add: checkAndRecordStartup_def Let_def)
  have reason: "dd_reason d = None" using m by (simp add: matched_def)
  note u = unguarded_crash [OF g assms(4) reason r]
  show "r' = r" "c \<noteq> Some 75" using u by (simp_all add: crash_code_def)
  assume alive: "sv_respawns s1 \<noteq> 0"
  have s: "crash_code c" "\<not> sv_stopping (s\<lparr>sv_nodes := []\<rparr>)" "\<not> sv_userStopped (s\<lparr>sv_nodes := []\<rparr>)" "sv_respawns (s\<lparr>sv_nodes := []\<rparr>) = 0"
    using u m by (simp_all add: matched_def)
  note s1 = crash_exit [OF s, of x, folded s1_def, simplified]
  have "after w (crash_startups d') \<le> after w (recent_crashes x ?C)" if w: "x - 60000 \<le> w" for w
  proof -
    have "crash_startups d' = [] \<or> crash_startups d' = cg_startups (recorded_log (nr_start u) d)" using run_counts(2) [OF r] by blast
    then have "after w (crash_startups d') \<le> after w ?L + (if w < nr_start u then 1 else 0)"
      using after_filter [of w "\<lambda>t. nr_start u - t < CRASH_WINDOW_MS" ?L] by (auto simp: recorded_startups)
    moreover have "after w ?L \<le> after w ?C" using m o w by (simp add: matched_def)
    ultimately have "after w (crash_startups d') \<le> after w ?C + (if w < x then 1 else 0)" using o(2) by (auto split: if_split_asm)
    also have "\<dots> = after w (recent_crashes x ?C)" unfolding recent_crashes_def using w by (subst after_filter_all) (auto simp: SUPERVISOR_CRASH_WINDOW_MS_def)
    finally show ?thesis .
  qed
  then show "matched x (respawn_node s1) d'" using s1 u alive by (auto simp: matched_def respawn_node_def spawnNode_def split: if_split_asm)
qed



end
