(* ===== verification/TeamRegistry.thy ===== *)
theory TeamRegistry
  imports Types
begin

text \<open>
  Teams (\<^verbatim>\<open>packages/node/src/core/team-registry.ts\<close> and its start in \<^verbatim>\<open>init-platform.ts\<close>): which node manages which team. The table is
  replicated by gossip; a node keeps its teams by heartbeats, and a team without them can be claimed by another. Messages have the fields their
  type names. The lists of repositories, which the table keeps as JSON, are kept as lists; files and the schema are left out.
\<close>

section \<open>Teams and messages\<close>

datatype team_status = tm_active | tm_orphaned | tm_other string

record TeamConfig =
  tc_id :: string
  tc_displayName :: string
  tc_managingNode :: "peer_id option"
  tc_lastHeartbeat :: "time option"
  tc_status :: team_status
  tc_repos :: "string list"
  tc_agentCount :: int
  tc_governanceRequired :: bool
  tc_createdAt :: time
  tc_createdBy :: "string option"
  tc_claimedAt :: "time option"

record team_row =
  tw_display_name :: string
  tw_managing_node :: "peer_id option"
  tw_last_heartbeat :: "time option"
  tw_status :: team_status
  tw_repos :: "string list"
  tw_agent_count :: int
  tw_governance_required :: int
  tw_created_at :: time
  tw_created_by :: "string option"
  tw_claimed_at :: "time option"

datatype team_payload = tp_update TeamConfig | tp_request time | tp_response "TeamConfig list" | tp_unknown

record team_message =
  tg_payload :: team_payload
  tg_from :: peer_id
  tg_timestamp :: time

text \<open>\<open>tr_scan\<close> is the interval of the scan, if it runs; \<open>tr_boards\<close> logs the boards asked for. Messages in \<open>tr_published\<close> went to the topic.\<close>

record team_registry =
  tr_table :: "(string, team_row) jsmap"
  tr_self :: peer_id
  tr_processed :: "(string \<times> time option) list"
  tr_order :: "(string \<times> time option) list"
  tr_scan :: "time option"
  tr_threshold :: time
  tr_published :: "team_message list"
  tr_boards :: "string list"

definition DEFAULT_ORPHAN_THRESHOLD_MS :: time where "DEFAULT_ORPHAN_THRESHOLD_MS = 20 * 60 * 1000"
definition DEFAULT_ORPHAN_SCAN_INTERVAL_MS :: time where "DEFAULT_ORPHAN_SCAN_INTERVAL_MS = 5 * 60 * 1000"
definition DEV_ORPHAN_THRESHOLD_MS :: time where "DEV_ORPHAN_THRESHOLD_MS = 2 * 60 * 1000"
definition DEV_ORPHAN_SCAN_INTERVAL_MS :: time where "DEV_ORPHAN_SCAN_INTERVAL_MS = 30 * 1000"
definition DEDUP_CAP :: nat where "DEDUP_CAP = 10000"

definition rowToConfig :: "string \<Rightarrow> team_row \<Rightarrow> TeamConfig" where
  "rowToConfig i r = \<lparr>tc_id = i, tc_displayName = tw_display_name r, tc_managingNode = tw_managing_node r, tc_lastHeartbeat = tw_last_heartbeat r,
     tc_status = tw_status r, tc_repos = tw_repos r, tc_agentCount = tw_agent_count r, tc_governanceRequired = (tw_governance_required r = 1),
     tc_createdAt = tw_created_at r, tc_createdBy = tw_created_by r, tc_claimedAt = tw_claimed_at r\<rparr>"

definition configToRow :: "TeamConfig \<Rightarrow> team_row" where
  "configToRow c = \<lparr>tw_display_name = tc_displayName c, tw_managing_node = tc_managingNode c, tw_last_heartbeat = tc_lastHeartbeat c, tw_status = tc_status c,
     tw_repos = tc_repos c, tw_agent_count = tc_agentCount c, tw_governance_required = (if tc_governanceRequired c then 1 else 0),
     tw_created_at = tc_createdAt c, tw_created_by = tc_createdBy c, tw_claimed_at = tc_claimedAt c\<rparr>"

definition TeamRegistry_init :: "peer_id \<Rightarrow> (string, team_row) jsmap \<Rightarrow> team_registry" where
  "TeamRegistry_init self table = \<lparr>tr_table = table, tr_self = self, tr_processed = [], tr_order = [], tr_scan = None,
     tr_threshold = DEFAULT_ORPHAN_THRESHOLD_MS, tr_published = [], tr_boards = []\<rparr>"

section \<open>Reading and writing teams\<close>

definition getTeam :: "team_registry \<Rightarrow> string \<Rightarrow> TeamConfig option" where
  "getTeam g i = map_option (rowToConfig i) (jget (tr_table g) i)"

definition listTeams :: "team_registry \<Rightarrow> TeamConfig list" where
  "listTeams g = map (\<lambda>(i, r). rowToConfig i r) (tr_table g)"

definition team_publish :: "time \<Rightarrow> team_payload \<Rightarrow> team_registry \<Rightarrow> team_registry" where
  "team_publish now p g = g\<lparr>tr_published := tr_published g @ [\<lparr>tg_payload = p, tg_from = tr_self g, tg_timestamp = now\<rparr>]\<rparr>"

definition broadcastTeamUpdate :: "time \<Rightarrow> TeamConfig \<Rightarrow> team_registry \<Rightarrow> team_registry" where
  "broadcastTeamUpdate now c = team_publish now (tp_update c)"

definition broadcast_current :: "time \<Rightarrow> string \<Rightarrow> team_registry \<Rightarrow> team_registry" where
  "broadcast_current now i g = (case getTeam g i of None \<Rightarrow> g | Some c \<Rightarrow> broadcastTeamUpdate now c g)"

text \<open>\<^verbatim>\<open>Partial<TeamConfig>\<close>; the id cannot be changed.\<close>

record team_updates =
  up_displayName :: "string option"
  up_managingNode :: "peer_id option option"
  up_lastHeartbeat :: "time option option"
  up_status :: "team_status option"
  up_repos :: "string list option"
  up_agentCount :: "int option"
  up_governanceRequired :: "bool option"
  up_createdAt :: "time option"
  up_createdBy :: "string option option"
  up_claimedAt :: "time option option"

definition given_or :: "'a \<Rightarrow> 'a option \<Rightarrow> 'a" where
  "given_or x u = (case u of None \<Rightarrow> x | Some y \<Rightarrow> y)"

definition merge_updates :: "team_updates \<Rightarrow> TeamConfig \<Rightarrow> TeamConfig" where
  "merge_updates u c =
     \<lparr>tc_id = tc_id c, tc_displayName = given_or (tc_displayName c) (up_displayName u), tc_managingNode = given_or (tc_managingNode c) (up_managingNode u),
      tc_lastHeartbeat = given_or (tc_lastHeartbeat c) (up_lastHeartbeat u), tc_status = given_or (tc_status c) (up_status u), tc_repos = given_or (tc_repos c) (up_repos u),
      tc_agentCount = given_or (tc_agentCount c) (up_agentCount u), tc_governanceRequired = given_or (tc_governanceRequired c) (up_governanceRequired u),
      tc_createdAt = given_or (tc_createdAt c) (up_createdAt u), tc_createdBy = given_or (tc_createdBy c) (up_createdBy u), tc_claimedAt = given_or (tc_claimedAt c) (up_claimedAt u)\<rparr>"

definition updateTeam :: "time \<Rightarrow> string \<Rightarrow> team_updates \<Rightarrow> team_registry \<Rightarrow> team_registry" where
  "updateTeam now i u g =
     (case getTeam g i of None \<Rightarrow> g
      | Some c \<Rightarrow> broadcastTeamUpdate now (merge_updates u c) (g\<lparr>tr_table := jset i (configToRow (merge_updates u c)) (tr_table g)\<rparr>))"

text \<open>All fields but the id and the time of creation.\<close>

definition all_updates :: "TeamConfig \<Rightarrow> team_updates" where
  "all_updates c = \<lparr>up_displayName = Some (tc_displayName c), up_managingNode = Some (tc_managingNode c), up_lastHeartbeat = Some (tc_lastHeartbeat c),
     up_status = Some (tc_status c), up_repos = Some (tc_repos c), up_agentCount = Some (tc_agentCount c), up_governanceRequired = Some (tc_governanceRequired c),
     up_createdAt = None, up_createdBy = Some (tc_createdBy c), up_claimedAt = Some (tc_claimedAt c)\<rparr>"

definition createTeam :: "time \<Rightarrow> TeamConfig \<Rightarrow> team_registry \<Rightarrow> team_registry" where
  "createTeam now c g =
     (case getTeam g (tc_id c) of
        Some old \<Rightarrow> updateTeam now (tc_id c) (all_updates c) g
      | None \<Rightarrow> let full = c\<lparr>tc_createdAt := now\<rparr> in broadcastTeamUpdate now full (g\<lparr>tr_table := jset (tc_id c) (configToRow full) (tr_table g)\<rparr>))"

definition deleteTeam :: "string \<Rightarrow> team_registry \<Rightarrow> team_registry" where
  "deleteTeam i g = g\<lparr>tr_table := jdel i (tr_table g)\<rparr>"

definition claimTeam :: "time \<Rightarrow> string \<Rightarrow> team_registry \<Rightarrow> team_registry \<times> bool" where
  "claimTeam now i g =
     (case jget (tr_table g) i of None \<Rightarrow> (g, False)
      | Some r \<Rightarrow> if tw_managing_node r = None \<or> tw_status r = tm_orphaned
          then (broadcast_current now i (g\<lparr>tr_table := jset i (r\<lparr>tw_managing_node := Some (tr_self g), tw_claimed_at := Some now, tw_last_heartbeat := Some now,
                  tw_status := tm_active\<rparr>) (tr_table g)\<rparr>), True)
          else (g, False))"

definition updateHeartbeat :: "time \<Rightarrow> string \<Rightarrow> team_registry \<Rightarrow> team_registry" where
  "updateHeartbeat now i g =
     broadcast_current now i (g\<lparr>tr_table := jupd i (\<lambda>r. if tw_managing_node r = Some (tr_self g)
       then r\<lparr>tw_last_heartbeat := Some now, tw_status := tm_active\<rparr> else r) (tr_table g)\<rparr>)"

definition team_stale :: "time \<Rightarrow> peer_id \<Rightarrow> team_row \<Rightarrow> bool" where
  "team_stale cutoff self r = (case (tw_last_heartbeat r, tw_managing_node r) of
     (Some h, Some m) \<Rightarrow> h < cutoff \<and> m \<noteq> self \<and> tw_status r \<noteq> tm_orphaned | _ \<Rightarrow> False)"

definition getOrphanedTeams :: "time \<Rightarrow> time \<Rightarrow> team_registry \<Rightarrow> TeamConfig list" where
  "getOrphanedTeams now threshold g =
     map (\<lambda>(i, r). rowToConfig i r) (filter (\<lambda>(i, r). team_stale (now - threshold) (tr_self g) r) (tr_table g))"

definition getTeamsForNode :: "peer_id \<Rightarrow> team_registry \<Rightarrow> TeamConfig list" where
  "getTeamsForNode p g = map (\<lambda>(i, r). rowToConfig i r) (filter (\<lambda>(i, r). tw_managing_node r = Some p) (tr_table g))"

section \<open>Replication\<close>

text \<open>The key under which an update is remembered; \<^verbatim>\<open>0\<close> counts as absent, as in \<^verbatim>\<open>claimedAt || lastHeartbeat\<close>.\<close>

definition dedup_key :: "TeamConfig \<Rightarrow> string \<times> time option" where
  "dedup_key c = (tc_id c, case tc_claimedAt c of Some t \<Rightarrow> if t \<noteq> 0 then Some t else tc_lastHeartbeat c | None \<Rightarrow> tc_lastHeartbeat c)"

definition team_evict :: "team_registry \<Rightarrow> team_registry" where
  "team_evict g = (let n = length (tr_order g) - DEDUP_CAP in g\<lparr>tr_order := drop n (tr_order g), tr_processed := fold sdel (take n (tr_order g)) (tr_processed g)\<rparr>)"

definition addProcessedId :: "string \<times> time option \<Rightarrow> team_registry \<Rightarrow> team_registry" where
  "addProcessedId k g = team_evict (g\<lparr>tr_processed := sadd k (tr_processed g), tr_order := tr_order g @ [k]\<rparr>)"

definition isHeartbeatOnly :: "TeamConfig \<Rightarrow> TeamConfig \<Rightarrow> bool" where
  "isHeartbeatOnly old c = (tc_managingNode old = tc_managingNode c \<and> tc_claimedAt old = tc_claimedAt c \<and> tc_agentCount old = tc_agentCount c \<and>
     tc_status old = tc_status c \<and> tc_displayName old = tc_displayName c \<and> tc_repos old = tc_repos c \<and>
     tc_governanceRequired old = tc_governanceRequired c \<and> tc_lastHeartbeat old \<noteq> tc_lastHeartbeat c)"

definition time_or_zero :: "time option \<Rightarrow> time" where
  "time_or_zero x = (case x of None \<Rightarrow> 0 | Some t \<Rightarrow> t)"

definition supersedes :: "TeamConfig \<Rightarrow> TeamConfig \<Rightarrow> bool" where
  "supersedes c old = (time_or_zero (tc_claimedAt old) < time_or_zero (tc_claimedAt c) \<or>
     time_or_zero (tc_claimedAt old) = time_or_zero (tc_claimedAt c) \<and> time_or_zero (tc_lastHeartbeat old) < time_or_zero (tc_lastHeartbeat c))"

definition mergeTeamConfig :: "TeamConfig \<Rightarrow> team_registry \<Rightarrow> team_registry" where
  "mergeTeamConfig c g =
     (case getTeam g (tc_id c) of
        None \<Rightarrow> g\<lparr>tr_table := jset (tc_id c) (configToRow c) (tr_table g)\<rparr>
      | Some old \<Rightarrow> if supersedes c old then g\<lparr>tr_table := jset (tc_id c) (configToRow c) (tr_table g)\<rparr> else g)"

definition since_row :: "time \<Rightarrow> team_row \<Rightarrow> bool" where
  "since_row since r = ((case tw_last_heartbeat r of None \<Rightarrow> False | Some t \<Rightarrow> since \<le> t) \<or> (case tw_claimed_at r of None \<Rightarrow> False | Some t \<Rightarrow> since \<le> t) \<or>
     since \<le> tw_created_at r)"

definition respondWithTeams :: "time \<Rightarrow> time \<Rightarrow> team_registry \<Rightarrow> team_registry" where
  "respondWithTeams now since g =
     team_publish now (tp_response (map (\<lambda>(i, r). rowToConfig i r) (filter (\<lambda>(i, r). since_row since r) (tr_table g)))) g"

definition handleTeamMessage :: "time \<Rightarrow> team_message \<Rightarrow> team_registry \<Rightarrow> team_registry" where
  "handleTeamMessage now m g =
     (if tg_from m = tr_self g then g
      else case tg_payload m of
        tp_update c \<Rightarrow>
          if tc_id c = [] then g
          else if dedup_key c \<in> set (tr_processed g) then g
          else let g1 = addProcessedId (dedup_key c) g
               in (case getTeam g1 (tc_id c) of
                     Some old \<Rightarrow> if isHeartbeatOnly old c \<and> Some (tg_from m) \<noteq> tc_managingNode c then g1 else mergeTeamConfig c g1
                   | None \<Rightarrow> mergeTeamConfig c g1)
      | tp_request since \<Rightarrow> respondWithTeams now since g
      | tp_response cs \<Rightarrow> fold mergeTeamConfig cs g
      | tp_unknown \<Rightarrow> g)"

text \<open>A request names no peer: it goes to the topic, and every node answers.\<close>

definition team_requestSync :: "time \<Rightarrow> team_registry \<Rightarrow> team_registry" where
  "team_requestSync now = team_publish now (tp_request 0)"

section \<open>Orphans, bootstrap and heartbeats\<close>

definition startOrphanScan :: "time \<Rightarrow> time option \<Rightarrow> team_registry \<Rightarrow> team_registry" where
  "startOrphanScan interval threshold g =
     g\<lparr>tr_scan := Some interval, tr_threshold := (case threshold of Some t \<Rightarrow> if t \<noteq> 0 then t else tr_threshold g | None \<Rightarrow> tr_threshold g)\<rparr>"

definition startOrphanScanDevMode :: "team_registry \<Rightarrow> team_registry" where
  "startOrphanScanDevMode = startOrphanScan DEV_ORPHAN_SCAN_INTERVAL_MS (Some DEV_ORPHAN_THRESHOLD_MS)"

definition team_stop :: "team_registry \<Rightarrow> team_registry" where
  "team_stop g = g\<lparr>tr_scan := None\<rparr>"

text \<open>The callback of \<^verbatim>\<open>init-platform.ts\<close>: with an engine, the node claims the team and asks for its board.\<close>

definition onOrphanDetected :: "bool \<Rightarrow> time \<Rightarrow> string \<Rightarrow> team_registry \<Rightarrow> team_registry" where
  "onOrphanDetected engine now i g =
     (if \<not> engine then g
      else case claimTeam now i g of (g1, claimed) \<Rightarrow> if claimed then g1\<lparr>tr_boards := tr_boards g1 @ [i]\<rparr> else g1)"

definition orphan_team :: "bool \<Rightarrow> time \<Rightarrow> TeamConfig \<Rightarrow> team_registry \<Rightarrow> team_registry" where
  "orphan_team engine now c g =
     onOrphanDetected engine now (tc_id c) (g\<lparr>tr_table := jupd (tc_id c) (\<lambda>r. r\<lparr>tw_status := tm_orphaned\<rparr>) (tr_table g)\<rparr>)"

definition scanForOrphans :: "bool \<Rightarrow> time \<Rightarrow> team_registry \<Rightarrow> team_registry" where
  "scanForOrphans engine now g = fold (orphan_team engine now) (getOrphanedTeams now (tr_threshold g) g) g"

definition infra_team :: "time \<Rightarrow> peer_id \<Rightarrow> TeamConfig" where
  "infra_team now self = \<lparr>tc_id = ''pando-infra'', tc_displayName = ''Pando Infrastructure'', tc_managingNode = Some self, tc_lastHeartbeat = Some now,
     tc_status = tm_active, tc_repos = [''pando-lux/node'', ''pando-lux/code''], tc_agentCount = 4, tc_governanceRequired = True, tc_createdAt = now,
     tc_createdBy = Some self, tc_claimedAt = Some now\<rparr>"

definition bootstrapTeams :: "bool \<Rightarrow> time \<Rightarrow> team_registry \<Rightarrow> team_registry" where
  "bootstrapTeams engine now g =
     (if \<not> engine then g
      else case getTeam g ''pando-infra'' of
        None \<Rightarrow> createTeam now (infra_team now (tr_self g)) g
      | Some c \<Rightarrow> if \<not> truthy (tc_managingNode c) \<or> tc_status c = tm_orphaned then fst (claimTeam now ''pando-infra'' g) else g)"

definition heartbeat_tick :: "time \<Rightarrow> team_registry \<Rightarrow> team_registry" where
  "heartbeat_tick now g = fold (\<lambda>c. updateHeartbeat now (tc_id c)) (getTeamsForNode (tr_self g) g) g"

definition start_scan_for :: "nat \<Rightarrow> team_registry \<Rightarrow> team_registry" where
  "start_scan_for peers g = (if peers \<le> 8 then startOrphanScanDevMode g else startOrphanScan DEFAULT_ORPHAN_SCAN_INTERVAL_MS None g)"

section \<open>Copies converge\<close>

lemma row_roundtrip [simp]: "rowToConfig (tc_id c) (configToRow c) = c"
  by (simp add: rowToConfig_def configToRow_def)

lemma getTeam_id: "getTeam g i = Some c \<Longrightarrow> tc_id c = i"
  by (auto simp: getTeam_def rowToConfig_def)

lemma getTeam_put [simp]:
  "getTeam (g\<lparr>tr_table := jset (tc_id c) (configToRow c) (tr_table g)\<rparr>) i = (if i = tc_id c then Some c else getTeam g i)"
  by (auto simp: getTeam_def)

lemma getTeam_merge:
  "getTeam (mergeTeamConfig c g) i = (if i \<noteq> tc_id c then getTeam g i
     else case getTeam g i of None \<Rightarrow> Some c | Some old \<Rightarrow> Some (if supersedes c old then c else old))"
  by (auto simp: mergeTeamConfig_def split: option.split)

definition newest_of :: "TeamConfig set \<Rightarrow> TeamConfig option \<Rightarrow> bool" where
  "newest_of S x = (case x of None \<Rightarrow> S = {} | Some c \<Rightarrow> c \<in> S \<and> (\<forall>d \<in> S. \<not> supersedes d c))"

definition versions :: "string \<Rightarrow> TeamConfig list \<Rightarrow> team_registry \<Rightarrow> TeamConfig set" where
  "versions i cs g = {c \<in> set cs. tc_id c = i} \<union> set_option (getTeam g i)"

lemma merge_newest: "newest_of (versions i cs g) (getTeam (fold mergeTeamConfig cs g) i)"
proof (induction cs arbitrary: g)
  case Nil
  show ?case by (auto simp: newest_of_def versions_def supersedes_def split: option.split)
next
  case (Cons c cs)
  let ?g = "mergeTeamConfig c g" and ?x = "getTeam (fold mergeTeamConfig cs (mergeTeamConfig c g)) i"
  have ih: "newest_of (versions i cs ?g) ?x" by (rule Cons.IH)
  show ?case
  proof (cases "tc_id c = i")
    case False
    then have "versions i (c # cs) g = versions i cs ?g" by (auto simp: versions_def getTeam_merge)
    then show ?thesis using ih by simp
  next
    case True
    have "(case getTeam g i of None \<Rightarrow> versions i (c # cs) g = versions i cs ?g
        | Some old \<Rightarrow> versions i (c # cs) g = insert (if supersedes c old then old else c) (versions i cs ?g) \<and>
            (if supersedes c old then c else old) \<in> versions i cs ?g)"
      using True by (auto simp: versions_def getTeam_merge split: option.split)
    then show ?thesis using ih
      by (auto simp: newest_of_def supersedes_def split: option.split_asm if_split_asm)
  qed
qed

lemma newest_unique:
  assumes "newest_of S x" "newest_of S y" and "\<And>c d. c \<in> S \<Longrightarrow> d \<in> S \<Longrightarrow> \<not> supersedes c d \<Longrightarrow> \<not> supersedes d c \<Longrightarrow> c = d"
  shows "x = y"
  using assms(1,2) by (auto simp: newest_of_def split: option.split_asm intro: assms(3))

text \<open>Two nodes that know the same teams and merge the same versions, in any order and any number of times, agree, if no two versions of a team carry the
  same times of claim and heartbeat.\<close>

lemma team_copies_converge:
  assumes "getTeam g i = getTeam h i" and "set cs = set ds"
    and "\<And>c d. c \<in> versions i cs g \<Longrightarrow> d \<in> versions i cs g \<Longrightarrow> \<not> supersedes c d \<Longrightarrow> \<not> supersedes d c \<Longrightarrow> c = d"
  shows "getTeam (fold mergeTeamConfig cs g) i = getTeam (fold mergeTeamConfig ds h) i"
proof (rule newest_unique [OF merge_newest])
  have "versions i cs g = versions i ds h" using assms(1,2) by (simp add: versions_def)
  then show "newest_of (versions i cs g) (getTeam (fold mergeTeamConfig ds h) i)" using merge_newest [of i ds h] by simp
qed (rule assms(3))

text \<open>Without a new claim or heartbeat a change does not travel: a team that was changed or given up through \<open>updateTeam\<close> stays as it was on every node
  that knows it.\<close>

lemma patches_do_not_propagate:
  assumes "getTeam g i = Some c" "getTeam h i = Some c" "tr_self h \<noteq> tr_self g" and "up_claimedAt u = None" "up_lastHeartbeat u = None"
  shows "getTeam (handleTeamMessage t (last (tr_published (updateTeam now i u g))) h) i = Some c"
proof -
  have i: "tc_id c = i" by (rule getTeam_id [OF assms(1)])
  have "last (tr_published (updateTeam now i u g)) = \<lparr>tg_payload = tp_update (merge_updates u c), tg_from = tr_self g, tg_timestamp = now\<rparr>"
    by (simp add: updateTeam_def assms(1) broadcastTeamUpdate_def team_publish_def)
  moreover have "\<not> supersedes (merge_updates u c) c" "tc_id (merge_updates u c) = i" using assms(4,5) i by (simp_all add: supersedes_def merge_updates_def given_or_def)
  moreover have "getTeam (addProcessedId k h) = getTeam h" for k by (simp add: fun_eq_iff getTeam_def addProcessedId_def team_evict_def Let_def)
  ultimately show ?thesis using assms(2,3) by (auto simp: handleTeamMessage_def Let_def getTeam_merge)
qed

section \<open>Heartbeats are taken for duplicates\<close>

text \<open>News of a team whose claim the receiver has seen already.\<close>

definition old_news :: "string \<Rightarrow> time \<Rightarrow> peer_id \<Rightarrow> team_message \<Rightarrow> bool" where
  "old_news i t p m = (tg_from m = p \<and> (\<exists>c. tg_payload m = tp_update c \<and> (tc_id c = i \<longrightarrow> tc_claimedAt c = Some t)))"

text \<open>A team that its manager keeps: the claim stands, and what is published of it carries the time of the claim.\<close>

definition keeps_claim :: "string \<Rightarrow> time \<Rightarrow> team_registry \<Rightarrow> team_registry \<Rightarrow> bool" where
  "keeps_claim i t g g' = (tr_self g' = tr_self g \<and> tr_processed g' = tr_processed g \<and>
     (\<exists>r. jget (tr_table g') i = Some r \<and> tw_managing_node r = Some (tr_self g) \<and> tw_claimed_at r = Some t) \<and>
     (\<exists>ms. tr_published g' = tr_published g @ ms \<and> (\<forall>m \<in> set ms. old_news i t (tr_self g) m)))"

lemma keeps_trans: "keeps_claim i t g g1 \<Longrightarrow> keeps_claim i t g1 g2 \<Longrightarrow> keeps_claim i t g g2"
  by (auto simp: keeps_claim_def)

lemma fold_keeps:
  assumes "keeps_claim i t g g" and "\<And>x h. keeps_claim i t h h \<Longrightarrow> keeps_claim i t h (f x h)"
  shows "keeps_claim i t g (fold f xs g)"
  using assms(1)
proof (induction xs arbitrary: g)
  case (Cons x xs)
  then have k: "keeps_claim i t g (f x g)" by (rule_tac assms(2))
  then have "keeps_claim i t (f x g) (f x g)" by (auto simp: keeps_claim_def)
  then show ?case using Cons.IH keeps_trans [OF k] by simp
qed simp

lemma heartbeat_keeps: "keeps_claim i t g g \<Longrightarrow> keeps_claim i t g (updateHeartbeat now j g)"
  by (auto simp: keeps_claim_def updateHeartbeat_def broadcast_current_def broadcastTeamUpdate_def team_publish_def getTeam_def rowToConfig_def old_news_def
      split: option.split)

lemma ticks_keep: "keeps_claim i t g g \<Longrightarrow> keeps_claim i t g (fold heartbeat_tick ts g)"
  by (erule fold_keeps) (auto simp: heartbeat_tick_def intro: fold_keeps heartbeat_keeps)

lemma team_evict_few: "length (tr_order g) \<le> DEDUP_CAP \<Longrightarrow> team_evict g = g"
  by (simp add: team_evict_def)

lemma old_news_ignored:
  assumes "old_news i t p m" "p \<noteq> tr_self g" "(i, Some t) \<in> set (tr_processed g)" "t \<noteq> 0" "length (tr_order g) < DEDUP_CAP"
  shows "let g' = handleTeamMessage now m g in jget (tr_table g') i = jget (tr_table g) i \<and> tr_self g' = tr_self g \<and> tr_threshold g' = tr_threshold g \<and>
     (i, Some t) \<in> set (tr_processed g') \<and> length (tr_order g') \<le> Suc (length (tr_order g))"
proof -
  obtain c where c: "tg_payload m = tp_update c" "tc_id c = i \<longrightarrow> tc_claimedAt c = Some t" "tg_from m = p" using assms(1) by (auto simp: old_news_def)
  have "addProcessedId k g = g\<lparr>tr_processed := sadd k (tr_processed g), tr_order := tr_order g @ [k]\<rparr>" for k
    using assms(5) by (simp add: addProcessedId_def team_evict_few)
  moreover have "dedup_key c = (i, Some t)" if "tc_id c = i" using c(2) that assms(4) by (simp add: dedup_key_def)
  ultimately show ?thesis using assms(2,3) c
    by (auto simp: handleTeamMessage_def Let_def mergeTeamConfig_def sadd_def split: option.split)
qed

lemma all_old_news_ignored:
  assumes "\<forall>m \<in> set ms. old_news i t p m" "p \<noteq> tr_self g" "(i, Some t) \<in> set (tr_processed g)" "t \<noteq> 0" "length (tr_order g) + length ms \<le> DEDUP_CAP"
  shows "jget (tr_table (fold (handleTeamMessage now) ms g)) i = jget (tr_table g) i \<and> tr_self (fold (handleTeamMessage now) ms g) = tr_self g \<and>
     tr_threshold (fold (handleTeamMessage now) ms g) = tr_threshold g"
  using assms(1,2,3,5)
proof (induction ms arbitrary: g)
  case (Cons m ms)
  then have h: "let g' = handleTeamMessage now m g in jget (tr_table g') i = jget (tr_table g) i \<and> tr_self g' = tr_self g \<and> tr_threshold g' = tr_threshold g \<and>
     (i, Some t) \<in> set (tr_processed g') \<and> length (tr_order g') \<le> Suc (length (tr_order g))"
    by (intro old_news_ignored [OF _ _ _ assms(4)]) auto
  then have "length (tr_order (handleTeamMessage now m g)) + length ms \<le> DEDUP_CAP" using Cons.prems(4) by (simp add: Let_def)
  then show ?case using Cons.IH [of "handleTeamMessage now m g"] h Cons.prems by (simp add: Let_def)
qed simp

text \<open>A team taken over: the row names the node, and the new claim is published.\<close>

definition taken :: "string \<Rightarrow> time \<Rightarrow> team_registry \<Rightarrow> bool" where
  "taken i now g = ((\<exists>r. jget (tr_table g) i = Some r \<and> tw_managing_node r = Some (tr_self g)) \<and>
     (\<exists>m \<in> set (tr_published g). tg_from m = tr_self g \<and> (\<exists>c. tg_payload m = tp_update c \<and> tc_id c = i \<and> tc_managingNode c = Some (tr_self g) \<and>
        tc_claimedAt c = Some now)))"

lemmas take_over_defs = orphan_team_def onOrphanDetected_def claimTeam_def broadcast_current_def broadcastTeamUpdate_def team_publish_def getTeam_def
  rowToConfig_def

lemma orphan_taken:
  "jget (tr_table g) i = Some r \<Longrightarrow> taken i now g \<or> tc_id c = i \<Longrightarrow> taken i now (orphan_team True now c g)"
  "tr_self (orphan_team True now c g) = tr_self g"
  "jget (tr_table g) i = Some r \<Longrightarrow> \<exists>r'. jget (tr_table (orphan_team True now c g)) i = Some r'"
  by (auto simp: take_over_defs taken_def split: option.split prod.split)

lemma orphans_taken:
  "jget (tr_table g) i = Some r \<Longrightarrow> taken i now g \<or> i \<in> tc_id ` set cs \<Longrightarrow> taken i now (fold (orphan_team True now) cs g)"
proof (induction cs arbitrary: g r)
  case (Cons c cs)
  obtain r' where "jget (tr_table (orphan_team True now c g)) i = Some r'" using orphan_taken(3) [OF Cons.prems(1)] by auto
  then show ?case using Cons.IH [of "orphan_team True now c g" r'] Cons.prems orphan_taken(1) by auto
qed simp

lemma orphans_self: "tr_self (fold (orphan_team True now) cs g) = tr_self g"
  by (induction cs arbitrary: g) (simp_all add: orphan_taken(2))

lemma scan_takes:
  assumes "jget (tr_table g) i = Some r" "team_stale (now - tr_threshold g) (tr_self g) r"
  shows "taken i now (scanForOrphans True now g)"
proof -
  have "i \<in> tc_id ` set (getOrphanedTeams now (tr_threshold g) g)"
    using jget_SomeD [OF assms(1)] assms(2) by (force simp: getOrphanedTeams_def rowToConfig_def)
  then show ?thesis using orphans_taken [OF assms(1)] by (simp add: scanForOrphans_def)
qed

lemma later_claim_wins:
  assumes "keeps_claim i t g g" "tc_id c = i" "tc_managingNode c = Some p" "tc_claimedAt c = Some now" "p \<noteq> tr_self g" "0 < t" "t < now"
    and "(i, Some now) \<notin> set (tr_processed g)" "i \<noteq> []" "tg_from m = p" "tg_payload m = tp_update c"
  shows "getTeam (handleTeamMessage now2 m g) i = Some c"
proof -
  have "dedup_key c = (i, Some now)" using assms by (simp add: dedup_key_def)
  moreover have "getTeam (addProcessedId k g) = getTeam g" for k by (simp add: fun_eq_iff getTeam_def addProcessedId_def team_evict_def Let_def)
  moreover obtain old where "getTeam g i = Some old" "tc_managingNode old = Some (tr_self g)" "tc_claimedAt old = Some t"
    using assms(1) by (auto simp: keeps_claim_def getTeam_def rowToConfig_def)
  ultimately show ?thesis using assms(2-)
    by (auto simp: handleTeamMessage_def Let_def getTeam_merge isHeartbeatOnly_def supersedes_def time_or_zero_def)
qed

text \<open>What a node publishes while it keeps its teams, and a node that gets it and then scans for orphans.\<close>

definition beats_sent :: "time list \<Rightarrow> team_registry \<Rightarrow> team_message list" where
  "beats_sent ts g = drop (length (tr_published g)) (tr_published (fold heartbeat_tick ts g))"

definition hear_and_scan :: "time \<Rightarrow> time \<Rightarrow> team_message list \<Rightarrow> team_registry \<Rightarrow> team_registry" where
  "hear_and_scan arrival now ms g = scanForOrphans True now (fold (handleTeamMessage arrival) ms g)"

text \<open>C99: A team is taken from a live node. However often node \<open>ga\<close> sends heartbeats, and although every message reaches \<open>gb\<close>, once \<open>gb\<close>
  has seen the claim it takes the heartbeats for duplicates of it. When the last one it counted is older than its threshold, its scan claims the team, and
  \<open>ga\<close> accepts the new claim and loses the team, its own heartbeats notwithstanding.\<close>

theorem live_team_is_taken_over:
  assumes "getTeam ga i = Some c" "tc_managingNode c = Some (tr_self ga)" "tc_claimedAt c = Some t" "0 < t" "i \<noteq> []"
    and "getTeam gb i = Some d" "tc_managingNode d = Some (tr_self ga)" "tc_status d \<noteq> tm_orphaned" "tc_lastHeartbeat d = Some h"
    and "tr_self ga \<noteq> tr_self gb" "(i, Some t) \<in> set (tr_processed gb)" "length (tr_order gb) + length (beats_sent ts ga) \<le> DEDUP_CAP"
    and "h + tr_threshold gb < now" "t < now" "(i, Some now) \<notin> set (tr_processed ga)"
  shows "map_option tc_managingNode (getTeam (hear_and_scan arrival now (beats_sent ts ga) gb) i) = Some (Some (tr_self gb)) \<and>
    (\<exists>m \<in> set (tr_published (hear_and_scan arrival now (beats_sent ts ga) gb)).
       map_option tc_managingNode (getTeam (handleTeamMessage later m (fold heartbeat_tick ts ga)) i) = Some (Some (tr_self gb)))"
proof -
  let ?ga = "fold heartbeat_tick ts ga" and ?ms = "beats_sent ts ga" and ?gb = "hear_and_scan arrival now (beats_sent ts ga) gb"
  let ?h = "fold (handleTeamMessage arrival) ?ms gb"
  have "keeps_claim i t ga ga" using assms(1-3) by (auto simp: keeps_claim_def getTeam_def rowToConfig_def)
  then have k: "keeps_claim i t ga ?ga" by (rule ticks_keep)
  then have "\<forall>m \<in> set ?ms. old_news i t (tr_self ga) m" by (auto simp: keeps_claim_def beats_sent_def)
  then have same: "jget (tr_table ?h) i = jget (tr_table gb) i \<and> tr_self ?h = tr_self gb \<and> tr_threshold ?h = tr_threshold gb"
    by (rule all_old_news_ignored) (use assms in auto)
  obtain r where "jget (tr_table ?h) i = Some r" "team_stale (now - tr_threshold ?h) (tr_self ?h) r"
    using same assms by (auto simp: getTeam_def rowToConfig_def team_stale_def)
  then have "taken i now ?gb" unfolding hear_and_scan_def by (rule scan_takes)
  moreover have "tr_self ?gb = tr_self gb" using same by (simp add: hear_and_scan_def scanForOrphans_def orphans_self)
  ultimately obtain m c' where m: "map_option tc_managingNode (getTeam ?gb i) = Some (Some (tr_self gb))" "m \<in> set (tr_published ?gb)"
      "tg_from m = tr_self gb" "tg_payload m = tp_update c'" "tc_id c' = i" "tc_managingNode c' = Some (tr_self gb)" "tc_claimedAt c' = Some now"
    by (auto simp: taken_def getTeam_def rowToConfig_def)
  have "keeps_claim i t ?ga ?ga" "tr_self ?ga = tr_self ga" "tr_processed ?ga = tr_processed ga" using k by (auto simp: keeps_claim_def)
  then have "getTeam (handleTeamMessage later m ?ga) i = Some c'"
    by (intro later_claim_wins [where t = t and now = now and p = "tr_self gb"]) (use assms m in auto)
  then show ?thesis using m by auto
qed

definition team_A :: team_registry where
  "team_A = bootstrapTeams True 1000 (TeamRegistry_init ''A'' [])"

definition team_B :: team_registry where
  "team_B = handleTeamMessage 1000 (last (tr_published team_A)) (TeamRegistry_init ''B'' [])"

definition beat_times :: "time list" where
  "beat_times = [301000, 601000, 901000, 1201000]"

lemmas team_eval = team_A_def team_B_def beat_times_def bootstrapTeams_def TeamRegistry_init_def createTeam_def infra_team_def getTeam_def broadcastTeamUpdate_def
  team_publish_def handleTeamMessage_def Let_def mergeTeamConfig_def dedup_key_def addProcessedId_def team_evict_def sadd_def DEDUP_CAP_def
  DEFAULT_ORPHAN_THRESHOLD_MS_def

lemma live_team_is_taken_over_witness:
  "map_option tc_managingNode (getTeam (hear_and_scan 1201001 1201001 (beats_sent beat_times team_A) team_B) ''pando-infra'') = Some (Some ''B'') \<and>
    (\<exists>m \<in> set (tr_published (hear_and_scan 1201001 1201001 (beats_sent beat_times team_A) team_B)).
       map_option tc_managingNode (getTeam (handleTeamMessage 1201002 m (fold heartbeat_tick beat_times team_A)) ''pando-infra'') = Some (Some ''B''))"
proof -
  have s: "tr_self team_A = ''A''" "tr_self team_B = ''B''" by (simp_all add: team_eval)
  have few: "length (tr_order team_B) + length (beats_sent beat_times team_A) \<le> DEDUP_CAP" by code_simp
  show ?thesis
    by (rule live_team_is_taken_over [of team_A "''pando-infra''" "infra_team 1000 ''A''" 1000 team_B "infra_team 1000 ''A''" 1000, unfolded s])
      (use few in \<open>simp_all add: team_eval rowToConfig_def configToRow_def\<close>)
qed

end
