(* ===== verification/GitOps.thy ===== *)
theory GitOps
  imports Types JsText
begin

text \<open>
  \<^verbatim>\<open>GitOps\<close> (\<^verbatim>\<open>packages/node/src/core/git-ops.ts\<close>): the layer all git operations of the node go through. The git program, the shell, and what they
  leave on disk are parameters, functions on an arbitrary state of the machine; a command that fails gives its message.
\<close>

section \<open>The machine\<close>

text \<open>\<open>mc_git\<close> runs git with a list of arguments, \<open>mc_shell\<close> a shell command (npm, tsc); \<open>mc_cli\<close> is the size of the compiled
  program's entry file, if it exists; \<open>mc_linked\<close> says whether the linked package is a symbolic link.\<close>

record 'w machine =
  mc_git :: "string list \<Rightarrow> 'w \<Rightarrow> 'w \<times> (string + string)"
  mc_shell :: "string \<Rightarrow> 'w \<Rightarrow> 'w \<times> (string + string)"
  mc_cli :: "'w \<Rightarrow> nat option"
  mc_linked :: "'w \<Rightarrow> bool"

text \<open>A computation on the machine: the new state, and an error message or a value.\<close>

type_synonym ('w, 'a) prog = "'w \<Rightarrow> 'w \<times> (string + 'a)"

definition ret :: "'a \<Rightarrow> ('w, 'a) prog" where
  "ret x w = (w, Inr x)"

definition throw :: "string \<Rightarrow> ('w, 'a) prog" where
  "throw e w = (w, Inl e)"

definition seq_prog :: "('w, 'a) prog \<Rightarrow> ('a \<Rightarrow> ('w, 'b) prog) \<Rightarrow> ('w, 'b) prog" where
  "seq_prog p f w = (case p w of (w1, Inl e) \<Rightarrow> (w1, Inl e) | (w1, Inr x) \<Rightarrow> f x w1)"

definition catch :: "('w, 'a) prog \<Rightarrow> ('w, 'a) prog \<Rightarrow> ('w, 'a) prog" where
  "catch p h w = (case p w of (w1, Inl e) \<Rightarrow> h w1 | (w1, Inr x) \<Rightarrow> (w1, Inr x))"

definition attempt :: "('w, 'a) prog \<Rightarrow> ('w, unit) prog" where
  "attempt p w = (fst (p w), Inr ())"

section \<open>References\<close>

definition hex_char :: "char \<Rightarrow> bool" where
  "hex_char c = (c \<in> set ''0123456789abcdefABCDEF'')"

definition ref_char :: "char \<Rightarrow> bool" where
  "ref_char c = (is_alnum (js_lower c) \<or> c \<in> set ''._-/'')"

definition valid_hash :: "string \<Rightarrow> bool" where
  "valid_hash h = (6 \<le> length h \<and> length h \<le> 40 \<and> list_all hex_char h)"

definition safeGitRef :: "string \<Rightarrow> ('w, string) prog" where
  "safeGitRef r = (if r \<noteq> [] \<and> length r \<le> 100 \<and> list_all ref_char r then ret r else throw (''Invalid git ref: '' @ take 20 r))"

definition safeCommitHash :: "string \<Rightarrow> ('w, string) prog" where
  "safeCommitHash h = (if valid_hash h then ret h else throw (''Invalid commit hash: '' @ take 20 h))"

section \<open>Commands\<close>

definition git_exec :: "'w machine \<Rightarrow> string list \<Rightarrow> ('w, string) prog" where
  "git_exec M args = seq_prog (mc_git M args) (\<lambda>out. ret (str_trim out))"

definition git_do :: "'w machine \<Rightarrow> string list \<Rightarrow> ('w, unit) prog" where
  "git_do M args = seq_prog (git_exec M args) (\<lambda>_. ret ())"

text \<open>The arguments with optional references, each checked.\<close>

fun checked_refs :: "string option list \<Rightarrow> ('w, string list) prog" where
  "checked_refs [] = ret []"
| "checked_refs (None # rs) = checked_refs rs"
| "checked_refs (Some r # rs) = (if r = [] then checked_refs rs else seq_prog (safeGitRef r) (\<lambda>x. seq_prog (checked_refs rs) (\<lambda>xs. ret (x # xs))))"

definition git_cloneSync :: "'w machine \<Rightarrow> string \<Rightarrow> string \<Rightarrow> string option \<Rightarrow> ('w, unit) prog" where
  "git_cloneSync M repoUrl targetDir branch =
     seq_prog (checked_refs [branch]) (\<lambda>b. seq_prog (mc_git M ([''clone''] @ (if b = [] then [] else ''--branch'' # b) @ [repoUrl, targetDir])) (\<lambda>_. ret ()))"

text \<open>\<^verbatim>\<open>clone\<close> with the URL the credential resolver gives, if it gives one.\<close>

definition git_clone :: "'w machine \<Rightarrow> (string \<Rightarrow> string option) option \<Rightarrow> string \<Rightarrow> string \<Rightarrow> string option \<Rightarrow> ('w, unit) prog" where
  "git_clone M resolver repoUrl targetDir branch =
     (let found = (case resolver of None \<Rightarrow> None | Some f \<Rightarrow> f repoUrl)
      in git_cloneSync M (if truthy found then the found else repoUrl) targetDir branch)"

definition git_fetch :: "'w machine \<Rightarrow> string \<Rightarrow> string option \<Rightarrow> ('w, unit) prog" where
  "git_fetch M remote branch = seq_prog (checked_refs [branch]) (\<lambda>b. git_do M (''fetch'' # remote # b))"

definition git_pull :: "'w machine \<Rightarrow> string \<Rightarrow> string option \<Rightarrow> ('w, unit) prog" where
  "git_pull M remote branch = seq_prog (checked_refs [branch]) (\<lambda>b. git_do M (''pull'' # remote # b))"

definition git_checkout :: "'w machine \<Rightarrow> string \<Rightarrow> ('w, unit) prog" where
  "git_checkout M ref = seq_prog (safeGitRef ref) (\<lambda>r. git_do M [''checkout'', r])"

definition git_checkoutFiles :: "'w machine \<Rightarrow> string \<Rightarrow> string list \<Rightarrow> ('w, unit) prog" where
  "git_checkoutFiles M ref paths = seq_prog (safeGitRef ref) (\<lambda>r. git_do M ([''checkout'', r, ''--''] @ paths))"

definition git_resetHard :: "'w machine \<Rightarrow> string \<Rightarrow> ('w, unit) prog" where
  "git_resetHard M target = seq_prog (safeGitRef target) (\<lambda>r. git_do M [''reset'', ''--hard'', r])"

definition git_resetSoft :: "'w machine \<Rightarrow> string \<Rightarrow> ('w, unit) prog" where
  "git_resetSoft M target = seq_prog (safeGitRef target) (\<lambda>r. git_do M [''reset'', ''--soft'', r])"

definition git_resetIndex :: "'w machine \<Rightarrow> ('w, unit) prog" where
  "git_resetIndex M = git_do M [''reset'', ''HEAD'', ''.'']"

definition git_checkoutAll :: "'w machine \<Rightarrow> ('w, unit) prog" where
  "git_checkoutAll M = git_do M [''checkout'', ''--'', ''.'']"

definition git_add :: "'w machine \<Rightarrow> string list \<Rightarrow> ('w, unit) prog" where
  "git_add M files = git_do M ([''add'', ''--''] @ files)"

definition git_rm :: "'w machine \<Rightarrow> string list \<Rightarrow> bool \<Rightarrow> ('w, unit) prog" where
  "git_rm M files cached = git_do M (''rm'' # (if cached then [''--cached''] else []) @ ''--'' # files)"

definition getCurrentCommit :: "'w machine \<Rightarrow> bool \<Rightarrow> ('w, string) prog" where
  "getCurrentCommit M short = git_exec M (''rev-parse'' # (if short then [''--short''] else []) @ [''HEAD''])"

definition getRemoteCommit :: "'w machine \<Rightarrow> string \<Rightarrow> string \<Rightarrow> bool \<Rightarrow> ('w, string) prog" where
  "getRemoteCommit M remote branch short =
     seq_prog (safeGitRef branch) (\<lambda>b. git_exec M (''rev-parse'' # (if short then [''--short''] else []) @ [remote @ CHR ''/'' # b]))"

definition git_commit :: "'w machine \<Rightarrow> string \<Rightarrow> ('w, string) prog" where
  "git_commit M msg = seq_prog (git_exec M [''commit'', ''-m'', msg]) (\<lambda>_. getCurrentCommit M False)"

definition git_revert :: "'w machine \<Rightarrow> string \<Rightarrow> ('w, unit) prog" where
  "git_revert M h = seq_prog (safeCommitHash h) (\<lambda>c. git_do M [''revert'', ''--no-edit'', c])"

definition git_push :: "'w machine \<Rightarrow> string \<Rightarrow> string \<Rightarrow> ('w, unit) prog" where
  "git_push M remote branch = seq_prog (safeGitRef branch) (\<lambda>b. git_do M [''push'', remote, b])"

definition hasUncommittedChanges :: "'w machine \<Rightarrow> ('w, bool) prog" where
  "hasUncommittedChanges M = seq_prog (git_exec M [''status'', ''--porcelain'']) (\<lambda>out. ret (out \<noteq> []))"

definition isAncestor :: "'w machine \<Rightarrow> string \<Rightarrow> string \<Rightarrow> ('w, bool) prog" where
  "isAncestor M anc desc =
     catch (seq_prog (safeCommitHash anc) (\<lambda>a. seq_prog (safeGitRef desc) (\<lambda>d.
              seq_prog (git_exec M [''merge-base'', ''--is-ancestor'', a, d]) (\<lambda>_. ret True))))
       (ret False)"

definition git_diff :: "'w machine \<Rightarrow> string option \<Rightarrow> string option \<Rightarrow> string list \<Rightarrow> ('w, string) prog" where
  "git_diff M from to extra = seq_prog (checked_refs [from, to]) (\<lambda>rs. git_exec M (''diff'' # rs @ extra))"

definition git_diffStat :: "'w machine \<Rightarrow> string option \<Rightarrow> string option \<Rightarrow> ('w, string) prog" where
  "git_diffStat M from to = seq_prog (checked_refs [from, to]) (\<lambda>rs. git_exec M (''diff'' # rs @ [''--stat'']))"

definition git_init :: "'w machine \<Rightarrow> ('w, unit) prog" where
  "git_init M = git_do M [''init'']"

definition git_config :: "'w machine \<Rightarrow> string \<Rightarrow> string \<Rightarrow> ('w, unit) prog" where
  "git_config M key v = git_do M [''config'', key, v]"

definition git_remoteAdd :: "'w machine \<Rightarrow> string \<Rightarrow> string \<Rightarrow> ('w, unit) prog" where
  "git_remoteAdd M nm u = git_do M [''remote'', ''add'', nm, u]"

definition git_remoteRemove :: "'w machine \<Rightarrow> string \<Rightarrow> ('w, unit) prog" where
  "git_remoteRemove M nm = attempt (git_exec M [''remote'', ''remove'', nm])"

definition output_lines :: "string \<Rightarrow> string list" where
  "output_lines out = filter (\<lambda>l. l \<noteq> []) (split_at (\<lambda>c. c = CHR 0x0A) [] out)"

definition git_diffNameOnly :: "'w machine \<Rightarrow> string option \<Rightarrow> string option \<Rightarrow> ('w, string list) prog" where
  "git_diffNameOnly M from to =
     seq_prog (checked_refs [from, to]) (\<lambda>rs. seq_prog (git_exec M ([''diff'', ''--name-only''] @ rs)) (\<lambda>out. ret (output_lines out)))"

definition git_diffCachedNameOnly :: "'w machine \<Rightarrow> ('w, string list) prog" where
  "git_diffCachedNameOnly M = seq_prog (git_exec M [''diff'', ''--cached'', ''--name-only'']) (\<lambda>out. ret (output_lines out))"

definition git_show :: "'w machine \<Rightarrow> string \<Rightarrow> string \<Rightarrow> ('w, string) prog" where
  "git_show M ref path = seq_prog (safeGitRef ref) (\<lambda>r. git_exec M [''show'', r @ CHR '':'' # path])"

text \<open>\<^verbatim>\<open>parseInt(s, 10) || 0\<close> for the output of git, a number without sign.\<close>

definition parse_count :: "string \<Rightarrow> nat" where
  "parse_count s = foldl (\<lambda>n c. 10 * n + (of_char c - 48)) 0 (takeWhile (\<lambda>c. c \<in> set ''0123456789'') s)"

definition revListCount :: "'w machine \<Rightarrow> string \<Rightarrow> string \<Rightarrow> ('w, nat) prog" where
  "revListCount M from to =
     seq_prog (safeGitRef from) (\<lambda>a. seq_prog (safeGitRef to) (\<lambda>b.
       seq_prog (git_exec M [''rev-list'', a @ ''..'' @ b, ''--count'']) (\<lambda>out. ret (parse_count out))))"

definition git_lsRemote :: "'w machine \<Rightarrow> string \<Rightarrow> string \<Rightarrow> ('w, string) prog" where
  "git_lsRemote M remote ref = git_exec M [''ls-remote'', ''--exit-code'', remote, ref]"

section \<open>Compound operations\<close>

text \<open>The stash's name, which carries the time, is an argument.\<close>

definition stash_changes :: "'w machine \<Rightarrow> string \<Rightarrow> ('w, unit) prog" where
  "stash_changes M name =
     seq_prog (hasUncommittedChanges M) (\<lambda>dirty.
       if \<not> dirty then ret ()
       else seq_prog (git_exec M [''status'', ''--porcelain'']) (\<lambda>_. attempt (git_exec M [''stash'', ''push'', ''-m'', name])))"

definition stashAndReset :: "'w machine \<Rightarrow> string \<Rightarrow> string \<Rightarrow> ('w, unit) prog" where
  "stashAndReset M name target =
     seq_prog (catch (revListCount M ''origin/master'' ''HEAD'') (ret 0)) (\<lambda>unpushed.
       if 0 < unpushed then ret () else seq_prog (stash_changes M name) (\<lambda>_. git_resetHard M target))"

definition addSafeDirectory :: "'w machine \<Rightarrow> string \<Rightarrow> ('w, unit) prog" where
  "addSafeDirectory M repoDir = attempt (mc_git M [''config'', ''--global'', ''--add'', ''safe.directory'', repoDir])"

end
