(* ===== verification/Upgrade.thy ===== *)
theory Upgrade
  imports GitOps Guardrails GovTypes Ledger
begin

text \<open>
  \<^verbatim>\<open>UpgradeProtocol\<close> (\<^verbatim>\<open>packages/node/src/core/upgrade-protocol.ts\<close>) and the handlers of \<^verbatim>\<open>init-kernel.ts\<close> and \<^verbatim>\<open>init-platform.ts\<close> that start
  an upgrade: the pull of an approved commit, version pins, rollback, the catch-up with missed upgrades, and the state on
  disk. An upgrade runs to its end once it has started (the handlers keep a flag against a second one); the proposals of the
  governance component are arguments of the handlers.
\<close>

section \<open>State\<close>

datatype UpgradeProposalStatus = us_proposed | us_reviewing | us_voting | us_deployed | us_rolled_back | us_rejected
datatype risk_level = risk_low | risk_medium | risk_high | risk_critical

record RiskAssessment =
  ra_filesTouched :: "string list"
  ra_systemsAffected :: "string list"
  ra_rollbackPlan :: string
  ra_riskLevel :: risk_level

record UpgradeProposal =
  ur_proposalId :: string
  ur_commitHash :: string
  ur_description :: string
  ur_riskAssessment :: RiskAssessment
  ur_reviewPeriodMs :: time
  ur_proposerPeerId :: peer_id
  ur_status :: UpgradeProposalStatus
  ur_createdAt :: time
  ur_governanceProposalId :: "string option"

datatype record_status = ok_success | ok_rolled_back | ok_failed

record UpgradeRecord =
  uh_proposalId :: string
  uh_version :: string
  uh_status :: record_status
  uh_appliedAt :: time
  uh_rollbackAt :: "time option"
  uh_reason :: "string option"

definition STANDARD_REVIEW_MS :: time where "STANDARD_REVIEW_MS = 24 * 60 * 60 * 1000"
definition PROTOCOL_REVIEW_MS :: time where "PROTOCOL_REVIEW_MS = 72 * 60 * 60 * 1000"
definition EMERGENCY_VOTE_MS :: time where "EMERGENCY_VOTE_MS = 60 * 60 * 1000"
definition UPGRADE_QUORUM :: number where "UPGRADE_QUORUM = fl (6 / 10)"
definition UPGRADE_APPROVE_MARGIN :: number where "UPGRADE_APPROVE_MARGIN = 2"
definition UPGRADE_MAX_HISTORY :: nat where "UPGRADE_MAX_HISTORY = 200"

definition PROTOCOL_FILE_PATTERNS :: "string list" where
  "PROTOCOL_FILE_PATTERNS = [''network.ts'', ''sync.ts'', ''governance.ts'', ''types.ts'', ''crypto.ts'']"

record upgrade_file =
  uf_proposals :: "UpgradeProposal list"
  uf_history :: "UpgradeRecord list"
  uf_pinnedVersion :: "string option"
  uf_appliedProposalIds :: "string list"

text \<open>Notifications sent to the peers: commit, description, governance id.\<close>

type_synonym upgrade_notice = "string \<times> string \<times> string option"

text \<open>Beside the fields of the class: the contents of the file, the restarts asked for and the notifications sent.\<close>

record upgrade_protocol =
  ug_localPeerId :: peer_id
  ug_repoDir :: string
  ug_proposals :: "(string, UpgradeProposal) jsmap"
  ug_history :: "UpgradeRecord list"
  ug_pinnedVersion :: "string option"
  ug_appliedProposalIds :: "string list"
  ug_runningCommit :: string
  ug_hasBroadcast :: bool
  ug_file :: "upgrade_file option"
  ug_restarts :: "string list"
  ug_sent :: "upgrade_notice list"

definition ug_saveState :: "upgrade_protocol \<Rightarrow> upgrade_protocol" where
  "ug_saveState s = s\<lparr>ug_file := Some \<lparr>uf_proposals = jvals (ug_proposals s), uf_history = ug_history s,
     uf_pinnedVersion = ug_pinnedVersion s, uf_appliedProposalIds = ug_appliedProposalIds s\<rparr>\<rparr>"

definition ug_loadState :: "upgrade_protocol \<Rightarrow> upgrade_protocol" where
  "ug_loadState s =
     (case ug_file s of None \<Rightarrow> s
      | Some f \<Rightarrow> s\<lparr>ug_proposals := fold (\<lambda>p m. jset (ur_proposalId p) p m) (uf_proposals f) (ug_proposals s),
          ug_history := take UPGRADE_MAX_HISTORY (uf_history f),
          ug_pinnedVersion := (if truthy (uf_pinnedVersion f) then uf_pinnedVersion f else ug_pinnedVersion s),
          ug_appliedProposalIds := fold sadd (uf_appliedProposalIds f) (ug_appliedProposalIds s)\<rparr>)"

text \<open>The constructor: the commit the process runs is the one checked out at the start.\<close>

definition UpgradeProtocol_init :: "'w machine \<Rightarrow> peer_id \<Rightarrow> string \<Rightarrow> upgrade_file option \<Rightarrow> 'w \<Rightarrow> 'w \<times> upgrade_protocol" where
  "UpgradeProtocol_init M peer repo file w =
     (case getCurrentCommit M False w of (w1, r) \<Rightarrow>
        (w1, ug_loadState \<lparr>ug_localPeerId = peer, ug_repoDir = repo, ug_proposals = [], ug_history = [], ug_pinnedVersion = None, ug_appliedProposalIds = [],
           ug_runningCommit = (case r of Inl e \<Rightarrow> ''unknown'' | Inr c \<Rightarrow> c), ug_hasBroadcast = True, ug_file = file, ug_restarts = [], ug_sent = []\<rparr>))"

section \<open>Helpers\<close>

definition safeRestart :: "nat \<Rightarrow> bool \<Rightarrow> string \<Rightarrow> upgrade_protocol \<Rightarrow> upgrade_protocol" where
  "safeRestart workers pending builtCommit s =
     (if builtCommit = ug_runningCommit s then s
      else if 0 < workers then s
      else if pending then s
      else s\<lparr>ug_restarts := ug_restarts s @ [builtCommit]\<rparr>)"

definition hasApplied :: "upgrade_protocol \<Rightarrow> string \<Rightarrow> bool" where
  "hasApplied s i = (i \<in> set (ug_appliedProposalIds s))"

definition findByGovernanceId :: "upgrade_protocol \<Rightarrow> string \<Rightarrow> UpgradeProposal option" where
  "findByGovernanceId s g = find (\<lambda>p. ur_governanceProposalId p = Some g) (jvals (ug_proposals s))"

definition getCurrentVersion :: "'w machine \<Rightarrow> 'w \<Rightarrow> 'w \<times> string" where
  "getCurrentVersion M w = (case getCurrentCommit M True w of (w1, Inl e) \<Rightarrow> (w1, ''unknown'') | (w1, Inr c) \<Rightarrow> (w1, c))"

definition getRemoteVersion :: "'w machine \<Rightarrow> 'w \<Rightarrow> 'w \<times> string" where
  "getRemoteVersion M w = (case getRemoteCommit M ''origin'' ''master'' True w of (w1, Inl e) \<Rightarrow> getCurrentVersion M w1 | (w1, Inr c) \<Rightarrow> (w1, c))"

definition recordUpgrade :: "'w machine \<Rightarrow> time \<Rightarrow> string \<Rightarrow> record_status \<Rightarrow> string option \<Rightarrow> 'w \<Rightarrow> upgrade_protocol \<Rightarrow> 'w \<times> upgrade_protocol" where
  "recordUpgrade M now i st reason w s =
     (case getCurrentVersion M w of (w1, v) \<Rightarrow>
        (w1, ug_saveState (s\<lparr>ug_history := take UPGRADE_MAX_HISTORY (\<lparr>uh_proposalId = i, uh_version = v, uh_status = st, uh_appliedAt = now,
           uh_rollbackAt = (if st = ok_rolled_back then Some now else None), uh_reason = reason\<rparr> # ug_history s)\<rparr>)))"

definition getRecentFilesTouched :: "'w machine \<Rightarrow> 'w \<Rightarrow> 'w \<times> string list" where
  "getRecentFilesTouched M w =
     (case git_diffNameOnly M (Some ''HEAD'') (Some ''origin/master'') w of
        (w1, Inr (f # fs)) \<Rightarrow> (w1, f # fs)
      | (w1, _) \<Rightarrow> (case git_diffNameOnly M (Some ''HEAD~1'') (Some ''HEAD'') w1 of
            (w2, Inl e) \<Rightarrow> (w2, []) | (w2, Inr fs) \<Rightarrow> (w2, fs)))"

definition systems_of :: "string \<Rightarrow> string list" where
  "systems_of fp =
     (let inc = str_includes fp in
      (if inc ''network'' \<or> inc ''sync'' then [''networking''] else []) @
      (if inc ''ledger'' \<or> inc ''transaction'' then [''ledger''] else []) @
      (if inc ''governance'' then [''governance''] else []) @
      (if inc ''scheduler'' \<or> inc ''planner'' then [''scheduler''] else []) @
      (if inc ''api-server'' \<or> inc ''gateway'' then [''api''] else []) @
      (if inc ''crypto'' \<or> inc ''identity'' then [''security''] else []) @
      (if inc ''monitor'' \<or> inc ''guardrails'' then [''safety''] else []) @
      (if inc ''manager'' \<or> inc ''domain'' then [''management''] else []))"

definition assessRisk :: "string list \<Rightarrow> RiskAssessment" where
  "assessRisk files =
     (let sys = fold sadd (concat (map systems_of files)) [];
          r0 = (if ''security'' \<in> set sys \<or> ''ledger'' \<in> set sys then risk_critical
                else if ''networking'' \<in> set sys \<or> ''governance'' \<in> set sys then risk_high
                else if ''scheduler'' \<in> set sys \<or> ''safety'' \<in> set sys then risk_medium else risk_low);
          r1 = (if 20 < length files \<and> r0 = risk_low then risk_medium else r0);
          r2 = (if 50 < length files \<and> r1 = risk_medium then risk_high else r1)
      in \<lparr>ra_filesTouched = files, ra_systemsAffected = sys, ra_rollbackPlan = ''Restore from backup or git checkout HEAD -- packages/'', ra_riskLevel = r2\<rparr>)"

text \<open>The build: all packages, or else the node alone; a compiler error is accepted if the entry file is there and not empty.\<close>

definition ug_build :: "'w machine \<Rightarrow> ('w, unit) prog" where
  "ug_build M w =
     (case mc_shell M ''npm run build'' w of
        (w1, Inr _) \<Rightarrow> (w1, Inr ())
      | (w1, Inl _) \<Rightarrow> (case mc_shell M ''npx tsc -p packages/node/tsconfig.json'' w1 of
            (w2, Inr _) \<Rightarrow> (w2, Inr ())
          | (w2, Inl _) \<Rightarrow> if mc_cli M w2 = None \<or> mc_cli M w2 = Some 0 then (w2, Inl ''Build failed: dist/cli.js missing or empty after tsc'') else (w2, Inr ())))"

section \<open>Pull and upgrade\<close>

datatype upgrade_outcome =
    uo_pinned string
  | uo_bad_hash string
  | uo_already_target
  | uo_fetch_failed string
  | uo_up_to_date
  | uo_hash_mismatch string string
  | uo_reset_failed string
  | uo_incorporated
  | uo_build_failed string
  | uo_updated string
  | uo_threw string

fun succeeded :: "upgrade_outcome \<Rightarrow> bool" where
  "succeeded uo_already_target = True"
| "succeeded uo_up_to_date = True"
| "succeeded uo_incorporated = True"
| "succeeded (uo_updated c) = True"
| "succeeded _ = False"

definition same_commit :: "string \<Rightarrow> string \<Rightarrow> bool" where
  "same_commit sha h = (startsWith sha h \<or> startsWith h (take (length h) sha))"

definition stale :: "upgrade_protocol \<Rightarrow> string \<Rightarrow> bool" where
  "stale s sha = (ug_runningCommit s \<noteq> ''unknown'' \<and> ug_runningCommit s \<noteq> sha)"

text \<open>The link of the engine package: npm install may replace it, then it is made again.\<close>

definition install_deps :: "'w machine \<Rightarrow> 'w \<Rightarrow> 'w" where
  "install_deps M w =
     (let wasLinked = mc_linked M w; w1 = fst (mc_shell M ''npm install'' w)
      in if wasLinked \<and> \<not> mc_linked M w1 then fst (mc_shell M ''npm link @pando-teams/core'' w1) else w1)"

text \<open>Steps 6 and 7: install, build, record, restart. A failed build is rolled back.\<close>

definition build_and_restart :: "'w machine \<Rightarrow> time \<Rightarrow> nat \<Rightarrow> bool \<Rightarrow> string \<Rightarrow> string \<Rightarrow> 'w \<Rightarrow> upgrade_protocol \<Rightarrow> 'w \<times> upgrade_protocol \<times> upgrade_outcome" where
  "build_and_restart M now workers pending i localSha w s =
     (case ug_build M (install_deps M w) of
        (w1, Inl e) \<Rightarrow> (fst (git_resetHard M localSha w1), s, uo_build_failed e)
      | (w1, Inr _) \<Rightarrow>
        (case recordUpgrade M now i ok_success None w1 (s\<lparr>ug_appliedProposalIds := sadd i (ug_appliedProposalIds s)\<rparr>) of (w2, s1) \<Rightarrow>
          (case getCurrentCommit M False w2 of
             (w3, Inl e) \<Rightarrow> (w3, ug_saveState s1, uo_threw e)
           | (w3, Inr c) \<Rightarrow> (w3, safeRestart workers pending c (ug_saveState s1), uo_updated c))))"

text \<open>Step 5: the reset to the remote branch, which git skips when there are commits not pushed.\<close>

definition reset_to_remote ::
  "'w machine \<Rightarrow> time \<Rightarrow> nat \<Rightarrow> bool \<Rightarrow> string \<Rightarrow> string \<Rightarrow> string \<Rightarrow> 'w \<Rightarrow> upgrade_protocol \<Rightarrow> 'w \<times> upgrade_protocol \<times> upgrade_outcome" where
  "reset_to_remote M now workers pending stash i localSha w s =
     (case stashAndReset M stash ''origin/master'' w of
        (w1, Inl e) \<Rightarrow> (w1, s, uo_reset_failed e)
      | (w1, Inr _) \<Rightarrow>
        (case getCurrentCommit M False w1 of
           (w2, Inl e) \<Rightarrow> (w2, s, uo_threw e)
         | (w2, Inr headAfterReset) \<Rightarrow>
           if headAfterReset = localSha \<and> localSha = ug_runningCommit s then
             (case recordUpgrade M now i ok_success None w2 (s\<lparr>ug_appliedProposalIds := sadd i (ug_appliedProposalIds s)\<rparr>) of
                (w3, s1) \<Rightarrow> (w3, ug_saveState s1, uo_incorporated))
           else build_and_restart M now workers pending i localSha w2 s))"

text \<open>Step 4: the approved commit is the remote one or an ancestor of it.\<close>

definition hash_accepted :: "'w machine \<Rightarrow> string option \<Rightarrow> string \<Rightarrow> 'w \<Rightarrow> 'w \<times> bool" where
  "hash_accepted M ch remoteSha w =
     (case ch of None \<Rightarrow> (w, True)
      | Some h \<Rightarrow> if remoteSha = h \<or> same_commit remoteSha h then (w, True)
          else (case isAncestor M h ''origin/master'' w of (w1, r) \<Rightarrow> (w1, r = Inr True)))"

text \<open>Steps 1 to 3.\<close>

definition fetch_and_compare ::
  "'w machine \<Rightarrow> time \<Rightarrow> nat \<Rightarrow> bool \<Rightarrow> string \<Rightarrow> string option \<Rightarrow> 'w \<Rightarrow> upgrade_protocol \<Rightarrow> 'w \<times> upgrade_protocol \<times> upgrade_outcome" where
  "fetch_and_compare M now workers pending stash ch w s =
     (case seq_prog (addSafeDirectory M (ug_repoDir s)) (\<lambda>_. git_fetch M ''origin'' (Some ''master'')) w of
        (w1, Inl e) \<Rightarrow> (w1, s, uo_fetch_failed e)
      | (w1, Inr _) \<Rightarrow>
        (case seq_prog (getCurrentCommit M False) (\<lambda>l. seq_prog (getRemoteCommit M ''origin'' ''master'' False) (\<lambda>r. ret (l, r))) w1 of
           (w2, Inl e) \<Rightarrow> (w2, s, uo_threw e)
         | (w2, Inr (localSha, remoteSha)) \<Rightarrow>
           if localSha = remoteSha then (w2, if stale s localSha then safeRestart workers pending localSha s else s, uo_up_to_date)
           else (case hash_accepted M ch remoteSha w2 of
               (w3, False) \<Rightarrow> (w3, s, uo_hash_mismatch (case ch of Some h \<Rightarrow> h | None \<Rightarrow> []) remoteSha)
             | (w3, True) \<Rightarrow> reset_to_remote M now workers pending stash (case ch of Some h \<Rightarrow> h | None \<Rightarrow> remoteSha) localSha w3 s)))"

text \<open>An empty commit hash counts as none.\<close>

definition pullAndUpgrade ::
  "'w machine \<Rightarrow> time \<Rightarrow> nat \<Rightarrow> bool \<Rightarrow> string \<Rightarrow> string option \<Rightarrow> 'w \<Rightarrow> upgrade_protocol \<Rightarrow> 'w \<times> upgrade_protocol \<times> upgrade_outcome" where
  "pullAndUpgrade M now workers pending stash commitHash w s =
     (let ch = (if truthy commitHash then commitHash else None) in
      if truthy (ug_pinnedVersion s) then (w, s, uo_pinned (the (ug_pinnedVersion s)))
      else case ch of
        None \<Rightarrow> fetch_and_compare M now workers pending stash None w s
      | Some h \<Rightarrow>
        if \<not> valid_hash h then (w, s, uo_bad_hash (take 20 h))
        else (case getCurrentCommit M False w of
            (w1, Inl e) \<Rightarrow> fetch_and_compare M now workers pending stash ch w1 s
          | (w1, Inr localSha) \<Rightarrow>
            if same_commit localSha h then (w1, if stale s localSha then safeRestart workers pending localSha s else s, uo_already_target)
            else fetch_and_compare M now workers pending stash ch w1 s))"

section \<open>Proposals\<close>

text \<open>What governance makes of a new proposal: an error, or the id of the proposal. Its arguments: title, text, length of the vote, payload.\<close>

type_synonym propose_fn = "string \<Rightarrow> string \<Rightarrow> time \<Rightarrow> UpgradePayload option \<Rightarrow> string + string"

fun risk_text :: "risk_level \<Rightarrow> string" where
  "risk_text risk_low = ''low''"
| "risk_text risk_medium = ''medium''"
| "risk_text risk_high = ''high''"
| "risk_text risk_critical = ''critical''"

definition newline :: string where "newline = [CHR 0x0A]"

definition proposal_text :: "string \<Rightarrow> string \<Rightarrow> RiskAssessment \<Rightarrow> time \<Rightarrow> string" where
  "proposal_text descr commit risk period =
     ''Code upgrade proposal:'' @ newline @ newline @ descr @ newline @ newline @ ''Commit: '' @ commit @ newline @ ''Risk level: '' @ risk_text (ra_riskLevel risk) @
     newline @ ''Files touched: '' @ show_nat (length (ra_filesTouched risk)) @ newline @ ''Review period: '' @ show_nat (nat (period div 3600000)) @ ''h''"

definition is_protocol_change :: "string list \<Rightarrow> bool" where
  "is_protocol_change files = list_ex (\<lambda>fp. list_ex (\<lambda>pat. endsWith fp pat \<or> str_includes fp (CHR ''/'' # pat)) PROTOCOL_FILE_PATTERNS) files"

text \<open>The proposal id, a hash of random bytes, is an argument. A proposal of files of the kernel is refused with their list.\<close>

definition createUpgradeProposal ::
  "'w machine \<Rightarrow> propose_fn \<Rightarrow> time \<Rightarrow> string \<Rightarrow> string \<Rightarrow> 'w \<Rightarrow> upgrade_protocol \<Rightarrow> 'w \<times> upgrade_protocol \<times> (string list + UpgradeProposal)" where
  "createUpgradeProposal M propose now i descr w s =
     (case getRemoteVersion M (fst (git_fetch M ''origin'' (Some ''master'') w)) of (w1, commit) \<Rightarrow>
      (case getRecentFilesTouched M w1 of (w2, files) \<Rightarrow>
        (let violations = filter isImmutableKernel files in
         if violations \<noteq> [] then (w2, s, Inl violations)
         else let risk = assessRisk files;
                  period = (if is_protocol_change files then PROTOCOL_REVIEW_MS else STANDARD_REVIEW_MS);
                  p = \<lparr>ur_proposalId = i, ur_commitHash = commit, ur_description = descr, ur_riskAssessment = risk, ur_reviewPeriodMs = period,
                       ur_proposerPeerId = ug_localPeerId s, ur_status = us_proposed, ur_createdAt = now, ur_governanceProposalId = None\<rparr>;
                  p' = (case propose (''[Upgrade] '' @ descr) (proposal_text descr commit risk period) period
                          (Some \<lparr>up_commitHash = commit, up_description = descr, up_filesTouched = Some files\<rparr>) of
                          Inl e \<Rightarrow> p | Inr g \<Rightarrow> p\<lparr>ur_governanceProposalId := Some g\<rparr>)
              in (w2, ug_saveState (s\<lparr>ug_proposals := jset i p' (ug_proposals s)\<rparr>), Inr p'))))"

definition broadcastUpgradeNotification :: "string \<Rightarrow> string \<Rightarrow> string option \<Rightarrow> upgrade_protocol \<Rightarrow> upgrade_protocol" where
  "broadcastUpgradeNotification commit descr g s =
     (if \<not> ug_hasBroadcast s then s else s\<lparr>ug_sent := ug_sent s @ [(commit, descr, g)]\<rparr>)"

record UpgradeQuorumResult =
  uq_reached :: bool
  uq_approveWeight :: nat
  uq_rejectWeight :: nat
  uq_margin :: number

text \<open>The votes of the proposal and the number of peers are arguments. A margin without rejections is infinite, reported as 999.\<close>

definition margin_met :: "nat \<Rightarrow> nat \<Rightarrow> bool" where
  "margin_met yes no = (if 0 < no then UPGRADE_APPROVE_MARGIN \<le> fdiv (of_nat yes) (of_nat no) else 0 < yes)"

definition reported_margin :: "nat \<Rightarrow> nat \<Rightarrow> number" where
  "reported_margin yes no =
     (if 0 < no then fdiv (Math_round (fmul (fdiv (of_nat yes) (of_nat no)) 100)) 100 else if 0 < yes then 999 else 0)"

definition checkUpgradeQuorum :: "(string \<Rightarrow> GovernanceVote list) \<Rightarrow> nat \<Rightarrow> string \<Rightarrow> upgrade_protocol \<Rightarrow> upgrade_protocol \<times> UpgradeQuorumResult" where
  "checkUpgradeQuorum getVotes peers i s =
     (let none = \<lparr>uq_reached = False, uq_approveWeight = 0, uq_rejectWeight = 0, uq_margin = 0\<rparr> in
      case jget (ug_proposals s) i of None \<Rightarrow> (s, none)
      | Some p \<Rightarrow> if \<not> truthy (ur_governanceProposalId p) then (s, none)
        else let votes = getVotes (the (ur_governanceProposalId p));
                 yes = length (filter (\<lambda>v. gv_choice v = approve) votes); no = length (filter (\<lambda>v. gv_choice v = reject) votes);
                 reached = (UPGRADE_QUORUM \<le> fdiv (of_nat (yes + no)) (of_nat (peers + 1)) \<and> margin_met yes no)
             in (if reached \<and> ur_status p = us_reviewing then ug_saveState (s\<lparr>ug_proposals := jset i (p\<lparr>ur_status := us_voting\<rparr>) (ug_proposals s)\<rparr>) else s,
                 \<lparr>uq_reached = reached, uq_approveWeight = yes, uq_rejectWeight = no, uq_margin = reported_margin yes no\<rparr>))"

section \<open>Pins, rollback and queries\<close>

definition pinVersion :: "string \<Rightarrow> upgrade_protocol \<Rightarrow> upgrade_protocol" where
  "pinVersion v s = ug_saveState (s\<lparr>ug_pinnedVersion := Some v\<rparr>)"

definition unpinVersion :: "upgrade_protocol \<Rightarrow> upgrade_protocol" where
  "unpinVersion s = ug_saveState (s\<lparr>ug_pinnedVersion := None\<rparr>)"

definition isPinned :: "upgrade_protocol \<Rightarrow> bool" where
  "isPinned s = (ug_pinnedVersion s \<noteq> None)"

definition proposeEmergencyRollback :: "propose_fn \<Rightarrow> string \<Rightarrow> string + string" where
  "proposeEmergencyRollback propose reason =
     propose (''[EMERGENCY ROLLBACK] '' @ reason)
       (''Emergency rollback requested.'' @ newline @ newline @ ''Reason: '' @ reason @ newline @ newline @ ''This proposal has a 1-hour fast-track vote period.'')
       EMERGENCY_VOTE_MS None"

text \<open>Rollback: \<open>Inr\<close> says how it succeeded.\<close>

datatype rollback_way = rw_backup | rw_git
datatype rollback_error = rx_bad_version string | rx_rebuild_failed string | rx_failed string

definition rollback_by_git :: "'w machine \<Rightarrow> string option \<Rightarrow> 'w \<Rightarrow> 'w \<times> (rollback_error + rollback_way)" where
  "rollback_by_git M target w =
     (case seq_prog (git_checkoutFiles M (if truthy target then the target else ''HEAD'') [''packages/'']) (\<lambda>_. ug_build M) w of
        (w1, Inl e) \<Rightarrow> (w1, Inl (rx_failed e)) | (w1, Inr _) \<Rightarrow> (w1, Inr rw_git))"

text \<open>The deploy manager, if there is one: whether a backup exists, and restoring it.\<close>

definition executeRollback :: "'w machine \<Rightarrow> (bool \<times> ('w \<Rightarrow> 'w \<times> bool)) option \<Rightarrow> string option \<Rightarrow> 'w \<Rightarrow> 'w \<times> (rollback_error + rollback_way)" where
  "executeRollback M deploy target w =
     (if truthy target \<and> \<not> valid_hash (the target) then (w, Inl (rx_bad_version (take 20 (the target))))
      else case deploy of
        Some (True, restore) \<Rightarrow>
          (case restore w of
             (w1, True) \<Rightarrow> (case ug_build M w1 of (w2, Inr _) \<Rightarrow> (w2, Inr rw_backup) | (w2, Inl e) \<Rightarrow> (w2, Inl (rx_rebuild_failed e)))
           | (w1, False) \<Rightarrow> rollback_by_git M target w1)
      | _ \<Rightarrow> rollback_by_git M target w)"

record UpgradeStatus =
  ut_currentVersion :: string
  ut_pinnedVersion :: "string option"
  ut_activeUpgrade :: "UpgradeProposal option"
  ut_lastUpgrade :: "UpgradeRecord option"

definition getUpgradeStatus :: "'w machine \<Rightarrow> 'w \<Rightarrow> upgrade_protocol \<Rightarrow> 'w \<times> UpgradeStatus" where
  "getUpgradeStatus M w s =
     (case getCurrentVersion M w of (w1, v) \<Rightarrow> (w1, \<lparr>ut_currentVersion = v,
        ut_pinnedVersion = (if truthy (ug_pinnedVersion s) then ug_pinnedVersion s else None),
        ut_activeUpgrade = find (\<lambda>p. ur_status p \<notin> set [us_deployed, us_rejected, us_rolled_back]) (jvals (ug_proposals s)),
        ut_lastUpgrade = (case ug_history s of [] \<Rightarrow> None | h # _ \<Rightarrow> Some h)\<rparr>))"

definition getUpgradeHistory :: "upgrade_protocol \<Rightarrow> UpgradeRecord list" where
  "getUpgradeHistory s = ug_history s"

definition getUpgradeProposal :: "upgrade_protocol \<Rightarrow> string \<Rightarrow> UpgradeProposal option" where
  "getUpgradeProposal s i = jget (ug_proposals s) i"

definition getUpgradeProposals :: "upgrade_protocol \<Rightarrow> UpgradeProposal list" where
  "getUpgradeProposals s = sort_key (\<lambda>p. - ur_createdAt p) (jvals (ug_proposals s))"

section \<open>Catch-up\<close>

text \<open>A restart that was asked for blocks further upgrades, as does one in progress (\<open>busy\<close>).\<close>

definition upgrade_blocked :: "bool \<Rightarrow> upgrade_protocol \<Rightarrow> bool" where
  "upgrade_blocked busy s = (busy \<or> ug_restarts s \<noteq> [])"

text \<open>A commit that is already checked out: rebuild and restart if the process is older, then count it as applied. An error of git ends the pass.\<close>

definition catch_up_present :: "'w machine \<Rightarrow> nat \<Rightarrow> bool \<Rightarrow> string \<Rightarrow> 'w \<Rightarrow> upgrade_protocol \<Rightarrow> 'w \<times> upgrade_protocol \<times> bool" where
  "catch_up_present M workers pending h w s =
     (let done = (\<lambda>w s. (w, ug_saveState (s\<lparr>ug_appliedProposalIds := sadd h (ug_appliedProposalIds s)\<rparr>), True)) in
      if ug_runningCommit s = ''unknown'' then done w s
      else case getCurrentCommit M False w of
        (w1, Inl e) \<Rightarrow> (w1, s, False)
      | (w1, Inr c) \<Rightarrow>
        if ug_runningCommit s = c then done w1 s
        else (case seq_prog (ug_build M) (\<lambda>_. getCurrentCommit M False) w1 of
            (w2, Inl e) \<Rightarrow> done w2 s
          | (w2, Inr c') \<Rightarrow> done w2 (safeRestart workers pending c' s)))"

definition wanted_commit :: "upgrade_protocol \<Rightarrow> GovernanceProposal \<Rightarrow> string option" where
  "wanted_commit s p =
     (if gp_status p \<noteq> st_passed \<or> gp_category p \<noteq> Some upgrade then None
      else case gp_upgradePayload p of None \<Rightarrow> None
      | Some u \<Rightarrow> if \<not> valid_hash (up_commitHash u) \<or> hasApplied s (up_commitHash u) then None else Some (up_commitHash u))"

fun missed_upgrades ::
  "'w machine \<Rightarrow> time \<Rightarrow> nat \<Rightarrow> bool \<Rightarrow> string \<Rightarrow> bool \<Rightarrow> string \<Rightarrow> GovernanceProposal list \<Rightarrow> 'w \<Rightarrow> upgrade_protocol \<Rightarrow> 'w \<times> upgrade_protocol" where
  "missed_upgrades M now workers pending stash busy version [] w s = (w, s)"
| "missed_upgrades M now workers pending stash busy version (p # ps) w s =
     (case wanted_commit s p of
        None \<Rightarrow> missed_upgrades M now workers pending stash busy version ps w s
      | Some h \<Rightarrow>
        (case (if same_commit version h then (w, True) else (case isAncestor M h ''HEAD'' w of (w1, r) \<Rightarrow> (w1, r = Inr True))) of
           (w1, True) \<Rightarrow>
             (case catch_up_present M workers pending h w1 s of
                (w2, s2, True) \<Rightarrow> missed_upgrades M now workers pending stash busy version ps w2 s2
              | (w2, s2, False) \<Rightarrow> (w2, s2))
         | (w1, False) \<Rightarrow>
             if truthy (ug_pinnedVersion s) \<or> upgrade_blocked busy s then missed_upgrades M now workers pending stash busy version ps w1 s
             else (case pullAndUpgrade M now workers pending stash (Some h) w1 s of
                (w2, s2, out) \<Rightarrow>
                  if succeeded out then
                    (w2, broadcastUpgradeNotification h (case gp_upgradePayload p of Some u \<Rightarrow> if up_description u \<noteq> [] then up_description u else gp_title p | None \<Rightarrow> gp_title p) (Some (gp_id p)) s2)
                  else (case out of uo_threw e \<Rightarrow> (w2, s2) | _ \<Rightarrow> missed_upgrades M now workers pending stash busy version ps w2 s2))))"

definition checkForMissedUpgrades ::
  "'w machine \<Rightarrow> time \<Rightarrow> nat \<Rightarrow> bool \<Rightarrow> string \<Rightarrow> bool \<Rightarrow> GovernanceProposal list \<Rightarrow> 'w \<Rightarrow> upgrade_protocol \<Rightarrow> 'w \<times> upgrade_protocol" where
  "checkForMissedUpgrades M now workers pending stash busy proposals w s =
     (case getCurrentVersion M w of (w1, v) \<Rightarrow> missed_upgrades M now workers pending stash busy v proposals w1 s)"

section \<open>Handlers\<close>

record upgrade_message =
  um_commitHash :: string
  um_governanceId :: "string option"
  um_fromPeerId :: peer_id

definition hash_compatible :: "string \<Rightarrow> string \<Rightarrow> bool" where
  "hash_compatible commitHash expected =
     (expected = [] \<or> startsWith commitHash (take (length commitHash) expected) \<or> startsWith expected (take (length expected) commitHash))"

text \<open>The check against governance, if the node has it: the proposal named must have passed, and its commit, if it has one, must agree.\<close>

definition notification_allowed :: "(string \<Rightarrow> GovernanceProposal option) option \<Rightarrow> upgrade_message \<Rightarrow> bool" where
  "notification_allowed gov m =
     (case gov of None \<Rightarrow> True
      | Some look \<Rightarrow> truthy (um_governanceId m) \<and>
          (case look (the (um_governanceId m)) of None \<Rightarrow> False
           | Some p \<Rightarrow> gp_status p = st_passed \<and>
               (case gp_upgradePayload p of None \<Rightarrow> True | Some u \<Rightarrow> hash_compatible (um_commitHash m) (up_commitHash u))))"

definition handle_upgrade_direct ::
  "'w machine \<Rightarrow> time \<Rightarrow> nat \<Rightarrow> bool \<Rightarrow> string \<Rightarrow> bool \<Rightarrow> (string \<Rightarrow> GovernanceProposal option) option \<Rightarrow> upgrade_message \<Rightarrow> 'w \<Rightarrow> upgrade_protocol \<Rightarrow> 'w \<times> upgrade_protocol" where
  "handle_upgrade_direct M now workers pending stash busy gov m w s =
     (if \<not> valid_hash (um_commitHash m) \<or> hasApplied s (um_commitHash m) \<or> upgrade_blocked busy s \<or> \<not> notification_allowed gov m then (w, s)
      else case pullAndUpgrade M now workers pending stash (Some (um_commitHash m)) w s of (w1, s1, out) \<Rightarrow> (w1, s1))"

definition handle_upgrade_available ::
  "'w machine \<Rightarrow> time \<Rightarrow> nat \<Rightarrow> bool \<Rightarrow> string \<Rightarrow> bool \<Rightarrow> (string \<Rightarrow> GovernanceProposal option) option \<Rightarrow> upgrade_message \<Rightarrow> 'w \<Rightarrow> upgrade_protocol \<Rightarrow> 'w \<times> upgrade_protocol" where
  "handle_upgrade_available M now workers pending stash busy gov m w s =
     (if um_fromPeerId m = ug_localPeerId s then (w, s) else handle_upgrade_direct M now workers pending stash busy gov m w s)"

text \<open>An approved proposal: the proposer pushes the commit, all peers are told, then the node upgrades itself. This handler does not look whether an
  upgrade is in progress.\<close>

definition push_if_proposer :: "'w machine \<Rightarrow> string \<Rightarrow> 'w \<Rightarrow> 'w" where
  "push_if_proposer M h w =
     (case getCurrentCommit M False w of (w1, Inl e) \<Rightarrow> w1
      | (w1, Inr c) \<Rightarrow> if c = h \<or> same_commit c h then fst (git_push M ''origin'' ''master'' w1) else w1)"

definition handle_upgrade_approved ::
  "'w machine \<Rightarrow> time \<Rightarrow> nat \<Rightarrow> bool \<Rightarrow> string \<Rightarrow> GovernanceProposal \<Rightarrow> 'w \<Rightarrow> upgrade_protocol \<Rightarrow> 'w \<times> upgrade_protocol" where
  "handle_upgrade_approved M now workers pending stash p w s =
     (case gp_upgradePayload p of None \<Rightarrow> (w, s)
      | Some u \<Rightarrow> if \<not> valid_hash (up_commitHash u) then (w, s)
        else (let descr = (if up_description u \<noteq> [] then up_description u else gp_title p);
                  w1 = push_if_proposer M (up_commitHash u) w;
                  s1 = broadcastUpgradeNotification (up_commitHash u) descr (Some (gp_id p)) s
              in case pullAndUpgrade M now workers pending stash (Some (up_commitHash u)) w1 s1 of (w2, s2, out) \<Rightarrow> (w2, s2)))"

section \<open>What git does\<close>

text \<open>The documented behaviour of git that the upgrade relies on, with \<open>head\<close> and \<open>remote\<close> the full hashes of HEAD and of the fetched remote branch: they are
  printed by rev-parse; the commands of \<open>quiet_commands\<close> and the shell commands do not move HEAD; a hard reset that succeeds moves it to its
  target; and the commit that was checked out can be returned to.\<close>

definition quiet_commands :: "string list" where
  "quiet_commands = [''rev-parse'', ''fetch'', ''config'', ''status'', ''stash'', ''rev-list'', ''merge-base'']"

definition git_laws :: "'w machine \<Rightarrow> ('w \<Rightarrow> string) \<Rightarrow> ('w \<Rightarrow> string) \<Rightarrow> bool" where
  "git_laws M head remote =
     ((\<forall>w. valid_hash (head w)) \<and>
      (\<forall>w out. snd (mc_git M [''rev-parse'', ''HEAD''] w) = Inr out \<longrightarrow> str_trim out = head w) \<and>
      (\<forall>w out. snd (mc_git M [''rev-parse'', ''origin/master''] w) = Inr out \<longrightarrow> str_trim out = remote w) \<and>
      (\<forall>a as w. a \<in> set quiet_commands \<longrightarrow> head (fst (mc_git M (a # as) w)) = head w) \<and>
      (\<forall>a as w. a \<in> set quiet_commands \<and> a \<noteq> ''fetch'' \<longrightarrow> remote (fst (mc_git M (a # as) w)) = remote w) \<and>
      (\<forall>t w. remote (fst (mc_git M [''reset'', ''--hard'', t] w)) = remote w) \<and>
      (\<forall>w. head (fst (mc_git M [''reset'', ''--hard'', ''origin/master''] w)) =
         (case snd (mc_git M [''reset'', ''--hard'', ''origin/master''] w) of Inl e \<Rightarrow> head w | Inr out \<Rightarrow> remote w)) \<and>
      (\<forall>w w0. head (fst (mc_git M [''reset'', ''--hard'', head w0] w)) = head w0) \<and>
      (\<forall>c w. head (fst (mc_shell M c w)) = head w \<and> remote (fst (mc_shell M c w)) = remote w))"

text \<open>A computation that leaves a view of the machine as it is, whatever its result.\<close>

definition leaves :: "('w \<Rightarrow> 'v) \<Rightarrow> ('w, 'a) prog \<Rightarrow> bool" where
  "leaves f p = (\<forall>w. f (fst (p w)) = f w)"

named_theorems leaves_intros \<open>computations that leave a view of the machine\<close>

lemma leavesD: "leaves f p \<Longrightarrow> p w = (w', r) \<Longrightarrow> f w' = f w"
  unfolding leaves_def by (metis fst_conv)

lemma leaves_basic [leaves_intros]: "leaves f (ret x)" "leaves f (throw e)"
  by (simp_all add: leaves_def ret_def throw_def)

lemma leaves_seq [leaves_intros]: "leaves f p \<Longrightarrow> (\<And>x. leaves f (g x)) \<Longrightarrow> leaves f (seq_prog p g)"
  by (simp add: leaves_def seq_prog_def split: prod.splits sum.splits) (metis fst_conv)

lemma leaves_catch [leaves_intros]: "leaves f p \<Longrightarrow> leaves f h \<Longrightarrow> leaves f (catch p h)"
  by (simp add: leaves_def catch_def split: prod.splits sum.splits) (metis fst_conv)

lemma leaves_attempt [leaves_intros]: "leaves f p \<Longrightarrow> leaves f (attempt p)"
  by (simp add: leaves_def attempt_def)

lemma leaves_if [leaves_intros]: "leaves f p \<Longrightarrow> leaves f q \<Longrightarrow> leaves f (if b then p else q)"
  by simp

lemma leaves_refs [leaves_intros]: "leaves f (safeGitRef r)" "leaves f (safeCommitHash r)" "leaves f (checked_refs rs)"
proof -
  show r: "leaves f (safeGitRef r)" for r :: string by (simp add: safeGitRef_def leaves_intros)
  show "leaves f (safeCommitHash r)" by (simp add: safeCommitHash_def leaves_intros)
  show "leaves f (checked_refs rs)" by (induction rs rule: checked_refs.induct) (auto intro!: leaves_intros r)
qed

lemma leaves_exec:
  assumes "leaves f (mc_git M args)"
  shows "leaves f (git_exec M args)" "leaves f (git_do M args)"
  using assms by (auto simp: git_exec_def git_do_def intro!: leaves_intros)

lemma lawsD:
  assumes "git_laws M head remote"
  shows "valid_hash (head w)"
    and "snd (mc_git M [''rev-parse'', ''HEAD''] w) = Inr out \<Longrightarrow> str_trim out = head w"
    and "snd (mc_git M [''rev-parse'', ''origin/master''] w) = Inr out \<Longrightarrow> str_trim out = remote w"
    and "remote (fst (mc_git M [''reset'', ''--hard'', t] w)) = remote w"
    and "head (fst (mc_git M [''reset'', ''--hard'', ''origin/master''] w)) = (case snd (mc_git M [''reset'', ''--hard'', ''origin/master''] w) of Inl e \<Rightarrow> head w | Inr out \<Rightarrow> remote w)"
    and "head (fst (mc_git M [''reset'', ''--hard'', head w0] w)) = head w0"
    and "head (fst (mc_shell M c w)) = head w" "remote (fst (mc_shell M c w)) = remote w"
  using assms unfolding git_laws_def by blast+

lemma exec_result:
  "fst (git_exec M args w) = fst (mc_git M args w)" "snd (git_exec M args w) = map_sum id str_trim (snd (mc_git M args w))"
  "fst (git_do M args w) = fst (mc_git M args w)" "snd (git_do M args w) = map_sum id (\<lambda>_. ()) (snd (mc_git M args w))"
  by (simp_all add: git_do_def git_exec_def seq_prog_def ret_def split: prod.splits sum.splits)

lemma quiet_leaves:
  assumes "git_laws M head remote" and "a \<in> set quiet_commands"
  shows "leaves head (mc_git M (a # as))" "a \<noteq> ''fetch'' \<Longrightarrow> leaves remote (mc_git M (a # as))"
  using assms unfolding git_laws_def leaves_def by blast+

lemma quiet_exec:
  assumes "git_laws M head remote" and "a \<in> set quiet_commands"
  shows "leaves head (git_exec M (a # as))" "a \<noteq> ''fetch'' \<Longrightarrow> leaves remote (git_exec M (a # as))"
    "leaves head (git_do M (a # as))"
  using quiet_leaves [OF assms] by (simp_all add: leaves_exec)

lemma queries_leave:
  assumes "git_laws M head remote"
  shows "leaves head (getCurrentCommit M b)" "leaves remote (getCurrentCommit M b)"
    "leaves head (getRemoteCommit M o' br b)" "leaves remote (getRemoteCommit M o' br b)"
    "leaves head (isAncestor M h d)" "leaves remote (isAncestor M h d)"
    "leaves head (revListCount M a c)" "leaves remote (revListCount M a c)"
    "leaves head (addSafeDirectory M dir)" "leaves remote (addSafeDirectory M dir)"
    "leaves head (git_fetch M o' bb)"
    "leaves head (stash_changes M nm)" "leaves remote (stash_changes M nm)"
  unfolding getCurrentCommit_def getRemoteCommit_def isAncestor_def revListCount_def addSafeDirectory_def git_fetch_def stash_changes_def hasUncommittedChanges_def
  by (intro leaves_intros quiet_exec [OF assms] quiet_leaves [OF assms]; simp add: quiet_commands_def)+

lemma commit_value:
  assumes "git_laws M head remote" and "getCurrentCommit M False w = (w1, r)"
  shows "head w1 = head w" "remote w1 = remote w" "r = Inr c \<Longrightarrow> c = head w"
proof -
  show "head w1 = head w" "remote w1 = remote w" using leavesD [OF queries_leave(1) [OF assms(1)] assms(2)] leavesD [OF queries_leave(2) [OF assms(1)] assms(2)] by auto
  assume "r = Inr c"
  then have "map_sum id str_trim (snd (mc_git M [''rev-parse'', ''HEAD''] w)) = Inr c" using assms(2) exec_result(2) [of M "[''rev-parse'', ''HEAD'']" w] by (simp add: getCurrentCommit_def)
  then show "c = head w" using lawsD(2) [OF assms(1), of w] by (cases "snd (mc_git M [''rev-parse'', ''HEAD''] w)") auto
qed

lemma remote_value:
  fixes M :: "'w machine"
  assumes "git_laws M head remote" and "getRemoteCommit M ''origin'' ''master'' False w = (w1, r)"
  shows "head w1 = head w" "remote w1 = remote w" "r = Inr c \<Longrightarrow> c = remote w"
proof -
  show "head w1 = head w" "remote w1 = remote w" using leavesD [OF queries_leave(3) [OF assms(1)] assms(2)] leavesD [OF queries_leave(4) [OF assms(1)] assms(2)] by auto
  assume r: "r = Inr c"
  have "safeGitRef ''master'' = (ret ''master'' :: ('w, string) prog)" by (simp add: safeGitRef_def ref_char_def js_lower_def is_alnum_def Let_def)
  then have "getRemoteCommit M ''origin'' ''master'' False w = git_exec M [''rev-parse'', ''origin/master''] w" by (simp add: getRemoteCommit_def seq_prog_def ret_def)
  then have "map_sum id str_trim (snd (mc_git M [''rev-parse'', ''origin/master''] w)) = Inr c" using r assms(2) exec_result(2) [of M "[''rev-parse'', ''origin/master'']" w] by (metis snd_conv)
  then show "c = remote w" using lawsD(3) [OF assms(1), of w] by (cases "snd (mc_git M [''rev-parse'', ''origin/master''] w)") auto
qed

lemma version_leaves:
  assumes "git_laws M head remote"
  shows "head (fst (getCurrentVersion M w)) = head w" "remote (fst (getCurrentVersion M w)) = remote w"
proof -
  have "fst (getCurrentVersion M w) = fst (getCurrentCommit M True w)" by (simp add: getCurrentVersion_def split: prod.splits sum.splits)
  then show "head (fst (getCurrentVersion M w)) = head w" "remote (fst (getCurrentVersion M w)) = remote w"
    using queries_leave(1,2) [OF assms, of True] by (simp_all add: leaves_def)
qed

lemma record_leaves:
  assumes "git_laws M head remote" and "recordUpgrade M now i st reason w s = (w1, s1)"
  shows "head w1 = head w" "remote w1 = remote w" "ug_restarts s1 = ug_restarts s" "ug_appliedProposalIds s1 = ug_appliedProposalIds s" "ug_runningCommit s1 = ug_runningCommit s"
  using version_leaves [OF assms(1), of w] assms(2) by (auto simp: recordUpgrade_def ug_saveState_def split: prod.splits)

lemma build_leaves:
  assumes "git_laws M head remote"
  shows "head (fst (ug_build M w)) = head w" "remote (fst (ug_build M w)) = remote w" "head (install_deps M w) = head w" "remote (install_deps M w) = remote w"
proof -
  have sh: "f (fst (mc_shell M c w)) = f w" if "f = head \<or> f = remote" for f c w using that lawsD(7,8) [OF assms] by auto
  have b: "f (fst (ug_build M w)) = f w" if f: "f = head \<or> f = remote" for f
  proof (cases "mc_shell M ''npm run build'' w")
    case (Pair w1 r)
    then have "f w1 = f w" using sh [OF f, of "''npm run build''" w] by simp
    then show ?thesis using Pair sh [OF f, of "''npx tsc -p packages/node/tsconfig.json''" w1]
      by (cases "mc_shell M ''npx tsc -p packages/node/tsconfig.json'' w1"; cases r) (auto simp: ug_build_def split: sum.splits)
  qed
  show "head (fst (ug_build M w)) = head w" "remote (fst (ug_build M w)) = remote w" using b by auto
  show "head (install_deps M w) = head w" "remote (install_deps M w) = remote w" by (simp_all add: install_deps_def sh Let_def)
qed

lemma reset_leaves:
  assumes "git_laws M head remote" and "stashAndReset M nm ''origin/master'' w = (w1, r)"
  shows "remote w1 = remote w" "case r of Inl e \<Rightarrow> head w1 = head w | Inr _ \<Rightarrow> head w1 = head w \<or> head w1 = remote w"
proof -
  have ref: "git_resetHard M ''origin/master'' = git_do M [''reset'', ''--hard'', ''origin/master'']"
    by (simp add: git_resetHard_def safeGitRef_def ref_char_def js_lower_def is_alnum_def Let_def seq_prog_def ret_def fun_eq_iff)
  have reset: "remote (fst (git_resetHard M ''origin/master'' v)) = remote v"
    "head (fst (git_resetHard M ''origin/master'' v)) = (case snd (git_resetHard M ''origin/master'' v) of Inl e \<Rightarrow> head v | Inr _ \<Rightarrow> remote v)" for v
    using lawsD(4,5) [OF assms(1)] by (simp_all add: ref exec_result) (auto split: sum.splits)
  obtain n w2 where c: "catch (revListCount M ''origin/master'' ''HEAD'') (ret 0) w = (w2, Inr n)"
    by (cases "revListCount M ''origin/master'' ''HEAD'' w"; cases "snd (revListCount M ''origin/master'' ''HEAD'' w)") (auto simp: catch_def ret_def)
  have l: "leaves head (catch (revListCount M ''origin/master'' ''HEAD'') (ret 0))" "leaves remote (catch (revListCount M ''origin/master'' ''HEAD'') (ret 0))"
    by (rule leaves_catch; rule queries_leave(7) [OF assms(1)] queries_leave(8) [OF assms(1)] leaves_basic)+
  obtain w3 q where st: "stash_changes M nm w2 = (w3, q)" by (cases "stash_changes M nm w2")
  note h = leavesD [OF l(1) c] leavesD [OF l(2) c] leavesD [OF queries_leave(12) [OF assms(1)] st] leavesD [OF queries_leave(13) [OF assms(1)] st]
  have w1: "stashAndReset M nm ''origin/master'' w = (if 0 < n then (w2, Inr ()) else case q of Inl e \<Rightarrow> (w3, Inl e) | Inr _ \<Rightarrow> git_resetHard M ''origin/master'' w3)"
    using c st by (auto simp: stashAndReset_def seq_prog_def ret_def split: sum.splits)
  obtain w4 q4 where g: "git_resetHard M ''origin/master'' w3 = (w4, q4)" by (cases "git_resetHard M ''origin/master'' w3")
  show "remote w1 = remote w" "case r of Inl e \<Rightarrow> head w1 = head w | Inr _ \<Rightarrow> head w1 = head w \<or> head w1 = remote w"
    using assms(2) w1 h reset [of w3] g by (auto split: if_splits sum.splits)
qed

lemma return_to:
  fixes M :: "'w machine"
  assumes "git_laws M head remote"
  shows "head (fst (git_resetHard M (head w0) w)) = head w0"
proof -
  have v: "valid_hash (head w0)" using assms by (simp add: git_laws_def)
  have "list_all ref_char ''0123456789abcdefABCDEF''" by (simp add: ref_char_def js_lower_def is_alnum_def Let_def)
  then have "hex_char c \<Longrightarrow> ref_char c" for c unfolding hex_char_def list_all_iff by blast
  then have "list_all ref_char (head w0)" using v by (auto simp: valid_hash_def list_all_iff)
  moreover have "head w0 \<noteq> []" "length (head w0) \<le> 100" using v by (auto simp: valid_hash_def)
  ultimately have "safeGitRef (head w0) = (ret (head w0) :: ('w, string) prog)" by (simp add: safeGitRef_def)
  then have "git_resetHard M (head w0) = git_do M [''reset'', ''--hard'', head w0]" by (simp add: git_resetHard_def seq_prog_def ret_def fun_eq_iff)
  then show ?thesis by (simp add: exec_result lawsD(6) [OF assms])
qed

section \<open>All or nothing\<close>

text \<open>What a stage of an upgrade that began at commit \<open>h0\<close> guarantees.\<close>

definition stage_ok ::
  "('w \<Rightarrow> string) \<Rightarrow> ('w \<Rightarrow> string) \<Rightarrow> nat \<Rightarrow> bool \<Rightarrow> string \<Rightarrow> upgrade_protocol \<Rightarrow> 'w \<times> upgrade_protocol \<times> upgrade_outcome \<Rightarrow> bool" where
  "stage_ok head remote workers pending h0 s = (\<lambda>(w', s', out).
     (\<not> succeeded out \<and> (\<forall>e. out \<noteq> uo_threw e) \<longrightarrow> head w' = h0 \<and> s' = s) \<and>
     (head w' = h0 \<or> head w' = remote w') \<and>
     (ug_restarts s' = ug_restarts s \<or> workers = 0 \<and> \<not> pending \<and> ug_restarts s' = ug_restarts s @ [head w'] \<and> head w' \<noteq> ug_runningCommit s))"

lemma restart_cases:
  "ug_restarts (safeRestart workers pending c s) = ug_restarts s \<or>
   workers = 0 \<and> \<not> pending \<and> ug_restarts (safeRestart workers pending c s) = ug_restarts s @ [c] \<and> c \<noteq> ug_runningCommit s"
  by (simp add: safeRestart_def)

lemma save_sels [simp]:
  "ug_restarts (ug_saveState s) = ug_restarts s" "ug_runningCommit (ug_saveState s) = ug_runningCommit s"
  "ug_appliedProposalIds (ug_saveState s) = ug_appliedProposalIds s"
  by (simp_all add: ug_saveState_def)

lemma build_stage:
  assumes L: "git_laws M head remote" and at: "head w = head w0 \<or> head w = remote w"
  shows "stage_ok head remote workers pending (head w0) s (build_and_restart M now workers pending i (head w0) w s) \<and>
    remote (fst (build_and_restart M now workers pending i (head w0) w s)) = remote w"
proof -
  obtain w1 r1 where b: "ug_build M (install_deps M w) = (w1, r1)" by (cases "ug_build M (install_deps M w)")
  have w1: "head w1 = head w" "remote w1 = remote w" using build_leaves [OF L] b by (metis fst_conv)+
  show ?thesis
  proof (cases r1)
    case (Inl e)
    have "remote (fst (git_resetHard M (head w0) w1)) = remote w1"
    proof (cases "snd (safeGitRef (head w0) w1)")
      case (Inl x)
      then show ?thesis by (auto simp: git_resetHard_def seq_prog_def safeGitRef_def ret_def throw_def split: if_splits)
    next
      case (Inr x)
      then show ?thesis using lawsD(4) [OF L] by (auto simp: git_resetHard_def seq_prog_def safeGitRef_def ret_def throw_def exec_result split: if_splits)
    qed
    then show ?thesis using b Inl w1 return_to [OF L, of w0 w1] by (simp add: build_and_restart_def stage_ok_def)
  next
    case (Inr u)
    let ?s = "s\<lparr>ug_appliedProposalIds := sadd i (ug_appliedProposalIds s)\<rparr>"
    obtain w2 s1 where rec: "recordUpgrade M now i ok_success None w1 ?s = (w2, s1)" by (cases "recordUpgrade M now i ok_success None w1 ?s")
    note f = record_leaves [OF L rec]
    obtain w3 r3 where c: "getCurrentCommit M False w2 = (w3, r3)" by (cases "getCurrentCommit M False w2")
    note v = commit_value [OF L c]
    show ?thesis
    proof (cases r3)
      case (Inl e)
      then show ?thesis using b Inr rec c f v w1 at by (auto simp: build_and_restart_def stage_ok_def)
    next
      case r3: (Inr c')
      have res: "build_and_restart M now workers pending i (head w0) w s = (w3, safeRestart workers pending c' (ug_saveState s1), uo_updated c')"
        using b Inr rec c r3 by (simp add: build_and_restart_def)
      have "c' = head w3" using v(1) v(3) [OF r3] by simp
      then show ?thesis unfolding res using restart_cases [of workers pending c' "ug_saveState s1"] f v w1 at by (auto simp: stage_ok_def)
    qed
  qed
qed

lemma reset_stage:
  assumes L: "git_laws M head remote"
  shows "stage_ok head remote workers pending (head w) s (reset_to_remote M now workers pending stash i (head w) w s) \<and>
    remote (fst (reset_to_remote M now workers pending stash i (head w) w s)) = remote w"
proof -
  obtain w1 r1 where b: "stashAndReset M stash ''origin/master'' w = (w1, r1)" by (cases "stashAndReset M stash ''origin/master'' w")
  note w1 = reset_leaves [OF L b]
  show ?thesis
  proof (cases r1)
    case (Inl e)
    then show ?thesis using b w1 by (simp add: reset_to_remote_def stage_ok_def)
  next
    case (Inr u)
    obtain w2 r2 where c: "getCurrentCommit M False w1 = (w2, r2)" by (cases "getCurrentCommit M False w1")
    note v = commit_value [OF L c]
    show ?thesis
    proof (cases r2)
      case (Inl e)
      then show ?thesis using b Inr c v w1 by (auto simp: reset_to_remote_def stage_ok_def)
    next
      case r2: (Inr h)
      let ?s = "s\<lparr>ug_appliedProposalIds := sadd i (ug_appliedProposalIds s)\<rparr>"
      obtain w3 s3 where rec: "recordUpgrade M now i ok_success None w2 ?s = (w3, s3)" by (cases "recordUpgrade M now i ok_success None w2 ?s")
      show ?thesis
      proof (cases "h = head w \<and> head w = ug_runningCommit s")
        case True
        then have res: "reset_to_remote M now workers pending stash i (head w) w s = (w3, ug_saveState s3, uo_incorporated)"
          using b Inr c r2 rec by (simp add: reset_to_remote_def)
        have "head w3 = head w \<or> head w3 = remote w3" "remote w3 = remote w" "ug_restarts s3 = ug_restarts s"
          using record_leaves(1-3) [OF L rec] v(1,2) w1 Inr by simp_all
        then show ?thesis unfolding res stage_ok_def by simp
      next
        case False
        then have "reset_to_remote M now workers pending stash i (head w) w s = build_and_restart M now workers pending i (head w) w2 s"
          using b Inr c r2 by (auto simp: reset_to_remote_def)
        moreover have "head w2 = head w \<or> head w2 = remote w2" using w1 v Inr by auto
        ultimately show ?thesis using build_stage [OF L, of w2 w] v w1 by auto
      qed
    qed
  qed
qed

lemma stale_restart:
  "ug_restarts (if b then safeRestart workers pending c s else s) = ug_restarts s \<or>
   workers = 0 \<and> \<not> pending \<and> ug_restarts (if b then safeRestart workers pending c s else s) = ug_restarts s @ [c] \<and> c \<noteq> ug_runningCommit s"
  using restart_cases [of workers pending c s] by simp

definition approved_by :: "'w machine \<Rightarrow> ('w \<Rightarrow> string) \<Rightarrow> string \<Rightarrow> 'w \<Rightarrow> bool" where
  "approved_by M remote h w = (same_commit (remote w) h \<or> (\<exists>v. remote v = remote w \<and> snd (isAncestor M h ''origin/master'' v) = Inr True))"

lemma accepted_hash:
  assumes L: "git_laws M head remote" and "hash_accepted M ch (remote w) w = (w1, b)"
  shows "head w1 = head w" "remote w1 = remote w" "b \<Longrightarrow> ch = Some h \<Longrightarrow> approved_by M remote h w"
proof -
  have "head w1 = head w \<and> remote w1 = remote w \<and> (b \<longrightarrow> ch = Some h \<longrightarrow> approved_by M remote h w)" for h
  proof (cases ch)
    case (Some k)
    have l: "head (fst (isAncestor M k ''origin/master'' w)) = head w" "remote (fst (isAncestor M k ''origin/master'' w)) = remote w"
      using queries_leave(5,6) [OF L] by (simp_all add: leaves_def)
    have "same_commit c c" for c by (simp add: same_commit_def startsWith_def)
    then show ?thesis using assms(2) Some l
      by (cases "isAncestor M k ''origin/master'' w") (auto simp: hash_accepted_def approved_by_def split: if_splits)
  qed (use assms(2) in \<open>simp add: hash_accepted_def\<close>)
  then show "head w1 = head w" "remote w1 = remote w" "b \<Longrightarrow> ch = Some h \<Longrightarrow> approved_by M remote h w" by auto
qed

lemma fetch_stage:
  assumes L: "git_laws M head remote" and res: "fetch_and_compare M now workers pending stash ch w s = (w', s', out)"
  shows "stage_ok head remote workers pending (head w) s (w', s', out)" "head w' \<noteq> head w \<Longrightarrow> ch = Some h \<Longrightarrow> approved_by M remote h w'"
proof -
  obtain w1 r1 where f: "seq_prog (addSafeDirectory M (ug_repoDir s)) (\<lambda>_. git_fetch M ''origin'' (Some ''master'')) w = (w1, r1)" by fastforce
  have "leaves head (seq_prog (addSafeDirectory M (ug_repoDir s)) (\<lambda>_. git_fetch M ''origin'' (Some ''master'')))"
    by (intro leaves_seq queries_leave(9,11) [OF L])
  from leavesD [OF this f] have h1: "head w1 = head w" .
  obtain v1 q1 where c: "getCurrentCommit M False w1 = (v1, q1)" by fastforce
  obtain v2 q2 where r: "getRemoteCommit M ''origin'' ''master'' False v1 = (v2, q2)" by fastforce
  note vc = commit_value [OF L c] and vr = remote_value [OF L r]
  have "stage_ok head remote workers pending (head w) s (w', s', out) \<and> (head w' \<noteq> head w \<longrightarrow> ch = Some h \<longrightarrow> approved_by M remote h w')" for h
  proof (cases "r1 = Inr () \<and> \<not> isl q1 \<and> \<not> isl q2")
    case False
    then have "head w' = head w \<and> s' = s \<and> \<not> succeeded out"
      using res f c r h1 vc vr by (cases r1; cases q1; cases q2) (auto simp: fetch_and_compare_def seq_prog_def ret_def)
    then show ?thesis by (simp add: stage_ok_def)
  next
    case True
    then obtain l m where q: "q1 = Inr l" "q2 = Inr m" by (cases q1; cases q2) auto
    have lm: "l = head w" "m = remote v2" "head v2 = head w" using vc vr q h1 by auto
    have res': "(w', s', out) = (if l = m then (v2, if stale s l then safeRestart workers pending l s else s, uo_up_to_date)
       else case hash_accepted M ch m v2 of
          (w3, False) \<Rightarrow> (w3, s, uo_hash_mismatch (case ch of Some h \<Rightarrow> h | None \<Rightarrow> []) m)
        | (w3, True) \<Rightarrow> reset_to_remote M now workers pending stash (case ch of Some h \<Rightarrow> h | None \<Rightarrow> m) l w3 s)"
      using res f c r q True by (simp add: fetch_and_compare_def seq_prog_def ret_def cong: if_cong)
    show ?thesis
    proof (cases "l = m")
      case True
      then show ?thesis using res' lm restart_cases [of workers pending l s] by (simp add: stage_ok_def)
    next
      case False
      obtain w3 b where a: "hash_accepted M ch (remote v2) v2 = (w3, b)" by fastforce
      note va = accepted_hash [OF L a]
      show ?thesis
      proof (cases b)
        case b: False
        then show ?thesis using res' False lm a va by (simp add: stage_ok_def)
      next
        case b: True
        have "(w', s', out) = reset_to_remote M now workers pending stash (case ch of Some h \<Rightarrow> h | None \<Rightarrow> m) (head w3) w3 s"
          using res' False lm a b va by simp
        with reset_stage [OF L, where w = w3 and s = s and now = now and workers = workers and pending = pending and stash = stash and i = "case ch of Some h \<Rightarrow> h | None \<Rightarrow> m"]
        have "stage_ok head remote workers pending (head w3) s (w', s', out)" "remote w' = remote w3" by (metis, metis fst_conv)
        then show ?thesis using va(1,2) va(3) [OF b] lm by (auto simp: approved_by_def)
      qed
    qed
  qed
  then show "stage_ok head remote workers pending (head w) s (w', s', out)" "head w' \<noteq> head w \<Longrightarrow> ch = Some h \<Longrightarrow> approved_by M remote h w'" by auto
qed


text \<open>A machine with two commits, a checked-out and a remote one; every command succeeds, nothing is an ancestor of anything else.\<close>

definition demo_commit :: "bool \<Rightarrow> string" where
  "demo_commit b = (if b then ''aaaaaaaa'' else ''bbbbbbbb'')"

definition demo_answer :: "string list \<Rightarrow> bool \<times> bool \<Rightarrow> string + string" where
  "demo_answer args w =
     (if args = [''rev-parse'', ''HEAD''] then Inr (demo_commit (fst w))
      else if args = [''rev-parse'', ''--short'', ''HEAD''] then Inr (take 7 (demo_commit (fst w)))
      else if args = [''rev-parse'', ''origin/master''] then Inr (demo_commit (snd w))
      else if take 1 args = [''merge-base''] then Inl ''not an ancestor''
      else Inr [])"

definition demo_upgrade_git :: "string list \<Rightarrow> bool \<times> bool \<Rightarrow> (bool \<times> bool) \<times> (string + string)" where
  "demo_upgrade_git args w =
     (if take 1 args = [''reset''] then ((if last args = ''origin/master'' then snd w else last args = ''aaaaaaaa'', snd w), Inr [])
      else (w, demo_answer args w))"

definition demo_machine :: "(bool \<times> bool) machine" where
  "demo_machine = \<lparr>mc_git = demo_upgrade_git, mc_shell = (\<lambda>c w. (w, Inr [])), mc_cli = (\<lambda>w. Some 1), mc_linked = (\<lambda>w. False)\<rparr>"

lemma demo_upgrade_git_cases:
  "a \<noteq> ''reset'' \<Longrightarrow> fst (demo_upgrade_git (a # as) w) = w"
  "demo_upgrade_git [''rev-parse'', ''HEAD''] w = (w, Inr (demo_commit (fst w)))"
  "demo_upgrade_git [''rev-parse'', ''origin/master''] w = (w, Inr (demo_commit (snd w)))"
  "demo_upgrade_git [''reset'', ''--hard'', t] w = ((if t = ''origin/master'' then snd w else t = ''aaaaaaaa'', snd w), Inr [])"
  by (simp_all add: demo_upgrade_git_def demo_answer_def)

lemma demo_commit_facts:
  "valid_hash (demo_commit b)" "str_trim (demo_commit b) = demo_commit b" "(demo_commit b = ''aaaaaaaa'') = b" "demo_commit b \<noteq> ''origin/master''"
proof -
  have "valid_hash ''aaaaaaaa'' \<and> str_trim ''aaaaaaaa'' = ''aaaaaaaa''" "valid_hash ''bbbbbbbb'' \<and> str_trim ''bbbbbbbb'' = ''bbbbbbbb''" by code_simp+
  then show "valid_hash (demo_commit b)" "str_trim (demo_commit b) = demo_commit b" "(demo_commit b = ''aaaaaaaa'') = b" "demo_commit b \<noteq> ''origin/master''"
    by (simp_all add: demo_commit_def)
qed

lemma demo_laws: "git_laws demo_machine (\<lambda>w. demo_commit (fst w)) (\<lambda>w. demo_commit (snd w))"
  unfolding git_laws_def demo_machine_def
proof (intro conjI allI impI)
  fix a :: string and as :: "string list" and w :: "bool \<times> bool"
  have quiet: "a \<noteq> ''reset''" if "a \<in> set quiet_commands" using that by (auto simp: quiet_commands_def)
  show "a \<in> set quiet_commands \<Longrightarrow> demo_commit (fst (fst (mc_git \<lparr>mc_git = demo_upgrade_git, mc_shell = \<lambda>c w. (w, Inr []), mc_cli = \<lambda>w. Some 1, mc_linked = \<lambda>w. False\<rparr> (a # as) w))) = demo_commit (fst w)"
    using quiet by (simp add: demo_upgrade_git_cases)
  show "a \<in> set quiet_commands \<and> a \<noteq> ''fetch'' \<Longrightarrow>
     demo_commit (snd (fst (mc_git \<lparr>mc_git = demo_upgrade_git, mc_shell = \<lambda>c w. (w, Inr []), mc_cli = \<lambda>w. Some 1, mc_linked = \<lambda>w. False\<rparr> (a # as) w))) = demo_commit (snd w)"
    using quiet by (simp add: demo_upgrade_git_cases)
qed (auto simp: demo_upgrade_git_cases demo_commit_facts)

definition demo_upgrade :: upgrade_protocol where
  "demo_upgrade = snd (UpgradeProtocol_init demo_machine ''me'' ''/r'' None (True, False))"


section \<open>What counts as approved\<close>


definition demo_text_proposal :: GovernanceProposal where
  "demo_text_proposal = \<lparr>gp_id = ''p'', gp_title = ''hello'', gp_description = [], gp_proposedBy = ''ann'', gp_createdAt = 0, gp_votingEndsAt = 1, gp_status = st_passed,
     gp_stakeAmount = None, gp_stakeHoldId = None, gp_category = Some social, gp_reviewerCount = None, gp_humanOnly = False, gp_upgradePayload = None, gp_proposerSignature = None\<rparr>"


section \<open>The state on disk\<close>

definition ug_ok :: "upgrade_protocol \<Rightarrow> bool" where
  "ug_ok s = (jwf (ug_proposals s) \<and> jall (\<lambda>i p. ur_proposalId p = i) (ug_proposals s) \<and> length (ug_history s) \<le> UPGRADE_MAX_HISTORY \<and>
     distinct (ug_appliedProposalIds s) \<and> ug_pinnedVersion s \<noteq> Some [] \<and>
     (case ug_file s of None \<Rightarrow> ug_proposals s = [] \<and> ug_history s = [] \<and> ug_pinnedVersion s = None \<and> ug_appliedProposalIds s = []
      | Some f \<Rightarrow> uf_proposals f = jvals (ug_proposals s) \<and> uf_history f = ug_history s \<and> uf_pinnedVersion f = ug_pinnedVersion s \<and> uf_appliedProposalIds f = ug_appliedProposalIds s))"

lemma fold_jset_append:
  "jwf (m0 @ m) \<Longrightarrow> jall (\<lambda>i p. ur_proposalId p = i) m \<Longrightarrow> fold (\<lambda>p m. jset (ur_proposalId p) p m) (jvals m) m0 = m0 @ m"
proof (induction m arbitrary: m0)
  case (Cons e m)
  obtain k p where e: "e = (k, p)" by force
  then have k: "ur_proposalId p = k" using Cons.prems(2) by (simp add: jall_def)
  have "\<not> jhas m0 k" using Cons.prems(1) e by (auto simp: jwf_def jhas_iff)
  then have "jset k p m0 = m0 @ [e]" using e by (simp add: jset_fresh)
  then show ?case using Cons.IH [of "m0 @ [e]"] Cons.prems e k by (simp add: jvals_def jall_def)
qed (simp add: jvals_def)

lemma fold_sadd_append: "distinct (ys @ xs) \<Longrightarrow> fold sadd xs ys = ys @ xs"
proof (induction xs arbitrary: ys)
  case (Cons x xs)
  then have "sadd x ys = ys @ [x]" by (auto simp: sadd_def)
  then show ?case using Cons by simp
qed simp

text \<open>The persistent part of the state; an empty pin counts as none.\<close>

definition ug_durable :: "upgrade_protocol \<Rightarrow> (string, UpgradeProposal) jsmap \<times> UpgradeRecord list \<times> string option \<times> string list" where
  "ug_durable s = (ug_proposals s, ug_history s, if truthy (ug_pinnedVersion s) then ug_pinnedVersion s else None, ug_appliedProposalIds s)"

lemma reload: "ug_ok s \<Longrightarrow> ug_durable (snd (UpgradeProtocol_init M p d (ug_file s) w)) = ug_durable s"
  using fold_jset_append [of "[]" "ug_proposals s"] fold_sadd_append [of "[]" "ug_appliedProposalIds s"]
  by (auto simp: ug_ok_def UpgradeProtocol_init_def ug_loadState_def ug_durable_def truthy_def split: prod.splits option.splits)

definition ug_wf :: "upgrade_protocol \<Rightarrow> bool" where
  "ug_wf s = (jwf (ug_proposals s) \<and> jall (\<lambda>i p. ur_proposalId p = i) (ug_proposals s) \<and> length (ug_history s) \<le> UPGRADE_MAX_HISTORY \<and> distinct (ug_appliedProposalIds s) \<and>
     ug_pinnedVersion s \<noteq> Some [])"

lemma ug_ok_wf: "ug_ok s \<Longrightarrow> ug_wf s"
  by (simp add: ug_ok_def ug_wf_def)

lemma save_ok: "ug_wf s \<Longrightarrow> ug_ok (ug_saveState s)"
  by (simp add: ug_ok_def ug_wf_def ug_saveState_def)

lemma untouched_ok [simp]:
  "ug_ok (safeRestart workers pending c s) = ug_ok s" "ug_ok (broadcastUpgradeNotification h d g s) = ug_ok s"
  by (simp_all add: ug_ok_def safeRestart_def broadcastUpgradeNotification_def cong: option.case_cong)

lemma record_upgrade_ok: "ug_wf s \<Longrightarrow> recordUpgrade M now i st reason w s = (w1, s1) \<Longrightarrow> ug_ok s1"
  by (auto simp: recordUpgrade_def split: prod.splits intro!: save_ok) (auto simp: ug_wf_def)

lemma applied_wf: "ug_wf s \<Longrightarrow> ug_wf (s\<lparr>ug_appliedProposalIds := sadd i (ug_appliedProposalIds s)\<rparr>)"
  by (simp add: ug_wf_def)

lemma build_ok: "ug_ok s \<Longrightarrow> ug_ok (fst (snd (build_and_restart M now workers pending i l w s)))"
proof -
  assume s: "ug_ok s"
  obtain w1 r1 where 1: "ug_build M (install_deps M w) = (w1, r1)" by fastforce
  obtain w2 s1 where 2: "recordUpgrade M now i ok_success None w1 (s\<lparr>ug_appliedProposalIds := sadd i (ug_appliedProposalIds s)\<rparr>) = (w2, s1)" by fastforce
  obtain w3 r3 where 3: "getCurrentCommit M False w2 = (w3, r3)" by fastforce
  have "ug_ok (ug_saveState s1)" by (intro save_ok ug_ok_wf record_upgrade_ok [OF applied_wf [OF ug_ok_wf [OF s]] 2])
  then show ?thesis using s 1 2 3 by (cases r1; cases r3) (simp_all add: build_and_restart_def)
qed

lemma reset_ok: "ug_ok s \<Longrightarrow> ug_ok (fst (snd (reset_to_remote M now workers pending stash i l w s)))"
proof -
  assume s: "ug_ok s"
  obtain w1 r1 where 1: "stashAndReset M stash ''origin/master'' w = (w1, r1)" by fastforce
  obtain w2 r2 where 2: "getCurrentCommit M False w1 = (w2, r2)" by fastforce
  obtain w3 s1 where 3: "recordUpgrade M now i ok_success None w2 (s\<lparr>ug_appliedProposalIds := sadd i (ug_appliedProposalIds s)\<rparr>) = (w3, s1)" by fastforce
  have "ug_ok (ug_saveState s1)" by (intro save_ok ug_ok_wf record_upgrade_ok [OF applied_wf [OF ug_ok_wf [OF s]] 3])
  then show ?thesis using s 1 2 3 build_ok [OF s] by (cases r1; cases r2) (auto simp: reset_to_remote_def)
qed

lemma fetch_ok: "ug_ok s \<Longrightarrow> ug_ok (fst (snd (fetch_and_compare M now workers pending stash ch w s)))"
proof -
  assume s: "ug_ok s"
  obtain w1 r1 where 1: "seq_prog (addSafeDirectory M (ug_repoDir s)) (\<lambda>_. git_fetch M ''origin'' (Some ''master'')) w = (w1, r1)" by fastforce
  obtain w2 r2 where 2: "seq_prog (getCurrentCommit M False) (\<lambda>l. seq_prog (getRemoteCommit M ''origin'' ''master'' False) (\<lambda>r. ret (l, r))) w1 = (w2, r2)" by fastforce
  obtain w3 b where 3: "hash_accepted M ch (snd (projr r2)) w2 = (w3, b)" by fastforce
  show ?thesis
    using s 1 2 3 by (cases r1; cases r2; cases b) (auto simp: fetch_and_compare_def reset_ok)
qed

lemma pull_ok: "ug_ok s \<Longrightarrow> ug_ok (fst (snd (pullAndUpgrade M now workers pending stash ch w s)))"
proof -
  assume s: "ug_ok s"
  obtain w1 r where c: "getCurrentCommit M False w = (w1, r)" by fastforce
  show ?thesis using s c by (cases r) (auto simp: pullAndUpgrade_def Let_def fetch_ok split: option.splits)
qed

lemma pull_okD: "ug_ok s \<Longrightarrow> pullAndUpgrade M now workers pending stash ch w s = (w', s', out) \<Longrightarrow> ug_ok s'"
  using pull_ok [of s M now workers pending stash ch w] by simp

lemma propose_ok: "ug_ok s \<Longrightarrow> ug_ok (fst (snd (createUpgradeProposal M propose now i d w s)))"
proof -
  assume s: "ug_ok s"
  obtain w1 c where 1: "getRemoteVersion M (fst (git_fetch M ''origin'' (Some ''master'') w)) = (w1, c)" by fastforce
  obtain w2 f where 2: "getRecentFilesTouched M w1 = (w2, f)" by fastforce
  show ?thesis using ug_ok_wf [OF s] s 1 2
    by (auto simp: createUpgradeProposal_def Let_def ug_wf_def intro!: save_ok jall_jset split: sum.splits)
qed

lemma quorum_ok: "ug_ok s \<Longrightarrow> ug_ok (fst (checkUpgradeQuorum votes peers i s))"
proof -
  assume s: "ug_ok s"
  have "ur_proposalId p = i" if "jget (ug_proposals s) i = Some p" for p using ug_ok_wf [OF s] that by (auto simp: ug_wf_def dest: jall_jget)
  then show ?thesis using ug_ok_wf [OF s] s
    by (auto simp: checkUpgradeQuorum_def Let_def ug_wf_def intro!: save_ok jall_jset split: option.splits)
qed

lemma present_ok: "ug_ok s \<Longrightarrow> catch_up_present M workers pending h w s = (w', s', b) \<Longrightarrow> ug_ok s'"
proof -
  assume s: "ug_ok s" and r: "catch_up_present M workers pending h w s = (w', s', b)"
  have mark: "ug_ok x \<Longrightarrow> ug_ok (ug_saveState (x\<lparr>ug_appliedProposalIds := sadd h (ug_appliedProposalIds x)\<rparr>))" for x by (intro save_ok applied_wf ug_ok_wf)
  then have "ug_ok (ug_saveState (s\<lparr>ug_appliedProposalIds := sadd h (ug_appliedProposalIds s)\<rparr>))"
    "\<And>c. ug_ok (ug_saveState ((safeRestart workers pending c s)\<lparr>ug_appliedProposalIds := sadd h (ug_appliedProposalIds (safeRestart workers pending c s))\<rparr>))"
    using s by simp_all
  then show ?thesis using s r by (auto simp: catch_up_present_def Let_def split: if_splits prod.splits sum.splits)
qed

lemma catch_up_ok: "ug_ok s \<Longrightarrow> ug_ok (snd (missed_upgrades M now workers pending stash busy v ps w s))"
proof (induction ps arbitrary: w s)
  case (Cons p ps)
  show ?case
  proof (cases "wanted_commit s p")
    case None
    then show ?thesis using Cons by simp
  next
    case (Some h)
    obtain w1 b where q: "(if same_commit v h then (w, True) else (case isAncestor M h ''HEAD'' w of (w1, r) \<Rightarrow> (w1, r = Inr True))) = (w1, b)" by fastforce
    obtain w2 s2 b2 where pr: "catch_up_present M workers pending h w1 s = (w2, s2, b2)" by (metis prod_cases3)
    obtain w3 s3 out where pu: "pullAndUpgrade M now workers pending stash (Some h) w1 s = (w3, s3, out)" by (metis prod_cases3)
    note ok = present_ok [OF Cons.prems pr] pull_okD [OF Cons.prems pu]
    show ?thesis
    proof (cases b)
      case True
      then show ?thesis using Some q pr ok Cons.IH by (cases b2) simp_all
    next
      case False
      then show ?thesis using Some q pu ok Cons by (cases out) (simp_all split: if_splits)
    qed
  qed
qed simp

datatype 'w upgrade_op =
    uop_pull time nat bool string "string option"
  | uop_propose propose_fn time string string
  | uop_quorum "string \<Rightarrow> GovernanceVote list" nat string
  | uop_pin string
  | uop_unpin
  | uop_catch_up time nat bool string bool "GovernanceProposal list"
  | uop_notified time nat bool string bool "(string \<Rightarrow> GovernanceProposal option) option" upgrade_message
  | uop_approved time nat bool string GovernanceProposal
  | uop_restart
  | uop_world "'w \<Rightarrow> 'w"

text \<open>The operations, with a restart of the process and arbitrary changes of the machine from outside. The HTTP route that pins a version refuses an empty one.\<close>

fun ug_step :: "'w machine \<Rightarrow> 'w upgrade_op \<Rightarrow> 'w \<times> upgrade_protocol \<Rightarrow> 'w \<times> upgrade_protocol" where
  "ug_step M (uop_pull now workers pending stash ch) (w, s) = (case pullAndUpgrade M now workers pending stash ch w s of (w', s', out) \<Rightarrow> (w', s'))"
| "ug_step M (uop_propose propose now i d) (w, s) = (case createUpgradeProposal M propose now i d w s of (w', s', r) \<Rightarrow> (w', s'))"
| "ug_step M (uop_quorum votes peers i) (w, s) = (w, fst (checkUpgradeQuorum votes peers i s))"
| "ug_step M (uop_pin v) (w, s) = (w, if v = [] then s else pinVersion v s)"
| "ug_step M uop_unpin (w, s) = (w, unpinVersion s)"
| "ug_step M (uop_catch_up now workers pending stash busy ps) (w, s) = checkForMissedUpgrades M now workers pending stash busy ps w s"
| "ug_step M (uop_notified now workers pending stash busy gov m) (w, s) = handle_upgrade_available M now workers pending stash busy gov m w s"
| "ug_step M (uop_approved now workers pending stash p) (w, s) = handle_upgrade_approved M now workers pending stash p w s"
| "ug_step M uop_restart (w, s) = UpgradeProtocol_init M (ug_localPeerId s) (ug_repoDir s) (ug_file s) w"
| "ug_step M (uop_world f) (w, s) = (f w, s)"

lemma restart_ok: "ug_ok s \<Longrightarrow> ug_ok (snd (UpgradeProtocol_init M p d (ug_file s) w))"
proof -
  assume s: "ug_ok s"
  let ?s' = "snd (UpgradeProtocol_init M p d (ug_file s) w)"
  have f: "ug_file ?s' = ug_file s" by (simp add: UpgradeProtocol_init_def ug_loadState_def split: prod.splits option.splits)
  have "ug_pinnedVersion ?s' = Some v \<Longrightarrow> v \<noteq> []" for v
    by (auto simp: UpgradeProtocol_init_def ug_loadState_def truthy_def split: prod.splits option.splits if_splits)
  then have eqs: "ug_proposals ?s' = ug_proposals s" "ug_history ?s' = ug_history s" "ug_appliedProposalIds ?s' = ug_appliedProposalIds s" "ug_pinnedVersion ?s' = ug_pinnedVersion s"
    using reload [OF s, of M p d w] s by (auto simp: ug_durable_def ug_ok_def truthy_def split: option.splits if_splits)
  show ?thesis using s unfolding ug_ok_def f eqs .
qed

lemma pin_ok: "ug_ok s \<Longrightarrow> v \<noteq> [] \<Longrightarrow> ug_ok (pinVersion v s)" "ug_ok s \<Longrightarrow> ug_ok (unpinVersion s)"
  unfolding pinVersion_def unpinVersion_def by (intro save_ok; simp add: ug_ok_def ug_wf_def)+

lemma approved_ok: "ug_ok s \<Longrightarrow> ug_ok (snd (handle_upgrade_approved M now workers pending stash p w s))"
proof -
  assume s: "ug_ok s"
  have "ug_ok (fst (snd (pullAndUpgrade M now workers pending stash ch v (broadcastUpgradeNotification h d g s))))" for ch v h d g
    by (rule pull_ok) (simp add: s)
  then show ?thesis using s by (simp add: handle_upgrade_approved_def Let_def split: option.splits prod.splits) (metis fst_conv snd_conv)
qed

lemma notified_ok: "ug_ok s \<Longrightarrow> ug_ok (snd (handle_upgrade_available M now workers pending stash busy gov m w s))"
  using pull_okD by (auto simp: handle_upgrade_available_def handle_upgrade_direct_def split: prod.splits)

lemma ug_step_ok: "ug_ok (snd x) \<Longrightarrow> ug_ok (snd (ug_step M op x))"
proof -
  obtain w s where x: "x = (w, s)" by fastforce
  assume "ug_ok (snd x)"
  then have s: "ug_ok s" by (simp add: x)
  show ?thesis unfolding x
  proof (cases op)
    case (uop_pull now workers pending stash ch)
    then show "ug_ok (snd (ug_step M op (w, s)))" using pull_okD [OF s] by (auto split: prod.splits)
  next
    case (uop_propose propose now i d)
    then show "ug_ok (snd (ug_step M op (w, s)))" using propose_ok [OF s, of M propose now i d w] by (auto split: prod.splits)
  qed (use s in \<open>simp_all add: quorum_ok pin_ok checkForMissedUpgrades_def catch_up_ok notified_ok approved_ok restart_ok split: prod.splits\<close>)
qed

lemma ug_run_ok: "ug_ok (snd x) \<Longrightarrow> ug_ok (snd (fold (ug_step M) ops x))"
  by (induction ops arbitrary: x) (simp_all add: ug_step_ok)

text \<open>C30: The state of upgrades survives a restart. After any sequence of upgrades, proposals, notifications, pins and restarts, with any changes of the machine in
  between, a process that starts from the file has the same proposals, history, pin and applied commits; at most 200 records of upgrades are kept, and no commit is listed twice.\<close>

theorem upgrade_state_survives_restart:
  "case fold (ug_step M) ops (UpgradeProtocol_init M me dir None w) of (w', s) \<Rightarrow>
     (case ug_step M uop_restart (w', s) of (w'', s') \<Rightarrow> ug_durable s' = ug_durable s \<and> ug_file s' = ug_file s) \<and>
     length (ug_history s) \<le> 200 \<and> distinct (ug_appliedProposalIds s) \<and> distinct (map fst (ug_proposals s))"
proof -
  obtain w' s where x: "fold (ug_step M) ops (UpgradeProtocol_init M me dir None w) = (w', s)" by fastforce
  obtain w'' s' where r: "ug_step M uop_restart (w', s) = (w'', s')" by fastforce
  have "ug_ok (snd (UpgradeProtocol_init M me dir None w))"
    by (simp add: UpgradeProtocol_init_def ug_loadState_def ug_ok_def split: prod.splits)
  from ug_run_ok [OF this, of M ops] have ok: "ug_ok s" by (simp add: x)
  have s': "s' = snd (UpgradeProtocol_init M (ug_localPeerId s) (ug_repoDir s) (ug_file s) w')" using r by simp
  have f: "ug_file (snd (UpgradeProtocol_init M p d f v)) = f" for p d f v
    by (simp add: UpgradeProtocol_init_def ug_loadState_def split: prod.splits option.splits)
  have "ug_durable s' = ug_durable s \<and> ug_file s' = ug_file s" unfolding s' by (simp add: reload [OF ok] f)
  moreover have "length (ug_history s) \<le> 200 \<and> distinct (ug_appliedProposalIds s) \<and> distinct (map fst (ug_proposals s))"
    using ok by (simp add: ug_ok_def UPGRADE_MAX_HISTORY_def jwf_def)
  ultimately show ?thesis by (simp add: x r del: ug_step.simps)
qed

end
