(* ===== verification/VersionProtocol.thy ===== *)
theory VersionProtocol
  imports Types
begin

text \<open>
  \<^verbatim>\<open>VersionProtocol\<close> (\<^verbatim>\<open>packages/node/src/core/version-protocol.ts\<close>): comparison of versions, compatibility of two nodes, eligibility for
  tasks and the need of an upgrade. Versions are ordered by an instance of the class \<open>linorder\<close>. Where the code prints a
  version, the model keeps the version.
\<close>

section \<open>Versions\<close>

datatype ProtocolVersion = Version (vr_major: int) (vr_minor: int) (vr_patch: int)

definition compareVersions :: "ProtocolVersion \<Rightarrow> ProtocolVersion \<Rightarrow> int" where
  "compareVersions a b =
     (if vr_major a \<noteq> vr_major b then (if vr_major a < vr_major b then -1 else 1)
      else if vr_minor a \<noteq> vr_minor b then (if vr_minor a < vr_minor b then -1 else 1)
      else if vr_patch a \<noteq> vr_patch b then (if vr_patch a < vr_patch b then -1 else 1)
      else 0)"

instantiation ProtocolVersion :: linorder
begin

definition less_eq_ProtocolVersion :: "ProtocolVersion \<Rightarrow> ProtocolVersion \<Rightarrow> bool" where
  "less_eq_ProtocolVersion a b =
     (vr_major a < vr_major b \<or> vr_major a = vr_major b \<and> (vr_minor a < vr_minor b \<or> vr_minor a = vr_minor b \<and> vr_patch a \<le> vr_patch b))"

definition less_ProtocolVersion :: "ProtocolVersion \<Rightarrow> ProtocolVersion \<Rightarrow> bool" where
  "less_ProtocolVersion a b = (a \<le> b \<and> \<not> b \<le> a)"

instance
proof
  fix a b c :: ProtocolVersion
  show "a < b \<longleftrightarrow> a \<le> b \<and> \<not> b \<le> a" by (rule less_ProtocolVersion_def)
  show "a \<le> a" by (simp add: less_eq_ProtocolVersion_def)
  show "a \<le> b \<Longrightarrow> b \<le> c \<Longrightarrow> a \<le> c" by (auto simp: less_eq_ProtocolVersion_def)
  show "a \<le> b \<Longrightarrow> b \<le> a \<Longrightarrow> a = b" by (auto simp: less_eq_ProtocolVersion_def intro: ProtocolVersion.expand)
  show "a \<le> b \<or> b \<le> a" by (auto simp: less_eq_ProtocolVersion_def)
qed

end

section \<open>A node's versions\<close>

record VersionedCapability =
  vc_name :: string
  vc_version :: ProtocolVersion
  vc_enabled :: bool

record version_protocol =
  vp_nodeVersion :: ProtocolVersion
  vp_protocolVersion :: ProtocolVersion
  vp_capabilities :: "VersionedCapability list"
  vp_minCompatibleVersion :: ProtocolVersion
  vp_buildTimestamp :: time

definition CURRENT_NODE_VERSION :: ProtocolVersion where "CURRENT_NODE_VERSION = Version 0 1 0"
definition CURRENT_PROTOCOL_VERSION :: ProtocolVersion where "CURRENT_PROTOCOL_VERSION = Version 1 0 0"
definition MIN_COMPATIBLE_VERSION :: ProtocolVersion where "MIN_COMPATIBLE_VERSION = Version 1 0 0"

definition DEFAULT_CAPABILITIES :: "VersionedCapability list" where
  "DEFAULT_CAPABILITIES = map (\<lambda>n. \<lparr>vc_name = n, vc_version = Version 1 0 0, vc_enabled = True\<rparr>)
     [''messaging'', ''ledger-sync'', ''governance'', ''task-sync'', ''code-pipeline'']"

definition or_default :: "'a option \<Rightarrow> 'a \<Rightarrow> 'a" where
  "or_default x d = (case x of None \<Rightarrow> d | Some y \<Rightarrow> y)"

definition VersionProtocol_init ::
  "time \<Rightarrow> ProtocolVersion option \<Rightarrow> ProtocolVersion option \<Rightarrow> VersionedCapability list option \<Rightarrow> ProtocolVersion option \<Rightarrow> time option \<Rightarrow> version_protocol" where
  "VersionProtocol_init now nv pv caps mv built =
     \<lparr>vp_nodeVersion = or_default nv CURRENT_NODE_VERSION, vp_protocolVersion = or_default pv CURRENT_PROTOCOL_VERSION,
      vp_capabilities = or_default caps DEFAULT_CAPABILITIES, vp_minCompatibleVersion = or_default mv MIN_COMPATIBLE_VERSION,
      vp_buildTimestamp = or_default built now\<rparr>"

definition isCompatible :: "version_protocol \<Rightarrow> ProtocolVersion \<Rightarrow> ProtocolVersion option \<Rightarrow> bool" where
  "isCompatible v remote remoteMin =
     (if vr_major remote \<noteq> vr_major (vp_protocolVersion v) then False
      else if compareVersions remote (vp_minCompatibleVersion v) < 0 then False
      else case remoteMin of None \<Rightarrow> True | Some m \<Rightarrow> \<not> compareVersions (vp_protocolVersion v) m < 0)"

record TaskVersionRequirement =
  tv_minimumVersion :: ProtocolVersion
  tv_requiredFeatures :: "string list"

definition has_feature :: "version_protocol \<Rightarrow> string \<Rightarrow> bool" where
  "has_feature v f = (case find (\<lambda>c. vc_name c = f) (vp_capabilities v) of None \<Rightarrow> False | Some c \<Rightarrow> vc_enabled c)"

definition canClaimTask :: "version_protocol \<Rightarrow> TaskVersionRequirement \<Rightarrow> bool" where
  "canClaimTask v r =
     (\<not> compareVersions (vp_nodeVersion v) (tv_minimumVersion r) < 0 \<and> list_all (has_feature v) (tv_requiredFeatures r))"

record status_extension =
  se_nodeVersion :: ProtocolVersion
  se_protocolVersion :: ProtocolVersion
  se_minCompatibleVersion :: ProtocolVersion
  se_capabilities :: "string list"
  se_buildTimestamp :: time

definition getStatusExtension :: "version_protocol \<Rightarrow> status_extension" where
  "getStatusExtension v =
     \<lparr>se_nodeVersion = vp_nodeVersion v, se_protocolVersion = vp_protocolVersion v, se_minCompatibleVersion = vp_minCompatibleVersion v,
      se_capabilities = map vc_name (filter vc_enabled (vp_capabilities v)), se_buildTimestamp = vp_buildTimestamp v\<rparr>"

datatype severity = sev_none | sev_patch | sev_minor | sev_major

definition checkUpgradeNeeded :: "version_protocol \<Rightarrow> ProtocolVersion \<Rightarrow> bool \<times> severity" where
  "checkUpgradeNeeded v latest =
     (let mine = vp_protocolVersion v in
      if 0 \<le> compareVersions mine latest then (False, sev_none)
      else (True, if vr_major mine < vr_major latest then sev_major else if vr_minor mine < vr_minor latest then sev_minor else sev_patch))"

section \<open>Properties\<close>

lemma compareVersions_order: "compareVersions a b < 0 \<longleftrightarrow> a < b" "0 \<le> compareVersions a b \<longleftrightarrow> b \<le> a" "compareVersions a b = 0 \<longleftrightarrow> a = b"
proof -
  show "compareVersions a b < 0 \<longleftrightarrow> a < b" "0 \<le> compareVersions a b \<longleftrightarrow> b \<le> a"
    by (auto simp: compareVersions_def less_ProtocolVersion_def less_eq_ProtocolVersion_def)
  show "compareVersions a b = 0 \<longleftrightarrow> a = b" by (auto simp: compareVersions_def intro: ProtocolVersion.expand)
qed

text \<open>C22: Two nodes that exchange their version and their minimal version come to the same verdict about their compatibility:
  equal major numbers, and each version at least the other's minimum in the order of versions.\<close>

theorem compatibility_is_mutual:
  "isCompatible a (vp_protocolVersion b) (Some (vp_minCompatibleVersion b)) = isCompatible b (vp_protocolVersion a) (Some (vp_minCompatibleVersion a)) \<and>
   isCompatible a (vp_protocolVersion b) (Some (vp_minCompatibleVersion b)) =
     (vr_major (vp_protocolVersion a) = vr_major (vp_protocolVersion b) \<and> vp_minCompatibleVersion a \<le> vp_protocolVersion b \<and>
      vp_minCompatibleVersion b \<le> vp_protocolVersion a)"
  by (auto simp: isCompatible_def compareVersions_order not_less)

lemma upgrade_severity:
  "checkUpgradeNeeded v latest = (vp_protocolVersion v < latest,
     if \<not> vp_protocolVersion v < latest then sev_none
     else if vr_major (vp_protocolVersion v) \<noteq> vr_major latest then sev_major
     else if vr_minor (vp_protocolVersion v) \<noteq> vr_minor latest then sev_minor else sev_patch)"
  by (auto simp: checkUpgradeNeeded_def Let_def compareVersions_order less_ProtocolVersion_def less_eq_ProtocolVersion_def)

lemma claim_needs_features:
  assumes "canClaimTask v r" "f \<in> set (tv_requiredFeatures r)"
  shows "f \<in> set (se_capabilities (getStatusExtension v))"
proof -
  have "has_feature v f" using assms by (simp add: canClaimTask_def list_all_iff)
  then show ?thesis by (auto simp: has_feature_def getStatusExtension_def split: option.splits dest!: find_SomeD)
qed

end
