(* ===== verification/RequestReply.thy ===== *)
theory RequestReply
  imports Types
begin

text \<open>
  \<^verbatim>\<open>RequestReplyManager\<close> (\<^verbatim>\<open>packages/node/src/core/request-reply.ts\<close>): broadcast queries, the collection of their replies and the
  handlers of incoming requests. The callbacks of the event loop (a timer that fires, a publication that settles, a handler that
  returns) are the steps of a relation, in any order. Request ids are arguments, fresh as \<^verbatim>\<open>randomUUID\<close> makes them; payloads are
  opaque texts; a missing text field is the empty string, which the code treats alike.
\<close>

section \<open>State\<close>

record PandoRequest =
  rr_requestId :: string
  rr_from :: string
  rr_to :: string
  rr_type :: string
  rr_payload :: string
  rr_timeout :: int
  rr_timestamp :: time

record PandoReply =
  rp_requestId :: string
  rp_from :: string
  rp_to :: string
  rp_type :: string
  rp_payload :: "string option"
  rp_success :: bool
  rp_error :: "string option"
  rp_timestamp :: time

text \<open>A handler returns a value or throws an error with its message.\<close>

type_synonym RequestHandler = "PandoRequest \<Rightarrow> string + string"

record PendingQuery =
  pq_replies :: "PandoReply list"
  pq_maxReplies :: int

datatype rr_data = rr_request "PandoRequest option" | rr_reply "PandoReply option" | rr_other

text \<open>An agent message: the target of its envelope, if any, and what \<^verbatim>\<open>messageKind\<close> says it holds.\<close>

record rr_message =
  rm_targetPeerId :: "string option"
  rm_inner :: rr_data

text \<open>Beside the fields of the class: the listeners registered with the network, the active timers, the publications of queries not yet
  settled, the handlers not yet finished, the settled promises, the messages published, and all queries with their limits.\<close>

record request_reply =
  rs_peerId :: string
  rs_handlers :: "(string, RequestHandler) jsmap"
  rs_pendingQueries :: "(string, PendingQuery) jsmap"
  rs_subscribed :: bool
  rs_listeners :: nat
  rs_timers :: "string list"
  rs_publishing :: "string list"
  rs_running :: "(PandoRequest \<times> RequestHandler option) list"
  rs_resolved :: "(string, PandoReply list) jsmap"
  rs_sent :: "(string \<times> rr_data) list"
  rs_issued :: "(string, int) jsmap"

definition RequestReply_init :: "string \<Rightarrow> request_reply" where
  "RequestReply_init peer =
     \<lparr>rs_peerId = peer, rs_handlers = [], rs_pendingQueries = [], rs_subscribed = False, rs_listeners = 0, rs_timers = [], rs_publishing = [],
      rs_running = [], rs_resolved = [], rs_sent = [], rs_issued = []\<rparr>"

definition DEFAULT_TIMEOUT_MS :: int where "DEFAULT_TIMEOUT_MS = 30000"
definition DEFAULT_MAX_REPLIES :: int where "DEFAULT_MAX_REPLIES = 10"

section \<open>Promises and timers\<close>

text \<open>A promise keeps its first resolution.\<close>

definition rr_resolve :: "string \<Rightarrow> PandoReply list \<Rightarrow> request_reply \<Rightarrow> request_reply" where
  "rr_resolve i rs s = (if jhas (rs_resolved s) i then s else s\<lparr>rs_resolved := jset i rs (rs_resolved s)\<rparr>)"

definition rr_clearTimeout :: "string \<Rightarrow> request_reply \<Rightarrow> request_reply" where
  "rr_clearTimeout i s = s\<lparr>rs_timers := filter (\<lambda>j. j \<noteq> i) (rs_timers s)\<rparr>"

definition forget_query :: "string \<Rightarrow> request_reply \<Rightarrow> request_reply" where
  "forget_query i s = s\<lparr>rs_pendingQueries := jdel i (rs_pendingQueries s)\<rparr>"

section \<open>Operations\<close>

definition rr_start :: "request_reply \<Rightarrow> request_reply" where
  "rr_start s = (if rs_subscribed s then s else s\<lparr>rs_subscribed := True, rs_listeners := Suc (rs_listeners s)\<rparr>)"

definition registerHandler :: "string \<Rightarrow> RequestHandler \<Rightarrow> request_reply \<Rightarrow> request_reply" where
  "registerHandler t h s = s\<lparr>rs_handlers := jset t h (rs_handlers s)\<rparr>"

definition getHandlerTypes :: "request_reply \<Rightarrow> string list" where
  "getHandlerTypes s = jkeys (rs_handlers s)"

definition rr_query :: "time \<Rightarrow> string \<Rightarrow> string \<Rightarrow> string \<Rightarrow> int option \<Rightarrow> int option \<Rightarrow> request_reply \<Rightarrow> request_reply" where
  "rr_query now i t payload timeout limit s =
     (let wait = (case timeout of None \<Rightarrow> DEFAULT_TIMEOUT_MS | Some n \<Rightarrow> n); most = (case limit of None \<Rightarrow> DEFAULT_MAX_REPLIES | Some n \<Rightarrow> n);
          request = \<lparr>rr_requestId = i, rr_from = rs_peerId s, rr_to = ''*'', rr_type = t, rr_payload = payload, rr_timeout = wait, rr_timestamp = now\<rparr>
      in s\<lparr>rs_timers := rs_timers s @ [i],
           rs_pendingQueries := jset i \<lparr>pq_replies = [], pq_maxReplies = most\<rparr> (rs_pendingQueries s),
           rs_publishing := rs_publishing s @ [i], rs_sent := rs_sent s @ [(''*'', rr_request (Some request))],
           rs_issued := jset i most (rs_issued s)\<rparr>)"

definition query_timeout :: "string \<Rightarrow> request_reply \<Rightarrow> request_reply" where
  "query_timeout i s =
     rr_resolve i (case jget (rs_pendingQueries s) i of None \<Rightarrow> [] | Some q \<Rightarrow> pq_replies q) (forget_query i (rr_clearTimeout i s))"

definition publish_settled :: "string \<Rightarrow> bool \<Rightarrow> request_reply \<Rightarrow> request_reply" where
  "publish_settled i ok s =
     (let s1 = s\<lparr>rs_publishing := remove1 i (rs_publishing s)\<rparr>
      in if ok then s1 else rr_resolve i [] (rr_clearTimeout i (forget_query i s1)))"

definition drain_query :: "string \<times> PendingQuery \<Rightarrow> request_reply \<Rightarrow> request_reply" where
  "drain_query e s = rr_resolve (fst e) (pq_replies (snd e)) (rr_clearTimeout (fst e) s)"

definition rr_drain :: "request_reply \<Rightarrow> request_reply" where
  "rr_drain s =
     (fold drain_query (rs_pendingQueries s) s)
       \<lparr>rs_pendingQueries := [], rs_handlers := [], rs_subscribed := False\<rparr>"

text \<open>The handler of a request starts when the request comes in and ends in a later step.\<close>

definition handleIncomingRequest :: "PandoRequest option \<Rightarrow> request_reply \<Rightarrow> request_reply" where
  "handleIncomingRequest r s =
     (case r of None \<Rightarrow> s
      | Some req \<Rightarrow>
        if rr_requestId req = [] \<or> rr_type req = [] then s
        else if rr_to req \<noteq> ''*'' \<and> rr_to req \<noteq> rs_peerId s then s
        else s\<lparr>rs_running := rs_running s @ [(req, jget (rs_handlers s) (rr_type req))]\<rparr>)"

definition sendReply :: "time \<Rightarrow> PandoRequest \<Rightarrow> bool \<Rightarrow> string option \<Rightarrow> string option \<Rightarrow> request_reply \<Rightarrow> request_reply" where
  "sendReply now req ok payload err s =
     s\<lparr>rs_sent := rs_sent s @ [(rr_from req, rr_reply (Some
        \<lparr>rp_requestId = rr_requestId req, rp_from = rs_peerId s, rp_to = rr_from req, rp_type = rr_type req, rp_payload = payload,
         rp_success = ok, rp_error = err, rp_timestamp = now\<rparr>))]\<rparr>"

definition answer_request :: "time \<Rightarrow> PandoRequest \<Rightarrow> RequestHandler option \<Rightarrow> request_reply \<Rightarrow> request_reply" where
  "answer_request now req h s =
     (case h of None \<Rightarrow> sendReply now req False None (Some (''No handler registered for type: '' @ rr_type req)) s
      | Some f \<Rightarrow> (case f req of Inr result \<Rightarrow> sendReply now req True (Some result) None s
                  | Inl msg \<Rightarrow> sendReply now req False None (Some (if msg = [] then ''Handler error'' else msg)) s))"

definition finish_handler :: "time \<Rightarrow> nat \<Rightarrow> request_reply \<Rightarrow> request_reply" where
  "finish_handler now k s =
     (if k < length (rs_running s)
      then (case rs_running s ! k of (req, h) \<Rightarrow>
        answer_request now req h (s\<lparr>rs_running := take k (rs_running s) @ drop (Suc k) (rs_running s)\<rparr>))
      else s)"

definition handleIncomingReply :: "PandoReply option \<Rightarrow> request_reply \<Rightarrow> request_reply" where
  "handleIncomingReply r s =
     (case r of None \<Rightarrow> s
      | Some reply \<Rightarrow>
        if rp_requestId reply = [] then s
        else case jget (rs_pendingQueries s) (rp_requestId reply) of None \<Rightarrow> s
        | Some q \<Rightarrow>
            let q1 = q\<lparr>pq_replies := pq_replies q @ [reply]\<rparr>; s1 = s\<lparr>rs_pendingQueries := jset (rp_requestId reply) q1 (rs_pendingQueries s)\<rparr>
            in if pq_maxReplies q \<le> int (length (pq_replies q1))
               then rr_resolve (rp_requestId reply) (pq_replies q1) (forget_query (rp_requestId reply) (rr_clearTimeout (rp_requestId reply) s1))
               else s1)"

definition rr_listener :: "rr_message \<Rightarrow> request_reply \<Rightarrow> request_reply" where
  "rr_listener m s =
     (if truthy (rm_targetPeerId m) \<and> rm_targetPeerId m \<noteq> Some ''*'' \<and> rm_targetPeerId m \<noteq> Some (rs_peerId s) then s
      else case rm_inner m of rr_request r \<Rightarrow> handleIncomingRequest r s | rr_reply r \<Rightarrow> handleIncomingReply r s | rr_other \<Rightarrow> s)"

text \<open>The network calls every registered listener.\<close>

definition rr_receive :: "rr_message \<Rightarrow> request_reply \<Rightarrow> request_reply" where
  "rr_receive m s = (rr_listener m ^^ rs_listeners s) s"

section \<open>The event loop\<close>

inductive rr_step :: "request_reply \<Rightarrow> request_reply \<Rightarrow> bool" where
  step_start: "rr_step s (rr_start s)"
| step_register: "rr_step s (registerHandler t h s)"
| step_query: "\<not> jhas (rs_issued s) i \<Longrightarrow> rr_step s (rr_query now i t payload timeout limit s)"
| step_published: "i \<in> set (rs_publishing s) \<Longrightarrow> rr_step s (publish_settled i ok s)"
| step_timeout: "i \<in> set (rs_timers s) \<Longrightarrow> rr_step s (query_timeout i s)"
| step_receive: "rr_step s (rr_receive m s)"
| step_finish: "rr_step s (finish_handler now k s)"
| step_drain: "rr_step s (rr_drain s)"

definition rr_reachable :: "request_reply \<Rightarrow> bool" where
  "rr_reachable s = (\<exists>peer. rr_step\<^sup>*\<^sup>* (RequestReply_init peer) s)"

section \<open>Every query settles once\<close>

definition good_replies :: "string \<Rightarrow> int \<Rightarrow> PandoReply list \<Rightarrow> bool" where
  "good_replies i most rs = (int (length rs) \<le> max 1 most \<and> list_all (\<lambda>r. rp_requestId r = i) rs)"

text \<open>The three places of a query: pending with an active timer, resolved, or not issued.\<close>

definition query_ok :: "request_reply \<Rightarrow> string \<Rightarrow> bool" where
  "query_ok s i =
     (case jget (rs_issued s) i of
        None \<Rightarrow> jget (rs_pendingQueries s) i = None \<and> i \<notin> set (rs_timers s) \<and> i \<notin> set (rs_publishing s) \<and> jget (rs_resolved s) i = None
      | Some most \<Rightarrow>
          (case jget (rs_pendingQueries s) i of
             Some q \<Rightarrow> i \<in> set (rs_timers s) \<and> jget (rs_resolved s) i = None \<and> pq_maxReplies q = most \<and>
               (pq_replies q = [] \<or> int (length (pq_replies q)) < most) \<and> list_all (\<lambda>r. rp_requestId r = i) (pq_replies q)
           | None \<Rightarrow> i \<notin> set (rs_timers s) \<and> (\<exists>rs. jget (rs_resolved s) i = Some rs \<and> good_replies i most rs)))"

definition queries_ok :: "request_reply \<Rightarrow> bool" where
  "queries_ok s = (\<forall>i. query_ok s i)"

text \<open>Two states that differ in nothing that concerns queries.\<close>

definition same_queries :: "request_reply \<Rightarrow> request_reply \<Rightarrow> bool" where
  "same_queries s s' = (rs_issued s' = rs_issued s \<and> rs_pendingQueries s' = rs_pendingQueries s \<and> rs_timers s' = rs_timers s \<and>
     rs_publishing s' = rs_publishing s \<and> rs_resolved s' = rs_resolved s)"

lemma query_ok_frame:
  assumes "query_ok s j" and "jget (rs_issued s') j = jget (rs_issued s) j" "jget (rs_pendingQueries s') j = jget (rs_pendingQueries s) j"
    "j \<in> set (rs_timers s') \<longleftrightarrow> j \<in> set (rs_timers s)" "j \<in> set (rs_publishing s') \<Longrightarrow> j \<in> set (rs_publishing s)"
    "jget (rs_resolved s') j = jget (rs_resolved s) j"
  shows "query_ok s' j"
  using assms unfolding query_ok_def by (auto split: option.splits)

lemma queries_ok_same: "same_queries s s' \<Longrightarrow> queries_ok s \<Longrightarrow> queries_ok s'"
  unfolding queries_ok_def by (auto simp: same_queries_def intro: query_ok_frame)

lemma same_queries_ops:
  "same_queries s (rr_start s)" "same_queries s (registerHandler t h s)" "same_queries s (handleIncomingRequest r s)" "same_queries s (finish_handler now k s)"
  by (auto simp: same_queries_def rr_start_def registerHandler_def handleIncomingRequest_def finish_handler_def answer_request_def sendReply_def
      split: option.split sum.split prod.split)

lemmas rr_defs = rr_resolve_def rr_clearTimeout_def forget_query_def jhas_def

lemma queries_okI: "queries_ok s \<Longrightarrow> query_ok s' i \<Longrightarrow> (\<And>j. j \<noteq> i \<Longrightarrow> query_ok s j \<Longrightarrow> query_ok s' j) \<Longrightarrow> queries_ok s'"
  unfolding queries_ok_def by metis

lemma query_preserves: "queries_ok s \<Longrightarrow> \<not> jhas (rs_issued s) i \<Longrightarrow> queries_ok (rr_query now i t payload timeout limit s)"
proof (rule queries_okI [of s])
  assume "queries_ok s" "\<not> jhas (rs_issued s) i"
  then have "jget (rs_resolved s) i = None" by (auto simp: queries_ok_def query_ok_def jhas_def dest: spec [of _ i])
  then show "query_ok (rr_query now i t payload timeout limit s) i" by (simp add: query_ok_def rr_query_def Let_def)
qed (assumption, (erule query_ok_frame; simp add: rr_query_def Let_def))

lemma settled_ok:
  assumes "queries_ok s" "jget (rs_issued s) i \<noteq> None" "i \<notin> set (rs_timers s')" "jget (rs_pendingQueries s') i = None" "rs_issued s' = rs_issued s"
    "jget (rs_resolved s') i = (case jget (rs_resolved s) i of Some rs \<Rightarrow> Some rs | None \<Rightarrow> Some new)"
    "\<And>most. jget (rs_issued s) i = Some most \<Longrightarrow> jget (rs_pendingQueries s) i \<noteq> None \<Longrightarrow> good_replies i most new"
  shows "query_ok s' i"
proof -
  have "query_ok s i" using assms(1) by (simp add: queries_ok_def)
  then show ?thesis using assms(2-) unfolding query_ok_def by (auto split: option.splits)
qed

lemma pending_good: "queries_ok s \<Longrightarrow> jget (rs_issued s) i = Some most \<Longrightarrow> jget (rs_pendingQueries s) i = Some q \<Longrightarrow> good_replies i most (pq_replies q)"
  unfolding queries_ok_def query_ok_def good_replies_def by (drule spec [of _ i]) auto

lemma timer_issued: "queries_ok s \<Longrightarrow> i \<in> set (rs_timers s) \<or> i \<in> set (rs_publishing s) \<Longrightarrow> jget (rs_issued s) i \<noteq> None"
  unfolding queries_ok_def query_ok_def by (drule spec [of _ i]) (cases "jget (rs_issued s) i"; auto)

lemma timeout_preserves: "queries_ok s \<Longrightarrow> i \<in> set (rs_timers s) \<Longrightarrow> queries_ok (query_timeout i s)"
proof (rule queries_okI [of s])
  assume "queries_ok s" "i \<in> set (rs_timers s)"
  then show "query_ok (query_timeout i s) i"
    by (intro settled_ok [where s = s and new = "case jget (rs_pendingQueries s) i of None \<Rightarrow> [] | Some q \<Rightarrow> pq_replies q"])
      (auto simp: query_timeout_def rr_defs dest: timer_issued pending_good split: option.split)
qed (assumption, (erule query_ok_frame; simp add: query_timeout_def rr_defs split: if_splits))

lemma published_preserves: "queries_ok s \<Longrightarrow> i \<in> set (rs_publishing s) \<Longrightarrow> queries_ok (publish_settled i ok s)"
proof (cases ok)
  case True
  have "query_ok s j \<Longrightarrow> query_ok (publish_settled i ok s) j" for j
    by (erule query_ok_frame) (use True in \<open>auto simp: publish_settled_def Let_def dest: set_mp [OF set_remove1_subset]\<close>)
  then show "queries_ok s \<Longrightarrow> queries_ok (publish_settled i ok s)" by (simp add: queries_ok_def)
next
  case False
  show "queries_ok s \<Longrightarrow> i \<in> set (rs_publishing s) \<Longrightarrow> queries_ok (publish_settled i ok s)"
  proof (rule queries_okI [of s])
    assume "queries_ok s" "i \<in> set (rs_publishing s)"
    then show "query_ok (publish_settled i ok s) i" using False
      by (intro settled_ok [where s = s and new = "[]"]) (auto simp: publish_settled_def rr_defs Let_def good_replies_def dest: timer_issued split: option.split)
  qed (assumption, (erule query_ok_frame; use False in \<open>auto simp: publish_settled_def rr_defs Let_def dest: set_mp [OF set_remove1_subset] split: if_splits\<close>))
qed

lemma reply_preserves: "queries_ok s \<Longrightarrow> queries_ok (handleIncomingReply r s)"
proof (cases r)
  case (Some reply)
  assume ok: "queries_ok s"
  let ?i = "rp_requestId reply"
  show ?thesis using ok
  proof (rule queries_okI)
    have "query_ok s ?i" using ok by (simp add: queries_ok_def)
    then show "query_ok (handleIncomingReply r s) ?i" unfolding query_ok_def
      by (cases "jget (rs_pendingQueries s) ?i"; cases "jget (rs_issued s) ?i")
        (auto simp: Some handleIncomingReply_def rr_defs good_replies_def Let_def)
    show "query_ok (handleIncomingReply r s) j" if "j \<noteq> ?i" "query_ok s j" for j
      by (rule query_ok_frame [OF that(2)]) (use that(1) in \<open>auto simp: Some handleIncomingReply_def rr_defs Let_def split: option.splits if_splits\<close>)
  qed
qed (simp add: handleIncomingReply_def)

lemma listener_preserves: "queries_ok s \<Longrightarrow> queries_ok (rr_listener m s)"
  by (auto simp: rr_listener_def reply_preserves intro: queries_ok_same [OF same_queries_ops(3)] split: rr_data.split)

lemma receive_preserves: "queries_ok s \<Longrightarrow> queries_ok (rr_receive m s)"
proof -
  have "queries_ok s \<Longrightarrow> queries_ok ((rr_listener m ^^ n) s)" for n by (induction n) (simp_all add: listener_preserves)
  then show "queries_ok s \<Longrightarrow> queries_ok (rr_receive m s)" by (simp add: rr_receive_def)
qed

lemma drain_query_simps [simp]:
  "rs_issued (drain_query e s) = rs_issued s" "rs_publishing (drain_query e s) = rs_publishing s"
  "rs_timers (drain_query e s) = filter (\<lambda>j. j \<noteq> fst e) (rs_timers s)"
  "jget (rs_resolved (drain_query e s)) i =
     (case jget (rs_resolved s) i of Some rs \<Rightarrow> Some rs | None \<Rightarrow> if i = fst e then Some (pq_replies (snd e)) else None)"
  by (auto simp: drain_query_def rr_defs split: option.split)

lemma drain_fold:
  "jget (rs_resolved (fold drain_query qs s)) i =
     (case jget (rs_resolved s) i of Some rs \<Rightarrow> Some rs | None \<Rightarrow> map_option pq_replies (jget qs i))"
  "set (rs_timers (fold drain_query qs s)) = set (rs_timers s) - fst ` set qs"
  "rs_issued (fold drain_query qs s) = rs_issued s"
  "rs_publishing (fold drain_query qs s) = rs_publishing s"
  by (induction qs arbitrary: s) (auto split: option.split)

lemma drain_preserves: "queries_ok s \<Longrightarrow> queries_ok (rr_drain s)"
  unfolding queries_ok_def
proof
  fix i
  assume "\<forall>i. query_ok s i"
  then have "query_ok s i" by blast
  then show "query_ok (rr_drain s) i"
    by (auto simp: query_ok_def rr_drain_def drain_fold good_replies_def jget_None_iff [symmetric] split: option.splits)
qed

lemma step_preserves: "rr_step s s' \<Longrightarrow> queries_ok s \<Longrightarrow> queries_ok s'"
  by (induction rule: rr_step.induct)
    (auto intro: query_preserves timeout_preserves published_preserves receive_preserves drain_preserves queries_ok_same [OF same_queries_ops(1)]
      queries_ok_same [OF same_queries_ops(2)] queries_ok_same [OF same_queries_ops(4)])

lemma reachable_ok: "rr_reachable s \<Longrightarrow> queries_ok s"
proof -
  assume "rr_reachable s"
  then obtain peer where "rr_step\<^sup>*\<^sup>* (RequestReply_init peer) s" by (auto simp: rr_reachable_def)
  then show ?thesis
  proof (induction rule: rtranclp_induct)
    case base
    show ?case by (simp add: queries_ok_def query_ok_def RequestReply_init_def)
  qed (rule step_preserves)
qed

text \<open>What a promise was resolved with stays.\<close>

definition keeps_resolved :: "request_reply \<Rightarrow> request_reply \<Rightarrow> bool" where
  "keeps_resolved s s' = (\<forall>i rs. jget (rs_resolved s) i = Some rs \<longrightarrow> jget (rs_resolved s') i = Some rs)"

lemma keeps_resolved_trans: "keeps_resolved s t \<Longrightarrow> keeps_resolved t u \<Longrightarrow> keeps_resolved s u"
  by (simp add: keeps_resolved_def)

lemma keeps_resolved_same: "same_queries s s' \<Longrightarrow> keeps_resolved s s'"
  by (simp add: keeps_resolved_def same_queries_def)

lemma listener_keeps: "keeps_resolved s (rr_listener m s)"
proof -
  have "keeps_resolved s (handleIncomingReply r s)" for r
    by (auto simp: keeps_resolved_def handleIncomingReply_def rr_defs Let_def split: option.splits)
  moreover have "keeps_resolved s s" by (simp add: keeps_resolved_def)
  ultimately show ?thesis by (auto simp: rr_listener_def intro: keeps_resolved_same [OF same_queries_ops(3)] split: rr_data.split)
qed

lemma receive_keeps: "keeps_resolved s (rr_receive m s)"
proof -
  have "keeps_resolved s ((rr_listener m ^^ n) s)" for n
    by (induction n) (auto intro: keeps_resolved_trans listener_keeps simp: keeps_resolved_def [of s s])
  then show ?thesis by (simp add: rr_receive_def)
qed

lemma step_keeps: "rr_step s s' \<Longrightarrow> keeps_resolved s s'"
proof (induction rule: rr_step.induct)
  case (step_drain s)
  show ?case by (auto simp: keeps_resolved_def rr_drain_def drain_fold)
qed (auto intro: keeps_resolved_same [OF same_queries_ops(1)] keeps_resolved_same [OF same_queries_ops(2)] keeps_resolved_same [OF same_queries_ops(4)]
    receive_keeps, auto simp: keeps_resolved_def rr_query_def publish_settled_def query_timeout_def rr_defs Let_def)

lemma steps_keep: "rr_step\<^sup>*\<^sup>* s s' \<Longrightarrow> keeps_resolved s s'"
  by (induction rule: rtranclp_induct) (auto simp: keeps_resolved_def [of s s] intro: keeps_resolved_trans step_keeps)

text \<open>C21: Every broadcast query returns, once: in every state the event loop can reach, a query is either waiting with an active
  timer, whose firing settles it, or it has been settled, holds no timer and no entry any more, and keeps in all later states the
  result it got, which is at most \<^verbatim>\<open>maxReplies\<close> replies (one if the limit is below one), all to that query.\<close>

theorem queries_settle_once:
  assumes "rr_reachable s" and "jget (rs_issued s) i = Some most"
  shows "(case jget (rs_pendingQueries s) i of
     Some q \<Rightarrow> i \<in> set (rs_timers s) \<and> jget (rs_resolved s) i = None \<and> jget (rs_resolved (query_timeout i s)) i = Some (pq_replies q) \<and>
       good_replies i most (pq_replies q)
   | None \<Rightarrow> i \<notin> set (rs_timers s) \<and>
       (\<exists>rs. jget (rs_resolved s) i = Some rs \<and> good_replies i most rs \<and> (\<forall>s'. rr_step\<^sup>*\<^sup>* s s' \<longrightarrow> jget (rs_resolved s') i = Some rs)))"
proof -
  have ok: "query_ok s i" using reachable_ok [OF assms(1)] by (simp add: queries_ok_def)
  show ?thesis
  proof (cases "jget (rs_pendingQueries s) i")
    case None
    then obtain rs where "i \<notin> set (rs_timers s)" "jget (rs_resolved s) i = Some rs" "good_replies i most rs"
      using ok assms(2) by (auto simp: query_ok_def)
    then show ?thesis using None by (auto dest!: steps_keep simp: keeps_resolved_def)
  next
    case (Some q)
    then show ?thesis using ok assms(2) by (auto simp: query_ok_def query_timeout_def rr_defs good_replies_def)
  qed
qed

definition demo_query :: request_reply where
  "demo_query = rr_query 1 ''q1'' ''health_check'' [] None (Some 2) (rr_start (RequestReply_init ''me''))"

definition demo_reply :: "string \<Rightarrow> rr_message" where
  "demo_reply sender = \<lparr>rm_targetPeerId = Some ''me'', rm_inner = rr_reply (Some \<lparr>rp_requestId = ''q1'', rp_from = sender, rp_to = ''me'',
     rp_type = ''health_check'', rp_payload = None, rp_success = True, rp_error = None, rp_timestamp = 2\<rparr>)\<rparr>"

definition demo_answered :: request_reply where
  "demo_answered = rr_receive (demo_reply ''b'') (rr_receive (demo_reply ''a'') demo_query)"

lemma demo_reachable: "rr_reachable demo_answered"
proof -
  have "rr_step (RequestReply_init ''me'') (rr_start (RequestReply_init ''me''))" by (rule step_start)
  moreover have "rr_step (rr_start (RequestReply_init ''me'')) demo_query"
    unfolding demo_query_def by (rule step_query) code_simp
  moreover have "rr_step demo_query (rr_receive (demo_reply ''a'') demo_query)" "rr_step (rr_receive (demo_reply ''a'') demo_query) demo_answered"
    unfolding demo_answered_def by (rule step_receive)+
  ultimately show ?thesis unfolding rr_reachable_def by (meson rtranclp.intros)
qed

lemma demo_answered_facts: "jget (rs_issued demo_answered) ''q1'' = Some 2" "jget (rs_pendingQueries demo_answered) ''q1'' = None"
  by code_simp+

theorem queries_settle_once_witness:
  "''q1'' \<notin> set (rs_timers demo_answered) \<and> (\<exists>rs. jget (rs_resolved demo_answered) ''q1'' = Some rs \<and> good_replies ''q1'' 2 rs)"
  using queries_settle_once [OF demo_reachable demo_answered_facts(1)] demo_answered_facts(2) by auto

section \<open>Requests\<close>

text \<open>With one listener, an incoming request for this node starts one handler, and its end sends exactly one reply, to the sender and under
  the id of the request, successful exactly when the handler returned.\<close>

lemma request_answered:
  assumes "rs_listeners s = 1" and "rs_running s = []" and "rr_requestId req \<noteq> []" and "rr_type req \<noteq> []" and "rr_to req = ''*'' \<or> rr_to req = rs_peerId s"
  shows "\<exists>reply. rs_sent (finish_handler now 0 (rr_receive \<lparr>rm_targetPeerId = Some (rr_to req), rm_inner = rr_request (Some req)\<rparr> s)) =
      rs_sent s @ [(rr_from req, rr_reply (Some reply))] \<and> rp_requestId reply = rr_requestId req \<and>
    (rp_success reply \<longleftrightarrow> (\<exists>h v. jget (rs_handlers s) (rr_type req) = Some h \<and> h req = Inr v))"
proof -
  have "rr_receive \<lparr>rm_targetPeerId = Some (rr_to req), rm_inner = rr_request (Some req)\<rparr> s =
      s\<lparr>rs_running := [(req, jget (rs_handlers s) (rr_type req))]\<rparr>"
    using assms by (auto simp: rr_receive_def rr_listener_def handleIncomingRequest_def)
  then show ?thesis by (auto simp: finish_handler_def answer_request_def sendReply_def split: option.split sum.split)
qed

text \<open>After \<^verbatim>\<open>drain\<close> and another \<^verbatim>\<open>start\<close> the old listener is still registered: a request is handled twice.\<close>

lemma restart_handles_twice:
  "length (rs_running (rr_receive \<lparr>rm_targetPeerId = None, rm_inner = rr_request (Some \<lparr>rr_requestId = ''r'', rr_from = ''b'', rr_to = ''*'', rr_type = ''t'',
     rr_payload = [], rr_timeout = 1, rr_timestamp = 1\<rparr>)\<rparr> (rr_start (rr_drain (rr_start (RequestReply_init ''me'')))))) = 2"
  by code_simp

end
