(* ===== verification/Spec2Isabelle.thy ===== *)
theory Spec2Isabelle
  imports EmissionWitness GovernanceDecisions TaskClaims CodePipeline SecurityMonitor UserAccounts Scheduler Supervisor TeamRegistry Upgrade VersionProtocol RequestReply
begin

text \<open>
  A verification development for Pando (\<^verbatim>\<open>src/packages\<close>), a peer-to-peer network of nodes that share a ledger of a token
  called Lux, do work for each other, and govern themselves by proposals and votes.

  \<^bold>\<open>The program.\<close> Every node keeps a SQLite ledger (\<^verbatim>\<open>ledger/src\<close>): accounts, transactions, emissions, contributions. Nodes
  exchange transactions and account claims by gossip and on connection (\<^verbatim>\<open>node/src/kernel/sync.ts\<close>). Lux is minted for work after
  other nodes attested it (\<^verbatim>\<open>kernel/emission-witness.ts\<close>). Payments for tasks, and the stakes of proposals, are held in escrow
  (\<^verbatim>\<open>core/payment-gate.ts\<close>). Nodes rate each other (\<^verbatim>\<open>kernel/reputation.ts\<close>); reputation weighs votes
  (\<^verbatim>\<open>platform/reputation-governance.ts\<close>). Proposals, comments and votes are exchanged by gossip, decided by a quorum, and a passed
  upgrade proposal replaces the program (\<^verbatim>\<open>kernel/governance.ts\<close>). Projects are registered in a replicated table
  (\<^verbatim>\<open>platform/project-registry.ts\<close>). Work is distributed as tasks (\<^verbatim>\<open>platform/task-queue.ts\<close>) that nodes claim and complete; the
  code they produce is applied to the program's own repository under guardrails (\<^verbatim>\<open>kernel/guardrails.ts\<close>,
  \<^verbatim>\<open>platform/code-pipeline.ts\<close>).

  \<^bold>\<open>Theories, in the order of their imports.\<close>

  \<^item> \<open>Prelude\<close>: JavaScript maps and sets as insertion-ordered lists (\<open>jget\<close>, \<open>jset\<close>, \<open>jdel\<close>, \<open>sadd\<close>, \<open>sdel\<close>), the locale
    \<open>keyed_store\<close> of their laws, the rule collections \<open>store_simps\<close> and \<open>inv_intros\<close>.
  \<^item> \<open>Number\<close>: JavaScript numbers as rationals rounded to IEEE doubles after each operation; the locale \<open>nearest_rounding\<close>.
  \<^item> \<open>Types\<close>, \<open>GovTypes\<close>: the records, enumerations and constants of \<^verbatim>\<open>shared/src/types.ts\<close>; \<open>roundLux\<close> and its exactness on
    multiples of \<open>10 ^ -8\<close> up to \<open>UNIT_LIMIT\<close>.
  \<^item> \<open>Database\<close>, \<open>Accounts\<close>, \<open>Transactions\<close>, \<open>Contributions\<close>, \<open>Ledger\<close>: the four stores and \<^verbatim>\<open>PandoLedger\<close>. One definition per
    method, with the source's names (prefixed by the store where they clash); errors are values of \<open>ledger_error\<close>. The
    abstract ledger is a map from peers to whole units of \<open>10 ^ -8\<close> Lux, and transfers, remote application, emission and
    rewards are shown to implement its operations, floating point included.
  \<^item> \<open>PaymentGate\<close>: the escrow. It knows the ledger through the interface \<^verbatim>\<open>LedgerLike\<close>, here the locale \<open>lux_ledger\<close>,
    interpreted with the operations of \<open>Accounts\<close>.
  \<^item> \<open>Reputation\<close>, \<open>ReputationGovernance\<close>: scores, remote updates, vote weights and weighted outcomes.
  \<^item> \<open>ProjectRegistry\<close>, \<open>LedgerSync\<close>: replication. The locale \<open>ledger_invariant\<close> carries an invariant of the ledger over all
    sequences of messages and awaited continuations; it is interpreted for the stored keys, the transaction log and the
    money (no negative balance, supply within the hard cap).
  \<^item> \<open>EmissionWitness\<close>: attested minting; the locale \<open>minting\<close> bounds what is minted per day and is interpreted with the
    callback of \<^verbatim>\<open>init-kernel.ts\<close>.
  \<^item> \<open>Governance\<close>: all of \<^verbatim>\<open>GovernanceSync\<close>, with the payment gate, rewards, weighting and signatures as parameters.
    \<open>GovernanceSafety\<close>: the locale \<open>content_policy\<close> carries what may enter the stores over all runs, with three interpretations
    (escaped text, authentic votes, genuine upgrades). \<open>GovernanceDecisions\<close>: quorum, outcome, stakes (locale \<open>stake_escrow\<close>,
    interpreted with the payment gate over the ledger), catch-up, archive, and the weaknesses found.
  \<^item> \<open>JsText\<close>: string functions and path joining of JavaScript. \<open>TaskDatabase\<close>, \<open>TaskQueue\<close>: the tables and operations of
    \<^verbatim>\<open>platform/task-database.ts\<close> and \<^verbatim>\<open>platform/task-queue.ts\<close>, and the handler of remote task events. \<open>TaskLifecycle\<close>: the locale
    \<open>life_cycle\<close>, interpreted with every call of the queue; the clean-up as a case table. \<open>TaskClaims\<close>: the order in which tasks are
    offered, file locks, claim races and what the database keeps of a task.
  \<^item> \<open>Guardrails\<close> (\<^verbatim>\<open>kernel/guardrails.ts\<close>) and \<open>CodePipeline\<close> (\<^verbatim>\<open>platform/code-pipeline.ts\<close>): the rules under which the program
    may change its own source, and the patches it applies and rolls back on a disk of files and directories.
  \<^item> \<open>SecurityMonitor\<close> (\<^verbatim>\<open>kernel/security-monitor.ts\<close>): the detectors over recorded events, the alerts they raise, quarantine and
    its release. \<open>UserAccounts\<close> (\<^verbatim>\<open>platform/user-accounts.ts\<close>): guests, claims, log-in and the reclamation of unused
    balances over the ledger, with key derivation, hashing and encryption as parameters.
  \<^item> \<open>Capabilities\<close> (\<^verbatim>\<open>platform/capability-detector.ts\<close>, \<^verbatim>\<open>local-capability-store.ts\<close>, \<^verbatim>\<open>capability-registry.ts\<close>): what a node can do,
    what it shares, and what it knows of the others, profiles being objects in a store. \<open>ResourceRouting\<close> (\<^verbatim>\<open>platform/resource-router.ts\<close>,
    \<^verbatim>\<open>platform/resource-marketplace.ts\<close>, \<^verbatim>\<open>core/http-peer-client.ts\<close>): the node chosen for a request, failures and reassignment, prices, and
    the request itself.
  \<^item> \<open>ResourceMeter\<close> (\<^verbatim>\<open>platform/resource-meter.ts\<close>): usage records, readings, rewards, pruning. \<open>FileRegistry\<close>
    (\<^verbatim>\<open>platform/file-registry.ts\<close>): temporary claims of files. \<open>Scheduler\<close> (\<^verbatim>\<open>platform/scheduler.ts\<close>): the queue of approved tasks and its
    gates, reports, the completion of parents from their children, recovery and polling, over the task queue, the meter and the router.
  \<^item> \<open>GitOps\<close> (\<^verbatim>\<open>core/git-ops.ts\<close>): the git commands as computations on the state of a machine. \<open>Upgrade\<close> (\<^verbatim>\<open>core/upgrade-protocol.ts\<close> and
    the handlers of \<^verbatim>\<open>init-kernel.ts\<close> and \<^verbatim>\<open>init-platform.ts\<close>): pull, build, restart, roll back, catch up; what is assumed of git is
    the hypothesis \<open>git_laws\<close>.
  \<^item> \<open>CrashGuard\<close> (\<^verbatim>\<open>kernel/crash-guard.ts\<close>, \<^verbatim>\<open>startup-health.ts\<close>, \<^verbatim>\<open>restart-reason.ts\<close>, the start in \<^verbatim>\<open>cli.ts\<close>): what a node does about its own crashes,
    run after run. \<open>Supervisor\<close> (\<^verbatim>\<open>supervisor.ts\<close>): the processes, timers, tray and watchdog as a step relation, and both together.
  \<^item> \<open>TeamRegistry\<close> (\<^verbatim>\<open>core/team-registry.ts\<close> and its start in \<^verbatim>\<open>init-platform.ts\<close>): teams, their heartbeats, replication and take-over.
  \<^item> \<open>VersionProtocol\<close> (\<^verbatim>\<open>core/version-protocol.ts\<close>), with versions as an instance of \<open>linorder\<close>, and \<open>RequestReply\<close>
    (\<^verbatim>\<open>core/request-reply.ts\<close>), broadcast queries and their replies as a step relation of the event loop.

  \<^bold>\<open>State and effects.\<close> A class is a record, a method a function that returns the new record. A table or \<^verbatim>\<open>Map\<close> is an
  insertion-ordered association list; a \<^verbatim>\<open>Set\<close> is a list without duplicates. Clock, random ids and hashes are arguments, libraries (libp2p, Ed25519, JSON) are
  functions of an environment record. Objects shared by reference are in a store and named by an index (\<open>EmissionWitness\<close>) or
  updated under their key. Messages sent and callbacks called are logged in the state.

  \<^bold>\<open>Interleaving.\<close> JavaScript runs each handler up to the next \<^verbatim>\<open>await\<close> without interruption. Where a handler awaits, the
  rest is a job in the state; \<open>resume_job\<close>, \<open>resume_witness\<close> and \<open>resume_gov\<close> run any job at any later time. The step relations
  \<open>sync_step\<close>, \<open>witness_step\<close> and \<open>gov_step\<close> allow every message, every local action, every job, restarts, and arbitrary changes of what
  surrounds a component; the invariants are proved for all states they reach.

  \<^bold>\<open>What is shown.\<close> Money: transfers move whole units and conserve them, replicas that apply the same
  transactions in the same order agree, the supply stays within the cap, balances never become negative, escrow loses nothing and pays once. Authenticity: remote
  transfers, votes, attestations and upgrades are signed. Bounds: relay fees, vote weights, hourly and daily limits of minting, the
  number of archived proposals. Behaviour: which claim wins, when a hold expires, how votes decide, what a stake becomes,
  which changes of status a task can make, which task is offered next and who wins a race for it. Safety of self-modification: patches
  are atomic, keep the kernel files, and need the approvals the rules ask for. Every broadcast query settles once.
  Accounts: a claimed account logs in with its password and with no other, reclaiming guests conserves money; peers are quarantined exactly
  as the alerts say, and repeat offenders stay so.
  Resources: compute is offered only after it was contributed, routing picks the best node that can do the work, the market the cheapest.
  Scheduling: what is taken from the approved queue may run, the safety net leaves no finished family without a verdict, and the calls return when no
  task is its own ancestor. The crash guards act on repeated failures only, and the supervisor runs one node at a time.
  Upgrades happen completely or not at all, to approved commits. Round trips: snapshots, holds, projects and the state of upgrades survive a restart. Errors: where the code accepts what it should not, the theorem says exactly
  that (unsigned emissions, attestations counted twice, votes lost in catch-up, kernel files under another spelling, limits that never bind,
  a flood that is warned about and ignored from then on, profiles in another node's name or without contents, upgrades authorised by any passed
  proposal, a forged task that is its own parent and makes every report of it run without end, a rollback
  that the supervisor prevents and the circuit breaker makes useless, a restart that ends the node, a team taken from the node that runs it).

  \<^bold>\<open>Bounds.\<close> No definition uses fuel: loops are folds over finite lists or structural recursion. \<open>checkParentCompletion\<close>, whose recursion the code does not
  bound, is a \<open>partial_function (option)\<close>; that it returns is proved where no task is its own ancestor. Amounts are exact up to
  \<open>UNIT_LIMIT = 2 ^ 50\<close> units (about 11 million Lux) where a theorem says so; vote counts are exact up to \<open>2 ^ 40\<close>; overflow to infinity and NaN are outside
  the model of numbers.

  \<^bold>\<open>Not modelled.\<close> Pure input and output and the surrounding system: the HTTP API, command line, terminal and web front ends,
  cloud, deployment and language model adapters, and the libp2p wrapper, whose effects are arguments. Git, the
  shell, the host's commands and HTTP are parameters of the definitions that call them. The verdict of \<^verbatim>\<open>validateUpgradeProposal\<close> (git, the build
  and an AI review) is an argument, as are the migrations' results. Left out for their size, without interaction with the
  properties above: the built-in apps, the text filters of \<^verbatim>\<open>platform/content-safety.ts\<close>, whose content is a list of regular expressions, and the stores
  of project files and credentials.
\<close>

end
